(* ===== verification/Switch_Prelude.thy ===== *)
theory Switch_Prelude
  imports Main "HOL-Library.Word" "HOL-Library.Char_ord" "HOL-Library.List_Lexorder"
begin

text \<open>
  The prelude shared by every component of the development: the exceptions the Python sources
  raise and the \<open>except\<close> clauses they write, results of fallible code as sums, state-passing
  programs, 128-bit identifiers with their \<open>str\<close> and \<open>UUID(...)\<close> conversions, time stamps,
  JSON values, and the few SQL reads (\<open>one_or_none\<close>) every repository uses.
\<close>

section \<open>Exceptions and results\<close>

text \<open>
  The reasons a provider gives for refusing an effect (\<open>core.ProviderFailure\<close>), and the
  exceptions the modelled code raises or catches.
\<close>

datatype provider_failure =
    Invalid_request | Admission_denied | Authority_denied | Transient | Permanent | Unspecified

datatype py_error =
    ValueError
  | ValidationError
  | StaleWorkVersion int
  | OperationConflictError
  | UnknownWorkError
  | TypeError
  | KeyError
  | LookupError
  | PermissionError
  | RuntimeError
  | AssertionError
  | OSError
  | ProviderError provider_failure
  | UnknownEffect
  | SQLAlchemyError
  | IntegrityError

text \<open>
  The class tests behind the \<open>except\<close> clauses: \<open>ValidationError\<close>, \<open>StaleWorkVersion\<close>,
  \<open>OperationConflictError\<close> and \<open>UnknownWorkError\<close> are subclasses of \<open>ValueError\<close>,
  \<open>UnknownEffect\<close> of \<open>ProviderError\<close>, \<open>IntegrityError\<close> of \<open>SQLAlchemyError\<close>.
\<close>

fun is_value_error :: "py_error \<Rightarrow> bool" where
  "is_value_error ValueError = True"
| "is_value_error ValidationError = True"
| "is_value_error (StaleWorkVersion _) = True"
| "is_value_error OperationConflictError = True"
| "is_value_error UnknownWorkError = True"
| "is_value_error _ = False"

fun is_provider_error :: "py_error \<Rightarrow> bool" where
  "is_provider_error (ProviderError _) = True"
| "is_provider_error UnknownEffect = True"
| "is_provider_error _ = False"

fun is_sqlalchemy_error :: "py_error \<Rightarrow> bool" where
  "is_sqlalchemy_error SQLAlchemyError = True"
| "is_sqlalchemy_error IntegrityError = True"
| "is_sqlalchemy_error _ = False"

text \<open>A fallible computation returns \<open>Inl\<close> of the exception or \<open>Inr\<close> of its value.\<close>

type_synonym 'a py_result = "py_error + 'a"

text \<open>A stateful, fallible computation: the state survives an exception.\<close>

type_synonym ('s, 'a) prog = "'s \<Rightarrow> 'a py_result \<times> 's"

definition returnP :: "'a \<Rightarrow> ('s, 'a) prog" where
  "returnP x = (\<lambda>s. (Inr x, s))"

definition raiseP :: "py_error \<Rightarrow> ('s, 'a) prog" where
  "raiseP e = (\<lambda>s. (Inl e, s))"

definition bindP :: "('s, 'a) prog \<Rightarrow> ('a \<Rightarrow> ('s, 'b) prog) \<Rightarrow> ('s, 'b) prog" where
  "bindP m f = (\<lambda>s. case m s of (Inl e, s') \<Rightarrow> (Inl e, s') | (Inr x, s') \<Rightarrow> f x s')"

definition liftP :: "'a py_result \<Rightarrow> ('s, 'a) prog" where
  "liftP r = (\<lambda>s. (r, s))"

definition getsP :: "('s \<Rightarrow> 'a) \<Rightarrow> ('s, 'a) prog" where
  "getsP f = (\<lambda>s. (Inr (f s), s))"

lemma returnP_simp [simp]: "returnP x s = (Inr x, s)"
  by (simp add: returnP_def)

lemma raiseP_simp [simp]: "raiseP e s = (Inl e, s)"
  by (simp add: raiseP_def)

lemma liftP_simp [simp]: "liftP r s = (r, s)"
  by (simp add: liftP_def)

lemma getsP_simp [simp]: "getsP f s = (Inr (f s), s)"
  by (simp add: getsP_def)

lemma bindP_Inl: "m s = (Inl e, s') \<Longrightarrow> bindP m f s = (Inl e, s')"
  by (simp add: bindP_def)

lemma bindP_Inr: "m s = (Inr x, s') \<Longrightarrow> bindP m f s = f x s'"
  by (simp add: bindP_def)

lemma bindP_return [simp]: "bindP (returnP x) f = f x"
  by (rule ext) (simp add: bindP_def)

lemma bindP_raise [simp]: "bindP (raiseP e) f = raiseP e"
  by (rule ext) (simp add: bindP_def)

lemma bindP_assoc: "bindP (bindP m f) g = bindP m (\<lambda>x. bindP (f x) g)"
  by (rule ext) (auto simp: bindP_def split: prod.splits sum.splits)

text \<open>
  \<open>except\<close> around a call, local variables that outlive an exception (\<open>nonlocal\<close> flags a
  handler reads), and the \<open>try\<close> block that reads them when it catches.
\<close>

definition catchP :: "('s, 'a) prog \<Rightarrow> (py_error \<Rightarrow> ('s, 'a) prog) \<Rightarrow> ('s, 'a) prog" where
  "catchP m h = (\<lambda>s. case m s of (Inl e, s') \<Rightarrow> h e s' | (Inr x, s') \<Rightarrow> (Inr x, s'))"

definition liftL :: "('s, 'a) prog \<Rightarrow> ('s \<times> 'l, 'a) prog" where
  "liftL m = (\<lambda>(s, l). case m s of (r, s') \<Rightarrow> (r, (s', l)))"

definition setL :: "('l \<Rightarrow> 'l) \<Rightarrow> ('s \<times> 'l, unit) prog" where
  "setL f = (\<lambda>(s, l). (Inr (), (s, f l)))"

definition try_exceptL ::
  "'l \<Rightarrow> ('s \<times> 'l, 'a) prog \<Rightarrow> (py_error \<Rightarrow> 'l \<Rightarrow> 'a py_result) \<Rightarrow> ('s, 'a) prog" where
  "try_exceptL l m h = (\<lambda>s. case m (s, l) of
     (Inr x, (s', _)) \<Rightarrow> (Inr x, s') | (Inl e, (s', l')) \<Rightarrow> (h e l', s'))"

fun mapP :: "('a \<Rightarrow> ('s, 'b) prog) \<Rightarrow> 'a list \<Rightarrow> ('s, 'b list) prog" where
  "mapP f [] = returnP []"
| "mapP f (x # xs) = bindP (f x) (\<lambda>y. bindP (mapP f xs) (\<lambda>ys. returnP (y # ys)))"

text \<open>\<open>if value is None: return ...\<close>, then the code for a value.\<close>

abbreviation if_none :: "'a option \<Rightarrow> 'b \<Rightarrow> ('a \<Rightarrow> 'b) \<Rightarrow> 'b" where
  "if_none v d f \<equiv> case_option d f v"

text \<open>A run of a composed program ends normally only if its parts do.\<close>

lemma bindP_Inr_E:
  assumes "bindP m f s = (Inr y, s')"
  obtains x s1 where "m s = (Inr x, s1)" "f x s1 = (Inr y, s')"
  using assms by (auto simp: bindP_def split: prod.splits sum.splits)

lemma bindP_cases:
  assumes "bindP m f s = (r, s')"
  obtains (raise) e where "m s = (Inl e, s')" "r = Inl e"
    | (ok) x s1 where "m s = (Inr x, s1)" "f x s1 = (r, s')"
  using assms by (auto simp: bindP_def split: prod.splits sum.splits)

lemma bindP_Pair: "bindP m f s = (case m s of (Inl e, s') \<Rightarrow> (Inl e, s') | (Inr x, s') \<Rightarrow> f x s')"
  by (simp add: bindP_def)

lemma setL_simp [simp]: "setL f (s, l) = (Inr (), (s, f l))"
  by (simp add: setL_def)

definition bindE :: "'a py_result \<Rightarrow> ('a \<Rightarrow> 'b py_result) \<Rightarrow> 'b py_result" where
  "bindE r f = (case r of Inl e \<Rightarrow> Inl e | Inr x \<Rightarrow> f x)"

lemma bindE_simps [simp]: "bindE (Inl e) f = Inl e" "bindE (Inr x) f = f x"
  by (simp_all add: bindE_def)

lemma bindE_eq_Inr: "bindE r f = Inr y \<longleftrightarrow> (\<exists>x. r = Inr x \<and> f x = Inr y)"
  by (cases r) auto

section \<open>SQL reads\<close>

text \<open>
  \<open>Result.one_or_none()\<close>: the only row, \<open>None\<close> without rows, an error when there are several.
\<close>

fun one_or_none :: "'a list \<Rightarrow> 'a option py_result" where
  "one_or_none [] = Inr None"
| "one_or_none [x] = Inr (Some x)"
| "one_or_none (x # y # xs) = Inl SQLAlchemyError"

lemma one_or_none_Some: "one_or_none xs = Inr (Some x) \<longleftrightarrow> xs = [x]"
  by (cases xs rule: one_or_none.cases) auto

lemma one_or_none_None: "one_or_none xs = Inr None \<longleftrightarrow> xs = []"
  by (cases xs rule: one_or_none.cases) auto

text \<open>A table whose key column is unique answers a keyed read with at most one row.\<close>

lemma filter_key_distinct:
  assumes "distinct (map key rows)"
  shows "filter (\<lambda>r. key r = k) rows = [] \<or> (\<exists>r. filter (\<lambda>r. key r = k) rows = [r] \<and> key r = k)"
  using assms
proof (induction rows)
  case Nil
  then show ?case by simp
next
  case (Cons r rows)
  show ?case
  proof (cases "key r = k")
    case True
    with Cons.prems have "filter (\<lambda>r. key r = k) rows = []"
      by (force simp: filter_empty_conv image_iff)
    with True show ?thesis by simp
  next
    case False
    with Cons show ?thesis by simp
  qed
qed

lemma one_or_none_unique_key:
  assumes "distinct (map key rows)"
  shows "one_or_none (filter (\<lambda>r. key r = k) rows) = Inr (find (\<lambda>r. key r = k) rows)"
  using assms
proof (induction rows)
  case Nil
  then show ?case by simp
next
  case (Cons r rows)
  show ?case
  proof (cases "key r = k")
    case True
    with Cons.prems have "filter (\<lambda>r. key r = k) rows = []"
      by (force simp: filter_empty_conv image_iff)
    with True show ?thesis by simp
  next
    case False
    with Cons show ?thesis by simp
  qed
qed

text \<open>The first row with a key, under insertion and update of rows.\<close>

lemma find_append: "find P (xs @ ys) = (case find P xs of None \<Rightarrow> find P ys | Some x \<Rightarrow> Some x)"
  by (induction xs) auto

lemma find_key_None: "find (\<lambda>r. key r = k) rows = None \<longleftrightarrow> k \<notin> set (map key rows)"
  by (auto simp: find_None_iff)

lemma find_distinct_key:
  "distinct (map key rs) \<Longrightarrow> r \<in> set rs \<Longrightarrow> find (\<lambda>x. key x = key r) rs = Some r"
  by (induction rs) auto

lemma find_map_update:
  assumes "\<And>r. key (f r) = key r"
  shows "find (\<lambda>r. key r = k) (map (\<lambda>r. if key r = j then f r else r) rows)
    = map_option (\<lambda>r. if k = j then f r else r) (find (\<lambda>r. key r = k) rows)"
  using assms by (induction rows) auto

end
