(* ===== verification/Py_Ident.thy ===== *)
theory Py_Ident
  imports Complex_Main Switch_Prelude
begin

text \<open>
  Identifiers and texts of the Python runtime: \<open>uuid.UUID\<close> values as 128-bit words with
  \<open>str(u)\<close> and the parser \<open>UUID(text)\<close>, aware and naive time stamps, and the string tests
  (\<open>startswith\<close>, bounded fields, \<open>re\<close> digests) the models use. A Python string is a list of
  characters; the models never depend on characters outside the 8-bit range.
\<close>

section \<open>UUID values\<close>

type_synonym uuid = "128 word"

definition hex_digit :: "nat \<Rightarrow> char" where
  "hex_digit d = (if d < 10 then char_of (48 + d) else char_of (87 + d))"

fun hex_fixed :: "nat \<Rightarrow> nat \<Rightarrow> string" where
  "hex_fixed 0 v = []"
| "hex_fixed (Suc k) v = hex_fixed k (v div 16) @ [hex_digit (v mod 16)]"

text \<open>\<open>str(u)\<close>: 32 lower-case digits grouped 8-4-4-4-12.\<close>

definition uuid_str :: "uuid \<Rightarrow> string" where
  "uuid_str u =
     (let h = hex_fixed 32 (unat u) in
      take 8 h @ ''-'' @ take 4 (drop 8 h) @ ''-'' @ take 4 (drop 12 h) @ ''-''
      @ take 4 (drop 16 h) @ ''-'' @ drop 20 h)"

text \<open>The string operations \<open>UUID(text)\<close> applies before it reads the number.\<close>

fun strip_prefix :: "string \<Rightarrow> string \<Rightarrow> string option" where
  "strip_prefix [] s = Some s"
| "strip_prefix (p # ps) [] = None"
| "strip_prefix (p # ps) (c # cs) = (if p = c then strip_prefix ps cs else None)"

lemma strip_prefix_length: "strip_prefix p s = Some r \<Longrightarrow> length s = length p + length r"
  by (induction p s rule: strip_prefix.induct) (auto split: if_splits)

text \<open>\<open>s.replace(p, '')\<close> for a non-empty pattern.\<close>

function remove_all :: "string \<Rightarrow> string \<Rightarrow> string" where
  "remove_all p s =
     (if p = [] then s
      else case s of
        [] \<Rightarrow> []
      | c # cs \<Rightarrow> (case strip_prefix p s of
          Some r \<Rightarrow> remove_all p r
        | None \<Rightarrow> c # remove_all p cs))"
  by pat_completeness auto
termination
  by (relation "measure (\<lambda>(p, s). length s)")
     (auto dest: strip_prefix_length simp: neq_Nil_conv)

declare remove_all.simps [simp del]

definition strip_chars :: "(char \<Rightarrow> bool) \<Rightarrow> string \<Rightarrow> string" where
  "strip_chars p s = rev (dropWhile p (rev (dropWhile p s)))"

definition hex_value :: "char \<Rightarrow> nat option" where
  "hex_value c =
     (let n = (of_char c :: nat) in
      if 48 \<le> n \<and> n \<le> 57 then Some (n - 48)
      else if 97 \<le> n \<and> n \<le> 102 then Some (n - 87)
      else if 65 \<le> n \<and> n \<le> 70 then Some (n - 55)
      else None)"

text \<open>
  \<open>int(text, 16)\<close>: surrounding ASCII white space, a sign, a prefix \<open>0x\<close>, and digits that
  single underscores may separate.
\<close>

fun hex_digits :: "bool \<Rightarrow> nat \<Rightarrow> string \<Rightarrow> nat option" where
  "hex_digits after acc [] = (if after then Some acc else None)"
| "hex_digits after acc (c # cs) =
     (if c = CHR ''_'' then (if after then
         (case cs of [] \<Rightarrow> None | d # _ \<Rightarrow> (case hex_value d of None \<Rightarrow> None
            | Some _ \<Rightarrow> hex_digits False acc cs)) else None)
      else case hex_value c of None \<Rightarrow> None
           | Some v \<Rightarrow> hex_digits True (acc * 16 + v) cs)"

definition py_space :: "char \<Rightarrow> bool" where
  "py_space c = (let n = (of_char c :: nat) in (9 \<le> n \<and> n \<le> 13) \<or> (28 \<le> n \<and> n \<le> 32))"

definition strip_base :: "string \<Rightarrow> string" where
  "strip_base s =
     (case s of
        a # b # cs \<Rightarrow> if a = CHR ''0'' \<and> (b = CHR ''x'' \<or> b = CHR ''X'')
          then (case cs of c # ds \<Rightarrow> if c = CHR ''_'' then ds else cs | [] \<Rightarrow> cs) else s
      | _ \<Rightarrow> s)"

definition py_int16 :: "string \<Rightarrow> int option" where
  "py_int16 s =
     (let t = strip_chars py_space s in
      case t of
        [] \<Rightarrow> None
      | c # cs \<Rightarrow>
          (if c = CHR ''-'' then map_option (\<lambda>n. - int n) (hex_digits False 0 (strip_base cs))
           else if c = CHR ''+'' then map_option int (hex_digits False 0 (strip_base cs))
           else map_option int (hex_digits False 0 (strip_base t))))"

text \<open>\<open>UUID(text)\<close>; \<open>None\<close> where the constructor raises \<open>ValueError\<close>.\<close>

definition py_uuid :: "string \<Rightarrow> uuid option" where
  "py_uuid s =
     (let h = filter (\<lambda>c. c \<noteq> CHR ''-'')
                (strip_chars (\<lambda>c. c = CHR ''{'' \<or> c = CHR ''}'') (remove_all ''uuid:'' (remove_all ''urn:'' s)))
      in if length h \<noteq> 32 then None
         else case py_int16 h of
           None \<Rightarrow> None
         | Some n \<Rightarrow> if 0 \<le> n \<and> n < 2 ^ 128 then Some (word_of_int n) else None)"

section \<open>The round trip\<close>

definition hex_chars :: "char set" where
  "hex_chars = hex_digit ` {..<16}"

lemma hex_digit_in [simp]: "d < 16 \<Longrightarrow> hex_digit d \<in> hex_chars"
  by (simp add: hex_chars_def)

lemma length_hex_fixed [simp]: "length (hex_fixed k v) = k"
  by (induction k arbitrary: v) auto

lemma set_hex_fixed: "set (hex_fixed k v) \<subseteq> hex_chars"
  by (induction k arbitrary: v) auto

lemma hex_chars_code:
  "hex_chars = set ''0123456789abcdef''"
  by (simp add: hex_chars_def hex_digit_def lessThan_nat_numeral lessThan_Suc char_of_def
      insert_commute eq_commute) (code_simp)


lemma hex_value_digit: "d < 16 \<Longrightarrow> hex_value (hex_digit d) = Some d"
  by (auto simp: hex_value_def hex_digit_def Let_def)

lemma hex_digits_fixed:
  "(k \<noteq> 0 \<or> after) \<Longrightarrow> hex_digits after acc (hex_fixed k v @ cs)
     = hex_digits True (acc * 16 ^ k + v mod 16 ^ k) cs"
proof (induction k arbitrary: v cs after)
  case 0
  then show ?case by simp
next
  case (Suc k)
  have us: "hex_digit (v mod 16) \<noteq> CHR ''_''"
    using hex_digit_in [of "v mod 16"] by (auto simp: hex_chars_code)
  have step: "hex_digits a b (hex_digit (v mod 16) # cs) = hex_digits True (b * 16 + v mod 16) cs" for a b
    using us by (simp add: hex_value_digit)
  have mods: "(v div 16) mod 16 ^ k * 16 + v mod 16 = v mod (16 ^ Suc k)"
    using mod_mult2_eq [of v 16 "16 ^ k"] by simp
  show ?case
  proof (cases "k = 0")
    case True
    with step show ?thesis by simp
  next
    case False
    then have "hex_digits after acc (hex_fixed (Suc k) v @ cs)
        = hex_digits True (acc * 16 ^ k + (v div 16) mod 16 ^ k) (hex_digit (v mod 16) # cs)"
      using Suc.IH [of after "v div 16" "hex_digit (v mod 16) # cs"] by simp
    also have "\<dots> = hex_digits True ((acc * 16 ^ k + (v div 16) mod 16 ^ k) * 16 + v mod 16) cs"
      by (rule step)
    also have "(acc * 16 ^ k + (v div 16) mod 16 ^ k) * 16 + v mod 16
        = acc * 16 ^ Suc k + v mod 16 ^ Suc k"
      unfolding mods [symmetric] by (simp add: algebra_simps)
    finally show ?thesis by simp
  qed
qed

lemma remove_all_absent: "p \<noteq> [] \<Longrightarrow> hd p \<notin> set s \<Longrightarrow> remove_all p s = s"
proof (induction s)
  case Nil
  then show ?case by (simp add: remove_all.simps)
next
  case (Cons c s)
  then obtain a ps where "p = a # ps" by (auto simp: neq_Nil_conv)
  with Cons show ?case by (subst remove_all.simps) auto
qed

lemma dropWhile_absent: "(\<And>c. c \<in> set s \<Longrightarrow> \<not> p c) \<Longrightarrow> dropWhile p s = s"
  by (cases s) auto

lemma strip_chars_absent:
  assumes "\<And>c. c \<in> set s \<Longrightarrow> \<not> p c"
  shows "strip_chars p s = s"
proof -
  have "dropWhile p s = s" "dropWhile p (rev s) = rev s"
    using assms by (auto intro: dropWhile_absent)
  then show ?thesis by (simp add: strip_chars_def)
qed

lemma uuid_str_set: "set (uuid_str u) \<subseteq> insert (CHR ''-'') hex_chars"
  using set_hex_fixed [of 32 "unat u"]
  by (auto simp: uuid_str_def Let_def dest!: in_set_takeD in_set_dropD)

lemma uuid_str_undash:
  "filter (\<lambda>c. c \<noteq> CHR ''-'') (uuid_str u) = hex_fixed 32 (unat u)"
proof -
  let ?h = "hex_fixed 32 (unat u)"
  have nodash: "filter (\<lambda>c. c \<noteq> CHR ''-'') xs = xs" if "set xs \<subseteq> set ?h" for xs
    using that set_hex_fixed [of 32 "unat u"] by (auto simp: filter_id_conv hex_chars_code)
  have sub: "set (take n (drop m ?h)) \<subseteq> set ?h" "set (take n ?h) \<subseteq> set ?h"
    "set (drop m ?h) \<subseteq> set ?h" for n m
    by (auto dest: in_set_takeD in_set_dropD)
  have join: "take 4 (drop 16 ?h) @ drop 20 ?h = drop 16 ?h"
    "take 4 (drop 12 ?h) @ drop 16 ?h = drop 12 ?h"
    "take 4 (drop 8 ?h) @ drop 12 ?h = drop 8 ?h"
    using append_take_drop_id [of 4 "drop 16 ?h"] append_take_drop_id [of 4 "drop 12 ?h"]
      append_take_drop_id [of 4 "drop 8 ?h"] by (simp_all only: drop_drop) simp_all
  have "filter (\<lambda>c. c \<noteq> CHR ''-'') (uuid_str u)
      = take 8 ?h @ take 4 (drop 8 ?h) @ take 4 (drop 12 ?h) @ take 4 (drop 16 ?h) @ drop 20 ?h"
    unfolding uuid_str_def Let_def filter_append nodash [OF sub(1)] nodash [OF sub(2)] nodash [OF sub(3)]
    by simp
  also have "\<dots> = ?h"
    by (simp only: join append_take_drop_id)
  finally show ?thesis .
qed

lemma py_int16_hex:
  assumes "k > 1"
  shows "py_int16 (hex_fixed k v) = Some (int (v mod 16 ^ k))"
proof -
  let ?h = "hex_fixed k v"
  have hs: "set ?h \<subseteq> set ''0123456789abcdef''"
    using set_hex_fixed [of k v] by (simp only: hex_chars_code)
  obtain a b cs where h: "?h = a # b # cs"
    using assms length_hex_fixed [of k v]
    by (metis One_nat_def length_Cons less_numeral_extra(4) list.size(3) neq_Nil_conv not_less_zero)
  have ab: "a \<in> set ''0123456789abcdef''" "b \<in> set ''0123456789abcdef''"
    using hs unfolding h by simp_all
  have nospace: "\<not> py_space c" if "c \<in> set ''0123456789abcdef''" for c
    using that by (auto simp: py_space_def)
  have strip: "strip_chars py_space ?h = ?h"
    using hs nospace by (intro strip_chars_absent) blast
  have base: "strip_base ?h = ?h"
    using ab unfolding h strip_base_def by auto
  have "hex_digits False 0 ?h = Some (v mod 16 ^ k)"
    using hex_digits_fixed [of k False 0 v "[]"] assms by simp
  with ab h strip base show ?thesis
    by (auto simp: py_int16_def Let_def)
qed

theorem py_uuid_str [simp]: "py_uuid (uuid_str u) = Some u"
proof -
  let ?h = "hex_fixed 32 (unat u)"
  have abs: "remove_all ''urn:'' (uuid_str u) = uuid_str u"
    "remove_all ''uuid:'' (uuid_str u) = uuid_str u"
    "strip_chars (\<lambda>c. c = CHR ''{'' \<or> c = CHR ''}'') (uuid_str u) = uuid_str u"
    using uuid_str_set [of u]
    by (auto intro!: remove_all_absent strip_chars_absent simp: hex_chars_code)
  have lt: "unat u < 2 ^ 128"
    using unsigned_less [of u] by simp
  then have lti: "uint u < 2 ^ 128"
    by (metis of_nat_less_iff of_nat_numeral of_nat_power uint_nat)
  have "py_int16 ?h = Some (int (unat u mod 16 ^ 32))"
    by (rule py_int16_hex) simp
  also have "unat u mod 16 ^ 32 = unat u"
    using lt by simp
  finally have "py_int16 ?h = Some (int (unat u))" .
  with abs lti show ?thesis
    by (simp add: py_uuid_def uuid_str_undash Let_def)
qed

lemma uuid_str_inject [simp]: "uuid_str u = uuid_str v \<longleftrightarrow> u = v"
  by (metis option.inject py_uuid_str)

lemma uuid_str_eq_iff: "s = uuid_str u \<longleftrightarrow> py_uuid s = Some u \<and> s = uuid_str (the (py_uuid s))"
  by auto

lemma length_uuid_str [simp]: "length (uuid_str u) = 36"
  by (simp add: uuid_str_def Let_def)

section \<open>Time stamps\<close>

text \<open>
  A \<open>datetime\<close>: aware values carry their UTC instant in microseconds, naive ones have no offset.
\<close>

datatype py_datetime = Aware int | Naive int

fun is_aware :: "py_datetime \<Rightarrow> bool" where
  "is_aware (Aware _) = True"
| "is_aware (Naive _) = False"

section \<open>Strings\<close>

definition starts_with :: "string \<Rightarrow> string \<Rightarrow> bool" where
  "starts_with s p = (take (length p) s = p)"

lemma starts_with_append [simp]: "starts_with (p @ s) p"
  by (simp add: starts_with_def)

text \<open>\<open>Field(min_length=lo, max_length=hi)\<close> on an optional string.\<close>

definition opt_min1 :: "string option \<Rightarrow> bool" where
  "opt_min1 v = (case v of None \<Rightarrow> True | Some s \<Rightarrow> s \<noteq> [])"

definition opt_max :: "nat \<Rightarrow> string option \<Rightarrow> bool" where
  "opt_max n v = (case v of None \<Rightarrow> True | Some s \<Rightarrow> length s \<le> n)"

text \<open>\<open>re.compile(r'[0-9a-f]{n}').fullmatch(s)\<close>.\<close>

definition lower_hex :: "nat \<Rightarrow> string \<Rightarrow> bool" where
  "lower_hex n s = (length s = n \<and> list_all (\<lambda>c. c \<in> set ''0123456789abcdef'') s)"

section \<open>JSON values\<close>

text \<open>
  Values \<open>json.dumps\<close> and a \<open>JSONB\<close> column accept. Digests of such values
  (\<open>hashlib.sha256(json.dumps(...))\<close>) are a parameter \<open>json \<Rightarrow> string\<close> of the models that
  compare them.
\<close>

datatype json =
    JNull | JBool bool | JInt int | JFloat rat | JStr string | JList "json list" | JObj "(string \<times> json) list"

text \<open>\<open>value.get(key)\<close> on a JSON object.\<close>

fun json_get :: "json \<Rightarrow> string \<Rightarrow> json option" where
  "json_get (JObj kvs) k = map_of kvs k"
| "json_get _ k = None"

definition json_opt :: "('a \<Rightarrow> json) \<Rightarrow> 'a option \<Rightarrow> json" where
  "json_opt f v = (case v of None \<Rightarrow> JNull | Some x \<Rightarrow> f x)"

abbreviation json_uuid :: "uuid \<Rightarrow> json" where
  "json_uuid u \<equiv> JStr (uuid_str u)"

end
