(* ===== verification/Contracts.thy ===== *)
theory Contracts
  imports Py_Ident
begin

text \<open>
  The public work contracts of \<open>src/switchstand/contracts.py\<close>: the closed models as records,
  their field constraints and model validators as predicates, and the read authority of one
  launch. A Pydantic model is constructed exactly when its predicate holds.
\<close>

section \<open>Routing and work items\<close>

datatype status = S_ok | S_stale | S_denied | S_unknown | S_provider_error

record routing =
  rt_priority :: "string option"
  rt_work_type :: "string option"
  rt_horizon :: "string option"
  rt_review_next_action :: "string option"
  rt_stage3_gate :: "string option"
  rt_lifecycle_state :: "string option"
  rt_canonical_root :: "string option"
  rt_owner_key :: "string option"
  rt_wait_kind :: "string option"
  rt_unblock_condition :: "string option"
  rt_next_due :: "string option"
  rt_next_action_class :: "string option"
  rt_next_action_ref :: "string option"

definition lifecycle_states :: "string list" where
  "lifecycle_states = [''CURRENT'', ''WAITING'', ''DEFERRED'', ''TERMINAL'', ''UNKNOWN'']"

text \<open>The root check shared by \<open>Routing\<close>, \<open>WorkPatch\<close> and \<open>ScalarPatch\<close>.\<close>

definition root_text_ok :: "string option \<Rightarrow> bool" where
  "root_text_ok r =
     (case r of
        None \<Rightarrow> True
      | Some s \<Rightarrow> s = ''NONE'' \<or> s = ''UNKNOWN'' \<or> py_uuid s \<noteq> None)"

definition valid_routing :: "routing \<Rightarrow> bool" where
  "valid_routing r =
     (list_all opt_min1 [rt_canonical_root r, rt_owner_key r, rt_wait_kind r,
         rt_unblock_condition r, rt_next_due r, rt_next_action_class r, rt_next_action_ref r]
      \<and> (case rt_lifecycle_state r of None \<Rightarrow> True | Some s \<Rightarrow> s \<in> set lifecycle_states)
      \<and> root_text_ok (rt_canonical_root r))"

record work_placement =
  wp_area :: string
  wp_stage :: "string option"

record work_context =
  wc_assignee :: "string option"
  wc_placements :: "work_placement list"

record work_source =
  ws_provider :: string
  ws_task_gid :: string

record work_item =
  wi_id :: uuid
  wi_title :: string
  wi_notes :: string
  wi_task_text :: "string option"
  wi_task_approval_id :: "uuid option"
  wi_task_approval_digest :: "string option"
  wi_completed :: bool
  wi_revision :: string
  wi_routing :: routing
  wi_context :: work_context
  wi_source :: "work_source option"
  wi_admitted_at :: "py_datetime option"

section \<open>Patches\<close>

text \<open>
  A patch is read by field name (\<open>getattr\<close>) and knows which fields the caller set
  (\<open>model_fields_set\<close>): an unset field is \<open>None\<close>, a field set to null is \<open>Some None\<close>.
\<close>

datatype work_field =
    Title | Notes | Completed | Priority | Work_type | Horizon | Review_next_action | Stage3_gate
  | Lifecycle_state | Canonical_root | Owner_key | Wait_kind | Unblock_condition | Next_due
  | Next_action_class | Next_action_ref

definition work_fields :: "work_field list" where
  "work_fields = [Title, Notes, Completed, Priority, Work_type, Horizon, Review_next_action,
     Stage3_gate, Lifecycle_state, Canonical_root, Owner_key, Wait_kind, Unblock_condition,
     Next_due, Next_action_class, Next_action_ref]"

lemma work_fields_all [simp]: "f \<in> set work_fields"
  by (cases f) (simp_all add: work_fields_def)

datatype scalar = Text string | Flag bool

type_synonym patch = "work_field \<Rightarrow> scalar option option"

definition fields_set :: "patch \<Rightarrow> work_field list" where
  "fields_set p = filter (\<lambda>f. p f \<noteq> None) work_fields"

lemma fields_set_iff [simp]: "f \<in> set (fields_set p) \<longleftrightarrow> p f \<noteq> None"
  by (simp add: fields_set_def)

text \<open>\<open>getattr(patch, field)\<close>: an unset field has its default \<open>None\<close>.\<close>

definition patch_get :: "patch \<Rightarrow> work_field \<Rightarrow> scalar option" where
  "patch_get p f = (case p f of None \<Rightarrow> None | Some v \<Rightarrow> v)"

definition text_of :: "scalar option \<Rightarrow> string option" where
  "text_of v = (case v of Some (Text s) \<Rightarrow> Some s | _ \<Rightarrow> None)"

text \<open>The declared type and length constraint of one \<open>WorkPatch\<close> field.\<close>

fun work_patch_field_ok :: "work_field \<Rightarrow> scalar \<Rightarrow> bool" where
  "work_patch_field_ok Title (Text s) = (1 \<le> length s \<and> length s \<le> 500)"
| "work_patch_field_ok Notes (Text s) = (length s \<le> 8000)"
| "work_patch_field_ok Completed (Flag b) = True"
| "work_patch_field_ok Horizon (Text s) = True"
| "work_patch_field_ok Review_next_action (Text s) = True"
| "work_patch_field_ok Stage3_gate (Text s) = True"
| "work_patch_field_ok Lifecycle_state (Text s) = (s \<in> set lifecycle_states)"
| "work_patch_field_ok Completed (Text s) = False"
| "work_patch_field_ok f (Text s) = (1 \<le> length s)"
| "work_patch_field_ok f (Flag b) = False"

definition fields_typed :: "(work_field \<Rightarrow> scalar \<Rightarrow> bool) \<Rightarrow> patch \<Rightarrow> bool" where
  "fields_typed ok p =
     list_all (\<lambda>f. case p f of Some (Some v) \<Rightarrow> ok f v | _ \<Rightarrow> True) work_fields"

text \<open>\<open>WorkPatch\<close> with its validator \<open>valid_patch\<close>.\<close>

definition valid_patch :: "patch \<Rightarrow> bool" where
  "valid_patch p =
     (fields_typed work_patch_field_ok p
      \<and> fields_set p \<noteq> []
      \<and> list_all (\<lambda>f. patch_get p f \<noteq> None) (fields_set p)
      \<and> root_text_ok (text_of (patch_get p Canonical_root))
      \<and> (list_ex (\<lambda>f. f \<in> {Horizon, Review_next_action, Stage3_gate}) (fields_set p)
         \<longrightarrow> Notes \<in> set (fields_set p)))"

section \<open>Requests\<close>

record search_request =
  sr_text :: "string option"
  sr_completed :: "bool option"
  sr_lifecycle_state :: "string option"
  sr_owner_key :: "string option"
  sr_priority :: "string option"
  sr_work_type :: "string option"
  sr_canonical_root :: "string option"
  sr_cursor :: "string option"
  sr_limit :: int

definition valid_search_request :: "search_request \<Rightarrow> bool" where
  "valid_search_request r =
     (list_all opt_min1 [sr_text r, sr_lifecycle_state r, sr_owner_key r, sr_priority r,
         sr_work_type r, sr_canonical_root r, sr_cursor r]
      \<and> opt_max 500 (sr_text r) \<and> opt_max 1024 (sr_cursor r)
      \<and> 1 \<le> sr_limit r \<and> sr_limit r \<le> 100)"

record history_request =
  hr_work_id :: uuid
  hr_observed_revision :: string
  hr_cursor :: "string option"
  hr_limit :: int

definition valid_history_request :: "history_request \<Rightarrow> bool" where
  "valid_history_request r =
     (hr_observed_revision r \<noteq> [] \<and> 1 \<le> hr_limit r \<and> hr_limit r \<le> 100)"

record event_request =
  er_work_id :: uuid
  er_event_id :: uuid
  er_observed_revision :: string

record update_request =
  ur_work_id :: uuid
  ur_observed_revision :: string
  ur_patch :: patch

record append_request =
  ar_work_id :: uuid
  ar_text :: string

section \<open>Results and their validators\<close>

record search_item =
  si_id :: uuid
  si_title :: string
  si_completed :: bool
  si_revision :: string
  si_routing :: routing
  si_context :: work_context
  si_admitted_at :: "py_datetime option"

record search_result =
  srr_status :: status
  srr_items :: "search_item list"
  srr_next_cursor :: "string option"

definition valid_search_result :: "search_result \<Rightarrow> bool" where
  "valid_search_result r =
     (srr_status r \<noteq> S_stale
      \<and> (srr_status r \<noteq> S_ok \<longrightarrow> srr_items r = [] \<and> srr_next_cursor r = None))"

record structure_result =
  st_status :: status
  st_work_id :: "uuid option"
  st_revision :: "string option"
  st_parent :: "search_item option"
  st_children :: "search_item list"

definition valid_structure_result :: "structure_result \<Rightarrow> bool" where
  "valid_structure_result r =
     (let relations = st_parent r \<noteq> None \<or> st_children r \<noteq> [];
          ids = map si_id (st_children r) @
                (case st_parent r of None \<Rightarrow> [] | Some p \<Rightarrow> [si_id p])
      in case st_status r of
           S_ok \<Rightarrow> st_work_id r \<noteq> None \<and> st_revision r \<noteq> None
                  \<and> the (st_work_id r) \<notin> set ids \<and> distinct ids
         | S_stale \<Rightarrow> st_work_id r \<noteq> None \<and> st_revision r \<noteq> None \<and> \<not> relations
         | _ \<Rightarrow> st_work_id r = None \<and> st_revision r = None \<and> \<not> relations)"

record work_result =
  wr_status :: status
  wr_item :: "work_item option"

definition valid_work_result :: "work_result \<Rightarrow> bool" where
  "valid_work_result r = ((wr_status r \<in> {S_ok, S_stale}) = (wr_item r \<noteq> None))"

record append_result =
  apr_status :: status
  apr_task_gid :: "string option"
  apr_story_gid :: "string option"

definition valid_append_result :: "append_result \<Rightarrow> bool" where
  "valid_append_result r =
     (apr_status r \<noteq> S_stale
      \<and> (if apr_status r = S_ok then apr_task_gid r \<noteq> None \<and> apr_story_gid r \<noteq> None
         else apr_task_gid r = None \<and> apr_story_gid r = None))"

record work_event =
  we_id :: uuid
  we_work_id :: uuid
  we_subtype :: "string option"
  we_text :: "string option"
  we_created_at :: string
  we_actor :: "string option"

record history_result =
  hs_status :: status
  hs_work_id :: "uuid option"
  hs_revision :: "string option"
  hs_events :: "work_event list"
  hs_next_cursor :: "string option"

definition valid_history_result :: "history_result \<Rightarrow> bool" where
  "valid_history_result r =
     (case hs_status r of
        S_ok \<Rightarrow> hs_work_id r \<noteq> None \<and> hs_revision r \<noteq> None
               \<and> list_all (\<lambda>e. Some (we_work_id e) = hs_work_id r) (hs_events r)
      | S_stale \<Rightarrow> hs_work_id r \<noteq> None \<and> hs_revision r \<noteq> None \<and> hs_events r = []
                  \<and> hs_next_cursor r = None
      | _ \<Rightarrow> hs_work_id r = None \<and> hs_revision r = None \<and> hs_events r = []
             \<and> hs_next_cursor r = None)"

record event_result =
  ev_status :: status
  ev_work_id :: "uuid option"
  ev_revision :: "string option"
  ev_item :: "work_event option"

definition valid_event_result :: "event_result \<Rightarrow> bool" where
  "valid_event_result r =
     (case ev_status r of
        S_ok \<Rightarrow> ev_work_id r \<noteq> None \<and> ev_revision r \<noteq> None \<and> ev_item r \<noteq> None
               \<and> Some (we_work_id (the (ev_item r))) = ev_work_id r
      | S_stale \<Rightarrow> ev_work_id r \<noteq> None \<and> ev_revision r \<noteq> None \<and> ev_item r = None
      | _ \<Rightarrow> ev_work_id r = None \<and> ev_revision r = None \<and> ev_item r = None)"

section \<open>Launch authority\<close>

record launch_authority =
  la_active_work_id :: uuid
  la_reference_work_ids :: "uuid list"

text \<open>\<open>LaunchAuthority\<close>: at most eight references, the handles pairwise distinct.\<close>

definition bounded_authority :: "launch_authority \<Rightarrow> bool" where
  "bounded_authority a =
     (length (la_reference_work_ids a) \<le> 8
      \<and> la_active_work_id a \<notin> set (la_reference_work_ids a)
      \<and> distinct (la_reference_work_ids a))"

definition authority_can_read :: "launch_authority \<Rightarrow> uuid \<Rightarrow> bool" where
  "authority_can_read a w = (w = la_active_work_id a \<or> w \<in> set (la_reference_work_ids a))"

text \<open>A valid authority reads at most nine works.\<close>

lemma authority_reads_bounded:
  assumes "bounded_authority a"
  shows "finite {w. authority_can_read a w} \<and> card {w. authority_can_read a w} \<le> 9"
proof -
  have eq: "{w. authority_can_read a w} = insert (la_active_work_id a) (set (la_reference_work_ids a))"
    by (auto simp: authority_can_read_def)
  have "card (set (la_reference_work_ids a)) \<le> 8"
    using assms card_length [of "la_reference_work_ids a"] by (simp add: bounded_authority_def)
  then show ?thesis
    unfolding eq by (simp add: card_insert_if)
qed

lemma valid_patch_values:
  assumes "valid_patch p" and "p f \<noteq> None"
  shows "\<exists>v. p f = Some (Some v) \<and> work_patch_field_ok f v"
proof -
  from assms have "patch_get p f \<noteq> None" and "fields_typed work_patch_field_ok p"
    by (auto simp: valid_patch_def list_all_iff)
  with assms(2) show ?thesis
    by (auto simp: patch_get_def fields_typed_def list_all_iff split: option.splits)
qed

end
