(* ===== verification/Grants.thy ===== *)
theory Grants
  imports Complex_Main Contracts
begin

text \<open>
  Callers, grants, protected requests, receipts and guard outcomes of
  \<open>src/switchstand/grants.py\<close>, with the validators every instance passes. The wall clock
  (\<open>datetime.now(UTC)\<close>) is an argument.
\<close>

section \<open>Principals and grants\<close>

datatype assurance = Test_assurance | Authenticated

record principal =
  pr_issuer :: string
  pr_subject :: string
  pr_client_id :: string
  pr_assurance :: assurance

definition valid_principal :: "principal \<Rightarrow> bool" where
  "valid_principal p = (pr_issuer p \<noteq> [] \<and> pr_subject p \<noteq> [] \<and> pr_client_id p \<noteq> [])"

datatype grant_operation =
    Work_get | Work_search | Work_append | Work_create | Work_update | Work_relate
  | Priority_claim | Message | Agent_task | Implementation_request | Activation_continuity
  | Task_control | File_issue | Project_create

datatype grant_scope = Launch | Workspace

datatype grant_state = Active | Revoked | Terminal

record work_grant =
  wg_id :: uuid
  wg_version :: int
  wg_principal :: principal
  wg_authority :: launch_authority
  wg_scope :: grant_scope
  wg_operations :: "grant_operation set"
  wg_issuer :: string
  wg_provenance :: string
  wg_expires_at :: int
  wg_state :: grant_state
  wg_append_qualification :: "string option"
  wg_create_qualification :: "string option"
  wg_report_qualification :: "string option"
  wg_update_qualification :: "string option"
  wg_relation_qualification :: "string option"
  wg_priority_claim_qualification :: "string option"

definition valid_grant :: "work_grant \<Rightarrow> bool" where
  "valid_grant g =
     (1 \<le> wg_version g \<and> valid_principal (wg_principal g) \<and> bounded_authority (wg_authority g)
      \<and> wg_issuer g \<noteq> [] \<and> wg_provenance g \<noteq> []
      \<and> list_all opt_min1 [wg_append_qualification g, wg_create_qualification g,
          wg_report_qualification g, wg_update_qualification g, wg_relation_qualification g,
          wg_priority_claim_qualification g])"

definition grant_current :: "int \<Rightarrow> work_grant \<Rightarrow> bool" where
  "grant_current now g = (wg_state g = Active \<and> wg_expires_at g > now)"

definition grant_can_read :: "work_grant \<Rightarrow> uuid \<Rightarrow> bool \<Rightarrow> bool" where
  "grant_can_read g w explicit_target =
     (if wg_scope g = Workspace then explicit_target else authority_can_read (wg_authority g) w)"

definition grant_can_write :: "work_grant \<Rightarrow> uuid \<Rightarrow> bool" where
  "grant_can_write g w =
     (if wg_scope g = Workspace then True else w = la_active_work_id (wg_authority g))"

text \<open>
  A grant expires once and for all, and what it may write it may also read when the target is
  named explicitly.
\<close>

lemma grant_current_antimono: "grant_current t g \<Longrightarrow> t' \<le> t \<Longrightarrow> grant_current t' g"
  by (simp add: grant_current_def)

lemma grant_write_implies_read: "grant_can_write g w \<Longrightarrow> grant_can_read g w True"
  by (auto simp: grant_can_write_def grant_can_read_def authority_can_read_def split: if_splits)

section \<open>Protected requests\<close>

record protected_append =
  pa_operation_id :: uuid
  pa_work_id :: uuid
  pa_grant_version :: int
  pa_observed_revision :: string
  pa_text :: string
  pa_confirm_cancels_review :: bool

definition valid_protected_append :: "protected_append \<Rightarrow> bool" where
  "valid_protected_append r =
     (1 \<le> pa_grant_version r \<and> pa_observed_revision r \<noteq> []
      \<and> 1 \<le> length (pa_text r) \<and> length (pa_text r) \<le> 8000)"

record protected_create =
  pc_operation_id :: uuid
  pc_grant_version :: int
  pc_title :: string
  pc_notes :: string
  pc_priority :: string
  pc_work_type :: string
  pc_lifecycle_state :: string
  pc_canonical_root :: "string option"
  pc_owner_key :: string
  pc_wait_kind :: string
  pc_unblock_condition :: string
  pc_next_due :: string
  pc_next_action_class :: string
  pc_next_action_ref :: string
  pc_parent_work_id :: "uuid option"
  pc_project_id :: "uuid option"
  pc_project_gid :: "string option"

definition digits_only :: "string \<Rightarrow> bool" where
  "digits_only s = (s \<noteq> [] \<and> list_all (\<lambda>c. c \<in> set ''0123456789'') s)"

definition opt_digits :: "string option \<Rightarrow> bool" where
  "opt_digits v = (case v of None \<Rightarrow> True | Some s \<Rightarrow> digits_only s)"

text \<open>\<open>ProtectedCreate.is_capture\<close>: the fixed shape of an untriaged capture.\<close>

definition is_capture :: "protected_create \<Rightarrow> bool" where
  "is_capture r =
     ((pc_work_type r, pc_lifecycle_state r, pc_owner_key r, pc_wait_kind r,
       pc_unblock_condition r, pc_next_due r, pc_next_action_class r, pc_next_action_ref r)
      = (''Task'', ''WAITING'', ''NONE'', ''TRIAGE'', ''ASSIGNMENT_REQUIRED'',
         ''UNSCHEDULED'', ''NONE'', ''NONE''))"

definition count_some :: "bool list \<Rightarrow> nat" where
  "count_some bs = length (filter id bs)"

definition valid_protected_create :: "protected_create \<Rightarrow> bool" where
  "valid_protected_create r =
     (1 \<le> pc_grant_version r
      \<and> 1 \<le> length (pc_title r) \<and> length (pc_title r) \<le> 500 \<and> length (pc_notes r) \<le> 8000
      \<and> list_all (\<lambda>s. s \<noteq> []) [pc_priority r, pc_work_type r, pc_owner_key r, pc_wait_kind r,
          pc_unblock_condition r, pc_next_due r, pc_next_action_class r, pc_next_action_ref r]
      \<and> pc_lifecycle_state r \<in> set lifecycle_states
      \<and> opt_min1 (pc_canonical_root r) \<and> opt_digits (pc_project_gid r)
      \<and> (let targets = count_some [pc_parent_work_id r \<noteq> None, pc_project_id r \<noteq> None,
                                   pc_project_gid r \<noteq> None]
         in targets = 1 \<or> (targets = 0 \<and> is_capture r)))"

datatype feedback_class = FB_new | FB_amend | FB_duplicate | FB_sub_item | FB_related

datatype code_status = CS_fixed | CS_candidate_exists | CS_in_progress | CS_no_matching_change

record protected_feedback =
  pf_operation_id :: uuid
  pf_grant_version :: int
  pf_source_work_id :: uuid
  pf_observed_source_revision :: string
  pf_classification :: feedback_class
  pf_target_work_id :: "uuid option"
  pf_observed_target_revision :: "string option"
  pf_code_status :: "code_status option"
  pf_fork_runtime_seconds :: "rat option"
  pf_critical_path_wait_seconds :: "rat option"

definition opt_nonneg :: "rat option \<Rightarrow> bool" where
  "opt_nonneg v = (case v of None \<Rightarrow> True | Some x \<Rightarrow> 0 \<le> x)"

text \<open>
  \<open>ProtectedFeedbackClassification.exact_target\<close>, its last test as the source writes it:
  no code status exactly when some timing is missing.
\<close>

definition valid_protected_feedback :: "protected_feedback \<Rightarrow> bool" where
  "valid_protected_feedback r =
     (1 \<le> pf_grant_version r \<and> pf_observed_source_revision r \<noteq> []
      \<and> opt_min1 (pf_observed_target_revision r)
      \<and> opt_nonneg (pf_fork_runtime_seconds r) \<and> opt_nonneg (pf_critical_path_wait_seconds r)
      \<and> (let targeted = pf_classification r \<noteq> FB_new in
           targeted = (pf_target_work_id r \<noteq> None)
           \<and> targeted = (pf_observed_target_revision r \<noteq> None))
      \<and> pf_target_work_id r \<noteq> Some (pf_source_work_id r)
      \<and> ((pf_code_status r = None)
           = (pf_fork_runtime_seconds r = None \<or> pf_critical_path_wait_seconds r = None)))"

section \<open>Scalar and relation patches\<close>

text \<open>
  \<open>ScalarPatch\<close> declares neither \<open>horizon\<close> nor \<open>stage3_gate\<close> (extra fields are forbidden) and
  wants a non-empty \<open>review_next_action\<close>; it does not ask for notes.
\<close>

fun scalar_patch_field_ok :: "work_field \<Rightarrow> scalar \<Rightarrow> bool" where
  "scalar_patch_field_ok Review_next_action (Text s) = (1 \<le> length s)"
| "scalar_patch_field_ok f v = work_patch_field_ok f v"

definition valid_scalar_patch :: "patch \<Rightarrow> bool" where
  "valid_scalar_patch p =
     (p Horizon = None \<and> p Stage3_gate = None
      \<and> fields_typed scalar_patch_field_ok p
      \<and> fields_set p \<noteq> []
      \<and> list_all (\<lambda>f. patch_get p f \<noteq> None) (fields_set p)
      \<and> root_text_ok (text_of (patch_get p Canonical_root)))"

record protected_update =
  pu_operation_id :: uuid
  pu_work_id :: uuid
  pu_grant_version :: int
  pu_observed_revision :: string
  pu_patch :: patch
  pu_confirm_cancels_review :: bool

definition valid_protected_update :: "protected_update \<Rightarrow> bool" where
  "valid_protected_update r =
     (1 \<le> pu_grant_version r \<and> pu_observed_revision r \<noteq> [] \<and> valid_scalar_patch (pu_patch r))"

record pull_request_change =
  prc_repository :: string
  prc_number :: int
  prc_expected_version :: "int option"
  prc_recipient_key :: "string option"
  prc_acceptance_delivery_id :: "uuid option"
  prc_package_ref :: string

record pull_request_record =
  prr_repository :: string
  prr_number :: int
  prr_owner_key :: string
  prr_row_version :: int
  prr_acceptance_ref :: string

datatype relation_kind = K_assignee | K_placement | K_parent | K_dependency | K_pull_request

datatype relation_action = A_set | A_clear | A_add | A_remove | A_move

record relation_patch =
  rp_kind :: relation_kind
  rp_action :: relation_action
  rp_target_work_id :: "uuid option"
  rp_project_id :: "uuid option"
  rp_assignee_gid :: "string option"
  rp_project_gid :: "string option"
  rp_section_gid :: "string option"
  rp_pull_request :: "pull_request_change option"

text \<open>\<open>RelationPatch.valid_relation\<close>, branch by branch.\<close>

definition valid_relation :: "relation_patch \<Rightarrow> bool" where
  "valid_relation r =
     (opt_digits (rp_assignee_gid r) \<and> opt_digits (rp_project_gid r) \<and> opt_digits (rp_section_gid r)
      \<and> (case rp_kind r of
           K_pull_request \<Rightarrow>
             rp_action r \<in> {A_add, A_remove, A_set}
             \<and> rp_target_work_id r = None \<and> rp_project_id r = None \<and> rp_assignee_gid r = None
             \<and> rp_project_gid r = None \<and> rp_section_gid r = None
             \<and> (case rp_pull_request r of
                  None \<Rightarrow> False
                | Some t \<Rightarrow>
                    if rp_action r = A_set
                    then prc_expected_version t \<noteq> None \<and> prc_recipient_key t \<noteq> None
                         \<and> prc_acceptance_delivery_id t \<noteq> None
                    else prc_recipient_key t = None \<and> prc_acceptance_delivery_id t = None)
         | K_assignee \<Rightarrow>
             rp_pull_request r = None
             \<and> rp_action r \<in> {A_set, A_clear}
             \<and> (rp_action r = A_set) = (rp_assignee_gid r \<noteq> None)
             \<and> rp_target_work_id r = None \<and> rp_project_id r = None
             \<and> rp_project_gid r = None \<and> rp_section_gid r = None
         | K_placement \<Rightarrow>
             rp_pull_request r = None
             \<and> (rp_project_id r \<noteq> None) \<noteq> (rp_project_gid r \<noteq> None)
             \<and> (if rp_project_id r \<noteq> None
                then rp_action r \<in> {A_add, A_remove}
                     \<and> rp_target_work_id r = None \<and> rp_assignee_gid r = None
                     \<and> rp_project_gid r = None \<and> rp_section_gid r = None
                else rp_action r \<in> {A_add, A_move, A_remove}
                     \<and> rp_target_work_id r = None \<and> rp_assignee_gid r = None
                     \<and> \<not> (rp_action r = A_remove \<and> rp_section_gid r \<noteq> None))
         | K_parent \<Rightarrow>
             rp_pull_request r = None
             \<and> rp_action r \<in> {A_set, A_clear}
             \<and> (rp_action r = A_set) = (rp_target_work_id r \<noteq> None)
             \<and> rp_project_id r = None \<and> rp_assignee_gid r = None
             \<and> rp_project_gid r = None \<and> rp_section_gid r = None
         | K_dependency \<Rightarrow>
             rp_pull_request r = None
             \<and> rp_action r \<in> {A_add, A_remove} \<and> rp_target_work_id r \<noteq> None
             \<and> rp_project_id r = None \<and> rp_assignee_gid r = None
             \<and> rp_project_gid r = None \<and> rp_section_gid r = None))"

record protected_relation =
  prl_operation_id :: uuid
  prl_work_id :: uuid
  prl_grant_version :: int
  prl_observed_revision :: string
  prl_patch :: relation_patch
  prl_confirm_cancels_review :: bool

section \<open>Receipts and guard outcomes\<close>

record receipt_base =
  rc_operation_id :: uuid
  rc_principal :: principal
  rc_grant_id :: uuid
  rc_grant_version :: int
  rc_qualification :: string

record effect_receipt = receipt_base +
  efr_work_id :: uuid
  efr_provider :: string
  efr_task_gid :: string
  efr_story_gid :: string
  efr_text :: string

record create_receipt = receipt_base +
  crr_work_id :: uuid
  crr_provider :: string
  crr_task_gid :: string
  crr_parent_task_gid :: "string option"
  crr_project_gid :: "string option"
  crr_title :: string

record project_create_receipt = receipt_base +
  pcr_project_id :: uuid
  pcr_name :: string

record relation_receipt = receipt_base +
  rlr_work_id :: uuid
  rlr_provider :: string
  rlr_task_gid :: string
  rlr_observed_revision :: string
  rlr_patch :: relation_patch
  rlr_pull_request :: "pull_request_record option"

record update_receipt = receipt_base +
  upr_work_id :: uuid
  upr_provider :: string
  upr_task_gid :: string
  upr_observed_revision :: string
  upr_resulting_revision :: string
  upr_patch :: patch

record feedback_receipt = receipt_base +
  fbr_work_id :: uuid
  fbr_task_gid :: string
  fbr_observed_revision :: string
  fbr_resulting_revision :: string
  fbr_classification :: feedback_class
  fbr_target_work_id :: "uuid option"

datatype claim_action = Claim_set | Claim_clear

datatype subject_kind = Subject_work | Subject_project

record priority_claim_receipt = receipt_base +
  pclr_work_id :: "uuid option"
  pclr_action :: claim_action
  pclr_subject_kind :: subject_kind
  pclr_subject_id :: uuid
  pclr_claim_id :: uuid
  pclr_supersedes_claim_id :: "uuid option"
  pclr_cleared_claim_id :: "uuid option"
  pclr_source_observed_revision :: "string option"

datatype receipt =
    R_effect effect_receipt
  | R_feedback feedback_receipt
  | R_priority_claim priority_claim_receipt
  | R_create create_receipt
  | R_project_create project_create_receipt
  | R_relation relation_receipt
  | R_update update_receipt

datatype guard_status = G_ok | G_denied | G_stale | G_not_applied | G_unknown | G_confirm_required

datatype effect = Not_sent | Applied | Effect_unknown

datatype retry = Retry_none | Retry_refresh | Retry_reconcile

record effect_outcome_view =
  eov_status :: guard_status
  eov_reason :: string
  eov_effect :: effect
  eov_retry :: retry

record effect_blocker =
  eb_operation :: string
  eb_operation_id :: uuid
  eb_work_id :: uuid
  eb_outcome :: effect_outcome_view

record guard_outcome =
  go_status :: guard_status
  go_operation :: string
  go_work_id :: "uuid option"
  go_operation_id :: "uuid option"
  go_reason :: string
  go_effect :: effect
  go_retry :: retry
  go_next_action :: string
  go_receipt :: "receipt option"
  go_blocked_by :: "effect_blocker option"

text \<open>\<open>GuardOutcome.exact_receipt\<close>.\<close>

definition exact_receipt :: "guard_outcome \<Rightarrow> bool" where
  "exact_receipt o' =
     ((go_effect o' = Applied \<longrightarrow> go_status o' = G_ok \<and> go_receipt o' \<noteq> None)
      \<and> (go_receipt o' \<noteq> None \<longrightarrow> go_effect o' = Applied \<and> go_status o' = G_ok)
      \<and> (go_blocked_by o' \<noteq> None \<longrightarrow>
           go_status o' = G_unknown \<and> go_effect o' = Not_sent \<and> go_retry o' = Retry_none))"

text \<open>
  The common part of every valid outcome: it carries a receipt exactly when it reports an
  applied effect.
\<close>

lemma exact_receipt_iff:
  "exact_receipt o' \<Longrightarrow> (go_effect o' = Applied) = (go_receipt o' \<noteq> None)"
  by (auto simp: exact_receipt_def)


section \<open>Concrete values for the witnesses\<close>

definition demo_principal :: principal where
  "demo_principal = \<lparr>pr_issuer = ''iss'', pr_subject = ''alice'', pr_client_id = ''cli'',
     pr_assurance = Authenticated\<rparr>"

definition demo_grant :: work_grant where
  "demo_grant =
     \<lparr>wg_id = 1, wg_version = 1, wg_principal = demo_principal,
      wg_authority = \<lparr>la_active_work_id = 10, la_reference_work_ids = [11]\<rparr>,
      wg_scope = Launch, wg_operations = {Work_get, Work_update, Work_relate},
      wg_issuer = ''host'', wg_provenance = ''test'', wg_expires_at = 100, wg_state = Active,
      wg_append_qualification = None, wg_create_qualification = None,
      wg_report_qualification = None, wg_update_qualification = Some ''real:u'',
      wg_relation_qualification = Some ''real:r'', wg_priority_claim_qualification = None\<rparr>"

definition demo_unknown :: guard_outcome where
  "demo_unknown =
     \<lparr>go_status = G_unknown, go_operation = ''work_update'', go_work_id = Some 10,
      go_operation_id = Some 7, go_reason = ''prepared_or_unconfirmed_send'',
      go_effect = Effect_unknown, go_retry = Retry_reconcile, go_next_action = ''retry'',
      go_receipt = None, go_blocked_by = None\<rparr>"

definition demo_denied :: guard_outcome where
  "demo_denied = demo_unknown\<lparr>go_status := G_not_applied, go_reason := ''provider_rejected_send'',
     go_effect := Not_sent, go_retry := Retry_none\<rparr>"

end
