(* ===== verification/Cas_Register.thy ===== *)
theory Cas_Register
  imports Switch_Prelude
begin

text \<open>
  The optimistic-concurrency contract several repositories of the program share: a keyed store
  whose writer states the version it observed. The laws are the locale's assumptions; its
  lemmas say that versions only grow and that an observed version can be consumed once.
  Interpreted by \<open>Grant_State\<close> (grant issuance), \<open>Lifecycle\<close> (obligations) and
  \<open>Work_Store\<close> (canonical work rows).
\<close>

locale cas_register =
  fixes lookup :: "'s \<Rightarrow> 'k \<Rightarrow> 'v option"
    and ver :: "'v \<Rightarrow> int"
    and put :: "'k \<Rightarrow> int option \<Rightarrow> 'v \<Rightarrow> 's \<Rightarrow> 's option"
    and wf :: "'s \<Rightarrow> bool"
  assumes put_lookup: "wf s \<Longrightarrow> put k e v s = Some s' \<Longrightarrow> \<exists>w. lookup s' k = Some w \<and> ver w = ver v"
    and put_other: "wf s \<Longrightarrow> put k e v s = Some s' \<Longrightarrow> k' \<noteq> k \<Longrightarrow> lookup s' k' = lookup s k'"
    and put_expected: "wf s \<Longrightarrow> put k e v s = Some s' \<Longrightarrow> map_option ver (lookup s k) = e"
    and put_advance: "wf s \<Longrightarrow> put k e v s = Some s' \<Longrightarrow>
          ver v = (case e of None \<Rightarrow> 0 | Some n \<Rightarrow> n) + 1"
    and put_wf: "wf s \<Longrightarrow> put k e v s = Some s' \<Longrightarrow> wf s'"
begin

text \<open>A sequence of attempted writes; a refused write leaves the store as it was.\<close>

fun attempts :: "('k \<times> int option \<times> 'v) list \<Rightarrow> 's \<Rightarrow> 's" where
  "attempts [] s = s"
| "attempts ((k, e, v) # ws) s =
     attempts ws (case put k e v s of None \<Rightarrow> s | Some s' \<Rightarrow> s')"

lemma put_grows:
  assumes "wf s" and "put k e v s = Some s'" and "lookup s j = Some x"
  shows "\<exists>y. lookup s' j = Some y \<and> ver x \<le> ver y \<and> (j = k \<longrightarrow> ver y = ver x + 1)"
proof (cases "j = k")
  case True
  from put_lookup [OF assms(1,2)] obtain w where w: "lookup s' k = Some w" "ver w = ver v"
    by blast
  from put_expected [OF assms(1,2)] True assms(3) have "e = Some (ver x)" by simp
  with put_advance [OF assms(1,2)] have "ver v = ver x + 1" by simp
  with w True show ?thesis by simp
next
  case False
  with put_other [OF assms(1,2), of j] assms(3) show ?thesis by simp
qed

lemma attempts_wf: "wf s \<Longrightarrow> wf (attempts ws s)"
  by (induction ws s rule: attempts.induct) (auto split: option.splits dest: put_wf)

lemma attempts_monotone:
  assumes "wf s" and "lookup s j = Some x"
  shows "\<exists>y. lookup (attempts ws s) j = Some y \<and> ver x \<le> ver y"
  using assms
proof (induction ws s arbitrary: x rule: attempts.induct)
  case (1 s)
  then show ?case by simp
next
  case (2 k e v ws s)
  show ?case
  proof (cases "put k e v s")
    case None
    with "2.IH" [of x] "2.prems" show ?thesis by simp
  next
    case (Some s')
    from put_grows [OF "2.prems"(1) Some "2.prems"(2)] obtain y
      where y: "lookup s' j = Some y" "ver x \<le> ver y" by blast
    have "wf s'" by (rule put_wf [OF "2.prems"(1) Some])
    with "2.IH" [of y] y Some show ?thesis by force
  qed
qed

text \<open>
  No lost update: once a write that expected version \<open>e\<close> succeeded, no later write to the same
  key that expects the same \<open>e\<close> succeeds, whatever is attempted in between.
\<close>

lemma no_lost_update:
  assumes "wf s" and "put k e v s = Some s'"
  shows "put k e w (attempts ws s') = None"
proof (rule ccontr)
  assume "put k e w (attempts ws s') \<noteq> None"
  then obtain t where t: "put k e w (attempts ws s') = Some t" by blast
  have wf': "wf s'" by (rule put_wf [OF assms])
  from put_lookup [OF assms] obtain x where x: "lookup s' k = Some x" "ver x = ver v" by blast
  from attempts_monotone [OF wf' x(1)] obtain y
    where y: "lookup (attempts ws s') k = Some y" "ver x \<le> ver y" by blast
  from put_expected [OF attempts_wf [OF wf'] t] y(1) have e: "e = Some (ver y)" by simp
  with put_advance [OF assms] have "ver v = ver y + 1" by simp
  with x(2) y(2) show False by simp
qed

text \<open>A successful write is seen until the next successful write to its key.\<close>

lemma attempts_other_keys:
  assumes "wf s" and "\<forall>(k', e, v) \<in> set ws. k' \<noteq> k"
  shows "lookup (attempts ws s) k = lookup s k"
  using assms
proof (induction ws s rule: attempts.induct)
  case (1 s)
  then show ?case by simp
next
  case (2 k' e v ws s)
  show ?case
  proof (cases "put k' e v s")
    case None
    with 2 show ?thesis by simp
  next
    case (Some s')
    with "2.prems" have "wf s'" and "lookup s' k = lookup s k"
      using put_wf put_other by auto
    with Some 2 show ?thesis by simp
  qed
qed

end

end
