(* ===== verification/Grant_State.thy ===== *)
theory Grant_State
  imports Grants Cas_Register
begin

text \<open>
  The grant table and the effect-intent journal of \<open>src/switchstand/grant_state.py\<close>. A table is
  the list of its rows; a transaction is a function of the tables that returns the new tables
  or raises, in which case nothing of it is kept. Rows read back pass their model's validator
  (\<open>model_validate\<close>) or raise. \<open>pkey\<close> is \<open>PrincipalContext.key\<close> (a SHA-256 digest) and is an
  argument, as is the clock.
\<close>

section \<open>Tables\<close>

record effect_row =
  ei_operation_id :: string
  ei_fingerprint :: string
  ei_principal_key :: string
  ei_work_id :: string
  ei_grant_id :: string
  ei_grant_version :: int
  ei_intent :: json
  ei_outcome :: guard_outcome

record grant_db =
  gdb_grants :: "(string \<times> work_grant option) list"
  gdb_intents :: "effect_row list"

record effect_record =
  er_principal_key :: string
  er_fingerprint :: string
  er_grant_id :: uuid
  er_grant_version :: int
  er_intent :: json
  er_outcome :: guard_outcome

text \<open>The primary keys of the two tables.\<close>

definition grant_db_keys :: "grant_db \<Rightarrow> bool" where
  "grant_db_keys db =
     (distinct (map fst (gdb_grants db)) \<and> distinct (map ei_operation_id (gdb_intents db)))"

definition read_grant :: "work_grant option \<Rightarrow> work_grant option py_result" where
  "read_grant v =
     (case v of None \<Rightarrow> Inr None
      | Some g \<Rightarrow> if valid_grant g then Inr (Some g) else Inl ValidationError)"

definition read_outcome :: "guard_outcome \<Rightarrow> guard_outcome py_result" where
  "read_outcome o' = (if exact_receipt o' then Inr o' else Inl ValidationError)"

text \<open>\<open>str(value)\<close> of an optional UUID.\<close>

definition str_opt_uuid :: "uuid option \<Rightarrow> string" where
  "str_opt_uuid v = (case v of None \<Rightarrow> ''None'' | Some u \<Rightarrow> uuid_str u)"

section \<open>Grants\<close>

definition gs_current :: "string \<Rightarrow> grant_db \<Rightarrow> work_grant option py_result" where
  "gs_current key db =
     bindE (one_or_none (filter (\<lambda>r. fst r = key) (gdb_grants db)))
       (\<lambda>row. case row of None \<Rightarrow> Inr None | Some (_, doc) \<Rightarrow> read_grant doc)"

fun read_grants :: "(string \<times> work_grant option) list \<Rightarrow> work_grant list py_result" where
  "read_grants [] = Inr []"
| "read_grants ((_, None) # rows) = read_grants rows"
| "read_grants ((_, Some g) # rows) =
     (if valid_grant g then bindE (read_grants rows) (\<lambda>gs. Inr (g # gs)) else Inl ValidationError)"

definition current_for_active_work ::
  "int \<Rightarrow> uuid \<Rightarrow> grant_db \<Rightarrow> work_grant option py_result" where
  "current_for_active_work now w db =
     bindE (read_grants (gdb_grants db)) (\<lambda>gs.
       let matches = filter (\<lambda>g. grant_current now g
                       \<and> la_active_work_id (wg_authority g) = w) gs
       in if length matches > 1 then Inl ValueError
          else Inr (case matches of [] \<Rightarrow> None | g # _ \<Rightarrow> Some g))"

definition for_active_work :: "uuid \<Rightarrow> grant_db \<Rightarrow> work_grant list py_result" where
  "for_active_work w db =
     bindE (read_grants (gdb_grants db)) (\<lambda>gs.
       Inr (filter (\<lambda>g. la_active_work_id (wg_authority g) = w) gs))"

text \<open>
  \<open>locked_message_route\<close>: the caller's own grant (the loop keeps the last match) and the unique
  current grant that may receive messages for the recipient's work.
\<close>

definition locked_message_route ::
  "(principal \<Rightarrow> string) \<Rightarrow> int \<Rightarrow> string \<Rightarrow> uuid option \<Rightarrow> grant_db
     \<Rightarrow> (work_grant option \<times> work_grant option) py_result" where
  "locked_message_route pkey now key recipient db =
     bindE (read_grants (gdb_grants db)) (\<lambda>gs.
       let senders = filter (\<lambda>g. pkey (wg_principal g) = key) gs;
           matches = filter (\<lambda>g. grant_current now g \<and> wg_scope g \<in> {Launch, Workspace}
                       \<and> Message \<in> wg_operations g
                       \<and> Some (la_active_work_id (wg_authority g)) = recipient) gs
       in Inr (if senders = [] then None else Some (last senders),
               case matches of [g] \<Rightarrow> Some g | _ \<Rightarrow> None))"

text \<open>\<open>issue\<close>: insert the empty row if absent, compare the version, replace the document.\<close>

definition grant_lookup :: "grant_db \<Rightarrow> string \<Rightarrow> work_grant option" where
  "grant_lookup db key = (case map_of (gdb_grants db) key of None \<Rightarrow> None | Some d \<Rightarrow> d)"

definition issue ::
  "(principal \<Rightarrow> string) \<Rightarrow> work_grant \<Rightarrow> int option \<Rightarrow> grant_db \<Rightarrow> grant_db py_result" where
  "issue pkey g expected db =
     (let key = pkey (wg_principal g);
          rows = (if key \<in> set (map fst (gdb_grants db)) then gdb_grants db
                  else gdb_grants db @ [(key, None)])
      in bindE (read_grant (case map_of rows key of None \<Rightarrow> None | Some d \<Rightarrow> d)) (\<lambda>old.
           if map_option wg_version old \<noteq> expected then Inl ValueError
           else if wg_version g \<noteq> (case expected of None \<Rightarrow> 0 | Some v \<Rightarrow> v) + 1 then Inl ValueError
           else Inr (db\<lparr>gdb_grants :=
                  map (\<lambda>(k, d). if k = key then (k, Some g) else (k, d)) rows\<rparr>)))"

section \<open>The effect journal\<close>

definition unresolved_effect_ids :: "uuid \<Rightarrow> grant_db \<Rightarrow> string list" where
  "unresolved_effect_ids w db =
     sort (map ei_operation_id
       (filter (\<lambda>r. ei_work_id r = uuid_str w \<and> go_effect (ei_outcome r) = Effect_unknown)
          (gdb_intents db)))"

definition previous ::
  "uuid \<Rightarrow> uuid \<Rightarrow> grant_db \<Rightarrow> (string \<times> string \<times> guard_outcome) option py_result" where
  "previous op w db =
     (let rows = filter (\<lambda>r. ei_operation_id r = uuid_str op
                   \<or> (ei_work_id r = uuid_str w \<and> go_effect (ei_outcome r) = Effect_unknown))
                 (gdb_intents db)
      in case rows of
           [] \<Rightarrow> Inr None
         | r0 # _ \<Rightarrow>
             (let r = (case find (\<lambda>r. ei_operation_id r = uuid_str op) rows of
                         Some r \<Rightarrow> r | None \<Rightarrow> r0)
              in bindE (read_outcome (ei_outcome r))
                   (\<lambda>o'. Inr (Some (ei_principal_key r, ei_fingerprint r, o')))))"

definition record_of_row :: "effect_row \<Rightarrow> effect_record py_result" where
  "record_of_row r =
     (case ei_intent r of
        JObj _ \<Rightarrow>
          (case py_uuid (ei_grant_id r) of
             None \<Rightarrow> Inl ValueError
           | Some g \<Rightarrow> bindE (read_outcome (ei_outcome r)) (\<lambda>o'.
               Inr \<lparr>er_principal_key = ei_principal_key r, er_fingerprint = ei_fingerprint r,
                    er_grant_id = g, er_grant_version = ei_grant_version r,
                    er_intent = ei_intent r, er_outcome = o'\<rparr>))
      | _ \<Rightarrow> Inl TypeError)"

definition exact :: "uuid \<Rightarrow> grant_db \<Rightarrow> effect_record option py_result" where
  "exact op db =
     bindE (one_or_none (filter (\<lambda>r. ei_operation_id r = uuid_str op) (gdb_intents db)))
       (\<lambda>row. case row of None \<Rightarrow> Inr None
              | Some r \<Rightarrow> bindE (record_of_row r) (\<lambda>e. Inr (Some e)))"

definition unresolved_create :: "uuid \<Rightarrow> grant_db \<Rightarrow> bool" where
  "unresolved_create parent db =
     list_ex (\<lambda>r. go_effect (ei_outcome r) = Effect_unknown
        \<and> (case json_get (ei_intent r) ''request'' of
             Some (JObj kvs) \<Rightarrow> map_of kvs ''parent_work_id'' = Some (json_uuid parent)
           | _ \<Rightarrow> False)) (gdb_intents db)"

text \<open>
  \<open>created_work_allowed\<close>: the stored outcomes are validated in row order until one confirms an
  applied creation (\<open>any\<close> stops at the first).
\<close>

fun any_applied_create :: "effect_row list \<Rightarrow> bool py_result" where
  "any_applied_create [] = Inr False"
| "any_applied_create (r # rs) =
     bindE (read_outcome (ei_outcome r)) (\<lambda>o'.
       if go_operation o' = ''work_create'' \<and> go_effect o' = Applied then Inr True
       else any_applied_create rs)"

definition created_work_allowed :: "string \<Rightarrow> uuid \<Rightarrow> grant_db \<Rightarrow> bool py_result" where
  "created_work_allowed key w db =
     any_applied_create (filter (\<lambda>r. ei_principal_key r = key \<and> ei_work_id r = uuid_str w)
       (gdb_intents db))"

definition intent_row ::
  "(principal \<Rightarrow> string) \<Rightarrow> json \<Rightarrow> work_grant \<Rightarrow> string \<Rightarrow> guard_outcome \<Rightarrow> effect_row" where
  "intent_row pkey request g fp unknown =
     \<lparr>ei_operation_id = str_opt_uuid (go_operation_id unknown), ei_fingerprint = fp,
      ei_principal_key = pkey (wg_principal g), ei_work_id = str_opt_uuid (go_work_id unknown),
      ei_grant_id = uuid_str (wg_id g), ei_grant_version = wg_version g,
      ei_intent = request, ei_outcome = unknown\<rparr>"

definition prepare ::
  "(principal \<Rightarrow> string) \<Rightarrow> json \<Rightarrow> work_grant \<Rightarrow> string \<Rightarrow> guard_outcome \<Rightarrow> grant_db
     \<Rightarrow> grant_db py_result" where
  "prepare pkey request g fp unknown db =
     (let row = intent_row pkey request g fp unknown
      in if ei_operation_id row \<in> set (map ei_operation_id (gdb_intents db)) then Inl IntegrityError
         else Inr (db\<lparr>gdb_intents := gdb_intents db @ [row]\<rparr>))"

definition finish :: "guard_outcome \<Rightarrow> grant_db \<Rightarrow> grant_db py_result" where
  "finish outcome db =
     (let key = str_opt_uuid (go_operation_id outcome)
      in if key \<in> set (map ei_operation_id (gdb_intents db))
         then Inr (db\<lparr>gdb_intents :=
                map (\<lambda>r. if ei_operation_id r = key then r\<lparr>ei_outcome := outcome\<rparr> else r)
                  (gdb_intents db)\<rparr>)
         else Inl ValueError)"

section \<open>Issuance is a compare-and-set register\<close>

definition issue_put ::
  "(principal \<Rightarrow> string) \<Rightarrow> string \<Rightarrow> int option \<Rightarrow> work_grant \<Rightarrow> grant_db \<Rightarrow> grant_db option" where
  "issue_put pkey key e g db =
     (if pkey (wg_principal g) = key
      then (case issue pkey g e db of Inl _ \<Rightarrow> None | Inr db' \<Rightarrow> Some db') else None)"

lemma map_of_replace:
  "map_of (map (\<lambda>(k, d). if k = key then (k, v) else (k, d)) rows) j
     = (if j = key then (if key \<in> set (map fst rows) then Some v else None) else map_of rows j)"
  by (induction rows) (auto simp: rev_image_eqI)

lemma read_grant_Inr: "read_grant v = Inr old \<Longrightarrow> old = v"
  by (auto simp: read_grant_def split: option.splits if_splits)

text \<open>A successful issuance, unfolded once for all the lemmas below.\<close>

lemma issue_InrD:
  assumes "issue pkey g e db = Inr db'"
  shows "map_option wg_version (grant_lookup db (pkey (wg_principal g))) = e"
    and "wg_version g = (case e of None \<Rightarrow> 0 | Some n \<Rightarrow> n) + 1"
    and "grant_lookup db' k =
           (if k = pkey (wg_principal g) then Some g else grant_lookup db k)"
    and "gdb_intents db' = gdb_intents db"
    and "grant_db_keys db \<Longrightarrow> grant_db_keys db'"
proof -
  let ?key = "pkey (wg_principal g)"
  let ?rows = "if ?key \<in> set (map fst (gdb_grants db)) then gdb_grants db
               else gdb_grants db @ [(?key, None)]"
  let ?doc = "case map_of ?rows ?key of None \<Rightarrow> None | Some d \<Rightarrow> d"
  have doc: "?doc = grant_lookup db ?key"
    using map_of_eq_None_iff [of "gdb_grants db" ?key]
    by (auto simp: grant_lookup_def map_add_def split: option.splits)
  from assms obtain old where old: "read_grant ?doc = Inr old"
    "map_option wg_version old = e" "wg_version g = (case e of None \<Rightarrow> 0 | Some v \<Rightarrow> v) + 1"
    and db': "db' = db\<lparr>gdb_grants := map (\<lambda>(k, d). if k = ?key then (k, Some g) else (k, d)) ?rows\<rparr>"
    unfolding issue_def Let_def bindE_eq_Inr by (auto split: if_splits)
  from read_grant_Inr [OF old(1)] doc have "old = grant_lookup db ?key" by simp
  with old show "map_option wg_version (grant_lookup db ?key) = e"
    and "wg_version g = (case e of None \<Rightarrow> 0 | Some n \<Rightarrow> n) + 1" by simp_all
  show "grant_lookup db' k = (if k = ?key then Some g else grant_lookup db k)"
    unfolding db' grant_lookup_def
    by (auto simp: map_of_replace map_add_def split: option.splits)
  show "gdb_intents db' = gdb_intents db" by (simp add: db')
  have fsts: "map fst (map (\<lambda>(k, d). if k = ?key then (k, Some g) else (k, d)) rows) = map fst rows"
    for rows by (induction rows) auto
  show "grant_db_keys db'" if "grant_db_keys db"
    using that unfolding db' grant_db_keys_def by (auto simp del: map_map simp: fsts)
qed

interpretation issuance: cas_register grant_lookup wg_version "issue_put pkey" grant_db_keys
  for pkey
  by unfold_locales
     (auto simp: issue_put_def issue_InrD(3) split: if_splits sum.splits
        dest: issue_InrD(1) issue_InrD(2) issue_InrD(5))

text \<open>A run of attempted issuances; a refused one leaves the table as it was.\<close>

fun issue_all :: "(principal \<Rightarrow> string) \<Rightarrow> (work_grant \<times> int option) list \<Rightarrow> grant_db \<Rightarrow> grant_db" where
  "issue_all pkey [] db = db"
| "issue_all pkey ((g, e) # ws) db =
     issue_all pkey ws (case issue pkey g e db of Inl _ \<Rightarrow> db | Inr db' \<Rightarrow> db')"

lemma issue_all_attempts:
  "issue_all pkey ws db
     = issuance.attempts pkey (map (\<lambda>(g, e). (pkey (wg_principal g), e, g)) ws) db"
proof (induction pkey ws db rule: issue_all.induct)
  case (1 pkey db)
  then show ?case by simp
next
  case (2 pkey g e ws db)
  have "issue_put pkey (pkey (wg_principal g)) e g db
      = (case issue pkey g e db of Inl _ \<Rightarrow> None | Inr db' \<Rightarrow> Some db')"
    by (simp add: issue_put_def)
  with 2 show ?case by (cases "issue pkey g e db") simp_all
qed

section \<open>The journal contract\<close>

text \<open>
  What the effect gateways rely on: an entry can be opened once, settling keeps its identity,
  and neither touches another entry.
\<close>

locale effect_journal =
  fixes entry :: "'db \<Rightarrow> 'op \<Rightarrow> 'row option"
    and ident :: "'row \<Rightarrow> 'i"
    and outcome :: "'row \<Rightarrow> 'o"
    and open_entry :: "'op \<Rightarrow> 'row \<Rightarrow> 'db \<Rightarrow> 'db option"
    and settle :: "'op \<Rightarrow> 'o \<Rightarrow> 'db \<Rightarrow> 'db option"
  assumes open_fresh: "open_entry k r db = Some db' \<Longrightarrow> entry db k = None"
    and open_entry: "open_entry k r db = Some db' \<Longrightarrow> entry db' k = Some r"
    and open_other: "open_entry k r db = Some db' \<Longrightarrow> j \<noteq> k \<Longrightarrow> entry db' j = entry db j"
    and settle_entry: "settle k o' db = Some db' \<Longrightarrow>
          \<exists>r r'. entry db k = Some r \<and> entry db' k = Some r' \<and> ident r' = ident r \<and> outcome r' = o'"
    and settle_other: "settle k o' db = Some db' \<Longrightarrow> j \<noteq> k \<Longrightarrow> entry db' j = entry db j"
begin

inductive journal_step :: "'db \<Rightarrow> 'db \<Rightarrow> bool" where
  step_open: "open_entry k r db = Some db' \<Longrightarrow> journal_step db db'"
| step_settle: "settle k o' db = Some db' \<Longrightarrow> journal_step db db'"

abbreviation journal_steps :: "'db \<Rightarrow> 'db \<Rightarrow> bool" where
  "journal_steps \<equiv> journal_step\<^sup>*\<^sup>*"

lemma step_persists:
  "journal_step db db' \<Longrightarrow> entry db j = Some r \<Longrightarrow> \<exists>r'. entry db' j = Some r' \<and> ident r' = ident r"
proof (induction rule: journal_step.induct)
  case (step_open k r0 db db')
  then show ?case by (metis open_fresh open_other option.distinct(1))
next
  case (step_settle k o' db db')
  then show ?case
    using settle_entry [OF step_settle.hyps] settle_other [OF step_settle.hyps, of j]
    by (cases "j = k") auto
qed

text \<open>A recorded operation stays recorded under the same identity.\<close>

lemma entry_persists:
  "journal_steps db db' \<Longrightarrow> entry db j = Some r \<Longrightarrow> \<exists>r'. entry db' j = Some r' \<and> ident r' = ident r"
proof (induction rule: rtranclp_induct)
  case base
  then show ?case by simp
next
  case (step y z)
  then show ?case by (metis step_persists)
qed

text \<open>No entry is opened twice.\<close>

lemma opened_once:
  assumes "open_entry k r db = Some db1" and "journal_steps db1 db2"
  shows "open_entry k r' db2 = None"
proof (rule ccontr)
  assume "open_entry k r' db2 \<noteq> None"
  then have "entry db2 k = None" using open_fresh by blast
  with entry_persists [OF assms(2) open_entry [OF assms(1)]] show False by simp
qed

end

definition journal_entry :: "grant_db \<Rightarrow> string \<Rightarrow> effect_row option" where
  "journal_entry db op = find (\<lambda>r. ei_operation_id r = op) (gdb_intents db)"

definition row_ident :: "effect_row \<Rightarrow> string \<times> string \<times> string \<times> string \<times> int \<times> json" where
  "row_ident r = (ei_principal_key r, ei_fingerprint r, ei_work_id r, ei_grant_id r,
     ei_grant_version r, ei_intent r)"

definition journal_open :: "string \<Rightarrow> effect_row \<Rightarrow> grant_db \<Rightarrow> grant_db option" where
  "journal_open op r db =
     (if ei_operation_id r = op \<and> op \<notin> set (map ei_operation_id (gdb_intents db))
      then Some (db\<lparr>gdb_intents := gdb_intents db @ [r]\<rparr>) else None)"

definition journal_settle :: "string \<Rightarrow> guard_outcome \<Rightarrow> grant_db \<Rightarrow> grant_db option" where
  "journal_settle op o' db =
     (if str_opt_uuid (go_operation_id o') = op
      then (case finish o' db of Inl _ \<Rightarrow> None | Inr db' \<Rightarrow> Some db') else None)"

lemma prepare_journal_open:
  "prepare pkey request g fp unknown db = Inr db' \<longleftrightarrow>
     journal_open (str_opt_uuid (go_operation_id unknown)) (intent_row pkey request g fp unknown) db
       = Some db'"
  by (auto simp: prepare_def journal_open_def Let_def intent_row_def)

lemma finish_journal_settle:
  "finish o' db = Inr db' \<longleftrightarrow> journal_settle (str_opt_uuid (go_operation_id o')) o' db = Some db'"
  by (auto simp: journal_settle_def split: sum.splits)

interpretation journal:
  effect_journal journal_entry row_ident ei_outcome journal_open journal_settle
proof (unfold_locales, goal_cases)
  case (1 k r db db')
  then show ?case by (auto simp: journal_open_def journal_entry_def find_key_None split: if_splits)
next
  case (2 k r db db')
  then have k: "k = ei_operation_id r" "find (\<lambda>r. ei_operation_id r = k) (gdb_intents db) = None"
    and db': "db' = db\<lparr>gdb_intents := gdb_intents db @ [r]\<rparr>"
    by (auto simp: journal_open_def find_key_None split: if_splits)
  from k(2) k(1) show ?case unfolding db' by (simp add: journal_entry_def find_append)
next
  case (3 k r db db' j)
  then show ?case
    by (auto simp: journal_open_def journal_entry_def find_append split: if_splits option.splits)
next
  case (4 k o' db db')
  then have k: "k \<in> set (map ei_operation_id (gdb_intents db))"
    and db': "db' = db\<lparr>gdb_intents := map (\<lambda>r. if ei_operation_id r = k
       then r\<lparr>ei_outcome := o'\<rparr> else r) (gdb_intents db)\<rparr>"
    by (auto simp: journal_settle_def finish_def Let_def split: if_splits)
  from k obtain r where r: "journal_entry db k = Some r"
    unfolding journal_entry_def by (metis find_key_None not_None_eq)
  have "journal_entry db' k = Some (r\<lparr>ei_outcome := o'\<rparr>)"
    using r unfolding db' journal_entry_def by (simp add: find_map_update)
  with r show ?case by (simp add: row_ident_def)
next
  case (5 k o' db db' j)
  then have "db' = db\<lparr>gdb_intents := map (\<lambda>r. if ei_operation_id r = k
       then r\<lparr>ei_outcome := o'\<rparr> else r) (gdb_intents db)\<rparr>"
    by (auto simp: journal_settle_def finish_def Let_def split: if_splits)
  with 5(2) show ?case
    by (simp add: journal_entry_def find_map_update option.map_ident)
qed

lemmas journal_intros = journal.journal_step.intros


section \<open>Properties\<close>

text \<open>
  Grant issuance loses no update: once an issuance that expected version \<open>e\<close> of a
  principal's grant succeeded, no other issuance for that principal expecting the same \<open>e\<close>
  succeeds, whatever issuances are attempted in between.
\<close>

theorem issue_no_lost_update:
  assumes "grant_db_keys db" and "issue pkey g e db = Inr db'"
    and "pkey (wg_principal g') = pkey (wg_principal g)"
  shows "\<exists>err. issue pkey g' e (issue_all pkey ws db') = Inl err"
proof -
  have "issue_put pkey (pkey (wg_principal g)) e g db = Some db'"
    using assms(2) by (simp add: issue_put_def)
  from issuance.no_lost_update [OF assms(1) this, of g']
  have "issue_put pkey (pkey (wg_principal g)) e g' (issue_all pkey ws db') = None"
    by (simp add: issue_all_attempts)
  with assms(3) show ?thesis
    by (cases "issue pkey g' e (issue_all pkey ws db')") (simp_all add: issue_put_def)
qed

theorem issue_no_lost_update_witness:
  "grant_db_keys \<lparr>gdb_grants = [], gdb_intents = []\<rparr>
   \<and> issue pr_subject demo_grant None \<lparr>gdb_grants = [], gdb_intents = []\<rparr>
       = Inr \<lparr>gdb_grants = [(''alice'', Some demo_grant)], gdb_intents = []\<rparr>
   \<and> (\<exists>err. issue pr_subject (demo_grant\<lparr>wg_state := Revoked\<rparr>) None
        (issue_all pr_subject [(demo_grant\<lparr>wg_version := 2\<rparr>, Some 1)]
           \<lparr>gdb_grants = [(''alice'', Some demo_grant)], gdb_intents = []\<rparr>) = Inl err)"
proof -
  let ?db = "\<lparr>gdb_grants = [], gdb_intents = []\<rparr>"
  let ?db' = "\<lparr>gdb_grants = [(''alice'', Some demo_grant)], gdb_intents = []\<rparr>"
  have keys: "grant_db_keys ?db" by (simp add: grant_db_keys_def)
  have iss: "issue pr_subject demo_grant None ?db = Inr ?db'"
    by (simp add: issue_def read_grant_def demo_grant_def demo_principal_def)
  have "pr_subject (wg_principal (demo_grant\<lparr>wg_state := Revoked\<rparr>)) = pr_subject (wg_principal demo_grant)"
    by simp
  from issue_no_lost_update [OF keys iss this, of "[(demo_grant\<lparr>wg_version := 2\<rparr>, Some 1)]"] keys iss
  show ?thesis by blast
qed

text \<open>
  A journalled operation keeps its identity: along any sequence of journal writes
  (\<open>prepare\<close> and \<open>finish\<close>), an entry that exists stays, with the same principal, fingerprint,
  work, grant and intent, and no second intent can be prepared under its operation id.
\<close>

theorem journal_identity_stable:
  assumes "journal.journal_steps db db'" and "journal_entry db op = Some r"
  shows "(\<exists>r'. journal_entry db' op = Some r' \<and> row_ident r' = row_ident r)
    \<and> (str_opt_uuid (go_operation_id unknown) = op \<longrightarrow>
         prepare pkey request g fp unknown db' = Inl IntegrityError)"
proof -
  from journal.entry_persists [OF assms] obtain r'
    where r': "journal_entry db' op = Some r'" "row_ident r' = row_ident r" by blast
  from r'(1) have "op \<in> set (map ei_operation_id (gdb_intents db'))"
    unfolding journal_entry_def by (metis find_key_None option.distinct(1))
  then have "prepare pkey request g fp unknown db' = Inl IntegrityError"
    if "str_opt_uuid (go_operation_id unknown) = op"
    using that by (simp add: prepare_def intent_row_def)
  with r' show ?thesis by blast
qed

theorem journal_identity_stable_witness:
  "\<exists>db db' r. journal.journal_steps db db' \<and> journal_entry db (uuid_str 7) = Some r
     \<and> (\<exists>r'. journal_entry db' (uuid_str 7) = Some r' \<and> row_ident r' = row_ident r)
     \<and> ei_outcome r \<noteq> demo_denied
     \<and> prepare pr_subject JNull demo_grant ''fp'' demo_unknown db' = Inl IntegrityError"
proof -
  let ?r = "intent_row pr_subject JNull demo_grant ''fp'' demo_unknown"
  let ?db = "\<lparr>gdb_grants = [], gdb_intents = [?r]\<rparr>"
  let ?db' = "\<lparr>gdb_grants = [], gdb_intents = [?r\<lparr>ei_outcome := demo_denied\<rparr>]\<rparr>"
  have step: "journal_settle (uuid_str 7) demo_denied ?db = Some ?db'"
    by (simp add: journal_settle_def finish_def demo_denied_def demo_unknown_def str_opt_uuid_def
        intent_row_def)
  have steps: "journal.journal_steps ?db ?db'"
    by (rule r_into_rtranclp) (rule journal.step_settle [OF step])
  have ent: "journal_entry ?db (uuid_str 7) = Some ?r"
    by (simp add: journal_entry_def intent_row_def demo_unknown_def str_opt_uuid_def)
  have op: "str_opt_uuid (go_operation_id demo_unknown) = uuid_str 7"
    by (simp add: demo_unknown_def str_opt_uuid_def)
  have "ei_outcome ?r \<noteq> demo_denied"
    by (simp add: intent_row_def demo_unknown_def demo_denied_def)
  with steps ent op journal_identity_stable [OF steps ent, of demo_unknown pr_subject JNull demo_grant "''fp''"]
  show ?thesis by blast
qed

end
