(* ===== verification/Core_Types.thy ===== *)
theory Core_Types
  imports Contracts
begin

text \<open>
  The dataclasses and protocols of \<open>src/switchstand/core.py\<close>: handles, what a provider returns,
  and the provider itself. A provider is code behind an interface, so it is a record of
  operations on an opaque state \<open>'p\<close>; every operation may raise. A provider that has the two
  relation methods carries them in \<open>pv_relations\<close> (the source tests for them with \<open>hasattr\<close>).
\<close>

section \<open>Values\<close>

record handle =
  h_id :: uuid
  h_provider :: string
  h_provider_work_id :: string

record event_handle =
  eh_id :: uuid
  eh_work_id :: uuid
  eh_provider :: string
  eh_provider_work_id :: string
  eh_provider_event_id :: string

record provider_relation =
  pvr_kind :: string
  pvr_action :: string
  pvr_target_gid :: "string option"
  pvr_assignee_gid :: "string option"
  pvr_project_gid :: "string option"
  pvr_section_gid :: "string option"

record provider_work =
  pw_title :: string
  pw_notes :: string
  pw_completed :: bool
  pw_revision :: string
  pw_routing :: routing
  pw_context :: work_context
  pw_canonical :: bool

record provider_source_task =
  pst_title :: string
  pst_notes :: string
  pst_completed :: bool
  pst_revision :: string
  pst_context :: work_context
  pst_canonical :: bool

record provider_source_story =
  pss_story_gid :: string
  pss_task_gid :: string
  pss_subtype :: "string option"
  pss_text :: "string option"
  pss_created_at :: string
  pss_created_by :: "string option"

record provider_stories_page =
  psp_task_gid :: string
  psp_revision :: string
  psp_stories :: "provider_source_story list"
  psp_next_offset :: "string option"
  psp_canonical :: bool
  psp_stale :: bool

section \<open>Providers\<close>

record 'p relation_provider =
  rpv_update_relation :: "string \<Rightarrow> provider_relation \<Rightarrow> ('p, unit) prog"
  rpv_relation_matches :: "string \<Rightarrow> provider_relation \<Rightarrow> ('p, bool) prog"

record 'p provider =
  pv_get :: "string \<Rightarrow> ('p, provider_work option) prog"
  pv_update :: "string \<Rightarrow> patch \<Rightarrow> ('p, unit) prog"
  pv_append :: "string \<Rightarrow> string \<Rightarrow> ('p, string option) prog"
  pv_source_task :: "string \<Rightarrow> ('p, provider_source_task option) prog"
  pv_source_stories ::
    "string \<Rightarrow> string \<Rightarrow> string option \<Rightarrow> int \<Rightarrow> ('p, provider_stories_page option) prog"
  pv_source_story :: "string \<Rightarrow> string \<Rightarrow> ('p, provider_source_story option) prog"
  pv_relations :: "'p relation_provider option"

type_synonym 'p providers = "string \<Rightarrow> 'p provider option"

text \<open>The effects a provider can be asked for.\<close>

datatype ext_effect =
    Sent_update string patch
  | Sent_append string string
  | Sent_relation string provider_relation

text \<open>\<open>provider_rejection_reason\<close>; \<open>UnknownEffect\<close> has the default failure.\<close>

definition provider_rejection_reason :: "py_error \<Rightarrow> string" where
  "provider_rejection_reason e =
     (case e of
        ProviderError f \<Rightarrow>
          (case f of
             Invalid_request \<Rightarrow> ''provider_rejected_input''
           | Admission_denied \<Rightarrow> ''provider_admission_denied''
           | Authority_denied \<Rightarrow> ''provider_authority_denied''
           | Transient \<Rightarrow> ''provider_temporarily_unavailable''
           | Permanent \<Rightarrow> ''provider_permanent_rejection''
           | Unspecified \<Rightarrow> ''provider_rejected_send'')
      | _ \<Rightarrow> ''provider_rejected_send'')"

text \<open>\<open>getattr(work.routing if field in Routing.model_fields else work, field)\<close>.\<close>

fun work_get :: "provider_work \<Rightarrow> work_field \<Rightarrow> scalar option" where
  "work_get w Title = Some (Text (pw_title w))"
| "work_get w Notes = Some (Text (pw_notes w))"
| "work_get w Completed = Some (Flag (pw_completed w))"
| "work_get w Priority = map_option Text (rt_priority (pw_routing w))"
| "work_get w Work_type = map_option Text (rt_work_type (pw_routing w))"
| "work_get w Horizon = map_option Text (rt_horizon (pw_routing w))"
| "work_get w Review_next_action = map_option Text (rt_review_next_action (pw_routing w))"
| "work_get w Stage3_gate = map_option Text (rt_stage3_gate (pw_routing w))"
| "work_get w Lifecycle_state = map_option Text (rt_lifecycle_state (pw_routing w))"
| "work_get w Canonical_root = map_option Text (rt_canonical_root (pw_routing w))"
| "work_get w Owner_key = map_option Text (rt_owner_key (pw_routing w))"
| "work_get w Wait_kind = map_option Text (rt_wait_kind (pw_routing w))"
| "work_get w Unblock_condition = map_option Text (rt_unblock_condition (pw_routing w))"
| "work_get w Next_due = map_option Text (rt_next_due (pw_routing w))"
| "work_get w Next_action_class = map_option Text (rt_next_action_class (pw_routing w))"
| "work_get w Next_action_ref = map_option Text (rt_next_action_ref (pw_routing w))"

definition patch_matches :: "patch \<Rightarrow> provider_work \<Rightarrow> bool" where
  "patch_matches p w = list_all (\<lambda>f. work_get w f = patch_get p f) (fields_set p)"

end
