(* ===== verification/Prog_Logic.thy ===== *)
theory Prog_Logic
  imports Switch_Prelude
begin

text \<open>
  Two judgements on state-passing programs and the rules that discharge them by introduction:
  \<open>frames P m\<close>, every run of \<open>m\<close> (also one that raises) relates the states before and after
  by \<open>P\<close>; and \<open>yields P m\<close>, whatever \<open>m\<close> returns satisfies \<open>P\<close>.
\<close>

named_theorems frame_intros
named_theorems yield_intros

section \<open>Frames\<close>

definition frames :: "('s \<Rightarrow> 's \<Rightarrow> bool) \<Rightarrow> ('s, 'a) prog \<Rightarrow> bool" where
  "frames P m = (\<forall>s r s'. m s = (r, s') \<longrightarrow> P s s')"

lemma framesD: "frames P m \<Longrightarrow> m s = (r, s') \<Longrightarrow> P s s'"
  by (simp add: frames_def)

lemma framesI: "(\<And>s r s'. m s = (r, s') \<Longrightarrow> P s s') \<Longrightarrow> frames P m"
  by (simp add: frames_def)

lemma frames_bindP [frame_intros]:
  assumes "transp P" and "frames P m" and "\<And>x. frames P (f x)"
  shows "frames P (bindP m f)"
proof (rule framesI)
  fix s r s'
  assume "bindP m f s = (r, s')"
  then show "P s s'"
    by (cases rule: bindP_cases)
       (auto dest: framesD [OF assms(2)] framesD [OF assms(3)] transpD [OF assms(1)])
qed

lemma frames_catchP [frame_intros]:
  assumes "transp P" and "frames P m" and "\<And>e. frames P (h e)"
  shows "frames P (catchP m h)"
proof (rule framesI)
  fix s r s'
  assume "catchP m h s = (r, s')"
  then show "P s s'"
    by (auto simp: catchP_def split: prod.splits sum.splits
        dest: framesD [OF assms(2)] framesD [OF assms(3)] intro: transpD [OF assms(1)])
qed

lemma frames_return [frame_intros]: "reflp P \<Longrightarrow> frames P (returnP x)"
  by (auto intro!: framesI simp: reflpD)

lemma frames_raise [frame_intros]: "reflp P \<Longrightarrow> frames P (raiseP e)"
  by (auto intro!: framesI simp: reflpD)

lemma frames_lift [frame_intros]: "reflp P \<Longrightarrow> frames P (liftP r)"
  by (auto intro!: framesI simp: reflpD)

lemma frames_gets [frame_intros]: "reflp P \<Longrightarrow> frames P (getsP f)"
  by (auto intro!: framesI simp: reflpD)

lemma frames_if_none [frame_intros]:
  "frames P d \<Longrightarrow> (\<And>x. frames P (f x)) \<Longrightarrow> frames P (if_none v d f)"
  by (cases v) auto

lemma frames_if [frame_intros]:
  "frames P m \<Longrightarrow> frames P n \<Longrightarrow> frames P (if b then m else n)"
  by simp

lemma frames_mapP [frame_intros]:
  assumes "transp P" and "reflp P" and "\<And>x. frames P (f x)"
  shows "frames P (mapP f xs)"
  by (induction xs; unfold mapP.simps) (intro frame_intros assms | assumption)+

section \<open>Results\<close>

definition yields :: "('a \<Rightarrow> bool) \<Rightarrow> ('s, 'a) prog \<Rightarrow> bool" where
  "yields P m = (\<forall>s x s'. m s = (Inr x, s') \<longrightarrow> P x)"

lemma yieldsD: "yields P m \<Longrightarrow> m s = (Inr x, s') \<Longrightarrow> P x"
  unfolding yields_def by blast

lemma yieldsI: "(\<And>s x s'. m s = (Inr x, s') \<Longrightarrow> P x) \<Longrightarrow> yields P m"
  unfolding yields_def by blast

lemma yields_return [yield_intros]: "P x \<Longrightarrow> yields P (returnP x)"
  by (auto intro!: yieldsI)

lemma yields_raise [yield_intros]: "yields P (raiseP e)"
  by (auto intro!: yieldsI)

lemma yields_bind:
  assumes "yields Q m" and "\<And>x. Q x \<Longrightarrow> yields P (f x)"
  shows "yields P (bindP m f)"
  by (rule yieldsI) (erule bindP_Inr_E, blast dest: yieldsD [OF assms(1)] yieldsD [OF assms(2)])

lemma yields_bind_any [yield_intros]: "(\<And>x. yields P (f x)) \<Longrightarrow> yields P (bindP m f)"
  by (rule yields_bind [of "\<lambda>_. True"]) (auto intro: yieldsI)

lemma yields_catch [yield_intros]:
  "yields P m \<Longrightarrow> (\<And>e. yields P (h e)) \<Longrightarrow> yields P (catchP m h)"
  by (rule yieldsI) (auto simp: catchP_def split: prod.splits sum.splits dest: yieldsD)

lemma yields_if_none [yield_intros]:
  "yields P d \<Longrightarrow> (\<And>x. yields P (f x)) \<Longrightarrow> yields P (if_none v d f)"
  by (cases v) auto

lemma yields_if [yield_intros]:
  "(b \<Longrightarrow> yields P m) \<Longrightarrow> (\<not> b \<Longrightarrow> yields P n) \<Longrightarrow> yields P (if b then m else n)"
  by simp

lemma yields_mapP:
  "(\<And>x. yields Q (f x)) \<Longrightarrow> yields (list_all Q) (mapP f xs)"
proof (induction xs)
  case Nil
  then show ?case by (unfold mapP.simps, intro yields_return) simp
next
  case (Cons x xs)
  show ?case
    unfolding mapP.simps
    by (rule yields_bind [OF Cons.prems], rule yields_bind [OF Cons.IH [OF Cons.prems]],
        rule yields_return) simp
qed

lemma yields_liftL: "yields P m \<Longrightarrow> yields P (liftL m)"
  by (rule yieldsI) (auto simp: liftL_def split: prod.splits dest: yieldsD)

lemma yields_try_exceptL [yield_intros]:
  assumes "yields P m" and "\<And>e l x. h e l = Inr x \<Longrightarrow> P x"
  shows "yields P (try_exceptL l m h)"
proof (rule yieldsI)
  fix s x s'
  assume "try_exceptL l m h s = (Inr x, s')"
  then show "P x"
    by (auto simp: try_exceptL_def split: prod.splits sum.splits
        dest: yieldsD [OF assms(1)] assms(2))
qed

section \<open>Unfolding runs\<close>

lemma liftL_eq: "liftL m (s, l) = (r, (s', l')) \<longleftrightarrow> m s = (r, s') \<and> l' = l"
  by (auto simp: liftL_def split: prod.splits)

lemma liftL_run: "liftL m (s, l) = (case m s of (r, s') \<Rightarrow> (r, (s', l)))"
  by (simp add: liftL_def)

lemma catchP_cases:
  assumes "catchP m h s = (r, s')"
  obtains (returned) x where "m s = (Inr x, s')" "r = Inr x"
    | (handled) e s1 where "m s = (Inl e, s1)" "h e s1 = (r, s')"
  using assms by (auto simp: catchP_def split: prod.splits sum.splits)

lemma try_exceptL_cases:
  assumes "try_exceptL l m h s = (r, s')"
  obtains (returned) x l' where "m (s, l) = (Inr x, (s', l'))" "r = Inr x"
    | (handled) e l' where "m (s, l) = (Inl e, (s', l'))" "r = h e l'"
  using assms by (auto simp: try_exceptL_def split: prod.splits sum.splits)

end
