(* ===== verification/World.thy ===== *)
theory World
  imports Grant_State Core_Types Prog_Logic
begin

text \<open>
  The state an effect handler runs in: the database tables, the values \<open>uuid4()\<close> and the clock
  will return, the behaviour of the coming database calls, and the provider behind the
  handlers, whose state is opaque (\<open>'p\<close>). A database call may fail before or after its
  transaction committed: \<open>SQLAlchemyError\<close> says nothing about which.
\<close>

datatype fault = No_fault | Fail_before | Fail_after

record state_db =
  sdb_handles :: "handle list"
  sdb_events :: "event_handle list"

record 'p world =
  w_grants :: grant_db
  w_state :: state_db
  w_rand :: "uuid list"
  w_faults :: "fault list"
  w_readings :: "int list"
  w_now :: int
  w_sends :: "ext_effect list"
  w_ext :: 'p

text \<open>\<open>w_sends\<close> records the effects providers were asked for; no code reads it.\<close>

definition db_call :: "('p world, 'a) prog \<Rightarrow> ('p world, 'a) prog" where
  "db_call m w =
     (case w_faults w of
        [] \<Rightarrow> m w
      | f # fs \<Rightarrow>
          (case f of
             No_fault \<Rightarrow> m (w\<lparr>w_faults := fs\<rparr>)
           | Fail_before \<Rightarrow> (Inl SQLAlchemyError, w\<lparr>w_faults := fs\<rparr>)
           | Fail_after \<Rightarrow> (Inl SQLAlchemyError, snd (m (w\<lparr>w_faults := fs\<rparr>)))))"

text \<open>\<open>uuid4()\<close> and \<open>datetime.now(UTC)\<close>; the given sequences continue with a constant.\<close>

definition uuid4 :: "('p world, uuid) prog" where
  "uuid4 w = (case w_rand w of [] \<Rightarrow> (Inr 0, w) | u # us \<Rightarrow> (Inr u, w\<lparr>w_rand := us\<rparr>))"

definition now_utc :: "('p world, int) prog" where
  "now_utc w =
     (case w_readings w of
        [] \<Rightarrow> (Inr (w_now w), w)
      | t # ts \<Rightarrow> (Inr t, w\<lparr>w_readings := ts, w_now := t\<rparr>))"

text \<open>A read from a provider, and a call that asks it for an effect.\<close>

definition ext_call :: "('p, 'a) prog \<Rightarrow> ('p world, 'a) prog" where
  "ext_call m w = (case m (w_ext w) of (r, x) \<Rightarrow> (r, w\<lparr>w_ext := x\<rparr>))"

definition send_call :: "ext_effect \<Rightarrow> ('p, 'a) prog \<Rightarrow> ('p world, 'a) prog" where
  "send_call e m w = ext_call m (w\<lparr>w_sends := w_sends w @ [e]\<rparr>)"

text \<open>
  A block \<open>async with engine.begin()\<close> whose body makes its own calls: entering may fail, and so
  may the commit or rollback at the end, which replaces what the body returned or raised.
\<close>

definition lock_exit :: "('p world, unit) prog" where
  "lock_exit = db_call (\<lambda>w. (Inr (), w))"

definition locked_block ::
  "('p world \<times> 'l, 'a) prog \<Rightarrow> ('a \<Rightarrow> ('p world \<times> 'l, 'b) prog) \<Rightarrow> ('p world \<times> 'l, 'b) prog" where
  "locked_block enter body w =
     (case enter w of
        (Inl e, w1) \<Rightarrow> (Inl e, w1)
      | (Inr x, w1) \<Rightarrow>
          (case body x w1 of
             (r, w2) \<Rightarrow>
               (case liftL lock_exit w2 of
                  (Inl e, w3) \<Rightarrow> (Inl e, w3)
                | (Inr _, w3) \<Rightarrow> (r, w3))))"

text \<open>Reads and transactions on the grant tables.\<close>

definition grants_read :: "(grant_db \<Rightarrow> 'a py_result) \<Rightarrow> ('p world, 'a) prog" where
  "grants_read f = db_call (\<lambda>w. (f (w_grants w), w))"

definition grants_write :: "(grant_db \<Rightarrow> grant_db py_result) \<Rightarrow> ('p world, unit) prog" where
  "grants_write f = db_call (\<lambda>w. case f (w_grants w) of
     Inl e \<Rightarrow> (Inl e, w) | Inr db \<Rightarrow> (Inr (), w\<lparr>w_grants := db\<rparr>))"

section \<open>What the primitives leave unchanged\<close>

text \<open>
  The relation the gateways' lemmas use: the journal only moves by its own steps, and no
  external effect is invoked.
\<close>

definition quiet :: "'p world \<Rightarrow> 'p world \<Rightarrow> bool" where
  "quiet w w' = (journal.journal_steps (w_grants w) (w_grants w') \<and> w_sends w' = w_sends w)"

lemma quiet_refl [simp]: "quiet w w"
  by (simp add: quiet_def)

lemma quiet_trans: "quiet w w' \<Longrightarrow> quiet w' w'' \<Longrightarrow> quiet w w''"
  by (auto simp: quiet_def)

lemma quiet_reflp [frame_intros]: "reflp quiet"
  by (simp add: reflp_def)

lemma quiet_transp [frame_intros]: "transp quiet"
  by (auto intro: transpI quiet_trans)

lemma db_call_world:
  assumes "db_call m w = (r, w')"
  shows "(\<exists>fs. w' = w\<lparr>w_faults := fs\<rparr> \<and> r = Inl SQLAlchemyError)
    \<or> (\<exists>fs r'. m (w\<lparr>w_faults := fs\<rparr>) = (r', w') \<and> (r = r' \<or> r = Inl SQLAlchemyError))"
proof (cases "w_faults w")
  case Nil
  then have same: "w\<lparr>w_faults := []\<rparr> = w" by (cases w) simp
  from Nil assms have "m w = (r, w')" by (simp add: db_call_def)
  then have "m (w\<lparr>w_faults := []\<rparr>) = (r, w')" by (simp only: same)
  then show ?thesis by blast
next
  case (Cons f fs)
  show ?thesis
  proof (cases f)
    case No_fault
    with Cons assms show ?thesis
      by (intro disjI2 exI [of _ fs] exI [of _ r]) (simp add: db_call_def)
  next
    case Fail_before
    with Cons assms show ?thesis by (auto simp: db_call_def)
  next
    case Fail_after
    with Cons assms show ?thesis
      by (intro disjI2 exI [of _ fs] exI [of _ "fst (m (w\<lparr>w_faults := fs\<rparr>))"])
         (auto simp: db_call_def)
  qed
qed

lemma quiet_faults [simp]:
  "quiet (w\<lparr>w_faults := fs\<rparr>) w' = quiet w w'" "quiet w (w'\<lparr>w_faults := fs\<rparr>) = quiet w w'"
  by (simp_all add: quiet_def)

lemma frames_db_call:
  assumes "\<And>w r w'. m w = (r, w') \<Longrightarrow> quiet w w'"
  shows "frames quiet (db_call m)"
proof (rule framesI)
  fix w r w'
  assume "db_call m w = (r, w')"
  from db_call_world [OF this] assms show "quiet w w'"
    by (metis quiet_faults(1) quiet_refl)
qed

lemma frames_grants_read [frame_intros]: "frames quiet (grants_read f)"
  unfolding grants_read_def by (rule frames_db_call) auto

lemma frames_finish [frame_intros]: "frames quiet (grants_write (finish o'))"
  unfolding grants_write_def
  by (rule frames_db_call)
     (auto simp: quiet_def finish_journal_settle split: sum.splits
       intro: journal.step_settle)

lemma frames_now [frame_intros]: "frames quiet now_utc"
  by (rule framesI) (auto simp: now_utc_def quiet_def split: list.splits)

lemma frames_uuid4 [frame_intros]: "frames quiet uuid4"
  by (rule framesI) (auto simp: uuid4_def quiet_def split: list.splits)

lemma frames_ext_call [frame_intros]: "frames quiet (ext_call m)"
  by (rule framesI) (auto simp: ext_call_def quiet_def split: prod.splits)

lemma frames_lock_exit [frame_intros]: "frames quiet lock_exit"
  unfolding lock_exit_def by (rule frames_db_call) auto

lemma ext_call_run:
  assumes "ext_call m w = (r, w')"
  obtains x where "m (w_ext w) = (r, x)" "w' = w\<lparr>w_ext := x\<rparr>"
  using assms by (auto simp: ext_call_def split: prod.splits)

lemma send_call_run:
  assumes "send_call e m w = (r, w')"
  obtains x where "m (w_ext w) = (r, x)" "w' = w\<lparr>w_sends := w_sends w @ [e], w_ext := x\<rparr>"
  using assms by (auto simp: send_call_def elim!: ext_call_run)

text \<open>The lock block, for results and for frames.\<close>

lemma lock_exit_run:
  assumes "lock_exit w = (r, w')"
  obtains fs where "w' = w\<lparr>w_faults := fs\<rparr>" "r = Inr () \<or> r = Inl SQLAlchemyError"
  using db_call_world [OF assms [unfolded lock_exit_def]] by auto

lemma locked_block_cases:
  assumes "locked_block enter body w = (r, w')"
  obtains (enter) e where "enter w = (Inl e, w')" "r = Inl e"
    | (body) x w1 r1 v l fs where "enter w = (Inr x, w1)" "body x w1 = (r1, (v, l))"
        "w' = (v\<lparr>w_faults := fs\<rparr>, l)" "r = r1 \<or> r = Inl SQLAlchemyError"
proof -
  obtain re w1 where Pair: "enter w = (re, w1)" by (rule prod.exhaust)
  show ?thesis
  proof (cases re)
    case (Inl e)
    with assms Pair enter show ?thesis by (simp add: locked_block_def)
  next
    case (Inr x)
    obtain r1 v l where b: "body x w1 = (r1, (v, l))" by (metis prod.exhaust)
    obtain re v3 where ex: "lock_exit v = (re, v3)" by fastforce
    then obtain fs where "v3 = v\<lparr>w_faults := fs\<rparr>" and re: "re = Inr () \<or> re = Inl SQLAlchemyError"
      by (rule lock_exit_run)
    with assms Pair Inr b ex have "w' = (v\<lparr>w_faults := fs\<rparr>, l)" "r = r1 \<or> r = Inl SQLAlchemyError"
      by (auto simp: locked_block_def liftL_def)
    with body [OF _ b] Pair Inr show ?thesis by simp
  qed
qed

text \<open>Runs of the grant-table calls.\<close>

lemma grants_read_run:
  assumes "grants_read f w = (r, w')"
  obtains fs where "w' = w\<lparr>w_faults := fs\<rparr>" "r = f (w_grants w) \<or> r = Inl SQLAlchemyError"
  using db_call_world [OF assms [unfolded grants_read_def]] by auto

lemma grants_write_cases:
  assumes "grants_write f w = (r, w')"
  obtains (kept) fs e where "w' = w\<lparr>w_faults := fs\<rparr>" "r = Inl e"
        "e = SQLAlchemyError \<or> f (w_grants w) = Inl e"
    | (stored) fs db where "f (w_grants w) = Inr db" "w' = w\<lparr>w_faults := fs, w_grants := db\<rparr>"
        "r = Inr () \<or> r = Inl SQLAlchemyError"
proof (cases "f (w_grants w)")
  case (Inl e)
  with db_call_world [OF assms [unfolded grants_write_def]] kept show ?thesis by auto
next
  case (Inr db)
  with db_call_world [OF assms [unfolded grants_write_def]] kept stored show ?thesis by auto
qed

lemma yields_locked_block [yield_intros]:
  assumes "\<And>x. yields P (body x)"
  shows "yields P (locked_block enter body)"
proof (rule yieldsI)
  fix s y s'
  assume "locked_block enter body s = (Inr y, s')"
  then show "P y"
    by (cases rule: locked_block_cases) (auto dest: yieldsD [OF assms])
qed


end
