(* ===== verification/State_Store.thy ===== *)
theory State_Store
  imports World
begin

text \<open>
  The work and event handles of \<open>src/switchstand/state.py\<close> (\<open>PostgresState\<close>): stable opaque ids
  for provider identities. Inserts use \<open>ON CONFLICT DO NOTHING\<close>, so a conflict on any unique
  column leaves the table as it is and the code reads what is there.
\<close>

section \<open>Operations\<close>

definition provider_key :: "handle \<Rightarrow> string \<times> string" where
  "provider_key h = (h_provider h, h_provider_work_id h)"

definition event_key :: "event_handle \<Rightarrow> uuid \<times> string \<times> string \<times> string" where
  "event_key e = (eh_work_id e, eh_provider e, eh_provider_work_id e, eh_provider_event_id e)"

definition state_get :: "uuid \<Rightarrow> state_db \<Rightarrow> handle option py_result" where
  "state_get wid db = one_or_none (filter (\<lambda>h. h_id h = wid) (sdb_handles db))"

definition get_by_provider :: "string \<Rightarrow> string \<Rightarrow> state_db \<Rightarrow> handle option py_result" where
  "get_by_provider p k db = one_or_none (filter (\<lambda>h. provider_key h = (p, k)) (sdb_handles db))"

text \<open>
  The statement both binders share: insert unless the id or the provider identity is taken, and
  otherwise return the one row that conflicts, which must carry the requested identity.
\<close>

definition insert_handle ::
  "uuid \<Rightarrow> string \<Rightarrow> string \<Rightarrow> state_db \<Rightarrow> (handle \<times> state_db) py_result" where
  "insert_handle wid p k db =
     (let existing = filter (\<lambda>h. h_id h = wid \<or> provider_key h = (p, k)) (sdb_handles db)
      in if existing = []
         then (let h = \<lparr>h_id = wid, h_provider = p, h_provider_work_id = k\<rparr>
               in Inr (h, db\<lparr>sdb_handles := sdb_handles db @ [h]\<rparr>))
         else if length existing \<noteq> 1 then Inl ValueError
         else if provider_key (hd existing) \<noteq> (p, k) then Inl ValueError
         else Inr (hd existing, db))"

definition bind_reserved ::
  "uuid \<Rightarrow> string \<Rightarrow> string \<Rightarrow> bool \<Rightarrow> state_db \<Rightarrow> (handle \<times> state_db) py_result" where
  "bind_reserved wid p k allow_existing db =
     bindE (insert_handle wid p k db) (\<lambda>(h, db').
       if h_id h \<noteq> wid \<and> \<not> allow_existing then Inl ValueError else Inr (h, db'))"

fun bind_many :: "string \<Rightarrow> (uuid \<times> string) list \<Rightarrow> state_db \<Rightarrow> (handle list \<times> state_db) py_result" where
  "bind_many p [] db = Inr ([], db)"
| "bind_many p ((wid, k) # ks) db =
     bindE (insert_handle wid p k db) (\<lambda>(h, db').
       bindE (bind_many p ks db') (\<lambda>(hs, db''). Inr (h # hs, db'')))"

definition bind_event ::
  "uuid \<Rightarrow> uuid \<Rightarrow> string \<Rightarrow> string \<Rightarrow> string \<Rightarrow> state_db \<Rightarrow> (event_handle \<times> state_db) py_result" where
  "bind_event new wid p k ev db =
     (if p = [] \<or> k = [] \<or> ev = [] then Inl ValueError
      else bindE (state_get wid db) (\<lambda>bound.
        case bound of
          None \<Rightarrow> Inl ValueError
        | Some h \<Rightarrow>
            if provider_key h \<noteq> (p, k) then Inl ValueError
            else
              (let e = \<lparr>eh_id = new, eh_work_id = wid, eh_provider = p, eh_provider_work_id = k,
                        eh_provider_event_id = ev\<rparr>;
                   same = filter (\<lambda>x. event_key x = event_key e) (sdb_events db)
               in if new \<notin> eh_id ` set (sdb_events db) \<and> same = []
                  then Inr (e, db\<lparr>sdb_events := sdb_events db @ [e]\<rparr>)
                  else (case same of [x] \<Rightarrow> Inr (x, db) | _ \<Rightarrow> Inl SQLAlchemyError))))"

definition get_event :: "uuid \<Rightarrow> uuid \<Rightarrow> state_db \<Rightarrow> event_handle option py_result" where
  "get_event wid eid db =
     one_or_none (filter (\<lambda>e. eh_id e = eid \<and> eh_work_id e = wid) (sdb_events db))"

text \<open>The operations as calls of the world.\<close>

definition state_read :: "(state_db \<Rightarrow> 'a py_result) \<Rightarrow> ('p world, 'a) prog" where
  "state_read f = db_call (\<lambda>w. (f (w_state w), w))"

definition state_write :: "(state_db \<Rightarrow> ('a \<times> state_db) py_result) \<Rightarrow> ('p world, 'a) prog" where
  "state_write f = db_call (\<lambda>w. case f (w_state w) of
     Inl e \<Rightarrow> (Inl e, w) | Inr (x, db) \<Rightarrow> (Inr x, w\<lparr>w_state := db\<rparr>))"

definition bind_work_handle :: "string \<Rightarrow> string \<Rightarrow> ('p world, handle) prog" where
  "bind_work_handle p k = bindP uuid4 (\<lambda>u. state_write (bind_reserved u p k True))"

lemma frames_state_read [frame_intros]: "frames quiet (state_read f)"
  unfolding state_read_def by (rule frames_db_call) auto

lemma state_read_run:
  assumes "state_read f w = (r, w')"
  shows "w_state w' = w_state w" and "w_sends w' = w_sends w" and "w_ext w' = w_ext w"
    and "w_grants w' = w_grants w" and "r = f (w_state w) \<or> r = Inl SQLAlchemyError"
  using db_call_world [OF assms [unfolded state_read_def]] by auto

lemma frames_state_write [frame_intros]: "frames quiet (state_write f)"
  unfolding state_write_def
  by (rule frames_db_call) (auto simp: quiet_def split: sum.splits prod.splits)

section \<open>Invariant\<close>

text \<open>
  The unique constraints of the two tables, and that an event handle names the provider
  identity its work is bound to (\<open>bind_event\<close> compares them under the row lock).
\<close>

definition state_inv :: "state_db \<Rightarrow> bool" where
  "state_inv db =
     (distinct (map h_id (sdb_handles db)) \<and> distinct (map provider_key (sdb_handles db))
      \<and> distinct (map eh_id (sdb_events db)) \<and> distinct (map event_key (sdb_events db))
      \<and> (\<forall>e \<in> set (sdb_events db). \<exists>h \<in> set (sdb_handles db).
           h_id h = eh_work_id e \<and> provider_key h = (eh_provider e, eh_provider_work_id e)))"

lemma insert_handle_cases:
  assumes "insert_handle wid p k db = Inr (h, db')"
  obtains (new) "db' = db\<lparr>sdb_handles := sdb_handles db @ [h]\<rparr>" "h_id h = wid"
      "provider_key h = (p, k)" "wid \<notin> h_id ` set (sdb_handles db)"
      "(p, k) \<notin> provider_key ` set (sdb_handles db)"
    | (old) "db' = db" "h \<in> set (sdb_handles db)" "provider_key h = (p, k)"
proof -
  let ?ex = "filter (\<lambda>h. h_id h = wid \<or> provider_key h = (p, k)) (sdb_handles db)"
  show ?thesis
  proof (cases "?ex = []")
    case True
    then have none: "wid \<notin> h_id ` set (sdb_handles db)"
      "(p, k) \<notin> provider_key ` set (sdb_handles db)"
      by (auto simp: filter_empty_conv)
    from True assms have "h = \<lparr>h_id = wid, h_provider = p, h_provider_work_id = k\<rparr>"
      "db' = db\<lparr>sdb_handles := sdb_handles db @ [h]\<rparr>"
      by (auto simp: insert_handle_def Let_def)
    with none new show ?thesis by (simp add: provider_key_def)
  next
    case False
    with assms have h: "h = hd ?ex" "db' = db" "provider_key h = (p, k)"
      by (auto simp: insert_handle_def Let_def split: if_splits)
    from False have "hd ?ex \<in> set ?ex" by (rule hd_in_set)
    with h old show ?thesis by auto
  qed
qed

lemma insert_handle_inv:
  assumes "state_inv db" and "insert_handle wid p k db = Inr (h, db')"
  shows "state_inv db'" and "h \<in> set (sdb_handles db')" and "provider_key h = (p, k)"
    and "set (sdb_handles db) \<subseteq> set (sdb_handles db')" and "sdb_events db' = sdb_events db"
  using assms(2)
  by (cases rule: insert_handle_cases;
      use assms(1) in \<open>auto simp: state_inv_def\<close>)+

lemma bind_reserved_inv:
  assumes "state_inv db" and "bind_reserved wid p k allow db = Inr (h, db')"
  shows "state_inv db'" and "h \<in> set (sdb_handles db')" and "provider_key h = (p, k)"
    and "set (sdb_handles db) \<subseteq> set (sdb_handles db')"
    and "\<not> allow \<Longrightarrow> h_id h = wid"
proof -
  from assms(2) have ins: "insert_handle wid p k db = Inr (h, db')"
    and id: "h_id h = wid \<or> allow"
    by (auto simp: bind_reserved_def bindE_eq_Inr split: if_splits)
  show "state_inv db'" "h \<in> set (sdb_handles db')" "provider_key h = (p, k)"
    "set (sdb_handles db) \<subseteq> set (sdb_handles db')"
    using insert_handle_inv [OF assms(1) ins] by blast+
  show "\<not> allow \<Longrightarrow> h_id h = wid" using id by blast
qed

lemma bind_many_inv:
  assumes "state_inv db" and "bind_many p ks db = Inr (hs, db')"
  shows "state_inv db' \<and> set hs \<subseteq> set (sdb_handles db') \<and> set (sdb_handles db) \<subseteq> set (sdb_handles db')
    \<and> map provider_key hs = map (\<lambda>(_, k). (p, k)) ks"
  using assms
proof (induction p ks db arbitrary: hs rule: bind_many.induct)
  case (1 p db)
  then show ?case by simp
next
  case (2 p wid k ks db)
  from "2.prems"(2) obtain h db1 hs1 where ins: "insert_handle wid p k db = Inr (h, db1)"
    and rest: "bind_many p ks db1 = Inr (hs1, db')" and hs: "hs = h # hs1"
    by (auto simp: bindE_eq_Inr)
  note inv = insert_handle_inv [OF "2.prems"(1) ins]
  from "2.IH" [OF inv(1) rest] inv hs show ?case by auto
qed

lemma bind_event_inv:
  assumes "state_inv db" and "bind_event new wid p k ev db = Inr (e, db')"
  shows "state_inv db'" and "e \<in> set (sdb_events db')" and "event_key e = (wid, p, k, ev)"
    and "sdb_handles db' = sdb_handles db" and "set (sdb_events db) \<subseteq> set (sdb_events db')"
proof -
  from assms(2) obtain h where h: "state_get wid db = Inr (Some h)" "provider_key h = (p, k)"
    by (auto simp: bind_event_def bindE_eq_Inr Let_def split: if_splits option.splits)
  then have hs: "h \<in> set (sdb_handles db)" "h_id h = wid"
    by (auto simp: state_get_def one_or_none_Some dest!: filter_eq_ConsD)
  let ?e = "\<lparr>eh_id = new, eh_work_id = wid, eh_provider = p, eh_provider_work_id = k,
                        eh_provider_event_id = ev\<rparr>"
  from assms(2) h consider
      (new) "e = ?e" "db' = db\<lparr>sdb_events := sdb_events db @ [e]\<rparr>"
        "new \<notin> eh_id ` set (sdb_events db)" "event_key ?e \<notin> event_key ` set (sdb_events db)"
    | (old) "db' = db" "e \<in> set (sdb_events db)" "event_key e = event_key ?e"
    by (auto simp: bind_event_def bindE_eq_Inr Let_def filter_empty_conv image_iff
        split: if_splits option.splits list.splits dest!: filter_eq_ConsD) metis+
  then show "state_inv db'" and "e \<in> set (sdb_events db')" and "event_key e = (wid, p, k, ev)"
    and "sdb_handles db' = sdb_handles db" and "set (sdb_events db) \<subseteq> set (sdb_events db')"
    using assms(1) hs h(2) by (cases; auto simp: state_inv_def event_key_def)+
qed

lemma state_inv_lookup:
  assumes "state_inv db" and "h \<in> set (sdb_handles db)"
  shows "state_get (h_id h) db = Inr (Some h)"
    and "get_by_provider (h_provider h) (h_provider_work_id h) db = Inr (Some h)"
proof -
  have one: "filter (\<lambda>x. key x = key h) (sdb_handles db) = [h]"
    if "distinct (map key (sdb_handles db))" for key :: "handle \<Rightarrow> 'k"
  proof -
    have mem: "h \<in> set (filter (\<lambda>x. key x = key h) (sdb_handles db))" using assms(2) by simp
    from filter_key_distinct [OF that, of "key h"] show ?thesis
    proof (elim disjE exE conjE)
      assume "filter (\<lambda>x. key x = key h) (sdb_handles db) = []"
      with mem show ?thesis by (simp only: list.set empty_iff)
    next
      fix r
      assume r: "filter (\<lambda>x. key x = key h) (sdb_handles db) = [r]"
      with mem have "h = r" by (simp only: list.set singleton_iff)
      with r show ?thesis by (simp only:)
    qed
  qed
  show "state_get (h_id h) db = Inr (Some h)"
    using one [of h_id] assms(1) by (simp add: state_get_def state_inv_def)
  show "get_by_provider (h_provider h) (h_provider_work_id h) db = Inr (Some h)"
    using one [of provider_key] assms(1)
    by (simp add: get_by_provider_def state_inv_def provider_key_def)
qed

lemma state_write_cases:
  assumes "state_write f w = (r, w')"
  obtains (fault) "r = Inl SQLAlchemyError" | (raised) e where "f (w_state w) = Inl e" "r = Inl e"
    | (stored) x where "f (w_state w) = Inr (x, w_state w')" "r = Inr x" "w_sends w' = w_sends w"
proof (cases "f (w_state w)")
  case (Inl e)
  with db_call_world [OF assms [unfolded state_write_def]] fault raised show ?thesis by auto
next
  case (Inr y)
  obtain x db where "y = (x, db)" by fastforce
  with Inr db_call_world [OF assms [unfolded state_write_def]] fault that(3) show ?thesis by auto
qed

lemma bind_work_handle_no_validation: "bind_work_handle p k w \<noteq> (Inl ValidationError, w')"
proof
  assume "bind_work_handle p k w = (Inl ValidationError, w')"
  then obtain u w1 where "state_write (bind_reserved u p k True) w1 = (Inl ValidationError, w')"
    by (auto simp: bind_work_handle_def uuid4_def elim!: bindP_cases split: list.splits)
  then show False
    by (cases rule: state_write_cases)
       (auto simp: bind_reserved_def insert_handle_def Let_def bindE_def split: if_splits)
qed

lemma bind_work_handle_run:
  assumes "bind_work_handle p k w = (Inr h, w')" and "state_inv (w_state w)"
  shows "state_inv (w_state w') \<and> h \<in> set (sdb_handles (w_state w')) \<and> provider_key h = (p, k)
    \<and> set (sdb_handles (w_state w)) \<subseteq> set (sdb_handles (w_state w'))"
proof -
  from assms(1) obtain u w1 where "uuid4 w = (Inr u, w1)"
    and wr: "state_write (bind_reserved u p k True) w1 = (Inr h, w')"
    unfolding bind_work_handle_def by (rule bindP_Inr_E)
  then have same: "w_state w1 = w_state w" by (auto simp: uuid4_def split: list.splits)
  from wr have "bind_reserved u p k True (w_state w1) = Inr (h, w_state w')"
    by (cases rule: state_write_cases) auto
  with bind_reserved_inv [OF assms(2)] same show ?thesis by simp
qed

lemma bind_work_handles_run:
  assumes "mapP (\<lambda>k. bind_work_handle p k) ks w = (Inr hs, w')" and "state_inv (w_state w)"
  shows "state_inv (w_state w') \<and> set hs \<subseteq> set (sdb_handles (w_state w'))
    \<and> map provider_key hs = map (Pair p) ks
    \<and> set (sdb_handles (w_state w)) \<subseteq> set (sdb_handles (w_state w'))"
  using assms
proof (induction ks arbitrary: w hs)
  case Nil
  then show ?case by simp
next
  case (Cons k ks)
  from Cons.prems(1) obtain h w1 hs1 where h: "bind_work_handle p k w = (Inr h, w1)"
    and rest: "mapP (\<lambda>k. bind_work_handle p k) ks w1 = (Inr hs1, w')" and hs: "hs = h # hs1"
    by (auto elim!: bindP_Inr_E)
  note a = bind_work_handle_run [OF h Cons.prems(2)]
  from Cons.IH [OF rest] a hs show ?case by auto
qed

text \<open>Distinct handles of a well-formed store have distinct ids.\<close>

lemma state_inv_ids_distinct:
  assumes "state_inv db" and "set hs \<subseteq> set (sdb_handles db)" and "distinct hs"
  shows "distinct (map h_id hs)"
  using assms unfolding state_inv_def distinct_map by (blast intro: inj_on_subset)

section \<open>Handles are stable\<close>

text \<open>The transactions of the store, and histories of them.\<close>

inductive state_step :: "state_db \<Rightarrow> state_db \<Rightarrow> bool" where
  step_bind: "bind_reserved wid p k allow db = Inr (h, db') \<Longrightarrow> state_step db db'"
| step_many: "bind_many p ks db = Inr (hs, db') \<Longrightarrow> state_step db db'"
| step_event: "bind_event new wid p k ev db = Inr (e, db') \<Longrightarrow> state_step db db'"

abbreviation state_steps :: "state_db \<Rightarrow> state_db \<Rightarrow> bool" where
  "state_steps \<equiv> state_step\<^sup>*\<^sup>*"

lemma state_step_inv:
  assumes "state_step db db'" and "state_inv db"
  shows "state_inv db' \<and> set (sdb_handles db) \<subseteq> set (sdb_handles db')"
  using assms
  by (cases rule: state_step.cases)
     (auto dest: bind_reserved_inv bind_many_inv bind_event_inv)

lemma state_steps_inv:
  assumes "state_steps db db'" and "state_inv db"
  shows "state_inv db' \<and> set (sdb_handles db) \<subseteq> set (sdb_handles db')"
  using assms by (induction rule: rtranclp_induct) (auto dest: state_step_inv)



end
