(* ===== verification/Core_Controller.thy ===== *)
theory Core_Controller
  imports State_Store
begin

text \<open>
  The provider-neutral work controller of \<open>src/switchstand/core.py\<close>: scalar application with
  readback, the launch-bound \<open>Controller\<close> (reads, history, events, updates, appends) and the
  provisioning of a launch. The result records are built directly; that each of them passes its
  validator, so that no construction raises, is proved below.
\<close>

section \<open>Applying a scalar patch\<close>

text \<open>\<open>apply_scalar\<close>: send at most once, then accept only canonical converged state.\<close>

definition apply_scalar ::
  "'p provider \<Rightarrow> string \<Rightarrow> patch \<Rightarrow> bool \<Rightarrow> ('p world, provider_work option) prog" where
  "apply_scalar pv gid p send =
     bindP (if send then send_call (Sent_update gid p) (pv_update pv gid p) else returnP ()) (\<lambda>_.
     bindP (catchP (ext_call (pv_get pv gid))
              (\<lambda>e. if is_provider_error e \<and> send then raiseP UnknownEffect else raiseP e)) (\<lambda>work.
     returnP (case work of
        None \<Rightarrow> None
      | Some w \<Rightarrow> if pw_canonical w \<and> patch_matches p w then Some w else None)))"

section \<open>The controller\<close>

definition item_of :: "uuid \<Rightarrow> provider_work \<Rightarrow> handle \<Rightarrow> work_item" where
  "item_of wid w h =
     \<lparr>wi_id = wid, wi_title = pw_title w, wi_notes = pw_notes w, wi_task_text = None,
      wi_task_approval_id = None, wi_task_approval_digest = None,
      wi_completed = pw_completed w, wi_revision = pw_revision w, wi_routing = pw_routing w,
      wi_context = pw_context w,
      wi_source = Some \<lparr>ws_provider = h_provider h, ws_task_gid = h_provider_work_id h\<rparr>,
      wi_admitted_at = None\<rparr>"

definition work_event_of :: "uuid \<Rightarrow> uuid \<Rightarrow> provider_source_story \<Rightarrow> work_event" where
  "work_event_of wid eid s =
     \<lparr>we_id = eid, we_work_id = wid, we_subtype = pss_subtype s, we_text = pss_text s,
      we_created_at = pss_created_at s, we_actor = pss_created_by s\<rparr>"

abbreviation work_status :: "status \<Rightarrow> work_result" where
  "work_status st \<equiv> \<lparr>wr_status = st, wr_item = None\<rparr>"

abbreviation append_status :: "status \<Rightarrow> append_result" where
  "append_status st \<equiv> \<lparr>apr_status = st, apr_task_gid = None, apr_story_gid = None\<rparr>"

abbreviation history_status :: "status \<Rightarrow> history_result" where
  "history_status st \<equiv> \<lparr>hs_status = st, hs_work_id = None, hs_revision = None, hs_events = [],
     hs_next_cursor = None\<rparr>"

abbreviation event_status :: "status \<Rightarrow> event_result" where
  "event_status st \<equiv> \<lparr>ev_status = st, ev_work_id = None, ev_revision = None, ev_item = None\<rparr>"

definition read_work :: "'p providers \<Rightarrow> uuid \<Rightarrow> handle \<Rightarrow> ('p world, work_result) prog" where
  "read_work pvs wid h =
     (case pvs (h_provider h) of
        None \<Rightarrow> returnP (work_status S_provider_error)
      | Some pv \<Rightarrow>
          bindP (ext_call (pv_get pv (h_provider_work_id h))) (\<lambda>work.
            returnP (case work of
               None \<Rightarrow> work_status S_unknown
             | Some w \<Rightarrow>
                 if \<not> pw_canonical w then work_status S_denied
                 else \<lparr>wr_status = S_ok, wr_item = Some (item_of wid w h)\<rparr>)))"

definition bind_work :: "'p providers \<Rightarrow> string \<Rightarrow> string \<Rightarrow> ('p world, handle) prog" where
  "bind_work pvs name gid =
     (case pvs name of
        None \<Rightarrow> raiseP KeyError
      | Some pv \<Rightarrow>
          bindP (ext_call (pv_get pv gid)) (\<lambda>work.
            case work of
              None \<Rightarrow> raiseP PermissionError
            | Some w \<Rightarrow> if pw_canonical w then bind_work_handle name gid
                        else raiseP PermissionError))"

text \<open>The \<open>except UnknownEffect ... except ProviderError\<close> ladder of the three reads.\<close>

definition read_except :: "(status \<Rightarrow> 'r) \<Rightarrow> ('s, 'r) prog \<Rightarrow> ('s, 'r) prog" where
  "read_except result m =
     catchP m (\<lambda>e. if e = UnknownEffect then returnP (result S_unknown)
                   else if is_provider_error e then returnP (result S_provider_error)
                   else raiseP e)"

definition controller_get ::
  "launch_authority \<Rightarrow> 'p providers \<Rightarrow> uuid \<Rightarrow> ('p world, work_result) prog" where
  "controller_get a pvs wid =
     (if \<not> authority_can_read a wid then returnP (work_status S_denied)
      else read_except work_status
        (bindP (state_read (state_get wid)) (\<lambda>h.
           if_none h (returnP (work_status S_unknown)) (read_work pvs wid))))"

definition bind_event_call ::
  "uuid \<Rightarrow> string \<Rightarrow> string \<Rightarrow> string \<Rightarrow> ('p world, event_handle) prog" where
  "bind_event_call wid p k ev =
     (if p = [] \<or> k = [] \<or> ev = [] then raiseP ValueError
      else bindP uuid4 (\<lambda>u. state_write (bind_event u wid p k ev)))"

definition controller_history ::
  "launch_authority \<Rightarrow> 'p providers \<Rightarrow> history_request \<Rightarrow> ('p world, history_result) prog" where
  "controller_history a pvs r =
     (if \<not> authority_can_read a (hr_work_id r) then returnP (history_status S_denied)
      else read_except history_status
        (bindP (state_read (state_get (hr_work_id r))) (\<lambda>h.
         if_none h (returnP (history_status S_unknown)) (\<lambda>h.
         if_none (pvs (h_provider h)) (returnP (history_status S_provider_error)) (\<lambda>pv.
         bindP (ext_call (pv_source_stories pv (h_provider_work_id h) (hr_observed_revision r)
                   (hr_cursor r) (hr_limit r))) (\<lambda>page.
         if_none page (returnP (history_status S_unknown)) (\<lambda>page.
           if \<not> psp_canonical page then returnP (history_status S_denied)
           else if psp_task_gid page \<noteq> h_provider_work_id h
                   \<or> int (length (psp_stories page)) > hr_limit r
                   \<or> list_ex (\<lambda>s. pss_task_gid s \<noteq> h_provider_work_id h) (psp_stories page)
           then returnP (history_status S_provider_error)
           else if psp_stale page \<or> psp_revision page \<noteq> hr_observed_revision r
           then returnP \<lparr>hs_status = S_stale, hs_work_id = Some (hr_work_id r),
                  hs_revision = Some (psp_revision page), hs_events = [], hs_next_cursor = None\<rparr>
           else bindP (mapP (\<lambda>s.
                  bindP (bind_event_call (hr_work_id r) (h_provider h) (h_provider_work_id h)
                           (pss_story_gid s)) (\<lambda>b.
                    returnP (work_event_of (hr_work_id r) (eh_id b) s))) (psp_stories page)) (\<lambda>evs.
                returnP \<lparr>hs_status = S_ok, hs_work_id = Some (hr_work_id r),
                  hs_revision = Some (psp_revision page), hs_events = evs,
                  hs_next_cursor = psp_next_offset page\<rparr>))))))))"

definition controller_event ::
  "launch_authority \<Rightarrow> 'p providers \<Rightarrow> event_request \<Rightarrow> ('p world, event_result) prog" where
  "controller_event a pvs r =
     (if \<not> authority_can_read a (er_work_id r) then returnP (event_status S_denied)
      else read_except event_status
        (bindP (state_read (state_get (er_work_id r))) (\<lambda>h.
         if_none h (returnP (event_status S_unknown)) (\<lambda>h.
         bindP (state_read (get_event (er_work_id r) (er_event_id r))) (\<lambda>b.
         if_none b (returnP (event_status S_denied)) (\<lambda>b.
         if eh_provider b \<noteq> h_provider h \<or> eh_provider_work_id b \<noteq> h_provider_work_id h
         then returnP (event_status S_denied)
         else
         if_none (pvs (h_provider h)) (returnP (event_status S_provider_error)) (\<lambda>pv.
         bindP (ext_call (pv_source_task pv (h_provider_work_id h))) (\<lambda>before.
         if_none before (returnP (event_status S_unknown)) (\<lambda>before.
         if \<not> pst_canonical before then returnP (event_status S_denied)
         else if pst_revision before \<noteq> er_observed_revision r
         then returnP \<lparr>ev_status = S_stale, ev_work_id = Some (er_work_id r),
                ev_revision = Some (pst_revision before), ev_item = None\<rparr>
         else
         bindP (ext_call (pv_source_story pv (h_provider_work_id h) (eh_provider_event_id b))) (\<lambda>story.
         if_none story (returnP (event_status S_unknown)) (\<lambda>story.
         if pss_task_gid story \<noteq> h_provider_work_id h
            \<or> pss_story_gid story \<noteq> eh_provider_event_id b
         then returnP (event_status S_denied)
         else
         bindP (ext_call (pv_source_task pv (h_provider_work_id h))) (\<lambda>after.
         if_none after (returnP (event_status S_unknown)) (\<lambda>after.
         if \<not> pst_canonical after then returnP (event_status S_denied)
         else if pst_revision after \<noteq> pst_revision before
         then returnP \<lparr>ev_status = S_stale, ev_work_id = Some (er_work_id r),
                ev_revision = Some (pst_revision after), ev_item = None\<rparr>
         else returnP \<lparr>ev_status = S_ok, ev_work_id = Some (er_work_id r),
                ev_revision = Some (pst_revision after),
                ev_item = Some (work_event_of (er_work_id r) (er_event_id r) story)\<rparr>)))))))))))))"

text \<open>
  The writes hold the handle's row lock (\<open>state.locked\<close>). Their local flag says that the effect
  may have happened; the handlers read it.
\<close>

definition write_except :: "(status \<Rightarrow> 'r) \<Rightarrow> py_error \<Rightarrow> bool \<Rightarrow> 'r py_result" where
  "write_except result e may =
     (if e = UnknownEffect then Inr (result S_unknown)
      else if is_provider_error e then Inr (result (if may then S_unknown else S_provider_error))
      else if may then Inr (result S_unknown) else Inl e)"

definition update_body ::
  "'p providers \<Rightarrow> update_request \<Rightarrow> handle \<Rightarrow> ('p world \<times> bool, work_result) prog" where
  "update_body pvs r h =
     bindP (liftL (read_work pvs (ur_work_id r) h)) (\<lambda>current.
     if wr_status current \<noteq> S_ok then returnP current
     else if_none (wr_item current) (returnP current) (\<lambda>item.
     if wi_revision item \<noteq> ur_observed_revision r
     then returnP \<lparr>wr_status = S_stale, wr_item = Some item\<rparr>
     else if_none (pvs (h_provider h)) (raiseP KeyError) (\<lambda>pv.
     catchP
       (bindP (liftL (apply_scalar pv (h_provider_work_id h) (ur_patch r) True)) (\<lambda>work.
        bindP (setL (\<lambda>_. True)) (\<lambda>_.
        if_none work (returnP (work_status S_unknown)) (\<lambda>w.
        returnP \<lparr>wr_status = S_ok, wr_item = Some (item_of (ur_work_id r) w h)\<rparr>))))
       (\<lambda>e. if e = UnknownEffect
            then bindP (setL (\<lambda>_. True)) (\<lambda>_. returnP (work_status S_unknown))
            else raiseP e))))"

definition controller_update ::
  "launch_authority \<Rightarrow> 'p providers \<Rightarrow> update_request \<Rightarrow> ('p world, work_result) prog" where
  "controller_update a pvs r =
     (if ur_work_id r \<noteq> la_active_work_id a then returnP (work_status S_denied)
      else try_exceptL False
        (locked_block (liftL (state_read (state_get (ur_work_id r)))) (\<lambda>h.
           if_none h (returnP (work_status S_unknown)) (update_body pvs r)))
        (write_except work_status))"

definition append_body ::
  "'p providers \<Rightarrow> append_request \<Rightarrow> handle \<Rightarrow> ('p world \<times> bool, append_result) prog" where
  "append_body pvs r h =
     bindP (liftL (read_work pvs (ar_work_id r) h)) (\<lambda>current.
     if wr_status current \<noteq> S_ok
     then returnP (append_status
            (if wr_status current \<noteq> S_stale then wr_status current else S_provider_error))
     else if_none (pvs (h_provider h)) (raiseP KeyError) (\<lambda>pv.
     bindP (liftL (send_call (Sent_append (h_provider_work_id h) (ar_text r))
              (pv_append pv (h_provider_work_id h) (ar_text r)))) (\<lambda>story_gid.
     bindP (setL (\<lambda>_. True)) (\<lambda>_.
     if_none story_gid (returnP (append_status S_unknown)) (\<lambda>gid.
     bindP (liftL (ext_call (pv_source_story pv (h_provider_work_id h) gid))) (\<lambda>story.
     if_none story (returnP (append_status S_unknown)) (\<lambda>story.
     if pss_story_gid story \<noteq> gid \<or> pss_task_gid story \<noteq> h_provider_work_id h
        \<or> pss_text story \<noteq> Some (ar_text r)
     then returnP (append_status S_unknown)
     else
     bindP (liftL (read_work pvs (ar_work_id r) h)) (\<lambda>readback.
     if wr_status readback \<noteq> S_ok then returnP (append_status S_unknown)
     else returnP \<lparr>apr_status = S_ok, apr_task_gid = Some (h_provider_work_id h),
            apr_story_gid = Some gid\<rparr>))))))))"

definition controller_append ::
  "launch_authority \<Rightarrow> 'p providers \<Rightarrow> append_request \<Rightarrow> ('p world, append_result) prog" where
  "controller_append a pvs r =
     (if ar_work_id r \<noteq> la_active_work_id a then returnP (append_status S_denied)
      else try_exceptL False
        (locked_block (liftL (state_read (state_get (ar_work_id r)))) (\<lambda>h.
           if_none h (returnP (append_status S_unknown)) (append_body pvs r)))
        (write_except append_status))"

section \<open>Provisioning a launch\<close>

definition provision_launch ::
  "string \<Rightarrow> 'p provider \<Rightarrow> string \<Rightarrow> string list \<Rightarrow> ('p world, launch_authority) prog" where
  "provision_launch name pv active refs =
     (let gids = active # refs in
      if length refs > 8 then raiseP ValueError
      else if \<not> distinct gids then raiseP ValueError
      else
        bindP (mapP (\<lambda>gid. ext_call (pv_get pv gid)) gids) (\<lambda>works.
          if list_ex (\<lambda>w. case w of None \<Rightarrow> True | Some w \<Rightarrow> \<not> pw_canonical w) works
          then raiseP PermissionError
          else
        bindP (mapP (\<lambda>gid. bind_work_handle name gid) gids) (\<lambda>hs.
          (let a = \<lparr>la_active_work_id = h_id (hd hs), la_reference_work_ids = map h_id (tl hs)\<rparr>
           in if bounded_authority a then returnP a else raiseP ValidationError))))"

section \<open>Results are well formed\<close>

lemma read_work_result:
  "yields (\<lambda>r. valid_work_result r \<and> wr_status r \<noteq> S_stale) (read_work pvs wid h)"
  unfolding read_work_def
  by (intro yield_intros) (auto simp: valid_work_result_def split: option.splits)

lemma read_except_yields [yield_intros]:
  "yields P m \<Longrightarrow> P (result S_unknown) \<Longrightarrow> P (result S_provider_error) \<Longrightarrow>
     yields P (read_except result m)"
  unfolding read_except_def by (intro yield_intros)

lemma yields_write_except:
  assumes "yields P m" and "P (result S_unknown)" and "P (result S_provider_error)"
  shows "yields P (try_exceptL l m (write_except result))"
  using assms by (intro yields_try_exceptL) (auto simp: write_except_def split: if_splits)

lemma controller_get_valid: "yields valid_work_result (controller_get a pvs wid)"
  unfolding controller_get_def
  by (intro yield_intros yieldsI)
     (auto simp: valid_work_result_def dest: yieldsD [OF read_work_result])

lemma controller_history_valid: "yields valid_history_result (controller_history a pvs r)"
  unfolding controller_history_def
  by (intro yield_intros yields_bind [OF yields_mapP [where Q = "\<lambda>e. we_work_id e = hr_work_id r"]])
     (auto simp: valid_history_result_def work_event_of_def list_all_iff)

lemma controller_event_valid: "yields valid_event_result (controller_event a pvs r)"
  unfolding controller_event_def
  by (intro yield_intros) (auto simp: valid_event_result_def work_event_of_def)

lemma update_body_valid: "yields valid_work_result (update_body pvs r h)"
  unfolding update_body_def
  by (rule yields_bind [OF yields_liftL [OF read_work_result]], intro yield_intros)
     (simp_all add: valid_work_result_def)

lemma controller_update_valid: "yields valid_work_result (controller_update a pvs r)"
  unfolding controller_update_def
  by (intro yields_if yields_write_except yield_intros update_body_valid)
     (simp_all add: valid_work_result_def)

lemma append_body_valid: "yields valid_append_result (append_body pvs r h)"
  unfolding append_body_def
  by (rule yields_bind [OF yields_liftL [OF read_work_result]], intro yield_intros)
     (auto simp: valid_append_result_def)

lemma controller_append_valid: "yields valid_append_result (controller_append a pvs r)"
  unfolding controller_append_def
  by (intro yields_if yields_write_except yield_intros append_body_valid)
     (simp_all add: valid_append_result_def)

section \<open>Effects of an update\<close>

lemma read_work_run:
  assumes "read_work pvs wid h w = (r, w')"
  shows "w_state w' = w_state w" and "w_sends w' = w_sends w"
  using assms
  by (auto simp: read_work_def split: option.splits elim!: bindP_cases ext_call_run)

text \<open>
  What a sending \<open>apply_scalar\<close> leaves: one effect asked for, and on return the readback
  decides. A \<open>ProviderError\<close> other than \<open>UnknownEffect\<close> can only come from the send itself.
\<close>

lemma apply_scalar_run:
  assumes "apply_scalar pv gid p True w = (r, w')"
  shows "w_sends w' = w_sends w @ [Sent_update gid p]" and "w_state w' = w_state w"
    and "r = Inr (Some work) \<Longrightarrow> pw_canonical work \<and> patch_matches p work"
    and "r = Inl (ProviderError f) \<Longrightarrow> \<exists>x x'. pv_update pv gid p x = (Inl (ProviderError f), x')"
  using assms
  by (auto simp: apply_scalar_def split: option.splits if_splits
      elim!: bindP_cases catchP_cases send_call_run ext_call_run)

definition update_effect ::
  "'p providers \<Rightarrow> update_request \<Rightarrow> handle \<Rightarrow> work_result \<Rightarrow> bool" where
  "update_effect pvs r h res =
     ((wr_status res = S_ok
       \<and> (\<exists>work. pw_canonical work \<and> patch_matches (ur_patch r) work
                  \<and> wr_item res = Some (item_of (ur_work_id r) work h)))
      \<or> wr_status res = S_unknown
      \<or> (wr_status res = S_provider_error
         \<and> (\<exists>pv x f x'. pvs (h_provider h) = Some pv
              \<and> pv_update pv (h_provider_work_id h) (ur_patch r) x = (Inl (ProviderError f), x'))))"

lemma update_body_run:
  assumes "update_body pvs r h (w, False) = (res, (w', l))"
  shows "w_sends w' = w_sends w \<and> \<not> l \<and> (\<forall>x. res = Inr x \<longrightarrow> wr_status x \<noteq> S_ok)
    \<or> w_sends w' = w_sends w @ [Sent_update (h_provider_work_id h) (ur_patch r)]
      \<and> (case res of
           Inr x \<Rightarrow> l \<and> update_effect pvs r h x
         | Inl e \<Rightarrow> \<not> l \<and> e \<noteq> UnknownEffect
             \<and> (is_provider_error e \<longrightarrow> update_effect pvs r h (work_status S_provider_error)))"
proof -
  let ?gid = "h_provider_work_id h"
  from assms obtain res1 w1 where rd: "read_work pvs (ur_work_id r) h w = (res1, w1)" by fastforce
  note same = read_work_run [OF rd]
  have ok: "res1 = Inr cur \<Longrightarrow> wr_status cur = S_ok \<Longrightarrow> wr_item cur \<noteq> None" for cur
    using yieldsD [OF read_work_result] rd by (fastforce simp: valid_work_result_def)
  show ?thesis
  proof (cases "\<exists>cur item pv. res1 = Inr cur \<and> wr_status cur = S_ok \<and> wr_item cur = Some item
      \<and> wi_revision item = ur_observed_revision r \<and> pvs (h_provider h) = Some pv")
    case False
    with assms rd same ok show ?thesis
      by (auto simp: update_body_def bindP_def liftL_def split: sum.splits if_splits option.splits)
  next
    case True
    then obtain cur item pv where cur: "res1 = Inr cur" "wr_status cur = S_ok" "wr_item cur = Some item"
      "wi_revision item = ur_observed_revision r" and pv: "pvs (h_provider h) = Some pv" by blast
    obtain r2 w2 where ap: "apply_scalar pv ?gid (ur_patch r) True w1 = (r2, w2)" by fastforce
    note run = apply_scalar_run [OF ap]
    show ?thesis
    proof (cases r2)
      case (Inr work)
      with assms rd cur pv ap same run(1,3) show ?thesis
        by (auto simp: update_body_def update_effect_def bindP_def liftL_def catchP_def
            split: option.splits)
    next
      case (Inl e)
      with assms rd cur pv ap same run(1) run(4) show ?thesis
        by (cases e; auto simp: update_body_def update_effect_def bindP_def liftL_def catchP_def;
            blast)
    qed
  qed
qed

text \<open>
  C23. Every result the controller returns passes its contract's validator, for every provider
  and every fault of the database: a work item is present exactly for \<open>ok\<close> and \<open>stale\<close>, an
  append receipt exactly for \<open>ok\<close>, events belong to the requested work.
\<close>

theorem controller_results_valid:
  "(controller_get a pvs wid w = (Inr g, w1) \<longrightarrow> valid_work_result g)
   \<and> (controller_history a pvs hr w = (Inr hs, w2) \<longrightarrow> valid_history_result hs)
   \<and> (controller_event a pvs er w = (Inr ev, w3) \<longrightarrow> valid_event_result ev)
   \<and> (controller_update a pvs ur w = (Inr u, w4) \<longrightarrow> valid_work_result u)
   \<and> (controller_append a pvs ar w = (Inr ap, w5) \<longrightarrow> valid_append_result ap)"
  by (blast dest: yieldsD [OF controller_get_valid] yieldsD [OF controller_history_valid]
      yieldsD [OF controller_event_valid] yieldsD [OF controller_update_valid]
      yieldsD [OF controller_append_valid])


lemma mapP_get_run:
  assumes "mapP (\<lambda>gid. ext_call (pv_get pv gid)) gids w = (r, w')"
  shows "w_state w' = w_state w"
proof -
  have "frames (\<lambda>w w'. w_state w' = w_state w) (mapP (\<lambda>gid. ext_call (pv_get pv gid)) gids)"
    by (rule frames_mapP) (auto simp: transp_def reflp_def intro!: framesI elim!: ext_call_run)
  from framesD [OF this assms] show ?thesis .
qed

lemma mapP_raise:
  "mapP f xs w = (Inl e, w') \<Longrightarrow> \<exists>x w1 w2. x \<in> set xs \<and> f x w1 = (Inl e, w2)"
  by (induction xs arbitrary: w) (fastforce elim!: bindP_cases)+

text \<open>The handles of distinct tasks resolve in order and make a bounded authority.\<close>

lemma handles_resolve:
  assumes "state_inv db" and "set hs \<subseteq> set (sdb_handles db)"
    and "map provider_key hs = map (Pair name) gids"
  shows "list_all2 (\<lambda>i gid. \<exists>h. state_get i db = Inr (Some h) \<and> provider_key h = (name, gid))
           (map h_id hs) gids"
  using assms(2,3)
proof (induction hs arbitrary: gids)
  case Nil
  then show ?case by simp
next
  case (Cons h hs)
  then obtain g gs where "gids = g # gs" by (cases gids) auto
  with Cons state_inv_lookup(1) [OF assms(1), of h] show ?case by auto
qed

lemma handles_bounded:
  assumes "state_inv db" and "set (h # hs) \<subseteq> set (sdb_handles db)"
    and "map provider_key (h # hs) = map (Pair name) (active # refs)"
    and "distinct (active # refs)" and "length refs \<le> 8"
  shows "bounded_authority \<lparr>la_active_work_id = h_id h, la_reference_work_ids = map h_id hs\<rparr>"
proof -
  have "distinct (map provider_key (h # hs))"
    unfolding assms(3) using assms(4) by (auto simp: distinct_map inj_on_def)
  then have "distinct (h # hs)" unfolding distinct_map by blast
  from state_inv_ids_distinct [OF assms(1,2) this] have "distinct (map h_id (h # hs))" .
  moreover from assms(3) have "length (h # hs) = length (active # refs)"
    by (metis length_map)
  ultimately show ?thesis using assms(5) by (simp add: bounded_authority_def)
qed

text \<open>
  Provisioning a launch gives an authority of one active and at most eight reference works
  whose handles resolve, in order, to the requested provider tasks; given the store's
  invariant the authority's validator never refuses it (a \<open>ValidationError\<close> can only come out
  of the provider), and the invariant is kept.
\<close>

theorem provision_launch_bounded:
  assumes "state_inv (w_state w)" and "provision_launch name pv active refs w = (r, w')"
  shows "(\<forall>a. r = Inr a \<longrightarrow> bounded_authority a \<and> state_inv (w_state w')
      \<and> list_all2 (\<lambda>i gid. \<exists>h. state_get i (w_state w') = Inr (Some h) \<and> provider_key h = (name, gid))
          (la_active_work_id a # la_reference_work_ids a) (active # refs))
    \<and> (r = Inl ValidationError \<longrightarrow>
        (\<exists>gid x x'. gid \<in> set (active # refs) \<and> pv_get pv gid x = (Inl ValidationError, x')))"
proof (cases "length refs \<le> 8 \<and> distinct (active # refs)")
  case False
  with assms(2) have "r = Inl ValueError"
    by (auto simp: provision_launch_def Let_def split: if_splits)
  then show ?thesis by simp
next
  case True
  let ?gids = "active # refs"
  obtain r1 w1 where get: "mapP (\<lambda>gid. ext_call (pv_get pv gid)) ?gids w = (r1, w1)" by fastforce
  obtain r2 w2 where bind: "mapP (\<lambda>gid. bind_work_handle name gid) ?gids w1 = (r2, w2)" by fastforce
  have inv1: "state_inv (w_state w1)" using mapP_get_run [OF get] assms(1) by simp
  have novalid: "r2 \<noteq> Inl ValidationError"
  proof
    assume "r2 = Inl ValidationError"
    from mapP_raise [OF bind [unfolded this]] show False
      using bind_work_handle_no_validation by blast
  qed
  show ?thesis
  proof (cases r1)
    case (Inl e)
    have "\<exists>gid x x'. gid \<in> set ?gids \<and> pv_get pv gid x = (Inl e, x')"
      using mapP_raise [OF get [unfolded Inl]] by (blast elim: ext_call_run)
    moreover from assms(2) True get Inl have "r = Inl e"
      by (simp add: provision_launch_def Let_def bindP_def del: mapP.simps)
    ultimately show ?thesis by blast
  next
    case (Inr works)
    show ?thesis
    proof (cases r2)
      case (Inl e)
      with assms(2) True get bind Inr novalid show ?thesis
        by (auto simp: provision_launch_def Let_def bindP_def simp del: mapP.simps split: if_splits)
    next
      case r2: (Inr hs)
      note run = bind_work_handles_run [OF bind [unfolded r2] inv1]
      then obtain h hs' where hs: "hs = h # hs'" by (cases hs) auto
      note facts = run [unfolded hs, THEN conjunct2, THEN conjunct1]
        run [unfolded hs, THEN conjunct2, THEN conjunct2, THEN conjunct1]
      note ok = handles_bounded [OF conjunct1 [OF run] facts conjunct2 [OF True] conjunct1 [OF True]]
        handles_resolve [OF conjunct1 [OF run] facts]
      show ?thesis using assms(2) True get bind Inr r2 conjunct1 [OF run] ok hs
        by (auto simp: provision_launch_def bindP_def Let_def simp del: mapP.simps split: if_splits)
    qed
  qed
qed

section \<open>A concrete provider for the witnesses\<close>

text \<open>One task whose title an update can change.\<close>

definition demo_work :: provider_work where
  "demo_work = \<lparr>pw_title = ''old'', pw_notes = [], pw_completed = False, pw_revision = ''r1'',
     pw_routing = \<lparr>rt_priority = None, rt_work_type = None, rt_horizon = None,
       rt_review_next_action = None, rt_stage3_gate = None, rt_lifecycle_state = None,
       rt_canonical_root = None, rt_owner_key = None, rt_wait_kind = None,
       rt_unblock_condition = None, rt_next_due = None, rt_next_action_class = None,
       rt_next_action_ref = None\<rparr>,
     pw_context = \<lparr>wc_assignee = None, wc_placements = []\<rparr>, pw_canonical = True\<rparr>"

definition demo_provider :: "provider_work provider" where
  "demo_provider = \<lparr>pv_get = (\<lambda>gid. getsP Some),
     pv_update = (\<lambda>gid p s. (Inr (), case text_of (patch_get p Title) of
        None \<Rightarrow> s | Some t \<Rightarrow> s\<lparr>pw_title := t, pw_revision := ''r2''\<rparr>)),
     pv_append = (\<lambda>gid text. returnP (Some ''s1'')),
     pv_source_task = (\<lambda>gid. returnP None), pv_source_stories = (\<lambda>gid rev off n. returnP None),
     pv_source_story = (\<lambda>gid s. returnP None), pv_relations = None\<rparr>"

definition demo_providers :: "provider_work providers" where
  "demo_providers n = (if n = ''asana'' then Some demo_provider else None)"

definition demo_handle :: handle where
  "demo_handle = \<lparr>h_id = 10, h_provider = ''asana'', h_provider_work_id = ''42''\<rparr>"

definition demo_world :: "provider_work world" where
  "demo_world = \<lparr>w_grants = \<lparr>gdb_grants = [], gdb_intents = []\<rparr>,
     w_state = \<lparr>sdb_handles = [demo_handle], sdb_events = []\<rparr>, w_rand = [21, 22],
     w_faults = [], w_readings = [], w_now = 0, w_sends = [], w_ext = demo_work\<rparr>"

definition demo_update :: update_request where
  "demo_update = \<lparr>ur_work_id = 10, ur_observed_revision = ''r1'',
     ur_patch = (\<lambda>_. None)(Title := Some (Some (Text ''new'')))\<rparr>"

definition demo_authority :: launch_authority where
  "demo_authority = \<lparr>la_active_work_id = 10, la_reference_work_ids = []\<rparr>"

lemmas demo_simps = demo_work_def demo_provider_def demo_providers_def demo_handle_def
  demo_world_def demo_update_def demo_authority_def

lemmas run_simps = bindP_def catchP_def liftL_def try_exceptL_def locked_block_def lock_exit_def
  db_call_def ext_call_def send_call_def state_read_def state_get_def read_work_def
  apply_scalar_def patch_matches_def patch_get_def fields_set_def work_fields_def text_of_def

text \<open>An update whose commit fails after the effect was confirmed is reported as unknown.\<close>

lemma demo_update_run:
  "controller_update demo_authority demo_providers demo_update demo_world
     = (Inr \<lparr>wr_status = S_ok, wr_item = Some (item_of 10 (demo_work\<lparr>pw_title := ''new'',
          pw_revision := ''r2''\<rparr>) demo_handle)\<rparr>,
        demo_world\<lparr>w_sends := [Sent_update ''42'' (ur_patch demo_update)],
          w_ext := demo_work\<lparr>pw_title := ''new'', pw_revision := ''r2''\<rparr>\<rparr>)"
  by (simp add: controller_update_def update_body_def item_of_def run_simps demo_simps)

lemma demo_update_commit_fault:
  "fst (controller_update demo_authority demo_providers demo_update
      (demo_world\<lparr>w_faults := [No_fault, Fail_after]\<rparr>)) = Inr (work_status S_unknown)"
  by (simp add: controller_update_def update_body_def item_of_def run_simps demo_simps
      write_except_def)

theorem controller_results_valid_witness:
  "\<exists>r w'. controller_update demo_authority demo_providers demo_update demo_world = (Inr r, w')
     \<and> valid_work_result r"
  using demo_update_run controller_results_valid [of demo_authority demo_providers]
  by (metis (no_types, lifting))


theorem provision_launch_bounded_witness:
  "\<exists>a w'. provision_launch ''asana'' demo_provider ''42'' [''43''] demo_world = (Inr a, w')
     \<and> bounded_authority a \<and> state_inv (w_state w')"
proof -
  let ?h = "\<lparr>h_id = 22, h_provider = ''asana'', h_provider_work_id = ''43''\<rparr>"
  have run: "provision_launch ''asana'' demo_provider ''42'' [''43''] demo_world
    = (Inr \<lparr>la_active_work_id = 10, la_reference_work_ids = [22]\<rparr>,
       demo_world\<lparr>w_rand := [], w_state := \<lparr>sdb_handles = [demo_handle, ?h], sdb_events = []\<rparr>\<rparr>)"
    by (simp add: provision_launch_def Let_def run_simps demo_simps bind_work_handle_def uuid4_def
        state_write_def bind_reserved_def insert_handle_def provider_key_def bounded_authority_def)
  have "state_inv (w_state demo_world)" by (simp add: demo_world_def state_inv_def)
  from provision_launch_bounded [OF this run] run show ?thesis by blast
qed

end
