(* ===== verification/Mutation_Effect.thy ===== *)
theory Mutation_Effect
  imports Core_Controller
begin

text \<open>
  The durable lifecycle of one mutation (\<open>src/switchstand/tracker/mutation_effect.py\<close>):
  recorded history first, then admission, the intent in the journal, one send, and the recorded
  outcome. The callers' semantics (guards, preparation, reconciliation) are arguments, as in the
  source; what the lifecycle needs of them is the locale \<open>mutation_callbacks\<close>.
\<close>

section \<open>Operations\<close>

record mutation_request =
  mr_operation_id :: uuid
  mr_work_id :: uuid
  mr_grant_version :: int

type_synonym guard = "guard_status \<Rightarrow> string \<Rightarrow> bool \<Rightarrow> guard_outcome"

record 'p prepared_mutation =
  pm_intent :: json
  pm_send :: "('p world, guard_outcome) prog"

definition blocked_effect_next_action :: "string \<Rightarrow> string" where
  "blocked_effect_next_action operation =
     ''No ordinary exact recovery exists for the blocking '' @ operation
     @ '' effect; do not resend or start a new effect. Escalate for trusted operator adjudication.''"

text \<open>\<open>with_blocked_effect\<close>; its assertion is an \<open>AssertionError\<close>.\<close>

definition with_blocked_effect :: "guard_outcome \<Rightarrow> guard_outcome \<Rightarrow> guard_outcome py_result" where
  "with_blocked_effect outcome prior =
     (case (go_operation_id prior, go_work_id prior) of
        (Some op, Some w) \<Rightarrow>
          Inr (outcome\<lparr>go_next_action := blocked_effect_next_action (go_operation prior),
            go_blocked_by := Some \<lparr>eb_operation = go_operation prior, eb_operation_id = op,
              eb_work_id = w,
              eb_outcome = \<lparr>eov_status = go_status prior, eov_reason = go_reason prior,
                eov_effect = go_effect prior, eov_retry = go_retry prior\<rparr>\<rparr>\<rparr>)
      | _ \<Rightarrow> Inl AssertionError)"

record effect_flags =
  ef_possible_send :: bool
  ef_history_known :: bool

abbreviation flags_init :: effect_flags where
  "flags_init \<equiv> \<lparr>ef_possible_send = False, ef_history_known = False\<rparr>"

text \<open>The branch for a recorded operation.\<close>

definition effect_history ::
  "string \<Rightarrow> string \<Rightarrow> guard \<Rightarrow> (effect_record \<Rightarrow> ('p world, guard_outcome) prog) \<Rightarrow> effect_record
     \<Rightarrow> ('p world \<times> effect_flags, guard_outcome) prog" where
  "effect_history key fp guard reconcile rec =
     bindP (setL (\<lambda>l. l\<lparr>ef_possible_send := go_effect (er_outcome rec) \<noteq> Not_sent\<rparr>)) (\<lambda>_.
       if er_principal_key rec \<noteq> key \<or> er_fingerprint rec \<noteq> fp
       then returnP (guard G_denied ''operation_identity_conflict'' False)
       else if go_effect (er_outcome rec) \<noteq> Effect_unknown then returnP (er_outcome rec)
       else liftL (reconcile rec))"

text \<open>The intent, the send and the recorded outcome of an admitted operation.\<close>

definition effect_send ::
  "(principal \<Rightarrow> string) \<Rightarrow> string \<Rightarrow> guard \<Rightarrow> work_grant \<Rightarrow> 'p prepared_mutation
     \<Rightarrow> ('p world \<times> effect_flags, guard_outcome) prog" where
  "effect_send pkey fp guard grant pm =
     bindP (liftL (grants_write (prepare pkey (pm_intent pm) grant fp
              (guard G_unknown ''prepared_or_unconfirmed_send'' True)))) (\<lambda>_.
     bindP (setL (\<lambda>l. l\<lparr>ef_possible_send := True\<rparr>)) (\<lambda>_.
     bindP (liftL now_utc) (\<lambda>now.
     bindP (if \<not> grant_current now grant
            then returnP (guard G_not_applied ''grant_expired_before_send'' False)
            else liftL (pm_send pm)) (\<lambda>outcome.
     bindP (liftL (grants_write (finish outcome))) (\<lambda>_.
     returnP outcome)))))"

text \<open>The branch for a new operation: admission, preparation, send.\<close>

definition effect_new ::
  "(principal \<Rightarrow> string) \<Rightarrow> principal \<Rightarrow> mutation_request \<Rightarrow> string \<Rightarrow> grant_operation
     \<Rightarrow> (work_grant \<Rightarrow> string option) \<Rightarrow> string \<Rightarrow> guard
     \<Rightarrow> (work_grant \<Rightarrow> string \<Rightarrow> ('p world, guard_outcome + 'p prepared_mutation) prog)
     \<Rightarrow> work_grant option \<Rightarrow> ('p world \<times> effect_flags, guard_outcome) prog" where
  "effect_new pkey pr req fp operation qualification_field denial guard prep grant =
     if_none grant (returnP (guard G_denied ''no_current_grant'' False)) (\<lambda>g.
     if wg_principal g \<noteq> pr then returnP (guard G_denied ''no_current_grant'' False)
     else
     bindP (liftL now_utc) (\<lambda>now.
     if \<not> grant_current now g then returnP (guard G_denied ''no_current_grant'' False)
     else if \<not> grant_can_write g (mr_work_id req) \<or> operation \<notin> wg_operations g
     then returnP (guard G_denied ''operation_or_work_not_granted'' False)
     else if mr_grant_version req \<noteq> wg_version g
     then returnP (guard G_stale ''grant_version_changed'' False)
     else
     if_none (qualification_field g) (returnP (guard G_denied denial False)) (\<lambda>q.
     if (pr_assurance pr = Test_assurance) \<noteq> starts_with q ''test:''
     then returnP (guard G_denied denial False)
     else
     bindP (liftL (grants_read (previous (mr_operation_id req) (mr_work_id req)))) (\<lambda>blocked.
     if_none blocked
       (bindP (liftL (prep g q)) (\<lambda>prepared.
          case prepared of
            Inl outcome \<Rightarrow> returnP outcome
          | Inr pm \<Rightarrow> effect_send pkey fp guard g pm))
       (\<lambda>(_, _, prior).
          liftP (with_blocked_effect (guard G_unknown ''target_has_unresolved_effect'' False) prior))))))"

definition effect_caught :: "py_error \<Rightarrow> bool" where
  "effect_caught e =
     (is_sqlalchemy_error e \<or> is_provider_error e \<or> e = TypeError \<or> is_value_error e \<or> e = KeyError)"

definition effect_except :: "guard \<Rightarrow> py_error \<Rightarrow> effect_flags \<Rightarrow> guard_outcome py_result" where
  "effect_except guard e l =
     (if effect_caught e
      then Inr (guard G_unknown ''state_or_effect_unavailable''
                  (ef_possible_send l \<or> \<not> ef_history_known l))
      else Inl e)"

definition run_update_or_relation ::
  "(principal \<Rightarrow> string) \<Rightarrow> principal \<Rightarrow> mutation_request \<Rightarrow> string \<Rightarrow> grant_operation
     \<Rightarrow> (work_grant \<Rightarrow> string option) \<Rightarrow> string \<Rightarrow> guard
     \<Rightarrow> (work_grant \<Rightarrow> string \<Rightarrow> ('p world, guard_outcome + 'p prepared_mutation) prog)
     \<Rightarrow> (effect_record \<Rightarrow> ('p world, guard_outcome) prog) \<Rightarrow> ('p world, guard_outcome) prog" where
  "run_update_or_relation pkey pr req fp operation qualification_field denial guard prep reconcile =
     try_exceptL flags_init
       (locked_block (liftL (grants_read (gs_current (pkey pr)))) (\<lambda>grant.
          bindP (liftL (grants_read (exact (mr_operation_id req)))) (\<lambda>rec.
          bindP (setL (\<lambda>l. l\<lparr>ef_history_known := True\<rparr>)) (\<lambda>_.
          if_none rec
            (effect_new pkey pr req fp operation qualification_field denial guard prep grant)
            (effect_history (pkey pr) fp guard reconcile)))))
       (effect_except guard)"

section \<open>Frames\<close>

text \<open>
  \<open>effect_step op\<close>: the journal moves by its own writes, and effects are asked for at most once,
  and only in a run that opened the journal entry of \<open>op\<close>.
\<close>

definition one_send :: "'p world \<Rightarrow> 'p world \<Rightarrow> bool" where
  "one_send w w' =
     (journal.journal_steps (w_grants w) (w_grants w')
      \<and> (\<exists>es. w_sends w' = w_sends w @ es \<and> length es \<le> 1))"

definition effect_step :: "uuid \<Rightarrow> 'p world \<Rightarrow> 'p world \<Rightarrow> bool" where
  "effect_step op w w' =
     (journal.journal_steps (w_grants w) (w_grants w')
      \<and> (w_sends w' = w_sends w
         \<or> (\<exists>e. w_sends w' = w_sends w @ [e] \<and> journal_entry (w_grants w) (uuid_str op) = None
               \<and> journal_entry (w_grants w') (uuid_str op) \<noteq> None)))"

lemma quiet_effect_step: "quiet w w' \<Longrightarrow> effect_step op w w'"
  by (simp add: quiet_def effect_step_def)

lemma quiet_one_send: "quiet w w' \<Longrightarrow> one_send w w'"
  by (simp add: quiet_def one_send_def)

lemma one_send_quiet: "one_send w w' \<Longrightarrow> quiet w' w'' \<Longrightarrow> one_send w w''"
  by (auto simp: quiet_def one_send_def)

lemma quiet_one_send_trans: "quiet w w' \<Longrightarrow> one_send w' w'' \<Longrightarrow> one_send w w''"
  by (auto simp: quiet_def one_send_def)

lemma effect_step_quiet:
  assumes "effect_step op w w'" and "quiet w' w''"
  shows "effect_step op w w''"
  using assms journal.entry_persists [of "w_grants w'" "w_grants w''"]
  by (fastforce simp: effect_step_def quiet_def)

lemma quiet_effect_step_trans:
  assumes "quiet w w'" and "effect_step op w' w''"
  shows "effect_step op w w''"
  using assms journal.entry_persists [of "w_grants w" "w_grants w'" "uuid_str op"]
  by (fastforce simp: effect_step_def quiet_def)

section \<open>How a run unfolds\<close>

text \<open>
  Either the history could not be read (and nothing happened), or the operation was recorded and
  the run is \<open>effect_history\<close>, or it is \<open>effect_new\<close> with the caller's stored grant; at the end
  the transaction's close may replace the answer.
\<close>

definition effect_answer ::
  "guard \<Rightarrow> guard_outcome py_result \<Rightarrow> effect_flags \<Rightarrow> guard_outcome py_result \<Rightarrow> bool" where
  "effect_answer guard r l res =
     (res = (case r of Inr out \<Rightarrow> Inr out | Inl e \<Rightarrow> effect_except guard e l)
      \<or> res = effect_except guard SQLAlchemyError l)"

abbreviation flags_known :: effect_flags where
  "flags_known \<equiv> \<lparr>ef_possible_send = False, ef_history_known = True\<rparr>"

text \<open>The reads of the history raise only what the block catches.\<close>

lemma gs_current_caught: "gs_current key db = Inl e \<Longrightarrow> effect_caught e"
  by (cases "filter (\<lambda>r. fst r = key) (gdb_grants db)" rule: one_or_none.cases)
     (auto simp: gs_current_def read_grant_def effect_caught_def split: option.splits if_splits)

lemma exact_caught: "exact op db = Inl e \<Longrightarrow> effect_caught e"
  by (cases "filter (\<lambda>r. ei_operation_id r = uuid_str op) (gdb_intents db)" rule: one_or_none.cases)
     (auto simp: exact_def record_of_row_def read_outcome_def effect_caught_def bindE_def
       split: json.splits option.splits if_splits sum.splits)

lemma run_cases:
  assumes "run_update_or_relation pkey pr req fp operation qf denial guard prep reconcile w = (res, w')"
  obtains (unread) e fs where "w' = w\<lparr>w_faults := fs\<rparr>" "res = effect_except guard e flags_init"
        "effect_caught e"
    | (recorded) rec fs r v l fs' where "exact (mr_operation_id req) (w_grants w) = Inr (Some rec)"
        "effect_history (pkey pr) fp guard reconcile rec (w\<lparr>w_faults := fs\<rparr>, flags_known) = (r, (v, l))"
        "w' = v\<lparr>w_faults := fs'\<rparr>" "effect_answer guard r l res"
    | (new) grant fs r v l fs' where "exact (mr_operation_id req) (w_grants w) = Inr None"
        "gs_current (pkey pr) (w_grants w) = Inr grant"
        "effect_new pkey pr req fp operation qf denial guard prep grant (w\<lparr>w_faults := fs\<rparr>, flags_known)
           = (r, (v, l))"
        "w' = v\<lparr>w_faults := fs'\<rparr>" "effect_answer guard r l res"
proof -
  let ?rest = "\<lambda>grant rec. if_none rec
            (effect_new pkey pr req fp operation qf denial guard prep grant)
            (effect_history (pkey pr) fp guard reconcile)"
  let ?body = "\<lambda>grant. bindP (liftL (grants_read (exact (mr_operation_id req)))) (\<lambda>rec.
          bindP (setL (\<lambda>l. l\<lparr>ef_history_known := True\<rparr>)) (\<lambda>_. ?rest grant rec))"
  let ?block = "locked_block (liftL (grants_read (gs_current (pkey pr)))) ?body"
  obtain rb l where blk: "?block (w, flags_init) = (rb, (w', l))"
    and res: "res = (case rb of Inr x \<Rightarrow> Inr x | Inl e \<Rightarrow> effect_except guard e l)"
    using assms unfolding run_update_or_relation_def
    by (cases rule: try_exceptL_cases) auto
  from blk show thesis
  proof (cases rule: locked_block_cases)
    case (enter e)
    then have rd: "grants_read (gs_current (pkey pr)) w = (Inl e, w')" and l: "l = flags_init"
      by (auto simp: liftL_eq)
    from rd obtain fs where w': "w' = w\<lparr>w_faults := fs\<rparr>" and
      "gs_current (pkey pr) (w_grants w) = Inl e \<or> e = SQLAlchemyError"
      by (auto elim!: grants_read_run)
    then have "effect_caught e" using gs_current_caught by (auto simp: effect_caught_def)
    with unread [OF w'] enter(2) res l show thesis by simp
  next
    case (body grant v1 r1 v l1 fs')
    then have v1: "\<exists>fs. v1 = (w\<lparr>w_faults := fs\<rparr>, flags_init)" and g: "gs_current (pkey pr) (w_grants w) = Inr grant"
      by (cases v1; auto simp: liftL_eq elim!: grants_read_run)+
    from body have w': "w' = v\<lparr>w_faults := fs'\<rparr>" "l1 = l" by auto
    obtain fs where v1: "v1 = (w\<lparr>w_faults := fs\<rparr>, flags_init)" using v1 ..
    obtain rx x where ex: "grants_read (exact (mr_operation_id req)) (w\<lparr>w_faults := fs\<rparr>) = (rx, x)"
      by fastforce
    then obtain fs2 where x: "x = w\<lparr>w_faults := fs2\<rparr>"
      and rx: "rx = exact (mr_operation_id req) (w_grants w) \<or> rx = Inl SQLAlchemyError"
      by (rule grants_read_run) simp
    have ans: "effect_answer guard r1 l res"
      using res body(4) by (auto simp: effect_answer_def)
    show thesis
    proof (cases rx)
      case (Inl e)
      with body(2) v1 ex x have "r1 = Inl e" "v = w\<lparr>w_faults := fs2\<rparr>" "l = flags_init"
        by (auto simp: bindP_def liftL_def w')
      moreover from Inl rx have "effect_caught e"
        using exact_caught [of "mr_operation_id req" "w_grants w" e] by (auto simp: effect_caught_def)
      ultimately show thesis using ans w' unread by (auto simp: effect_answer_def effect_caught_def)
    next
      case (Inr rec)
      with body(2) v1 ex x have rest: "?rest grant rec (w\<lparr>w_faults := fs2\<rparr>, flags_known) = (r1, (v, l))"
        by (auto simp: bindP_def liftL_def w')
      show thesis
      proof (cases rec)
        case None
        with rest Inr rx have "exact (mr_operation_id req) (w_grants w) = Inr None" by simp
        from new [OF this g _ w'(1) ans] rest None show thesis by simp
      next
        case (Some rc)
        with rest Inr rx have "exact (mr_operation_id req) (w_grants w) = Inr (Some rc)" by simp
        from recorded [OF this _ w'(1) ans] rest Some show thesis by simp
      qed
    qed
  qed
qed

lemma write_prepare_cases:
  assumes "grants_write (prepare pkey intent g fp unknown) w = (r, w')"
    and "go_operation_id unknown = Some op"
  obtains (kept) fs e where "w' = w\<lparr>w_faults := fs\<rparr>" "r = Inl e"
    | (opened) fs db where "w' = w\<lparr>w_faults := fs, w_grants := db\<rparr>"
        "prepare pkey intent g fp unknown (w_grants w) = Inr db"
        "journal.journal_steps (w_grants w) db"
        "journal_entry (w_grants w) (uuid_str op) = None"
        "journal_entry db (uuid_str op) = Some (intent_row pkey intent g fp unknown)"
        "r = Inr () \<or> r = Inl SQLAlchemyError"
  using assms(1)
proof (cases rule: grants_write_cases)
  case (kept fs e)
  then show ?thesis using that(1) by blast
next
  case (stored fs db)
  have op: "journal_open (uuid_str op) (intent_row pkey intent g fp unknown) (w_grants w) = Some db"
    using stored(1) assms(2) by (simp add: prepare_journal_open str_opt_uuid_def)
  have steps: "journal.journal_steps (w_grants w) db"
    using journal.step_open [OF op] by blast
  show ?thesis
    by (rule that(2) [OF stored(2,1) steps
          journal.open_fresh [OF op] journal.open_entry [OF op] stored(3)])
qed

text \<open>What follows the intent: at most one send, then quiet calls.\<close>

lemma after_prepare_one_send:
  assumes "frames one_send (pm_send pm)"
    and "bindP (liftL now_utc) (\<lambda>now.
       bindP (if \<not> grant_current now g then returnP expired else liftL (pm_send pm)) (\<lambda>outcome.
       bindP (liftL (grants_write (finish outcome))) (\<lambda>_. returnP outcome))) (w, l) = (r, (w', l'))"
  shows "one_send w w'"
proof -
  obtain rn wn where now: "now_utc w = (rn, wn)" by fastforce
  then obtain t where rn: "rn = Inr t" by (auto simp: now_utc_def split: list.splits)
  have q: "quiet w wn" using framesD [OF frames_now now] .
  let ?act = "if \<not> grant_current t g then returnP expired else liftL (pm_send pm)"
  obtain ra wa where act: "?act (wn, l) = (ra, (wa, l))"
    by (cases "pm_send pm wn"; cases "grant_current t g") (auto simp: liftL_def)
  then have one: "one_send wn wa"
    by (cases "grant_current t g")
       (auto simp: liftL_eq dest: framesD [OF assms(1)] intro: quiet_one_send)
  have "quiet wa w'"
    using assms(2) now rn act framesD [OF frames_finish]
    by (auto simp: bindP_def liftL_def split: prod.splits sum.splits if_splits)
  with q one show ?thesis by (blast intro: quiet_one_send_trans one_send_quiet)
qed

lemma effect_send_step:
  assumes "effect_send pkey fp guard g pm (w, l) = (r, (w', l'))"
    and "go_operation_id (guard G_unknown ''prepared_or_unconfirmed_send'' True) = Some op"
    and "frames one_send (pm_send pm)"
  shows "effect_step op w w'"
proof -
  let ?unk = "guard G_unknown ''prepared_or_unconfirmed_send'' True"
  obtain rp wp where prep: "grants_write (prepare pkey (pm_intent pm) g fp ?unk) w = (rp, wp)"
    by fastforce
  from prep assms(2) show ?thesis
  proof (cases rule: write_prepare_cases)
    case (kept fs e)
    with assms(1) prep show ?thesis
      by (auto simp: effect_send_def bindP_def liftL_def intro!: quiet_effect_step)
  next
    case (opened fs db)
    show ?thesis
    proof (cases rp)
      case (Inl e)
      with assms(1) prep opened show ?thesis
        by (auto simp: effect_send_def bindP_def liftL_def quiet_def intro!: quiet_effect_step)
    next
      case (Inr u)
      with assms(1) prep have "bindP (liftL now_utc) (\<lambda>now.
         bindP (if \<not> grant_current now g
                then returnP (guard G_not_applied ''grant_expired_before_send'' False)
                else liftL (pm_send pm)) (\<lambda>outcome.
         bindP (liftL (grants_write (finish outcome))) (\<lambda>_. returnP outcome)))
         (wp, l\<lparr>ef_possible_send := True\<rparr>) = (r, (w', l'))"
        by (simp add: effect_send_def bindP_def liftL_def)
      from after_prepare_one_send [OF assms(3) this] have one: "one_send wp w'" .
      with opened(1,5) journal.entry_persists [of "w_grants wp" "w_grants w'" "uuid_str op"]
      have "journal_entry (w_grants w') (uuid_str op) \<noteq> None" by (fastforce simp: one_send_def)
      with one opened show ?thesis
        by (auto simp: one_send_def effect_step_def le_Suc_eq length_Suc_conv)
    qed
  qed
qed

text \<open>The conditions under which a new operation reaches the journal.\<close>

definition admitted ::
  "principal \<Rightarrow> mutation_request \<Rightarrow> grant_operation \<Rightarrow> (work_grant \<Rightarrow> string option) \<Rightarrow> work_grant
     \<Rightarrow> string \<Rightarrow> bool" where
  "admitted pr req operation qf g q =
     (wg_principal g = pr \<and> wg_state g = Active \<and> grant_can_write g (mr_work_id req)
      \<and> operation \<in> wg_operations g \<and> mr_grant_version req = wg_version g
      \<and> qf g = Some q \<and> (pr_assurance pr = Test_assurance) = starts_with q ''test:'')"

lemma now_utc_run: "now_utc w = (r, w') \<Longrightarrow> (\<exists>t. r = Inr t) \<and> w_grants w' = w_grants w
    \<and> w_sends w' = w_sends w \<and> w_state w' = w_state w \<and> w_ext w' = w_ext w"
  by (auto simp: now_utc_def split: list.splits)

lemma effect_new_cases:
  assumes "effect_new pkey pr req fp operation qf denial guard prep grant (w, l) = (r, (w', l'))"
    and "\<And>g q. frames quiet (prep g q)"
  obtains (refused) "l' = l" "w_grants w' = w_grants w" "w_sends w' = w_sends w"
        "(\<exists>e. r = Inl e) \<or> (\<exists>st re. r = Inr (guard st re False))
         \<or> (\<exists>prior. r = with_blocked_effect (guard G_unknown ''target_has_unresolved_effect'' False) prior)"
    | (unprepared) g q w1 where "l' = l" "prep g q w1 = (map_sum id Inl r, w')" "quiet w w'"
        "w_grants w1 = w_grants w"
        "previous (mr_operation_id req) (mr_work_id req) (w_grants w) = Inr None"
    | (sent) g q pm w1 w2 where "grant = Some g" "admitted pr req operation qf g q"
        "previous (mr_operation_id req) (mr_work_id req) (w_grants w) = Inr None"
        "w_grants w1 = w_grants w" "w_sends w1 = w_sends w" "w_state w1 = w_state w" "w_ext w1 = w_ext w"
        "prep g q w1 = (Inr (Inr pm), w2)"
        "quiet w w2" "effect_send pkey fp guard g pm (w2, l) = (r, (w', l'))"
proof -
  obtain rn wn where now: "now_utc w = (rn, wn)" by fastforce
  obtain t where t: "rn = Inr t" "w_grants wn = w_grants w" "w_sends wn = w_sends w"
    "w_state wn = w_state w" "w_ext wn = w_ext w"
    using now_utc_run [OF now] by blast
  show thesis
  proof (cases "\<exists>g q. grant = Some g \<and> admitted pr req operation qf g q \<and> grant_current t g")
    case False
    show thesis
    proof (rule refused)
      show "l' = l" "w_grants w' = w_grants w" "w_sends w' = w_sends w"
        and "(\<exists>e. r = Inl e) \<or> (\<exists>st re. r = Inr (guard st re False))
         \<or> (\<exists>prior. r = with_blocked_effect (guard G_unknown ''target_has_unresolved_effect'' False) prior)"
        using assms(1) False now t
        by (auto simp: effect_new_def admitted_def grant_current_def bindP_def liftL_def
            split: option.splits if_splits)
    qed
  next
    case True
    then obtain g q where g: "grant = Some g" "admitted pr req operation qf g q" "grant_current t g"
      by blast
    obtain rb wb where blk: "grants_read (previous (mr_operation_id req) (mr_work_id req)) wn = (rb, wb)"
      by fastforce
    then obtain fs where wb: "wb = wn\<lparr>w_faults := fs\<rparr>"
      and rb: "rb = previous (mr_operation_id req) (mr_work_id req) (w_grants w) \<or> rb = Inl SQLAlchemyError"
      by (rule grants_read_run) (simp add: t)
    obtain rp wp where prep: "prep g q wb = (rp, wp)" by fastforce
    have q: "quiet w wp" using framesD [OF assms(2) prep] wb t by (simp add: quiet_def)
    have eq: "effect_new pkey pr req fp operation qf denial guard prep grant (w, l)
       = bindP (liftP rb) (\<lambda>blocked. if_none blocked
           (bindP (liftL (prep g q)) (\<lambda>prepared. case prepared of
              Inl outcome \<Rightarrow> returnP outcome | Inr pm \<Rightarrow> effect_send pkey fp guard g pm))
           (\<lambda>(_, _, prior). liftP (with_blocked_effect
              (guard G_unknown ''target_has_unresolved_effect'' False) prior))) (wb, l)"
      using g now t blk by (auto simp: effect_new_def admitted_def bindP_Pair liftL_run)
    consider (fail) e where "rb = Inl e" | (blocked) x where "rb = Inr (Some x)"
      | (free) "rb = Inr None" by (metis option.exhaust sum.exhaust)
    then show thesis
    proof cases
      case fail
      with assms(1) eq wb t refused show thesis by (auto simp: bindP_def)
    next
      case blocked
      obtain a b prior where "x = (a, b, prior)" by (metis prod.exhaust)
      with blocked assms(1) eq wb t
      have "r = with_blocked_effect (guard G_unknown ''target_has_unresolved_effect'' False) prior"
        "l' = l" "w' = wn\<lparr>w_faults := fs\<rparr>" by (auto simp: bindP_Pair)
      with t refused show thesis by fastforce
    next
      case free
      then have run: "bindP (liftL (prep g q)) (\<lambda>prepared. case prepared of
            Inl outcome \<Rightarrow> returnP outcome | Inr pm \<Rightarrow> effect_send pkey fp guard g pm) (wb, l)
          = (r, (w', l'))" and prev: "previous (mr_operation_id req) (mr_work_id req) (w_grants w) = Inr None"
        using assms(1) eq rb by (auto simp: bindP_def)
      show thesis
      proof (cases "\<exists>pm. rp = Inr (Inr pm)")
        case True
        then obtain pm where "rp = Inr (Inr pm)" ..
        with run prep have "prep g q wb = (Inr (Inr pm), wp)"
          "effect_send pkey fp guard g pm (wp, l) = (r, (w', l'))"
          by (simp_all add: bindP_Pair liftL_run)
        from sent [OF g(1,2) prev _ _ _ _ this(1) q this(2)] wb t show thesis by simp
      next
        case False
        with run prep have "rp = map_sum id Inl r" "wp = w'" "l' = l"
          by (auto simp: bindP_def liftL_def split: sum.splits)
        with unprepared [of g q wb] prev prep wb t q show thesis by auto
      qed
    qed
  qed
qed

text \<open>A recorded outcome is what a completed send returned.\<close>

lemma effect_send_returns:
  assumes "effect_send pkey fp guard g pm (w, l) = (Inr out, (w', l'))"
    and "go_operation_id (guard G_unknown ''prepared_or_unconfirmed_send'' True) = Some op"
    and "go_operation_id (guard G_not_applied ''grant_expired_before_send'' False) = Some op"
    and "frames one_send (pm_send pm)" and "yields (\<lambda>out. go_operation_id out = Some op) (pm_send pm)"
  shows "\<exists>row. journal_entry (w_grants w') (uuid_str op) = Some row \<and> ei_outcome row = out"
    and "(out = guard G_not_applied ''grant_expired_before_send'' False \<and> w_sends w' = w_sends w)
      \<or> (\<exists>v v'. pm_send pm v = (Inr out, v') \<and> w_sends w' = w_sends v')"
proof -
  let ?unk = "guard G_unknown ''prepared_or_unconfirmed_send'' True"
  let ?exp = "guard G_not_applied ''grant_expired_before_send'' False"
  from assms(1) obtain w1 t w2 w3 where
    prep: "grants_write (prepare pkey (pm_intent pm) g fp ?unk) w = (Inr (), w1)"
    and now: "now_utc w1 = (Inr t, w2)"
    and act: "(if \<not> grant_current t g then returnP ?exp else pm_send pm) w2 = (Inr out, w3)"
    and fin: "grants_write (finish out) w3 = (Inr (), w')"
    by (auto simp: effect_send_def liftL_eq elim!: bindP_Inr_E split: if_splits)
  have op: "go_operation_id out = Some op"
    using act assms(3) yieldsD [OF assms(5)] by (auto split: if_splits)
  from fin show "\<exists>row. journal_entry (w_grants w') (uuid_str op) = Some row \<and> ei_outcome row = out"
  proof (cases rule: grants_write_cases)
    case (stored fs db)
    from stored(1) op have "journal_settle (uuid_str op) out (w_grants w3) = Some db"
      by (simp add: finish_journal_settle str_opt_uuid_def)
    from journal.settle_entry [OF this] stored(2) show ?thesis by auto
  qed simp
  have "w_sends w1 = w_sends w"
    using prep by (cases rule: grants_write_cases) auto
  moreover have "w_sends w2 = w_sends w1" using now_utc_run [OF now] by simp
  moreover have "w_sends w' = w_sends w3" using fin by (cases rule: grants_write_cases) auto
  ultimately show "(out = ?exp \<and> w_sends w' = w_sends w)
      \<or> (\<exists>v v'. pm_send pm v = (Inr out, v') \<and> w_sends w' = w_sends v')"
    using act by (auto split: if_splits)
qed

text \<open>The flag is up as soon as the intent is written: an exception then reads as unknown.\<close>

lemma effect_send_flag:
  assumes "effect_send pkey fp guard g pm (w, l) = (r, (w', l'))"
  shows "l' = l\<lparr>ef_possible_send := True\<rparr> \<or> (l' = l \<and> w_sends w' = w_sends w \<and> (\<exists>e. r = Inl e))"
proof -
  let ?unk = "guard G_unknown ''prepared_or_unconfirmed_send'' True"
  obtain rp wp where prep: "grants_write (prepare pkey (pm_intent pm) g fp ?unk) w = (rp, wp)"
    by fastforce
  then have "w_sends wp = w_sends w" by (cases rule: grants_write_cases) auto
  with assms prep show ?thesis
    by (auto simp: effect_send_def bindP_Pair liftL_run split: sum.splits prod.splits if_splits)
qed

text \<open>A settled operation is answered from the journal.\<close>

lemma run_replayed:
  assumes "run_update_or_relation pkey pr req fp operation qf denial guard prep reconcile w = (res, w')"
    and "exact (mr_operation_id req) (w_grants w) = Inr (Some rec)"
    and "go_effect (er_outcome rec) \<noteq> Effect_unknown"
  shows "w_grants w' = w_grants w \<and> w_sends w' = w_sends w \<and> w_ext w' = w_ext w
    \<and> (res = Inr (if er_principal_key rec = pkey pr \<and> er_fingerprint rec = fp then er_outcome rec
                  else guard G_denied ''operation_identity_conflict'' False)
       \<or> (\<exists>b. res = Inr (guard G_unknown ''state_or_effect_unavailable'' b)))"
  using assms(1)
proof (cases rule: run_cases)
  case (unread e fs)
  then show ?thesis by (auto simp: effect_except_def)
next
  case (recorded rec' fs r v l fs')
  with assms(2,3) show ?thesis
    by (auto simp: effect_history_def bindP_Pair effect_answer_def effect_except_def effect_caught_def
        split: if_splits)
next
  case (new grant fs r v l fs')
  with assms(2) show ?thesis by simp
qed

section \<open>The contract of the callbacks\<close>

text \<open>
  A gateway's guard names the operation, its preparation is quiet, and the send it prepares asks
  for at most one effect.
\<close>

locale mutation_callbacks =
  fixes guard :: guard
    and prep :: "work_grant \<Rightarrow> string \<Rightarrow> ('p world, guard_outcome + 'p prepared_mutation) prog"
    and reconcile :: "effect_record \<Rightarrow> ('p world, guard_outcome) prog"
    and op :: uuid
  assumes guard_op: "go_operation_id (guard st re b) = Some op"
    and guard_effect: "go_effect (guard st re b) = (if b then Effect_unknown else Not_sent)"
    and prep_quiet: "frames quiet (prep g q)"
    and send_once: "prep g q w = (Inr (Inr pm), w') \<Longrightarrow> frames one_send (pm_send pm)"
    and send_op: "prep g q w = (Inr (Inr pm), w') \<Longrightarrow>
          yields (\<lambda>out. go_operation_id out = Some op) (pm_send pm)"
    and prep_refuses: "prep g q w = (Inr (Inl out), w') \<Longrightarrow> go_effect out = Not_sent"
begin

lemma new_step:
  assumes "effect_new pkey pr req fp operation qf denial guard prep grant (w, l) = (r, (w', l'))"
  shows "effect_step op w w'"
  using assms prep_quiet
proof (cases rule: effect_new_cases)
  case refused
  then show ?thesis by (simp add: quiet_def quiet_effect_step)
next
  case (unprepared g q w1)
  then show ?thesis by (simp add: quiet_effect_step)
next
  case (sent g q pm w1 w2)
  from effect_send_step [OF sent(10) guard_op send_once [OF sent(8)]] sent(9)
  show ?thesis by (blast intro: quiet_effect_step_trans)
qed

lemma run_step:
  assumes "run_update_or_relation pkey pr req fp operation qf denial guard prep reconcile w = (res, w')"
  obtains (step) "effect_step op w w'"
    | (reconciled) rec fs r v fs' where "exact (mr_operation_id req) (w_grants w) = Inr (Some rec)"
        "go_effect (er_outcome rec) = Effect_unknown"
        "reconcile rec (w\<lparr>w_faults := fs\<rparr>) = (r, v)" "w' = v\<lparr>w_faults := fs'\<rparr>"
  using assms
proof (cases rule: run_cases)
  case (unread e fs)
  then show ?thesis using step by (simp add: quiet_effect_step)
next
  case (recorded rec fs r v l fs')
  then consider "v = w\<lparr>w_faults := fs\<rparr>"
    | "go_effect (er_outcome rec) = Effect_unknown" "reconcile rec (w\<lparr>w_faults := fs\<rparr>) = (r, v)"
    by (auto simp: effect_history_def bindP_def liftL_eq split: if_splits)
  then show ?thesis
    using recorded(1,3) step reconciled by cases (auto simp: quiet_effect_step)
next
  case (new grant fs r v l fs')
  from new_step [OF new(3)] have "effect_step op w v" by (simp add: effect_step_def)
  then have "effect_step op w w'" using new(4) by (simp add: effect_step_def)
  then show ?thesis by (rule step)
qed

text \<open>An operation that is not recorded, while its target has an unresolved effect: nothing happens.\<close>

lemma run_blocked:
  assumes "run_update_or_relation pkey pr req fp operation qf denial guard prep reconcile w = (res, w')"
    and "exact (mr_operation_id req) (w_grants w) = Inr None"
    and "previous (mr_operation_id req) (mr_work_id req) (w_grants w) \<noteq> Inr None"
  shows "w_grants w' = w_grants w \<and> w_sends w' = w_sends w"
  using assms(1)
proof (cases rule: run_cases)
  case (unread e fs)
  then show ?thesis by simp
next
  case (recorded rec fs r v l fs')
  with assms(2) show ?thesis by simp
next
  case (new grant fs r v l fs')
  from new(3) prep_quiet show ?thesis
    by (cases rule: effect_new_cases) (use assms(3) new(4) in auto)
qed

text \<open>
  What a run that asked for an effect returns: an unknown effect, or what the send returned,
  and then the journal holds that very outcome.
\<close>

lemma run_sent:
  assumes "run_update_or_relation pkey pr req fp operation qf denial guard prep reconcile w = (Inr out, w')"
    and "exact (mr_operation_id req) (w_grants w) = Inr None"
    and "w_sends w' \<noteq> w_sends w \<or> go_effect out = Applied"
  shows "go_effect out = Effect_unknown
    \<or> (\<exists>row. journal_entry (w_grants w') (uuid_str op) = Some row \<and> ei_outcome row = out)
      \<and> (\<exists>g q w1 pm w2 v v'. gs_current (pkey pr) (w_grants w) = Inr (Some g)
           \<and> admitted pr req operation qf g q \<and> prep g q w1 = (Inr (Inr pm), w2)
           \<and> w_state w1 = w_state w \<and> pm_send pm v = (Inr out, v'))"
  using assms(1)
proof (cases rule: run_cases)
  case (unread e fs)
  with assms(3) show ?thesis by (auto simp: effect_except_def guard_effect)
next
  case (recorded rec fs r v l fs')
  with assms(2) show ?thesis by simp
next
  case (new grant fs r v l fs')
  from new(3) prep_quiet show ?thesis
  proof (cases rule: effect_new_cases)
    case refused
    with assms(3) new(4,5) show ?thesis
      by (auto simp: effect_answer_def effect_except_def guard_effect with_blocked_effect_def
          split: if_splits option.splits)
  next
    case (unprepared g q w1)
    then have sends: "w_sends w' = w_sends w" using new(4) by (simp add: quiet_def)
    show ?thesis
    proof (cases r)
      case (Inl e)
      with new(5) unprepared(1) sends assms(3) show ?thesis
        by (auto simp: effect_answer_def effect_except_def guard_effect split: if_splits)
    next
      case (Inr o')
      with unprepared(2) prep_refuses have "go_effect o' = Not_sent" by simp
      with Inr new(5) unprepared(1) sends assms(3) show ?thesis
        by (auto simp: effect_answer_def effect_except_def guard_effect split: if_splits)
    qed
  next
    case (sent g q pm w1 w2)
    show ?thesis
    proof (cases "r = Inr out")
      case True
      note ret = effect_send_returns [OF sent(10) [unfolded True] guard_op guard_op
          send_once [OF sent(8)] send_op [OF sent(8)]]
      have "\<exists>v v'. pm_send pm v = (Inr out, v')"
        using ret(2) assms(3) new(4) sent(9) by (auto simp: guard_effect quiet_def)
      with ret(1) sent(1,2,6,8) new(2,4) show ?thesis by fastforce
    next
      case False
      with new(5) have out: "out = guard G_unknown ''state_or_effect_unavailable''
          (ef_possible_send l \<or> \<not> ef_history_known l)"
        by (auto simp: effect_answer_def effect_except_def split: sum.splits if_splits)
      have "ef_possible_send l \<or> w_sends w' = w_sends w \<and> \<not> ef_possible_send l \<and> ef_history_known l"
        using effect_send_flag [OF sent(10)] sent(9) new(4) by (auto simp: quiet_def)
      with out assms(3) show ?thesis by (auto simp: guard_effect)
    qed
  qed
qed

end

locale quiet_reconcile = mutation_callbacks +
  assumes reconcile_quiet: "frames quiet (reconcile rec)"
begin

lemma run_effect_step:
  "frames (effect_step op)
     (run_update_or_relation pkey pr req fp operation qf denial guard prep reconcile)"
proof (rule framesI)
  fix w r w'
  assume "run_update_or_relation pkey pr req fp operation qf denial guard prep reconcile w = (r, w')"
  then show "effect_step op w w'"
  proof (cases rule: run_step)
    case step
    then show ?thesis .
  next
    case (reconciled rec fs r v fs')
    from framesD [OF reconcile_quiet reconciled(3)] reconciled(4) show ?thesis
      by (simp add: quiet_effect_step)
  qed
qed

end

end
