(* ===== verification/Update_Gateway.thy ===== *)
theory Update_Gateway
  imports Mutation_Effect
begin

text \<open>
  Protected scalar updates (\<open>src/switchstand/tracker/updates.py\<close>): the callbacks the durable
  lifecycle is run with, and the interpretation that shows they keep its contract. The digest
  of the request's fingerprint (\<open>sha256(json.dumps(...))\<close>) is an argument.
\<close>

section \<open>Operations\<close>

fun field_name :: "work_field \<Rightarrow> string" where
  "field_name Title = ''title''"
| "field_name Notes = ''notes''"
| "field_name Completed = ''completed''"
| "field_name Priority = ''priority''"
| "field_name Work_type = ''work_type''"
| "field_name Horizon = ''horizon''"
| "field_name Review_next_action = ''review_next_action''"
| "field_name Stage3_gate = ''stage3_gate''"
| "field_name Lifecycle_state = ''lifecycle_state''"
| "field_name Canonical_root = ''canonical_root''"
| "field_name Owner_key = ''owner_key''"
| "field_name Wait_kind = ''wait_kind''"
| "field_name Unblock_condition = ''unblock_condition''"
| "field_name Next_due = ''next_due''"
| "field_name Next_action_class = ''next_action_class''"
| "field_name Next_action_ref = ''next_action_ref''"

definition scalar_json :: "scalar option \<Rightarrow> json" where
  "scalar_json v = (case v of None \<Rightarrow> JNull | Some (Text s) \<Rightarrow> JStr s | Some (Flag b) \<Rightarrow> JBool b)"

text \<open>\<open>ScalarPatch.model_dump\<close>, of the fields that were set or of all its fields.\<close>

definition patch_json :: "bool \<Rightarrow> patch \<Rightarrow> json" where
  "patch_json exclude_unset p =
     JObj (map (\<lambda>f. (field_name f, scalar_json (patch_get p f)))
       (if exclude_unset then fields_set p
        else filter (\<lambda>f. f \<noteq> Horizon \<and> f \<noteq> Stage3_gate) work_fields))"

definition update_fingerprint ::
  "(principal \<Rightarrow> string) \<Rightarrow> (json \<Rightarrow> string) \<Rightarrow> principal \<Rightarrow> protected_update \<Rightarrow> string" where
  "update_fingerprint pkey digest pr req =
     digest (JList [JStr (pkey pr), json_uuid (pu_work_id req), JInt (pu_grant_version req),
       JStr (pu_observed_revision req), patch_json True (pu_patch req)])"

definition update_request_json :: "protected_update \<Rightarrow> json" where
  "update_request_json req =
     JObj [(''api_version'', JStr ''1''), (''operation_id'', json_uuid (pu_operation_id req)),
       (''work_id'', json_uuid (pu_work_id req)), (''grant_version'', JInt (pu_grant_version req)),
       (''observed_revision'', JStr (pu_observed_revision req)),
       (''patch'', patch_json False (pu_patch req)),
       (''confirm_cancels_review'', JBool (pu_confirm_cancels_review req))]"

definition update_guard :: "protected_update \<Rightarrow> guard" where
  "update_guard req st reason possible_send =
     \<lparr>go_status = st, go_operation = ''work_update'', go_work_id = Some (pu_work_id req),
      go_operation_id = Some (pu_operation_id req), go_reason = reason,
      go_effect = (if possible_send then Effect_unknown else Not_sent),
      go_retry = (if possible_send then Retry_reconcile
                  else if st = G_stale then Retry_refresh else Retry_none),
      go_next_action = (if possible_send
        then ''Retry only this OperationId to reconcile; do not send a new effect.''
        else ''Refresh work/grant or ask the trusted issuer.''),
      go_receipt = None, go_blocked_by = None\<rparr>"

definition update_applied ::
  "principal \<Rightarrow> protected_update \<Rightarrow> uuid \<Rightarrow> int \<Rightarrow> string \<Rightarrow> string \<Rightarrow> string \<Rightarrow> provider_work option
     \<Rightarrow> guard_outcome" where
  "update_applied pr req gid gversion provider task_gid q work =
     (case work of
        None \<Rightarrow> update_guard req G_unknown ''effect_readback_unconfirmed'' True
      | Some w \<Rightarrow>
          \<lparr>go_status = G_ok, go_operation = ''work_update'', go_work_id = Some (pu_work_id req),
           go_operation_id = Some (pu_operation_id req), go_reason = ''scalar_state_converged'',
           go_effect = Applied, go_retry = Retry_none, go_next_action = ''Use the recorded receipt.'',
           go_receipt = Some (R_update
             \<lparr>rc_operation_id = pu_operation_id req, rc_principal = pr, rc_grant_id = gid,
              rc_grant_version = gversion, rc_qualification = q, upr_work_id = pu_work_id req,
              upr_provider = provider, upr_task_gid = task_gid,
              upr_observed_revision = pu_observed_revision req,
              upr_resulting_revision = pw_revision w, upr_patch = pu_patch req\<rparr>),
           go_blocked_by = None\<rparr>)"

text \<open>
  \<open>WorkPatch.model_validate(request.patch.model_dump(exclude_unset=True))\<close>: the same fields
  under the stricter model.
\<close>

definition to_work_patch :: "patch \<Rightarrow> patch py_result" where
  "to_work_patch p = (if valid_patch p then Inr p else Inl ValidationError)"

definition update_send ::
  "'p providers \<Rightarrow> principal \<Rightarrow> protected_update \<Rightarrow> work_grant \<Rightarrow> string \<Rightarrow> string \<Rightarrow> string
     \<Rightarrow> ('p world, guard_outcome) prog" where
  "update_send pvs pr req g provider task_gid q =
     bindP (liftP (to_work_patch (pu_patch req))) (\<lambda>patch.
     if_none (pvs provider) (raiseP KeyError) (\<lambda>pv.
     catchP
       (bindP (apply_scalar pv task_gid patch True) (\<lambda>work.
        returnP (update_applied pr req (wg_id g) (wg_version g) provider task_gid q work)))
       (\<lambda>e. if e = UnknownEffect
            then bindP (apply_scalar pv task_gid patch False) (\<lambda>work.
                 returnP (update_applied pr req (wg_id g) (wg_version g) provider task_gid q work))
            else if is_provider_error e
            then returnP (update_guard req G_not_applied (provider_rejection_reason e) False)
            else raiseP e)))"

definition update_prepare ::
  "'p providers \<Rightarrow> principal \<Rightarrow> protected_update \<Rightarrow> work_grant \<Rightarrow> string
     \<Rightarrow> ('p world, guard_outcome + 'p prepared_mutation) prog" where
  "update_prepare pvs pr req g q =
     bindP (state_read (state_get (pu_work_id req))) (\<lambda>h.
     if_none h (returnP (Inl (update_guard req G_denied ''work_not_bound'' False))) (\<lambda>h.
     if_none (pvs (h_provider h)) (raiseP KeyError) (\<lambda>pv.
     bindP (ext_call (pv_get pv (h_provider_work_id h))) (\<lambda>current.
     if_none current
       (returnP (Inl (update_guard req G_not_applied ''source_read_unavailable'' False))) (\<lambda>cur.
     if \<not> pw_canonical cur
     then returnP (Inl (update_guard req G_not_applied ''source_read_unavailable'' False))
     else if pw_revision cur \<noteq> pu_observed_revision req
     then returnP (Inl (update_guard req G_stale ''source_revision_changed'' False))
     else returnP (Inr \<lparr>
       pm_intent = JObj [(''request'', update_request_json req), (''provider'', JStr (h_provider h)),
         (''task_gid'', JStr (h_provider_work_id h)), (''qualification'', JStr q)],
       pm_send = update_send pvs pr req g (h_provider h) (h_provider_work_id h) q\<rparr>))))))"

text \<open>A durable field that is a non-empty string.\<close>

definition intent_text :: "json \<Rightarrow> string \<Rightarrow> string py_result" where
  "intent_text intent key =
     (case json_get intent key of
        Some (JStr s) \<Rightarrow> if s = [] then Inl ValueError else Inr s
      | _ \<Rightarrow> Inl ValueError)"

definition update_reconcile ::
  "'p providers \<Rightarrow> principal \<Rightarrow> protected_update \<Rightarrow> effect_record \<Rightarrow> ('p world, guard_outcome) prog" where
  "update_reconcile pvs pr req rec =
     bindP (liftP (intent_text (er_intent rec) ''provider'')) (\<lambda>provider.
     bindP (liftP (intent_text (er_intent rec) ''task_gid'')) (\<lambda>task_gid.
     bindP (liftP (intent_text (er_intent rec) ''qualification'')) (\<lambda>q.
     bindP (liftP (to_work_patch (pu_patch req))) (\<lambda>patch.
     if_none (pvs provider) (raiseP KeyError) (\<lambda>pv.
     bindP (apply_scalar pv task_gid patch False) (\<lambda>work.
     let outcome = update_applied pr req (er_grant_id rec) (er_grant_version rec) provider task_gid q work
     in if go_effect outcome = Applied
        then bindP (grants_write (finish outcome)) (\<lambda>_. returnP outcome)
        else returnP outcome))))))"

definition update_request_of :: "protected_update \<Rightarrow> mutation_request" where
  "update_request_of req = \<lparr>mr_operation_id = pu_operation_id req, mr_work_id = pu_work_id req,
     mr_grant_version = pu_grant_version req\<rparr>"

definition gateway_update ::
  "(principal \<Rightarrow> string) \<Rightarrow> (json \<Rightarrow> string) \<Rightarrow> 'p providers \<Rightarrow> principal \<Rightarrow> protected_update
     \<Rightarrow> ('p world, guard_outcome) prog" where
  "gateway_update pkey digest pvs pr req =
     run_update_or_relation pkey pr (update_request_of req) (update_fingerprint pkey digest pr req)
       Work_update wg_update_qualification ''update_not_qualified_for_this_surface''
       (update_guard req) (update_prepare pvs pr req) (update_reconcile pvs pr req)"

section \<open>The callbacks keep the lifecycle's contract\<close>

lemma apply_scalar_read_quiet: "frames quiet (apply_scalar pv gid p False)"
  unfolding apply_scalar_def by (simp only: if_False) (intro frame_intros | simp)+

lemma update_prepare_quiet: "frames quiet (update_prepare pvs pr req g q)"
  unfolding update_prepare_def by (intro frame_intros)

lemma update_reconcile_quiet: "frames quiet (update_reconcile pvs pr req rec)"
  unfolding update_reconcile_def Let_def by (intro frame_intros apply_scalar_read_quiet)

lemma apply_scalar_sends:
  assumes "apply_scalar pv gid p True w = (r, w')"
  shows "one_send w w'"
  using assms
  by (auto simp: apply_scalar_def one_send_def elim!: bindP_cases catchP_cases send_call_run ext_call_run
      split: if_splits)

lemma update_send_once: "frames one_send (update_send pvs pr req g provider gid q)"
proof (rule framesI)
  fix w r w'
  assume run: "update_send pvs pr req g provider gid q w = (r, w')"
  show "one_send w w'"
  proof (cases "\<exists>pv. valid_patch (pu_patch req) \<and> pvs provider = Some pv")
    case False
    with run show ?thesis
      by (auto simp: update_send_def to_work_patch_def bindP_Pair quiet_one_send
          split: option.splits if_splits)
  next
    case True
    then obtain pv where pv: "valid_patch (pu_patch req)" "pvs provider = Some pv" by blast
    obtain r1 w1 where ap: "apply_scalar pv gid (pu_patch req) True w = (r1, w1)" by fastforce
    note one = apply_scalar_sends [OF ap]
    obtain r2 w2 where again: "apply_scalar pv gid (pu_patch req) False w1 = (r2, w2)" by fastforce
    note q = framesD [OF apply_scalar_read_quiet again]
    from run pv ap again one one_send_quiet [OF one q] show ?thesis
      by (auto simp: update_send_def to_work_patch_def bindP_Pair catchP_def
          split: if_splits sum.splits)
  qed
qed

lemma update_applied_op [simp]:
  "go_operation_id (update_applied pr req gid v p t q work) = Some (pu_operation_id req)"
  by (simp add: update_applied_def update_guard_def split: option.splits)

lemma update_guard_simps [simp]:
  "go_operation_id (update_guard req st re b) = Some (pu_operation_id req)"
  "go_effect (update_guard req st re b) = (if b then Effect_unknown else Not_sent)"
  "go_work_id (update_guard req st re b) = Some (pu_work_id req)"
  by (simp_all add: update_guard_def)

lemma update_send_op:
  "yields (\<lambda>out. go_operation_id out = Some (pu_operation_id req)) (update_send pvs pr req g p t q)"
  unfolding update_send_def by (intro yield_intros) simp_all

lemma update_prepare_result:
  assumes "update_prepare pvs pr req g q w = (Inr x, w')"
  shows "case x of
      Inl out \<Rightarrow> go_effect out = Not_sent
    | Inr pm \<Rightarrow> \<exists>h. state_get (pu_work_id req) (w_state w) = Inr (Some h)
        \<and> pm = \<lparr>pm_intent = JObj [(''request'', update_request_json req), (''provider'', JStr (h_provider h)),
              (''task_gid'', JStr (h_provider_work_id h)), (''qualification'', JStr q)],
            pm_send = update_send pvs pr req g (h_provider h) (h_provider_work_id h) q\<rparr>"
  using assms unfolding update_prepare_def
  by (auto elim!: bindP_Inr_E dest!: state_read_run(5) split: option.splits if_splits) metis

interpretation update_callbacks: quiet_reconcile
  "update_guard req" "update_prepare pvs pr req" "update_reconcile pvs pr req" "pu_operation_id req"
  for pvs :: "'p providers" and pr req
proof (unfold_locales, goal_cases)
  case (4 g q w pm w')
  from update_prepare_result [OF 4] show ?case by (auto simp: update_send_once)
next
  case (5 g q w pm w')
  from update_prepare_result [OF 5] show ?case by (auto simp: update_send_op)
next
  case (6 g q w out w')
  from update_prepare_result [OF 6] show ?case by simp
qed (simp_all add: update_prepare_quiet update_reconcile_quiet)

end
