(* ===== verification/Relation_Gateway.thy ===== *)
theory Relation_Gateway
  imports Update_Gateway
begin

text \<open>
  Protected relation mutations (\<open>src/switchstand/tracker/provider_relations.py\<close>). A placement
  move is the one relation whose reconciliation may ask for its effect again; the lemmas below
  show that it is the only one, and that it asks for the journalled effect.
\<close>

section \<open>Operations\<close>

fun kind_name :: "relation_kind \<Rightarrow> string" where
  "kind_name K_assignee = ''assignee''"
| "kind_name K_placement = ''placement''"
| "kind_name K_parent = ''parent''"
| "kind_name K_dependency = ''dependency''"
| "kind_name K_pull_request = ''pull_request''"

fun action_name :: "relation_action \<Rightarrow> string" where
  "action_name A_set = ''set''"
| "action_name A_clear = ''clear''"
| "action_name A_add = ''add''"
| "action_name A_remove = ''remove''"
| "action_name A_move = ''move''"

definition pull_request_json :: "pull_request_change \<Rightarrow> json" where
  "pull_request_json c =
     JObj [(''repository'', JStr (prc_repository c)), (''number'', JInt (prc_number c)),
       (''expected_version'', json_opt JInt (prc_expected_version c)),
       (''recipient_key'', json_opt JStr (prc_recipient_key c)),
       (''acceptance_delivery_id'', json_opt json_uuid (prc_acceptance_delivery_id c)),
       (''package_ref'', JStr (prc_package_ref c))]"

definition relation_patch_json :: "relation_patch \<Rightarrow> json" where
  "relation_patch_json p =
     JObj [(''kind'', JStr (kind_name (rp_kind p))), (''action'', JStr (action_name (rp_action p))),
       (''target_work_id'', json_opt json_uuid (rp_target_work_id p)),
       (''project_id'', json_opt json_uuid (rp_project_id p)),
       (''assignee_gid'', json_opt JStr (rp_assignee_gid p)),
       (''project_gid'', json_opt JStr (rp_project_gid p)),
       (''section_gid'', json_opt JStr (rp_section_gid p)),
       (''pull_request'', json_opt pull_request_json (rp_pull_request p))]"

definition relation_fingerprint ::
  "(principal \<Rightarrow> string) \<Rightarrow> (json \<Rightarrow> string) \<Rightarrow> principal \<Rightarrow> protected_relation \<Rightarrow> string" where
  "relation_fingerprint pkey digest pr req =
     digest (JList [JStr (pkey pr), json_uuid (prl_work_id req), JInt (prl_grant_version req),
       JStr (prl_observed_revision req), relation_patch_json (prl_patch req),
       JBool (prl_confirm_cancels_review req)])"

definition relation_request_json :: "protected_relation \<Rightarrow> json" where
  "relation_request_json req =
     JObj [(''api_version'', JStr ''1''), (''operation_id'', json_uuid (prl_operation_id req)),
       (''work_id'', json_uuid (prl_work_id req)), (''grant_version'', JInt (prl_grant_version req)),
       (''observed_revision'', JStr (prl_observed_revision req)),
       (''patch'', relation_patch_json (prl_patch req)),
       (''confirm_cancels_review'', JBool (prl_confirm_cancels_review req))]"

definition relation_guard :: "protected_relation \<Rightarrow> guard" where
  "relation_guard req st reason possible_send =
     \<lparr>go_status = st, go_operation = ''work_relate'', go_work_id = Some (prl_work_id req),
      go_operation_id = Some (prl_operation_id req), go_reason = reason,
      go_effect = (if possible_send then Effect_unknown else Not_sent),
      go_retry = (if possible_send then Retry_reconcile
                  else if st = G_stale then Retry_refresh else Retry_none),
      go_next_action = (if possible_send
        then ''Retry only this OperationId to reconcile; do not send a new relation effect.''
        else ''Refresh work/admission or ask the trusted issuer.''),
      go_receipt = None, go_blocked_by = None\<rparr>"

definition relation_resolved ::
  "work_grant \<Rightarrow> string \<Rightarrow> protected_relation \<Rightarrow> ('p world, provider_relation option) prog" where
  "relation_resolved g provider req =
     (let p = prl_patch req;
          resolved = (\<lambda>target. \<lparr>pvr_kind = kind_name (rp_kind p), pvr_action = action_name (rp_action p),
             pvr_target_gid = target, pvr_assignee_gid = rp_assignee_gid p,
             pvr_project_gid = rp_project_gid p, pvr_section_gid = rp_section_gid p\<rparr>)
      in if rp_kind p = K_pull_request then returnP None
         else if_none (rp_target_work_id p) (returnP (Some (resolved None))) (\<lambda>target.
           if \<not> grant_can_read g target True then returnP None
           else bindP (state_read (state_get target)) (\<lambda>h.
             if_none h (returnP None) (\<lambda>h.
             if h_provider h \<noteq> provider then returnP None
             else returnP (Some (resolved (Some (h_provider_work_id h))))))))"

definition relation_applied ::
  "principal \<Rightarrow> protected_relation \<Rightarrow> uuid \<Rightarrow> int \<Rightarrow> string \<Rightarrow> string \<Rightarrow> string \<Rightarrow> guard_outcome" where
  "relation_applied pr req gid gversion provider task_gid q =
     \<lparr>go_status = G_ok, go_operation = ''work_relate'', go_work_id = Some (prl_work_id req),
      go_operation_id = Some (prl_operation_id req), go_reason = ''relation_state_converged'',
      go_effect = Applied, go_retry = Retry_none, go_next_action = ''Use the recorded receipt.'',
      go_receipt = Some (R_relation
        \<lparr>rc_operation_id = prl_operation_id req, rc_principal = pr, rc_grant_id = gid,
         rc_grant_version = gversion, rc_qualification = q, rlr_work_id = prl_work_id req,
         rlr_provider = provider, rlr_task_gid = task_gid,
         rlr_observed_revision = prl_observed_revision req, rlr_patch = prl_patch req,
         rlr_pull_request = None\<rparr>),
      go_blocked_by = None\<rparr>"

abbreviation send_relation ::
  "'p relation_provider \<Rightarrow> string \<Rightarrow> provider_relation \<Rightarrow> ('p world, unit) prog" where
  "send_relation rp gid r \<equiv> send_call (Sent_relation gid r) (rpv_update_relation rp gid r)"

definition relation_send ::
  "principal \<Rightarrow> protected_relation \<Rightarrow> work_grant \<Rightarrow> string \<Rightarrow> string \<Rightarrow> string \<Rightarrow> provider_relation
     \<Rightarrow> 'p relation_provider \<Rightarrow> ('p world, guard_outcome) prog" where
  "relation_send pr req g provider task_gid q resolved rp =
     bindP (catchP (bindP (send_relation rp task_gid resolved) (\<lambda>_. returnP None))
       (\<lambda>e. if e = UnknownEffect then returnP None
            else if is_provider_error e
            then returnP (Some (relation_guard req G_not_applied (provider_rejection_reason e) False))
            else raiseP e)) (\<lambda>rejected.
     if_none rejected
       (bindP (ext_call (rpv_relation_matches rp task_gid resolved)) (\<lambda>matches.
          returnP (if \<not> matches
                   then relation_guard req G_unknown ''effect_readback_unconfirmed'' True
                   else relation_applied pr req (wg_id g) (wg_version g) provider task_gid q)))
       returnP)"

definition resolved_json :: "provider_relation \<Rightarrow> json" where
  "resolved_json r =
     JObj [(''kind'', JStr (pvr_kind r)), (''action'', JStr (pvr_action r)),
       (''target_gid'', json_opt JStr (pvr_target_gid r)),
       (''assignee_gid'', json_opt JStr (pvr_assignee_gid r)),
       (''project_gid'', json_opt JStr (pvr_project_gid r)),
       (''section_gid'', json_opt JStr (pvr_section_gid r))]"

definition relation_prepare ::
  "'p providers \<Rightarrow> principal \<Rightarrow> protected_relation \<Rightarrow> work_grant \<Rightarrow> string
     \<Rightarrow> ('p world, guard_outcome + 'p prepared_mutation) prog" where
  "relation_prepare pvs pr req g q =
     (if rp_project_id (prl_patch req) \<noteq> None
      then returnP (Inl (relation_guard req G_denied ''provider_relation_not_supported'' False))
      else
     bindP (state_read (state_get (prl_work_id req))) (\<lambda>h.
     if_none h (returnP (Inl (relation_guard req G_denied ''work_not_bound'' False))) (\<lambda>h.
     if_none (pvs (h_provider h))
       (returnP (Inl (relation_guard req G_denied ''provider_relation_not_supported'' False))) (\<lambda>pv.
     if_none (pv_relations pv)
       (returnP (Inl (relation_guard req G_denied ''provider_relation_not_supported'' False))) (\<lambda>rp.
     bindP (ext_call (pv_get pv (h_provider_work_id h))) (\<lambda>current.
     if_none current
       (returnP (Inl (relation_guard req G_not_applied ''source_read_unavailable'' False))) (\<lambda>cur.
     if \<not> pw_canonical cur
     then returnP (Inl (relation_guard req G_not_applied ''source_read_unavailable'' False))
     else if pw_revision cur \<noteq> prl_observed_revision req
     then returnP (Inl (relation_guard req G_stale ''source_revision_changed'' False))
     else
     bindP (relation_resolved g (h_provider h) req) (\<lambda>resolved.
     if_none resolved
       (returnP (Inl (relation_guard req G_denied ''relation_target_not_granted'' False))) (\<lambda>res.
     returnP (Inr \<lparr>
       pm_intent = JObj [(''request'', relation_request_json req), (''provider'', JStr (h_provider h)),
         (''task_gid'', JStr (h_provider_work_id h)), (''qualification'', JStr q),
         (''resolved'', resolved_json res)],
       pm_send = relation_send pr req g (h_provider h) (h_provider_work_id h) q res rp\<rparr>))))))))))"

text \<open>The durable intent read back: strings, and optional strings inside \<open>resolved\<close>.\<close>

definition json_text :: "json option \<Rightarrow> string py_result" where
  "json_text v = (case v of Some (JStr s) \<Rightarrow> Inr s | _ \<Rightarrow> Inl TypeError)"

definition json_opt_text :: "json option \<Rightarrow> string option py_result" where
  "json_opt_text v =
     (case v of None \<Rightarrow> Inr None | Some JNull \<Rightarrow> Inr None | Some (JStr s) \<Rightarrow> Inr (Some s)
      | _ \<Rightarrow> Inl TypeError)"

definition resolved_of_json :: "json option \<Rightarrow> provider_relation py_result" where
  "resolved_of_json raw =
     (case raw of
        Some (JObj kvs) \<Rightarrow>
          bindE (json_text (map_of kvs ''kind'')) (\<lambda>kind.
          bindE (json_text (map_of kvs ''action'')) (\<lambda>action.
          bindE (json_opt_text (map_of kvs ''target_gid'')) (\<lambda>target.
          bindE (json_opt_text (map_of kvs ''assignee_gid'')) (\<lambda>assignee.
          bindE (json_opt_text (map_of kvs ''project_gid'')) (\<lambda>project.
          bindE (json_opt_text (map_of kvs ''section_gid'')) (\<lambda>sect.
          Inr \<lparr>pvr_kind = kind, pvr_action = action, pvr_target_gid = target,
               pvr_assignee_gid = assignee, pvr_project_gid = project, pvr_section_gid = sect\<rparr>))))))
      | _ \<Rightarrow> Inl TypeError)"

definition is_move :: "provider_relation \<Rightarrow> bool" where
  "is_move r = (pvr_kind r = ''placement'' \<and> pvr_action r = ''move'')"

definition relation_reconcile ::
  "'p providers \<Rightarrow> principal \<Rightarrow> protected_relation \<Rightarrow> effect_record \<Rightarrow> ('p world, guard_outcome) prog" where
  "relation_reconcile pvs pr req rec =
     bindP (liftP (json_text (json_get (er_intent rec) ''provider''))) (\<lambda>provider.
     bindP (liftP (json_text (json_get (er_intent rec) ''task_gid''))) (\<lambda>task_gid.
     bindP (liftP (json_text (json_get (er_intent rec) ''qualification''))) (\<lambda>q.
     bindP (liftP (resolved_of_json (json_get (er_intent rec) ''resolved''))) (\<lambda>resolved.
     if_none (case pvs provider of None \<Rightarrow> None | Some pv \<Rightarrow> pv_relations pv)
       (returnP (relation_guard req G_unknown ''relation_recovery_unavailable'' True)) (\<lambda>rp.
     bindP (ext_call (rpv_relation_matches rp task_gid resolved)) (\<lambda>matches.
     bindP (if \<not> matches \<and> is_move resolved
            then bindP (catchP (send_relation rp task_gid resolved)
                   (\<lambda>e. if is_provider_error e then returnP () else raiseP e)) (\<lambda>_.
                 ext_call (rpv_relation_matches rp task_gid resolved))
            else returnP matches) (\<lambda>matches.
     if \<not> matches
     then returnP (relation_guard req G_unknown ''effect_readback_unconfirmed'' True)
     else
     let outcome = relation_applied pr req (er_grant_id rec) (er_grant_version rec) provider task_gid q
     in bindP (grants_write (finish outcome)) (\<lambda>_. returnP outcome))))))))"

definition relation_request_of :: "protected_relation \<Rightarrow> mutation_request" where
  "relation_request_of req = \<lparr>mr_operation_id = prl_operation_id req, mr_work_id = prl_work_id req,
     mr_grant_version = prl_grant_version req\<rparr>"

definition gateway_relate ::
  "(principal \<Rightarrow> string) \<Rightarrow> (json \<Rightarrow> string) \<Rightarrow> 'p providers \<Rightarrow> principal \<Rightarrow> protected_relation
     \<Rightarrow> ('p world, guard_outcome) prog" where
  "gateway_relate pkey digest pvs pr req =
     run_update_or_relation pkey pr (relation_request_of req) (relation_fingerprint pkey digest pr req)
       Work_relate wg_relation_qualification ''relation_not_qualified_for_this_surface''
       (relation_guard req) (relation_prepare pvs pr req) (relation_reconcile pvs pr req)"

section \<open>The durable intent reads back as it was written\<close>

lemma json_opt_text_opt [simp]: "json_opt_text (Some (json_opt JStr v)) = Inr v"
  by (cases v) (simp_all add: json_opt_text_def json_opt_def)

lemma json_text_eq: "json_text v = Inr s \<longleftrightarrow> v = Some (JStr s)"
  by (auto simp: json_text_def split: option.splits json.splits)

lemma resolved_roundtrip [simp]: "resolved_of_json (Some (resolved_json r)) = Inr r"
  by (simp add: resolved_of_json_def resolved_json_def json_text_def)

section \<open>The callbacks keep the lifecycle's contract\<close>

lemma relation_guard_simps [simp]:
  "go_operation_id (relation_guard req st re b) = Some (prl_operation_id req)"
  "go_effect (relation_guard req st re b) = (if b then Effect_unknown else Not_sent)"
  "go_work_id (relation_guard req st re b) = Some (prl_work_id req)"
  by (simp_all add: relation_guard_def)

lemma relation_applied_op [simp]:
  "go_operation_id (relation_applied pr req gid v p t q) = Some (prl_operation_id req)"
  by (simp add: relation_applied_def)

lemma relation_resolved_quiet: "frames quiet (relation_resolved g p req)"
  unfolding relation_resolved_def Let_def by (intro frame_intros)

lemma relation_prepare_quiet: "frames quiet (relation_prepare pvs pr req g q)"
  unfolding relation_prepare_def by (intro frame_intros relation_resolved_quiet)

lemma relation_send_once: "frames one_send (relation_send pr req g p gid q res rp)"
proof (rule framesI)
  fix w r w'
  assume "relation_send pr req g p gid q res rp w = (r, w')"
  then show "one_send w w'"
    by (auto simp: relation_send_def one_send_def split: if_splits option.splits
        elim!: bindP_cases catchP_cases send_call_run ext_call_run)
qed

lemma relation_send_op:
  "yields (\<lambda>out. go_operation_id out = Some (prl_operation_id req)) (relation_send pr req g p gid q res rp)"
  by (rule yieldsI) (auto simp: relation_send_def elim!: bindP_Inr_E catchP_cases split: option.splits if_splits)

lemma relation_prepare_result:
  assumes "relation_prepare pvs pr req g q w = (Inr x, w')"
  shows "case x of
      Inl out \<Rightarrow> go_effect out = Not_sent
    | Inr pm \<Rightarrow> \<exists>h pv rp res. state_get (prl_work_id req) (w_state w) = Inr (Some h)
        \<and> pvs (h_provider h) = Some pv \<and> pv_relations pv = Some rp
        \<and> json_get (pm_intent pm) ''resolved'' = Some (resolved_json res)
        \<and> pm_send pm = relation_send pr req g (h_provider h) (h_provider_work_id h) q res rp"
  using assms unfolding relation_prepare_def
  by (auto elim!: bindP_Inr_E dest!: state_read_run(5) split: option.splits if_splits) metis

interpretation relation_callbacks: mutation_callbacks
  "relation_guard req" "relation_prepare pvs pr req" "relation_reconcile pvs pr req" "prl_operation_id req"
  for pvs :: "'p providers" and pr req
proof (unfold_locales, goal_cases)
  case (4 g q w pm w')
  from relation_prepare_result [OF 4] show ?case by (auto simp: relation_send_once)
next
  case (5 g q w pm w')
  from relation_prepare_result [OF 5] show ?case by (auto simp: relation_send_op)
next
  case (6 g q w out w')
  from relation_prepare_result [OF 6] show ?case by simp
qed (simp_all add: relation_prepare_quiet)

text \<open>
  A reconciliation is quiet, unless the journalled relation is a placement move, which it may
  ask for once more.
\<close>

lemma relation_reconcile_sends:
  assumes "relation_reconcile pvs pr req rec w = (r, w')"
  shows "quiet w w' \<or> (\<exists>gid res. w_sends w' = w_sends w @ [Sent_relation gid res] \<and> is_move res
      \<and> json_get (er_intent rec) ''task_gid'' = Some (JStr gid)
      \<and> resolved_of_json (json_get (er_intent rec) ''resolved'') = Inr res
      \<and> journal.journal_steps (w_grants w) (w_grants w'))"
proof -
  have fin: "journal.journal_steps (w_grants a) (w_grants b) \<and> w_sends b = w_sends a"
    if "grants_write (finish out) a = (x, b)" for out x and a b :: "'a world"
    using framesD [OF frames_finish that] by (simp add: quiet_def)
  have ext: "w_grants b = w_grants a \<and> w_sends b = w_sends a"
    if "ext_call m a = (x, b)" for m and x :: "bool py_result" and a b :: "'a world"
    using that by (auto elim!: ext_call_run)
  have send: "w_grants b = w_grants a \<and> w_sends b = w_sends a @ [Sent_relation gid res]"
    if "send_relation rp gid res a = (x, b)" for rp gid res x and a b :: "'a world"
    using that by (auto elim!: send_call_run)
  show ?thesis
    using assms unfolding relation_reconcile_def Let_def
    by (auto elim!: bindP_cases catchP_cases dest!: fin ext send split: option.splits if_splits
        simp: quiet_def json_text_eq)
qed

end
