(* ===== verification/Effect_Safety.thy ===== *)
theory Effect_Safety
  imports Relation_Gateway
begin

text \<open>
  Safety of the durable effects across calls: histories of update and relation calls by any
  principals, with any database faults, against any provider.
\<close>

section \<open>Histories\<close>

datatype gateway_call =
    Call_update principal protected_update
  | Call_relate principal protected_relation

fun call_op :: "gateway_call \<Rightarrow> uuid" where
  "call_op (Call_update _ req) = pu_operation_id req"
| "call_op (Call_relate _ req) = prl_operation_id req"

fun run_call ::
  "(principal \<Rightarrow> string) \<Rightarrow> (json \<Rightarrow> string) \<Rightarrow> 'p providers \<Rightarrow> gateway_call
     \<Rightarrow> ('p world, guard_outcome) prog" where
  "run_call pkey digest pvs (Call_update pr req) = gateway_update pkey digest pvs pr req"
| "run_call pkey digest pvs (Call_relate pr req) = gateway_relate pkey digest pvs pr req"

text \<open>The effects providers are asked for by the calls of one operation id.\<close>

fun sends_of ::
  "(principal \<Rightarrow> string) \<Rightarrow> (json \<Rightarrow> string) \<Rightarrow> 'p providers \<Rightarrow> uuid \<Rightarrow> gateway_call list
     \<Rightarrow> 'p world \<Rightarrow> ext_effect list" where
  "sends_of pkey digest pvs k [] w = []"
| "sends_of pkey digest pvs k (c # cs) w =
     (let w' = snd (run_call pkey digest pvs c w)
      in (if call_op c = k then drop (length (w_sends w)) (w_sends w') else [])
         @ sends_of pkey digest pvs k cs w')"

fun move_effect :: "ext_effect \<Rightarrow> bool" where
  "move_effect (Sent_relation _ r) = is_move r"
| "move_effect _ = False"

text \<open>What one call does to the journal and asks of the providers.\<close>

definition call_effect :: "uuid \<Rightarrow> 'p world \<Rightarrow> 'p world \<Rightarrow> ext_effect list \<Rightarrow> bool" where
  "call_effect op w w' es =
     (journal.journal_steps (w_grants w) (w_grants w') \<and> w_sends w' = w_sends w @ es
      \<and> (es \<noteq> [] \<longrightarrow> journal_entry (w_grants w') (uuid_str op) \<noteq> None)
      \<and> (list_all move_effect es
         \<or> (length es = 1 \<and> journal_entry (w_grants w) (uuid_str op) = None)))"

lemma effect_step_call_effect: "effect_step op w w' \<Longrightarrow> \<exists>es. call_effect op w w' es"
  by (auto simp: effect_step_def call_effect_def)

lemma exact_recorded: "exact op db = Inr (Some rec) \<Longrightarrow> journal_entry db (uuid_str op) \<noteq> None"
  by (auto simp: exact_def journal_entry_def bindE_eq_Inr find_None_iff one_or_none_Some
      split: option.splits dest!: filter_eq_ConsD) blast

lemma journal_steps_entry:
  "journal.journal_steps db db' \<Longrightarrow> journal_entry db op \<noteq> None \<Longrightarrow> journal_entry db' op \<noteq> None"
  using journal.entry_persists by fastforce

lemma run_call_effect:
  assumes "run_call pkey digest pvs c w = (r, w')"
  shows "\<exists>es. call_effect (call_op c) w w' es"
proof (cases c)
  case (Call_update pr req)
  with assms have "effect_step (call_op c) w w'"
    by (auto simp: gateway_update_def dest!: framesD [OF update_callbacks.run_effect_step])
  then show ?thesis by (rule effect_step_call_effect)
next
  case (Call_relate pr req)
  with assms have "run_update_or_relation pkey pr (relation_request_of req)
     (relation_fingerprint pkey digest pr req) Work_relate wg_relation_qualification
     ''relation_not_qualified_for_this_surface'' (relation_guard req)
     (relation_prepare pvs pr req) (relation_reconcile pvs pr req) w = (r, w')"
    by (simp add: gateway_relate_def)
  then show ?thesis
  proof (cases rule: relation_callbacks.run_step)
    case step
    with Call_relate show ?thesis by (simp add: effect_step_call_effect)
  next
    case (reconciled rec fs r v fs')
    have ent: "journal_entry (w_grants w) (uuid_str (call_op c)) \<noteq> None"
      using exact_recorded [OF reconciled(1)] Call_relate by (simp add: relation_request_of_def)
    from relation_reconcile_sends [OF reconciled(3)] show ?thesis
    proof
      assume "quiet (w\<lparr>w_faults := fs\<rparr>) v"
      with reconciled(4) show ?thesis by (auto simp: quiet_def call_effect_def intro: exI [of _ "[]"])
    next
      assume "\<exists>gid res. w_sends v = w_sends (w\<lparr>w_faults := fs\<rparr>) @ [Sent_relation gid res] \<and> is_move res
        \<and> json_get (er_intent rec) ''task_gid'' = Some (JStr gid)
        \<and> resolved_of_json (json_get (er_intent rec) ''resolved'') = Inr res
        \<and> journal.journal_steps (w_grants (w\<lparr>w_faults := fs\<rparr>)) (w_grants v)"
      then obtain gid res where "w_sends v = w_sends w @ [Sent_relation gid res]" "is_move res"
        and st: "journal.journal_steps (w_grants w) (w_grants v)" by auto
      with journal_steps_entry [OF st ent] reconciled(4)
      have "call_effect (call_op c) w w' [Sent_relation gid res]" by (simp add: call_effect_def)
      then show ?thesis ..
    qed
  qed
qed

lemma sends_of_recorded:
  assumes "journal_entry (w_grants w) (uuid_str k) \<noteq> None"
  shows "list_all move_effect (sends_of pkey digest pvs k cs w)"
  using assms
proof (induction cs arbitrary: w)
  case Nil
  then show ?case by simp
next
  case (Cons c cs)
  obtain r w' where run: "run_call pkey digest pvs c w = (r, w')" by fastforce
  from run_call_effect [OF this] obtain es where es: "call_effect (call_op c) w w' es" ..
  then have "journal_entry (w_grants w') (uuid_str k) \<noteq> None"
    using journal_steps_entry [OF _ Cons.prems] by (auto simp: call_effect_def)
  from Cons.IH [OF this] run es Cons.prems show ?case by (auto simp: call_effect_def)
qed


section \<open>Blocking and replay\<close>

definition unresolved_on :: "uuid \<Rightarrow> uuid \<Rightarrow> grant_db \<Rightarrow> bool" where
  "unresolved_on op work db =
     (\<exists>r \<in> set (gdb_intents db). ei_work_id r = uuid_str work \<and> ei_operation_id r \<noteq> uuid_str op
        \<and> go_effect (ei_outcome r) = Effect_unknown)"

lemma unresolved_previous: "unresolved_on op work db \<Longrightarrow> previous op work db \<noteq> Inr None"
proof -
  assume "unresolved_on op work db"
  then have "filter (\<lambda>r. ei_operation_id r = uuid_str op
      \<or> (ei_work_id r = uuid_str work \<and> go_effect (ei_outcome r) = Effect_unknown)) (gdb_intents db) \<noteq> []"
    by (auto simp: unresolved_on_def filter_empty_conv)
  then show ?thesis
    by (auto simp: previous_def Let_def bindE_def split: list.splits sum.splits)
qed

lemma exact_None: "journal_entry db (uuid_str op) = None \<Longrightarrow> exact op db = Inr None"
  by (auto simp: exact_def journal_entry_def find_None_iff filter_empty_conv bindE_def
      one_or_none_None [THEN iffD2])

fun call_work :: "gateway_call \<Rightarrow> uuid" where
  "call_work (Call_update _ req) = pu_work_id req"
| "call_work (Call_relate _ req) = prl_work_id req"

text \<open>
  C2. An unresolved effect blocks its whole target: while the journal holds an effect of unknown
  outcome on a work, no call of a new operation on that work (update or relation, whoever calls)
  asks a provider for anything or writes to the journal.
\<close>

theorem unresolved_effect_blocks_target:
  assumes "unresolved_on (call_op c) (call_work c) (w_grants w)"
    and "journal_entry (w_grants w) (uuid_str (call_op c)) = None"
    and "run_call pkey digest pvs c w = (r, w')"
  shows "w_sends w' = w_sends w \<and> w_grants w' = w_grants w"
proof (cases c)
  case (Call_update pr req)
  have "exact (mr_operation_id (update_request_of req)) (w_grants w) = Inr None"
    using exact_None [OF assms(2)] Call_update by (simp add: update_request_of_def)
  moreover have "previous (mr_operation_id (update_request_of req)) (mr_work_id (update_request_of req))
      (w_grants w) \<noteq> Inr None"
    using unresolved_previous [OF assms(1)] Call_update by (simp add: update_request_of_def)
  ultimately show ?thesis
    using assms(3) update_callbacks.run_blocked Call_update by (fastforce simp: gateway_update_def)
next
  case (Call_relate pr req)
  have "exact (mr_operation_id (relation_request_of req)) (w_grants w) = Inr None"
    using exact_None [OF assms(2)] Call_relate by (simp add: relation_request_of_def)
  moreover have "previous (mr_operation_id (relation_request_of req)) (mr_work_id (relation_request_of req))
      (w_grants w) \<noteq> Inr None"
    using unresolved_previous [OF assms(1)] Call_relate by (simp add: relation_request_of_def)
  ultimately show ?thesis
    using assms(3) relation_callbacks.run_blocked Call_relate by (fastforce simp: gateway_relate_def)
qed

text \<open>
  A settled update is answered from the journal: a repeated call returns the recorded outcome
  to the same principal and fingerprint and an identity conflict to anyone else (or reports that
  the state is unavailable), and in no case asks a provider or changes the journal.
\<close>

theorem settled_update_replays:
  assumes "exact (pu_operation_id req) (w_grants w) = Inr (Some rec)"
    and "go_effect (er_outcome rec) \<noteq> Effect_unknown"
    and "gateway_update pkey digest pvs pr req w = (res, w')"
  shows "w_grants w' = w_grants w \<and> w_sends w' = w_sends w \<and> w_ext w' = w_ext w
    \<and> (res = Inr (if er_principal_key rec = pkey pr
                     \<and> er_fingerprint rec = update_fingerprint pkey digest pr req
                  then er_outcome rec
                  else update_guard req G_denied ''operation_identity_conflict'' False)
       \<or> (\<exists>b. res = Inr (update_guard req G_unknown ''state_or_effect_unavailable'' b)))"
  using run_replayed [OF assms(3) [unfolded gateway_update_def]] assms(1,2)
  by (simp add: update_request_of_def)

section \<open>Truthful outcomes\<close>

lemma apply_scalar_confirmed:
  "apply_scalar pv gid p b w = (Inr (Some work), w') \<Longrightarrow> pw_canonical work \<and> patch_matches p work"
  by (auto simp: apply_scalar_def elim!: bindP_Inr_E split: option.splits if_splits)

definition update_truth ::
  "'p providers \<Rightarrow> principal \<Rightarrow> protected_update \<Rightarrow> work_grant \<Rightarrow> handle \<Rightarrow> string \<Rightarrow> guard_outcome \<Rightarrow> bool" where
  "update_truth pvs pr req g h q out =
     (case go_effect out of
        Applied \<Rightarrow> \<exists>work. pw_canonical work \<and> patch_matches (pu_patch req) work
          \<and> out = update_applied pr req (wg_id g) (wg_version g) (h_provider h) (h_provider_work_id h)
                    q (Some work)
      | Not_sent \<Rightarrow> \<exists>pv x f x'. pvs (h_provider h) = Some pv
          \<and> pv_update pv (h_provider_work_id h) (pu_patch req) x = (Inl (ProviderError f), x')
      | Effect_unknown \<Rightarrow> True)"

lemma update_send_truth:
  assumes "update_send pvs pr req g (h_provider h) (h_provider_work_id h) q w = (Inr out, w')"
  shows "update_truth pvs pr req g h q out"
proof -
  let ?gid = "h_provider_work_id h"
  from assms obtain pv where pv: "pvs (h_provider h) = Some pv" and valid: "valid_patch (pu_patch req)"
    by (auto simp: update_send_def to_work_patch_def bindP_Pair split: option.splits if_splits)
  have conf: "update_truth pvs pr req g h q
      (update_applied pr req (wg_id g) (wg_version g) (h_provider h) ?gid q work)"
    if "apply_scalar pv ?gid (pu_patch req) b v = (Inr work, v')" for b v v' work
    using apply_scalar_confirmed that
    by (cases work) (auto simp: update_truth_def update_applied_def, blast)
  obtain r1 w1 where ap: "apply_scalar pv ?gid (pu_patch req) True w = (r1, w1)" by fastforce
  show ?thesis
  proof (cases r1)
    case (Inr work)
    with assms pv valid ap conf [of True w work w1] show ?thesis
      by (simp add: update_send_def to_work_patch_def bindP_Pair catchP_def)
  next
    case (Inl e)
    show ?thesis
    proof (cases "e = UnknownEffect")
      case True
      with Inl assms pv valid ap conf [of False w1] show ?thesis
        by (auto simp: update_send_def to_work_patch_def bindP_Pair catchP_def
            split: prod.splits sum.splits)
    next
      case False
      with Inl assms pv valid ap apply_scalar_run(4) [OF ap] show ?thesis
        by (cases e)
           (auto simp: update_send_def to_work_patch_def bindP_Pair catchP_def update_truth_def, blast)
    qed
  qed
qed


section \<open>Patches that can never be reconciled\<close>


section \<open>Concrete histories\<close>

definition demo_request :: protected_update where
  "demo_request = \<lparr>pu_operation_id = 7, pu_work_id = 10, pu_grant_version = 1,
     pu_observed_revision = ''r1'', pu_patch = (\<lambda>_. None)(Title := Some (Some (Text ''new''))),
     pu_confirm_cancels_review = False\<rparr>"

definition demo_gateway_world :: "provider_work world" where
  "demo_gateway_world =
     demo_world\<lparr>w_grants := \<lparr>gdb_grants = [(''alice'', Some demo_grant)], gdb_intents = []\<rparr>\<rparr>"

lemmas gateway_simps = gateway_update_def run_update_or_relation_def effect_new_def effect_history_def
  effect_send_def effect_except_def effect_caught_def update_prepare_def update_send_def
  update_reconcile_def update_guard_def update_applied_def update_request_of_def to_work_patch_def
  intent_text_def grants_read_def grants_write_def now_utc_def
  update_fingerprint_def gs_current_def read_grant_def exact_def previous_def prepare_def finish_def
  record_of_row_def read_outcome_def intent_row_def str_opt_uuid_def

lemma demo_grant_facts:
  "valid_grant demo_grant" "wg_principal demo_grant = demo_principal" "grant_current 0 demo_grant"
  "grant_can_write demo_grant 10" "wg_operations demo_grant = {Work_get, Work_update, Work_relate}"
  "wg_version demo_grant = 1" "wg_update_qualification demo_grant = Some ''real:u''"
  "pr_subject demo_principal = ''alice''" "pr_assurance demo_principal = Authenticated"
  "\<not> starts_with ''real:u'' ''test:''"
  by (simp_all add: demo_grant_def demo_principal_def valid_grant_def valid_principal_def
      bounded_authority_def opt_min1_def grant_current_def grant_can_write_def starts_with_def)

lemma demo_patch_facts:
  "valid_patch (pu_patch demo_request)" "\<not> valid_patch ((\<lambda>_. None)(Review_next_action := Some (Some (Text ''go''))))"
  "valid_scalar_patch ((\<lambda>_. None)(Review_next_action := Some (Some (Text ''go''))))"
  by (simp_all add: demo_request_def valid_patch_def valid_scalar_patch_def fields_typed_def
      fields_set_def work_fields_def patch_get_def root_text_ok_def text_of_def)

lemma demo_gateway_run:
  "\<exists>out w'. gateway_update pr_subject (\<lambda>_. ''fp'') demo_providers demo_principal demo_request demo_gateway_world
     = (Inr out, w') \<and> go_effect out = Applied \<and> w_sends w' = [Sent_update ''42'' (pu_patch demo_request)]"
  using demo_patch_facts(1)
  by (simp add: gateway_simps run_simps demo_simps demo_request_def demo_gateway_world_def
      demo_grant_facts)

text \<open>A world whose journal holds one entry.\<close>

definition demo_row :: "guard_outcome \<Rightarrow> effect_row" where
  "demo_row out = intent_row pr_subject (JObj []) demo_grant ''fp'' demo_unknown\<lparr>ei_outcome := out\<rparr>"

definition demo_recorded :: "guard_outcome \<Rightarrow> provider_work world" where
  "demo_recorded out = demo_gateway_world\<lparr>w_grants :=
     \<lparr>gdb_grants = [(''alice'', Some demo_grant)], gdb_intents = [demo_row out]\<rparr>\<rparr>"

lemma demo_row_op: "ei_operation_id (demo_row out) = uuid_str 7"
  "ei_work_id (demo_row out) = uuid_str 10" "ei_outcome (demo_row out) = out"
  by (simp_all add: demo_row_def intent_row_def demo_unknown_def str_opt_uuid_def)

lemma demo_recorded_entry: "journal_entry (w_grants (demo_recorded out)) (uuid_str 7) = Some (demo_row out)"
  by (simp add: demo_recorded_def journal_entry_def demo_row_op)

lemma demo_recorded_exact:
  assumes "exact_receipt out"
  shows "\<exists>rec. exact 7 (w_grants (demo_recorded out)) = Inr (Some rec) \<and> er_outcome rec = out"
  using assms
  by (simp add: demo_recorded_def exact_def demo_row_op record_of_row_def read_outcome_def)
     (simp add: demo_row_def intent_row_def read_outcome_def)


theorem unresolved_effect_blocks_target_witness:
  "\<exists>w'. run_call pr_subject (\<lambda>_. ''fp'') demo_providers
       (Call_update demo_principal (demo_request\<lparr>pu_operation_id := 8\<rparr>)) (demo_recorded demo_unknown)
       = w' \<and> w_sends (snd w') = [] \<and> w_grants (snd w') = w_grants (demo_recorded demo_unknown)"
proof -
  let ?c = "Call_update demo_principal (demo_request\<lparr>pu_operation_id := 8\<rparr>)"
  have unres: "unresolved_on (call_op ?c) (call_work ?c) (w_grants (demo_recorded demo_unknown))"
    by (simp add: unresolved_on_def demo_recorded_def demo_row_op demo_request_def demo_unknown_def)
  have fresh: "journal_entry (w_grants (demo_recorded demo_unknown)) (uuid_str (call_op ?c)) = None"
    by (simp add: demo_recorded_def journal_entry_def demo_row_op)
  obtain r w' where run: "run_call pr_subject (\<lambda>_. ''fp'') demo_providers ?c (demo_recorded demo_unknown) = (r, w')"
    by fastforce
  from unresolved_effect_blocks_target [OF unres fresh run] run show ?thesis
    by (simp add: demo_recorded_def demo_gateway_world_def demo_world_def)
qed

theorem settled_update_replays_witness:
  "\<exists>res w'. gateway_update pr_subject (\<lambda>_. ''fp'') demo_providers demo_principal demo_request
      (demo_recorded demo_denied) = (res, w') \<and> w_sends w' = []
    \<and> w_grants w' = w_grants (demo_recorded demo_denied)"
proof -
  have "exact_receipt demo_denied" by (simp add: exact_receipt_def demo_denied_def demo_unknown_def)
  from demo_recorded_exact [OF this] obtain rec where
    rec: "exact (pu_operation_id demo_request) (w_grants (demo_recorded demo_denied)) = Inr (Some rec)"
    "er_outcome rec = demo_denied" by (auto simp: demo_request_def)
  have settled: "go_effect (er_outcome rec) \<noteq> Effect_unknown"
    by (simp add: rec(2) demo_denied_def)
  obtain res w' where run: "gateway_update pr_subject (\<lambda>_. ''fp'') demo_providers demo_principal
      demo_request (demo_recorded demo_denied) = (res, w')" by fastforce
  from settled_update_replays [OF rec(1) settled run] run show ?thesis
    by (simp add: demo_recorded_def demo_gateway_world_def demo_world_def)
qed



end
