(* ===== verification/Work_Policy.thy ===== *)
theory Work_Policy
  imports Contracts
begin

text \<open>
  The resultant-state policy for canonical work (\<open>src/switchstand/tracker/policy.py\<close>): what a
  semantic write, restricted to the fields it affects, and a creation may leave behind. A
  validator raises \<open>ValueError\<close> or returns nothing.
\<close>

section \<open>Operations\<close>

record semantic_state =
  ss_lifecycle_state :: "string option"
  ss_canonical_root :: "string option"
  ss_owner_key :: "string option"
  ss_wait_kind :: "string option"
  ss_unblock_condition :: "string option"
  ss_next_due :: "string option"
  ss_next_action_class :: "string option"
  ss_next_action_ref :: "string option"
  ss_completed :: "bool option"

definition SEMANTIC_FIELDS :: "work_field set" where
  "SEMANTIC_FIELDS = {Completed, Priority, Work_type, Lifecycle_state, Canonical_root, Owner_key,
     Wait_kind, Unblock_condition, Next_due, Next_action_class, Next_action_ref}"

abbreviation NONE :: "string option" where
  "NONE \<equiv> Some ''NONE''"

abbreviation UNKNOWN :: "string option" where
  "UNKNOWN \<equiv> Some ''UNKNOWN''"

text \<open>\<open>bool(value)\<close> of an optional string.\<close>

definition truthy :: "string option \<Rightarrow> bool" where
  "truthy v = (v \<noteq> None \<and> v \<noteq> Some [])"

definition exact_value :: "string option \<Rightarrow> bool" where
  "exact_value v = (truthy v \<and> v \<noteq> NONE \<and> v \<noteq> UNKNOWN)"

definition root_value :: "string option \<Rightarrow> bool" where
  "root_value v =
     (v = NONE \<or> v = UNKNOWN
      \<or> (case v of None \<Rightarrow> False
         | Some s \<Rightarrow> (case py_uuid s of None \<Rightarrow> False | Some u \<Rightarrow> s = uuid_str u)))"

abbreviation state_action :: "semantic_state \<Rightarrow> string option \<times> string option" where
  "state_action s \<equiv> (ss_next_action_class s, ss_next_action_ref s)"

abbreviation state_waits :: "semantic_state \<Rightarrow> string option \<times> string option \<times> string option" where
  "state_waits s \<equiv> (ss_wait_kind s, ss_unblock_condition s, ss_next_due s)"

definition validate_resultant_state :: "work_field set \<Rightarrow> semantic_state \<Rightarrow> unit py_result" where
  "validate_resultant_state affected s =
     (let transition = affected \<inter> {Completed, Lifecycle_state} \<noteq> {};
          waits = transition \<or> affected \<inter> {Wait_kind, Unblock_condition, Next_due} \<noteq> {};
          actions = waits \<or> affected \<inter> {Next_action_class, Next_action_ref} \<noteq> {};
          lifecycle = ss_lifecycle_state s;
          action = state_action s
      in if (waits \<or> actions) \<and> lifecycle \<notin> Some ` set lifecycle_states then Inl ValueError
         else if Canonical_root \<in> affected \<and> \<not> root_value (ss_canonical_root s) then Inl ValueError
         else if Owner_key \<in> affected \<and> \<not> truthy (ss_owner_key s) then Inl ValueError
         else if transition \<and> ss_completed s \<noteq> None
                 \<and> ss_completed s \<noteq> Some (lifecycle = Some ''TERMINAL'') then Inl ValueError
         else if actions \<and> action \<notin> {(NONE, NONE), (UNKNOWN, UNKNOWN)}
                 \<and> \<not> (exact_value (fst action) \<and> exact_value (snd action)) then Inl ValueError
         else if actions \<and> lifecycle \<in> {Some ''WAITING'', Some ''DEFERRED'', Some ''TERMINAL''}
                 \<and> action \<noteq> (NONE, NONE) then Inl ValueError
         else if \<not> waits then Inr ()
         else if lifecycle = Some ''CURRENT''
         then (if state_waits s \<noteq> (NONE, NONE, NONE) then Inl ValueError else Inr ())
         else if lifecycle = Some ''WAITING'' \<or> lifecycle = Some ''DEFERRED''
         then (if \<not> exact_value (ss_wait_kind s) \<or> \<not> exact_value (ss_unblock_condition s)
               then Inl ValueError
               else if action \<noteq> (NONE, NONE) then Inl ValueError
               else if \<not> truthy (ss_next_due s) then Inl ValueError
               else Inr ())
         else if lifecycle = Some ''TERMINAL''
         then (if state_waits s \<noteq> (NONE, NONE, NONE) then Inl ValueError
               else if action \<noteq> (NONE, NONE) then Inl ValueError
               else Inr ())
         else if \<not> (truthy (ss_wait_kind s) \<and> truthy (ss_unblock_condition s) \<and> truthy (ss_next_due s))
         then Inl ValueError
         else Inr ())"

definition CODEX_COORDINATOR_NAME :: string where
  "CODEX_COORDINATOR_NAME = ''Codex Coordinator''"

definition capture_shape :: "string option \<Rightarrow> semantic_state \<Rightarrow> bool" where
  "capture_shape work_type s =
     ((work_type, ss_lifecycle_state s, ss_owner_key s, ss_wait_kind s, ss_unblock_condition s,
       ss_next_due s, ss_next_action_class s, ss_next_action_ref s)
      = (Some ''Task'', Some ''WAITING'', NONE, Some ''TRIAGE'', Some ''ASSIGNMENT_REQUIRED'',
         Some ''UNSCHEDULED'', NONE, NONE))"

definition report_types :: "string option set" where
  "report_types = {Some ''BUG'', Some ''PRODUCT_FEATURE'', Some ''PROCESS'', Some ''PERFORMANCE'',
     Some ''HUMAN_REVIEW_FEEDBACK'', Some ''FORK_MANAGEMENT''}"

text \<open>\<open>validate_create_state\<close>; a creation has no \<open>completed\<close> value to compare.\<close>

definition validate_create_state ::
  "bool \<Rightarrow> string option \<Rightarrow> semantic_state \<Rightarrow> unit py_result" where
  "validate_create_state parented work_type s =
     bindE (validate_resultant_state SEMANTIC_FIELDS (s\<lparr>ss_completed := None\<rparr>)) (\<lambda>_.
     if ss_canonical_root s \<in> {None, NONE, UNKNOWN} then Inl ValueError
     else if capture_shape work_type s then Inr ()
     else if \<not> parented \<and> work_type \<in> report_types \<and> ss_owner_key s = NONE
     then (if ss_lifecycle_state s \<noteq> Some ''WAITING''
              \<or> state_waits s \<noteq> (Some ''TRIAGE'', Some ''TRIAGE_PICKUP'', Some ''UNSCHEDULED'')
              \<or> state_action s \<noteq> (NONE, NONE) then Inl ValueError else Inr ())
     else if parented \<and> work_type = Some ''Evidence'' \<and> ss_owner_key s = NONE
     then (if ss_lifecycle_state s \<noteq> Some ''CURRENT'' \<or> state_waits s \<noteq> (NONE, NONE, NONE)
              \<or> state_action s \<noteq> (NONE, NONE) then Inl ValueError else Inr ())
     else if work_type \<in> {None, UNKNOWN} then Inl ValueError
     else if ss_lifecycle_state s \<notin> {Some ''CURRENT'', Some ''WAITING'', Some ''DEFERRED''}
     then Inl ValueError
     else if ss_owner_key s = None \<or> \<not> exact_value (ss_owner_key s)
             \<or> (ss_owner_key s \<noteq> Some CODEX_COORDINATOR_NAME
                \<and> \<not> starts_with (the (ss_owner_key s)) ''agent:'') then Inl ValueError
     else if ss_lifecycle_state s = Some ''CURRENT''
     then (if state_waits s \<noteq> (NONE, NONE, NONE) then Inl ValueError
           else if \<not> (exact_value (ss_next_action_class s) \<and> exact_value (ss_next_action_ref s))
           then Inl ValueError else Inr ())
     else if state_action s \<noteq> (NONE, NONE)
             \<or> \<not> (exact_value (ss_wait_kind s) \<and> exact_value (ss_unblock_condition s)
                  \<and> exact_value (ss_next_due s)) then Inl ValueError
     else Inr ())"

section \<open>The contract behind the policy\<close>

text \<open>
  The coherence a work item promises, said once: a waiting or deferred item says exactly what it
  waits for and until when and carries no action, a current or terminal one waits for nothing,
  and only current or unknown items carry an action, which is two exact values or a pair of
  equal sentinels.
\<close>

definition coherent_actions :: "semantic_state \<Rightarrow> bool" where
  "coherent_actions s =
     (case ss_lifecycle_state s of
        None \<Rightarrow> False
      | Some l \<Rightarrow> l \<in> set lifecycle_states
          \<and> (if l \<in> {''WAITING'', ''DEFERRED'', ''TERMINAL''} then state_action s = (NONE, NONE)
             else state_action s \<in> {(NONE, NONE), (UNKNOWN, UNKNOWN)}
                  \<or> exact_value (ss_next_action_class s) \<and> exact_value (ss_next_action_ref s)))"

definition coherent_waits :: "semantic_state \<Rightarrow> bool" where
  "coherent_waits s =
     (case ss_lifecycle_state s of
        None \<Rightarrow> False
      | Some l \<Rightarrow>
          if l \<in> {''CURRENT'', ''TERMINAL''} then state_waits s = (NONE, NONE, NONE)
          else if l \<in> {''WAITING'', ''DEFERRED''}
          then exact_value (ss_wait_kind s) \<and> exact_value (ss_unblock_condition s) \<and> truthy (ss_next_due s)
          else truthy (ss_wait_kind s) \<and> truthy (ss_unblock_condition s) \<and> truthy (ss_next_due s))"

definition coherent_completion :: "semantic_state \<Rightarrow> bool" where
  "coherent_completion s =
     (case ss_completed s of None \<Rightarrow> True | Some c \<Rightarrow> c = (ss_lifecycle_state s = Some ''TERMINAL''))"

definition coherent_state :: "semantic_state \<Rightarrow> bool" where
  "coherent_state s =
     (coherent_actions s \<and> coherent_waits s \<and> coherent_completion s
      \<and> root_value (ss_canonical_root s) \<and> truthy (ss_owner_key s))"

text \<open>The part of the contract a write of the given fields is answerable for.\<close>

definition coherent_for :: "work_field set \<Rightarrow> semantic_state \<Rightarrow> bool" where
  "coherent_for affected s =
     ((affected \<inter> {Completed, Lifecycle_state} \<noteq> {} \<longrightarrow> coherent_completion s)
      \<and> (affected \<inter> {Completed, Lifecycle_state, Wait_kind, Unblock_condition, Next_due} \<noteq> {}
           \<longrightarrow> coherent_waits s)
      \<and> (affected \<inter> {Completed, Lifecycle_state, Wait_kind, Unblock_condition, Next_due,
                       Next_action_class, Next_action_ref} \<noteq> {} \<longrightarrow> coherent_actions s)
      \<and> (Canonical_root \<in> affected \<longrightarrow> root_value (ss_canonical_root s))
      \<and> (Owner_key \<in> affected \<longrightarrow> truthy (ss_owner_key s)))"

lemma if_raise: "((if b then Inl e else r) = Inr x) = (\<not> b \<and> r = Inr x)"
  by simp

lemma touches_insert: "(S \<inter> insert a T \<noteq> {}) = (a \<in> S \<or> S \<inter> T \<noteq> {})"
  by blast

lemma lifecycle_cases:
  obtains (none) "l \<notin> Some ` set lifecycle_states" | (current) "l = Some ''CURRENT''"
    | (waiting) "l = Some ''WAITING''" | (deferred) "l = Some ''DEFERRED''"
    | (terminal) "l = Some ''TERMINAL''" | (unknown) "l = Some ''UNKNOWN''"
proof (cases "l \<in> Some ` set lifecycle_states")
  case True
  then obtain x where "l = Some x" "x \<in> set lifecycle_states" by (rule imageE)
  then show ?thesis
    unfolding lifecycle_states_def set_simps insert_iff empty_iff
    using that(2-6) by (elim disjE) (simp_all only: simp_thms)
qed (rule none)

lemma coherent_outside:
  "ss_lifecycle_state s \<notin> Some ` set lifecycle_states \<Longrightarrow> \<not> coherent_actions s"
  by (cases "ss_lifecycle_state s") (simp_all add: coherent_actions_def image_iff)

lemma lifecycle_in:
  "Some ''CURRENT'' \<in> Some ` set lifecycle_states" "Some ''WAITING'' \<in> Some ` set lifecycle_states"
  "Some ''DEFERRED'' \<in> Some ` set lifecycle_states" "Some ''TERMINAL'' \<in> Some ` set lifecycle_states"
  "Some ''UNKNOWN'' \<in> Some ` set lifecycle_states"
  by (simp_all add: lifecycle_states_def)

lemma coherent_current:
  assumes "ss_lifecycle_state s = Some ''CURRENT''"
  shows "coherent_waits s = (state_waits s = (NONE, NONE, NONE))"
    and "coherent_actions s = (state_action s \<in> {(NONE, NONE), (UNKNOWN, UNKNOWN)}
           \<or> exact_value (ss_next_action_class s) \<and> exact_value (ss_next_action_ref s))"
  by (simp_all add: assms coherent_waits_def coherent_actions_def lifecycle_states_def)

lemma coherent_unknown:
  assumes "ss_lifecycle_state s = Some ''UNKNOWN''"
  shows "coherent_waits s = (truthy (ss_wait_kind s) \<and> truthy (ss_unblock_condition s) \<and> truthy (ss_next_due s))"
    and "coherent_actions s = (state_action s \<in> {(NONE, NONE), (UNKNOWN, UNKNOWN)}
           \<or> exact_value (ss_next_action_class s) \<and> exact_value (ss_next_action_ref s))"
  by (simp_all add: assms coherent_waits_def coherent_actions_def lifecycle_states_def)

lemma coherent_terminal:
  assumes "ss_lifecycle_state s = Some ''TERMINAL''"
  shows "coherent_waits s = (state_waits s = (NONE, NONE, NONE))"
    and "coherent_actions s = (state_action s = (NONE, NONE))"
  by (simp_all add: assms coherent_waits_def coherent_actions_def lifecycle_states_def)

lemma coherent_waiting:
  assumes "ss_lifecycle_state s = Some ''WAITING'' \<or> ss_lifecycle_state s = Some ''DEFERRED''"
  shows "coherent_waits s = (exact_value (ss_wait_kind s) \<and> exact_value (ss_unblock_condition s) \<and> truthy (ss_next_due s))"
    and "coherent_actions s = (state_action s = (NONE, NONE))"
  using assms by (auto simp: coherent_waits_def coherent_actions_def lifecycle_states_def)

lemma coherent_completion_iff:
  "coherent_completion s
     \<longleftrightarrow> \<not> (ss_completed s \<noteq> None \<and> ss_completed s \<noteq> Some (ss_lifecycle_state s = Some ''TERMINAL''))"
  by (cases "ss_completed s") (auto simp: coherent_completion_def)

text \<open>The policy accepts exactly the writes whose part of the contract holds.\<close>

lemma validate_iff: "validate_resultant_state affected s = Inr () \<longleftrightarrow> coherent_for affected s"
proof -
  have sets: "(affected \<inter> {Completed, Lifecycle_state, Wait_kind, Unblock_condition, Next_due} \<noteq> {})
      = (affected \<inter> {Completed, Lifecycle_state} \<noteq> {} \<or> affected \<inter> {Wait_kind, Unblock_condition, Next_due} \<noteq> {})"
    "(affected \<inter> {Completed, Lifecycle_state, Wait_kind, Unblock_condition, Next_due,
                       Next_action_class, Next_action_ref} \<noteq> {})
      = (affected \<inter> {Completed, Lifecycle_state} \<noteq> {} \<or> affected \<inter> {Wait_kind, Unblock_condition, Next_due} \<noteq> {}
         \<or> affected \<inter> {Next_action_class, Next_action_ref} \<noteq> {})"
    by (simp_all only: touches_insert Int_empty_right simp_thms disj_assoc)
  obtain tr wt ac where ab: "tr = (affected \<inter> {Completed, Lifecycle_state} \<noteq> {})"
    "wt = (affected \<inter> {Wait_kind, Unblock_condition, Next_due} \<noteq> {})"
    "ac = (affected \<inter> {Next_action_class, Next_action_ref} \<noteq> {})" by blast
  note unf = validate_resultant_state_def coherent_for_def sets Let_def if_raise coherent_completion_iff
    ab [symmetric]
  show ?thesis
  proof (cases "ss_lifecycle_state s" rule: lifecycle_cases)
    case none
    show ?thesis unfolding unf using coherent_outside [OF none] none
      by (cases tr; cases wt; cases ac) simp_all
  next
    case current
    show ?thesis unfolding unf coherent_current [OF current] using current lifecycle_in(1)
      by (cases tr; cases wt; cases ac) auto
  next
    case waiting
    show ?thesis unfolding unf coherent_waiting [OF disjI1 [OF waiting]] using waiting lifecycle_in(2)
      by (cases tr; cases wt; cases ac) auto
  next
    case deferred
    show ?thesis unfolding unf coherent_waiting [OF disjI2 [OF deferred]] using deferred lifecycle_in(3)
      by (cases tr; cases wt; cases ac) auto
  next
    case terminal
    show ?thesis unfolding unf coherent_terminal [OF terminal] using terminal lifecycle_in(4)
      by (cases tr; cases wt; cases ac) auto
  next
    case unknown
    show ?thesis unfolding unf coherent_unknown [OF unknown] using unknown lifecycle_in(5)
      by (cases tr; cases wt; cases ac) auto
  qed
qed

section \<open>Incremental writes\<close>

text \<open>The value a state holds for a semantic field; the policy has no say over the others.\<close>

fun state_field :: "semantic_state \<Rightarrow> work_field \<Rightarrow> string option \<times> bool option" where
  "state_field s Lifecycle_state = (ss_lifecycle_state s, None)"
| "state_field s Canonical_root = (ss_canonical_root s, None)"
| "state_field s Owner_key = (ss_owner_key s, None)"
| "state_field s Wait_kind = (ss_wait_kind s, None)"
| "state_field s Unblock_condition = (ss_unblock_condition s, None)"
| "state_field s Next_due = (ss_next_due s, None)"
| "state_field s Next_action_class = (ss_next_action_class s, None)"
| "state_field s Next_action_ref = (ss_next_action_ref s, None)"
| "state_field s Completed = (None, ss_completed s)"
| "state_field s _ = (None, None)"

lemma untouched_completion:
  assumes "\<forall>f. f \<notin> affected \<longrightarrow> state_field s' f = state_field s f"
    and "\<not> affected \<inter> {Completed, Lifecycle_state} \<noteq> {}" and "coherent_completion s"
  shows "coherent_completion s'"
  using assms(1) [rule_format, of Completed] assms(1) [rule_format, of Lifecycle_state] assms(2,3)
  by (cases "ss_completed s") (simp_all add: coherent_completion_def)

lemma untouched_waits:
  assumes "\<forall>f. f \<notin> affected \<longrightarrow> state_field s' f = state_field s f"
    and "\<not> affected \<inter> {Completed, Lifecycle_state, Wait_kind, Unblock_condition, Next_due} \<noteq> {}"
    and "coherent_waits s"
  shows "coherent_waits s'"
  using assms(1) [rule_format, of Lifecycle_state] assms(1) [rule_format, of Wait_kind]
    assms(1) [rule_format, of Unblock_condition] assms(1) [rule_format, of Next_due] assms(2,3)
  unfolding coherent_waits_def by (cases "ss_lifecycle_state s") simp_all

lemma untouched_actions:
  assumes "\<forall>f. f \<notin> affected \<longrightarrow> state_field s' f = state_field s f"
    and "\<not> affected \<inter> {Completed, Lifecycle_state, Wait_kind, Unblock_condition, Next_due,
                       Next_action_class, Next_action_ref} \<noteq> {}"
    and "coherent_actions s"
  shows "coherent_actions s'"
  using assms(1) [rule_format, of Lifecycle_state] assms(1) [rule_format, of Next_action_class]
    assms(1) [rule_format, of Next_action_ref] assms(2,3)
  unfolding coherent_actions_def by (cases "ss_lifecycle_state s") (auto split: if_splits)

text \<open>An accepted write of some fields leaves the whole contract kept.\<close>

lemma incremental_coherent:
  assumes "coherent_state s" and "\<forall>f. f \<notin> affected \<longrightarrow> state_field s' f = state_field s f"
    and "validate_resultant_state affected s' = Inr ()"
  shows "coherent_state s'"
proof -
  have cf: "coherent_for affected s'" using assms(3) by (simp only: validate_iff)
  have "root_value (ss_canonical_root s')"
    using cf assms(1) assms(2) [rule_format, of Canonical_root]
    by (cases "Canonical_root \<in> affected") (simp_all add: coherent_for_def coherent_state_def)
  moreover have "truthy (ss_owner_key s')"
    using cf assms(1) assms(2) [rule_format, of Owner_key]
    by (cases "Owner_key \<in> affected") (simp_all add: coherent_for_def coherent_state_def)
  ultimately show ?thesis
    using cf assms(1) untouched_completion [OF assms(2)] untouched_waits [OF assms(2)]
      untouched_actions [OF assms(2)]
    unfolding coherent_for_def coherent_state_def by blast
qed

text \<open>
  C26. Checking only what a write affects is enough: if the stored state keeps the whole contract,
  the new state differs from it at most in the affected fields, and the policy accepts the new
  state for those fields, then the new state keeps the whole contract. A write that names
  every semantic field is accepted exactly when its state keeps the contract.
\<close>

theorem incremental_policy_sound:
  assumes "coherent_state s" and "\<forall>f. f \<notin> affected \<longrightarrow> state_field s' f = state_field s f"
    and "validate_resultant_state affected s' = Inr ()"
  shows "coherent_state s'
    \<and> (validate_resultant_state SEMANTIC_FIELDS s' = Inr () \<longleftrightarrow> coherent_state s')"
  using incremental_coherent [OF assms]
  by (simp add: validate_iff coherent_for_def coherent_state_def SEMANTIC_FIELDS_def)

definition demo_state :: semantic_state where
  "demo_state = \<lparr>ss_lifecycle_state = Some ''CURRENT'', ss_canonical_root = NONE,
     ss_owner_key = Some ''agent:a'', ss_wait_kind = NONE, ss_unblock_condition = NONE,
     ss_next_due = NONE, ss_next_action_class = NONE, ss_next_action_ref = NONE,
     ss_completed = Some False\<rparr>"

lemmas policy_simps = coherent_state_def coherent_actions_def coherent_waits_def
  coherent_completion_def coherent_for_def root_value_def truthy_def exact_value_def
  lifecycle_states_def

theorem incremental_policy_sound_witness:
  "coherent_state (demo_state\<lparr>ss_next_action_class := Some ''OWNER'', ss_next_action_ref := Some ''x''\<rparr>)"
proof -
  let ?s' = "demo_state\<lparr>ss_next_action_class := Some ''OWNER'', ss_next_action_ref := Some ''x''\<rparr>"
  let ?a = "{Next_action_class, Next_action_ref}"
  have s: "coherent_state demo_state" by (simp add: policy_simps demo_state_def)
  have "state_field ?s' f = state_field demo_state f" if "f \<notin> ?a" for f
    using that by (cases f) simp_all
  then have diff: "\<forall>f. f \<notin> ?a \<longrightarrow> state_field ?s' f = state_field demo_state f" by blast
  have "validate_resultant_state ?a ?s' = Inr ()"
    by (simp add: validate_iff policy_simps demo_state_def)
  from incremental_policy_sound [OF s diff this] show ?thesis ..
qed

section \<open>Creation\<close>

text \<open>
  What a creation may leave behind: always a coherent state under an exact root, and
  exactly one of the four shapes: an untriaged capture, an ownerless report that waits for
  triage, inert evidence under a parent, or substantive work owned by an agent with either an
  exact next action (current) or an exact wait.
\<close>

theorem created_state_shapes:
  assumes "validate_create_state parented work_type s = Inr ()"
  shows "coherent_state (s\<lparr>ss_completed := None\<rparr>)
    \<and> (\<exists>u. ss_canonical_root s = Some (uuid_str u))
    \<and> (capture_shape work_type s
       \<or> (\<not> parented \<and> work_type \<in> report_types \<and> ss_owner_key s = NONE
          \<and> ss_lifecycle_state s = Some ''WAITING''
          \<and> state_waits s = (Some ''TRIAGE'', Some ''TRIAGE_PICKUP'', Some ''UNSCHEDULED''))
       \<or> (parented \<and> work_type = Some ''Evidence'' \<and> ss_owner_key s = NONE
          \<and> ss_lifecycle_state s = Some ''CURRENT'' \<and> state_action s = (NONE, NONE))
       \<or> (\<exists>key. ss_owner_key s = Some key \<and> (key = CODEX_COORDINATOR_NAME \<or> starts_with key ''agent:'')
          \<and> (ss_lifecycle_state s = Some ''CURRENT'' \<and> exact_value (ss_next_action_class s)
                \<and> exact_value (ss_next_action_ref s)
             \<or> ss_lifecycle_state s \<in> {Some ''WAITING'', Some ''DEFERRED''}
                \<and> exact_value (ss_wait_kind s) \<and> exact_value (ss_unblock_condition s)
                \<and> exact_value (ss_next_due s))))"
proof (intro conjI)
  from assms have v: "validate_resultant_state SEMANTIC_FIELDS (s\<lparr>ss_completed := None\<rparr>) = Inr ()"
    and root: "ss_canonical_root s \<notin> {None, NONE, UNKNOWN}"
    unfolding validate_create_state_def bindE_eq_Inr if_raise by auto
  then show coh: "coherent_state (s\<lparr>ss_completed := None\<rparr>)"
    by (simp add: validate_iff coherent_for_def coherent_state_def SEMANTIC_FIELDS_def)
  then have "root_value (ss_canonical_root s)" by (simp add: coherent_state_def)
  with root show "\<exists>u. ss_canonical_root s = Some (uuid_str u)"
    by (auto simp: root_value_def split: option.splits)
qed (insert assms, unfold validate_create_state_def bindE_eq_Inr if_raise,
    auto simp: exact_value_def split: if_splits)

theorem created_state_shapes_witness:
  "coherent_state ((demo_state\<lparr>ss_canonical_root := Some (uuid_str 3), ss_next_action_class := Some ''OWNER'',
     ss_next_action_ref := Some ''x''\<rparr>)\<lparr>ss_completed := None\<rparr>)"
proof -
  let ?s = "demo_state\<lparr>ss_canonical_root := Some (uuid_str 3), ss_next_action_class := Some ''OWNER'',
     ss_next_action_ref := Some ''x''\<rparr>"
  have root: "uuid_str 3 \<noteq> ''NONE''" "uuid_str 3 \<noteq> ''UNKNOWN''"
    by (auto dest: arg_cong [of _ _ length])
  have v: "validate_resultant_state SEMANTIC_FIELDS (?s\<lparr>ss_completed := None\<rparr>) = Inr ()"
    by (simp add: validate_iff policy_simps demo_state_def)
  have "validate_create_state False (Some ''Task'') ?s = Inr ()"
    unfolding validate_create_state_def v bindE_simps
    using root by (simp add: demo_state_def capture_shape_def report_types_def starts_with_def
        truthy_def exact_value_def)
  from created_state_shapes [OF this] show ?thesis ..
qed

end
