(* ===== verification/Paged_Source.thy ===== *)
theory Paged_Source
  imports Switch_Prelude
begin

text \<open>
  Keyset pagination, which several reads of the program use: a page holds the next \<open>limit\<close> rows
  in key order, and its cursor the key of its last row. The contract is the locale; its lemma
  says that following the cursors visits every row once, in order, and ends. Interpreted by
  \<open>Work_Store\<close> (search), \<open>Work_Events\<close> (history) and \<open>Message_Reads\<close> (inbox).
\<close>

locale paged_source =
  fixes wf :: "'s \<Rightarrow> bool"
    and fetch :: "'s \<Rightarrow> 'c option \<Rightarrow> ('r list \<times> 'c option) py_result"
    and listing :: "'s \<Rightarrow> 'r list"
    and limit :: nat
    and points_at :: "'s \<Rightarrow> 'c option \<Rightarrow> nat \<Rightarrow> bool"
  assumes start: "wf s \<Longrightarrow> points_at s None 0"
    and limit_pos: "wf s \<Longrightarrow> 0 < limit"
    and fetch_page: "wf s \<Longrightarrow> points_at s c n \<Longrightarrow> n \<le> length (listing s) \<Longrightarrow>
          \<exists>c'. fetch s c = Inr (take limit (drop n (listing s)), c')
            \<and> (c' = None \<longleftrightarrow> length (listing s) \<le> n + limit)
            \<and> (c' \<noteq> None \<longrightarrow> points_at s c' (n + limit))"
begin

text \<open>A client that follows the cursors, with fuel.\<close>

fun collect :: "nat \<Rightarrow> 's \<Rightarrow> 'c option \<Rightarrow> 'r list option" where
  "collect 0 s c = None"
| "collect (Suc fuel) s c =
     (case fetch s c of
        Inl _ \<Rightarrow> None
      | Inr (rows, None) \<Rightarrow> Some rows
      | Inr (rows, Some c') \<Rightarrow> map_option ((@) rows) (collect fuel s (Some c')))"

lemma collect_from:
  assumes "wf s" and "points_at s c n" and "n \<le> length (listing s)" and "length (listing s) - n < fuel"
  shows "collect fuel s c = Some (drop n (listing s))"
  using assms(2-4)
proof (induction fuel arbitrary: c n)
  case 0
  then show ?case by simp
next
  case (Suc fuel)
  from fetch_page [OF assms(1) Suc.prems(1,2)] obtain c' where
    f: "fetch s c = Inr (take limit (drop n (listing s)), c')"
    and none: "c' = None \<longleftrightarrow> length (listing s) \<le> n + limit"
    and at: "c' \<noteq> None \<longrightarrow> points_at s c' (n + limit)"
    by blast
  show ?case
  proof (cases c')
    case None
    with f none show ?thesis by simp
  next
    case (Some d)
    with none have more: "n + limit < length (listing s)" by simp
    have "collect fuel s c' = Some (drop (n + limit) (listing s))"
    proof (rule Suc.IH)
      show "points_at s c' (n + limit)" using at Some by simp
      show "n + limit \<le> length (listing s)" using more by simp
      show "length (listing s) - (n + limit) < fuel"
        using more limit_pos [OF assms(1)] Suc.prems(3) by simp
    qed
    with f Some show ?thesis
      by (simp add: add.commute flip: drop_drop)
  qed
qed

lemma collect_all: "wf s \<Longrightarrow> length (listing s) < fuel \<Longrightarrow> collect fuel s None = Some (listing s)"
  using collect_from [OF _ start, of s fuel] by simp

end

section \<open>Key order\<close>

text \<open>The rows of a query ordered by their key, after a cursor position.\<close>

definition after_key :: "('r \<Rightarrow> 'k::linorder) \<Rightarrow> 'k option \<Rightarrow> 'r list \<Rightarrow> 'r list" where
  "after_key key after rows =
     sort_key key (filter (\<lambda>r. case after of None \<Rightarrow> True | Some k \<Rightarrow> k < key r) rows)"

lemma sort_key_strict:
  assumes "distinct (map key rows)"
  shows "sorted_wrt (\<lambda>a b. key a < key b) (sort_key key rows)"
proof -
  have "sorted (map key (sort_key key rows))" "distinct (map key (sort_key key rows))"
    using assms by (simp_all add: distinct_map)
  then have "sorted_wrt (<) (map key (sort_key key rows))"
    by (simp add: strict_sorted_iff)
  then show ?thesis by (simp add: sorted_wrt_map)
qed

lemma strict_filter_drop:
  assumes "sorted_wrt (\<lambda>a b. key a < key b) xs" and "n < length xs"
  shows "filter (\<lambda>r. key (xs ! n) < (key r :: 'k::linorder)) xs = drop (Suc n) xs"
  using assms
proof (induction xs arbitrary: n)
  case Nil
  then show ?case by simp
next
  case (Cons x xs)
  show ?case
  proof (cases n)
    case 0
    with Cons.prems show ?thesis by (simp add: filter_id_conv)
  next
    case (Suc m)
    with Cons.prems have "key x < key (xs ! m)" "m < length xs" by auto
    then have "\<not> key (xs ! m) < key x" by (blast dest: order.asym)
    with Cons Suc show ?thesis by simp
  qed
qed

lemma after_key_drop:
  assumes "distinct (map key rows)" and "n < length rows"
  shows "after_key key (Some (key (after_key key None rows ! n))) rows = drop (Suc n) (after_key key None rows)"
proof -
  let ?xs = "sort_key key rows"
  have "filter (\<lambda>r. key (?xs ! n) < key r) ?xs = drop (Suc n) ?xs"
    using assms by (intro strict_filter_drop sort_key_strict) simp_all
  then show ?thesis by (simp add: after_key_def filter_sort)
qed

text \<open>One page of a keyed query: at most one row more than the limit is read.\<close>

definition key_page :: "('r \<Rightarrow> 'k::linorder) \<Rightarrow> nat \<Rightarrow> 'k option \<Rightarrow> 'r list \<Rightarrow> 'r list \<times> 'k option" where
  "key_page key limit after rows =
     (let found = take (Suc limit) (after_key key after rows);
          page = take limit found
      in (page, if limit < length found \<and> page \<noteq> [] then Some (key (last page)) else None))"

lemma key_page_at:
  assumes "distinct (map key rows)" and "n \<le> length rows" and "0 < limit"
    and "after = None \<and> n = 0 \<or> 0 < n \<and> after = Some (key (after_key key None rows ! (n - 1)))"
  shows "fst (key_page key limit after rows) = take limit (drop n (after_key key None rows))"
    and "snd (key_page key limit after rows) =
       (if length rows \<le> n + limit then None
        else Some (key (after_key key None rows ! (n + limit - 1))))"
proof -
  let ?xs = "after_key key None rows"
  have len: "length ?xs = length rows" by (simp add: after_key_def)
  have rest: "after_key key after rows = drop n ?xs"
    using assms(4) after_key_drop [OF assms(1), of "n - 1"] assms(2) by (cases n) auto
  show "fst (key_page key limit after rows) = take limit (drop n ?xs)"
    by (simp add: key_page_def rest min_def Let_def)
  have "last (take limit (drop n ?xs)) = ?xs ! (n + limit - 1)" if "\<not> length rows \<le> n + limit"
    using that assms(3) len by (subst last_conv_nth) (auto simp: min_def)
  then show "snd (key_page key limit after rows) =
       (if length rows \<le> n + limit then None else Some (key (?xs ! (n + limit - 1))))"
    using assms(3) len by (auto simp: key_page_def rest min_def Let_def)
qed

end
