(* ===== verification/Work_Store.thy ===== *)
theory Work_Store
  imports Contracts Cas_Register Paged_Source "HOL-Library.Product_Lexorder"
begin

text \<open>
  Canonical current work (\<open>src/switchstand/tracker/work.py\<close>): the tables of the canonical
  database, titles, revisions, search pages, legacy aliases, creation and versioned replacement.
  Unicode normalisation (\<open>NFKC\<close> and \<open>casefold\<close>), digests, and the text form of a cursor
  (\<open>base64\<close> of JSON) are arguments. A transaction is a function of the tables; the database's
  text order is the order of \<open>string\<close>.
\<close>

section \<open>Tables\<close>

record current_work =
  cw_work_id :: uuid
  cw_title :: string
  cw_completed :: bool
  cw_notes :: string
  cw_row_version :: int
  cw_assignee :: "string option"
  cw_priority :: "string option"
  cw_work_type :: "string option"
  cw_lifecycle_state :: "string option"
  cw_review_next_action :: "string option"
  cw_canonical_root :: "string option"
  cw_owner_key :: "string option"
  cw_wait_kind :: "string option"
  cw_unblock_condition :: "string option"
  cw_next_due :: "string option"
  cw_next_action_class :: "string option"
  cw_next_action_ref :: "string option"
  cw_admitted_at :: "py_datetime option"

record work_row =
  wrow_work :: current_work
  wrow_normalized_title :: string

record stored_event =
  sev_id :: uuid
  sev_work_id :: uuid
  sev_sequence :: int
  sev_result_version :: int
  sev_subtype :: string
  sev_text :: "string option"
  sev_created_at :: py_datetime
  sev_actor :: "string option"
  sev_asana_story_gid :: "string option"
  sev_operation_id :: "uuid option"

record project_row =
  prj_id :: uuid
  prj_asana_gid :: "string option"
  prj_name :: string

record membership_row =
  mem_project_id :: uuid
  mem_work_id :: uuid
  mem_section_name :: "string option"

record canon_db =
  cdb_works :: "work_row list"
  cdb_aliases :: "(string \<times> uuid) list"
  cdb_parents :: "(uuid \<times> uuid) list"
  cdb_deps :: "(uuid \<times> uuid) list"
  cdb_projects :: "project_row list"
  cdb_members :: "membership_row list"
  cdb_events :: "stored_event list"

abbreviation row_id :: "work_row \<Rightarrow> uuid" where
  "row_id r \<equiv> cw_work_id (wrow_work r)"

section \<open>Titles and revisions\<close>

text \<open>\<open>str.split()\<close>: the maximal runs of non-space characters.\<close>

fun py_split_from :: "string \<Rightarrow> string \<Rightarrow> string list" where
  "py_split_from word [] = (if word = [] then [] else [rev word])"
| "py_split_from word (c # cs) =
     (if py_space c then (if word = [] then [] else [rev word]) @ py_split_from [] cs
      else py_split_from (c # word) cs)"

definition py_split :: "string \<Rightarrow> string list" where
  "py_split s = py_split_from [] s"

fun py_join :: "string \<Rightarrow> string list \<Rightarrow> string" where
  "py_join sep [] = []"
| "py_join sep [x] = x"
| "py_join sep (x # y # xs) = x @ sep @ py_join sep (y # xs)"

definition normalize_title :: "(string \<Rightarrow> string) \<Rightarrow> string \<Rightarrow> string py_result" where
  "normalize_title casefold v =
     (if CHR 0x00 \<in> set v then Inl ValueError
      else let n = py_join '' '' (py_split (casefold v)) in if n = [] then Inl ValueError else Inr n)"

definition canonical_revision ::
  "(uuid \<Rightarrow> int \<Rightarrow> string) \<Rightarrow> uuid \<Rightarrow> int \<Rightarrow> string py_result" where
  "canonical_revision digest w version =
     (if version < 1 then Inl ValueError else Inr (''pg_'' @ digest w version))"

section \<open>Reads\<close>

definition work_get_row :: "uuid \<Rightarrow> canon_db \<Rightarrow> current_work option py_result" where
  "work_get_row w db =
     bindE (one_or_none (filter (\<lambda>r. row_id r = w) (cdb_works db)))
       (\<lambda>row. Inr (map_option wrow_work row))"

record work_query =
  wq_text :: "string option"
  wq_completed :: "bool option"
  wq_lifecycle_state :: "string option"
  wq_owner_key :: "string option"
  wq_priority :: "string option"
  wq_work_type :: "string option"
  wq_canonical_root :: "string option"

definition opt_eq :: "'a option \<Rightarrow> 'a option \<Rightarrow> bool" where
  "opt_eq wanted v = (case wanted of None \<Rightarrow> True | Some x \<Rightarrow> v = Some x)"

text \<open>\<open>column.contains(text)\<close>.\<close>

fun contains :: "string \<Rightarrow> string \<Rightarrow> bool" where
  "contains [] p = (p = [])"
| "contains (c # cs) p = (starts_with (c # cs) p \<or> contains cs p)"

definition query_matches :: "string option \<Rightarrow> work_query \<Rightarrow> work_row \<Rightarrow> bool" where
  "query_matches normalized q r =
     ((case normalized of None \<Rightarrow> True | Some t \<Rightarrow> contains (wrow_normalized_title r) t)
      \<and> (case wq_completed q of None \<Rightarrow> True | Some c \<Rightarrow> cw_completed (wrow_work r) = c)
      \<and> opt_eq (wq_lifecycle_state q) (cw_lifecycle_state (wrow_work r))
      \<and> opt_eq (wq_owner_key q) (cw_owner_key (wrow_work r))
      \<and> opt_eq (wq_priority q) (cw_priority (wrow_work r))
      \<and> opt_eq (wq_work_type q) (cw_work_type (wrow_work r))
      \<and> opt_eq (wq_canonical_root q) (cw_canonical_root (wrow_work r)))"

definition page_key :: "work_row \<Rightarrow> string \<times> uuid" where
  "page_key r = (wrow_normalized_title r, row_id r)"

text \<open>The text form of a cursor is given by a pair of functions on JSON values.\<close>

definition encode_cursor :: "(json \<Rightarrow> string) \<Rightarrow> string \<Rightarrow> string \<times> uuid \<Rightarrow> string" where
  "encode_cursor enc criteria k =
     enc (JList [JStr criteria, JStr (fst k), json_uuid (snd k)])"

definition decode_cursor ::
  "(string \<Rightarrow> json option) \<Rightarrow> string \<Rightarrow> string \<Rightarrow> (string \<times> uuid) py_result" where
  "decode_cursor dec cursor criteria =
     (case dec cursor of
        Some (JList [c, JStr t, JStr u]) \<Rightarrow>
          if c \<noteq> JStr criteria then Inl ValueError
          else (case py_uuid u of None \<Rightarrow> Inl ValueError | Some w \<Rightarrow> Inr (t, w))
      | _ \<Rightarrow> Inl ValueError)"

definition opt_result :: "('a \<Rightarrow> 'b py_result) \<Rightarrow> 'a option \<Rightarrow> 'b option py_result" where
  "opt_result f v = (case v of None \<Rightarrow> Inr None | Some x \<Rightarrow> bindE (f x) (\<lambda>y. Inr (Some y)))"

definition search_criteria :: "(json \<Rightarrow> string) \<Rightarrow> string option \<Rightarrow> work_query \<Rightarrow> string" where
  "search_criteria digest normalized q =
     digest (JList [json_opt JStr normalized, json_opt JBool (wq_completed q),
       json_opt JStr (wq_lifecycle_state q), json_opt JStr (wq_owner_key q),
       json_opt JStr (wq_priority q), json_opt JStr (wq_work_type q),
       json_opt JStr (wq_canonical_root q)])"

definition work_search ::
  "(string \<Rightarrow> string) \<Rightarrow> (json \<Rightarrow> string) \<Rightarrow> (json \<Rightarrow> string) \<Rightarrow> (string \<Rightarrow> json option) \<Rightarrow> work_query
     \<Rightarrow> int \<Rightarrow> canon_db \<Rightarrow> string option \<Rightarrow> (current_work list \<times> string option) py_result" where
  "work_search casefold digest enc dec q limit db cursor =
     (if limit < 1 \<or> limit > 500 then Inl ValueError
      else
        bindE (opt_result (normalize_title casefold) (wq_text q)) (\<lambda>normalized.
        let criteria = search_criteria digest normalized q in
        bindE (opt_result (\<lambda>c. decode_cursor dec c criteria) cursor) (\<lambda>after.
        let (page, next) = key_page page_key (nat limit) after
              (filter (query_matches normalized q) (cdb_works db))
        in Inr (map wrow_work page, map_option (encode_cursor enc criteria) next))))"

section \<open>Aliases\<close>

definition resolve_asana_gid :: "string \<Rightarrow> canon_db \<Rightarrow> uuid option" where
  "resolve_asana_gid gid db = map_of (cdb_aliases db) gid"

definition asana_gids :: "uuid \<Rightarrow> canon_db \<Rightarrow> string list" where
  "asana_gids w db = sort (map fst (filter (\<lambda>a. snd a = w) (cdb_aliases db)))"

definition bind_asana_gid :: "string \<Rightarrow> uuid \<Rightarrow> canon_db \<Rightarrow> canon_db py_result" where
  "bind_asana_gid gid w db =
     (if gid = [] then Inl ValueError
      else if gid \<in> set (map fst (cdb_aliases db)) \<or> w \<notin> set (map row_id (cdb_works db))
      then Inl IntegrityError
      else Inr (db\<lparr>cdb_aliases := cdb_aliases db @ [(gid, w)]\<rparr>))"

section \<open>Writes\<close>

definition create_locked ::
  "(string \<Rightarrow> string) \<Rightarrow> py_datetime \<Rightarrow> current_work \<Rightarrow> canon_db \<Rightarrow> canon_db py_result" where
  "create_locked casefold now item db =
     (if cw_row_version item \<noteq> 1 then Inl ValueError
      else bindE (normalize_title casefold (cw_title item)) (\<lambda>n.
        if cw_work_id item \<in> set (map row_id (cdb_works db)) \<or> cw_title item = [] then Inl IntegrityError
        else Inr (db\<lparr>cdb_works := cdb_works db @
               [\<lparr>wrow_work = item\<lparr>cw_admitted_at := Some now\<rparr>, wrow_normalized_title = n\<rparr>]\<rparr>)))"

text \<open>The row a replacement writes: every scalar of the item; the admission time is kept.\<close>

definition replaced_row :: "current_work \<Rightarrow> string \<Rightarrow> work_row \<Rightarrow> work_row" where
  "replaced_row item n r =
     \<lparr>wrow_work = item\<lparr>cw_row_version := cw_row_version item + 1,
        cw_admitted_at := cw_admitted_at (wrow_work r)\<rparr>,
      wrow_normalized_title = n\<rparr>"

definition replace_locked ::
  "(string \<Rightarrow> string) \<Rightarrow> current_work \<Rightarrow> canon_db \<Rightarrow> (current_work \<times> canon_db) py_result" where
  "replace_locked casefold item db =
     bindE (normalize_title casefold (cw_title item)) (\<lambda>n.
       if cw_title item = [] \<and> cw_work_id item \<in> set (map row_id (cdb_works db)) then Inl IntegrityError
       else Inr (item\<lparr>cw_row_version := cw_row_version item + 1\<rparr>,
         db\<lparr>cdb_works := map (\<lambda>r. if row_id r = cw_work_id item then replaced_row item n r else r)
              (cdb_works db)\<rparr>))"

definition replace_work ::
  "(string \<Rightarrow> string) \<Rightarrow> current_work \<Rightarrow> canon_db \<Rightarrow> (current_work \<times> canon_db) py_result" where
  "replace_work casefold item db =
     bindE (work_get_row (cw_work_id item) db) (\<lambda>current.
       case current of
         None \<Rightarrow> Inl LookupError
       | Some c \<Rightarrow>
           if cw_row_version c \<noteq> cw_row_version item then Inl ValueError
           else replace_locked casefold item db)"

section \<open>Versioned replacement is a compare-and-set register\<close>

definition work_keys :: "canon_db \<Rightarrow> bool" where
  "work_keys db = distinct (map row_id (cdb_works db))"

definition work_lookup :: "canon_db \<Rightarrow> uuid \<Rightarrow> current_work option" where
  "work_lookup db w = map_option wrow_work (find (\<lambda>r. row_id r = w) (cdb_works db))"

lemma work_get_row_lookup: "work_keys db \<Longrightarrow> work_get_row w db = Inr (work_lookup db w)"
  by (simp add: work_get_row_def work_lookup_def work_keys_def one_or_none_unique_key)

text \<open>A write with an expectation: creation expects no row, replacement the item's version.\<close>

definition work_put ::
  "(string \<Rightarrow> string) \<Rightarrow> py_datetime \<Rightarrow> uuid \<Rightarrow> int option \<Rightarrow> current_work \<Rightarrow> canon_db \<Rightarrow> canon_db option" where
  "work_put casefold now w e v db =
     (if cw_work_id v \<noteq> w then None
      else case e of
        None \<Rightarrow> (case create_locked casefold now v db of Inl _ \<Rightarrow> None | Inr db' \<Rightarrow> Some db')
      | Some n \<Rightarrow>
          if cw_row_version v \<noteq> n + 1 then None
          else (case replace_work casefold (v\<lparr>cw_row_version := n\<rparr>) db of
                  Inl _ \<Rightarrow> None | Inr (_, db') \<Rightarrow> Some db'))"

lemma find_map_put:
  assumes "\<And>r. key (f r) = j"
  shows "find (\<lambda>r. key r = k) (map (\<lambda>r. if key r = j then f r else r) rows)
    = map_option (\<lambda>r. if k = j then f r else r) (find (\<lambda>r. key r = k) rows)"
  using assms by (induction rows) auto

lemma row_id_replaced [simp]: "row_id (replaced_row item n r) = cw_work_id item"
  by (simp add: replaced_row_def)

lemma create_locked_run:
  assumes "create_locked casefold now v db = Inr db'"
  shows "work_lookup db (cw_work_id v) = None" and "cw_row_version v = 1"
    and "work_lookup db' w = (if w = cw_work_id v then Some (v\<lparr>cw_admitted_at := Some now\<rparr>)
           else work_lookup db w)"
    and "work_keys db \<Longrightarrow> work_keys db'"
proof -
  from assms obtain n where id: "cw_work_id v \<notin> set (map row_id (cdb_works db))" "cw_row_version v = 1"
    and db': "db' = db\<lparr>cdb_works := cdb_works db @
       [\<lparr>wrow_work = v\<lparr>cw_admitted_at := Some now\<rparr>, wrow_normalized_title = n\<rparr>]\<rparr>"
    by (auto simp: create_locked_def bindE_eq_Inr split: if_splits)
  from id(1) have none: "find (\<lambda>r. row_id r = cw_work_id v) (cdb_works db) = None"
    by (simp add: find_key_None)
  then show "work_lookup db (cw_work_id v) = None" by (simp add: work_lookup_def)
  show "cw_row_version v = 1" by (fact id(2))
  show "work_lookup db' w = (if w = cw_work_id v then Some (v\<lparr>cw_admitted_at := Some now\<rparr>)
           else work_lookup db w)"
    using none by (auto simp: work_lookup_def db' find_append split: option.splits)
  show "work_keys db \<Longrightarrow> work_keys db'" using id(1) by (simp add: work_keys_def db')
qed

lemma replace_work_run:
  assumes "work_keys db" and "replace_work casefold item db = Inr (out, db')"
  shows "\<exists>c. work_lookup db (cw_work_id item) = Some c \<and> cw_row_version c = cw_row_version item
      \<and> out = item\<lparr>cw_row_version := cw_row_version item + 1\<rparr>
      \<and> work_lookup db' (cw_work_id item) = Some (out\<lparr>cw_admitted_at := cw_admitted_at c\<rparr>)"
    and "w \<noteq> cw_work_id item \<Longrightarrow> work_lookup db' w = work_lookup db w"
    and "work_keys db'"
    and "cdb_events db' = cdb_events db" and "cdb_parents db' = cdb_parents db"
proof -
  from assms obtain c n where c: "work_lookup db (cw_work_id item) = Some c"
    "cw_row_version c = cw_row_version item"
    and out: "out = item\<lparr>cw_row_version := cw_row_version item + 1\<rparr>"
    and db': "db' = db\<lparr>cdb_works := map (\<lambda>r. if row_id r = cw_work_id item then replaced_row item n r else r)
              (cdb_works db)\<rparr>"
    by (auto simp: replace_work_def work_get_row_lookup replace_locked_def bindE_eq_Inr
        split: option.splits if_splits)
  have look: "find (\<lambda>r. row_id r = w) (cdb_works db')
      = map_option (\<lambda>r. if w = cw_work_id item then replaced_row item n r else r)
          (find (\<lambda>r. row_id r = w) (cdb_works db))" for w
    unfolding db' by (simp add: find_map_put)
  show "\<exists>c. work_lookup db (cw_work_id item) = Some c \<and> cw_row_version c = cw_row_version item
      \<and> out = item\<lparr>cw_row_version := cw_row_version item + 1\<rparr>
      \<and> work_lookup db' (cw_work_id item) = Some (out\<lparr>cw_admitted_at := cw_admitted_at c\<rparr>)"
    using c out look [of "cw_work_id item"] by (auto simp: work_lookup_def replaced_row_def)
  show "w \<noteq> cw_work_id item \<Longrightarrow> work_lookup db' w = work_lookup db w"
    using look [of w] by (simp add: work_lookup_def option.map_ident)
  have ids: "map row_id (cdb_works db') = map row_id (cdb_works db)"
    unfolding db' by simp
  show "work_keys db'" using assms(1) by (simp only: work_keys_def ids)
  show "cdb_events db' = cdb_events db" "cdb_parents db' = cdb_parents db" by (simp_all add: db')
qed

interpretation work_versions: cas_register work_lookup cw_row_version "work_put casefold now" work_keys
  for casefold now
proof (unfold_locales, goal_cases)
  case (1 db w e v db')
  then show ?case
    by (auto simp: work_put_def create_locked_run(3) split: if_splits option.splits sum.splits
        dest!: replace_work_run(1))
next
  case (2 db w e v db' w')
  then show ?case
    by (auto simp: work_put_def create_locked_run(3) split: if_splits option.splits sum.splits
        dest: replace_work_run(2))
next
  case (3 db w e v db')
  then show ?case
    by (auto simp: work_put_def split: if_splits option.splits sum.splits
        dest!: replace_work_run(1) dest: create_locked_run(1))
next
  case (4 db w e v db')
  then show ?case
    by (auto simp: work_put_def split: if_splits option.splits sum.splits dest: create_locked_run(2))
next
  case (5 db w e v db')
  then show ?case
    by (auto simp: work_put_def split: if_splits option.splits sum.splits
        dest: create_locked_run(4) replace_work_run(3))
qed

text \<open>Attempted creations and replacements in sequence; a refused one changes nothing.\<close>

datatype work_write = Create_work current_work | Replace_work current_work

fun work_writes :: "(string \<Rightarrow> string) \<Rightarrow> py_datetime \<Rightarrow> work_write list \<Rightarrow> canon_db \<Rightarrow> canon_db" where
  "work_writes casefold now [] db = db"
| "work_writes casefold now (Create_work v # ws) db =
     work_writes casefold now ws (case create_locked casefold now v db of Inl _ \<Rightarrow> db | Inr db' \<Rightarrow> db')"
| "work_writes casefold now (Replace_work v # ws) db =
     work_writes casefold now ws (case replace_work casefold v db of Inl _ \<Rightarrow> db | Inr (_, db') \<Rightarrow> db')"

fun write_attempt :: "work_write \<Rightarrow> uuid \<times> int option \<times> current_work" where
  "write_attempt (Create_work v) = (cw_work_id v, None, v)"
| "write_attempt (Replace_work v) =
     (cw_work_id v, Some (cw_row_version v), v\<lparr>cw_row_version := cw_row_version v + 1\<rparr>)"

lemma work_put_simps:
  "work_put casefold now (cw_work_id v) None v db
     = (case create_locked casefold now v db of Inl _ \<Rightarrow> None | Inr db' \<Rightarrow> Some db')"
  "work_put casefold now (cw_work_id v) (Some (cw_row_version v)) (v\<lparr>cw_row_version := cw_row_version v + 1\<rparr>) db
     = (case replace_work casefold v db of Inl _ \<Rightarrow> None | Inr (_, db') \<Rightarrow> Some db')"
  by (simp_all add: work_put_def)

lemma work_writes_attempts:
  "work_writes casefold now ws db = work_versions.attempts casefold now (map write_attempt ws) db"
  by (induction casefold now ws db rule: work_writes.induct)
     (auto simp: work_put_simps split: sum.splits)

text \<open>
  C10. Replacing work loses no update: of all replacements of a work made from the same observed
  version, whatever creations and replacements are attempted in between, only the first to
  arrive succeeds.
\<close>

theorem replace_no_lost_update:
  assumes "work_keys db" and "replace_work casefold item db = Inr (out, db')"
    and "cw_work_id item' = cw_work_id item" and "cw_row_version item' = cw_row_version item"
  shows "\<exists>e. replace_work casefold item' (work_writes casefold now ws db') = Inl e"
proof -
  let ?put = "work_put casefold now (cw_work_id item) (Some (cw_row_version item))"
  have "?put (item\<lparr>cw_row_version := cw_row_version item + 1\<rparr>) db = Some db'"
    using assms(2) by (simp add: work_put_def)
  from work_versions.no_lost_update [OF assms(1) this, of "item'\<lparr>cw_row_version := cw_row_version item' + 1\<rparr>"]
  have "?put (item'\<lparr>cw_row_version := cw_row_version item' + 1\<rparr>) (work_writes casefold now ws db') = None"
    by (simp add: work_writes_attempts)
  moreover have same: "item'\<lparr>cw_row_version := cw_row_version item\<rparr> = item'"
    unfolding assms(4) [symmetric] by simp
  ultimately show ?thesis using assms(3,4) by (auto simp: work_put_def same split: sum.splits)
qed

definition demo_current :: "uuid \<Rightarrow> string \<Rightarrow> current_work" where
  "demo_current w title = \<lparr>cw_work_id = w, cw_title = title, cw_completed = False, cw_notes = [],
     cw_row_version = 1, cw_assignee = None, cw_priority = None, cw_work_type = None,
     cw_lifecycle_state = None, cw_review_next_action = None, cw_canonical_root = None,
     cw_owner_key = None, cw_wait_kind = None, cw_unblock_condition = None, cw_next_due = None,
     cw_next_action_class = None, cw_next_action_ref = None, cw_admitted_at = None\<rparr>"

definition demo_canon :: canon_db where
  "demo_canon = \<lparr>cdb_works = [\<lparr>wrow_work = demo_current 2 ''b'', wrow_normalized_title = ''b''\<rparr>,
       \<lparr>wrow_work = demo_current 1 ''a'', wrow_normalized_title = ''a''\<rparr>],
     cdb_aliases = [], cdb_parents = [], cdb_deps = [], cdb_projects = [], cdb_members = [],
     cdb_events = []\<rparr>"

theorem replace_no_lost_update_witness:
  "\<exists>out db'. replace_work id (demo_current 1 ''c'') demo_canon = Inr (out, db')
     \<and> (\<exists>e. replace_work id (demo_current 1 ''d'') (work_writes id (Aware 0) [Create_work (demo_current 3 ''x'')] db')
          = Inl e)"
proof -
  have keys: "work_keys demo_canon" by (simp add: work_keys_def demo_canon_def demo_current_def)
  obtain out db' where rep: "replace_work id (demo_current 1 ''c'') demo_canon = Inr (out, db')"
    by (simp add: replace_work_def work_get_row_def replace_locked_def normalize_title_def py_split_def
        py_space_def demo_canon_def demo_current_def)
  have "cw_work_id (demo_current 1 ''d'') = cw_work_id (demo_current 1 ''c'')"
    "cw_row_version (demo_current 1 ''d'') = cw_row_version (demo_current 1 ''c'')"
    by (simp_all add: demo_current_def)
  from replace_no_lost_update [OF keys rep this] rep show ?thesis by blast
qed

section \<open>Search pages\<close>

definition search_ok ::
  "(string \<Rightarrow> string) \<Rightarrow> (json \<Rightarrow> string) \<Rightarrow> (string \<Rightarrow> json option) \<Rightarrow> work_query \<Rightarrow> int \<Rightarrow> canon_db \<Rightarrow> bool" where
  "search_ok casefold enc dec q limit db =
     (work_keys db \<and> 1 \<le> limit \<and> limit \<le> 500
      \<and> (\<forall>a b c. dec (enc (JList [JStr a, JStr b, JStr c])) = Some (JList [JStr a, JStr b, JStr c]))
      \<and> (\<exists>n. opt_result (normalize_title casefold) (wq_text q) = Inr n))"

definition search_normalized :: "(string \<Rightarrow> string) \<Rightarrow> work_query \<Rightarrow> string option" where
  "search_normalized casefold q =
     (case opt_result (normalize_title casefold) (wq_text q) of Inr n \<Rightarrow> n | Inl _ \<Rightarrow> None)"

text \<open>All the rows a query selects, in page order.\<close>

definition search_rows :: "(string \<Rightarrow> string) \<Rightarrow> work_query \<Rightarrow> canon_db \<Rightarrow> work_row list" where
  "search_rows casefold q db =
     sort_key page_key (filter (query_matches (search_normalized casefold q) q) (cdb_works db))"

definition search_at ::
  "(string \<Rightarrow> string) \<Rightarrow> (json \<Rightarrow> string) \<Rightarrow> (json \<Rightarrow> string) \<Rightarrow> work_query \<Rightarrow> canon_db \<Rightarrow> string option \<Rightarrow> nat \<Rightarrow> bool" where
  "search_at casefold digest enc q db c n =
     (c = None \<and> n = 0
      \<or> 0 < n \<and> c = Some (encode_cursor enc (search_criteria digest (search_normalized casefold q) q)
                    (page_key (search_rows casefold q db ! (n - 1)))))"

lemma decode_encode:
  assumes "\<forall>a b c. dec (enc (JList [JStr a, JStr b, JStr c])) = Some (JList [JStr a, JStr b, JStr c])"
  shows "decode_cursor dec (encode_cursor enc criteria k) criteria = Inr k"
  using assms by (simp add: decode_cursor_def encode_cursor_def)

interpretation search_pages: paged_source "search_ok casefold enc dec q limit"
  "work_search casefold digest enc dec q limit" "\<lambda>db. map wrow_work (search_rows casefold q db)"
  "nat limit" "search_at casefold digest enc q"
  for casefold digest enc dec q limit
proof (unfold_locales, goal_cases)
  case (1 db)
  then show ?case by (simp add: search_at_def)
next
  case (2 db)
  then show ?case by (simp add: search_ok_def)
next
  case (3 db c n)
  let ?norm = "search_normalized casefold q"
  let ?crit = "search_criteria digest ?norm q"
  let ?rows = "filter (query_matches ?norm q) (cdb_works db)"
  from 3(1) have ok: "work_keys db" "1 \<le> limit" "limit \<le> 500"
    and codec: "\<forall>a b c. dec (enc (JList [JStr a, JStr b, JStr c])) = Some (JList [JStr a, JStr b, JStr c])"
    and norm: "opt_result (normalize_title casefold) (wq_text q) = Inr ?norm"
    by (auto simp: search_ok_def search_normalized_def)
  have all: "after_key page_key None ?rows = search_rows casefold q db"
    by (simp add: after_key_def search_rows_def)
  have "distinct (map row_id ?rows)" using ok(1) by (simp add: work_keys_def distinct_map_filter)
  then have dist: "distinct (map page_key ?rows)"
    by (auto simp: distinct_map page_key_def inj_on_def)
  define after where "after = (if n = 0 then None else Some (page_key (search_rows casefold q db ! (n - 1))))"
  have dec: "opt_result (\<lambda>c. decode_cursor dec c ?crit) c = Inr after"
    using 3(2)
    by (cases "n = 0") (auto simp: search_at_def opt_result_def after_def decode_encode [OF codec])
  have len: "n \<le> length ?rows" "length (search_rows casefold q db) = length ?rows"
    using 3(3) by (simp_all add: search_rows_def)
  note page = key_page_at [OF dist len(1), of "nat limit" after, unfolded all]
  have at: "after = None \<and> n = 0 \<or> 0 < n \<and> after = Some (page_key (search_rows casefold q db ! (n - 1)))"
    by (simp add: after_def)
  obtain pg nx where kp: "key_page page_key (nat limit) after ?rows = (pg, nx)" by fastforce
  have pg: "pg = take (nat limit) (drop n (search_rows casefold q db))"
    and nx: "nx = (if length ?rows \<le> n + nat limit then None
        else Some (page_key (search_rows casefold q db ! (n + nat limit - 1))))"
    using page kp at ok(2) by simp_all
  have run: "work_search casefold digest enc dec q limit db c
      = Inr (map wrow_work pg, map_option (encode_cursor enc ?crit) nx)"
    using ok norm dec kp by (simp add: work_search_def Let_def)
  show ?case
  proof (intro exI conjI)
    show "work_search casefold digest enc dec q limit db c
      = Inr (take (nat limit) (drop n (map wrow_work (search_rows casefold q db))),
          map_option (encode_cursor enc ?crit) nx)"
      using run pg by (simp add: take_map drop_map)
    show "(map_option (encode_cursor enc ?crit) nx = None)
      = (length (map wrow_work (search_rows casefold q db)) \<le> n + nat limit)"
      using nx len by simp
    show "map_option (encode_cursor enc ?crit) nx \<noteq> None \<longrightarrow>
      search_at casefold digest enc q db (map_option (encode_cursor enc ?crit) nx) (n + nat limit)"
      using nx ok(2) by (simp add: search_at_def del: split_paired_Ex)
  qed
qed

text \<open>
  Search pages are complete: following the cursors from the first page, for any query the
  title normaliser accepts and any admissible limit, ends and returns every selected work exactly
  once, ordered by normalised title and id, provided cursors decode to what they encode.
\<close>

theorem search_pages_complete:
  assumes "search_ok casefold enc dec q limit db" and "length (cdb_works db) < fuel"
  shows "search_pages.collect casefold digest enc dec q limit fuel db None
    = Some (map wrow_work (search_rows casefold q db))"
proof (rule search_pages.collect_all [OF assms(1)])
  have "length (search_rows casefold q db) \<le> length (cdb_works db)"
    by (simp add: search_rows_def)
  with assms(2) show "length (map wrow_work (search_rows casefold q db)) < fuel" by simp
qed

text \<open>A codec for the witness: each text is preceded by its length in unary.\<close>

definition demo_enc1 :: "string \<Rightarrow> string" where
  "demo_enc1 s = replicate (length s) (CHR ''x'') @ ''|'' @ s"

definition demo_dec1 :: "string \<Rightarrow> string \<times> string" where
  "demo_dec1 s =
     (let n = length (takeWhile (\<lambda>c. c = CHR ''x'') s); r = drop (Suc n) s in (take n r, drop n r))"

definition demo_enc :: "json \<Rightarrow> string" where
  "demo_enc j = (case j of JList [JStr a, JStr b, JStr c] \<Rightarrow> demo_enc1 a @ demo_enc1 b @ c | _ \<Rightarrow> [])"

definition demo_dec :: "string \<Rightarrow> json option" where
  "demo_dec s =
     (let (a, r) = demo_dec1 s; (b, c) = demo_dec1 r in Some (JList [JStr a, JStr b, JStr c]))"

lemma demo_dec1_enc1: "demo_dec1 (demo_enc1 a @ r) = (a, r)"
proof -
  have "takeWhile (\<lambda>c. c = CHR ''x'') (demo_enc1 a @ r) = replicate (length a) (CHR ''x'')"
    unfolding demo_enc1_def append_assoc
    by (subst takeWhile_append2) auto
  then show ?thesis by (simp add: demo_dec1_def demo_enc1_def Let_def)
qed

lemma demo_dec_enc: "demo_dec (demo_enc (JList [JStr a, JStr b, JStr c])) = Some (JList [JStr a, JStr b, JStr c])"
  by (simp add: demo_dec_def demo_enc_def demo_dec1_enc1)

theorem search_pages_complete_witness:
  "\<exists>fuel. search_pages.collect id (\<lambda>_. ''d'') demo_enc demo_dec
       \<lparr>wq_text = None, wq_completed = Some False, wq_lifecycle_state = None, wq_owner_key = None,
        wq_priority = None, wq_work_type = None, wq_canonical_root = None\<rparr> 1 fuel demo_canon None
     = Some [demo_current 1 ''a'', demo_current 2 ''b'']"
proof -
  let ?q = "\<lparr>wq_text = None, wq_completed = Some False, wq_lifecycle_state = None, wq_owner_key = None,
        wq_priority = None, wq_work_type = None, wq_canonical_root = None\<rparr>"
  have ok: "search_ok id demo_enc demo_dec ?q 1 demo_canon"
    by (simp add: search_ok_def work_keys_def demo_canon_def demo_current_def demo_dec_enc opt_result_def)
  have rows: "map wrow_work (search_rows id ?q demo_canon) = [demo_current 1 ''a'', demo_current 2 ''b'']"
    by (simp add: search_rows_def search_normalized_def opt_result_def query_matches_def opt_eq_def
        demo_canon_def demo_current_def page_key_def less_list_code)
  have "length (cdb_works demo_canon) < 3" by (simp add: demo_canon_def)
  from search_pages_complete [OF ok this] rows show ?thesis by metis
qed

end
