(* ===== verification/Work_Events.thy ===== *)
theory Work_Events
  imports Work_Store
begin

text \<open>
  The event stream of a work (\<open>src/switchstand/tracker/events.py\<close>): ordered, append-only,
  idempotent by operation id, and paged by sequence. \<open>uuid4()\<close> is an argument of an append, the
  text form of a cursor an argument of a page.
\<close>

section \<open>Operations\<close>

record append_call =
  ac_work_id :: uuid
  ac_observed_version :: int
  ac_operation_id :: uuid
  ac_subtype :: string
  ac_text :: "string option"
  ac_created_at :: py_datetime
  ac_actor :: "string option"
  ac_asana_story_gid :: "string option"

record append_outcome =
  ao_event :: stored_event
  ao_row_version :: int
  ao_created :: bool

definition has_nul :: "string \<Rightarrow> bool" where
  "has_nul s = (CHR 0x00 \<in> set s)"

definition events_of :: "uuid \<Rightarrow> canon_db \<Rightarrow> stored_event list" where
  "events_of w db = filter (\<lambda>e. sev_work_id e = w) (cdb_events db)"

text \<open>\<open>coalesce(max(sequence), 0) + 1\<close>.\<close>

definition next_sequence :: "uuid \<Rightarrow> canon_db \<Rightarrow> int" where
  "next_sequence w db =
     (case map sev_sequence (events_of w db) of [] \<Rightarrow> 0 | n # ns \<Rightarrow> foldr max ns n) + 1"

definition bump_version :: "uuid \<Rightarrow> int \<Rightarrow> canon_db \<Rightarrow> canon_db" where
  "bump_version w v db =
     db\<lparr>cdb_works := map (\<lambda>r. if row_id r = w
        then r\<lparr>wrow_work := (wrow_work r)\<lparr>cw_row_version := v\<rparr>\<rparr> else r) (cdb_works db)\<rparr>"

definition same_append :: "append_call \<Rightarrow> stored_event \<Rightarrow> bool" where
  "same_append c e =
     (sev_work_id e = ac_work_id c \<and> sev_subtype e = ac_subtype c \<and> sev_text e = ac_text c
      \<and> sev_created_at e = ac_created_at c \<and> sev_actor e = ac_actor c
      \<and> sev_asana_story_gid e = ac_asana_story_gid c)"

definition new_event :: "uuid \<Rightarrow> append_call \<Rightarrow> canon_db \<Rightarrow> int \<Rightarrow> stored_event" where
  "new_event new c db version =
     \<lparr>sev_id = new, sev_work_id = ac_work_id c, sev_sequence = next_sequence (ac_work_id c) db,
      sev_result_version = version + 1, sev_subtype = ac_subtype c, sev_text = ac_text c,
      sev_created_at = ac_created_at c, sev_actor = ac_actor c,
      sev_asana_story_gid = ac_asana_story_gid c, sev_operation_id = Some (ac_operation_id c)\<rparr>"

text \<open>The unique constraints an inserted event could break.\<close>

definition event_conflict :: "stored_event \<Rightarrow> canon_db \<Rightarrow> bool" where
  "event_conflict e db =
     list_ex (\<lambda>x. sev_id x = sev_id e
       \<or> (sev_work_id x = sev_work_id e \<and> sev_sequence x = sev_sequence e)
       \<or> (sev_asana_story_gid e \<noteq> None \<and> sev_asana_story_gid x = sev_asana_story_gid e)
       \<or> (sev_operation_id e \<noteq> None \<and> sev_operation_id x = sev_operation_id e)) (cdb_events db)"

text \<open>The part of \<open>append_locked\<close> under the row lock of an existing work.\<close>

definition append_known ::
  "uuid \<Rightarrow> append_call \<Rightarrow> canon_db \<Rightarrow> current_work \<Rightarrow> (append_outcome \<times> canon_db) py_result" where
  "append_known new c db w =
     bindE (one_or_none (filter (\<lambda>e. sev_operation_id e = Some (ac_operation_id c)) (cdb_events db)))
       (\<lambda>replay.
       case replay of
         Some e \<Rightarrow>
           if \<not> same_append c e then Inl OperationConflictError
           else Inr (\<lparr>ao_event = e, ao_row_version = sev_result_version e, ao_created = False\<rparr>, db)
       | None \<Rightarrow>
           if cw_row_version w \<noteq> ac_observed_version c then Inl (StaleWorkVersion (cw_row_version w))
           else
             (let e = new_event new c db (cw_row_version w)
              in if event_conflict e db then Inl IntegrityError
                 else Inr (\<lparr>ao_event = e, ao_row_version = cw_row_version w + 1, ao_created = True\<rparr>,
                        bump_version (ac_work_id c) (cw_row_version w + 1)
                          (db\<lparr>cdb_events := cdb_events db @ [e]\<rparr>))))"

definition append_locked ::
  "uuid \<Rightarrow> append_call \<Rightarrow> canon_db \<Rightarrow> (append_outcome \<times> canon_db) py_result" where
  "append_locked new c db =
     (if ac_subtype c = [] \<or> has_nul (ac_subtype c) then Inl ValueError
      else if (case ac_text c of None \<Rightarrow> False | Some t \<Rightarrow> has_nul t) then Inl ValueError
      else if \<not> is_aware (ac_created_at c) then Inl ValueError
      else if ac_asana_story_gid c = Some [] then Inl ValueError
      else bindE (work_get_row (ac_work_id c) db) (\<lambda>row.
        case row of None \<Rightarrow> Inl UnknownWorkError | Some w \<Rightarrow> append_known new c db w))"

definition event_get :: "uuid \<Rightarrow> uuid \<Rightarrow> canon_db \<Rightarrow> stored_event option py_result" where
  "event_get w eid db =
     one_or_none (filter (\<lambda>e. sev_work_id e = w \<and> sev_id e = eid) (cdb_events db))"

definition encode_event_cursor :: "(json \<Rightarrow> string) \<Rightarrow> uuid \<Rightarrow> int \<Rightarrow> string" where
  "encode_event_cursor enc w n = enc (JList [JInt 1, json_uuid w, JInt n])"

text \<open>Python compares and type-tests booleans as the integers 0 and 1.\<close>

fun json_int :: "json \<Rightarrow> int option" where
  "json_int (JInt n) = Some n"
| "json_int (JBool b) = Some (if b then 1 else 0)"
| "json_int _ = None"

definition decode_event_cursor :: "(string \<Rightarrow> json option) \<Rightarrow> string \<Rightarrow> uuid \<Rightarrow> int py_result" where
  "decode_event_cursor dec cursor w =
     (case dec cursor of
        Some (JList [a, b, c]) \<Rightarrow>
          (case json_int c of
             None \<Rightarrow> Inl ValueError
           | Some n \<Rightarrow>
               if json_int a \<noteq> Some 1 \<or> b \<noteq> json_uuid w \<or> n < 1 then Inl ValueError else Inr n)
      | _ \<Rightarrow> Inl ValueError)"

definition event_page ::
  "(json \<Rightarrow> string) \<Rightarrow> (string \<Rightarrow> json option) \<Rightarrow> uuid \<Rightarrow> int \<Rightarrow> canon_db \<Rightarrow> string option
     \<Rightarrow> (stored_event list \<times> string option) py_result" where
  "event_page enc dec w limit db cursor =
     (if limit < 1 \<or> limit > 100 then Inl ValueError
      else bindE (case cursor of None \<Rightarrow> Inr 0 | Some c \<Rightarrow> decode_event_cursor dec c w) (\<lambda>after.
        let (page, next) = key_page sev_sequence (nat limit) (Some after) (events_of w db)
        in Inr (page, map_option (encode_event_cursor enc w) next)))"

section \<open>Invariant\<close>

text \<open>
  Within a work the sequence numbers are \<open>1, 2, ...\<close> without gaps in insertion order; ids and
  operation ids are unique; every event belongs to a stored work and was written at a version
  the work has reached.
\<close>

definition events_inv :: "canon_db \<Rightarrow> bool" where
  "events_inv db =
     (work_keys db \<and> distinct (map sev_id (cdb_events db))
      \<and> distinct (map sev_operation_id (filter (\<lambda>e. sev_operation_id e \<noteq> None) (cdb_events db)))
      \<and> (\<forall>w. map sev_sequence (events_of w db) = [1..int (length (events_of w db))])
      \<and> (\<forall>e \<in> set (cdb_events db). \<exists>c. work_lookup db (sev_work_id e) = Some c
            \<and> sev_result_version e \<le> cw_row_version c))"

lemma foldr_max_Max: "foldr max ns n = Max (insert n (set ns))" for n :: int
  by (induction ns) (simp_all add: insert_commute)

lemma next_sequence_inv: "events_inv db \<Longrightarrow> next_sequence w db = int (length (events_of w db)) + 1"
proof -
  assume "events_inv db"
  then have seq: "map sev_sequence (events_of w db) = [1..int (length (events_of w db))]"
    by (simp add: events_inv_def)
  show ?thesis
  proof (cases "events_of w db")
    case Nil
    then show ?thesis by (simp add: next_sequence_def)
  next
    case (Cons e es)
    let ?n = "int (length (events_of w db))"
    have pos: "1 \<le> ?n" using Cons by simp
    have "foldr max (map sev_sequence es) (sev_sequence e) = Max (set (map sev_sequence (events_of w db)))"
      unfolding Cons by (simp add: foldr_max_Max)
    also have "\<dots> = Max (set [1..?n])" unfolding seq ..
    also have "\<dots> = ?n" using pos by (intro Max_eqI) auto
    finally show ?thesis using Cons by (simp add: next_sequence_def)
  qed
qed

lemma bump_lookup:
  "work_lookup (bump_version w v db) u
     = (if u = w then map_option (\<lambda>c. c\<lparr>cw_row_version := v\<rparr>) (work_lookup db u) else work_lookup db u)"
  by (simp add: work_lookup_def bump_version_def find_map_update option.map_comp comp_def)

lemma bump_simps [simp]:
  "cdb_events (bump_version w v db) = cdb_events db" "work_keys (bump_version w v db) = work_keys db"
  "cdb_parents (bump_version w v db) = cdb_parents db" "cdb_deps (bump_version w v db) = cdb_deps db"
  by (simp_all add: bump_version_def work_keys_def comp_def if_distrib [of row_id] cong: if_cong)

lemma append_cases:
  assumes "work_keys db" and "append_locked new c db = Inr (out, db')"
  obtains (replay) e where "db' = db" "e \<in> set (cdb_events db)"
        "sev_operation_id e = Some (ac_operation_id c)" "same_append c e"
        "out = \<lparr>ao_event = e, ao_row_version = sev_result_version e, ao_created = False\<rparr>"
    | (created) w where "work_lookup db (ac_work_id c) = Some w" "cw_row_version w = ac_observed_version c"
        "\<not> event_conflict (new_event new c db (cw_row_version w)) db"
        "out = \<lparr>ao_event = new_event new c db (cw_row_version w),
                ao_row_version = cw_row_version w + 1, ao_created = True\<rparr>"
        "db' = bump_version (ac_work_id c) (cw_row_version w + 1)
                 (db\<lparr>cdb_events := cdb_events db @ [new_event new c db (cw_row_version w)]\<rparr>)"
proof -
  from assms obtain w where w: "work_lookup db (ac_work_id c) = Some w"
    and known: "append_known new c db w = Inr (out, db')"
    unfolding append_locked_def work_get_row_lookup [OF assms(1)]
    by (auto split: if_splits option.splits)
  from known obtain r where
    r: "one_or_none (filter (\<lambda>e. sev_operation_id e = Some (ac_operation_id c)) (cdb_events db)) = Inr r"
    unfolding append_known_def bindE_eq_Inr by blast
  show thesis
  proof (cases r)
    case None
    with known r w created show thesis by (auto simp: append_known_def Let_def split: if_splits)
  next
    case (Some e)
    with r have "filter (\<lambda>e. sev_operation_id e = Some (ac_operation_id c)) (cdb_events db) = [e]"
      by (simp add: one_or_none_Some)
    then have "e \<in> set (cdb_events db)" "sev_operation_id e = Some (ac_operation_id c)"
      by (auto dest!: filter_eq_ConsD)
    with known r Some replay show thesis by (auto simp: append_known_def split: if_splits)
  qed
qed

lemma events_of_append [simp]:
  "events_of w (bump_version u v (db\<lparr>cdb_events := cdb_events db @ [e]\<rparr>))
     = events_of w db @ (if sev_work_id e = w then [e] else [])"
  by (simp add: events_of_def)

lemma work_lookup_events [simp]: "work_lookup (db\<lparr>cdb_events := es\<rparr>) w = work_lookup db w"
  by (simp add: work_lookup_def)

lemma work_keys_events [simp]: "work_keys (db\<lparr>cdb_events := es\<rparr>) = work_keys db"
  by (simp add: work_keys_def)

lemma upto_snoc: "[1..int n + 1] = [1..int n] @ [int n + 1]"
  by (simp add: upto_rec2)

lemma append_stream:
  assumes "events_inv db" and "append_locked new c db = Inr (out, db')"
  shows "events_inv db'
    \<and> (if ao_created out
       then events_of (ac_work_id c) db' = events_of (ac_work_id c) db @ [ao_event out]
            \<and> sev_sequence (ao_event out) = int (length (events_of (ac_work_id c) db)) + 1
            \<and> map_option cw_row_version (work_lookup db' (ac_work_id c)) = Some (ac_observed_version c + 1)
       else db' = db)
    \<and> (\<forall>w. w \<noteq> ac_work_id c \<longrightarrow> events_of w db' = events_of w db \<and> work_lookup db' w = work_lookup db w)"
proof -
  have keys: "work_keys db" using assms(1) by (simp add: events_inv_def)
  from keys assms(2) show ?thesis
  proof (cases rule: append_cases)
    case (replay e)
    with assms(1) show ?thesis by simp
  next
    case (created w)
    let ?e = "new_event new c db (cw_row_version w)"
    have seq: "sev_sequence ?e = int (length (events_of (ac_work_id c) db)) + 1"
      using next_sequence_inv [OF assms(1)] by (simp add: new_event_def)
    have ev: "sev_work_id ?e = ac_work_id c" "sev_id ?e = new"
      "sev_operation_id ?e = Some (ac_operation_id c)" "sev_result_version ?e = cw_row_version w + 1"
      by (simp_all add: new_event_def)
    have fresh: "new \<notin> set (map sev_id (cdb_events db))"
      "Some (ac_operation_id c) \<notin> set (map sev_operation_id (cdb_events db))"
      using created(3) ev by (auto simp: event_conflict_def list_ex_iff)
    have look: "work_lookup db' u = (if u = ac_work_id c then Some (w\<lparr>cw_row_version := cw_row_version w + 1\<rparr>)
        else work_lookup db u)" for u
      using created(1) by (simp add: created(5) bump_lookup)
    have "events_inv db'"
      unfolding events_inv_def
    proof (intro conjI allI ballI)
      show "work_keys db'" using keys by (simp add: created(5))
      show "distinct (map sev_id (cdb_events db'))"
        using assms(1) fresh(1) ev by (simp add: created(5) events_inv_def)
      show "distinct (map sev_operation_id (filter (\<lambda>e. sev_operation_id e \<noteq> None) (cdb_events db')))"
        using assms(1) fresh(2) ev by (auto simp: created(5) events_inv_def)
      show "map sev_sequence (events_of u db') = [1..int (length (events_of u db'))]" for u
        using assms(1) seq ev by (simp add: created(5) events_inv_def upto_snoc add.commute [of 1])
      fix e
      assume "e \<in> set (cdb_events db')"
      then consider "e = ?e" | "e \<in> set (cdb_events db)" by (auto simp: created(5))
      then show "\<exists>c. work_lookup db' (sev_work_id e) = Some c \<and> sev_result_version e \<le> cw_row_version c"
      proof cases
        case 1
        then show ?thesis using ev by (simp add: look)
      next
        case 2
        with assms(1) obtain x where "work_lookup db (sev_work_id e) = Some x"
          "sev_result_version e \<le> cw_row_version x" by (auto simp: events_inv_def)
        with created(1) show ?thesis by (auto simp: look)
      qed
    qed
    with seq ev created look show ?thesis by simp
  qed
qed

text \<open>
  C8. Appending keeps the stream: a new event continues the work's stream with the next sequence
  number and raises the work's version by one, a repeated operation changes nothing, the other
  works keep their streams and versions, and the invariant (no gaps, unique ids and operation
  ids, events never ahead of their work's version) holds throughout.
\<close>

theorem append_keeps_stream:
  assumes "events_inv db" and "append_locked new c db = Inr (out, db')"
  shows "events_inv db'
    \<and> (if ao_created out
       then events_of (ac_work_id c) db' = events_of (ac_work_id c) db @ [ao_event out]
            \<and> sev_sequence (ao_event out) = int (length (events_of (ac_work_id c) db)) + 1
            \<and> map_option cw_row_version (work_lookup db' (ac_work_id c)) = Some (ac_observed_version c + 1)
       else db' = db)
    \<and> (\<forall>w. w \<noteq> ac_work_id c \<longrightarrow> events_of w db' = events_of w db \<and> work_lookup db' w = work_lookup db w)"
  using assms by (rule append_stream)

text \<open>Histories of appends and row replacements.\<close>

inductive stream_step :: "canon_db \<Rightarrow> canon_db \<Rightarrow> bool" where
  step_append: "append_locked new c db = Inr (out, db') \<Longrightarrow> stream_step db db'"
| step_replace: "replace_work casefold item db = Inr (out, db') \<Longrightarrow> stream_step db db'"

abbreviation stream_steps :: "canon_db \<Rightarrow> canon_db \<Rightarrow> bool" where
  "stream_steps \<equiv> stream_step\<^sup>*\<^sup>*"

text \<open>A write that leaves the events and only raises versions keeps the invariant.\<close>

lemma events_inv_mono:
  assumes "events_inv db" and "work_keys db'" and "cdb_events db' = cdb_events db"
    and "\<And>w x. work_lookup db w = Some x \<Longrightarrow>
      \<exists>d. work_lookup db' w = Some d \<and> cw_row_version x \<le> cw_row_version d"
  shows "events_inv db'"
proof -
  have "\<exists>c. work_lookup db' (sev_work_id e) = Some c \<and> sev_result_version e \<le> cw_row_version c"
    if "e \<in> set (cdb_events db)" for e
    using assms(1) that assms(4) unfolding events_inv_def by (meson order_trans)
  with assms(1-3) show ?thesis unfolding events_inv_def events_of_def by simp
qed

lemma replace_events_inv:
  assumes "events_inv db" and "replace_work casefold item db = Inr (out, db')"
  shows "events_inv db'"
proof -
  have keys: "work_keys db" using assms(1) by (simp add: events_inv_def)
  note run = replace_work_run [OF keys assms(2)]
  show ?thesis
  proof (rule events_inv_mono [OF assms(1) run(3,4)])
    fix w x
    assume "work_lookup db w = Some x"
    then show "\<exists>d. work_lookup db' w = Some d \<and> cw_row_version x \<le> cw_row_version d"
      using run(1) run(2) [of w] by (cases "w = cw_work_id item") auto
  qed
qed

lemma stream_step_inv:
  assumes "stream_step db db'" and "events_inv db"
  shows "events_inv db' \<and> set (cdb_events db) \<subseteq> set (cdb_events db')"
  using assms
proof (cases rule: stream_step.cases)
  case (step_append new c out)
  have keys: "work_keys db" using assms(2) by (simp add: events_inv_def)
  from keys step_append have "set (cdb_events db) \<subseteq> set (cdb_events db')"
    by (cases rule: append_cases) auto
  with append_stream [OF assms(2) step_append] show ?thesis by simp
next
  case (step_replace casefold item out)
  have keys: "work_keys db" using assms(2) by (simp add: events_inv_def)
  from replace_events_inv [OF assms(2) step_replace] replace_work_run(4) [OF keys step_replace]
  show ?thesis by simp
qed

lemma stream_steps_inv:
  assumes "stream_steps db db'" and "events_inv db"
  shows "events_inv db' \<and> set (cdb_events db) \<subseteq> set (cdb_events db')"
  using assms by (induction rule: rtranclp_induct) (auto dest: stream_step_inv)

lemma event_found:
  assumes "events_inv db" and "e \<in> set (cdb_events db)" and "sev_operation_id e = Some op"
  shows "one_or_none (filter (\<lambda>e. sev_operation_id e = Some op) (cdb_events db)) = Inr (Some e)"
proof -
  let ?ops = "filter (\<lambda>e. sev_operation_id e \<noteq> None) (cdb_events db)"
  have "filter (\<lambda>e. sev_operation_id e = Some op) (cdb_events db)
      = filter (\<lambda>e. sev_operation_id e = Some op) ?ops" by (auto intro: filter_cong)
  moreover have "distinct (map sev_operation_id ?ops)" using assms(1) by (simp add: events_inv_def)
  from filter_key_distinct [OF this, of "Some op"]
  have "filter (\<lambda>e. sev_operation_id e = Some op) ?ops = [e]"
  proof (elim disjE exE conjE)
    assume "filter (\<lambda>r. sev_operation_id r = Some op) ?ops = []"
    with assms(2,3) show ?thesis by (auto simp: filter_empty_conv)
  next
    fix r
    assume r: "filter (\<lambda>r. sev_operation_id r = Some op) ?ops = [r]"
    have "e \<in> set (filter (\<lambda>r. sev_operation_id r = Some op) ?ops)" using assms(2,3) by simp
    with r have "e = r" by (simp only: list.set singleton_iff)
    with r show ?thesis by (simp only:)
  qed
  ultimately show ?thesis by simp
qed

text \<open>
  Appends are idempotent by operation id: once an append succeeded, every repetition of the
  same request, after any later appends and replacements and whatever version it claims to
  have observed, returns the very same event and version and changes nothing.
\<close>

theorem append_idempotent:
  assumes "events_inv db" and "append_locked new c db = Inr (out, db1)" and "stream_steps db1 db2"
  shows "append_locked new' (c\<lparr>ac_observed_version := v\<rparr>) db2 = Inr (out\<lparr>ao_created := False\<rparr>, db2)"
proof -
  let ?c = "c\<lparr>ac_observed_version := v\<rparr>"
  have keys: "work_keys db" using assms(1) by (simp add: events_inv_def)
  have inv1: "events_inv db1" using append_stream [OF assms(1,2)] by simp
  from stream_steps_inv [OF assms(3) inv1] have inv2: "events_inv db2"
    and sub: "set (cdb_events db1) \<subseteq> set (cdb_events db2)" by simp_all
  have e: "ao_event out \<in> set (cdb_events db1)" "sev_operation_id (ao_event out) = Some (ac_operation_id c)"
    "same_append ?c (ao_event out)" "ao_row_version out = sev_result_version (ao_event out)"
    using keys assms(2) by (cases rule: append_cases; simp add: same_append_def new_event_def)+
  have checks: "\<not> (ac_subtype c = [] \<or> has_nul (ac_subtype c))"
    "\<not> (case ac_text c of None \<Rightarrow> False | Some t \<Rightarrow> has_nul t)" "is_aware (ac_created_at c)"
    "ac_asana_story_gid c \<noteq> Some []"
    using assms(2) by (simp_all add: append_locked_def split: if_splits)
  have "work_lookup db2 (ac_work_id c) \<noteq> None"
    using inv2 e(1,3) sub by (fastforce simp: events_inv_def same_append_def)
  then obtain w where "work_get_row (ac_work_id c) db2 = Inr (Some w)"
    using inv2 work_get_row_lookup by (auto simp: events_inv_def)
  moreover have "one_or_none (filter (\<lambda>e. sev_operation_id e = Some (ac_operation_id c)) (cdb_events db2))
      = Inr (Some (ao_event out))"
    using event_found [OF inv2 _ e(2)] e(1) sub by blast
  moreover have "out\<lparr>ao_created := False\<rparr> = \<lparr>ao_event = ao_event out,
      ao_row_version = sev_result_version (ao_event out), ao_created = False\<rparr>"
    using e(4) by (cases out) simp
  ultimately show ?thesis
    using checks e(3) by (simp add: append_locked_def append_known_def)
qed

section \<open>History pages\<close>

definition page_ok ::
  "(json \<Rightarrow> string) \<Rightarrow> (string \<Rightarrow> json option) \<Rightarrow> int \<Rightarrow> canon_db \<Rightarrow> bool" where
  "page_ok enc dec limit db =
     (events_inv db \<and> 1 \<le> limit \<and> limit \<le> 100
      \<and> (\<forall>a b c. dec (enc (JList [JInt a, JStr b, JInt c])) = Some (JList [JInt a, JStr b, JInt c])))"

definition page_at ::
  "(json \<Rightarrow> string) \<Rightarrow> uuid \<Rightarrow> canon_db \<Rightarrow> string option \<Rightarrow> nat \<Rightarrow> bool" where
  "page_at enc w db c n =
     (c = None \<and> n = 0 \<or> 0 < n \<and> c = Some (encode_event_cursor enc w (sev_sequence (events_of w db ! (n - 1)))))"

lemma events_sorted:
  assumes "events_inv db"
  shows "distinct (map sev_sequence (events_of w db))" and "sort_key sev_sequence (events_of w db) = events_of w db"
    and "e \<in> set (events_of w db) \<Longrightarrow> 1 \<le> sev_sequence e"
proof -
  have seq: "map sev_sequence (events_of w db) = [1..int (length (events_of w db))]"
    using assms by (simp add: events_inv_def)
  show "distinct (map sev_sequence (events_of w db))" unfolding seq by simp
  show "sort_key sev_sequence (events_of w db) = events_of w db"
    by (rule sort_key_id_if_sorted) (simp add: seq)
  show "1 \<le> sev_sequence e" if "e \<in> set (events_of w db)"
  proof -
    have "sev_sequence e \<in> set (map sev_sequence (events_of w db))" using that by simp
    then show ?thesis unfolding seq by simp
  qed
qed

interpretation history_pages: paged_source "page_ok enc dec limit"
  "event_page enc dec w limit" "events_of w" "nat limit" "page_at enc w"
  for enc dec w limit
proof (unfold_locales, goal_cases)
  case (1 db)
  then show ?case by (simp add: page_at_def)
next
  case (2 db)
  then show ?case by (simp add: page_ok_def)
next
  case (3 db c n)
  let ?rows = "events_of w db"
  from 3(1) have inv: "events_inv db" and lim: "1 \<le> limit" "limit \<le> 100"
    and codec: "\<forall>a b c. dec (enc (JList [JInt a, JStr b, JInt c])) = Some (JList [JInt a, JStr b, JInt c])"
    by (simp_all add: page_ok_def)
  note sorted = events_sorted [OF inv, where w = w]
  have all: "after_key sev_sequence None ?rows = ?rows" by (simp add: after_key_def sorted(2))
  define after where "after = (if n = 0 then None else Some (sev_sequence (?rows ! (n - 1))))"
  define pos where "pos = (case after of None \<Rightarrow> 0 | Some k \<Rightarrow> k)"
  have "1 \<le> sev_sequence (?rows ! (n - 1))" if "0 < n"
    using that 3(3) sorted(3) [of "?rows ! (n - 1)"] by simp
  then have dec: "(case c of None \<Rightarrow> Inr 0 | Some c \<Rightarrow> decode_event_cursor dec c w) = Inr pos"
    using 3(2) codec
    by (auto simp: page_at_def after_def pos_def decode_event_cursor_def encode_event_cursor_def)
  have "\<forall>r \<in> set ?rows. 0 < sev_sequence r" using sorted(3) by force
  then have zero: "after_key sev_sequence (Some 0) ?rows = after_key sev_sequence None ?rows"
    by (simp add: after_key_def filter_True cong: filter_cong)
  have kp: "key_page sev_sequence (nat limit) (Some pos) ?rows = key_page sev_sequence (nat limit) after ?rows"
    using zero by (simp add: key_page_def pos_def split: option.splits)
  have at: "after = None \<and> n = 0 \<or> 0 < n \<and> after = Some (sev_sequence (after_key sev_sequence None ?rows ! (n - 1)))"
    by (simp add: after_def all)
  note page = key_page_at [OF sorted(1) 3(3) _ at, of "nat limit", unfolded all]
  obtain pg nx where kpp: "key_page sev_sequence (nat limit) after ?rows = (pg, nx)" by fastforce
  have pg: "pg = take (nat limit) (drop n ?rows)"
    and nx: "nx = (if length ?rows \<le> n + nat limit then None
        else Some (sev_sequence (?rows ! (n + nat limit - 1))))"
    using page kpp lim(1) by simp_all
  have run: "event_page enc dec w limit db c = Inr (pg, map_option (encode_event_cursor enc w) nx)"
    using lim dec kp kpp by (simp add: event_page_def)
  show ?case
    unfolding run pg nx using lim(1) by (auto simp: page_at_def)
qed

text \<open>
  A work's history is complete: following the cursors from the first page, for any admissible
  limit, ends and returns every event of the work exactly once in sequence order, provided cursors
  decode to what they encode.
\<close>

theorem history_pages_complete:
  assumes "page_ok enc dec limit db" and "length (cdb_events db) < fuel"
  shows "history_pages.collect enc dec w limit fuel db None = Some (events_of w db)"
proof (rule history_pages.collect_all [OF assms(1)])
  have "length (events_of w db) \<le> length (cdb_events db)" by (simp add: events_of_def)
  with assms(2) show "length (events_of w db) < fuel" by simp
qed

section \<open>Concrete histories\<close>

definition demo_append :: "uuid \<Rightarrow> int \<Rightarrow> append_call" where
  "demo_append op v = \<lparr>ac_work_id = 1, ac_observed_version = v, ac_operation_id = op,
     ac_subtype = ''note'', ac_text = None, ac_created_at = Aware 5, ac_actor = None,
     ac_asana_story_gid = None\<rparr>"

lemma demo_canon_inv: "events_inv demo_canon"
  by (simp add: events_inv_def work_keys_def events_of_def demo_canon_def demo_current_def)

lemma demo_append_run:
  "\<exists>out db1. append_locked 90 (demo_append 7 1) demo_canon = Inr (out, db1) \<and> ao_created out"
  by (simp add: append_locked_def append_known_def work_get_row_def event_conflict_def demo_append_def
      demo_canon_def demo_current_def has_nul_def Let_def)

theorem append_keeps_stream_witness:
  "\<exists>out db1. append_locked 90 (demo_append 7 1) demo_canon = Inr (out, db1) \<and> events_inv db1
     \<and> events_of 1 db1 = [ao_event out]"
proof -
  obtain out db1 where run: "append_locked 90 (demo_append 7 1) demo_canon = Inr (out, db1)"
    "ao_created out" using demo_append_run by blast
  from append_keeps_stream [OF demo_canon_inv run(1)] run show ?thesis
    by (simp add: demo_append_def events_of_def demo_canon_def)
qed

theorem append_idempotent_witness:
  "\<exists>out db1. append_locked 90 (demo_append 7 1) demo_canon = Inr (out, db1)
     \<and> append_locked 91 ((demo_append 7 1)\<lparr>ac_observed_version := 9\<rparr>) db1 = Inr (out\<lparr>ao_created := False\<rparr>, db1)"
proof -
  obtain out db1 where run: "append_locked 90 (demo_append 7 1) demo_canon = Inr (out, db1)"
    using demo_append_run by blast
  from append_idempotent [OF demo_canon_inv run rtranclp.rtrancl_refl] run show ?thesis by blast
qed

definition demo_event_enc :: "json \<Rightarrow> string" where
  "demo_event_enc j = (case j of
     JList [JInt a, JStr b, JInt c] \<Rightarrow>
       (if a < 0 then ''-'' else ''+'') @ demo_enc1 (replicate (nat \<bar>a\<bar>) (CHR ''x''))
       @ (if c < 0 then ''-'' else ''+'') @ demo_enc1 (replicate (nat \<bar>c\<bar>) (CHR ''x'')) @ b
   | _ \<Rightarrow> [])"

definition demo_event_dec :: "string \<Rightarrow> json option" where
  "demo_event_dec s =
     (let sign = (\<lambda>s t. if hd s = CHR ''-'' then - int (length t) else int (length t));
          (a, r) = demo_dec1 (tl s); (c, b) = demo_dec1 (tl r)
      in Some (JList [JInt (sign s a), JStr b, JInt (sign r c)]))"

lemma demo_event_dec_enc:
  "demo_event_dec (demo_event_enc (JList [JInt a, JStr b, JInt c])) = Some (JList [JInt a, JStr b, JInt c])"
  by (auto simp: demo_event_dec_def demo_event_enc_def demo_dec1_enc1 Let_def)

theorem history_pages_complete_witness:
  "page_ok demo_event_enc demo_event_dec 1 demo_canon
   \<and> history_pages.collect demo_event_enc demo_event_dec 1 1 1 demo_canon None = Some []"
proof -
  have ok: "page_ok demo_event_enc demo_event_dec 1 demo_canon"
    by (simp add: page_ok_def demo_canon_inv demo_event_dec_enc)
  have "length (cdb_events demo_canon) < 1" by (simp add: demo_canon_def)
  from history_pages_complete [OF ok this, of 1] ok show ?thesis
    by (simp add: events_of_def demo_canon_def)
qed

end
