(* ===== verification/Work_Relations.thy ===== *)
theory Work_Relations
  imports Work_Events
begin

text \<open>
  Parents, dependencies and project memberships of canonical work
  (\<open>src/switchstand/tracker/relations.py\<close>). The recursive query that looks for a cycle is a walk
  with fuel: running out of fuel stands for a query that does not end, and is excluded below for
  every reachable parent table.
\<close>

section \<open>Operations\<close>

definition locked_version :: "uuid \<Rightarrow> int \<Rightarrow> canon_db \<Rightarrow> int py_result" where
  "locked_version w observed db =
     bindE (work_get_row w db) (\<lambda>row.
       case row of
         None \<Rightarrow> Inl LookupError
       | Some c \<Rightarrow> if cw_row_version c \<noteq> observed then Inl ValueError else Inr (cw_row_version c))"

definition work_exists :: "uuid \<Rightarrow> canon_db \<Rightarrow> bool" where
  "work_exists w db = (w \<in> set (map row_id (cdb_works db)))"

definition parent_of :: "canon_db \<Rightarrow> uuid \<Rightarrow> uuid option" where
  "parent_of db = map_of (cdb_parents db)"

text \<open>\<open>WITH RECURSIVE ancestors\<close>: the start and, from each row, its parent's row (a child has one).\<close>

fun ancestors :: "nat \<Rightarrow> (uuid \<Rightarrow> uuid option) \<Rightarrow> uuid \<Rightarrow> uuid list option" where
  "ancestors 0 p w = None"
| "ancestors (Suc fuel) p w =
     (case p w of None \<Rightarrow> Some [w] | Some q \<Rightarrow> map_option ((#) w) (ancestors fuel p q))"

definition replace_parent :: "uuid \<Rightarrow> uuid option \<Rightarrow> canon_db \<Rightarrow> canon_db" where
  "replace_parent w parent db =
     db\<lparr>cdb_parents := filter (\<lambda>r. fst r \<noteq> w) (cdb_parents db)
          @ (case parent of None \<Rightarrow> [] | Some q \<Rightarrow> [(w, q)])\<rparr>"

text \<open>\<open>set_parent\<close>; the outer \<open>None\<close> is a cycle query that does not end.\<close>

definition set_parent ::
  "uuid \<Rightarrow> uuid option \<Rightarrow> int \<Rightarrow> canon_db \<Rightarrow> (int \<times> canon_db) py_result option" where
  "set_parent w parent observed db =
     (if parent = Some w then Some (Inl ValueError)
      else case locked_version w observed db of
        Inl e \<Rightarrow> Some (Inl e)
      | Inr version \<Rightarrow>
          if parent_of db w = parent then Some (Inr (version, db))
          else
            (let write = Inr (version + 1, bump_version w (version + 1) (replace_parent w parent db))
             in case parent of
                  None \<Rightarrow> Some write
                | Some q \<Rightarrow>
                    if \<not> work_exists q db then Some (Inl LookupError)
                    else (case ancestors (Suc (length (cdb_parents db))) (parent_of db) q of
                            None \<Rightarrow> None
                          | Some as \<Rightarrow> if w \<in> set as then Some (Inl ValueError) else Some write)))"

definition change_dependency ::
  "uuid \<Rightarrow> uuid \<Rightarrow> bool \<Rightarrow> int \<Rightarrow> canon_db \<Rightarrow> (int \<times> canon_db) py_result" where
  "change_dependency w dep add observed db =
     (if dep = w then Inl ValueError
      else bindE (locked_version w observed db) (\<lambda>version.
        if \<not> work_exists dep db then Inl LookupError
        else if ((w, dep) \<in> set (cdb_deps db)) = add then Inr (version, db)
        else Inr (version + 1, bump_version w (version + 1)
               (db\<lparr>cdb_deps := if add then cdb_deps db @ [(w, dep)]
                    else filter (\<lambda>d. d \<noteq> (w, dep)) (cdb_deps db)\<rparr>))))"

abbreviation member_key :: "membership_row \<Rightarrow> uuid \<times> uuid" where
  "member_key m \<equiv> (mem_work_id m, mem_project_id m)"

definition change_project_membership ::
  "uuid \<Rightarrow> uuid \<Rightarrow> bool \<Rightarrow> int \<Rightarrow> canon_db \<Rightarrow> (int \<times> canon_db) py_result" where
  "change_project_membership w project add observed db =
     bindE (locked_version w observed db) (\<lambda>version.
       if project \<notin> set (map prj_id (cdb_projects db)) then Inl LookupError
       else if ((w, project) \<in> set (map member_key (cdb_members db))) = add then Inr (version, db)
       else
         (let db' = db\<lparr>cdb_members :=
                if add then cdb_members db @
                  [\<lparr>mem_project_id = project, mem_work_id = w, mem_section_name = None\<rparr>]
                else filter (\<lambda>m. member_key m \<noteq> (w, project)) (cdb_members db)\<rparr>
          in if ((w, project) \<in> set (map member_key (cdb_members db'))) \<noteq> add then Inl SQLAlchemyError
             else Inr (version + 1, bump_version w (version + 1) db')))"

record project_placement =
  plc_project_id :: uuid
  plc_name :: string
  plc_asana_project_gid :: "string option"
  plc_section_name :: "string option"

record work_relations =
  wrl_parent_work_id :: "uuid option"
  wrl_dependency_work_ids :: "uuid list"
  wrl_placements :: "project_placement list"

definition dependencies_of :: "uuid \<Rightarrow> canon_db \<Rightarrow> uuid list" where
  "dependencies_of w db = sort (map snd (filter (\<lambda>d. fst d = w) (cdb_deps db)))"

definition placements_of :: "uuid \<Rightarrow> canon_db \<Rightarrow> project_placement list" where
  "placements_of w db =
     sort_key (\<lambda>p. (plc_name p, plc_project_id p))
       (concat (map (\<lambda>p. map (\<lambda>m. \<lparr>plc_project_id = prj_id p, plc_name = prj_name p,
            plc_asana_project_gid = prj_asana_gid p, plc_section_name = mem_section_name m\<rparr>)
          (filter (\<lambda>m. mem_project_id m = prj_id p \<and> mem_work_id m = w) (cdb_members db)))
        (cdb_projects db)))"

definition relations_get :: "uuid \<Rightarrow> canon_db \<Rightarrow> work_relations py_result" where
  "relations_get w db =
     (if \<not> work_exists w db then Inl LookupError
      else Inr \<lparr>wrl_parent_work_id = parent_of db w, wrl_dependency_work_ids = dependencies_of w db,
        wrl_placements = placements_of w db\<rparr>)"

section \<open>The parent forest\<close>

definition forest :: "canon_db \<Rightarrow> bool" where
  "forest db =
     (distinct (map fst (cdb_parents db)) \<and> acyclic (set (cdb_parents db))
      \<and> (\<forall>(c, q) \<in> set (cdb_parents db). work_exists c db \<and> work_exists q db))"

lemma parent_of_iff: "forest db \<Longrightarrow> parent_of db w = Some q \<longleftrightarrow> (w, q) \<in> set (cdb_parents db)"
  unfolding forest_def parent_of_def by (rule map_of_eq_Some_iff) (erule conjunct1)

lemma reached_targets: "{a. (w, a) \<in> r\<^sup>+} \<subseteq> snd ` r"
proof
  fix a
  assume "a \<in> {a. (w, a) \<in> r\<^sup>+}"
  then have "(w, a) \<in> r\<^sup>+" by (rule CollectD)
  then have "a \<in> Range (r\<^sup>+)" by (rule RangeI)
  then have "a \<in> Range r" unfolding trancl_range .
  then show "a \<in> snd ` r" unfolding Range_snd .
qed

text \<open>The walk visits exactly the ancestors, and fuel beyond their number is enough.\<close>

lemma ancestors_walk:
  assumes "\<And>x q. p x = Some q \<longleftrightarrow> (x, q) \<in> r" and "acyclic r" and "finite r"
    and "card {a. (w, a) \<in> r\<^sup>+} < fuel"
  shows "\<exists>as. ancestors fuel p w = Some as \<and> set as = {a. (w, a) \<in> r\<^sup>*}"
  using assms(4)
proof (induction fuel arbitrary: w)
  case 0
  then show ?case by simp
next
  case (Suc fuel)
  show ?case
  proof (cases "p w")
    case None
    have "(w, q) \<notin> r" for q using None assms(1) [of w q] by simp
    then have "a = w" if "(w, a) \<in> r\<^sup>*" for a using that by (metis converse_rtranclE)
    then have "{a. (w, a) \<in> r\<^sup>*} = {w}" by blast
    with None show ?thesis by simp
  next
    case (Some q)
    then have e: "(w, q) \<in> r" using assms(1) by blast
    have only: "x = q" if "(w, x) \<in> r" for x using that Some assms(1) [of w x] by simp
    have "{a. (w, a) \<in> r\<^sup>+} \<subseteq> snd ` r" by (rule reached_targets)
    then have fin: "finite {a. (w, a) \<in> r\<^sup>+}" using assms(3) by (simp add: finite_subset)
    have "{a. (q, a) \<in> r\<^sup>+} \<subset> {a. (w, a) \<in> r\<^sup>+}"
    proof
      show "{a. (q, a) \<in> r\<^sup>+} \<subseteq> {a. (w, a) \<in> r\<^sup>+}"
        using trancl_into_trancl2 [OF e] by blast
      have "q \<in> {a. (w, a) \<in> r\<^sup>+}" using e by (simp add: r_into_trancl)
      moreover have "q \<notin> {a. (q, a) \<in> r\<^sup>+}" using assms(2) by (simp add: acyclic_def)
      ultimately show "{a. (q, a) \<in> r\<^sup>+} \<noteq> {a. (w, a) \<in> r\<^sup>+}" by metis
    qed
    from psubset_card_mono [OF fin this] have "card {a. (q, a) \<in> r\<^sup>+} < fuel"
      using Suc.prems by linarith
    from Suc.IH [OF this] obtain as where as: "ancestors fuel p q = Some as" "set as = {a. (q, a) \<in> r\<^sup>*}"
      by blast
    have "{a. (w, a) \<in> r\<^sup>*} = insert w {a. (q, a) \<in> r\<^sup>*}"
    proof (intro set_eqI iffI)
      fix a
      assume "a \<in> {a. (w, a) \<in> r\<^sup>*}"
      then have "(w, a) \<in> r\<^sup>*" by simp
      then show "a \<in> insert w {a. (q, a) \<in> r\<^sup>*}" by (cases rule: converse_rtranclE) (use only in auto)
    next
      fix a
      assume "a \<in> insert w {a. (q, a) \<in> r\<^sup>*}"
      then show "a \<in> {a. (w, a) \<in> r\<^sup>*}" using e converse_rtrancl_into_rtrancl [OF e] by blast
    qed
    with as Some show ?thesis by simp
  qed
qed

lemma ancestors_forest:
  assumes "forest db"
  shows "\<exists>as. ancestors (Suc (length (cdb_parents db))) (parent_of db) w = Some as
    \<and> set as = {a. (w, a) \<in> (set (cdb_parents db))\<^sup>*}"
proof (rule ancestors_walk)
  show "parent_of db x = Some q \<longleftrightarrow> (x, q) \<in> set (cdb_parents db)" for x q
    by (rule parent_of_iff [OF assms])
  show "acyclic (set (cdb_parents db))" using assms by (simp add: forest_def)
  have "{a. (w, a) \<in> (set (cdb_parents db))\<^sup>+} \<subseteq> set (map snd (cdb_parents db))"
    using reached_targets by simp
  then have "card {a. (w, a) \<in> (set (cdb_parents db))\<^sup>+} \<le> card (set (map snd (cdb_parents db)))"
    by (rule card_mono [rotated]) simp
  also have "\<dots> \<le> length (cdb_parents db)" using card_length [of "map snd (cdb_parents db)"] by simp
  finally show "card {a. (w, a) \<in> (set (cdb_parents db))\<^sup>+} < Suc (length (cdb_parents db))" by simp
qed simp

lemma locked_version_iff:
  assumes "work_keys db"
  shows "locked_version w observed db = Inr v
    \<longleftrightarrow> (\<exists>c. work_lookup db w = Some c \<and> cw_row_version c = observed \<and> v = observed)"
  using assms by (auto simp: locked_version_def work_get_row_lookup bindE_def split: option.splits)

lemma work_exists_lookup: "work_lookup db w = Some c \<Longrightarrow> work_exists w db"
  by (auto simp: work_lookup_def work_exists_def find_Some_iff)

lemma work_exists_bump [simp]: "work_exists u (bump_version w v db) = work_exists u db"
  by (auto simp: work_exists_def bump_version_def)

lemma work_exists_relations [simp]:
  "work_exists u (replace_parent w q db) = work_exists u db"
  "work_exists u (db\<lparr>cdb_deps := ds\<rparr>) = work_exists u db"
  "work_exists u (db\<lparr>cdb_members := ms\<rparr>) = work_exists u db"
  by (simp_all add: work_exists_def replace_parent_def)

lemma work_lookup_relations [simp]:
  "work_lookup (replace_parent w q db) u = work_lookup db u"
  "work_lookup (db\<lparr>cdb_deps := ds\<rparr>) u = work_lookup db u"
  "work_lookup (db\<lparr>cdb_members := ms\<rparr>) u = work_lookup db u"
  by (simp_all add: work_lookup_def replace_parent_def)

lemma relation_table_simps [simp]:
  "cdb_events (replace_parent w q db) = cdb_events db" "cdb_deps (replace_parent w q db) = cdb_deps db"
  "cdb_members (replace_parent w q db) = cdb_members db" "cdb_projects (replace_parent w q db) = cdb_projects db"
  "work_keys (replace_parent w q db) = work_keys db"
  "work_keys (db\<lparr>cdb_deps := ds\<rparr>) = work_keys db" "work_keys (db\<lparr>cdb_members := ms\<rparr>) = work_keys db"
  "cdb_members (bump_version w v db) = cdb_members db" "cdb_projects (bump_version w v db) = cdb_projects db"
  by (simp_all add: replace_parent_def work_keys_def bump_version_def)

lemma forest_bump [simp]: "forest (bump_version w v db) = forest db"
  by (simp add: forest_def)

lemma forest_tables [simp]:
  "forest (db\<lparr>cdb_deps := ds\<rparr>) = forest db" "forest (db\<lparr>cdb_members := ms\<rparr>) = forest db"
  by (simp_all add: forest_def)

lemma parent_of_bump [simp]: "parent_of (bump_version w v db) = parent_of db"
  by (simp add: parent_of_def)

lemma parent_of_replace: "parent_of (replace_parent w q db) = (parent_of db)(w := q)"
proof
  fix u
  have "map_of (filter (\<lambda>r. fst r \<noteq> w) ps) u = (if u = w then None else map_of ps u)" for ps :: "(uuid \<times> uuid) list"
    by (induction ps) auto
  then show "parent_of (replace_parent w q db) u = ((parent_of db)(w := q)) u"
    by (cases q) (auto simp: parent_of_def replace_parent_def map_add_def split: option.splits)
qed

lemma forest_clear: "forest db \<Longrightarrow> forest (replace_parent w None db)"
  by (auto simp: forest_def replace_parent_def work_exists_def distinct_map
      intro: acyclic_subset inj_on_subset)

text \<open>Re-parenting below a work that is not a descendant keeps the parent relation acyclic.\<close>

lemma forest_reparent:
  assumes "forest db" and "work_exists w db" and "work_exists q db" and "(q, w) \<notin> (set (cdb_parents db))\<^sup>*"
  shows "forest (replace_parent w (Some q) db)"
proof -
  let ?old = "set (cdb_parents db)" and ?rest = "set (filter (\<lambda>r. fst r \<noteq> w) (cdb_parents db))"
  have sub: "?rest \<subseteq> ?old" by auto
  have "acyclic ?rest" using assms(1) sub by (auto simp: forest_def intro: acyclic_subset)
  moreover have "(q, w) \<notin> ?rest\<^sup>*" using assms(4) rtrancl_mono [OF sub] by blast
  ultimately have acyc: "acyclic (insert (w, q) ?rest)" by simp
  have "distinct (map fst (cdb_parents (replace_parent w (Some q) db)))"
    using forest_clear [OF assms(1), of w] by (simp add: forest_def replace_parent_def) auto
  with acyc assms(1-3) show ?thesis
    by (auto simp: forest_def replace_parent_def work_exists_def)
qed

definition parent_allowed :: "uuid \<Rightarrow> uuid option \<Rightarrow> canon_db \<Rightarrow> bool" where
  "parent_allowed w parent db =
     (parent_of db w = parent \<or> parent = None
      \<or> (\<exists>q. parent = Some q \<and> work_exists q db \<and> (q, w) \<notin> (set (cdb_parents db))\<^sup>*))"

lemma set_parent_run:
  assumes "forest db" and "work_keys db"
  shows "set_parent w parent observed db = Some
     (if parent = Some w then Inl ValueError
      else case locked_version w observed db of
        Inl e \<Rightarrow> Inl e
      | Inr version \<Rightarrow>
          if parent_of db w = parent then Inr (version, db)
          else if parent_allowed w parent db
            then Inr (version + 1, bump_version w (version + 1) (replace_parent w parent db))
          else if \<exists>q. parent = Some q \<and> \<not> work_exists q db then Inl LookupError else Inl ValueError)"
proof (cases parent)
  case None
  then show ?thesis by (auto simp: set_parent_def parent_allowed_def split: sum.splits)
next
  case (Some q)
  obtain as where as: "ancestors (Suc (length (cdb_parents db))) (parent_of db) q = Some as"
    "set as = {a. (q, a) \<in> (set (cdb_parents db))\<^sup>*}"
    using ancestors_forest [OF assms(1)] by blast
  then show ?thesis using Some
    by (simp add: set_parent_def parent_allowed_def Let_def del: ancestors.simps split: sum.splits)
qed

lemma set_parent_accepts:
  assumes "forest db" and "work_keys db" and "set_parent w parent observed db = Some (Inr (v, db'))"
  shows "forest db' \<and> parent_of db' = (parent_of db)(w := parent)
    \<and> (if parent_of db w = parent then db' = db \<and> v = observed
        else v = observed + 1 \<and> db' = bump_version w v (replace_parent w parent db))"
proof -
  from assms(3) obtain ver where lv: "locked_version w observed db = Inr ver" and self: "parent \<noteq> Some w"
    by (auto simp: set_parent_run [OF assms(1,2)] split: if_splits sum.splits)
  then obtain c where c: "work_lookup db w = Some c" "ver = observed"
    using locked_version_iff [OF assms(2)] by auto
  show ?thesis
  proof (cases "parent_of db w = parent")
    case True
    with assms lv c self show ?thesis by (auto simp: set_parent_run)
  next
    case False
    with assms lv c self have ok: "parent_allowed w parent db" "v = observed + 1"
      "db' = bump_version w v (replace_parent w parent db)"
      by (auto simp: set_parent_run split: if_splits)
    have "forest (replace_parent w parent db)"
      using ok(1) False assms(1) work_exists_lookup [OF c(1)]
      by (auto simp: parent_allowed_def intro: forest_clear forest_reparent)
    with ok False show ?thesis by (simp add: parent_of_replace)
  qed
qed

text \<open>C7. On every database whose parent table is a forest, \<open>set_parent\<close> returns: its recursive cycle
  query ends. It succeeds exactly when the work is stored at the observed version, is not its own
  parent, and the new parent is absent, unchanged, or a stored work that is not a descendant; then
  exactly the one parent pointer changes, the table is still a forest, and the version grows by one
  iff the pointer changed.\<close>

theorem set_parent_total:
  assumes "forest db" and "work_keys db"
  shows "\<exists>r. set_parent w parent observed db = Some r
    \<and> ((\<exists>v db'. r = Inr (v, db')) \<longleftrightarrow>
         (\<exists>c. work_lookup db w = Some c \<and> cw_row_version c = observed) \<and> parent \<noteq> Some w
         \<and> (parent_of db w = parent \<or> parent = None
            \<or> (\<exists>q. parent = Some q \<and> work_exists q db \<and> (q, w) \<notin> (set (cdb_parents db))\<^sup>*)))
    \<and> (\<forall>v db'. r = Inr (v, db') \<longrightarrow> forest db' \<and> parent_of db' = (parent_of db)(w := parent)
         \<and> v = (if parent_of db w = parent then observed else observed + 1))"
proof -
  obtain r where r: "set_parent w parent observed db = Some r" using set_parent_run [OF assms] by blast
  have "(\<exists>v db'. r = Inr (v, db')) \<longleftrightarrow> (\<exists>ver. locked_version w observed db = Inr ver)
      \<and> parent \<noteq> Some w \<and> parent_allowed w parent db"
    using r by (auto simp: set_parent_run [OF assms] parent_allowed_def split: sum.splits if_splits)
  then show ?thesis using r set_parent_accepts [OF assms]
    by (auto simp: locked_version_iff [OF assms(2)] parent_allowed_def split: if_splits)
qed

section \<open>The relation tables stay well formed\<close>

definition relations_inv :: "canon_db \<Rightarrow> bool" where
  "relations_inv db =
     (forest db \<and> events_inv db \<and> distinct (cdb_deps db) \<and> distinct (map member_key (cdb_members db))
      \<and> (\<forall>(w, d) \<in> set (cdb_deps db). w \<noteq> d \<and> work_exists w db \<and> work_exists d db)
      \<and> (\<forall>m \<in> set (cdb_members db). work_exists (mem_work_id m) db
            \<and> mem_project_id m \<in> set (map prj_id (cdb_projects db))))"

lemma relations_inv_keys: "relations_inv db \<Longrightarrow> work_keys db"
  by (simp add: relations_inv_def events_inv_def)

text \<open>Replacing a row at its version touches no relation.\<close>

lemma replace_relations:
  assumes inv: "relations_inv db" and c: "work_lookup db (cw_work_id item) = Some c"
    and same: "cw_row_version c = cw_row_version item" "cw_admitted_at c = cw_admitted_at item"
    and run: "replace_locked casefold item db = Inr (out, db')"
  shows "relations_inv db'" and "out = item\<lparr>cw_row_version := cw_row_version item + 1\<rparr>"
    and "work_lookup db' u = (if u = cw_work_id item then Some out else work_lookup db u)"
    and "parent_of db' = parent_of db"
proof -
  note keys = relations_inv_keys [OF inv]
  have rep: "replace_work casefold item db = Inr (out, db')"
    using c same(1) run by (simp add: replace_work_def work_get_row_lookup [OF keys])
  note res = replace_work_run [OF keys rep]
  show out: "out = item\<lparr>cw_row_version := cw_row_version item + 1\<rparr>" using res(1) by blast
  show look: "work_lookup db' u = (if u = cw_work_id item then Some out else work_lookup db u)" for u
    using res(1) res(2) [of u] c same out by auto
  obtain rows where db': "db' = db\<lparr>cdb_works := rows\<rparr>"
    using run by (auto simp: replace_locked_def bindE_eq_Inr split: if_split_asm)
  then show "parent_of db' = parent_of db" by (simp add: parent_of_def)
  have "events_inv db'" using replace_events_inv [OF _ rep] inv by (simp add: relations_inv_def)
  moreover have "work_exists w db'" if ex: "work_exists w db" for w
  proof -
    from ex obtain d where "work_lookup db w = Some d"
      by (fastforce simp: work_exists_def work_lookup_def find_None_iff)
    then show ?thesis using look [of w] by (cases "w = cw_work_id item") (auto intro: work_exists_lookup)
  qed
  ultimately show "relations_inv db'" using inv by (auto simp: relations_inv_def forest_def db')
qed

inductive relation_step :: "canon_db \<Rightarrow> canon_db \<Rightarrow> bool" where
  step_parent: "set_parent w q n db = Some (Inr (v, db')) \<Longrightarrow> relation_step db db'"
| step_dependency: "change_dependency w d add n db = Inr (v, db') \<Longrightarrow> relation_step db db'"
| step_membership: "change_project_membership w p add n db = Inr (v, db') \<Longrightarrow> relation_step db db'"

text \<open>Any write of one work's relations bumps that work's version and nothing else of its row.\<close>

lemma events_inv_bump:
  assumes "events_inv db" and "work_lookup db w = Some c" and "cw_row_version c = n"
    and "cdb_events db' = cdb_events db" and "work_keys db'" and "\<And>u. work_lookup db' u = work_lookup db u"
  shows "events_inv (bump_version w (n + 1) db')"
  by (rule events_inv_mono [OF assms(1)]) (use assms in \<open>auto simp: bump_lookup\<close>)

lemma change_dependency_run:
  assumes "work_keys db" and "change_dependency w d add n db = Inr (v, db')"
  obtains c where "work_lookup db w = Some c" "cw_row_version c = n" "w \<noteq> d" "work_exists d db"
    "((w, d) \<in> set (cdb_deps db)) = add \<longrightarrow> db' = db"
    "((w, d) \<in> set (cdb_deps db)) \<noteq> add \<longrightarrow> db' = bump_version w (n + 1)
         (db\<lparr>cdb_deps := if add then cdb_deps db @ [(w, d)] else filter (\<lambda>e. e \<noteq> (w, d)) (cdb_deps db)\<rparr>)"
  using assms
  by (auto simp: change_dependency_def bindE_def locked_version_iff split: if_splits sum.splits)

lemma change_membership_run:
  assumes "work_keys db" and "change_project_membership w p add n db = Inr (v, db')"
  obtains c where "work_lookup db w = Some c" "cw_row_version c = n"
    "p \<in> set (map prj_id (cdb_projects db))"
    "((w, p) \<in> set (map member_key (cdb_members db))) = add \<longrightarrow> db' = db"
    "((w, p) \<in> set (map member_key (cdb_members db))) \<noteq> add \<longrightarrow> db' = bump_version w (n + 1) (db\<lparr>cdb_members :=
         if add then cdb_members db @ [\<lparr>mem_project_id = p, mem_work_id = w, mem_section_name = None\<rparr>]
         else filter (\<lambda>m. member_key m \<noteq> (w, p)) (cdb_members db)\<rparr>)"
  using assms
  by (auto simp: change_project_membership_def bindE_def locked_version_iff Let_def
      split: if_splits sum.splits)

text \<open>
  What hangs on a work beside its row: events, parent, dependencies and memberships. No write
  touches it for another work.
\<close>

definition work_links :: "uuid \<Rightarrow> canon_db
  \<Rightarrow> stored_event list \<times> uuid option \<times> (uuid \<times> uuid) list \<times> membership_row list" where
  "work_links w db =
     (events_of w db, parent_of db w, filter (\<lambda>d. fst d = w) (cdb_deps db),
      filter (\<lambda>m. mem_work_id m = w) (cdb_members db))"

lemma linked_simps [simp]:
  "work_links w (bump_version u v db) = work_links w db"
  "work_links w (db\<lparr>cdb_works := rows\<rparr>) = work_links w db"
  by (simp_all add: work_links_def parent_of_def events_of_def bump_version_def)

lemma linked_parent:
  assumes "set_parent w q n db = Some (Inr (v, db'))" and "u \<noteq> w"
  shows "work_links u db' = work_links u db"
proof -
  from assms(1) have "db' = db \<or> db' = bump_version w v (replace_parent w q db)"
    by (auto simp: set_parent_def Let_def split: if_split_asm sum.split_asm option.split_asm)
  moreover have "work_links u (replace_parent w q db) = work_links u db"
    using assms(2) by (simp add: work_links_def parent_of_replace) (simp add: events_of_def replace_parent_def)
  ultimately show ?thesis by auto
qed

lemma linked_dependency:
  assumes "change_dependency w d add n db = Inr (v, db')" and "u \<noteq> w"
  shows "work_links u db' = work_links u db"
proof -
  from assms(1) have "db' = db \<or> db' = bump_version w v (db\<lparr>cdb_deps := if add then cdb_deps db @ [(w, d)]
        else filter (\<lambda>e. e \<noteq> (w, d)) (cdb_deps db)\<rparr>)"
    by (auto simp: change_dependency_def bindE_eq_Inr split: if_split_asm)
  moreover have "filter (\<lambda>e. fst e = u) (filter (\<lambda>e. e \<noteq> (w, d)) ds) = filter (\<lambda>e. fst e = u) ds" for ds
    using assms(2) by (auto intro!: filter_cong)
  ultimately show ?thesis using assms(2)
    by (auto simp: work_links_def parent_of_def events_of_def bump_version_def split: if_split_asm)
qed

lemma linked_membership:
  assumes "change_project_membership w p add n db = Inr (v, db')" and "u \<noteq> w"
  shows "work_links u db' = work_links u db"
proof -
  from assms(1) have "db' = db \<or> db' = bump_version w v (db\<lparr>cdb_members :=
        if add then cdb_members db @ [\<lparr>mem_project_id = p, mem_work_id = w, mem_section_name = None\<rparr>]
        else filter (\<lambda>m. member_key m \<noteq> (w, p)) (cdb_members db)\<rparr>)"
    by (auto simp: change_project_membership_def bindE_eq_Inr Let_def split: if_split_asm)
  moreover have "filter (\<lambda>m. mem_work_id m = u) (filter (\<lambda>m. member_key m \<noteq> (w, p)) ms)
      = filter (\<lambda>m. mem_work_id m = u) ms" for ms
    using assms(2) by (auto intro!: filter_cong)
  ultimately show ?thesis using assms(2)
    by (auto simp: work_links_def parent_of_def events_of_def bump_version_def split: if_split_asm)
qed

lemma linked_replace: "replace_locked casefold item db = Inr (x, db') \<Longrightarrow> work_links u db' = work_links u db"
  by (auto simp: replace_locked_def bindE_eq_Inr split: if_split_asm)

lemma linked_create: "create_locked casefold now item db = Inr db' \<Longrightarrow> work_links u db' = work_links u db"
  by (auto simp: create_locked_def bindE_eq_Inr split: if_split_asm)

lemma links_append:
  assumes "append_locked new call db = Inr (x, db')" and "u \<noteq> ac_work_id call"
  shows "work_links u db' = work_links u db"
  using assms
  by (auto simp: append_locked_def append_known_def bindE_eq_Inr work_links_def parent_of_def events_of_def
      new_event_def bump_version_def Let_def split: if_split_asm option.split_asm)

lemma relations_inv_parent:
  assumes "relations_inv db" and "set_parent w q n db = Some (Inr (v, db'))"
  shows "relations_inv db'"
proof -
  have base: "forest db" "work_keys db" "events_inv db"
    using assms(1) relations_inv_keys by (simp_all add: relations_inv_def)
  obtain c where c: "work_lookup db w = Some c" "cw_row_version c = n"
    using assms(2) base locked_version_iff
    by (fastforce simp: set_parent_run split: if_splits sum.splits)
  note res = set_parent_accepts [OF base(1,2) assms(2)]
  show ?thesis
  proof (cases "parent_of db w = q")
    case True
    with res assms(1) show ?thesis by simp
  next
    case False
    with res have db': "db' = bump_version w (n + 1) (replace_parent w q db)" "forest db'" by auto
    have "events_inv db'" unfolding db' using base c by (intro events_inv_bump) auto
    with db' assms(1) show ?thesis by (simp add: relations_inv_def)
  qed
qed

lemma relations_inv_dependency:
  assumes "relations_inv db" and "change_dependency w d add n db = Inr (v, db')"
  shows "relations_inv db'"
proof -
  have base: "forest db" "work_keys db" "events_inv db"
    using assms(1) relations_inv_keys by (simp_all add: relations_inv_def)
  obtain c where c: "work_lookup db w = Some c" "cw_row_version c = n" "w \<noteq> d" "work_exists d db"
    "((w, d) \<in> set (cdb_deps db)) = add \<longrightarrow> db' = db"
    "((w, d) \<in> set (cdb_deps db)) \<noteq> add \<longrightarrow> db' = bump_version w (n + 1)
         (db\<lparr>cdb_deps := if add then cdb_deps db @ [(w, d)] else filter (\<lambda>e. e \<noteq> (w, d)) (cdb_deps db)\<rparr>)"
    by (rule change_dependency_run [OF base(2) assms(2)])
  show ?thesis
  proof (cases "((w, d) \<in> set (cdb_deps db)) = add")
    case True
    with c assms(1) show ?thesis by simp
  next
    case False
    note db' = c(6) [rule_format, OF False]
    have "events_inv db'" unfolding db' using base c by (intro events_inv_bump) auto
    moreover have "distinct (cdb_deps db')" using assms(1) False by (auto simp: db' relations_inv_def)
    ultimately show ?thesis using assms(1) c(3,4) work_exists_lookup [OF c(1)]
      by (auto simp: db' relations_inv_def)
  qed
qed

lemma relations_inv_membership:
  assumes "relations_inv db" and "change_project_membership w p add n db = Inr (v, db')"
  shows "relations_inv db'"
proof -
  have base: "forest db" "work_keys db" "events_inv db"
    using assms(1) relations_inv_keys by (simp_all add: relations_inv_def)
  let ?in = "(w, p) \<in> set (map member_key (cdb_members db))"
  obtain c where c: "work_lookup db w = Some c" "cw_row_version c = n"
    "p \<in> set (map prj_id (cdb_projects db))" "?in = add \<longrightarrow> db' = db"
    "?in \<noteq> add \<longrightarrow> db' = bump_version w (n + 1) (db\<lparr>cdb_members :=
         if add then cdb_members db @ [\<lparr>mem_project_id = p, mem_work_id = w, mem_section_name = None\<rparr>]
         else filter (\<lambda>m. member_key m \<noteq> (w, p)) (cdb_members db)\<rparr>)"
    by (rule change_membership_run [OF base(2) assms(2)])
  show ?thesis
  proof (cases "?in = add")
    case True
    with c assms(1) show ?thesis by simp
  next
    case False
    note db' = c(5) [rule_format, OF False]
    have "events_inv db'" unfolding db' using base c by (intro events_inv_bump) auto
    moreover have "distinct (map member_key (cdb_members db'))"
      using assms(1) False by (cases add) (auto simp: db' relations_inv_def distinct_map_filter)
    ultimately show ?thesis using assms(1) c(3) work_exists_lookup [OF c(1)]
      by (auto simp: db' relations_inv_def)
  qed
qed

text \<open>Whatever sequence of parent, dependency and membership changes succeeds, the relation tables
  stay well formed: the parents form a forest, no work depends on itself, rows are unique and refer
  to stored works and projects, and the work event streams keep their invariant.\<close>

theorem relation_steps_inv:
  assumes "relation_step\<^sup>*\<^sup>* db db'" and "relations_inv db"
  shows "relations_inv db'"
  using assms
proof (induction rule: rtranclp_induct)
  case (step db1 db2)
  then have inv: "relations_inv db1" by simp
  from step.hyps(2) show ?case
    by cases (use inv in \<open>auto dest: relations_inv_parent relations_inv_dependency relations_inv_membership\<close>)
qed

section \<open>A concrete re-parenting\<close>

lemma acyclic_empty: "acyclic {}"
  by (rule wf_acyclic) (rule wf_on_bot)

lemma demo_relations_inv: "relations_inv demo_canon"
  using demo_canon_inv
  by (simp add: relations_inv_def forest_def demo_canon_def acyclic_empty)

definition demo_family :: canon_db where
  "demo_family = demo_canon\<lparr>cdb_parents := [(1, 2)]\<rparr>"

lemma demo_family_forest: "forest demo_family" "work_keys demo_family"
  by (simp_all add: forest_def demo_family_def demo_canon_def demo_current_def work_exists_def work_keys_def
      acyclic_empty)

theorem set_parent_total_witness:
  "\<exists>r. set_parent 2 (Some 1) 1 demo_family = Some r \<and> \<not> (\<exists>v db'. r = Inr (v, db'))
     \<and> (\<exists>v db'. set_parent 1 None 1 demo_family = Some (Inr (v, db')) \<and> forest db' \<and> v = 2)"
proof -
  have cyc: "(1, 2) \<in> (set (cdb_parents demo_family))\<^sup>*"
    by (simp add: demo_family_def r_into_rtrancl)
  have p: "parent_of demo_family 2 = None" "parent_of demo_family 1 = Some 2"
    by (simp_all add: parent_of_def demo_family_def)
  have "work_lookup demo_family 1 = Some (demo_current 1 ''a'')"
    by (simp add: work_lookup_def demo_family_def demo_canon_def demo_current_def)
  with set_parent_total [OF demo_family_forest, of 2 "Some 1" 1]
    set_parent_total [OF demo_family_forest, of 1 None 1] cyc p
  show ?thesis by (auto simp: demo_current_def)
qed

theorem relation_steps_inv_witness:
  "\<exists>db'. relation_step\<^sup>*\<^sup>* demo_canon db' \<and> cdb_deps db' = [(1, 2)] \<and> relations_inv db'"
proof -
  obtain v db' where run: "change_dependency 1 2 True 1 demo_canon = Inr (v, db')" "cdb_deps db' = [(1, 2)]"
    by (simp add: change_dependency_def locked_version_def work_get_row_def work_exists_def bindE_def
        demo_canon_def demo_current_def bump_version_def)
  have steps: "relation_step\<^sup>*\<^sup>* demo_canon db'" using run(1) by (blast intro: relation_step.intros)
  from relation_steps_inv [OF steps demo_relations_inv] steps run(2) show ?thesis by blast
qed

end
