(* ===== verification/Lifecycle.thy ===== *)
theory Lifecycle
  imports Py_Ident Cas_Register
begin

text \<open>
  Required-result persistence (\<open>src/switchstand/lifecycle.py\<close>): the obligation table with its
  \<open>CHECK\<close> constraints, the compare-and-replace repository, and the closed transition table with
  the continuation it projects. \<open>json.dumps\<close> of the evidence is the parameter \<open>dumps\<close>; a
  mapping passed as evidence is a JSON object.
\<close>

section \<open>Obligations\<close>

datatype profile_state = Pending_result | Persist_required | Unknown_state | Terminal_state

datatype continuation_kind =
  Continue_current_work | Persist_result | Reconcile_unknown | Terminal_kind

datatype lifecycle_event =
    Result_ready
  | Persist_readback_matched
  | Persist_outcome_ambiguous
  | Reconciliation_no_match_safe_to_retry
  | Currentness_stale
  | Currentness_unknown

record obligation =
  ob_id :: uuid
  ob_work_id_ref :: uuid
  ob_currentness_token :: string
  ob_state :: profile_state
  ob_row_version :: int
  ob_destination_ref :: "string option"
  ob_result_correlation :: "string option"
  ob_readback_evidence :: "string option"
  ob_unknown_reason :: "lifecycle_event option"
  ob_unknown_evidence :: "string option"

definition unknown_reasons :: "lifecycle_event set" where
  "unknown_reasons = {Persist_outcome_ambiguous, Currentness_stale, Currentness_unknown}"

definition bounded_evidence :: "string option \<Rightarrow> bool" where
  "bounded_evidence e = (case e of None \<Rightarrow> True | Some s \<Rightarrow> 1 \<le> length s \<and> length s \<le> 8000)"

text \<open>\<open>valid_state_fields\<close>, after the two pairing checks.\<close>

definition valid_state_fields :: "obligation \<Rightarrow> bool" where
  "valid_state_fields ob =
     (let has_pair = ob_destination_ref ob \<noteq> None;
          has_readback = ob_readback_evidence ob \<noteq> None;
          has_unknown = ob_unknown_reason ob \<noteq> None \<and> ob_unknown_evidence ob \<noteq> None
      in (ob_destination_ref ob = None) = (ob_result_correlation ob = None)
         \<and> (ob_unknown_reason ob = None) = (ob_unknown_evidence ob = None)
         \<and> (case ob_state ob of
              Pending_result \<Rightarrow> \<not> has_pair \<and> \<not> has_readback \<and> \<not> has_unknown
            | Persist_required \<Rightarrow> has_pair \<and> \<not> has_readback \<and> \<not> has_unknown
            | Unknown_state \<Rightarrow> \<not> has_readback \<and> has_unknown
            | Terminal_state \<Rightarrow> has_pair \<and> has_readback \<and> \<not> has_unknown))"

definition valid_obligation :: "obligation \<Rightarrow> bool" where
  "valid_obligation ob =
     (ob_currentness_token ob \<noteq> [] \<and> 1 \<le> ob_row_version ob \<and> opt_min1 (ob_destination_ref ob)
      \<and> opt_min1 (ob_result_correlation ob) \<and> bounded_evidence (ob_readback_evidence ob)
      \<and> (case ob_unknown_reason ob of None \<Rightarrow> True | Some r \<Rightarrow> r \<in> unknown_reasons)
      \<and> bounded_evidence (ob_unknown_evidence ob) \<and> valid_state_fields ob)"

text \<open>The table's own \<open>CHECK\<close> constraints.\<close>

definition lifecycle_checks :: "obligation \<Rightarrow> bool" where
  "lifecycle_checks ob =
     (0 < length (ob_currentness_token ob) \<and> 1 \<le> ob_row_version ob
      \<and> (ob_destination_ref ob = None) = (ob_result_correlation ob = None)
      \<and> (case ob_destination_ref ob of None \<Rightarrow> True | Some s \<Rightarrow> 0 < length s)
      \<and> (case ob_result_correlation ob of None \<Rightarrow> True | Some s \<Rightarrow> 0 < length s)
      \<and> bounded_evidence (ob_readback_evidence ob)
      \<and> (case ob_unknown_reason ob of None \<Rightarrow> True | Some r \<Rightarrow> r \<in> unknown_reasons)
      \<and> bounded_evidence (ob_unknown_evidence ob)
      \<and> (ob_state ob = Pending_result \<and> ob_destination_ref ob = None
           \<and> ob_readback_evidence ob = None \<and> ob_unknown_reason ob = None \<and> ob_unknown_evidence ob = None
         \<or> ob_state ob = Persist_required \<and> ob_destination_ref ob \<noteq> None
           \<and> ob_readback_evidence ob = None \<and> ob_unknown_reason ob = None \<and> ob_unknown_evidence ob = None
         \<or> ob_state ob = Unknown_state
           \<and> ob_readback_evidence ob = None \<and> ob_unknown_reason ob \<noteq> None \<and> ob_unknown_evidence ob \<noteq> None
         \<or> ob_state ob = Terminal_state \<and> ob_destination_ref ob \<noteq> None
           \<and> ob_readback_evidence ob \<noteq> None \<and> ob_unknown_reason ob = None \<and> ob_unknown_evidence ob = None))"

record lifecycle_db =
  ldb_rows :: "obligation list"
  ldb_handles :: "uuid list"

definition validated :: "obligation \<Rightarrow> obligation py_result" where
  "validated ob = (if valid_obligation ob then Inr ob else Inl ValidationError)"

section \<open>Repository\<close>

definition lifecycle_create ::
  "uuid \<Rightarrow> uuid \<Rightarrow> string \<Rightarrow> lifecycle_db \<Rightarrow> (obligation \<times> lifecycle_db) py_result" where
  "lifecycle_create oid wid token db =
     bindE (validated \<lparr>ob_id = oid, ob_work_id_ref = wid, ob_currentness_token = token,
              ob_state = Pending_result, ob_row_version = 1, ob_destination_ref = None,
              ob_result_correlation = None, ob_readback_evidence = None, ob_unknown_reason = None,
              ob_unknown_evidence = None\<rparr>)
       (\<lambda>ob. if oid \<in> set (map ob_id (ldb_rows db)) \<or> wid \<notin> set (ldb_handles db) \<or> \<not> lifecycle_checks ob
             then Inl IntegrityError
             else bindE (validated ob) (\<lambda>row. Inr (row, db\<lparr>ldb_rows := ldb_rows db @ [ob]\<rparr>)))"

definition lifecycle_get :: "uuid \<Rightarrow> lifecycle_db \<Rightarrow> obligation option py_result" where
  "lifecycle_get oid db =
     bindE (one_or_none (filter (\<lambda>r. ob_id r = oid) (ldb_rows db)))
       (\<lambda>row. case row of None \<Rightarrow> Inr None | Some r \<Rightarrow> map_sum id Some (validated r))"

text \<open>
  \<open>UPDATE ... WHERE ... RETURNING\<close>: the matching rows are rewritten, the constraints checked, and
  the updated rows returned.
\<close>

definition lifecycle_update ::
  "(obligation \<Rightarrow> bool) \<Rightarrow> (obligation \<Rightarrow> obligation) \<Rightarrow> lifecycle_db
     \<Rightarrow> (obligation option \<times> lifecycle_db) py_result" where
  "lifecycle_update matches change db =
     (let hit = filter matches (ldb_rows db)
      in if \<exists>r \<in> set hit. \<not> lifecycle_checks (change r) then Inl IntegrityError
         else map_sum id (\<lambda>row. (row, db\<lparr>ldb_rows := map (\<lambda>r. if matches r then change r else r) (ldb_rows db)\<rparr>))
                (one_or_none (map change hit)))"

definition lifecycle_replace ::
  "obligation \<Rightarrow> int \<Rightarrow> lifecycle_db \<Rightarrow> (obligation \<times> lifecycle_db) py_result" where
  "lifecycle_replace new expected db =
     (if expected < 1 then Inl ValueError
      else if ob_row_version new \<noteq> expected + 1 then Inl ValueError
      else bindE (lifecycle_update
             (\<lambda>r. ob_id r = ob_id new \<and> ob_row_version r = expected
                  \<and> ob_work_id_ref r = ob_work_id_ref new
                  \<and> ob_currentness_token r = ob_currentness_token new)
             (\<lambda>r. r\<lparr>ob_state := ob_state new, ob_row_version := ob_row_version new,
                    ob_destination_ref := ob_destination_ref new,
                    ob_result_correlation := ob_result_correlation new,
                    ob_readback_evidence := ob_readback_evidence new,
                    ob_unknown_reason := ob_unknown_reason new,
                    ob_unknown_evidence := ob_unknown_evidence new\<rparr>) db)
           (\<lambda>(row, db'). case row of
              None \<Rightarrow> Inl ValueError
            | Some r \<Rightarrow> bindE (validated r) (\<lambda>ob. Inr (ob, db'))))"

definition adopt_currentness ::
  "obligation \<Rightarrow> string \<Rightarrow> lifecycle_db \<Rightarrow> (obligation \<times> lifecycle_db) py_result" where
  "adopt_currentness ob token db =
     (if ob_state ob \<notin> {Pending_result, Persist_required} then Inl ValueError
      else bindE (lifecycle_update
             (\<lambda>r. ob_id r = ob_id ob \<and> ob_row_version r = ob_row_version ob
                  \<and> ob_currentness_token r = ob_currentness_token ob \<and> ob_state r = ob_state ob)
             (\<lambda>r. r\<lparr>ob_currentness_token := token, ob_row_version := ob_row_version ob + 1\<rparr>) db)
           (\<lambda>(row, db'). case row of
              None \<Rightarrow> Inl ValueError
            | Some r \<Rightarrow> bindE (validated r) (\<lambda>ob'. Inr (ob', db'))))"

section \<open>Transitions and continuations\<close>

definition encoded_evidence :: "(json \<Rightarrow> string) \<Rightarrow> json option \<Rightarrow> string py_result" where
  "encoded_evidence dumps evidence =
     (case evidence of
        None \<Rightarrow> Inl ValueError
      | Some e \<Rightarrow>
          let encoded = dumps e
          in if encoded = [] \<or> 8000 < length encoded then Inl ValueError else Inr encoded)"

definition required_obligation :: "uuid \<Rightarrow> lifecycle_db \<Rightarrow> obligation py_result" where
  "required_obligation oid db =
     bindE (lifecycle_get oid db) (\<lambda>ob. case ob of None \<Rightarrow> Inl ValueError | Some x \<Rightarrow> Inr x)"

record continuation_result =
  cn_kind :: continuation_kind
  cn_destination_ref :: "string option"
  cn_result_correlation :: "string option"

definition valid_continuation :: "continuation_result \<Rightarrow> bool" where
  "valid_continuation c =
     (opt_min1 (cn_destination_ref c) \<and> opt_min1 (cn_result_correlation c)
      \<and> (cn_destination_ref c = None) = (cn_result_correlation c = None)
      \<and> (cn_kind c = Persist_result) = (cn_destination_ref c \<noteq> None \<and> cn_result_correlation c \<noteq> None))"

definition continuation_of :: "continuation_result \<Rightarrow> continuation_result py_result" where
  "continuation_of c = (if valid_continuation c then Inr c else Inl ValidationError)"

abbreviation bare_continuation :: "continuation_kind \<Rightarrow> continuation_result" where
  "bare_continuation k \<equiv> \<lparr>cn_kind = k, cn_destination_ref = None, cn_result_correlation = None\<rparr>"

definition continuation :: "uuid \<Rightarrow> string \<Rightarrow> lifecycle_db \<Rightarrow> continuation_result py_result" where
  "continuation oid token db =
     bindE (required_obligation oid db) (\<lambda>ob.
       if token \<noteq> ob_currentness_token ob then continuation_of (bare_continuation Reconcile_unknown)
       else if ob_state ob = Pending_result then continuation_of (bare_continuation Continue_current_work)
       else if ob_state ob = Persist_required then
         continuation_of \<lparr>cn_kind = Persist_result, cn_destination_ref = ob_destination_ref ob,
           cn_result_correlation = ob_result_correlation ob\<rparr>
       else if ob_state ob = Unknown_state then continuation_of (bare_continuation Reconcile_unknown)
       else continuation_of (bare_continuation Terminal_kind))"

text \<open>\<open>evidence.get(key) != value\<close>: a missing key reads as \<open>None\<close>.\<close>

definition evidence_matches :: "json \<Rightarrow> string \<Rightarrow> string option \<Rightarrow> bool" where
  "evidence_matches e key v =
     ((case json_get e key of None \<Rightarrow> JNull | Some x \<Rightarrow> x) = json_opt JStr v)"

text \<open>The changes an event makes to the current obligation.\<close>

definition transition_changes ::
  "(json \<Rightarrow> string) \<Rightarrow> lifecycle_event \<Rightarrow> string option \<Rightarrow> string option \<Rightarrow> json option
     \<Rightarrow> obligation \<Rightarrow> obligation py_result" where
  "transition_changes dumps event dest corr evidence current =
     (if event = Result_ready then
        (if ob_state current \<noteq> Pending_result then Inl ValueError
         else if dest = None \<or> corr = None then Inl ValueError
         else Inr (current\<lparr>ob_state := Persist_required, ob_destination_ref := dest,
                ob_result_correlation := corr\<rparr>))
      else if event = Persist_outcome_ambiguous then
        (if ob_state current \<noteq> Persist_required then Inl ValueError
         else map_sum id (\<lambda>s. current\<lparr>ob_state := Unknown_state, ob_unknown_reason := Some event,
                ob_unknown_evidence := Some s\<rparr>) (encoded_evidence dumps evidence))
      else if event = Currentness_stale \<or> event = Currentness_unknown then
        map_sum id (\<lambda>s. current\<lparr>ob_state := Unknown_state, ob_unknown_reason := Some event,
                ob_unknown_evidence := Some s\<rparr>) (encoded_evidence dumps evidence)
      else if event = Reconciliation_no_match_safe_to_retry then
        (if ob_state current \<noteq> Unknown_state \<or> ob_destination_ref current = None
            \<or> ob_unknown_reason current \<noteq> Some Persist_outcome_ambiguous then Inl ValueError
         else Inr (current\<lparr>ob_state := Persist_required, ob_unknown_reason := None,
                ob_unknown_evidence := None\<rparr>))
      else
        (if ob_state current = Unknown_state
            \<and> ob_unknown_reason current \<noteq> Some Persist_outcome_ambiguous then Inl ValueError
         else if ob_state current \<notin> {Persist_required, Unknown_state} then Inl ValueError
         else case evidence of
           None \<Rightarrow> Inl ValueError
         | Some e \<Rightarrow>
             if \<not> evidence_matches e ''destination_ref'' (ob_destination_ref current)
                \<or> \<not> evidence_matches e ''result_correlation'' (ob_result_correlation current)
             then Inl ValueError
             else map_sum id (\<lambda>s. current\<lparr>ob_state := Terminal_state, ob_readback_evidence := Some s,
                    ob_unknown_reason := None, ob_unknown_evidence := None\<rparr>)
                    (encoded_evidence dumps evidence)))"

definition transition ::
  "(json \<Rightarrow> string) \<Rightarrow> uuid \<Rightarrow> string \<Rightarrow> lifecycle_event \<Rightarrow> string option \<Rightarrow> string option
     \<Rightarrow> json option \<Rightarrow> lifecycle_db \<Rightarrow> (obligation \<times> lifecycle_db) py_result" where
  "transition dumps oid token event dest corr evidence db =
     bindE (required_obligation oid db) (\<lambda>current.
       if token \<noteq> ob_currentness_token current then Inl ValueError
       else if ob_state current = Terminal_state then Inl ValueError
       else bindE (transition_changes dumps event dest corr evidence current) (\<lambda>changed.
         lifecycle_replace (changed\<lparr>ob_row_version := ob_row_version current + 1\<rparr>)
           (ob_row_version current) db))"

section \<open>The constraints and the model agree\<close>

lemma checks_valid: "lifecycle_checks ob = valid_obligation ob"
  by (cases "ob_state ob")
    (auto simp: lifecycle_checks_def valid_obligation_def valid_state_fields_def opt_min1_def Let_def
      split: option.splits)

definition lifecycle_inv :: "lifecycle_db \<Rightarrow> bool" where
  "lifecycle_inv db =
     (distinct (map ob_id (ldb_rows db))
      \<and> (\<forall>r \<in> set (ldb_rows db). valid_obligation r \<and> ob_work_id_ref r \<in> set (ldb_handles db)
           \<and> (ob_unknown_reason r = Some Persist_outcome_ambiguous \<longrightarrow> ob_destination_ref r \<noteq> None)))"

definition ob_lookup :: "lifecycle_db \<Rightarrow> uuid \<Rightarrow> obligation option" where
  "ob_lookup db oid = find (\<lambda>r. ob_id r = oid) (ldb_rows db)"

definition put_row :: "obligation \<Rightarrow> lifecycle_db \<Rightarrow> lifecycle_db" where
  "put_row new db = db\<lparr>ldb_rows := map (\<lambda>r. if ob_id r = ob_id new then new else r) (ldb_rows db)\<rparr>"

lemma ob_lookup_Some: "ob_lookup db oid = Some r \<Longrightarrow> r \<in> set (ldb_rows db) \<and> ob_id r = oid"
  by (auto simp: ob_lookup_def find_Some_iff)

lemma ob_lookup_None: "ob_lookup db oid = None \<longleftrightarrow> oid \<notin> set (map ob_id (ldb_rows db))"
  unfolding ob_lookup_def by (rule find_key_None)

lemma ob_lookup_append: "ob_lookup (db\<lparr>ldb_rows := ldb_rows db @ [ob]\<rparr>) k =
    (case ob_lookup db k of None \<Rightarrow> if ob_id ob = k then Some ob else None | Some r \<Rightarrow> Some r)"
  by (simp add: ob_lookup_def find_append split: option.split)

lemma lifecycle_create_row:
  assumes "lifecycle_create oid wid token db = Inr (ob, db')"
  shows "ob_lookup db oid = None" "wid \<in> set (ldb_handles db)" "valid_obligation ob"
    "db' = db\<lparr>ldb_rows := ldb_rows db @ [ob]\<rparr>" "ob_id ob = oid" "ob_work_id_ref ob = wid"
    "ob_unknown_reason ob = None" "ob_row_version ob = 1"
  using assms
  by (auto simp: lifecycle_create_def validated_def bindE_eq_Inr ob_lookup_None split: if_splits)

lemma ob_lookup_put: "ob_lookup (put_row new db) k
    = (if k = ob_id new then map_option (\<lambda>_. new) (ob_lookup db k) else ob_lookup db k)"
proof -
  have "find (\<lambda>r. ob_id r = k) (map (\<lambda>r. if ob_id r = ob_id new then new else r) rows)
      = (if k = ob_id new then map_option (\<lambda>_. new) (find (\<lambda>r. ob_id r = k) rows)
         else find (\<lambda>r. ob_id r = k) rows)" for rows
    by (induction rows) auto
  then show ?thesis by (simp add: ob_lookup_def put_row_def)
qed

lemma put_row_ids: "map ob_id (ldb_rows (put_row new db)) = map ob_id (ldb_rows db)"
  by (simp add: put_row_def comp_def if_distrib [of ob_id] cong: if_cong)

lemma required_iff:
  assumes "lifecycle_inv db"
  shows "required_obligation oid db = (case ob_lookup db oid of None \<Rightarrow> Inl ValueError | Some r \<Rightarrow> Inr r)"
proof -
  have "one_or_none (filter (\<lambda>r. ob_id r = oid) (ldb_rows db)) = Inr (ob_lookup db oid)"
    using assms by (simp add: lifecycle_inv_def ob_lookup_def one_or_none_unique_key)
  moreover have "validated r = Inr r" if "ob_lookup db oid = Some r" for r
    using assms ob_lookup_Some [OF that] by (simp add: validated_def lifecycle_inv_def)
  ultimately show ?thesis
    by (auto simp: required_obligation_def lifecycle_get_def split: option.splits)
qed

text \<open>A keyed update touches the one row with the key, or none.\<close>

lemma lifecycle_update_run:
  assumes "distinct (map ob_id (ldb_rows db))" and "\<And>r. matches r \<Longrightarrow> ob_id r = k"
    and "\<And>r. ob_id (change r) = ob_id r"
  shows "lifecycle_update matches change db =
    (case ob_lookup db k of
       None \<Rightarrow> Inr (None, db)
     | Some r \<Rightarrow> if \<not> matches r then Inr (None, db)
               else if lifecycle_checks (change r) then Inr (Some (change r), put_row (change r) db)
               else Inl IntegrityError)"
proof -
  have hit: "filter matches rows = (case find (\<lambda>r. ob_id r = k) rows of
      None \<Rightarrow> [] | Some r \<Rightarrow> if matches r then [r] else [])
    \<and> map (\<lambda>r. if matches r then change r else r) rows = (case find (\<lambda>r. ob_id r = k) rows of
      None \<Rightarrow> rows | Some r \<Rightarrow> if matches r
        then map (\<lambda>x. if ob_id x = k then change r else x) rows else rows)"
    if "distinct (map ob_id rows)" for rows
    using that
  proof (induction rows)
    case Nil
    then show ?case by simp
  next
    case (Cons a rows)
    show ?case
    proof (cases "ob_id a = k")
      case True
      with Cons.prems have "k \<notin> ob_id ` set rows" by simp
      then have out: "x \<in> set rows \<Longrightarrow> ob_id x \<noteq> k" for x by blast
      then have no: "x \<in> set rows \<Longrightarrow> \<not> matches x" for x using assms(2) by blast
      have "filter matches rows = []" using no by (simp add: filter_empty_conv)
      moreover have "map (\<lambda>r. if matches r then change r else r) rows = rows" using no by (simp add: map_idI)
      moreover have "map (\<lambda>x. if ob_id x = k then change a else x) rows = rows" using out by (simp add: map_idI)
      ultimately show ?thesis using True by simp
    next
      case False
      then have "\<not> matches a" using assms(2) by blast
      with False Cons show ?thesis by (auto split: option.splits)
    qed
  qed
  note hit = conjunct1 [OF hit [OF assms(1)]] conjunct2 [OF hit [OF assms(1)]]
  show ?thesis
  proof (cases "ob_lookup db k")
    case None
    then show ?thesis unfolding lifecycle_update_def hit by (simp add: ob_lookup_def Let_def)
  next
    case (Some r)
    then have "ob_id (change r) = k" using assms(3) ob_lookup_Some by simp
    with Some show ?thesis unfolding lifecycle_update_def hit
      by (simp add: ob_lookup_def put_row_def Let_def)
  qed
qed

lemma put_row_inv:
  assumes "lifecycle_inv db" and "valid_obligation new" and "ob_work_id_ref new \<in> set (ldb_handles db)"
    and "ob_unknown_reason new = Some Persist_outcome_ambiguous \<Longrightarrow> ob_destination_ref new \<noteq> None"
  shows "lifecycle_inv (put_row new db)"
proof -
  have "r = new \<or> r \<in> set (ldb_rows db)" if "r \<in> set (ldb_rows (put_row new db))" for r
    using that by (auto simp: put_row_def split: if_splits)
  moreover have "distinct (map ob_id (ldb_rows (put_row new db)))"
    using assms(1) unfolding put_row_ids by (simp add: lifecycle_inv_def)
  moreover have "ldb_handles (put_row new db) = ldb_handles db" by (simp add: put_row_def)
  ultimately show ?thesis using assms by (auto simp: lifecycle_inv_def)
qed

lemma lifecycle_replace_run:
  assumes "distinct (map ob_id (ldb_rows db))"
  shows "lifecycle_replace new n db = Inr (ob, db') \<longleftrightarrow>
    1 \<le> n \<and> ob_row_version new = n + 1 \<and> ob = new \<and> db' = put_row new db \<and> valid_obligation new
    \<and> (\<exists>r. ob_lookup db (ob_id new) = Some r \<and> ob_row_version r = n \<and> ob_work_id_ref r = ob_work_id_ref new
         \<and> ob_currentness_token r = ob_currentness_token new)"
proof -
  define change :: "obligation \<Rightarrow> obligation" where "change = (\<lambda>r. r\<lparr>ob_state := ob_state new, ob_row_version := ob_row_version new,
    ob_destination_ref := ob_destination_ref new, ob_result_correlation := ob_result_correlation new,
    ob_readback_evidence := ob_readback_evidence new, ob_unknown_reason := ob_unknown_reason new,
    ob_unknown_evidence := ob_unknown_evidence new\<rparr>)"
  define hits :: "obligation \<Rightarrow> bool" where "hits = (\<lambda>r. ob_id r = ob_id new \<and> ob_row_version r = n
    \<and> ob_work_id_ref r = ob_work_id_ref new \<and> ob_currentness_token r = ob_currentness_token new)"
  have same: "change r = new" if "hits r" for r
    using that unfolding hits_def change_def by (intro obligation.equality) auto
  have upd: "lifecycle_update hits change db =
    (case ob_lookup db (ob_id new) of
       None \<Rightarrow> Inr (None, db)
     | Some r \<Rightarrow> if \<not> hits r then Inr (None, db)
               else if lifecycle_checks (change r) then Inr (Some (change r), put_row (change r) db)
               else Inl IntegrityError)"
    by (rule lifecycle_update_run [OF assms]) (simp_all add: hits_def change_def)
  show ?thesis
  proof (cases "ob_lookup db (ob_id new)")
    case None
    with upd show ?thesis unfolding lifecycle_replace_def hits_def [symmetric] change_def [symmetric] by simp
  next
    case (Some r)
    then have id: "ob_id r = ob_id new" using ob_lookup_Some by blast
    show ?thesis
    proof (cases "hits r")
      case True
      with upd Some same [OF True] show ?thesis
        unfolding lifecycle_replace_def hits_def [symmetric] change_def [symmetric]
        by (auto simp: checks_valid validated_def) (simp_all add: hits_def)
    next
      case False
      with upd Some id show ?thesis
        unfolding lifecycle_replace_def hits_def [symmetric] change_def [symmetric]
        by (auto simp: hits_def)
    qed
  qed
qed

lemma changes_frame:
  assumes "transition_changes dumps ev d c e cur = Inr x"
  shows "ob_id x = ob_id cur \<and> ob_work_id_ref x = ob_work_id_ref cur
    \<and> ob_currentness_token x = ob_currentness_token cur \<and> ob_row_version x = ob_row_version cur"
  using assms
  by (cases ev; cases "encoded_evidence dumps e")
    (auto simp: transition_changes_def split: if_splits option.splits)

lemma transition_iff:
  assumes "lifecycle_inv db"
  shows "transition dumps oid token ev d c e db = Inr (ob, db') \<longleftrightarrow>
    (\<exists>cur x. ob_lookup db oid = Some cur \<and> token = ob_currentness_token cur \<and> ob_state cur \<noteq> Terminal_state
       \<and> transition_changes dumps ev d c e cur = Inr x \<and> ob = x\<lparr>ob_row_version := ob_row_version cur + 1\<rparr>
       \<and> valid_obligation ob \<and> db' = put_row ob db)" (is "?L \<longleftrightarrow> ?R")
proof -
  have dist: "distinct (map ob_id (ldb_rows db))" using assms by (simp add: lifecycle_inv_def)
  have val: "1 \<le> ob_row_version cur" if "ob_lookup db oid = Some cur" for cur
    using assms ob_lookup_Some [OF that] by (auto simp: lifecycle_inv_def valid_obligation_def)
  have rep: "lifecycle_replace (x\<lparr>ob_row_version := ob_row_version cur + 1\<rparr>) (ob_row_version cur) db
      = Inr (ob, db') \<longleftrightarrow> ob = x\<lparr>ob_row_version := ob_row_version cur + 1\<rparr> \<and> valid_obligation ob
        \<and> db' = put_row ob db"
    if "ob_lookup db oid = Some cur" "transition_changes dumps ev d c e cur = Inr x" for cur x
    using that val [OF that(1)] changes_frame [OF that(2)] ob_lookup_Some [OF that(1)]
    by (auto simp: lifecycle_replace_run [OF dist])
  show ?thesis
    using rep by (auto simp: transition_def required_iff [OF assms] bindE_eq_Inr split: option.splits if_splits)
qed

section \<open>The abstract machine\<close>

text \<open>What an obligation promises: the result is awaited, due at a destination, in doubt after an
  ambiguous write, persisted, or given up because its authority is no longer current.\<close>

datatype result_spec =
    Awaiting
  | Due string string
  | In_doubt string string
  | Not_current "(string \<times> string) option"
  | Persisted string string

fun spec_pair :: "result_spec \<Rightarrow> (string \<times> string) option" where
  "spec_pair Awaiting = None"
| "spec_pair (Due d c) = Some (d, c)"
| "spec_pair (In_doubt d c) = Some (d, c)"
| "spec_pair (Not_current p) = p"
| "spec_pair (Persisted d c) = Some (d, c)"

inductive spec_step :: "result_spec \<Rightarrow> result_spec \<Rightarrow> bool" where
  ready: "d \<noteq> [] \<Longrightarrow> c \<noteq> [] \<Longrightarrow> spec_step Awaiting (Due d c)"
| doubt: "spec_step (Due d c) (In_doubt d c)"
| retry: "spec_step (In_doubt d c) (Due d c)"
| confirm_due: "spec_step (Due d c) (Persisted d c)"
| confirm_doubt: "spec_step (In_doubt d c) (Persisted d c)"
| lose: "(\<And>d c. s \<noteq> Persisted d c) \<Longrightarrow> spec_step s (Not_current (spec_pair s))"

inductive_simps spec_step_simps [simp]:
  "spec_step Awaiting t" "spec_step (Due d c) t" "spec_step (In_doubt d c) t"
  "spec_step (Not_current p) t" "spec_step (Persisted d c) t"

definition ob_pair :: "obligation \<Rightarrow> (string \<times> string) option" where
  "ob_pair ob = (case (ob_destination_ref ob, ob_result_correlation ob) of
     (Some d, Some c) \<Rightarrow> Some (d, c) | _ \<Rightarrow> None)"

definition spec_of :: "obligation \<Rightarrow> result_spec" where
  "spec_of ob =
     (case ob_state ob of
        Pending_result \<Rightarrow> Awaiting
      | Persist_required \<Rightarrow> Due (the (ob_destination_ref ob)) (the (ob_result_correlation ob))
      | Unknown_state \<Rightarrow>
          if ob_unknown_reason ob = Some Persist_outcome_ambiguous
          then In_doubt (the (ob_destination_ref ob)) (the (ob_result_correlation ob))
          else Not_current (ob_pair ob)
      | Terminal_state \<Rightarrow> Persisted (the (ob_destination_ref ob)) (the (ob_result_correlation ob)))"

text \<open>The evidence of a readback that matches a destination and a correlation.\<close>

definition readback :: "string \<Rightarrow> string \<Rightarrow> json" where
  "readback d c = JObj [(''destination_ref'', JStr d), (''result_correlation'', JStr c)]"

lemma valid_pairs:
  assumes "valid_obligation ob"
  shows "(ob_destination_ref ob = None) = (ob_result_correlation ob = None)"
    "ob_state ob \<in> {Persist_required, Terminal_state} \<Longrightarrow> ob_destination_ref ob \<noteq> None"
    "ob_state ob = Pending_result \<Longrightarrow> ob_destination_ref ob = None"
    "ob_state ob = Unknown_state \<longleftrightarrow> ob_unknown_reason ob \<noteq> None"
  using assms
  by (auto simp: valid_obligation_def valid_state_fields_def Let_def split: profile_state.splits)

text \<open>A row of the invariant, as the steps need it.\<close>

definition good_row :: "obligation \<Rightarrow> bool" where
  "good_row ob = (valid_obligation ob
     \<and> (ob_unknown_reason ob = Some Persist_outcome_ambiguous \<longrightarrow> ob_destination_ref ob \<noteq> None))"

lemma inv_good_row: "lifecycle_inv db \<Longrightarrow> ob_lookup db oid = Some r \<Longrightarrow> good_row r"
  using ob_lookup_Some by (auto simp: lifecycle_inv_def good_row_def)

lemma changes_sound:
  assumes "good_row cur" and "ob_state cur \<noteq> Terminal_state"
    and "transition_changes dumps ev d c e cur = Inr x" and "valid_obligation (x\<lparr>ob_row_version := v\<rparr>)"
  shows "spec_step (spec_of cur) (spec_of x) \<and> good_row (x\<lparr>ob_row_version := v\<rparr>)"
proof -
  have cur: "valid_obligation cur" using assms(1) by (simp add: good_row_def)
  note pairs = valid_pairs [OF cur]
  show ?thesis
  proof (cases ev)
    case Result_ready
    then show ?thesis using assms pairs
      by (auto simp: transition_changes_def spec_of_def good_row_def valid_obligation_def opt_min1_def
          split: if_splits)
  next
    case Persist_readback_matched
    then show ?thesis using assms pairs
      by (cases "encoded_evidence dumps e"; cases "ob_state cur")
        (auto simp: transition_changes_def spec_of_def good_row_def split: if_splits option.splits)
  next
    case Persist_outcome_ambiguous
    then show ?thesis using assms pairs
      by (cases "encoded_evidence dumps e")
        (auto simp: transition_changes_def spec_of_def good_row_def split: if_splits)
  next
    case Reconciliation_no_match_safe_to_retry
    then show ?thesis using assms pairs
      by (auto simp: transition_changes_def spec_of_def good_row_def split: if_splits)
  next
    case Currentness_stale
    then show ?thesis using assms pairs
      by (cases "encoded_evidence dumps e"; cases "ob_state cur")
        (auto simp: transition_changes_def spec_of_def good_row_def ob_pair_def split: if_splits option.splits)
  next
    case Currentness_unknown
    then show ?thesis using assms pairs
      by (cases "encoded_evidence dumps e"; cases "ob_state cur")
        (auto simp: transition_changes_def spec_of_def good_row_def ob_pair_def split: if_splits option.splits)
  qed
qed

lemma spec_of_version [simp]: "spec_of (ob\<lparr>ob_row_version := v\<rparr>) = spec_of ob"
  by (cases "ob_state ob") (simp_all add: spec_of_def ob_pair_def)

definition encodable :: "(json \<Rightarrow> string) \<Rightarrow> json \<Rightarrow> bool" where
  "encodable dumps e = (1 \<le> length (dumps e) \<and> length (dumps e) \<le> 8000)"

lemma encoded_evidence_ok: "encodable dumps e \<Longrightarrow> encoded_evidence dumps (Some e) = Inr (dumps e)"
  by (auto simp: encodable_def encoded_evidence_def Let_def)

text \<open>Every step of the abstract machine is a transition of the code.\<close>

lemma changes_complete:
  assumes "good_row cur" and "spec_step (spec_of cur) t" and "encodable dumps e0"
    and "\<And>d c. spec_pair (spec_of cur) = Some (d, c) \<Longrightarrow> encodable dumps (readback d c)"
  shows "\<exists>ev d c e x. transition_changes dumps ev d c e cur = Inr x \<and> spec_of x = t
    \<and> ob_state cur \<noteq> Terminal_state \<and> (\<forall>v \<ge> 1. valid_obligation (x\<lparr>ob_row_version := v\<rparr>))"
proof -
  have cur: "valid_obligation cur" using assms(1) by (simp add: good_row_def)
  note pairs = valid_pairs [OF cur]
  have lose: ?thesis if "t = Not_current (spec_pair (spec_of cur))" "ob_state cur \<noteq> Terminal_state"
  proof -
    let ?x = "cur\<lparr>ob_state := Unknown_state, ob_unknown_reason := Some Currentness_stale,
                ob_unknown_evidence := Some (dumps e0)\<rparr>"
    have pair: "ob_pair cur = spec_pair (spec_of cur)"
      using pairs assms(1) that(2) by (cases "ob_state cur") (auto simp: spec_of_def ob_pair_def good_row_def)
    have ch: "transition_changes dumps Currentness_stale None None (Some e0) cur = Inr ?x"
      by (simp add: transition_changes_def encoded_evidence_ok [OF assms(3)])
    have rb: "ob_readback_evidence cur = None"
      using cur that(2) by (auto simp: valid_obligation_def valid_state_fields_def Let_def split: profile_state.splits)
    have "ob_pair ?x = ob_pair cur" by (simp add: ob_pair_def)
    then have sp: "spec_of ?x = t" unfolding that(1) pair [symmetric] by (simp add: spec_of_def)
    have "valid_obligation (?x\<lparr>ob_row_version := v\<rparr>)" if "1 \<le> v" for v
      using that cur assms(3) pairs(1) rb
      by (simp add: valid_obligation_def bounded_evidence_def encodable_def valid_state_fields_def unknown_reasons_def)
    with ch sp that(2) show ?thesis by blast
  qed
  show ?thesis
  proof (cases "ob_state cur")
    case Pending_result
    then have "spec_of cur = Awaiting" by (simp add: spec_of_def)
    with assms(2) lose Pending_result consider "?thesis" | (ready) d c where "t = Due d c" "d \<noteq> []" "c \<noteq> []" by auto
    then show ?thesis
    proof cases
      case (ready d c)
      have "transition_changes dumps Result_ready (Some d) (Some c) None cur
          = Inr (cur\<lparr>ob_state := Persist_required, ob_destination_ref := Some d, ob_result_correlation := Some c\<rparr>)"
        using Pending_result by (simp add: transition_changes_def)
      then show ?thesis using Pending_result ready cur
        by (intro exI conjI) (auto simp: spec_of_def valid_obligation_def valid_state_fields_def opt_min1_def)
    qed
  next
    case Persist_required
    then obtain d c where dc: "ob_destination_ref cur = Some d" "ob_result_correlation cur = Some c" using pairs by auto
    then have sp: "spec_of cur = Due d c" using Persist_required by (simp add: spec_of_def)
    with assms(2) lose Persist_required consider "?thesis" | (amb) "t = In_doubt d c" | (fin) "t = Persisted d c" by auto
    then show ?thesis
    proof cases
      case amb
      have "transition_changes dumps Persist_outcome_ambiguous None None (Some e0) cur
          = Inr (cur\<lparr>ob_state := Unknown_state, ob_unknown_reason := Some Persist_outcome_ambiguous,
                ob_unknown_evidence := Some (dumps e0)\<rparr>)"
        using Persist_required by (simp add: transition_changes_def encoded_evidence_ok [OF assms(3)])
      then show ?thesis using Persist_required amb cur dc assms(3)
        by (intro exI conjI) (auto simp: spec_of_def valid_obligation_def valid_state_fields_def
            bounded_evidence_def encodable_def unknown_reasons_def)
    next
      case fin
      have "encodable dumps (readback d c)" using assms(4) sp by simp
      moreover have "transition_changes dumps Persist_readback_matched None None (Some (readback d c)) cur
          = Inr (cur\<lparr>ob_state := Terminal_state, ob_readback_evidence := Some (dumps (readback d c)),
                ob_unknown_reason := None, ob_unknown_evidence := None\<rparr>)"
        using Persist_required dc encoded_evidence_ok [OF calculation]
        by (simp add: transition_changes_def evidence_matches_def json_opt_def) (simp add: readback_def)
      ultimately show ?thesis using Persist_required fin cur dc
        by (intro exI conjI) (auto simp: spec_of_def valid_obligation_def valid_state_fields_def
            bounded_evidence_def encodable_def)
    qed
  next
    case Unknown_state
    show ?thesis
    proof (cases "ob_unknown_reason cur = Some Persist_outcome_ambiguous")
      case False
      then have "spec_of cur = Not_current (ob_pair cur)" using Unknown_state by (simp add: spec_of_def)
      with assms(2) lose Unknown_state show ?thesis by auto
    next
      case True
      then obtain d c where dc: "ob_destination_ref cur = Some d" "ob_result_correlation cur = Some c"
        using pairs assms(1) by (auto simp: good_row_def)
      then have sp: "spec_of cur = In_doubt d c" using Unknown_state True by (simp add: spec_of_def)
      with assms(2) lose Unknown_state consider "?thesis" | (amb) "t = Due d c" | (fin) "t = Persisted d c" by auto
      then show ?thesis
      proof cases
        case amb
        have "transition_changes dumps Reconciliation_no_match_safe_to_retry None None None cur
            = Inr (cur\<lparr>ob_state := Persist_required, ob_unknown_reason := None, ob_unknown_evidence := None\<rparr>)"
          using Unknown_state True dc by (simp add: transition_changes_def)
        then show ?thesis using Unknown_state amb cur dc
          by (intro exI conjI) (auto simp: spec_of_def valid_obligation_def valid_state_fields_def bounded_evidence_def)
      next
        case fin
        have "encodable dumps (readback d c)" using assms(4) sp by simp
        moreover have "transition_changes dumps Persist_readback_matched None None (Some (readback d c)) cur
            = Inr (cur\<lparr>ob_state := Terminal_state, ob_readback_evidence := Some (dumps (readback d c)),
                  ob_unknown_reason := None, ob_unknown_evidence := None\<rparr>)"
          using Unknown_state True dc encoded_evidence_ok [OF calculation]
          by (simp add: transition_changes_def evidence_matches_def json_opt_def) (simp add: readback_def)
        ultimately show ?thesis using Unknown_state fin cur dc
          by (intro exI conjI) (auto simp: spec_of_def valid_obligation_def valid_state_fields_def
              bounded_evidence_def encodable_def)
      qed
    qed
  next
    case Terminal_state
    then have "spec_of cur = Persisted (the (ob_destination_ref cur)) (the (ob_result_correlation cur))"
      by (simp add: spec_of_def)
    with assms(2) show ?thesis by simp
  qed
qed

lemma transition_row:
  assumes "lifecycle_inv db" and "transition dumps oid token ev d c e db = Inr (ob, db')"
  obtains cur where "ob_lookup db oid = Some cur" "token = ob_currentness_token cur"
    "ob_state cur \<noteq> Terminal_state" "db' = put_row ob db" "spec_step (spec_of cur) (spec_of ob)" "good_row ob"
    "ob_id ob = oid" "ob_work_id_ref ob = ob_work_id_ref cur" "ob_row_version ob = ob_row_version cur + 1"
    "ob_currentness_token ob = token"
proof -
  from assms obtain cur x where run: "ob_lookup db oid = Some cur" "token = ob_currentness_token cur"
    "ob_state cur \<noteq> Terminal_state" "transition_changes dumps ev d c e cur = Inr x"
    "ob = x\<lparr>ob_row_version := ob_row_version cur + 1\<rparr>" "valid_obligation ob" "db' = put_row ob db"
    unfolding transition_iff [OF assms(1)] by blast
  have "spec_step (spec_of cur) (spec_of x) \<and> good_row ob"
    unfolding run(5)
    by (rule changes_sound [OF inv_good_row [OF assms(1) run(1)] run(3,4)]) (use run in simp)
  with run changes_frame [OF run(4)] ob_lookup_Some [OF run(1)] show ?thesis
    by (intro that [of cur]) simp_all
qed

lemma transition_exists:
  assumes "lifecycle_inv db" and "ob_lookup db oid = Some cur" and "spec_step (spec_of cur) t"
    and "encodable dumps e0"
    and "\<And>d c. spec_pair (spec_of cur) = Some (d, c) \<Longrightarrow> encodable dumps (readback d c)"
  shows "\<exists>ev d c e ob. transition dumps oid (ob_currentness_token cur) ev d c e db = Inr (ob, put_row ob db)
    \<and> spec_of ob = t \<and> ob_id ob = oid \<and> ob_currentness_token ob = ob_currentness_token cur"
proof -
  note good = inv_good_row [OF assms(1,2)]
  obtain ev d c e x where x: "transition_changes dumps ev d c e cur = Inr x" "spec_of x = t"
    "ob_state cur \<noteq> Terminal_state" "\<forall>v \<ge> 1. valid_obligation (x\<lparr>ob_row_version := v\<rparr>)"
    using changes_complete [OF good assms(3-5)] by blast
  let ?ob = "x\<lparr>ob_row_version := ob_row_version cur + 1\<rparr>"
  have "1 \<le> ob_row_version cur" using good by (simp add: good_row_def valid_obligation_def)
  then have "valid_obligation ?ob" using x(4) by simp
  then have "transition dumps oid (ob_currentness_token cur) ev d c e db = Inr (?ob, put_row ?ob db)"
    unfolding transition_iff [OF assms(1)] using assms(2) x by blast
  moreover have "ob_id ?ob = oid \<and> ob_currentness_token ?ob = ob_currentness_token cur"
    using changes_frame [OF x(1)] ob_lookup_Some [OF assms(2)] by simp
  ultimately show ?thesis using x(2) spec_of_version by blast
qed

text \<open>C4. The transition table implements the abstract obligation machine, step for step: from a stored
  obligation, some event with some arguments is accepted and leads to a row of abstract state \<open>t\<close>
  exactly when the machine can step to \<open>t\<close>, provided the evidence involved encodes within
  the 1 to 8000 characters the code accepts.\<close>

theorem transition_refines:
  assumes "lifecycle_inv db" and "ob_lookup db oid = Some cur" and "encodable dumps e0"
    and "\<And>d c. spec_pair (spec_of cur) = Some (d, c) \<Longrightarrow> encodable dumps (readback d c)"
  shows "(\<exists>ev d c e ob db'. transition dumps oid (ob_currentness_token cur) ev d c e db = Inr (ob, db')
           \<and> ob_lookup db' oid = Some ob \<and> spec_of ob = t)
    \<longleftrightarrow> spec_step (spec_of cur) t"
proof
  assume "\<exists>ev d c e ob db'. transition dumps oid (ob_currentness_token cur) ev d c e db = Inr (ob, db')
    \<and> ob_lookup db' oid = Some ob \<and> spec_of ob = t"
  then obtain ev d c e ob db' where
    run: "transition dumps oid (ob_currentness_token cur) ev d c e db = Inr (ob, db')" "spec_of ob = t" by blast
  obtain cur' where "ob_lookup db oid = Some cur'" "spec_step (spec_of cur') (spec_of ob)"
    by (rule transition_row [OF assms(1) run(1)])
  with assms(2) run(2) show "spec_step (spec_of cur) t" by simp
next
  assume "spec_step (spec_of cur) t"
  from transition_exists [OF assms(1,2) this assms(3,4)] obtain ev d c e ob where
    run: "transition dumps oid (ob_currentness_token cur) ev d c e db = Inr (ob, put_row ob db)"
      "spec_of ob = t" "ob_id ob = oid" by blast
  moreover have "ob_lookup (put_row ob db) oid = Some ob" using assms(2) run(3) by (simp add: ob_lookup_put)
  ultimately show "\<exists>ev d c e ob db'. transition dumps oid (ob_currentness_token cur) ev d c e db = Inr (ob, db')
    \<and> ob_lookup db' oid = Some ob \<and> spec_of ob = t" by blast
qed

section \<open>Histories\<close>

inductive lifecycle_step :: "(json \<Rightarrow> string) \<Rightarrow> lifecycle_db \<Rightarrow> lifecycle_db \<Rightarrow> bool"
  for dumps where
  step_create: "lifecycle_create oid wid token db = Inr (ob, db') \<Longrightarrow> lifecycle_step dumps db db'"
| step_adopt: "adopt_currentness seen token db = Inr (ob, db') \<Longrightarrow> lifecycle_step dumps db db'"
| step_transition: "transition dumps oid token ev d c e db = Inr (ob, db') \<Longrightarrow> lifecycle_step dumps db db'"

lemma adopt_row:
  assumes "lifecycle_inv db" and "adopt_currentness seen token db = Inr (ob, db')"
  obtains cur where "ob_lookup db (ob_id ob) = Some cur" "db' = put_row ob db"
    "ob = cur\<lparr>ob_currentness_token := token, ob_row_version := ob_row_version cur + 1\<rparr>"
    "ob_state cur \<in> {Pending_result, Persist_required}" "good_row ob"
proof -
  have dist: "distinct (map ob_id (ldb_rows db))" using assms(1) by (simp add: lifecycle_inv_def)
  define change :: "obligation \<Rightarrow> obligation" where
    "change = (\<lambda>r. r\<lparr>ob_currentness_token := token, ob_row_version := ob_row_version seen + 1\<rparr>)"
  define hits :: "obligation \<Rightarrow> bool" where
    "hits = (\<lambda>r. ob_id r = ob_id seen \<and> ob_row_version r = ob_row_version seen
       \<and> ob_currentness_token r = ob_currentness_token seen \<and> ob_state r = ob_state seen)"
  have upd: "lifecycle_update hits change db =
    (case ob_lookup db (ob_id seen) of
       None \<Rightarrow> Inr (None, db)
     | Some r \<Rightarrow> if \<not> hits r then Inr (None, db)
               else if lifecycle_checks (change r) then Inr (Some (change r), put_row (change r) db)
               else Inl IntegrityError)"
    by (rule lifecycle_update_run [OF dist]) (simp_all add: hits_def change_def)
  from assms(2) obtain r where r: "ob_lookup db (ob_id seen) = Some r" "hits r" "ob = change r"
    "valid_obligation ob" "db' = put_row ob db" "ob_state seen \<in> {Pending_result, Persist_required}"
    unfolding adopt_currentness_def hits_def [symmetric] change_def [symmetric] upd
    by (auto simp: bindE_eq_Inr validated_def checks_valid split: option.splits if_splits)
  have "good_row ob" using r(3,4) inv_good_row [OF assms(1) r(1)] by (simp add: good_row_def change_def)
  with r ob_lookup_Some [OF r(1)] show ?thesis
    by (intro that [of r]) (auto simp: hits_def change_def)
qed

definition not_current :: "obligation \<Rightarrow> bool" where
  "not_current ob = (ob_state ob = Unknown_state \<and> ob_unknown_reason ob \<noteq> Some Persist_outcome_ambiguous)"

definition advances :: "obligation \<Rightarrow> obligation \<Rightarrow> bool" where
  "advances r r' =
     (ob_work_id_ref r' = ob_work_id_ref r \<and> ob_row_version r \<le> ob_row_version r'
      \<and> (ob_row_version r' = ob_row_version r \<longrightarrow> r' = r)
      \<and> (\<forall>d c. spec_pair (spec_of r) = Some (d, c) \<longrightarrow> spec_pair (spec_of r') = Some (d, c))
      \<and> (ob_state r = Terminal_state \<longrightarrow> r' = r) \<and> (not_current r \<longrightarrow> not_current r'))"

lemma advances_refl: "advances r r"
  by (simp add: advances_def)

lemma advances_trans:
  assumes "advances r s" and "advances s t"
  shows "advances r t"
proof (cases "ob_row_version t = ob_row_version r")
  case True
  with assms have "ob_row_version s = ob_row_version r" by (simp add: advances_def)
  with assms(1) have "s = r" by (simp add: advances_def)
  with assms(2) show ?thesis by simp
next
  case False
  with assms show ?thesis by (auto simp: advances_def)
qed

lemma not_current_spec: "not_current ob \<longleftrightarrow> (\<exists>p. spec_of ob = Not_current p)"
  by (cases "ob_state ob") (auto simp: not_current_def spec_of_def)

lemma spec_step_facts:
  assumes "spec_step s t"
  shows "spec_pair s = Some p \<Longrightarrow> spec_pair t = Some p" "s = Not_current q \<Longrightarrow> \<exists>q. t = Not_current q"
  using assms by (cases rule: spec_step.cases; auto)+

lemma put_row_advances:
  assumes "ob_lookup db (ob_id ob) = Some cur" and "advances cur ob" and "ob_lookup db k = Some r"
  shows "\<exists>r'. ob_lookup (put_row ob db) k = Some r' \<and> advances r r'"
  using assms advances_refl [of r] by (cases "k = ob_id ob") (simp_all add: ob_lookup_put)

lemma lifecycle_step_inv:
  assumes "lifecycle_step dumps db db'" and "lifecycle_inv db"
  shows "lifecycle_inv db' \<and> (\<forall>oid r. ob_lookup db oid = Some r \<longrightarrow>
    (\<exists>r'. ob_lookup db' oid = Some r' \<and> advances r r'))"
  using assms(1)
proof cases
  case (step_create oid wid token ob)
  note new = lifecycle_create_row [OF step_create]
  have "lifecycle_inv db'" using assms(2) new by (auto simp: lifecycle_inv_def ob_lookup_None)
  moreover have "ob_lookup db' k = Some r" if "ob_lookup db k = Some r" for k r
    using that new(4) by (simp add: ob_lookup_append)
  ultimately show ?thesis using advances_refl by blast
next
  case (step_adopt seen token ob)
  from assms(2) step_adopt obtain cur where cur: "ob_lookup db (ob_id ob) = Some cur" "db' = put_row ob db"
    "ob = cur\<lparr>ob_currentness_token := token, ob_row_version := ob_row_version cur + 1\<rparr>"
    "ob_state cur \<in> {Pending_result, Persist_required}" "good_row ob" by (rule adopt_row)
  have "ob_work_id_ref cur \<in> set (ldb_handles db)"
    using assms(2) ob_lookup_Some [OF cur(1)] by (simp add: lifecycle_inv_def)
  then have "lifecycle_inv db'" unfolding cur(2)
    using cur(5) by (intro put_row_inv [OF assms(2)]) (simp_all add: good_row_def cur(3))
  moreover have "advances cur ob"
    using cur(4) unfolding cur(3) by (auto simp: advances_def not_current_def spec_of_def)
  ultimately show ?thesis unfolding cur(2) using put_row_advances [OF cur(1)] by blast
next
  case (step_transition oid token ev d c e ob)
  from assms(2) step_transition obtain cur where cur: "ob_lookup db oid = Some cur"
    "ob_state cur \<noteq> Terminal_state" "db' = put_row ob db" "spec_step (spec_of cur) (spec_of ob)" "good_row ob"
    "ob_id ob = oid" "ob_work_id_ref ob = ob_work_id_ref cur" "ob_row_version ob = ob_row_version cur + 1"
    by (rule transition_row)
  have "ob_work_id_ref cur \<in> set (ldb_handles db)"
    using assms(2) ob_lookup_Some [OF cur(1)] by (simp add: lifecycle_inv_def)
  then have "lifecycle_inv db'" unfolding cur(3)
    using cur(5,7) by (intro put_row_inv [OF assms(2)]) (simp_all add: good_row_def)
  moreover have "advances cur ob"
    using cur(2,7,8) spec_step_facts [OF cur(4)] by (simp add: advances_def not_current_spec) blast
  ultimately show ?thesis unfolding cur(3) using put_row_advances [of db ob cur] cur(1,6) by blast
qed

lemma lifecycle_steps_inv:
  assumes "(lifecycle_step dumps)\<^sup>*\<^sup>* db db'" and "lifecycle_inv db"
  shows "lifecycle_inv db' \<and> (\<forall>oid r. ob_lookup db oid = Some r \<longrightarrow>
    (\<exists>r'. ob_lookup db' oid = Some r' \<and> advances r r'))"
  using assms
proof (induction rule: rtranclp_induct)
  case base
  then show ?case using advances_refl by blast
next
  case (step db1 db2)
  then have ih: "lifecycle_inv db1" "\<And>oid r. ob_lookup db oid = Some r \<Longrightarrow>
    \<exists>r'. ob_lookup db1 oid = Some r' \<and> advances r r'" by blast+
  note st = lifecycle_step_inv [OF step.hyps(2) ih(1)]
  have "\<exists>r2. ob_lookup db2 oid = Some r2 \<and> advances r r2" if "ob_lookup db oid = Some r" for oid r
    using ih(2) [OF that] st advances_trans by blast
  with st show ?case by blast
qed

text \<open>C28. Through every history of creations, currentness adoptions and transitions, a stored obligation
  stays stored and valid, keeps its work and, once it has them, its destination and correlation;
  its version never decreases and changes with every change of the row; a terminal row never
  changes again, and a row whose currentness failed stays so.\<close>

theorem obligation_history:
  assumes "(lifecycle_step dumps)\<^sup>*\<^sup>* db db'" and "lifecycle_inv db" and "ob_lookup db oid = Some r"
  shows "\<exists>r'. ob_lookup db' oid = Some r' \<and> valid_obligation r'
    \<and> ob_work_id_ref r' = ob_work_id_ref r \<and> ob_row_version r \<le> ob_row_version r'
    \<and> (r' \<noteq> r \<longrightarrow> ob_row_version r < ob_row_version r')
    \<and> (\<forall>p. spec_pair (spec_of r) = Some p \<longrightarrow> spec_pair (spec_of r') = Some p)
    \<and> (ob_state r = Terminal_state \<longrightarrow> r' = r)
    \<and> (not_current r \<longrightarrow> not_current r')"
proof -
  from lifecycle_steps_inv [OF assms(1,2)] assms(3) obtain r'
    where r': "lifecycle_inv db'" "ob_lookup db' oid = Some r'" "advances r r'" by blast
  have "valid_obligation r'" using inv_good_row [OF r'(1,2)] by (simp add: good_row_def)
  with r'(2,3) show ?thesis by (auto simp: advances_def)
qed

lemma step_exists:
  assumes "lifecycle_inv db" and "ob_lookup db oid = Some cur" and "spec_step (spec_of cur) t"
    and "encodable dumps e0"
    and "\<And>d c. spec_pair (spec_of cur) = Some (d, c) \<Longrightarrow> encodable dumps (readback d c)"
  obtains db' ob where "lifecycle_step dumps db db'" "lifecycle_inv db'" "ob_lookup db' oid = Some ob"
    "spec_of ob = t" "ob_currentness_token ob = ob_currentness_token cur"
proof -
  from transition_exists [OF assms] obtain ev d c e ob where
    run: "transition dumps oid (ob_currentness_token cur) ev d c e db = Inr (ob, put_row ob db)"
      "spec_of ob = t" "ob_id ob = oid" "ob_currentness_token ob = ob_currentness_token cur" by blast
  have "lifecycle_step dumps db (put_row ob db)" using run(1) by (rule lifecycle_step.step_transition)
  moreover have "ob_lookup (put_row ob db) oid = Some ob" using assms(2) run(3) by (simp add: ob_lookup_put)
  ultimately show ?thesis
    using lifecycle_step_inv [OF _ assms(1)] run(2,4) by (intro that [of "put_row ob db" ob]) blast+
qed

lemma terminal_continuation:
  assumes "lifecycle_inv db" and "ob_lookup db oid = Some ob" and "spec_of ob = Persisted d c"
  shows "ob_state ob = Terminal_state"
    "continuation oid (ob_currentness_token ob) db = Inr (bare_continuation Terminal_kind)"
proof -
  show st: "ob_state ob = Terminal_state"
    using assms(3) by (cases "ob_state ob") (auto simp: spec_of_def split: if_splits)
  then show "continuation oid (ob_currentness_token ob) db = Inr (bare_continuation Terminal_kind)"
    using assms(2) by (simp add: continuation_def required_iff [OF assms(1)] continuation_of_def
        valid_continuation_def opt_min1_def)
qed

text \<open>C27. An obligation can be brought to its end exactly while its currentness has not failed: then
  some history of transitions makes the row terminal, and the continuation projected for the same
  token is \<open>TERMINAL\<close>; after a currentness failure no history does.\<close>

theorem obligation_can_finish:
  assumes "lifecycle_inv db" and "ob_lookup db oid = Some cur" and "encodable dumps e0"
    and "d0 \<noteq> []" and "c0 \<noteq> []" and "encodable dumps (readback d0 c0)"
    and "\<And>d c. spec_pair (spec_of cur) = Some (d, c) \<Longrightarrow> encodable dumps (readback d c)"
  shows "(\<exists>db' r'. (lifecycle_step dumps)\<^sup>*\<^sup>* db db' \<and> ob_lookup db' oid = Some r' \<and> ob_state r' = Terminal_state
           \<and> continuation oid (ob_currentness_token cur) db' = Inr (bare_continuation Terminal_kind))
    \<longleftrightarrow> \<not> not_current cur" (is "?reach \<longleftrightarrow> _")
proof
  assume ?reach
  then obtain db' r' where r': "(lifecycle_step dumps)\<^sup>*\<^sup>* db db'" "ob_lookup db' oid = Some r'"
    "ob_state r' = Terminal_state" by blast
  have "advances cur r'" using lifecycle_steps_inv [OF r'(1) assms(1)] assms(2) r'(2) by force
  then show "\<not> not_current cur" using r'(3) by (auto simp: advances_def not_current_def)
next
  assume ok: "\<not> not_current cur"
  have fin: ?reach if "lifecycle_inv db1" "(lifecycle_step dumps)\<^sup>*\<^sup>* db db1" "ob_lookup db1 oid = Some r1"
    "ob_currentness_token r1 = ob_currentness_token cur" "spec_of r1 = Persisted d c" for db1 r1 d c
    using that(2-4) terminal_continuation [OF that(1,3,5)] by auto
  have due: ?reach if inv1: "lifecycle_inv db1" and st1: "(lifecycle_step dumps)\<^sup>*\<^sup>* db db1"
    and l1: "ob_lookup db1 oid = Some r1" and t1: "ob_currentness_token r1 = ob_currentness_token cur"
    and sp: "spec_of r1 = Due d c \<or> spec_of r1 = In_doubt d c" and enc: "encodable dumps (readback d c)" for db1 r1 d c
  proof -
    have "spec_step (spec_of r1) (Persisted d c)" using sp by auto
    then obtain db2 ob where "lifecycle_step dumps db1 db2" "lifecycle_inv db2" "ob_lookup db2 oid = Some ob"
      "spec_of ob = Persisted d c" "ob_currentness_token ob = ob_currentness_token r1"
      by (rule step_exists [OF inv1 l1 _ assms(3)]) (use sp enc in auto)
    with st1 t1 show ?thesis by (intro fin [of db2 ob d c]) auto
  qed
  show ?reach
  proof (cases "spec_of cur")
    case Awaiting
    then have "spec_step (spec_of cur) (Due d0 c0)" using assms(4,5) by simp
    then obtain db1 ob where "lifecycle_step dumps db db1" "lifecycle_inv db1" "ob_lookup db1 oid = Some ob"
      "spec_of ob = Due d0 c0" "ob_currentness_token ob = ob_currentness_token cur"
      by (rule step_exists [OF assms(1,2) _ assms(3,7)])
    then show ?thesis using assms(6) by (intro due [of db1 ob d0 c0]) auto
  next
    case (Due d c)
    then show ?thesis using assms(1,2,7) by (intro due [of db cur d c]) auto
  next
    case (In_doubt d c)
    then show ?thesis using assms(1,2,7) by (intro due [of db cur d c]) auto
  next
    case (Not_current p)
    with ok show ?thesis by (simp add: not_current_spec)
  next
    case (Persisted d c)
    then show ?thesis using assms(1,2) by (intro fin [of db cur d c]) auto
  qed
qed

section \<open>Compare and replace\<close>

definition obligation_put ::
  "uuid \<Rightarrow> int option \<Rightarrow> obligation \<Rightarrow> lifecycle_db \<Rightarrow> lifecycle_db option" where
  "obligation_put oid e ob db =
     (if ob_id ob \<noteq> oid then None
      else case e of
        None \<Rightarrow> (case lifecycle_create oid (ob_work_id_ref ob) (ob_currentness_token ob) db of
                  Inl _ \<Rightarrow> None | Inr (row, db') \<Rightarrow> if row = ob then Some db' else None)
      | Some n \<Rightarrow> (case lifecycle_replace ob n db of Inl _ \<Rightarrow> None | Inr (_, db') \<Rightarrow> Some db'))"

abbreviation ob_keys :: "lifecycle_db \<Rightarrow> bool" where
  "ob_keys db \<equiv> distinct (map ob_id (ldb_rows db))"

lemma obligation_put_cases:
  assumes "ob_keys db" and "obligation_put oid e ob db = Some db'"
  obtains (created) "e = None" "ob_id ob = oid" "ob_lookup db oid = None" "ob_row_version ob = 1"
      "db' = db\<lparr>ldb_rows := ldb_rows db @ [ob]\<rparr>"
    | (replaced) n r where "e = Some n" "ob_id ob = oid" "ob_lookup db oid = Some r" "ob_row_version r = n"
      "ob_row_version ob = n + 1" "db' = put_row ob db"
proof (cases e)
  case None
  with assms(2) have "ob_id ob = oid"
    "lifecycle_create oid (ob_work_id_ref ob) (ob_currentness_token ob) db = Inr (ob, db')"
    by (auto simp: obligation_put_def split: if_splits sum.splits)
  with None lifecycle_create_row [OF this(2)] show ?thesis by (intro created) auto
next
  case (Some n)
  with assms show ?thesis
    by (auto simp: obligation_put_def lifecycle_replace_run split: if_splits sum.splits prod.splits
        intro: replaced)
qed

interpretation obligation_versions: cas_register ob_lookup ob_row_version obligation_put ob_keys
proof (unfold_locales, goal_cases)
  case (1 db k e v db')
  then show ?case by (cases rule: obligation_put_cases) (auto simp: ob_lookup_put ob_lookup_append)
next
  case (2 db k e v db' k')
  then have "obligation_put k e v db = Some db'" "ob_keys db" by auto
  from this(2,1) 2(3) show ?case
    by (cases rule: obligation_put_cases) (auto simp: ob_lookup_put ob_lookup_append split: option.splits)
next
  case (3 db k e v db')
  then show ?case by (cases rule: obligation_put_cases) auto
next
  case (4 db k e v db')
  then show ?case by (cases rule: obligation_put_cases) auto
next
  case (5 db k e v db')
  from 5 show ?case
    by (cases rule: obligation_put_cases) (use 5(1) in \<open>auto simp: put_row_ids ob_lookup_None\<close>)
qed

text \<open>Writes other processes attempt between a read and its write-back.\<close>

fun lifecycle_writes :: "(obligation \<times> int) list \<Rightarrow> lifecycle_db \<Rightarrow> lifecycle_db" where
  "lifecycle_writes [] db = db"
| "lifecycle_writes ((ob, n) # ws) db =
     lifecycle_writes ws (case lifecycle_replace ob n db of Inl _ \<Rightarrow> db | Inr (_, db') \<Rightarrow> db')"

lemma obligation_put_replace:
  "obligation_put (ob_id ob) (Some n) ob db
     = (case lifecycle_replace ob n db of Inl _ \<Rightarrow> None | Inr (_, db') \<Rightarrow> Some db')"
  by (simp add: obligation_put_def)

lemma lifecycle_writes_attempts:
  "lifecycle_writes ws db = obligation_versions.attempts (map (\<lambda>(ob, n). (ob_id ob, Some n, ob)) ws) db"
proof (induction ws arbitrary: db)
  case Nil
  then show ?case by simp
next
  case (Cons w ws)
  obtain ob n where w: "w = (ob, n)" by fastforce
  show ?case
    by (cases "lifecycle_replace ob n db") (auto simp: w Cons.IH obligation_put_replace)
qed

text \<open>Of two write-backs that observed the same version of an obligation only the first succeeds,
  whatever replacements are attempted in between: no transition is lost.\<close>

theorem lifecycle_no_lost_update:
  assumes "ob_keys db" and "lifecycle_replace ob n db = Inr (out, db')" and "ob_id other = ob_id ob"
  shows "\<exists>e. lifecycle_replace other n (lifecycle_writes ws db') = Inl e"
proof -
  have "obligation_put (ob_id ob) (Some n) ob db = Some db'" using assms(2) by (simp add: obligation_put_def)
  from obligation_versions.no_lost_update [OF assms(1) this, of other "map (\<lambda>(ob, n). (ob_id ob, Some n, ob)) ws"]
  have "obligation_put (ob_id ob) (Some n) other (lifecycle_writes ws db') = None"
    by (simp add: lifecycle_writes_attempts)
  then show ?thesis using assms(3) by (auto simp: obligation_put_def split: sum.splits)
qed

section \<open>A concrete obligation\<close>

definition demo_obligation :: obligation where
  "demo_obligation = \<lparr>ob_id = 5, ob_work_id_ref = 1, ob_currentness_token = ''t'', ob_state = Persist_required,
     ob_row_version = 2, ob_destination_ref = Some ''d'', ob_result_correlation = Some ''c'',
     ob_readback_evidence = None, ob_unknown_reason = None, ob_unknown_evidence = None\<rparr>"

definition demo_lifecycle :: lifecycle_db where
  "demo_lifecycle = \<lparr>ldb_rows = [demo_obligation], ldb_handles = [1]\<rparr>"

definition demo_dumps :: "json \<Rightarrow> string" where
  "demo_dumps e = ''{}''"

lemma demo_lifecycle_facts:
  "lifecycle_inv demo_lifecycle" "ob_lookup demo_lifecycle 5 = Some demo_obligation"
  "spec_of demo_obligation = Due ''d'' ''c''" "encodable demo_dumps e" "ob_currentness_token demo_obligation = ''t''"
  by (simp_all add: lifecycle_inv_def demo_lifecycle_def demo_obligation_def valid_obligation_def
      valid_state_fields_def opt_min1_def bounded_evidence_def ob_lookup_def spec_of_def encodable_def demo_dumps_def)

theorem transition_refines_witness:
  "\<exists>ev d c e ob db'. transition demo_dumps 5 ''t'' ev d c e demo_lifecycle = Inr (ob, db')
     \<and> ob_lookup db' 5 = Some ob \<and> spec_of ob = Persisted ''d'' ''c''"
  using transition_refines [OF demo_lifecycle_facts(1,2,4) demo_lifecycle_facts(4), of "Persisted ''d'' ''c''"]
  by (simp add: demo_lifecycle_facts)

theorem obligation_can_finish_witness:
  "\<exists>db' r'. (lifecycle_step demo_dumps)\<^sup>*\<^sup>* demo_lifecycle db' \<and> ob_lookup db' 5 = Some r'
     \<and> ob_state r' = Terminal_state"
proof -
  have "\<not> not_current demo_obligation" by (simp add: not_current_def demo_obligation_def)
  with obligation_can_finish [OF demo_lifecycle_facts(1,2,4), of "''x''" "''y''"] demo_lifecycle_facts(4)
  show ?thesis by blast
qed

theorem obligation_history_witness:
  "\<exists>db' r'. lifecycle_step demo_dumps demo_lifecycle db' \<and> ob_lookup db' 5 = Some r'
     \<and> ob_row_version r' \<noteq> 2 \<and> spec_pair (spec_of r') = Some (''d'', ''c'') \<and> 2 \<le> ob_row_version r'"
proof -
  let ?x = "demo_obligation\<lparr>ob_state := Unknown_state, ob_unknown_reason := Some Persist_outcome_ambiguous,
    ob_unknown_evidence := Some ''{}''\<rparr>"
  have ch: "transition_changes demo_dumps Persist_outcome_ambiguous None None (Some JNull) demo_obligation = Inr ?x"
    by (simp add: transition_changes_def encoded_evidence_def demo_dumps_def demo_obligation_def)
  have val: "valid_obligation (?x\<lparr>ob_row_version := 3\<rparr>)"
    by (simp add: demo_obligation_def valid_obligation_def valid_state_fields_def opt_min1_def
        bounded_evidence_def unknown_reasons_def)
  have cur: "ob_state demo_obligation \<noteq> Terminal_state" "ob_row_version demo_obligation + 1 = 3" "ob_id demo_obligation = 5"
    by (simp_all add: demo_obligation_def)
  obtain ob db' where run: "transition demo_dumps 5 ''t'' Persist_outcome_ambiguous None None (Some JNull) demo_lifecycle
      = Inr (ob, db')" "ob_lookup db' 5 = Some ob" "ob_row_version ob = 3"
    using ch val cur by (simp add: transition_iff [OF demo_lifecycle_facts(1)] demo_lifecycle_facts ob_lookup_put)
  then have st: "lifecycle_step demo_dumps demo_lifecycle db'" by (blast intro: lifecycle_step.step_transition)
  have "spec_pair (spec_of ob) = Some (''d'', ''c'')"
    using obligation_history [OF r_into_rtranclp [of "lifecycle_step demo_dumps", OF st] demo_lifecycle_facts(1,2)] run
    by (simp add: demo_lifecycle_facts)
  with st run(2,3) show ?thesis by (intro exI [of _ db'] exI [of _ ob]) simp
qed

theorem lifecycle_no_lost_update_witness:
  "\<exists>out db' e. lifecycle_replace (demo_obligation\<lparr>ob_row_version := 3\<rparr>) 2 demo_lifecycle = Inr (out, db')
     \<and> lifecycle_replace (demo_obligation\<lparr>ob_row_version := 3\<rparr>) 2 (lifecycle_writes [] db') = Inl e"
proof -
  have keys: "ob_keys demo_lifecycle" by (simp add: demo_lifecycle_def)
  obtain out db' where run: "lifecycle_replace (demo_obligation\<lparr>ob_row_version := 3\<rparr>) 2 demo_lifecycle = Inr (out, db')"
    using demo_lifecycle_facts(1,2)
    by (simp add: lifecycle_replace_run [OF keys])
      (simp add: demo_obligation_def valid_obligation_def valid_state_fields_def opt_min1_def bounded_evidence_def)
  from lifecycle_no_lost_update [OF keys run refl] run show ?thesis by blast
qed

end
