(* ===== verification/Agent_Broker.thy ===== *)
theory Agent_Broker
  imports Py_Ident Complex_Main
begin

text \<open>
  The host-wide resource lease broker (\<open>src/switchstand/agent_broker.py\<close>): budgets, host pressure
  and the ledger of leases, with every operation of \<open>Broker\<close> that reads or writes it. The ledger
  is the state, locked as a whole by every operation. Not modelled: file permissions and
  \<open>fsync\<close>; reading \<open>/proc\<close> and the inbox files gives arguments. Floats are exact rationals, with
  the non-finite values; rounding is not modelled.
\<close>

section \<open>Numbers\<close>

datatype py_float = Finite rat | Nan | Infinity | Neg_infinity

fun is_finite :: "py_float \<Rightarrow> bool" where
  "is_finite (Finite _) = True"
| "is_finite _ = False"

fun float_less :: "py_float \<Rightarrow> py_float \<Rightarrow> bool" where
  "float_less (Finite x) (Finite y) = (x < y)"
| "float_less Nan _ = False"
| "float_less _ Nan = False"
| "float_less Infinity _ = False"
| "float_less _ Neg_infinity = False"
| "float_less _ _ = True"

definition float_le :: "py_float \<Rightarrow> py_float \<Rightarrow> bool" where
  "float_le x y = (float_less x y \<or> (x = y \<and> x \<noteq> Nan))"

fun float_minus :: "py_float \<Rightarrow> py_float \<Rightarrow> py_float" where
  "float_minus (Finite x) (Finite y) = Finite (x - y)"
| "float_minus Nan _ = Nan"
| "float_minus _ Nan = Nan"
| "float_minus Infinity Infinity = Nan"
| "float_minus Neg_infinity Neg_infinity = Nan"
| "float_minus Infinity _ = Infinity"
| "float_minus Neg_infinity _ = Neg_infinity"
| "float_minus (Finite _) Infinity = Neg_infinity"
| "float_minus (Finite _) Neg_infinity = Infinity"

definition PRESSURE_MAX_AGE_SECONDS :: py_float where "PRESSURE_MAX_AGE_SECONDS = Finite 5"
definition SWAP_ACTIVITY_MAX_WINDOW_SECONDS :: py_float where "SWAP_ACTIVITY_MAX_WINDOW_SECONDS = Finite 60"
definition CLAIM_TTL_SECONDS :: py_float where "CLAIM_TTL_SECONDS = Finite 60"

text \<open>\<open>ID.fullmatch\<close>: one alphanumeric character and up to 79 more of a wider alphabet.\<close>

definition id_start :: "char \<Rightarrow> bool" where
  "id_start c = (c \<in> set ''ABCDEFGHIJKLMNOPQRSTUVWXYZabcdefghijklmnopqrstuvwxyz0123456789'')"

definition id_char :: "char \<Rightarrow> bool" where
  "id_char c = (id_start c \<or> c \<in> set ''_.-'')"

fun id_fullmatch :: "string \<Rightarrow> bool" where
  "id_fullmatch [] = False"
| "id_fullmatch (c # cs) = (id_start c \<and> list_all id_char cs \<and> length cs \<le> 79)"

section \<open>Budgets\<close>

record budget =
  memory_high_mib :: int
  memory_max_mib :: int
  swap_max_mib :: int
  cpu_percent :: int
  tasks :: int
  workers :: int
  heavy :: int

text \<open>The dataclass fields, in order, as \<open>asdict\<close> enumerates them.\<close>

definition budget_fields :: "(budget \<Rightarrow> int) list" where
  "budget_fields = [memory_high_mib, memory_max_mib, swap_max_mib, cpu_percent, tasks, workers, heavy]"

definition valid_budget :: "budget \<Rightarrow> bool" where
  "valid_budget b = (list_all (\<lambda>f. 0 \<le> f b) budget_fields \<and> memory_high_mib b \<le> memory_max_mib b)"

definition mk_budget :: "budget \<Rightarrow> budget py_result" where
  "mk_budget b = (if valid_budget b then Inr b else Inl ValueError)"

definition budget_sum :: "budget \<Rightarrow> budget \<Rightarrow> budget" where
  "budget_sum a b =
     \<lparr>memory_high_mib = memory_high_mib a + memory_high_mib b,
      memory_max_mib = memory_max_mib a + memory_max_mib b,
      swap_max_mib = swap_max_mib a + swap_max_mib b,
      cpu_percent = cpu_percent a + cpu_percent b,
      tasks = tasks a + tasks b, workers = workers a + workers b, heavy = heavy a + heavy b\<rparr>"

definition budget_add :: "budget \<Rightarrow> budget \<Rightarrow> budget py_result" where
  "budget_add a b = mk_budget (budget_sum a b)"

definition fits :: "budget \<Rightarrow> budget \<Rightarrow> bool" where
  "fits b limit = list_all (\<lambda>f. f b \<le> f limit) budget_fields"

definition budget_of :: "int \<Rightarrow> int \<Rightarrow> int \<Rightarrow> int \<Rightarrow> int \<Rightarrow> int \<Rightarrow> int \<Rightarrow> budget" where
  "budget_of a b c d e f g = \<lparr>memory_high_mib = a, memory_max_mib = b, swap_max_mib = c,
     cpu_percent = d, tasks = e, workers = f, heavy = g\<rparr>"

definition ZERO :: budget where
  "ZERO = budget_of 0 0 0 0 0 0 0"

definition CLASSES :: "(string \<times> budget) list" where
  "CLASSES = [(''light'', budget_of 700 1024 128 100 96 1 0),
     (''implementation'', budget_of 1229 1792 256 200 160 1 0),
     (''heavy'', budget_of 2560 3584 512 400 384 1 1)]"

text \<open>\<open>CLASSES[name]\<close>.\<close>

definition class_budget :: "string \<Rightarrow> budget py_result" where
  "class_budget name = (case map_of CLASSES name of None \<Rightarrow> Inl KeyError | Some b \<Rightarrow> Inr b)"

record lease_request =
  rq_request_id :: string
  rq_parent :: string
  rq_worker :: string
  rq_worker_class :: string
  rq_children :: budget

definition valid_request :: "lease_request \<Rightarrow> bool" where
  "valid_request r =
     (list_all (\<lambda>f. 0 \<le> f (rq_children r)) budget_fields
      \<and> id_fullmatch (rq_request_id r) \<and> id_fullmatch (rq_parent r) \<and> id_fullmatch (rq_worker r)
      \<and> map_of CLASSES (rq_worker_class r) \<noteq> None)"

section \<open>Host pressure\<close>

record pressure =
  pr_memory_total_mib :: int
  pr_memory_available_mib :: int
  pr_swap_total_mib :: int
  pr_swap_used_mib :: int
  pr_memory_psi_avg10 :: py_float
  pr_swap_activity_pages :: "int option"
  pr_sampled_monotonic :: "py_float option"
  pr_activity_window_seconds :: "py_float option"
  pr_pswpin :: "int option"
  pr_pswpout :: "int option"

record sample_record =
  sr_pswpin :: int
  sr_pswpout :: int
  sr_sampled_monotonic :: py_float

definition with_activity :: "pressure \<Rightarrow> sample_record option \<Rightarrow> pressure" where
  "with_activity p previous =
     (case (pr_pswpin p, pr_pswpout p, pr_sampled_monotonic p, previous) of
        (Some pin, Some pout, Some sampled, Some prev) \<Rightarrow>
          (let elapsed = float_minus sampled (sr_sampled_monotonic prev);
               activity = (pin - sr_pswpin prev) + (pout - sr_pswpout prev)
           in if float_le elapsed (Finite 0) \<or> activity < 0 then p
              else p\<lparr>pr_swap_activity_pages := Some activity, pr_activity_window_seconds := Some elapsed\<rparr>)
      | _ \<Rightarrow> p)"

definition sample_record_of :: "pressure \<Rightarrow> sample_record option" where
  "sample_record_of p =
     (case (pr_pswpin p, pr_pswpout p, pr_sampled_monotonic p) of
        (Some pin, Some pout, Some sampled) \<Rightarrow>
          Some \<lparr>sr_pswpin = pin, sr_pswpout = pout, sr_sampled_monotonic = sampled\<rparr>
      | _ \<Rightarrow> None)"

text \<open>The activity a refusal looks at: an old fixture without counters and swap use counts as zero.\<close>

definition observed_activity :: "pressure \<Rightarrow> int option" where
  "observed_activity p =
     (if pr_swap_activity_pages p = None \<and> pr_pswpin p = None \<and> pr_pswpout p = None
         \<and> pr_swap_used_mib p = 0
      then Some 0 else pr_swap_activity_pages p)"

definition refusal :: "pressure \<Rightarrow> string \<Rightarrow> int \<Rightarrow> int \<Rightarrow> py_float \<Rightarrow> string option" where
  "refusal p worker_class reserved candidate now =
     (if pr_memory_total_mib p < 0 \<or> pr_memory_available_mib p < 0 \<or> pr_swap_total_mib p < 0
         \<or> pr_swap_used_mib p < 0 \<or> \<not> is_finite (pr_memory_psi_avg10 p)
         \<or> float_less (pr_memory_psi_avg10 p) (Finite 0) \<or> reserved < 0 \<or> candidate < 0
      then Some ''pressure_sample_invalid''
      else if \<exists>s \<in> set_option (pr_sampled_monotonic p). \<not> is_finite s \<or> float_less now s
      then Some ''pressure_sample_invalid''
      else if \<exists>s \<in> set_option (pr_sampled_monotonic p).
                float_less PRESSURE_MAX_AGE_SECONDS (float_minus now s)
      then Some ''pressure_sample_stale''
      else case observed_activity p of
        None \<Rightarrow>
          if pr_pswpin p = None \<and> pr_pswpout p = None \<and> pr_swap_used_mib p \<noteq> 0
          then Some ''host_pressure'' else Some ''pressure_sample_missing''
      | Some activity \<Rightarrow>
          if activity < 0 then Some ''pressure_sample_invalid''
          else if \<exists>w \<in> set_option (pr_activity_window_seconds p).
                    \<not> is_finite w \<or> float_le w (Finite 0)
          then Some ''pressure_sample_invalid''
          else if \<exists>w \<in> set_option (pr_activity_window_seconds p).
                    float_less SWAP_ACTIVITY_MAX_WINDOW_SECONDS w
          then Some ''pressure_sample_stale''
          else if pr_memory_available_mib p
                    < max 2048 (pr_memory_total_mib p div 5) + reserved + candidate
          then Some ''memory_available''
          else if activity \<noteq> 0 \<or> float_le (Finite 5) (pr_memory_psi_avg10 p)
          then Some ''host_pressure''
          else if worker_class \<noteq> ''light'' \<and> float_le (Finite 2) (pr_memory_psi_avg10 p)
          then Some ''host_pressure_light_only''
          else None)"

section \<open>The ledger\<close>

datatype lease_state = Reserved | Execution_active | Completed | Cancelled | Abandoned

definition ACTIVE :: "lease_state set" where
  "ACTIVE = {Reserved, Execution_active}"

record lease =
  ls_reservation_id :: string
  ls_request_id :: string
  ls_parent :: string
  ls_worker_class :: string
  ls_own :: budget
  ls_children :: budget
  ls_total :: budget
  ls_state :: lease_state
  ls_reserved_monotonic :: py_float
  ls_boot_id :: string
  ls_attempt_id :: "string option"
  ls_unit :: "string option"
  ls_claim_expires :: "py_float option"
  ls_reconciled :: "py_float option"

datatype reserve_result =
    Refused_result string string string
  | Reserved_result string string string string

fun result_parent :: "reserve_result \<Rightarrow> string" where
  "result_parent (Refused_result rid par why) = par"
| "result_parent (Reserved_result rid par lid res) = par"

text \<open>\<open>state.json\<close>; the leases are a dict keyed by the worker, in insertion order.\<close>

record broker_state =
  bs_root :: budget
  bs_leases :: "(string \<times> lease) list"
  bs_requests :: "(string \<times> reserve_result) list"
  bs_pressure_sample :: "sample_record option"

text \<open>The broker directory: the ledger (absent before \<open>initialize\<close>), the execution receipts, the
  results of ingested requests and the canary reports.\<close>

record broker =
  bk_state :: "broker_state option"
  bk_receipts :: "(string \<times> json) list"
  bk_results :: "(string \<times> reserve_result) list"
  bk_canaries :: "(string \<times> json) list"

definition write_key :: "'k \<Rightarrow> 'v \<Rightarrow> ('k \<times> 'v) list \<Rightarrow> ('k \<times> 'v) list" where
  "write_key k v kvs = (if k \<in> fst ` set kvs then map (\<lambda>(j, w). if j = k then (j, v) else (j, w)) kvs
     else kvs @ [(k, v)])"

definition read_state :: "(broker, broker_state) prog" where
  "read_state = (\<lambda>b. case bk_state b of None \<Rightarrow> (Inl OSError, b) | Some st \<Rightarrow> (Inr st, b))"

definition write_state :: "broker_state \<Rightarrow> (broker, unit) prog" where
  "write_state st = (\<lambda>b. (Inr (), b\<lparr>bk_state := Some st\<rparr>))"

definition lease_active :: "lease \<Rightarrow> bool" where
  "lease_active l = (ls_state l \<in> ACTIVE)"

definition active_lease :: "broker_state \<Rightarrow> string \<Rightarrow> lease py_result" where
  "active_lease st lid =
     (case map_of (bs_leases st) lid of
        None \<Rightarrow> Inl ValueError
      | Some l \<Rightarrow> if lease_active l then Inr l else Inl ValueError)"

definition put_lease :: "string \<Rightarrow> lease \<Rightarrow> broker_state \<Rightarrow> broker_state" where
  "put_lease lid l st = st\<lparr>bs_leases := write_key lid l (bs_leases st)\<rparr>"

definition has_active_children :: "broker_state \<Rightarrow> string \<Rightarrow> bool" where
  "has_active_children st lid =
     list_ex (\<lambda>(k, l). lease_active l \<and> ls_parent l = lid) (bs_leases st)"

definition initialize :: "budget \<Rightarrow> (broker, unit) prog" where
  "initialize b = (\<lambda>bk.
     if bk_state bk \<noteq> None then (Inl RuntimeError, bk)
     else write_state \<lparr>bs_root = b, bs_leases = [], bs_requests = [], bs_pressure_sample = None\<rparr> bk)"

text \<open>\<open>_pressure\<close>: the sample to judge, and the ledger with the raw sample it keeps. \<open>raw\<close> is what
  \<open>Pressure.current()\<close> returns, \<open>None\<close> when it raises.\<close>

definition pressure_sample :: "pressure option \<Rightarrow> pressure option \<Rightarrow> broker_state \<Rightarrow> pressure \<times> broker_state" where
  "pressure_sample supplied raw st =
     (case supplied of
        Some p \<Rightarrow> (p, st)
      | None \<Rightarrow> (case raw of
          None \<Rightarrow> (\<lparr>pr_memory_total_mib = 0, pr_memory_available_mib = 0, pr_swap_total_mib = 0,
                    pr_swap_used_mib = 0, pr_memory_psi_avg10 = Nan, pr_swap_activity_pages = None,
                    pr_sampled_monotonic = None, pr_activity_window_seconds = None, pr_pswpin = None,
                    pr_pswpout = None\<rparr>, st)
        | Some r \<Rightarrow> (with_activity r (bs_pressure_sample st),
            case sample_record_of r of None \<Rightarrow> st | Some rec \<Rightarrow> st\<lparr>bs_pressure_sample := Some rec\<rparr>)))"

definition admission_memory :: "broker_state \<Rightarrow> lease_request \<Rightarrow> (int \<times> int) py_result" where
  "admission_memory st rq =
     (let reserved = sum_list (map (\<lambda>(k, l). memory_max_mib (ls_total l))
            (filter (\<lambda>(k, l). lease_active l \<and> ls_parent l = ''root'') (bs_leases st)))
      in if rq_parent rq \<noteq> ''root'' then Inr (reserved, 0)
         else bindE (class_budget (rq_worker_class rq)) (\<lambda>own.
           bindE (mk_budget (rq_children rq)) (\<lambda>children.
           bindE (budget_add own children) (\<lambda>requested. Inr (reserved, memory_max_mib requested)))))"

text \<open>The budget the active children of a parent already hold.\<close>

fun used_budget :: "string \<Rightarrow> (string \<times> lease) list \<Rightarrow> budget \<Rightarrow> budget py_result" where
  "used_budget parent [] used = Inr used"
| "used_budget parent ((k, l) # ls) used =
     (if lease_active l \<and> ls_parent l = parent
      then bindE (mk_budget (ls_total l)) (\<lambda>t. bindE (budget_add used t) (used_budget parent ls))
      else used_budget parent ls used)"

definition parent_limit :: "broker_state \<Rightarrow> string \<Rightarrow> budget py_result" where
  "parent_limit st parent =
     (if parent = ''root'' then mk_budget (bs_root st)
      else bindE (active_lease st parent) (\<lambda>l. mk_budget (ls_children l)))"

definition new_lease ::
  "string \<Rightarrow> string \<Rightarrow> py_float \<Rightarrow> lease_request \<Rightarrow> budget \<Rightarrow> budget \<Rightarrow> budget \<Rightarrow> lease" where
  "new_lease boot hex clock rq own children requested =
     \<lparr>ls_reservation_id = hex, ls_request_id = rq_request_id rq, ls_parent = rq_parent rq,
      ls_worker_class = rq_worker_class rq, ls_own = own, ls_children = children,
      ls_total = requested, ls_state = Reserved, ls_reserved_monotonic = clock,
      ls_boot_id = boot, ls_attempt_id = None, ls_unit = None, ls_claim_expires = None,
      ls_reconciled = None\<rparr>"

text \<open>\<open>_reserve\<close>; \<open>hex\<close> is the fresh \<open>uuid4().hex\<close>, \<open>clock\<close> the reading, \<open>boot\<close> the host's boot id.\<close>

definition reserve_locked ::
  "string \<Rightarrow> string \<Rightarrow> py_float \<Rightarrow> lease_request \<Rightarrow> broker_state \<Rightarrow> (reserve_result \<times> broker_state) py_result" where
  "reserve_locked boot hex clock rq st =
     (if rq_worker rq = ''root'' \<or> rq_worker rq \<in> fst ` set (bs_leases st) then Inl ValueError
      else
        bindE (class_budget (rq_worker_class rq)) (\<lambda>own.
        bindE (mk_budget (rq_children rq)) (\<lambda>children.
        bindE (budget_add own children) (\<lambda>requested.
        bindE (parent_limit st (rq_parent rq)) (\<lambda>limit.
        bindE (used_budget (rq_parent rq) (bs_leases st) ZERO) (\<lambda>used.
        bindE (budget_add used requested) (\<lambda>after.
          if \<not> fits after limit then
            Inr (Refused_result (rq_request_id rq) (rq_parent rq) ''parent_budget'', st)
          else
            Inr (Reserved_result (rq_request_id rq) (rq_parent rq) (rq_worker rq) hex,
                 put_lease (rq_worker rq) (new_lease boot hex clock rq own children requested) st))))))))"

definition reserve ::
  "string \<Rightarrow> string \<Rightarrow> py_float \<Rightarrow> py_float \<Rightarrow> pressure option \<Rightarrow> lease_request \<Rightarrow> pressure option
     \<Rightarrow> (broker, reserve_result) prog" where
  "reserve boot hex now clock raw rq supplied =
     bindP read_state (\<lambda>st.
       case map_of (bs_requests st) (rq_request_id rq) of
         Some prior \<Rightarrow> if result_parent prior \<noteq> rq_parent rq then raiseP ValueError else returnP prior
       | None \<Rightarrow>
           (case pressure_sample supplied raw st of (sample, st1) \<Rightarrow>
            bindP (liftP (admission_memory st1 rq)) (\<lambda>(reserved, candidate).
            bindP (liftP (case refusal sample (rq_worker_class rq) reserved candidate now of
                Some why \<Rightarrow> Inr (Refused_result (rq_request_id rq) (rq_parent rq) why, st1)
              | None \<Rightarrow> reserve_locked boot hex clock rq st1)) (\<lambda>(result, st2).
            bindP (write_state (st2\<lparr>bs_requests := write_key (rq_request_id rq) result (bs_requests st2)\<rparr>)) (\<lambda>_.
            returnP result)))))"

text \<open>\<open>ingest\<close>; \<open>read_request\<close> is the validated content of an inbox file.\<close>

definition ingest ::
  "string \<Rightarrow> string \<Rightarrow> py_float \<Rightarrow> py_float \<Rightarrow> pressure option \<Rightarrow> (string \<Rightarrow> string \<Rightarrow> lease_request py_result)
     \<Rightarrow> string \<Rightarrow> string \<Rightarrow> pressure option \<Rightarrow> (broker, reserve_result) prog" where
  "ingest boot hex now clock raw read_request parent request_id supplied =
     (if \<not> id_fullmatch parent \<or> \<not> id_fullmatch request_id then raiseP ValueError
      else bindP (liftP (read_request parent request_id)) (\<lambda>rq.
        if rq_parent rq \<noteq> parent \<or> rq_request_id rq \<noteq> request_id then raiseP ValueError
        else bindP (reserve boot hex now clock raw rq supplied) (\<lambda>result.
          (\<lambda>b. (Inr result, b\<lparr>bk_results := write_key request_id result (bk_results b)\<rparr>)))))"

definition complete :: "string \<Rightarrow> (broker, unit) prog" where
  "complete lid = raiseP RuntimeError"

definition cancel :: "string \<Rightarrow> (broker, string list) prog" where
  "cancel lid = raiseP RuntimeError"

definition finish_execution :: "string \<Rightarrow> string \<Rightarrow> (broker, unit) prog" where
  "finish_execution lid name = raiseP RuntimeError"

definition lease_of :: "string \<Rightarrow> (broker, lease) prog" where
  "lease_of lid = bindP read_state (\<lambda>st. liftP (active_lease st lid))"

definition record_execution :: "string \<Rightarrow> json \<Rightarrow> (broker, unit) prog" where
  "record_execution lid receipt =
     (if \<not> id_fullmatch lid then raiseP ValueError
      else (\<lambda>b. (Inr (), b\<lparr>bk_receipts := write_key lid receipt (bk_receipts b)\<rparr>)))"

definition execution_receipt :: "string \<Rightarrow> (broker, json) prog" where
  "execution_receipt lid =
     (if \<not> id_fullmatch lid then raiseP ValueError
      else bindP (lease_of lid) (\<lambda>_. (\<lambda>b.
        case map_of (bk_receipts b) lid of
          None \<Rightarrow> (Inl OSError, b)
        | Some v \<Rightarrow> (case v of JObj _ \<Rightarrow> (Inr v, b) | _ \<Rightarrow> (Inl TypeError, b)))))"

definition record_canary :: "string \<Rightarrow> json \<Rightarrow> (broker, unit) prog" where
  "record_canary run receipt =
     (if \<not> id_fullmatch run then raiseP ValueError
      else (\<lambda>b. (Inr (), b\<lparr>bk_canaries := write_key run receipt (bk_canaries b)\<rparr>)))"

definition receipt_mismatch :: "json \<Rightarrow> string \<Rightarrow> string \<Rightarrow> bool" where
  "receipt_mismatch receipt key expected =
     (case json_get receipt key of None \<Rightarrow> False | Some v \<Rightarrow> v \<noteq> JStr expected)"

definition float_plus :: "py_float \<Rightarrow> py_float \<Rightarrow> py_float" where
  "float_plus x y = (case y of
     Finite r \<Rightarrow> float_minus x (Finite (- r)) | Nan \<Rightarrow> Nan
   | Infinity \<Rightarrow> float_minus x Neg_infinity | Neg_infinity \<Rightarrow> float_minus x Infinity)"

text \<open>\<open>attach_execution\<close>: the ledger is saved before the receipt file is created exclusively, so an
  existing receipt raises after the claim was recorded.\<close>

definition attach_execution ::
  "string \<Rightarrow> py_float \<Rightarrow> string \<Rightarrow> string \<Rightarrow> string \<Rightarrow> string \<Rightarrow> json \<Rightarrow> py_float \<Rightarrow> (broker, unit) prog" where
  "attach_execution boot clock lid reservation attempt unit_name receipt ttl =
     (if \<not> id_fullmatch attempt \<or> \<not> id_fullmatch unit_name then raiseP ValueError
      else if \<not> is_finite ttl \<or> float_le ttl (Finite 0) then raiseP ValueError
      else if receipt_mismatch receipt ''attempt_id'' attempt \<or> receipt_mismatch receipt ''unit'' unit_name
      then raiseP ValueError
      else bindP read_state (\<lambda>st.
        bindP (liftP (active_lease st lid)) (\<lambda>l.
        if ls_state l \<noteq> Reserved then raiseP RuntimeError
        else if ls_reservation_id l \<noteq> reservation then raiseP ValueError
        else bindP (write_state (put_lease lid (l\<lparr>ls_state := Execution_active,
                 ls_attempt_id := Some attempt, ls_unit := Some unit_name,
                 ls_claim_expires := Some (float_plus clock ttl), ls_boot_id := boot\<rparr>) st)) (\<lambda>_.
          if \<not> id_fullmatch lid then raiseP ValueError
          else (\<lambda>b. if lid \<in> fst ` set (bk_receipts b) then (Inl OSError, b)
                   else (Inr (), b\<lparr>bk_receipts := write_key lid receipt (bk_receipts b)\<rparr>))))))"

text \<open>\<open>claim_execution\<close>, the compatibility wrapper.\<close>

definition receipt_name :: "json \<Rightarrow> string \<Rightarrow> string \<Rightarrow> string py_result" where
  "receipt_name receipt key fallback =
     (case json_get receipt key of None \<Rightarrow> Inr fallback | Some (JStr s) \<Rightarrow> Inr s | Some _ \<Rightarrow> Inl TypeError)"

definition claim_execution :: "string \<Rightarrow> py_float \<Rightarrow> string \<Rightarrow> json \<Rightarrow> (broker, unit) prog" where
  "claim_execution boot clock lid receipt =
     bindP (lease_of lid) (\<lambda>l.
     bindP (liftP (receipt_name receipt ''attempt_id'' (''attempt-'' @ lid))) (\<lambda>attempt.
     bindP (liftP (receipt_name receipt ''unit'' (''unknown-'' @ lid @ ''.service''))) (\<lambda>unit_name.
       attach_execution boot clock lid (ls_reservation_id l) attempt unit_name receipt CLAIM_TTL_SECONDS)))"

datatype release = Released lease_state | Unknown_release string

definition expired :: "py_float \<Rightarrow> py_float option \<Rightarrow> bool" where
  "expired observed e = (case e of None \<Rightarrow> False | Some x \<Rightarrow> float_le x observed)"

definition reconcile_execution ::
  "string \<Rightarrow> string \<Rightarrow> string \<Rightarrow> string \<Rightarrow> string \<Rightarrow> string \<Rightarrow> bool option \<Rightarrow> bool option \<Rightarrow> bool option
     \<Rightarrow> py_float \<Rightarrow> lease_state \<Rightarrow> bool \<Rightarrow> (broker, release) prog" where
  "reconcile_execution boot lid reservation attempt unit_name observed_boot started terminal cgroup_empty observed
       release_state require_expiry =
     bindP read_state (\<lambda>st.
       bindP (liftP (active_lease st lid)) (\<lambda>l.
       if ls_reservation_id l \<noteq> reservation \<or> ls_attempt_id l \<noteq> Some attempt \<or> ls_unit l \<noteq> Some unit_name
       then raiseP ValueError
       else if observed_boot \<noteq> ls_boot_id l \<or> observed_boot \<noteq> boot
       then returnP (Unknown_release ''boot_identity'')
       else
         (let resolved =
            (if started = Some False \<and> expired observed (ls_claim_expires l) then Some Abandoned
             else if terminal = Some True \<and> cgroup_empty = Some True
                  \<and> (\<not> require_expiry \<or> expired observed (ls_claim_expires l)) then Some release_state
             else None)
          in case resolved of
               None \<Rightarrow> returnP (Unknown_release ''runtime_ambiguous'')
             | Some s \<Rightarrow>
                 if has_active_children st lid then returnP (Unknown_release ''active_children'')
                 else bindP (write_state (put_lease lid (l\<lparr>ls_state := s, ls_reconciled := Some observed\<rparr>) st))
                        (\<lambda>_. returnP (Released s)))))"

definition reconcile_reservation ::
  "string \<Rightarrow> string \<Rightarrow> string \<Rightarrow> string \<Rightarrow> bool option \<Rightarrow> py_float \<Rightarrow> py_float \<Rightarrow> bool \<Rightarrow> lease_state
     \<Rightarrow> (broker, release) prog" where
  "reconcile_reservation boot lid reservation observed_boot launch_absent observed ttl require_expiry
       release_state =
     bindP read_state (\<lambda>st.
       bindP (liftP (active_lease st lid)) (\<lambda>l.
       if ls_reservation_id l \<noteq> reservation then raiseP ValueError
       else if ls_state l \<noteq> Reserved then returnP (Unknown_release ''execution_attached'')
       else if observed_boot \<noteq> ls_boot_id l \<or> observed_boot \<noteq> boot
       then returnP (Unknown_release ''boot_identity'')
       else if launch_absent \<noteq> Some True
            \<or> (require_expiry \<and> float_less observed (float_plus (ls_reserved_monotonic l) ttl))
       then returnP (Unknown_release ''launch_ambiguous'')
       else if has_active_children st lid then returnP (Unknown_release ''active_children'')
       else bindP (write_state (put_lease lid (l\<lparr>ls_state := release_state, ls_reconciled := Some observed\<rparr>) st))
              (\<lambda>_. returnP (Released release_state))))"

section \<open>Budgets add up\<close>

lemma field_sum: "f \<in> set budget_fields \<Longrightarrow> f (budget_sum a b) = f a + f b"
  by (auto simp: budget_fields_def budget_sum_def)

lemma field_zero: "f \<in> set budget_fields \<Longrightarrow> f ZERO = 0"
  by (auto simp: budget_fields_def ZERO_def budget_of_def)

lemma field_nonneg: "valid_budget b \<Longrightarrow> f \<in> set budget_fields \<Longrightarrow> 0 \<le> f b"
  by (auto simp: valid_budget_def list_all_iff)

lemma mk_budget_Inr: "mk_budget b = Inr c \<longleftrightarrow> c = b \<and> valid_budget b"
  by (auto simp: mk_budget_def)

lemma budget_add_Inr: "budget_add a b = Inr c \<longleftrightarrow> c = budget_sum a b \<and> valid_budget c"
  by (auto simp: budget_add_def mk_budget_def)

lemma fits_iff: "fits b limit \<longleftrightarrow> (\<forall>f \<in> set budget_fields. f b \<le> f limit)"
  by (simp add: fits_def list_all_iff)

text \<open>What the active children of a parent hold, and what all active leases use themselves.\<close>

definition child_share :: "(budget \<Rightarrow> int) \<Rightarrow> string \<Rightarrow> string \<times> lease \<Rightarrow> int" where
  "child_share f p = (\<lambda>(k, l). if lease_active l \<and> ls_parent l = p then f (ls_total l) else 0)"

definition held :: "(budget \<Rightarrow> int) \<Rightarrow> string \<Rightarrow> broker_state \<Rightarrow> int" where
  "held f p st = sum_list (map (child_share f p) (bs_leases st))"

definition in_use :: "(budget \<Rightarrow> int) \<Rightarrow> broker_state \<Rightarrow> int" where
  "in_use f st = sum_list (map (\<lambda>(k, l). if lease_active l then f (ls_own l) else 0) (bs_leases st))"

lemma used_budget_sum:
  assumes "used_budget p ls u = Inr r" and "f \<in> set budget_fields"
  shows "f r = f u + sum_list (map (child_share f p) ls)"
  using assms(1)
proof (induction ls arbitrary: u)
  case Nil
  then show ?case by simp
next
  case (Cons kl ls)
  obtain k l where kl: "kl = (k, l)" by fastforce
  show ?case
  proof (cases "lease_active l \<and> ls_parent l = p")
    case True
    with Cons.prems obtain t where "budget_add u (ls_total l) = Inr t" "used_budget p ls t = Inr r"
      by (auto simp: kl bindE_eq_Inr mk_budget_Inr)
    with Cons.IH [of t] True show ?thesis
      by (simp add: kl child_share_def budget_add_Inr field_sum [OF assms(2)])
  next
    case False
    with Cons kl show ?thesis by (auto simp: child_share_def)
  qed
qed

lemma write_key_keys:
  "map fst (write_key k v kvs) = (if k \<in> fst ` set kvs then map fst kvs else map fst kvs @ [k])"
  by (auto simp: write_key_def)

lemma map_of_overwrite:
  "map_of (map (\<lambda>(i, w). if i = k then (i, v) else (i, w)) kvs) j
     = (if j = k \<and> k \<in> fst ` set kvs then Some v else map_of kvs j)"
proof (induction kvs)
  case Nil
  then show ?case by simp
next
  case (Cons a kvs)
  obtain i w where a: "a = (i, w)" by fastforce
  show ?case
  proof (cases "i = k")
    case True
    with Cons a show ?thesis by (cases "j = k") simp_all
  next
    case False
    with Cons a show ?thesis by (cases "j = i") simp_all
  qed
qed

lemma map_of_write_key: "map_of (write_key k v kvs) j = (if j = k then Some v else map_of kvs j)"
proof (cases "k \<in> fst ` set kvs")
  case True
  then show ?thesis by (simp add: write_key_def map_of_overwrite)
next
  case False
  then have none: "map_of kvs k = None" by (simp add: map_of_eq_None_iff)
  show ?thesis
  proof (cases "j = k")
    case True
    with none False show ?thesis by (simp add: write_key_def map_add_def)
  next
    case False
    then have "map_of [(k, v)] j = None" by simp
    with \<open>k \<notin> fst ` set kvs\<close> False show ?thesis by (simp add: write_key_def map_add_def split: option.split)
  qed
qed

text \<open>The effect of one write on a total over the leases.\<close>

lemma sum_write_new:
  "k \<notin> fst ` set kvs \<Longrightarrow> sum_list (map g (write_key k v kvs)) = sum_list (map g kvs) + (g (k, v) :: int)"
  by (simp add: write_key_def)

lemma sum_write_old:
  fixes g :: "'k \<times> 'v \<Rightarrow> int"
  assumes "distinct (map fst kvs)" and "map_of kvs k = Some w"
  shows "sum_list (map g (write_key k v kvs)) = sum_list (map g kvs) - g (k, w) + g (k, v)"
proof -
  have "sum_list (map g (map (\<lambda>(j, w). if j = k then (j, v) else (j, w)) kvs))
      = sum_list (map g kvs) - g (k, w) + g (k, v)"
    using assms
  proof (induction kvs)
    case Nil
    then show ?case by simp
  next
    case (Cons a kvs)
    obtain j x where a: "a = (j, x)" by fastforce
    show ?case
    proof (cases "j = k")
      case True
      with Cons.prems a have "k \<notin> fst ` set kvs" "x = w" by auto
      then have "map (\<lambda>(j, w). if j = k then (j, v) else (j, w)) kvs = kvs"
        by (intro map_idI) force
      with True a \<open>x = w\<close> show ?thesis by simp
    next
      case False
      with Cons a show ?thesis by simp
    qed
  qed
  moreover have "k \<in> fst ` set kvs" using assms(2) by (metis map_of_eq_None_iff option.distinct(1))
  ultimately show ?thesis by (simp add: write_key_def)
qed

definition lease_ok :: "lease \<Rightarrow> bool" where
  "lease_ok l = (valid_budget (ls_own l) \<and> valid_budget (ls_children l) \<and> valid_budget (ls_total l)
     \<and> ls_total l = budget_sum (ls_own l) (ls_children l))"

definition lease_at :: "broker_state \<Rightarrow> string \<Rightarrow> lease option" where
  "lease_at st k = (case map_of (bs_leases st) k of
     Some l \<Rightarrow> if lease_active l then Some l else None | None \<Rightarrow> None)"

definition ledger_inv :: "broker_state \<Rightarrow> bool" where
  "ledger_inv st =
     (distinct (map fst (bs_leases st)) \<and> ''root'' \<notin> fst ` set (bs_leases st) \<and> valid_budget (bs_root st)
      \<and> (\<forall>(k, l) \<in> set (bs_leases st). lease_ok l
           \<and> (lease_active l \<longrightarrow> ls_parent l = ''root'' \<or> lease_at st (ls_parent l) \<noteq> None))
      \<and> (\<forall>f \<in> set budget_fields. held f ''root'' st \<le> f (bs_root st)
           \<and> (\<forall>p l. lease_at st p = Some l \<longrightarrow> held f p st \<le> f (ls_children l))))"

text \<open>Counting every active lease once under its parent: what the leases use themselves, over the
  whole tree, stays within the root budget.\<close>

lemma sum_parents:
  assumes "finite P"
  shows "(\<Sum>p\<in>P. sum_list (map (child_share f p) ls))
    = sum_list (map (\<lambda>(k, l). if lease_active l \<and> ls_parent l \<in> P then f (ls_total l) else 0) ls)"
proof (induction ls)
  case Nil
  then show ?case by simp
next
  case (Cons kl ls)
  obtain k l where kl: "kl = (k, l)" by fastforce
  have "(\<Sum>p\<in>P. child_share f p kl) = (if lease_active l \<and> ls_parent l \<in> P then f (ls_total l) else 0)"
    using assms by (cases "lease_active l") (simp_all add: kl child_share_def)
  with Cons show ?case by (simp add: sum.distrib kl)
qed

definition active_keys :: "(string \<times> lease) list \<Rightarrow> string set" where
  "active_keys ls = {k. \<exists>l. (k, l) \<in> set ls \<and> lease_active l}"

lemma active_keys_simps:
  "active_keys [] = {}" "active_keys ((k, l) # ls) = (if lease_active l then insert k (active_keys ls) else active_keys ls)"
  by (auto simp: active_keys_def)

lemma active_keys_sub: "active_keys ls \<subseteq> fst ` set ls"
  by (force simp: active_keys_def)

lemma sum_active_keys:
  assumes "distinct (map fst ls)"
  shows "(\<Sum>k\<in>active_keys ls. (h (the (map_of ls k)) :: int))
    = sum_list (map (\<lambda>(k, l). if lease_active l then h l else 0) ls)"
  using assms
proof (induction ls)
  case Nil
  then show ?case by (simp add: active_keys_simps)
next
  case (Cons kl ls)
  obtain k l where kl: "kl = (k, l)" by fastforce
  have out: "k \<notin> active_keys ls" using Cons.prems active_keys_sub [of ls] by (auto simp: kl)
  have fin: "finite (active_keys ls)" using active_keys_sub finite_subset by blast
  have "(\<Sum>j\<in>active_keys ls. h (the (map_of (kl # ls) j))) = (\<Sum>j\<in>active_keys ls. h (the (map_of ls j)))"
    using out by (intro sum.cong) (auto simp: kl)
  with Cons out fin show ?case by (simp add: kl active_keys_simps)
qed

lemma ledger_within_budget:
  assumes "ledger_inv st" and "f \<in> set budget_fields"
  shows "in_use f st \<le> f (bs_root st)"
proof -
  let ?ls = "bs_leases st" and ?K = "active_keys (bs_leases st)"
  have dist: "distinct (map fst ?ls)" and root: "''root'' \<notin> ?K"
    using assms(1) active_keys_sub [of ?ls] by (auto simp: ledger_inv_def)
  have fin: "finite ?K" using active_keys_sub finite_subset by blast
  have at: "lease_at st k = Some (the (map_of ?ls k))" if "k \<in> ?K" for k
    using that dist by (auto simp: active_keys_def lease_at_def)
  have par: "ls_parent l \<in> insert ''root'' ?K" if "(k, l) \<in> set ?ls" "lease_active l" for k l
  proof -
    from that assms(1) have "ls_parent l = ''root'' \<or> lease_at st (ls_parent l) \<noteq> None"
      by (auto simp: ledger_inv_def)
    then show ?thesis by (auto simp: lease_at_def active_keys_def dest!: map_of_SomeD split: option.splits if_splits)
  qed
  have tot: "f (ls_total l) = f (ls_own l) + f (ls_children l)" if "(k, l) \<in> set ?ls" for k l
    using that assms field_sum by (auto simp: ledger_inv_def lease_ok_def)
  have "sum_list (map (\<lambda>(k, l). if lease_active l then f (ls_total l) else 0) ?ls)
      = (\<Sum>p\<in>insert ''root'' ?K. held f p st)"
  proof -
    have "sum_list (map (\<lambda>(k, l). if lease_active l then f (ls_total l) else 0) ?ls)
        = sum_list (map (\<lambda>(k, l). if lease_active l \<and> ls_parent l \<in> insert ''root'' ?K then f (ls_total l) else 0) ?ls)"
      by (intro arg_cong [where f = sum_list] map_cong refl) (use par in fastforce)
    then show ?thesis unfolding held_def using fin by (simp only: sum_parents finite_insert)
  qed
  also have "\<dots> \<le> f (bs_root st) + (\<Sum>k\<in>?K. f (ls_children (the (map_of ?ls k))))"
    using assms at root fin by (auto simp: ledger_inv_def intro!: add_mono sum_mono)
  also have "\<dots> = f (bs_root st) + sum_list (map (\<lambda>(k, l). if lease_active l then f (ls_children l) else 0) ?ls)"
    by (simp add: sum_active_keys [OF dist, of "\<lambda>l. f (ls_children l)"])
  finally have le: "sum_list (map (\<lambda>(k, l). if lease_active l then f (ls_total l) else 0) ?ls)
      \<le> f (bs_root st) + sum_list (map (\<lambda>(k, l). if lease_active l then f (ls_children l) else 0) ?ls)" .
  have "sum_list (map (\<lambda>(k, l). if lease_active l then f (ls_total l) else 0) ?ls)
      = in_use f st + sum_list (map (\<lambda>(k, l). if lease_active l then f (ls_children l) else 0) ?ls)"
    unfolding in_use_def sum_list_addf [symmetric]
    using tot by (intro arg_cong [where f = sum_list] map_cong) auto
  with le show ?thesis by simp
qed

section \<open>Every operation keeps the ledger within budget\<close>

lemma set_write_key: "(j, w) \<in> set (write_key k v kvs) \<longleftrightarrow> (if j = k then w = v else (j, w) \<in> set kvs)"
proof (cases "k \<in> fst ` set kvs")
  case True
  have "(j, w) \<in> set (map (\<lambda>(i, x). if i = k then (i, v) else (i, x)) kvs)
      \<longleftrightarrow> (if j = k then w = v \<and> k \<in> fst ` set kvs else (j, w) \<in> set kvs)"
    by (induction kvs) (auto split: if_splits)
  with True show ?thesis by (simp add: write_key_def)
next
  case False
  then have "(k, x) \<notin> set kvs" for x by force
  with False show ?thesis by (auto simp: write_key_def)
qed

lemma lease_at_put:
  "lease_at (put_lease k l st) p = (if p = k then if lease_active l then Some l else None else lease_at st p)"
  by (simp add: lease_at_def put_lease_def map_of_write_key)

lemma put_lease_simps [simp]:
  "bs_root (put_lease k l st) = bs_root st" "bs_requests (put_lease k l st) = bs_requests st"
  by (simp_all add: put_lease_def)

lemma keys_put: "fst ` set (bs_leases (put_lease k l st)) = insert k (fst ` set (bs_leases st))"
proof -
  have "set (map fst (bs_leases (put_lease k l st))) = insert k (set (map fst (bs_leases st)))"
    unfolding put_lease_def by (simp add: write_key_keys insert_absorb image_iff)
  then show ?thesis by simp
qed

lemma held_nonneg:
  assumes "ledger_inv st" and "f \<in> set budget_fields"
  shows "0 \<le> held f p st"
  unfolding held_def
  by (rule sum_list_nonneg)
    (use assms field_nonneg in \<open>auto simp: child_share_def ledger_inv_def lease_ok_def\<close>)

lemma no_children_held:
  assumes "\<not> has_active_children st p"
  shows "held f p st = 0"
proof -
  have "map (child_share f p) (bs_leases st) = map (\<lambda>_. 0) (bs_leases st)"
    using assms by (intro map_cong refl) (auto simp: child_share_def has_active_children_def list_ex_iff)
  then show ?thesis unfolding held_def by (simp only: sum_list_0)
qed

lemma lease_at_absent: "k \<notin> fst ` set (bs_leases st) \<Longrightarrow> lease_at st k = None"
  by (simp add: lease_at_def map_of_eq_None_iff [THEN iffD2])

lemma ledger_invI:
  assumes "distinct (map fst (bs_leases st))" and "''root'' \<notin> fst ` set (bs_leases st)"
    and "valid_budget (bs_root st)"
    and "\<And>j m. (j, m) \<in> set (bs_leases st) \<Longrightarrow> lease_ok m
      \<and> (lease_active m \<longrightarrow> ls_parent m = ''root'' \<or> lease_at st (ls_parent m) \<noteq> None)"
    and "\<And>f p lim. f \<in> set budget_fields \<Longrightarrow> p = ''root'' \<and> lim = bs_root st
      \<or> (\<exists>q. p \<noteq> ''root'' \<and> lease_at st p = Some q \<and> lim = ls_children q) \<Longrightarrow> held f p st \<le> f lim"
  shows "ledger_inv st"
proof -
  have "p \<noteq> ''root''" if "lease_at st p = Some q" for p q
    using that lease_at_absent [OF assms(2)] by auto
  with assms show ?thesis unfolding ledger_inv_def by blast
qed

lemma child_share_nonneg:
  "lease_ok l \<Longrightarrow> f \<in> set budget_fields \<Longrightarrow> 0 \<le> child_share f p (k, l)"
  using field_nonneg by (auto simp: child_share_def lease_ok_def)

text \<open>A parent that no lease names holds nothing.\<close>

lemma fresh_held:
  assumes "ledger_inv st" and "k \<notin> fst ` set (bs_leases st)" and "k \<noteq> ''root''"
  shows "held f k st = 0"
proof -
  have "lease_at st k = None" using assms(2) by (rule lease_at_absent)
  then have "\<not> has_active_children st k"
    using assms(1,3) by (auto simp: has_active_children_def list_ex_iff ledger_inv_def)
  then show ?thesis by (rule no_children_held)
qed

lemma new_lease_inv:
  assumes "ledger_inv st" and "k \<notin> fst ` set (bs_leases st)" and "k \<noteq> ''root''" and "lease_ok l" and "lease_active l"
    and "ls_parent l = ''root'' \<and> limit = bs_root st
         \<or> (\<exists>q. ls_parent l \<noteq> ''root'' \<and> lease_at st (ls_parent l) = Some q \<and> limit = ls_children q)"
    and "\<And>f. f \<in> set budget_fields \<Longrightarrow> held f (ls_parent l) st + f (ls_total l) \<le> f limit"
  shows "ledger_inv (put_lease k l st)"
proof -
  have held: "held f p (put_lease k l st) = held f p st + child_share f p (k, l)" for f p
    using sum_write_new [OF assms(2)] by (simp add: held_def put_lease_def)
  have none: "lease_at st k = None" using assms(2) by (rule lease_at_absent)
  have dist: "distinct (map fst (bs_leases (put_lease k l st)))"
    using assms(1,2) by (simp add: put_lease_def write_key_keys ledger_inv_def)
  have parents: "lease_ok m \<and> (lease_active m \<longrightarrow> ls_parent m = ''root'' \<or> lease_at (put_lease k l st) (ls_parent m) \<noteq> None)"
    if "(j, m) \<in> set (bs_leases (put_lease k l st))" for j m
  proof (cases "j = k")
    case True
    with that have "m = l" by (simp add: put_lease_def set_write_key)
    with assms(4,5,6) none show ?thesis by (auto simp: lease_at_put)
  next
    case False
    with that have "(j, m) \<in> set (bs_leases st)" by (simp add: put_lease_def set_write_key)
    with assms(1,5) none show ?thesis by (auto simp: lease_at_put ledger_inv_def)
  qed
  have bound: "held f p (put_lease k l st) \<le> f lim"
    if f: "f \<in> set budget_fields" and lim: "p = ''root'' \<and> lim = bs_root st
      \<or> (\<exists>q. p \<noteq> ''root'' \<and> lease_at (put_lease k l st) p = Some q \<and> lim = ls_children q)" for f p lim
  proof (cases "p = k")
    case True
    with lim assms(3,5) have "lim = ls_children l" by (auto simp: lease_at_put)
    moreover have "0 \<le> f (ls_children l)" using assms(4) f field_nonneg by (simp add: lease_ok_def)
    moreover have "child_share f k (k, l) = 0" using assms(3,6) none by (auto simp: child_share_def)
    ultimately show ?thesis using True held fresh_held [OF assms(1-3)] by simp
  next
    case False
    with lim have old: "p = ''root'' \<and> lim = bs_root st
      \<or> (\<exists>q. p \<noteq> ''root'' \<and> lease_at st p = Some q \<and> lim = ls_children q)" by (simp add: lease_at_put)
    show ?thesis
    proof (cases "ls_parent l = p")
      case True
      with old assms(6) have "lim = limit" by auto
      with True assms(7) [OF f] show ?thesis by (simp add: held child_share_def assms(5))
    next
      case False
      with old assms(1) f show ?thesis by (auto simp: held child_share_def ledger_inv_def)
    qed
  qed
  have root: "''root'' \<notin> fst ` set (bs_leases (put_lease k l st))"
    using assms(1,3) by (simp add: keys_put ledger_inv_def)
  show ?thesis
    by (rule ledger_invI [OF dist root]) (use assms(1) parents bound in \<open>auto simp: ledger_inv_def\<close>)
qed

text \<open>Changing a lease without touching its budgets or parent, or releasing a childless one.\<close>

lemma update_lease_inv:
  assumes "ledger_inv st" and "lease_at st k = Some old" and "ls_parent new = ls_parent old"
    and "ls_own new = ls_own old" and "ls_children new = ls_children old" and "ls_total new = ls_total old"
    and "lease_active new \<or> \<not> has_active_children st k"
  shows "ledger_inv (put_lease k new st)"
proof -
  have old: "map_of (bs_leases st) k = Some old" "lease_active old"
    using assms(2) by (auto simp: lease_at_def split: option.splits if_splits)
  have dist: "distinct (map fst (bs_leases st))" using assms(1) by (simp add: ledger_inv_def)
  have mem: "(k, old) \<in> set (bs_leases st)" using old(1) by (rule map_of_SomeD)
  then have key: "k \<in> fst ` set (bs_leases st)" by force
  have ok: "lease_ok old" "lease_ok new" using assms(1,4-6) mem by (auto simp: ledger_inv_def lease_ok_def)
  have held: "held f p (put_lease k new st) = held f p st - child_share f p (k, old) + child_share f p (k, new)" for f p
    unfolding held_def put_lease_def using sum_write_old [OF dist old(1)] by simp
  have less: "held f p (put_lease k new st) \<le> held f p st" if "f \<in> set budget_fields" for f p
    using child_share_nonneg [OF ok(1) that, of p k] old(2) assms(3,6) by (auto simp: held child_share_def)
  have parents: "lease_ok m \<and> (lease_active m \<longrightarrow> ls_parent m = ''root'' \<or> lease_at (put_lease k new st) (ls_parent m) \<noteq> None)"
    if new: "(j, m) \<in> set (bs_leases (put_lease k new st))" for j m
  proof -
    obtain m0 where m0: "(j, m0) \<in> set (bs_leases st)" "ls_parent m = ls_parent m0" "lease_ok m"
      "lease_active m \<Longrightarrow> lease_active m0"
      using new mem old(2) assms(3) ok(2) assms(1)
      by (cases "j = k") (auto simp: put_lease_def set_write_key ledger_inv_def)
    have "lease_at (put_lease k new st) (ls_parent m) \<noteq> None"
      if "lease_active m" "ls_parent m \<noteq> ''root''"
    proof (cases "ls_parent m = k")
      case True
      with m0 that have "has_active_children st k" by (force simp: has_active_children_def list_ex_iff)
      with assms(7) True show ?thesis by (simp add: lease_at_put)
    next
      case False
      with m0 that assms(1) show ?thesis by (fastforce simp: lease_at_put ledger_inv_def)
    qed
    with m0(3) show ?thesis by blast
  qed
  have root: "''root'' \<notin> fst ` set (bs_leases (put_lease k new st))"
    using assms(1) key by (simp add: keys_put ledger_inv_def insert_absorb)
  have dist': "distinct (map fst (bs_leases (put_lease k new st)))"
    using dist key by (simp add: put_lease_def write_key_keys)
  show ?thesis
  proof (rule ledger_invI [OF dist' root])
    show "valid_budget (bs_root (put_lease k new st))" using assms(1) by (simp add: ledger_inv_def)
    fix f p lim
    assume f: "f \<in> set budget_fields" and "p = ''root'' \<and> lim = bs_root (put_lease k new st)
      \<or> (\<exists>q. p \<noteq> ''root'' \<and> lease_at (put_lease k new st) p = Some q \<and> lim = ls_children q)"
    then have "held f p st \<le> f lim"
      using assms(1,2,5) by (auto simp: ledger_inv_def lease_at_put split: if_splits)
    with less [OF f] show "held f p (put_lease k new st) \<le> f lim" by (rule order_trans)
  qed (rule parents)
qed

lemma active_lease_Inr: "active_lease st k = Inr l \<longleftrightarrow> lease_at st k = Some l"
  by (auto simp: active_lease_def lease_at_def split: option.splits)

lemma bindE_E:
  assumes "bindE m f = Inr y"
  obtains x where "m = Inr x" "f x = Inr y"
  using assms by (auto simp: bindE_eq_Inr)

lemma if_neq_left:
  assumes "(if b then Inl e else r) = Inr y"
  obtains "\<not> b" "r = Inr y"
  using assms by (auto split: if_splits)

text \<open>What a granted reservation adds: a new lease below its parent's remaining budget.\<close>

lemma reserve_locked_cases:
  assumes "reserve_locked boot hex clock rq st = Inr (r, st')"
  obtains (refused) "st' = st" "r = Refused_result (rq_request_id rq) (rq_parent rq) ''parent_budget''"
    | (granted) l limit where "st' = put_lease (rq_worker rq) l st"
      "r = Reserved_result (rq_request_id rq) (rq_parent rq) (rq_worker rq) hex"
      "rq_worker rq \<notin> fst ` set (bs_leases st)" "rq_worker rq \<noteq> ''root''"
      "lease_active l" "ls_parent l = rq_parent rq" "ls_reservation_id l = hex" "ls_attempt_id l = None"
      "parent_limit st (rq_parent rq) = Inr limit"
      "valid_budget (ls_children l)" "valid_budget (ls_total l)" "class_budget (rq_worker_class rq) = Inr (ls_own l)"
      "ls_total l = budget_sum (ls_own l) (ls_children l)" "ls_children l = rq_children rq"
      "\<And>f. f \<in> set budget_fields \<Longrightarrow> held f (rq_parent rq) st + f (ls_total l) \<le> f limit"
proof -
  have "\<not> (rq_worker rq = ''root'' \<or> rq_worker rq \<in> fst ` set (bs_leases st))"
    using assms unfolding reserve_locked_def by (rule if_neq_left)
  then have fresh: "rq_worker rq \<noteq> ''root''" "rq_worker rq \<notin> fst ` set (bs_leases st)" by blast+
  let ?go = "\<lambda>own limit used. if \<not> fits (budget_sum used (budget_sum own (rq_children rq))) limit
    then (Refused_result (rq_request_id rq) (rq_parent rq) ''parent_budget'', st)
    else (Reserved_result (rq_request_id rq) (rq_parent rq) (rq_worker rq) hex,
          put_lease (rq_worker rq)
            (new_lease boot hex clock rq own (rq_children rq) (budget_sum own (rq_children rq))) st)"
  obtain own limit used where run:
    "class_budget (rq_worker_class rq) = Inr own" "valid_budget (rq_children rq)"
    "valid_budget (budget_sum own (rq_children rq))" "parent_limit st (rq_parent rq) = Inr limit"
    "used_budget (rq_parent rq) (bs_leases st) ZERO = Inr used" "(r, st') = ?go own limit used"
    using assms fresh unfolding reserve_locked_def
    by (elim bindE_E if_neq_left) (auto simp: mk_budget_Inr budget_add_Inr split: if_splits)
  show ?thesis
  proof (cases "fits (budget_sum used (budget_sum own (rq_children rq))) limit")
    case False
    with run(6) show ?thesis by (intro refused) auto
  next
    case True
    have "held f (rq_parent rq) st + f (budget_sum own (rq_children rq)) \<le> f limit" if "f \<in> set budget_fields" for f
      using True that used_budget_sum [OF run(5) that]
      by (auto simp: fits_iff field_sum [OF that] field_zero [OF that] held_def)
    with True run fresh show ?thesis
      by (intro granted [of "new_lease boot hex clock rq own (rq_children rq) (budget_sum own (rq_children rq))" limit])
        (simp_all add: lease_active_def ACTIVE_def new_lease_def)
  qed
qed

lemma class_budget_valid: "class_budget name = Inr b \<Longrightarrow> valid_budget b"
  by (auto simp: class_budget_def CLASSES_def budget_of_def valid_budget_def budget_fields_def
      split: if_splits option.splits)

lemma reserve_locked_inv:
  assumes "ledger_inv st" and "reserve_locked boot hex clock rq st = Inr (r, st')"
  shows "ledger_inv st'"
  using assms(2)
proof (cases rule: reserve_locked_cases)
  case refused
  with assms(1) show ?thesis by simp
next
  case (granted l limit)
  have "lease_ok l" using granted(10-13) class_budget_valid by (simp add: lease_ok_def)
  moreover have "ls_parent l = ''root'' \<and> limit = bs_root st
      \<or> (\<exists>q. ls_parent l \<noteq> ''root'' \<and> lease_at st (ls_parent l) = Some q \<and> limit = ls_children q)"
    using granted(6,9) by (auto simp: parent_limit_def bindE_eq_Inr active_lease_Inr mk_budget_Inr split: if_splits)
  ultimately show ?thesis
    unfolding granted(1) using granted(3-6,15) by (intro new_lease_inv [OF assms(1)]) auto
qed

definition broker_inv :: "broker \<Rightarrow> bool" where
  "broker_inv b = (\<forall>st \<in> set_option (bk_state b). ledger_inv st)"

lemma read_state_run:
  "read_state b = (r, b') \<longleftrightarrow> b' = b \<and> r = (case bk_state b of None \<Rightarrow> Inl OSError | Some st \<Rightarrow> Inr st)"
  by (auto simp: read_state_def split: option.splits)

lemma write_state_run [simp]: "write_state st b = (Inr (), b\<lparr>bk_state := Some st\<rparr>)"
  by (simp add: write_state_def)

lemma bind_read_state:
  "bindP read_state k b = (case bk_state b of None \<Rightarrow> (Inl OSError, b) | Some st \<Rightarrow> k st b)"
  by (simp add: bindP_Pair read_state_def split: option.split)

lemma bind_liftP: "bindP (liftP r) k b = (case r of Inl e \<Rightarrow> (Inl e, b) | Inr x \<Rightarrow> k x b)"
  by (simp add: bindP_Pair split: sum.split)

lemma bind_write_state: "bindP (write_state st) k b = k () (b\<lparr>bk_state := Some st\<rparr>)"
  by (simp add: bindP_Pair)

lemmas broker_run = bind_read_state bind_liftP bind_write_state

lemma ledger_inv_frame:
  "ledger_inv (st\<lparr>bs_requests := rs\<rparr>) = ledger_inv st" "ledger_inv (st\<lparr>bs_pressure_sample := ps\<rparr>) = ledger_inv st"
  "lease_at (st\<lparr>bs_requests := rs\<rparr>) = lease_at st" "lease_at (st\<lparr>bs_pressure_sample := ps\<rparr>) = lease_at st"
  by (auto simp: ledger_inv_def lease_at_def held_def fun_eq_iff)

lemma pressure_sample_frame:
  assumes "pressure_sample supplied raw st = (sample, st1)"
  shows "bs_leases st1 = bs_leases st \<and> bs_root st1 = bs_root st \<and> bs_requests st1 = bs_requests st
    \<and> ledger_inv st1 = ledger_inv st \<and> lease_at st1 = lease_at st"
  using assms
  by (auto simp: pressure_sample_def ledger_inv_frame split: option.splits)

text \<open>A reservation either fails without a trace, replays an answer, or records a new one.\<close>

lemma reserve_cases:
  assumes "reserve boot hex now clock raw rq supplied b = (r, b')"
  obtains (unchanged) "b' = b"
      "\<And>x. r = Inr x \<Longrightarrow> \<exists>st. bk_state b = Some st \<and> map_of (bs_requests st) (rq_request_id rq) = Some x"
    | (recorded) st sample st1 reserved candidate result st2 where "bk_state b = Some st"
      "map_of (bs_requests st) (rq_request_id rq) = None"
      "pressure_sample supplied raw st = (sample, st1)" "admission_memory st1 rq = Inr (reserved, candidate)"
      "refusal sample (rq_worker_class rq) reserved candidate now \<noteq> None \<and> st2 = st1
         \<and> (\<exists>why. result = Refused_result (rq_request_id rq) (rq_parent rq) why)
       \<or> refusal sample (rq_worker_class rq) reserved candidate now = None
         \<and> reserve_locked boot hex clock rq st1 = Inr (result, st2)"
      "r = Inr result"
      "b' = b\<lparr>bk_state := Some (st2\<lparr>bs_requests := write_key (rq_request_id rq) result (bs_requests st2)\<rparr>)\<rparr>"
proof (cases "bk_state b")
  case None
  with assms show ?thesis by (intro unchanged) (auto simp: reserve_def broker_run)
next
  case st: (Some st)
  show ?thesis
  proof (cases "map_of (bs_requests st) (rq_request_id rq)")
    case (Some prior)
    with assms st show ?thesis
      by (intro unchanged) (auto simp: reserve_def broker_run split: if_splits)
  next
    case None
    obtain sample st1 where ps: "pressure_sample supplied raw st = (sample, st1)" by fastforce
    show ?thesis
    proof (cases "admission_memory st1 rq")
      case (Inl e)
      with assms st None ps show ?thesis by (intro unchanged) (auto simp: reserve_def broker_run)
    next
      case (Inr mem)
      obtain reserved candidate where mem: "mem = (reserved, candidate)" by fastforce
      show ?thesis
      proof (cases "refusal sample (rq_worker_class rq) reserved candidate now")
        case (Some why)
        with assms st None ps Inr mem show ?thesis
          by (intro recorded [OF st None ps]) (auto simp: reserve_def broker_run)
      next
        case ok: None
        show ?thesis
        proof (cases "reserve_locked boot hex clock rq st1")
          case (Inl e)
          with ok assms st None ps Inr mem show ?thesis by (intro unchanged) (auto simp: reserve_def broker_run)
        next
          case locked: (Inr x)
          obtain result st2 where "x = (result, st2)" by fastforce
          with locked ok assms st None ps Inr mem show ?thesis
            by (intro recorded [OF st None ps]) (auto simp: reserve_def broker_run)
        qed
      qed
    qed
  qed
qed

lemma reserve_inv:
  assumes "broker_inv b" and "reserve boot hex now clock raw rq supplied b = (r, b')"
  shows "broker_inv b'"
  using assms(2)
proof (cases rule: reserve_cases)
  case unchanged
  with assms(1) show ?thesis by simp
next
  case (recorded st sample st1 reserved candidate result st2)
  have "ledger_inv st1" using assms(1) recorded(1) pressure_sample_frame [OF recorded(3)] by (simp add: broker_inv_def)
  then have "ledger_inv st2" using recorded(5) reserve_locked_inv by blast
  then show ?thesis unfolding recorded(7) by (simp add: broker_inv_def ledger_inv_frame)
qed

lemma attach_cases:
  assumes "attach_execution boot clock lid res att un receipt ttl b = (r, b')"
  obtains (unchanged) "bk_state b' = bk_state b"
    | (attached) st l where "bk_state b = Some st" "lease_at st lid = Some l" "ls_state l = Reserved"
      "ls_reservation_id l = res"
      "bk_state b' = Some (put_lease lid (l\<lparr>ls_state := Execution_active, ls_attempt_id := Some att,
         ls_unit := Some un, ls_claim_expires := Some (float_plus clock ttl), ls_boot_id := boot\<rparr>) st)"
proof (cases "bk_state b")
  case None
  with assms show ?thesis by (intro unchanged) (auto simp: attach_execution_def broker_run split: if_splits)
next
  case st: (Some st)
  show ?thesis
  proof (cases "active_lease st lid")
    case (Inl e)
    with assms st show ?thesis by (intro unchanged) (auto simp: attach_execution_def broker_run split: if_splits)
  next
    case (Inr l)
    then have at: "lease_at st lid = Some l" by (simp add: active_lease_Inr)
    show ?thesis
    proof (cases "ls_state l = Reserved \<and> ls_reservation_id l = res \<and> id_fullmatch att \<and> id_fullmatch un
        \<and> is_finite ttl \<and> \<not> float_le ttl (Finite 0)
        \<and> \<not> (receipt_mismatch receipt ''attempt_id'' att \<or> receipt_mismatch receipt ''unit'' un)")
      case True
      with assms st Inr at show ?thesis
        by (intro attached) (auto simp: attach_execution_def broker_run split: if_splits)
    next
      case False
      with assms st Inr show ?thesis
        by (intro unchanged) (auto simp: attach_execution_def broker_run split: if_splits)
    qed
  qed
qed

text \<open>The evidence a release of an attached, or of an unattached, lease rests on.\<close>

definition execution_proof :: "bool option \<Rightarrow> bool option \<Rightarrow> bool option \<Rightarrow> py_float \<Rightarrow> bool \<Rightarrow> lease \<Rightarrow> bool" where
  "execution_proof started terminal cgroup_empty observed require_expiry l =
     (started = Some False \<and> expired observed (ls_claim_expires l)
      \<or> terminal = Some True \<and> cgroup_empty = Some True \<and> (\<not> require_expiry \<or> expired observed (ls_claim_expires l)))"

lemma reconcile_execution_cases:
  assumes "reconcile_execution boot lid res att un oboot started terminal cgroup_empty observed rel req b = (r, b')"
  obtains (unchanged) "b' = b" "\<And>s. r \<noteq> Inr (Released s)"
    | (released) st l s where "bk_state b = Some st" "lease_at st lid = Some l" "r = Inr (Released s)"
      "ls_reservation_id l = res" "ls_attempt_id l = Some att" "ls_unit l = Some un" "oboot = ls_boot_id l" "oboot = boot"
      "execution_proof started terminal cgroup_empty observed req l" "s \<in> {Abandoned, rel}"
      "\<not> has_active_children st lid"
      "b' = b\<lparr>bk_state := Some (put_lease lid (l\<lparr>ls_state := s, ls_reconciled := Some observed\<rparr>) st)\<rparr>"
proof (cases "bk_state b")
  case None
  with assms show ?thesis by (intro unchanged) (auto simp: reconcile_execution_def broker_run)
next
  case st: (Some st)
  show ?thesis
  proof (cases "active_lease st lid")
    case (Inl e)
    with assms st show ?thesis by (intro unchanged) (auto simp: reconcile_execution_def broker_run)
  next
    case (Inr l)
    then have at: "lease_at st lid = Some l" by (simp add: active_lease_Inr)
    show ?thesis
    proof (cases "ls_reservation_id l = res \<and> ls_attempt_id l = Some att \<and> ls_unit l = Some un \<and> oboot = ls_boot_id l
        \<and> oboot = boot \<and> execution_proof started terminal cgroup_empty observed req l \<and> \<not> has_active_children st lid")
      case True
      let ?s = "if started = Some False \<and> expired observed (ls_claim_expires l) then Abandoned else rel"
      from True assms st Inr
      have "r = Inr (Released ?s) \<and> b' = b\<lparr>bk_state := Some (put_lease lid (l\<lparr>ls_state := ?s, ls_reconciled := Some observed\<rparr>) st)\<rparr>"
        by (auto simp: reconcile_execution_def broker_run Let_def execution_proof_def split: if_splits)
      with True st at show ?thesis by (intro released [of st l ?s]) auto
    next
      case False
      with assms st Inr show ?thesis
        by (intro unchanged)
          (auto simp: reconcile_execution_def broker_run Let_def execution_proof_def split: if_splits)
    qed
  qed
qed

lemma reconcile_reservation_cases:
  assumes "reconcile_reservation boot lid res oboot absent observed ttl req rel b = (r, b')"
  obtains (unchanged) "b' = b" "\<And>s. r \<noteq> Inr (Released s)"
    | (released) st l where "bk_state b = Some st" "lease_at st lid = Some l" "r = Inr (Released rel)"
      "ls_reservation_id l = res" "ls_state l = Reserved" "oboot = ls_boot_id l" "oboot = boot" "absent = Some True"
      "req \<Longrightarrow> \<not> float_less observed (float_plus (ls_reserved_monotonic l) ttl)" "\<not> has_active_children st lid"
      "b' = b\<lparr>bk_state := Some (put_lease lid (l\<lparr>ls_state := rel, ls_reconciled := Some observed\<rparr>) st)\<rparr>"
proof (cases "bk_state b")
  case None
  with assms show ?thesis by (intro unchanged) (auto simp: reconcile_reservation_def broker_run)
next
  case st: (Some st)
  show ?thesis
  proof (cases "active_lease st lid")
    case (Inl e)
    with assms st show ?thesis by (intro unchanged) (auto simp: reconcile_reservation_def broker_run)
  next
    case (Inr l)
    then have at: "lease_at st lid = Some l" by (simp add: active_lease_Inr)
    show ?thesis
    proof (cases "ls_reservation_id l = res \<and> ls_state l = Reserved \<and> oboot = ls_boot_id l
        \<and> oboot = boot \<and> absent = Some True \<and> \<not> has_active_children st lid
        \<and> \<not> (req \<and> float_less observed (float_plus (ls_reserved_monotonic l) ttl))")
      case True
      with assms st Inr at show ?thesis
        by (intro released) (auto simp: reconcile_reservation_def broker_run split: if_splits)
    next
      case False
      with assms st Inr show ?thesis
        by (intro unchanged) (auto simp: reconcile_reservation_def broker_run split: if_splits)
    qed
  qed
qed

text \<open>Every call of a broker operation, with any arguments the types of the code allow.\<close>

inductive broker_step :: "broker \<Rightarrow> broker \<Rightarrow> bool" where
  step_initialize: "valid_budget bud \<Longrightarrow> initialize bud b = (r, b') \<Longrightarrow> broker_step b b'"
| step_reserve: "reserve boot hex now clock raw rq supplied b = (rr, b') \<Longrightarrow> broker_step b b'"
| step_ingest: "ingest boot hex now clock raw inbox par rid supplied b = (rr, b') \<Longrightarrow> broker_step b b'"
| step_attach: "attach_execution boot clock lid res att un receipt ttl b = (ru, b') \<Longrightarrow> broker_step b b'"
| step_execution: "rel \<in> {Completed, Cancelled} \<Longrightarrow>
    reconcile_execution boot lid res att un oboot started terminal cgroup_empty observed rel req b = (rx, b')
    \<Longrightarrow> broker_step b b'"
| step_reservation: "rel \<in> {Abandoned, Completed, Cancelled} \<Longrightarrow>
    reconcile_reservation boot lid res oboot absent observed ttl req rel b = (rx, b') \<Longrightarrow> broker_step b b'"
| step_receipt: "record_execution lid receipt b = (ru, b') \<Longrightarrow> broker_step b b'"
| step_canary: "record_canary lid receipt b = (ru, b') \<Longrightarrow> broker_step b b'"

lemma ingest_cases:
  assumes "ingest boot hex now clock raw inbox par rid supplied b = (r, b')"
  obtains (unchanged) "b' = b"
    | (reserved) rq rr b1 where "reserve boot hex now clock raw rq supplied b = (rr, b1)" "bk_state b' = bk_state b1"
proof (cases "\<not> id_fullmatch par \<or> \<not> id_fullmatch rid")
  case True
  with assms show ?thesis by (intro unchanged) (auto simp: ingest_def)
next
  case ids: False
  show ?thesis
  proof (cases "inbox par rid")
    case (Inl e)
    with assms ids show ?thesis by (intro unchanged) (auto simp: ingest_def broker_run)
  next
    case (Inr rq)
    obtain rr b1 where run: "reserve boot hex now clock raw rq supplied b = (rr, b1)" by fastforce
    show ?thesis
    proof (cases "rq_parent rq \<noteq> par \<or> rq_request_id rq \<noteq> rid")
      case True
      with assms ids Inr show ?thesis by (intro unchanged) (auto simp: ingest_def broker_run)
    next
      case False
      with assms ids Inr run have "bk_state b' = bk_state b1"
        by (auto simp: ingest_def broker_run bindP_Pair split: sum.splits)
      with run show ?thesis by (rule reserved)
    qed
  qed
qed

text \<open>A claim through the wrapper is an attachment or changes nothing.\<close>

lemma claim_execution_step:
  assumes "claim_execution boot clock lid receipt b = (r, b')"
  shows "b' = b \<or> broker_step b b'"
proof -
  have "\<exists>x. lease_of lid b = (x, b)"
    by (simp add: lease_of_def broker_run split: option.splits)
  then obtain x where x: "lease_of lid b = (x, b)" by blast
  have "b' = b \<or> (\<exists>res att un. attach_execution boot clock lid res att un receipt CLAIM_TTL_SECONDS b = (r, b'))"
    using assms by (auto simp: claim_execution_def bindP_Pair [of "lease_of lid"] x bind_liftP split: sum.splits)
  then show ?thesis using step_attach by blast
qed

lemma broker_inv_state: "bk_state b' = bk_state b \<Longrightarrow> broker_inv b' = broker_inv b"
  by (simp add: broker_inv_def)

lemma inactive_states:
  "s \<in> {Abandoned, Completed, Cancelled} \<Longrightarrow> \<not> lease_active (l\<lparr>ls_state := s, ls_reconciled := x\<rparr>)"
  by (auto simp: lease_active_def ACTIVE_def)

lemma broker_step_inv:
  assumes "broker_step b b'" and "broker_inv b"
  shows "broker_inv b'"
  using assms(1)
proof cases
  case (step_initialize bud r)
  then show ?thesis using assms(2)
    by (auto simp: initialize_def broker_inv_def ledger_inv_def held_def lease_at_def field_nonneg split: if_splits)
next
  case (step_reserve boot hex now clock raw rq supplied rr)
  with assms(2) show ?thesis by (rule reserve_inv)
next
  case (step_ingest boot hex now clock raw inbox par rid supplied rr)
  then show ?thesis
  proof (cases rule: ingest_cases)
    case unchanged
    with assms(2) show ?thesis by simp
  next
    case (reserved rq rr1 b1)
    from reserve_inv [OF assms(2) reserved(1)] reserved(2) show ?thesis by (simp add: broker_inv_def)
  qed
next
  case (step_attach boot clock lid res att un receipt ttl ru)
  then show ?thesis
  proof (cases rule: attach_cases)
    case unchanged
    with assms(2) show ?thesis by (simp add: broker_inv_def)
  next
    case (attached st l)
    have "ledger_inv st" using assms(2) attached(1) by (simp add: broker_inv_def)
    from update_lease_inv [OF this attached(2)] attached(5) show ?thesis
      by (simp add: broker_inv_def lease_active_def ACTIVE_def)
  qed
next
  case (step_execution rel boot lid res att un oboot started terminal cgroup_empty observed req rx)
  from step_execution(2) show ?thesis
  proof (cases rule: reconcile_execution_cases)
    case unchanged
    with assms(2) show ?thesis by simp
  next
    case (released st l s)
    have "ledger_inv st" using assms(2) released(1) by (simp add: broker_inv_def)
    from update_lease_inv [OF this released(2)] released(11,12) show ?thesis by (simp add: broker_inv_def)
  qed
next
  case (step_reservation rel boot lid res oboot absent observed ttl req rx)
  from step_reservation(2) show ?thesis
  proof (cases rule: reconcile_reservation_cases)
    case unchanged
    with assms(2) show ?thesis by simp
  next
    case (released st l)
    have "ledger_inv st" using assms(2) released(1) by (simp add: broker_inv_def)
    from update_lease_inv [OF this released(2)] released(10,11) show ?thesis by (simp add: broker_inv_def)
  qed
next
  case (step_receipt lid receipt ru)
  then have "bk_state b' = bk_state b" by (auto simp: record_execution_def split: if_splits)
  with assms(2) show ?thesis by (simp add: broker_inv_def)
next
  case (step_canary lid receipt ru)
  then have "bk_state b' = bk_state b" by (auto simp: record_canary_def split: if_splits)
  with assms(2) show ?thesis by (simp add: broker_inv_def)
qed

definition empty_broker :: broker where
  "empty_broker = \<lparr>bk_state = None, bk_receipts = [], bk_results = [], bk_canaries = []\<rparr>"

lemma broker_steps_inv:
  assumes "broker_step\<^sup>*\<^sup>* b b'" and "broker_inv b"
  shows "broker_inv b'"
  using assms by (induction rule: rtranclp_induct) (auto intro: broker_step_inv)

text \<open>C3. Whatever calls the broker has served since its directory was empty, for each of the seven
  resources the active leases of the whole tree together use no more than the root budget, and
  the active children of each active lease hold no more than the budget it set aside for them.\<close>

theorem broker_within_budget:
  assumes "broker_step\<^sup>*\<^sup>* empty_broker b" and "bk_state b = Some st" and "f \<in> set budget_fields"
  shows "in_use f st \<le> f (bs_root st)
    \<and> (\<forall>k l. lease_at st k = Some l \<longrightarrow> held f k st \<le> f (ls_children l))"
proof -
  have "broker_inv empty_broker" by (simp add: broker_inv_def empty_broker_def)
  with broker_steps_inv [OF assms(1)] assms(2) have inv: "ledger_inv st" by (simp add: broker_inv_def)
  with ledger_within_budget [OF inv assms(3)] assms(3) show ?thesis by (auto simp: ledger_inv_def)
qed

section \<open>Releases and replays\<close>

lemma reserve_keeps:
  assumes "reserve boot hex now clock raw rq supplied b = (r, b')" and "bk_state b = Some st"
    and "lease_at st k = Some l" and "bk_state b' = Some st'"
  shows "lease_at st' k = Some l"
  using assms(1)
proof (cases rule: reserve_cases)
  case unchanged
  with assms show ?thesis by simp
next
  case (recorded st0 sample st1 reserved candidate result st2)
  have l1: "lease_at st1 k = Some l" and keys: "bs_leases st1 = bs_leases st"
    using recorded(1) assms(2,3) pressure_sample_frame [OF recorded(3)] by auto
  have "lease_at st2 k = Some l" if "reserve_locked boot hex clock rq st1 = Inr (result, st2)"
    using that
  proof (cases rule: reserve_locked_cases)
    case (granted l' limit)
    with l1 lease_at_absent [OF granted(3)] show ?thesis by (auto simp: lease_at_put)
  qed (use l1 in simp)
  then have "lease_at st2 k = Some l" using recorded(5) l1 by blast
  with recorded(7) assms(4) show ?thesis by (auto simp: ledger_inv_frame)
qed

lemma broker_step_leases:
  assumes "broker_step b b'" and "bk_state b = Some st" and "lease_at st k = Some l"
    and "bk_state b' = Some st'" and "lease_at st' k = None"
  obtains (execution) rel boot started terminal cgroup_empty observed req att un s where
      "reconcile_execution boot k (ls_reservation_id l) att un boot started terminal cgroup_empty
         observed rel req b = (Inr (Released s), b')"
      "ls_attempt_id l = Some att" "ls_unit l = Some un" "ls_boot_id l = boot"
      "execution_proof started terminal cgroup_empty observed req l" "\<not> has_active_children st k"
    | (reservation) rel boot observed ttl req where
      "reconcile_reservation boot k (ls_reservation_id l) boot (Some True) observed ttl req rel b
         = (Inr (Released rel), b')"
      "ls_state l = Reserved" "ls_boot_id l = boot"
      "req \<Longrightarrow> \<not> float_less observed (float_plus (ls_reserved_monotonic l) ttl)" "\<not> has_active_children st k"
  using assms(1)
proof cases
  case (step_initialize bud r)
  with assms show ?thesis by (auto simp: initialize_def)
next
  case (step_reserve boot hex now clock raw rq supplied rr)
  from reserve_keeps [OF this assms(2-4)] assms(5) show ?thesis by simp
next
  case (step_ingest boot hex now clock raw inbox par rid supplied rr)
  then show ?thesis
  proof (cases rule: ingest_cases)
    case unchanged
    with assms show ?thesis by simp
  next
    case (reserved rq rr1 b1)
    with reserve_keeps [OF reserved(1) assms(2,3)] assms(4,5) show ?thesis by simp
  qed
next
  case (step_attach boot clock lid res att un receipt ttl ru)
  then show ?thesis
  proof (cases rule: attach_cases)
    case unchanged
    with assms show ?thesis by simp
  next
    case (attached st0 l0)
    with assms show ?thesis by (auto simp: lease_at_put lease_active_def ACTIVE_def split: if_splits)
  qed
next
  case (step_execution rel boot lid res att un oboot started terminal cgroup_empty observed req rx)
  from step_execution(2) show ?thesis
  proof (cases rule: reconcile_execution_cases)
    case unchanged
    with assms show ?thesis by simp
  next
    case (released st0 l0 s)
    then have "lid = k" "st0 = st" using assms by (auto simp: lease_at_put split: if_splits)
    moreover from this released(2) assms(3) have "l0 = l" by simp
    ultimately show ?thesis using released step_execution(2) by (intro execution) auto
  qed
next
  case (step_reservation rel boot lid res oboot absent observed ttl req rx)
  from step_reservation(2) show ?thesis
  proof (cases rule: reconcile_reservation_cases)
    case unchanged
    with assms show ?thesis by simp
  next
    case (released st0 l0)
    then have "lid = k" "st0 = st" using assms by (auto simp: lease_at_put split: if_splits)
    moreover from this released(2) assms(3) have "l0 = l" by simp
    ultimately show ?thesis using released step_reservation(2) by (intro reservation [of boot observed ttl req rel]) auto
  qed
next
  case (step_receipt lid receipt ru)
  then have "bk_state b' = bk_state b" by (auto simp: record_execution_def split: if_splits)
  with assms show ?thesis by simp
next
  case (step_canary lid receipt ru)
  then have "bk_state b' = bk_state b" by (auto simp: record_canary_def split: if_splits)
  with assms show ?thesis by simp
qed

text \<open>C9. An active lease is released only by a reconciliation that names its reservation and the boot it
  was made in, with no active children, and with positive proof: for an attached attempt its exact
  attempt and unit, and either that it never started and its claim expired or that its unit is
  terminal with an empty cgroup; for an unattached one that the launch is absent.\<close>

theorem release_needs_proof:
  assumes "broker_step b b'" and "bk_state b = Some st" and "lease_at st k = Some l"
    and "bk_state b' = Some st'" and "lease_at st' k = None"
  shows "\<not> has_active_children st k \<and>
    ((\<exists>rel started terminal cgroup_empty observed req att un s.
        reconcile_execution (ls_boot_id l) k (ls_reservation_id l) att un (ls_boot_id l) started terminal
          cgroup_empty observed rel req b = (Inr (Released s), b')
        \<and> ls_attempt_id l = Some att \<and> ls_unit l = Some un
        \<and> (started = Some False \<and> expired observed (ls_claim_expires l)
           \<or> terminal = Some True \<and> cgroup_empty = Some True))
     \<or> (\<exists>rel observed ttl req.
        reconcile_reservation (ls_boot_id l) k (ls_reservation_id l) (ls_boot_id l) (Some True) observed ttl req
          rel b = (Inr (Released rel), b') \<and> ls_state l = Reserved
        \<and> (req \<longrightarrow> \<not> float_less observed (float_plus (ls_reserved_monotonic l) ttl))))"
  using assms
proof (cases rule: broker_step_leases)
  case (execution rel boot started terminal cgroup_empty observed req att un s)
  then have "started = Some False \<and> expired observed (ls_claim_expires l)
      \<or> terminal = Some True \<and> cgroup_empty = Some True" by (auto simp: execution_proof_def)
  with execution show ?thesis by blast
next
  case (reservation rel boot observed ttl req)
  then show ?thesis by blast
qed

lemma step_keeps_request:
  assumes "broker_step b b'" and "bk_state b = Some st" and "map_of (bs_requests st) q = Some x"
  shows "\<exists>st'. bk_state b' = Some st' \<and> map_of (bs_requests st') q = Some x"
proof -
  have res: "\<exists>st'. bk_state c = Some st' \<and> map_of (bs_requests st') q = Some x"
    if "reserve boot hex now clock raw rq supplied b = (r, c)" for boot hex now clock raw rq supplied r c
    using that
  proof (cases rule: reserve_cases)
    case unchanged
    with assms show ?thesis by simp
  next
    case (recorded st0 sample st1 reserved candidate result st2)
    have "bs_requests st1 = bs_requests st"
      using recorded(1) assms(2) pressure_sample_frame [OF recorded(3)] by simp
    then have "bs_requests st2 = bs_requests st" using recorded(5) by (auto elim!: reserve_locked_cases)
    with recorded(1,2,7) assms(2,3) show ?thesis by (auto simp: map_of_write_key)
  qed
  from assms(1) show ?thesis
  proof cases
    case (step_initialize bud r)
    with assms show ?thesis by (auto simp: initialize_def)
  next
    case (step_reserve boot hex now clock raw rq supplied rr)
    then show ?thesis by (rule res)
  next
    case (step_ingest boot hex now clock raw inbox par rid supplied rr)
    then show ?thesis by (cases rule: ingest_cases) (use assms res in auto)
  next
    case (step_attach boot clock lid rs att un receipt ttl ru)
    then show ?thesis by (cases rule: attach_cases) (use assms in auto)
  next
    case (step_execution rel boot lid rs att un oboot started terminal cgroup_empty observed req rx)
    from step_execution(2) show ?thesis by (cases rule: reconcile_execution_cases) (use assms in auto)
  next
    case (step_reservation rel boot lid rs oboot absent observed ttl req rx)
    from step_reservation(2) show ?thesis by (cases rule: reconcile_reservation_cases) (use assms in auto)
  next
    case (step_receipt lid receipt ru)
    then show ?thesis using assms by (auto simp: record_execution_def split: if_splits)
  next
    case (step_canary lid receipt ru)
    then show ?thesis using assms by (auto simp: record_canary_def split: if_splits)
  qed
qed

lemma reserve_recorded:
  assumes "reserve boot hex now clock raw rq supplied b = (Inr x, b')"
  shows "\<exists>st. bk_state b' = Some st \<and> map_of (bs_requests st) (rq_request_id rq) = Some x
    \<and> result_parent x = rq_parent rq"
  using assms
proof (cases rule: reserve_cases)
  case unchanged
  then obtain st where st: "bk_state b = Some st" "map_of (bs_requests st) (rq_request_id rq) = Some x" by blast
  with assms unchanged(1) show ?thesis by (auto simp: reserve_def broker_run split: if_splits)
next
  case (recorded st sample st1 reserved candidate result st2)
  then have "result_parent result = rq_parent rq" by (auto elim!: reserve_locked_cases)
  with recorded(6,7) show ?thesis by (simp add: map_of_write_key)
qed

text \<open>A reservation is answered once: after any further calls, a request with the same identifier
  and parent gets the recorded answer back, granted or refused, and the broker is left as it was.\<close>

theorem reserve_replays:
  assumes "reserve boot hex now clock raw rq supplied b = (Inr x, b1)" and "broker_step\<^sup>*\<^sup>* b1 b2"
    and "rq_request_id rq' = rq_request_id rq" and "rq_parent rq' = rq_parent rq"
  shows "reserve boot' hex' now' clock' raw' rq' supplied' b2 = (Inr x, b2)"
proof -
  from assms(2) have "\<exists>st. bk_state b2 = Some st \<and> map_of (bs_requests st) (rq_request_id rq) = Some x"
    by (induction rule: rtranclp_induct) (use reserve_recorded [OF assms(1)] step_keeps_request in blast)+
  then obtain st where st: "bk_state b2 = Some st" "map_of (bs_requests st) (rq_request_id rq) = Some x" by blast
  moreover have "result_parent x = rq_parent rq" using reserve_recorded [OF assms(1)] by blast
  ultimately show ?thesis using assms(3,4) by (simp add: reserve_def broker_run)
qed

section \<open>Admission under pressure\<close>

text \<open>The memory reserved under the root, as \<open>_admission_memory\<close> adds it up.\<close>

lemma admission_reserved:
  assumes "admission_memory st rq = Inr (reserved, candidate)"
  shows "reserved = held memory_max_mib ''root'' st"
proof -
  have "sum_list (map (\<lambda>(k, l). memory_max_mib (ls_total l))
      (filter (\<lambda>(k, l). lease_active l \<and> ls_parent l = ''root'') ls))
    = sum_list (map (child_share memory_max_mib ''root'') ls)" for ls :: "(string \<times> lease) list"
    by (induction ls) (auto simp: child_share_def split: if_splits)
  with assms show ?thesis by (auto simp: admission_memory_def held_def Let_def bindE_eq_Inr split: if_splits)
qed

text \<open>A lease is newly granted only under a fresh, finite pressure sample that shows no swap
  activity, memory stall below 5 (below 2 for the heavier classes), and available memory that
  covers the safety reserve of 2048 MiB or a fifth of the host and everything held under the root
  by then, a new root lease included.\<close>

theorem grant_keeps_headroom:
  assumes "reserve boot hex now clock raw rq supplied b = (Inr (Reserved_result rid par lid res), b')"
    and "b' \<noteq> b" and "bk_state b = Some st"
  shows "\<exists>sample st1 st'. pressure_sample supplied raw st = (sample, st1) \<and> bk_state b' = Some st'
    \<and> max 2048 (pr_memory_total_mib sample div 5) + held memory_max_mib ''root'' st' \<le> pr_memory_available_mib sample
    \<and> (\<exists>psi. pr_memory_psi_avg10 sample = Finite psi \<and> 0 \<le> psi \<and> psi < 5
         \<and> (rq_worker_class rq \<noteq> ''light'' \<longrightarrow> psi < 2))
    \<and> observed_activity sample = Some 0
    \<and> (\<forall>s. pr_sampled_monotonic sample = Some s \<longrightarrow> \<not> float_less (Finite 5) (float_minus now s))"
  using assms(1)
proof (cases rule: reserve_cases)
  case unchanged
  with assms(2) show ?thesis by simp
next
  case (recorded st0 sample st1 reserved candidate result st2)
  have ref: "refusal sample (rq_worker_class rq) reserved candidate now = None"
    and locked: "reserve_locked boot hex clock rq st1 = Inr (result, st2)"
    using recorded(5,6) by auto
  from ref have mem: "max 2048 (pr_memory_total_mib sample div 5) + reserved + candidate \<le> pr_memory_available_mib sample"
    and act: "observed_activity sample = Some 0"
    and psi: "is_finite (pr_memory_psi_avg10 sample)" "\<not> float_less (pr_memory_psi_avg10 sample) (Finite 0)"
      "\<not> float_le (Finite 5) (pr_memory_psi_avg10 sample)"
      "rq_worker_class rq \<noteq> ''light'' \<Longrightarrow> \<not> float_le (Finite 2) (pr_memory_psi_avg10 sample)"
    and age: "\<forall>s. pr_sampled_monotonic sample = Some s \<longrightarrow> \<not> float_less (Finite 5) (float_minus now s)"
    by (auto simp: refusal_def PRESSURE_MAX_AGE_SECONDS_def split: if_splits option.splits)
  obtain v where v: "pr_memory_psi_avg10 sample = Finite v" using psi(1) by (cases "pr_memory_psi_avg10 sample") auto
  have psi': "\<exists>psi. pr_memory_psi_avg10 sample = Finite psi \<and> 0 \<le> psi \<and> psi < 5
      \<and> (rq_worker_class rq \<noteq> ''light'' \<longrightarrow> psi < 2)"
    using psi(2-4) by (auto simp: v float_le_def)
  have fld: "memory_max_mib \<in> set budget_fields" by (simp add: budget_fields_def)
  have "held memory_max_mib ''root'' st2 \<le> reserved + candidate"
    using locked
  proof (cases rule: reserve_locked_cases)
    case refused
    with recorded(6) show ?thesis by simp
  next
    case (granted l limit)
    have "held memory_max_mib ''root'' st2 = reserved + child_share memory_max_mib ''root'' (rq_worker rq, l)"
      using sum_write_new [OF granted(3)] admission_reserved [OF recorded(4)]
      by (simp add: granted(1) held_def put_lease_def)
    also have "\<dots> \<le> reserved + candidate"
      using recorded(4) granted(5,6,10-14)
      by (auto simp: child_share_def admission_memory_def Let_def bindE_eq_Inr mk_budget_Inr budget_add_Inr split: if_splits)
    finally show ?thesis .
  qed
  moreover have "held memory_max_mib ''root'' (st2\<lparr>bs_requests := rs\<rparr>) = held memory_max_mib ''root'' st2" for rs
    by (simp add: held_def)
  ultimately show ?thesis using mem act psi' age recorded(1,3,7) assms(3) by fastforce
qed

text \<open>C29. Attaching an attempt is not atomic when the lease already has a receipt file: the call raises,
  and yet the ledger records the lease as executing this attempt.\<close>

theorem attach_existing_receipt:
  assumes "bk_state b = Some st" and "lease_at st lid = Some l" and "ls_state l = Reserved"
    and "lid \<in> fst ` set (bk_receipts b)" and "id_fullmatch att" and "id_fullmatch un" and "id_fullmatch lid"
    and "is_finite ttl" and "\<not> float_le ttl (Finite 0)"
  shows "\<exists>b' st' l'. attach_execution boot clock lid (ls_reservation_id l) att un (JObj []) ttl b = (Inl OSError, b')
    \<and> bk_state b' = Some st' \<and> lease_at st' lid = Some l' \<and> ls_state l' = Execution_active \<and> ls_attempt_id l' = Some att"
proof -
  have "active_lease st lid = Inr l" using assms(2) by (simp add: active_lease_Inr)
  with assms show ?thesis
    by (simp add: attach_execution_def broker_run receipt_mismatch_def lease_at_put lease_active_def ACTIVE_def)
qed

section \<open>A concrete broker\<close>

definition demo_pressure :: pressure where
  "demo_pressure = \<lparr>pr_memory_total_mib = 32000, pr_memory_available_mib = 30000, pr_swap_total_mib = 0,
     pr_swap_used_mib = 0, pr_memory_psi_avg10 = Finite 0, pr_swap_activity_pages = None,
     pr_sampled_monotonic = None, pr_activity_window_seconds = None, pr_pswpin = None, pr_pswpout = None\<rparr>"

definition demo_request :: lease_request where
  "demo_request = \<lparr>rq_request_id = ''r1'', rq_parent = ''root'', rq_worker = ''w1'', rq_worker_class = ''light'',
     rq_children = ZERO\<rparr>"

definition demo_ledger :: broker_state where
  "demo_ledger = \<lparr>bs_root = budget_of 8000 16000 1000 800 1000 4 1, bs_leases = [], bs_requests = [],
     bs_pressure_sample = None\<rparr>"

definition demo_lease :: lease where
  "demo_lease = new_lease ''boot'' ''hex'' (Finite 10) demo_request (budget_of 700 1024 128 100 96 1 0) ZERO
     (budget_of 700 1024 128 100 96 1 0)"

definition demo_answer :: reserve_result where
  "demo_answer = Reserved_result ''r1'' ''root'' ''w1'' ''hex''"

definition demo_granted :: broker_state where
  "demo_granted = demo_ledger\<lparr>bs_leases := [(''w1'', demo_lease)], bs_requests := [(''r1'', demo_answer)]\<rparr>"

lemma demo_reserve:
  "reserve ''boot'' ''hex'' (Finite 9) (Finite 10) None demo_request (Some demo_pressure)
     (empty_broker\<lparr>bk_state := Some demo_ledger\<rparr>)
   = (Inr demo_answer, empty_broker\<lparr>bk_state := Some demo_granted\<rparr>)"
proof -
  have cls: "class_budget ''light'' = Inr (budget_of 700 1024 128 100 96 1 0)"
    by (simp add: class_budget_def CLASSES_def)
  have vals: "valid_budget (budget_of 700 1024 128 100 96 1 0)" "valid_budget ZERO" "valid_budget (bs_root demo_ledger)"
    "budget_sum (budget_of 700 1024 128 100 96 1 0) ZERO = budget_of 700 1024 128 100 96 1 0"
    "budget_sum ZERO (budget_of 700 1024 128 100 96 1 0) = budget_of 700 1024 128 100 96 1 0"
    "fits (budget_of 700 1024 128 100 96 1 0) (bs_root demo_ledger)"
    by (simp_all add: valid_budget_def budget_fields_def budget_of_def ZERO_def budget_sum_def fits_def demo_ledger_def)
  have mem: "admission_memory demo_ledger demo_request = Inr (0, 1024)"
    using vals by (simp add: admission_memory_def demo_request_def cls mk_budget_def budget_add_def demo_ledger_def)
      (simp add: budget_of_def)
  have ref: "refusal demo_pressure ''light'' 0 1024 (Finite 9) = None"
    by (simp add: refusal_def demo_pressure_def observed_activity_def float_le_def)
  have locked: "reserve_locked ''boot'' ''hex'' (Finite 10) demo_request demo_ledger
      = Inr (demo_answer, put_lease ''w1'' demo_lease demo_ledger)"
    using vals cls
    by (simp add: reserve_locked_def demo_request_def mk_budget_def budget_add_def parent_limit_def demo_answer_def)
      (simp add: demo_ledger_def demo_lease_def demo_request_def)
  have "map_of (bs_requests demo_ledger) (rq_request_id demo_request) = None" by (simp add: demo_ledger_def)
  moreover have "rq_worker_class demo_request = ''light''" "rq_request_id demo_request = ''r1''"
    by (simp_all add: demo_request_def)
  moreover have "(put_lease ''w1'' demo_lease demo_ledger)\<lparr>bs_requests := write_key ''r1'' demo_answer
      (bs_requests (put_lease ''w1'' demo_lease demo_ledger))\<rparr> = demo_granted"
    by (simp add: demo_granted_def put_lease_def write_key_def demo_ledger_def)
  ultimately show ?thesis
    by (simp add: reserve_def broker_run pressure_sample_def mem ref locked)
qed

lemma demo_steps:
  "broker_step\<^sup>*\<^sup>* empty_broker (empty_broker\<lparr>bk_state := Some demo_granted\<rparr>)"
proof -
  have "valid_budget (budget_of 8000 16000 1000 800 1000 4 1)"
    by (simp add: valid_budget_def budget_fields_def budget_of_def)
  moreover have "initialize (budget_of 8000 16000 1000 800 1000 4 1) empty_broker
      = (Inr (), empty_broker\<lparr>bk_state := Some demo_ledger\<rparr>)"
    by (simp add: initialize_def empty_broker_def demo_ledger_def)
  ultimately have "broker_step empty_broker (empty_broker\<lparr>bk_state := Some demo_ledger\<rparr>)"
    by (rule step_initialize)
  moreover from demo_reserve have "broker_step (empty_broker\<lparr>bk_state := Some demo_ledger\<rparr>)
      (empty_broker\<lparr>bk_state := Some demo_granted\<rparr>)" by (rule step_reserve)
  ultimately show ?thesis by (rule converse_rtranclp_into_rtranclp [OF _ r_into_rtranclp])
qed

theorem broker_within_budget_witness:
  "in_use memory_max_mib demo_granted \<le> 16000 \<and> in_use memory_max_mib demo_granted = 1024"
proof -
  have "in_use memory_max_mib demo_granted \<le> memory_max_mib (bs_root demo_granted)"
    using broker_within_budget [OF demo_steps, of demo_granted memory_max_mib] by (simp add: budget_fields_def)
  then show ?thesis
    by (simp add: in_use_def demo_granted_def demo_ledger_def demo_lease_def new_lease_def lease_active_def
        ACTIVE_def budget_of_def)
qed

theorem reserve_replays_witness:
  "reserve ''other'' ''hex2'' Nan Nan None demo_request None (empty_broker\<lparr>bk_state := Some demo_granted\<rparr>)
     = (Inr demo_answer, empty_broker\<lparr>bk_state := Some demo_granted\<rparr>)"
  by (rule reserve_replays [OF demo_reserve]) simp_all

theorem grant_keeps_headroom_witness:
  "\<exists>st'. bk_state (empty_broker\<lparr>bk_state := Some demo_granted\<rparr>) = Some st'
     \<and> 6400 + held memory_max_mib ''root'' st' \<le> 30000"
proof -
  have "empty_broker\<lparr>bk_state := Some demo_granted\<rparr> \<noteq> empty_broker\<lparr>bk_state := Some demo_ledger\<rparr>"
    by (simp add: empty_broker_def demo_granted_def demo_ledger_def)
  from grant_keeps_headroom [OF demo_reserve [unfolded demo_answer_def] this]
  show ?thesis by (auto simp: pressure_sample_def demo_pressure_def)
qed

theorem release_needs_proof_witness:
  "\<exists>b' st'. broker_step (empty_broker\<lparr>bk_state := Some demo_granted\<rparr>) b' \<and> bk_state b' = Some st'
     \<and> lease_at st' ''w1'' = None \<and> \<not> has_active_children demo_granted ''w1''"
proof -
  let ?b = "empty_broker\<lparr>bk_state := Some demo_granted\<rparr>"
  let ?st = "put_lease ''w1'' (demo_lease\<lparr>ls_state := Abandoned, ls_reconciled := Some (Finite 100)\<rparr>) demo_granted"
  have at: "lease_at demo_granted ''w1'' = Some demo_lease"
    by (simp add: lease_at_def demo_granted_def demo_lease_def new_lease_def lease_active_def ACTIVE_def)
  have "reconcile_reservation ''boot'' ''w1'' ''hex'' ''boot'' (Some True) (Finite 100) CLAIM_TTL_SECONDS True Abandoned ?b
      = (Inr (Released Abandoned), ?b\<lparr>bk_state := Some ?st\<rparr>)"
  proof -
    have "active_lease demo_granted ''w1'' = Inr demo_lease" using at by (simp add: active_lease_Inr)
    moreover have "\<not> has_active_children demo_granted ''w1''"
      by (simp add: has_active_children_def demo_granted_def demo_lease_def new_lease_def demo_request_def)
    ultimately show ?thesis
      by (simp add: reconcile_reservation_def broker_run)
        (simp add: demo_lease_def new_lease_def CLAIM_TTL_SECONDS_def float_plus_def)
  qed
  then have st: "broker_step ?b (?b\<lparr>bk_state := Some ?st\<rparr>)" by (rule step_reservation [rotated]) simp
  have gone: "lease_at ?st ''w1'' = None" using inactive_states by (simp add: lease_at_put)
  from release_needs_proof [OF st, of demo_granted "''w1''" demo_lease ?st] at gone
  have "\<not> has_active_children demo_granted ''w1''" by simp
  with st gone show ?thesis by (intro exI conjI) auto
qed

theorem attach_existing_receipt_witness:
  "\<exists>b' st' l'. attach_execution ''boot'' (Finite 11) ''w1'' ''hex'' ''a1'' ''u1'' (JObj []) CLAIM_TTL_SECONDS
      (empty_broker\<lparr>bk_state := Some demo_granted, bk_receipts := [(''w1'', JNull)]\<rparr>) = (Inl OSError, b')
    \<and> bk_state b' = Some st' \<and> lease_at st' ''w1'' = Some l' \<and> ls_state l' = Execution_active"
proof -
  have at: "lease_at demo_granted ''w1'' = Some demo_lease" "ls_state demo_lease = Reserved"
    "ls_reservation_id demo_lease = ''hex''"
    by (simp_all add: lease_at_def demo_granted_def demo_lease_def new_lease_def lease_active_def ACTIVE_def)
  have ids: "id_fullmatch ''a1''" "id_fullmatch ''u1''" "id_fullmatch ''w1''"
    by (simp_all add: id_start_def id_char_def)
  let ?b = "empty_broker\<lparr>bk_state := Some demo_granted, bk_receipts := [(''w1'', JNull)]\<rparr>"
  have b: "bk_state ?b = Some demo_granted" "''w1'' \<in> fst ` set (bk_receipts ?b)" by simp_all
  have ttl: "is_finite CLAIM_TTL_SECONDS" "\<not> float_le CLAIM_TTL_SECONDS (Finite 0)"
    by (simp_all add: CLAIM_TTL_SECONDS_def float_le_def)
  from attach_existing_receipt [OF b(1) at(1,2) b(2) ids ttl, of "''boot''" "Finite 11", unfolded at(3)]
  show ?thesis by blast
qed

end
