(* ===== verification/Revision_Chain.thy ===== *)
theory Revision_Chain
  imports Switch_Prelude
begin

text \<open>
  Append-only revision chains, the storage contract of the trajectory, outcome and activation
  stores: every revision carries its generation, a reference to its predecessor and a seal the
  reader checks again. The validation loop of the three \<open>_chain\<close> functions is the combinator
  \<open>linked\<close>; the locale has the test of one loop round as its parameter and proves what a
  validated chain looks like, that a constrained insert cannot fork it, and that its tip
  identifies all of it. Interpreted by \<open>Human_Trajectory\<close>, \<open>Outcome_State\<close> and
  \<open>Activation_Store\<close>.
\<close>

section \<open>The validation loop\<close>

text \<open>\<open>for generation, row in enumerate(rows, 1)\<close> with the running \<open>predecessor\<close>.\<close>

fun linked :: "(int \<Rightarrow> 'i option \<Rightarrow> 'r \<Rightarrow> bool) \<Rightarrow> ('r \<Rightarrow> 'i) \<Rightarrow> int \<Rightarrow> 'i option \<Rightarrow> 'r list \<Rightarrow> bool" where
  "linked accept ident generation predecessor [] = True"
| "linked accept ident generation predecessor (row # rows) =
     (accept generation predecessor row
      \<and> linked accept ident (generation + 1) (Some (ident row)) rows)"

text \<open>The identity of the newest revision.\<close>

definition tip :: "('r \<Rightarrow> 'i) \<Rightarrow> 'r list \<Rightarrow> 'i option" where
  "tip ident rs = (if rs = [] then None else Some (ident (last rs)))"

text \<open>\<open>WHERE key = k ORDER BY generation\<close>.\<close>

definition chain_rows :: "('r \<Rightarrow> 'k) \<Rightarrow> ('r \<Rightarrow> int) \<Rightarrow> 'k \<Rightarrow> 'r list \<Rightarrow> 'r list" where
  "chain_rows key gen k rows = sort_key gen (filter (\<lambda>r. key r = k) rows)"

definition chained_table ::
  "(int \<Rightarrow> 'i option \<Rightarrow> 'r \<Rightarrow> bool) \<Rightarrow> ('r \<Rightarrow> 'i) \<Rightarrow> ('r \<Rightarrow> 'k) \<Rightarrow> 'r list \<Rightarrow> bool" where
  "chained_table accept ident key rows =
     (\<forall>k. linked accept ident 1 None (filter (\<lambda>r. key r = k) rows))"

text \<open>
  A comprehension of decoded rows, which stops at the first exception, and the body of the
  \<open>_chain\<close> functions: an exception while decoding or checking and a failed check both give
  \<open>None\<close>.
\<close>

fun mapE :: "('v \<Rightarrow> 'r py_result) \<Rightarrow> 'v list \<Rightarrow> 'r list py_result" where
  "mapE decode [] = Inr []"
| "mapE decode (v # vs) = bindE (decode v) (\<lambda>r. bindE (mapE decode vs) (\<lambda>rs. Inr (r # rs)))"

definition validated_chain ::
  "('v \<Rightarrow> 'r py_result) \<Rightarrow> (int \<Rightarrow> 'i option \<Rightarrow> 'r \<Rightarrow> bool) \<Rightarrow> ('r \<Rightarrow> 'i) \<Rightarrow> 'v list \<Rightarrow> 'r list option" where
  "validated_chain decode accept ident values =
     (case mapE decode values of
        Inl _ \<Rightarrow> None
      | Inr rows \<Rightarrow> if linked accept ident 1 None rows then Some rows else None)"

text \<open>The same test on stored rows.\<close>

definition accepted :: "('v \<Rightarrow> 'r py_result) \<Rightarrow> (int \<Rightarrow> 'i option \<Rightarrow> 'r \<Rightarrow> bool) \<Rightarrow> int \<Rightarrow> 'i option \<Rightarrow> 'v \<Rightarrow> bool" where
  "accepted decode accept g p v = (case decode v of Inl _ \<Rightarrow> False | Inr r \<Rightarrow> accept g p r)"

lemma accepted_decode:
  assumes "\<And>v r. decode v = Inr r \<Longrightarrow> ident r = ident' v"
  shows "linked (accepted decode accept) ident' g p vs
     \<longleftrightarrow> (\<exists>rs. mapE decode vs = Inr rs \<and> linked accept ident g p rs)"
proof (induction vs arbitrary: g p)
  case Nil
  then show ?case by simp
next
  case (Cons v vs)
  show ?case
  proof (cases "decode v")
    case (Inl e)
    then show ?thesis by (simp add: accepted_def)
  next
    case (Inr r)
    with assms have "ident r = ident' v" by blast
    with Inr Cons.IH show ?thesis by (auto simp: accepted_def bindE_eq_Inr)
  qed
qed

lemma validated_chain_Some:
  assumes "\<And>v r. decode v = Inr r \<Longrightarrow> ident r = ident' v"
  shows "validated_chain decode accept ident vs = Some rs
     \<longleftrightarrow> mapE decode vs = Inr rs \<and> linked (accepted decode accept) ident' 1 None vs"
  using accepted_decode [where decode = decode and ident = ident and ident' = ident', OF assms]
  by (auto simp: validated_chain_def split: sum.splits)

lemma mapE_list: "mapE decode vs = Inr rs \<longleftrightarrow> list_all2 (\<lambda>v r. decode v = Inr r) vs rs"
  by (induction vs arbitrary: rs) (auto simp: bindE_eq_Inr list_all2_Cons1)

lemma mapE_snoc: "mapE decode (vs @ [v]) = bindE (mapE decode vs) (\<lambda>rs. bindE (decode v) (\<lambda>r. Inr (rs @ [r])))"
proof (induction vs)
  case Nil
  then show ?case by simp
next
  case (Cons u vs)
  then show ?case by (cases "decode u"; cases "mapE decode vs"; cases "decode v") simp_all
qed

lemma tip_simps [simp]: "tip ident [] = None" "tip ident (rs @ [r]) = Some (ident r)"
  by (simp_all add: tip_def)

lemma tip_None [simp]: "tip ident rs = None \<longleftrightarrow> rs = []"
  by (simp add: tip_def)

lemma linked_append:
  "linked accept ident g p (rs @ ss) \<longleftrightarrow>
     linked accept ident g p rs
     \<and> linked accept ident (g + int (length rs)) (if rs = [] then p else tip ident rs) ss"
  by (induction rs arbitrary: g p) (auto simp: tip_def algebra_simps)

lemma linked_snoc:
  "linked accept ident 1 None (rs @ [r]) \<longleftrightarrow>
     linked accept ident 1 None rs \<and> accept (int (length rs) + 1) (tip ident rs) r"
  by (auto simp: linked_append add.commute)

section \<open>Validated chains\<close>

locale revision_chain =
  fixes accept :: "int \<Rightarrow> 'i option \<Rightarrow> 'r \<Rightarrow> bool"
    and ident :: "'r \<Rightarrow> 'i"
    and gen :: "'r \<Rightarrow> int"
    and prev :: "'r \<Rightarrow> 'i option"
    and key :: "'r \<Rightarrow> 'k"
  assumes accept_gen: "accept g p r \<Longrightarrow> gen r = g"
    and accept_prev: "accept g p r \<Longrightarrow> prev r = p"
begin

lemma linked_gens:
  "linked accept ident g p rs \<Longrightarrow> map gen rs = map (\<lambda>i. g + int i) [0..<length rs]"
proof (induction rs rule: rev_induct)
  case Nil
  then show ?case by simp
next
  case (snoc r rs)
  then have "linked accept ident g p rs"
    and "accept (g + int (length rs)) (if rs = [] then p else tip ident rs) r"
    by (simp_all add: linked_append)
  with snoc.IH accept_gen show ?case by fastforce
qed

lemma chain_gens: "linked accept ident 1 None rs \<Longrightarrow> i < length rs \<Longrightarrow> gen (rs ! i) = int i + 1"
  using linked_gens [of 1 None rs] by (metis (no_types, lifting) add.commute add.left_neutral
      diff_zero length_upt nth_map nth_upt)

lemma chain_prev:
  assumes "linked accept ident 1 None rs" and "i < length rs"
  shows "prev (rs ! i) = tip ident (take i rs)"
proof -
  have "rs = take i rs @ rs ! i # drop (Suc i) rs"
    by (rule id_take_nth_drop [OF assms(2)])
  with assms(1) have "linked accept ident 1 None (take i rs @ rs ! i # drop (Suc i) rs)" by simp
  then have "accept (1 + int (length (take i rs))) (tip ident (take i rs)) (rs ! i)"
    by (auto simp: linked_append split: if_splits)
  then show ?thesis by (rule accept_prev)
qed

lemma sorted_chain:
  assumes "linked accept ident 1 None rs"
  shows "sorted (map gen rs)"
proof -
  have "map gen rs = map (\<lambda>i. 1 + int i) [0..<length rs]" by (rule linked_gens [OF assms])
  then show ?thesis by (simp add: sorted_iff_nth_mono)
qed

lemma distinct_chain:
  assumes "linked accept ident 1 None rs"
  shows "distinct (map gen rs)"
proof -
  have "map gen rs = map (\<lambda>i. 1 + int i) [0..<length rs]" by (rule linked_gens [OF assms])
  then show ?thesis by (simp add: distinct_map inj_on_def)
qed

text \<open>Reading a chain back from the table gives the rows in the order they were inserted.\<close>

lemma chain_rows_filter:
  assumes "chained_table accept ident key rows"
  shows "chain_rows key gen k rows = filter (\<lambda>r. key r = k) rows"
proof -
  from assms have "sorted (map gen (filter (\<lambda>r. key r = k) rows))"
    by (simp add: chained_table_def sorted_chain)
  then show ?thesis unfolding chain_rows_def by (rule sort_key_id_if_sorted)
qed

lemma chained_table_linked:
  "chained_table accept ident key rows \<Longrightarrow> linked accept ident 1 None (chain_rows key gen k rows)"
  by (simp add: chain_rows_filter chained_table_def)

lemma chained_table_insert:
  assumes "chained_table accept ident key rows"
    and "accept (int (length (chain_rows key gen (key r) rows)) + 1)
           (tip ident (chain_rows key gen (key r) rows)) r"
  shows "chained_table accept ident key (rows @ [r])"
    and "chain_rows key gen k (rows @ [r])
       = chain_rows key gen k rows @ (if key r = k then [r] else [])"
proof -
  show ok: "chained_table accept ident key (rows @ [r])"
    using assms by (auto simp: chained_table_def chain_rows_filter [OF assms(1)] linked_snoc)
  show "chain_rows key gen k (rows @ [r]) = chain_rows key gen k rows @ (if key r = k then [r] else [])"
    unfolding chain_rows_filter [OF ok] chain_rows_filter [OF assms(1)] by simp
qed

text \<open>
  No fork: a revision computed from an earlier reading of the chain can be inserted later only
  while its generation is still free, and then the chain has not grown since.
\<close>

lemma insert_not_stale:
  assumes "chained_table accept ident key rows"
    and grown: "chain_rows key gen k rows = seen @ more"
    and "accept (int (length seen) + 1) p r"
    and free: "\<forall>s \<in> set rows. \<not> (key s = k \<and> gen s = gen r)"
  shows "chain_rows key gen k rows = seen"
proof (cases more)
  case Nil
  with grown show ?thesis by simp
next
  case (Cons s ss)
  have "gen (chain_rows key gen k rows ! length seen) = int (length seen) + 1"
    using chain_gens [OF chained_table_linked [OF assms(1), of k], of "length seen"] grown Cons by simp
  with grown Cons have "gen s = gen r"
    using accept_gen [OF assms(3)] by simp
  moreover have "s \<in> set (chain_rows key gen k rows)"
    using grown Cons by simp
  then have "s \<in> set rows \<and> key s = k"
    by (simp add: chain_rows_def)
  ultimately show ?thesis using free by blast
qed

text \<open>The tip identifies the whole history, as far as identities do not collide.\<close>

lemma tip_determines_chain:
  assumes "linked accept ident 1 None rs" and "linked accept ident 1 None ss"
    and "inj_on ident (set rs \<union> set ss)" and "tip ident rs = tip ident ss"
  shows "rs = ss"
  using assms
proof (induction rs arbitrary: ss rule: rev_induct)
  case Nil
  from Nil.prems(4) [symmetric] show ?case by simp
next
  case (snoc r rs)
  from snoc.prems(4) have "tip ident ss = Some (ident r)" by (simp only: tip_simps)
  then have "ss \<noteq> []" by auto
  then obtain s ts where ss: "ss = ts @ [s]" by (metis rev_exhaust)
  with snoc.prems(4) have "ident r = ident s" by (simp only: tip_simps option.inject)
  then have rs: "r = s" by (rule inj_onD [OF snoc.prems(3)]) (simp_all add: ss)
  from snoc.prems(1,2) ss have ok: "linked accept ident 1 None rs" "linked accept ident 1 None ts"
    and acc: "accept (int (length rs) + 1) (tip ident rs) r" "accept (int (length ts) + 1) (tip ident ts) s"
    by (simp_all add: linked_snoc)
  from accept_prev [OF acc(1)] accept_prev [OF acc(2)] rs
  have "tip ident rs = tip ident ts" by (simp only: )
  moreover have "inj_on ident (set rs \<union> set ts)"
    by (rule inj_on_subset [OF snoc.prems(3)]) (auto simp: ss)
  ultimately have "rs = ts" using snoc.IH [OF ok(1,2)] by blast
  with rs ss show ?case by simp
qed

end

section \<open>Stored rows and decoded revisions\<close>

text \<open>
  A store reads rows, decodes each into a revision and validates the decoded list. Decoding
  keeps the identity and generation columns; the laws carry the chain lemmas over to the
  stored rows.
\<close>

locale decoded_chain =
  fixes decode :: "'v \<Rightarrow> 'r py_result"
    and accept :: "int \<Rightarrow> 'i option \<Rightarrow> 'r \<Rightarrow> bool"
    and ident :: "'r \<Rightarrow> 'i" and gen :: "'r \<Rightarrow> int" and prev :: "'r \<Rightarrow> 'i option"
    and row_ident :: "'v \<Rightarrow> 'i" and row_gen :: "'v \<Rightarrow> int" and row_prev :: "'v \<Rightarrow> 'i option"
    and key :: "'v \<Rightarrow> 'k"
  assumes decode_ident: "decode v = Inr r \<Longrightarrow> ident r = row_ident v"
    and decode_gen: "decode v = Inr r \<Longrightarrow> gen r = row_gen v"
    and decode_prev: "decode v = Inr r \<Longrightarrow> prev r = row_prev v"
    and decoded_gen: "accept g p r \<Longrightarrow> gen r = g"
    and decoded_prev: "accept g p r \<Longrightarrow> prev r = p"
begin

sublocale rows: revision_chain "accepted decode accept" row_ident row_gen row_prev key
proof unfold_locales
  fix g p v
  assume "accepted decode accept g p v"
  then obtain r where r: "decode v = Inr r" "accept g p r"
    by (auto simp: accepted_def split: sum.splits)
  show "row_gen v = g" using decode_gen [OF r(1)] decoded_gen [OF r(2)] by simp
  show "row_prev v = p" using decode_prev [OF r(1)] decoded_prev [OF r(2)] by simp
qed

sublocale revisions: revision_chain accept ident gen prev "\<lambda>_. ()"
  by unfold_locales (auto dest: decoded_gen decoded_prev)

abbreviation load :: "'k \<Rightarrow> 'v list \<Rightarrow> 'r list option" where
  "load k rows \<equiv> validated_chain decode accept ident (chain_rows key row_gen k rows)"

abbreviation table_ok :: "'v list \<Rightarrow> bool" where
  "table_ok \<equiv> chained_table (accepted decode accept) row_ident key"

lemma load_Some:
  "load k rows = Some rs \<longleftrightarrow>
     mapE decode (chain_rows key row_gen k rows) = Inr rs
     \<and> linked (accepted decode accept) row_ident 1 None (chain_rows key row_gen k rows)"
  by (rule validated_chain_Some) (rule decode_ident)

lemma load_linked: "load k rows = Some rs \<Longrightarrow> linked accept ident 1 None rs"
  by (auto simp: validated_chain_def split: sum.splits if_splits)

lemma table_loads:
  assumes "table_ok rows"
  shows "\<exists>rs. load k rows = Some rs"
proof -
  have l: "linked (accepted decode accept) row_ident 1 None (chain_rows key row_gen k rows)"
    by (rule rows.chained_table_linked [OF assms])
  then have "\<exists>rs. mapE decode (chain_rows key row_gen k rows) = Inr rs"
    using accepted_decode [where decode = decode and ident = ident and ident' = row_ident, OF decode_ident]
    by blast
  with l show ?thesis unfolding load_Some by blast
qed

lemma decoded_tip:
  assumes "mapE decode vs = Inr rs"
  shows "tip ident rs = tip row_ident vs"
proof (cases vs rule: rev_cases)
  case Nil
  with assms show ?thesis by (simp add: mapE_list)
next
  case (snoc us u)
  with assms show ?thesis by (auto simp: mapE_snoc bindE_eq_Inr dest: decode_ident)
qed

lemma decoded_length: "mapE decode vs = Inr rs \<Longrightarrow> length rs = length vs"
  unfolding mapE_list by (simp add: list_all2_lengthD)

lemma last_generation:
  assumes "load k rows = Some rs"
  shows "(if rs = [] then 0 else gen (last rs)) = int (length rs)"
proof (cases rs rule: rev_cases)
  case Nil
  then show ?thesis by simp
next
  case (snoc ts r)
  from revisions.chain_gens [OF load_linked [OF assms], of "length ts"] snoc show ?thesis by simp
qed

lemma rows_later:
  assumes "table_ok rows" and "table_ok (rows @ more)"
  shows "\<exists>ms. chain_rows key row_gen k (rows @ more) = chain_rows key row_gen k rows @ ms"
  by (simp add: rows.chain_rows_filter [OF assms(1)] rows.chain_rows_filter [OF assms(2)])

lemma load_later:
  assumes "table_ok rows" and "table_ok (rows @ more)" and "load k rows = Some rs"
  shows "\<exists>ms. load k (rows @ more) = Some (rs @ ms)"
proof -
  from table_loads [OF assms(2)] obtain ts where ts: "load k (rows @ more) = Some ts" by blast
  from rows_later [OF assms(1,2)] obtain ms
    where "chain_rows key row_gen k (rows @ more) = chain_rows key row_gen k rows @ ms" by blast
  with ts [unfolded load_Some] have "list_all2 (\<lambda>v r. decode v = Inr r) (chain_rows key row_gen k rows @ ms) ts"
    by (simp add: mapE_list)
  then obtain a b where ab: "ts = a @ b" "list_all2 (\<lambda>v r. decode v = Inr r) (chain_rows key row_gen k rows) a"
    by (auto simp: list_all2_append1)
  from ab(2) assms(3) have "a = rs" by (simp add: load_Some flip: mapE_list)
  with ab(1) ts show ?thesis by blast
qed

text \<open>
  A revision accepted on top of an earlier reading and inserted under the uniqueness constraint:
  the chain it extends is the present one, and the table stays valid.
\<close>

lemma insert_applied:
  assumes "table_ok seen" and "table_ok rows" and rows: "rows = seen @ more" and "load (key v) seen = Some rs"
    and "decode v = Inr r" and "accept (int (length rs) + 1) (tip ident rs) r"
    and "\<forall>s \<in> set rows. \<not> (key s = key v \<and> row_gen s = row_gen v)"
  shows "load (key v) rows = Some rs"
    and "table_ok (rows @ [v])"
    and "load (key v) (rows @ [v]) = Some (rs @ [r])"
    and "k \<noteq> key v \<Longrightarrow> load k (rows @ [v]) = load k rows"
proof -
  have m: "mapE decode (chain_rows key row_gen (key v) seen) = Inr rs"
    using assms(4) by (simp add: load_Some)
  have acc: "accepted decode accept (int (length (chain_rows key row_gen (key v) seen)) + 1)
      (tip row_ident (chain_rows key row_gen (key v) seen)) v"
    using assms(5,6) decoded_tip [OF m] decoded_length [OF m] by (simp add: accepted_def)
  from rows_later [OF assms(1) assms(2) [unfolded rows], folded rows] obtain ms
    where "chain_rows key row_gen (key v) rows = chain_rows key row_gen (key v) seen @ ms" by blast
  from rows.insert_not_stale [OF assms(2) this acc assms(7)]
  have same: "chain_rows key row_gen (key v) rows = chain_rows key row_gen (key v) seen" .
  from rows.chained_table_insert [OF assms(2), of v] acc same
  show ok: "table_ok (rows @ [v])" by simp
  have ext: "chain_rows key row_gen k (rows @ [v])
      = chain_rows key row_gen k rows @ (if key v = k then [v] else [])" for k
    using rows.chained_table_insert(2) [OF assms(2), of v k] acc same by simp
  show "load (key v) rows = Some rs" using assms(4) same by simp
  have "mapE decode (chain_rows key row_gen (key v) (rows @ [v])) = Inr (rs @ [r])"
    unfolding ext using m same assms(5) by (simp add: mapE_snoc)
  then show "load (key v) (rows @ [v]) = Some (rs @ [r])"
    using rows.chained_table_linked [OF ok] by (simp only: load_Some simp_thms)
  show "load k (rows @ [v]) = load k rows" if "k \<noteq> key v"
    unfolding ext using that by simp
qed

end

end
