(* ===== verification/Human_Trajectory.thy ===== *)
theory Human_Trajectory
  imports Py_Ident Revision_Chain
begin

text \<open>
  Durable human direction (\<open>src/switchstand/human_trajectory.py\<close>): the append-only trajectory
  table of \<open>state.py\<close>, the validated chain of one work, and the store's reads, currentness check
  and append. The SHA-256 digest of canonical JSON is the parameter \<open>H\<close>; \<open>uuid4()\<close> and the
  server clock are arguments. An append reads the table in one state and inserts in a later one,
  so transactions of other calls may come in between.
\<close>

section \<open>Data and rows\<close>

datatype source_kind = HUMAN_INPUT | HUMAN_REVIEW | HUMAN_STEERING

fun source_kind_value :: "source_kind \<Rightarrow> string" where
  "source_kind_value HUMAN_INPUT = ''HUMAN_INPUT''"
| "source_kind_value HUMAN_REVIEW = ''HUMAN_REVIEW''"
| "source_kind_value HUMAN_STEERING = ''HUMAN_STEERING''"

definition source_kind_of :: "string \<Rightarrow> source_kind py_result" where
  "source_kind_of s =
     (if s = ''HUMAN_INPUT'' then Inr HUMAN_INPUT
      else if s = ''HUMAN_REVIEW'' then Inr HUMAN_REVIEW
      else if s = ''HUMAN_STEERING'' then Inr HUMAN_STEERING
      else Inl ValueError)"

record trajectory_data =
  htd_outcome :: string
  htd_settled_decisions :: "string list"
  htd_accepted_cuts_or_deferrals :: "string list"
  htd_unresolved_human_questions :: "string list"
  htd_current_slice :: string
  htd_remaining_outcome :: string
  htd_authority_effect_refs :: "string list"

definition valid_trajectory_data :: "trajectory_data \<Rightarrow> bool" where
  "valid_trajectory_data d =
     (1 \<le> length (htd_outcome d) \<and> length (htd_outcome d) \<le> 2000
      \<and> length (htd_settled_decisions d) \<le> 32
      \<and> length (htd_accepted_cuts_or_deferrals d) \<le> 32
      \<and> length (htd_unresolved_human_questions d) \<le> 32
      \<and> 1 \<le> length (htd_current_slice d) \<and> length (htd_current_slice d) \<le> 2000
      \<and> length (htd_remaining_outcome d) \<le> 2000
      \<and> length (htd_authority_effect_refs d) \<le> 32)"

definition bounded_items :: "string list \<Rightarrow> string list py_result" where
  "bounded_items values =
     (if \<exists>v \<in> set values. v = [] \<or> 512 < length v then Inl ValueError else Inr values)"

definition trajectory_canonical :: "trajectory_data \<Rightarrow> json py_result" where
  "trajectory_canonical d =
     bindE (bounded_items (htd_settled_decisions d)) (\<lambda>_.
     bindE (bounded_items (htd_accepted_cuts_or_deferrals d)) (\<lambda>_.
     bindE (bounded_items (htd_unresolved_human_questions d)) (\<lambda>_.
     bindE (bounded_items (htd_authority_effect_refs d)) (\<lambda>_.
       Inr (JObj [(''version'', JInt 1),
         (''outcome'', JStr (htd_outcome d)),
         (''settled_decisions'', JList (map JStr (htd_settled_decisions d))),
         (''accepted_cuts_or_deferrals'', JList (map JStr (htd_accepted_cuts_or_deferrals d))),
         (''unresolved_human_questions'', JList (map JStr (htd_unresolved_human_questions d))),
         (''current_slice'', JStr (htd_current_slice d)),
         (''remaining_outcome'', JStr (htd_remaining_outcome d)),
         (''authority_effect_refs'', JList (map JStr (htd_authority_effect_refs d))),
         (''provenance'', JStr ''RECORDED_HUMAN_DIRECTION'')])))))"

text \<open>A table row, with the JSONB column as the data it encodes, and the decoded revision.\<close>

record trajectory_row =
  trw_trajectory_id :: uuid
  trw_append_request_id :: uuid
  trw_work_id_ref :: uuid
  trw_generation :: int
  trw_predecessor_id :: "uuid option"
  trw_source_kind :: string
  trw_source_ref :: string
  trw_source_revision :: "string option"
  trw_content_digest :: string
  trw_trajectory_data :: trajectory_data
  trw_created_at :: py_datetime

record trajectory_revision =
  htr_trajectory_id :: uuid
  htr_append_request_id :: uuid
  htr_work_id :: uuid
  htr_generation :: int
  htr_predecessor_id :: "uuid option"
  htr_source_kind :: source_kind
  htr_source_ref :: string
  htr_source_revision :: "string option"
  htr_content_digest :: string
  htr_data :: trajectory_data
  htr_created_at :: py_datetime

record trajectory_db =
  tdb_rows :: "trajectory_row list"
  tdb_handles :: "uuid list"

definition trajectory_row_of :: "trajectory_row \<Rightarrow> trajectory_revision py_result" where
  "trajectory_row_of v =
     bindE (source_kind_of (trw_source_kind v)) (\<lambda>kind.
       if \<not> valid_trajectory_data (trw_trajectory_data v) then Inl ValidationError
       else Inr \<lparr>htr_trajectory_id = trw_trajectory_id v,
         htr_append_request_id = trw_append_request_id v, htr_work_id = trw_work_id_ref v,
         htr_generation = trw_generation v, htr_predecessor_id = trw_predecessor_id v,
         htr_source_kind = kind, htr_source_ref = trw_source_ref v,
         htr_source_revision = trw_source_revision v, htr_content_digest = trw_content_digest v,
         htr_data = trw_trajectory_data v, htr_created_at = trw_created_at v\<rparr>)"

definition trajectory_digest ::
  "(json \<Rightarrow> string) \<Rightarrow> trajectory_data \<Rightarrow> source_kind \<Rightarrow> string \<Rightarrow> string option \<Rightarrow> string py_result" where
  "trajectory_digest H d kind ref revision =
     bindE (trajectory_canonical d) (\<lambda>c. Inr (H (JObj [(''data'', c),
       (''source_kind'', JStr (source_kind_value kind)), (''source_ref'', JStr ref),
       (''source_revision'', json_opt JStr revision)])))"

definition trajectory_accept ::
  "(json \<Rightarrow> string) \<Rightarrow> int \<Rightarrow> uuid option \<Rightarrow> trajectory_revision \<Rightarrow> bool" where
  "trajectory_accept H generation predecessor row =
     (htr_generation row = generation \<and> htr_predecessor_id row = predecessor
      \<and> trajectory_digest H (htr_data row) (htr_source_kind row) (htr_source_ref row)
          (htr_source_revision row) = Inr (htr_content_digest row))"

definition trajectory_chain :: "(json \<Rightarrow> string) \<Rightarrow> trajectory_row list \<Rightarrow> trajectory_revision list option" where
  "trajectory_chain H values = validated_chain trajectory_row_of (trajectory_accept H) htr_trajectory_id values"

record trajectory_header =
  hth_trajectory_id :: uuid
  hth_work_id :: uuid
  hth_generation :: int
  hth_source_kind :: source_kind
  hth_created_at :: py_datetime

definition validated_trajectory_headers ::
  "(json \<Rightarrow> string) \<Rightarrow> trajectory_row list \<Rightarrow> trajectory_header list option" where
  "validated_trajectory_headers H values =
     map_option (map (\<lambda>row. \<lparr>hth_trajectory_id = htr_trajectory_id row, hth_work_id = htr_work_id row,
       hth_generation = htr_generation row, hth_source_kind = htr_source_kind row,
       hth_created_at = htr_created_at row\<rparr>)) (trajectory_chain H values)"

section \<open>Reads\<close>

datatype trajectory_status = T_applied | T_replayed | T_current | T_missing | T_stale | T_conflict | T_unknown

definition trajectory_load ::
  "(json \<Rightarrow> string) \<Rightarrow> uuid \<Rightarrow> trajectory_db \<Rightarrow> trajectory_revision list option" where
  "trajectory_load H work db =
     trajectory_chain H (chain_rows trw_work_id_ref trw_generation work (tdb_rows db))"

definition trajectory_get ::
  "(json \<Rightarrow> string) \<Rightarrow> uuid \<Rightarrow> trajectory_db \<Rightarrow> trajectory_status \<times> trajectory_revision option" where
  "trajectory_get H work db =
     (case trajectory_load H work db of
        Some [] \<Rightarrow> (T_missing, None)
      | None \<Rightarrow> (T_unknown, None)
      | Some (r # rs) \<Rightarrow> (T_current, Some (last (r # rs))))"

text \<open>The comparison both currentness checks share.\<close>

definition trajectory_compare ::
  "trajectory_revision list option \<Rightarrow> uuid \<Rightarrow> trajectory_status \<times> uuid option" where
  "trajectory_compare loaded expected =
     (case loaded of
        None \<Rightarrow> (T_unknown, None)
      | Some rows \<Rightarrow>
          if rows = [] then (T_unknown, None)
          else if htr_trajectory_id (last rows) = expected then (T_current, Some (htr_trajectory_id (last rows)))
          else if \<exists>row \<in> set (butlast rows). htr_trajectory_id row = expected
            then (T_stale, Some (htr_trajectory_id (last rows)))
          else (T_unknown, Some (htr_trajectory_id (last rows))))"

definition trajectory_check ::
  "(json \<Rightarrow> string) \<Rightarrow> uuid \<Rightarrow> uuid \<Rightarrow> trajectory_db \<Rightarrow> trajectory_status \<times> uuid option" where
  "trajectory_check H work expected db = trajectory_compare (trajectory_load H work db) expected"

definition trajectory_check_in_transaction ::
  "(json \<Rightarrow> string) \<Rightarrow> uuid \<Rightarrow> uuid \<Rightarrow> trajectory_db \<Rightarrow> trajectory_status \<times> uuid option" where
  "trajectory_check_in_transaction H work expected db =
     (if work \<notin> set (tdb_handles db) then (T_unknown, None)
      else trajectory_compare (trajectory_load H work db) expected)"

section \<open>Recording\<close>

record trajectory_call =
  tc_work_id :: uuid
  tc_append_request_id :: uuid
  tc_expected_generation :: int
  tc_expected_predecessor_id :: "uuid option"
  tc_source_kind :: source_kind
  tc_source_ref :: string
  tc_source_revision :: "string option"
  tc_data :: trajectory_data

record trajectory_outcome =
  to_status :: trajectory_status
  to_revision :: "trajectory_revision option"
  to_current_id :: "uuid option"

text \<open>The constraints of the table.\<close>

definition trajectory_checks :: "trajectory_row \<Rightarrow> bool" where
  "trajectory_checks r =
     (1 \<le> trw_generation r
      \<and> trw_source_kind r \<in> {''HUMAN_INPUT'', ''HUMAN_REVIEW'', ''HUMAN_STEERING''}
      \<and> 1 \<le> length (trw_source_ref r) \<and> length (trw_source_ref r) \<le> 512
      \<and> (case trw_source_revision r of None \<Rightarrow> True | Some s \<Rightarrow> 1 \<le> length s \<and> length s \<le> 512)
      \<and> length (trw_content_digest r) = 64)"

definition insert_trajectory :: "trajectory_row \<Rightarrow> trajectory_db \<Rightarrow> trajectory_db py_result" where
  "insert_trajectory r db =
     (if trw_trajectory_id r \<in> set (map trw_trajectory_id (tdb_rows db))
         \<or> trw_append_request_id r \<in> set (map trw_append_request_id (tdb_rows db))
         \<or> (\<exists>s \<in> set (tdb_rows db). trw_work_id_ref s = trw_work_id_ref r \<and> trw_generation s = trw_generation r)
         \<or> trw_work_id_ref r \<notin> set (tdb_handles db)
         \<or> (case trw_predecessor_id r of None \<Rightarrow> False
            | Some p \<Rightarrow> p \<notin> set (map trw_trajectory_id (tdb_rows db)))
         \<or> \<not> trajectory_checks r
      then Inl IntegrityError
      else Inr (db\<lparr>tdb_rows := tdb_rows db @ [r]\<rparr>))"

definition trajectory_call_ok :: "trajectory_call \<Rightarrow> bool" where
  "trajectory_call_ok c =
     (1 \<le> tc_expected_generation c
      \<and> tc_source_ref c \<noteq> [] \<and> length (tc_source_ref c) \<le> 512
      \<and> (case tc_source_revision c of None \<Rightarrow> True | Some s \<Rightarrow> s \<noteq> [] \<and> length s \<le> 512))"

definition trajectory_new_row :: "uuid \<Rightarrow> py_datetime \<Rightarrow> string \<Rightarrow> trajectory_call \<Rightarrow> trajectory_row" where
  "trajectory_new_row fresh now digest c =
     \<lparr>trw_trajectory_id = fresh, trw_append_request_id = tc_append_request_id c,
      trw_work_id_ref = tc_work_id c, trw_generation = tc_expected_generation c,
      trw_predecessor_id = tc_expected_predecessor_id c,
      trw_source_kind = source_kind_value (tc_source_kind c), trw_source_ref = tc_source_ref c,
      trw_source_revision = tc_source_revision c, trw_content_digest = digest,
      trw_trajectory_data = tc_data c, trw_created_at = now\<rparr>"

text \<open>What a call answers before it would insert; \<open>None\<close> when it goes on to insert.\<close>

definition trajectory_settled ::
  "(json \<Rightarrow> string) \<Rightarrow> string \<Rightarrow> trajectory_call \<Rightarrow> trajectory_db \<Rightarrow> trajectory_outcome option py_result" where
  "trajectory_settled H digest c db =
     (if tc_work_id c \<notin> set (tdb_handles db)
      then Inr (Some \<lparr>to_status = T_unknown, to_revision = None, to_current_id = None\<rparr>)
      else case trajectory_load H (tc_work_id c) db of
        None \<Rightarrow> Inr (Some \<lparr>to_status = T_unknown, to_revision = None, to_current_id = None\<rparr>)
      | Some chain \<Rightarrow>
         (case find (\<lambda>row. htr_append_request_id row = tc_append_request_id c) chain of
            Some revision \<Rightarrow>
              if htr_content_digest revision = digest
                 \<and> htr_generation revision = tc_expected_generation c
                 \<and> htr_predecessor_id revision = tc_expected_predecessor_id c
              then Inr (Some \<lparr>to_status = T_replayed, to_revision = Some revision,
                              to_current_id = Some (htr_trajectory_id revision)\<rparr>)
              else Inr (Some \<lparr>to_status = T_conflict, to_revision = None,
                              to_current_id = Some (htr_trajectory_id revision)\<rparr>)
          | None \<Rightarrow>
              bindE (one_or_none (map trw_trajectory_id
                (filter (\<lambda>r. trw_append_request_id r = tc_append_request_id c) (tdb_rows db)))) (\<lambda>foreign.
              case foreign of
                Some t \<Rightarrow> Inr (Some \<lparr>to_status = T_conflict, to_revision = None, to_current_id = Some t\<rparr>)
              | None \<Rightarrow>
                 (let current_id = tip htr_trajectory_id chain;
                      current_generation = (if chain = [] then 0 else htr_generation (last chain))
                  in if tc_expected_generation c \<noteq> current_generation + 1
                        \<or> tc_expected_predecessor_id c \<noteq> current_id
                     then Inr (Some \<lparr>to_status = T_stale, to_revision = None, to_current_id = current_id\<rparr>)
                     else Inr None))))"

text \<open>\<open>record\<close>: the reads see \<open>seen\<close>, the insert goes to \<open>db\<close>; an exception rolls it back.\<close>

definition trajectory_record ::
  "(json \<Rightarrow> string) \<Rightarrow> uuid \<Rightarrow> py_datetime \<Rightarrow> trajectory_call \<Rightarrow> trajectory_db \<Rightarrow> trajectory_db
     \<Rightarrow> trajectory_outcome py_result \<times> trajectory_db" where
  "trajectory_record H fresh now c seen db =
     (if \<not> trajectory_call_ok c then (Inl ValueError, db)
      else case trajectory_digest H (tc_data c) (tc_source_kind c) (tc_source_ref c) (tc_source_revision c) of
        Inl e \<Rightarrow> (Inl e, db)
      | Inr digest \<Rightarrow>
         (case trajectory_settled H digest c seen of
            Inl e \<Rightarrow> (Inl e, db)
          | Inr (Some out) \<Rightarrow> (Inr out, db)
          | Inr None \<Rightarrow>
              (let r = trajectory_new_row fresh now digest c
               in case insert_trajectory r db of
                   Inl e \<Rightarrow> (Inl e, db)
                 | Inr db' \<Rightarrow>
                    (case trajectory_row_of r of
                       Inl e \<Rightarrow> (Inl e, db)
                     | Inr revision \<Rightarrow>
                         (Inr \<lparr>to_status = T_applied, to_revision = Some revision,
                               to_current_id = Some (htr_trajectory_id revision)\<rparr>, db')))))"

section \<open>Histories\<close>

definition trajectory_earlier :: "trajectory_db \<Rightarrow> trajectory_db \<Rightarrow> bool" where
  "trajectory_earlier seen db =
     ((\<exists>more. tdb_rows db = tdb_rows seen @ more) \<and> set (tdb_handles seen) \<subseteq> set (tdb_handles db))"

text \<open>
  The tables the program can produce: work handles are bound and trajectories recorded, each
  record reading some earlier table and inserting into the present one.
\<close>

inductive trajectory_reach :: "(json \<Rightarrow> string) \<Rightarrow> trajectory_db \<Rightarrow> bool" for H where
  trajectory_init: "trajectory_reach H \<lparr>tdb_rows = [], tdb_handles = []\<rparr>"
| trajectory_handle: "trajectory_reach H db \<Longrightarrow>
    trajectory_reach H (db\<lparr>tdb_handles := w # tdb_handles db\<rparr>)"
| trajectory_append: "trajectory_reach H seen \<Longrightarrow> trajectory_reach H db \<Longrightarrow> trajectory_earlier seen db \<Longrightarrow>
    valid_trajectory_data (tc_data c) \<Longrightarrow>
    trajectory_record H fresh now c seen db = (res, db') \<Longrightarrow> trajectory_reach H db'"

interpretation trajectories: decoded_chain trajectory_row_of "trajectory_accept H" htr_trajectory_id
  htr_generation htr_predecessor_id trw_trajectory_id trw_generation trw_predecessor_id trw_work_id_ref for H
  by unfold_locales
     (auto simp: trajectory_row_of_def trajectory_accept_def bindE_eq_Inr split: if_splits)

abbreviation trajectory_table :: "(json \<Rightarrow> string) \<Rightarrow> trajectory_db \<Rightarrow> bool" where
  "trajectory_table H db \<equiv> chained_table (accepted trajectory_row_of (trajectory_accept H))
     trw_trajectory_id trw_work_id_ref (tdb_rows db)"

lemma source_kind_round [simp]: "source_kind_of (source_kind_value k) = Inr k"
  by (cases k) (simp_all add: source_kind_of_def)

lemma trajectory_row_of_Inr:
  assumes "trajectory_row_of v = Inr r"
  shows "htr_append_request_id r = trw_append_request_id v" "htr_work_id r = trw_work_id_ref v"
    "htr_trajectory_id r = trw_trajectory_id v" "htr_generation r = trw_generation v"
    "htr_predecessor_id r = trw_predecessor_id v" "htr_content_digest r = trw_content_digest v"
  using assms by (auto simp: trajectory_row_of_def bindE_eq_Inr split: if_splits)

lemmas trajectory_load_unfold = trajectory_load_def trajectory_chain_def

text \<open>Columns of the decoded rows.\<close>

lemma trajectory_decoded_columns:
  assumes "mapE trajectory_row_of vs = Inr rs"
  shows "map htr_trajectory_id rs = map trw_trajectory_id vs"
    "map htr_append_request_id rs = map trw_append_request_id vs"
    "map htr_work_id rs = map trw_work_id_ref vs"
  using assms unfolding mapE_list
  by (induction rule: list_all2_induct) (auto dest: trajectory_row_of_Inr)

lemma trajectory_settled_None:
  assumes "trajectory_settled H digest c seen = Inr None"
  obtains chain where "trajectory_load H (tc_work_id c) seen = Some chain"
    "tc_expected_generation c = int (length chain) + 1"
    "tc_expected_predecessor_id c = tip htr_trajectory_id chain"
    "tc_append_request_id c \<notin> set (map trw_append_request_id (tdb_rows seen))"
    "tc_work_id c \<in> set (tdb_handles seen)"
proof -
  note def = trajectory_settled_def [of H digest c seen]
  have handle: "tc_work_id c \<in> set (tdb_handles seen)"
    by (rule ccontr) (use assms in \<open>simp add: def\<close>)
  obtain chain where chain: "trajectory_load H (tc_work_id c) seen = Some chain"
    by (cases "trajectory_load H (tc_work_id c) seen") (use assms handle in \<open>simp_all add: def\<close>)
  have new: "find (\<lambda>row. htr_append_request_id row = tc_append_request_id c) chain = None"
    by (cases "find (\<lambda>row. htr_append_request_id row = tc_append_request_id c) chain")
       (use assms handle chain in \<open>simp_all add: def split: if_splits\<close>)
  let ?known = "map trw_trajectory_id
      (filter (\<lambda>r. trw_append_request_id r = tc_append_request_id c) (tdb_rows seen))"
  obtain foreign where fo: "one_or_none ?known = Inr foreign"
    by (cases "one_or_none ?known") (use assms handle chain new in \<open>simp_all add: def\<close>)
  have fn: "foreign = None"
    by (cases foreign) (use assms handle chain new fo in \<open>simp_all add: def\<close>)
  with fo have free: "?known = []"
    by (simp only: one_or_none_None)
  have exp: "tc_expected_generation c = (if chain = [] then 0 else htr_generation (last chain)) + 1"
    "tc_expected_predecessor_id c = tip htr_trajectory_id chain"
    using assms handle chain new fo fn by (simp_all add: def Let_def split: if_split_asm)
  show thesis
  proof (rule that [OF chain _ exp(2) _ handle])
    show "tc_expected_generation c = int (length chain) + 1"
      using exp(1) trajectories.last_generation [OF chain [unfolded trajectory_load_unfold]] by simp
    show "tc_append_request_id c \<notin> set (map trw_append_request_id (tdb_rows seen))"
      using free by (auto simp: filter_empty_conv)
  qed
qed

text \<open>An answer given before the insert is never \<open>APPLIED\<close>.\<close>

lemma trajectory_settled_not_applied:
  "trajectory_settled H digest c seen = Inr (Some out) \<Longrightarrow> to_status out \<noteq> T_applied"
  unfolding trajectory_settled_def Let_def bindE_def
  by (clarsimp split: if_split_asm option.split_asm sum.split_asm)

text \<open>A call either leaves the table alone or inserts one row.\<close>

lemma trajectory_record_cases:
  assumes "trajectory_record H fresh now c seen db = (res, db')"
  obtains (kept) "db' = db" "\<And>out. res = Inr out \<Longrightarrow> to_status out \<noteq> T_applied"
    | (inserted) digest revision where
        "trajectory_digest H (tc_data c) (tc_source_kind c) (tc_source_ref c) (tc_source_revision c) = Inr digest"
        "trajectory_settled H digest c seen = Inr None"
        "insert_trajectory (trajectory_new_row fresh now digest c) db = Inr db'"
        "trajectory_row_of (trajectory_new_row fresh now digest c) = Inr revision"
        "res = Inr \<lparr>to_status = T_applied, to_revision = Some revision,
           to_current_id = Some (htr_trajectory_id revision)\<rparr>"
        "trajectory_call_ok c"
proof -
  from assms consider
      (call) "db' = db" "\<exists>e. res = Inl e"
    | (early) out digest where "db' = db" "res = Inr out" "trajectory_settled H digest c seen = Inr (Some out)"
    | (ins) digest where "trajectory_call_ok c"
        "trajectory_digest H (tc_data c) (tc_source_kind c) (tc_source_ref c) (tc_source_revision c) = Inr digest"
        "trajectory_settled H digest c seen = Inr None"
        "(case insert_trajectory (trajectory_new_row fresh now digest c) db of Inl e \<Rightarrow> (Inl e, db)
          | Inr d \<Rightarrow> (case trajectory_row_of (trajectory_new_row fresh now digest c) of Inl e \<Rightarrow> (Inl e, db)
              | Inr revision \<Rightarrow> (Inr \<lparr>to_status = T_applied, to_revision = Some revision,
                               to_current_id = Some (htr_trajectory_id revision)\<rparr>, d))) = (res, db')"
    by (auto simp: trajectory_record_def Let_def split: if_splits sum.splits option.splits)
  then show thesis
  proof cases
    case call
    then show thesis by (auto intro: kept)
  next
    case early
    then show thesis using trajectory_settled_not_applied by (auto intro: kept)
  next
    case ins
    show thesis
    proof (cases "insert_trajectory (trajectory_new_row fresh now digest c) db")
      case (Inl e)
      with ins(4) show thesis by (auto intro: kept)
    next
      case (Inr d)
      show thesis
      proof (cases "trajectory_row_of (trajectory_new_row fresh now digest c)")
        case (Inl e)
        with ins(4) Inr show thesis by (auto intro: kept)
      next
        case (Inr revision)
        with ins \<open>insert_trajectory _ db = Inr d\<close> show thesis by (auto intro: inserted)
      qed
    qed
  qed
qed

lemma insert_trajectory_Inr:
  assumes "insert_trajectory r db = Inr db'"
  shows "db' = db\<lparr>tdb_rows := tdb_rows db @ [r]\<rparr>"
    "trw_trajectory_id r \<notin> set (map trw_trajectory_id (tdb_rows db))"
    "trw_append_request_id r \<notin> set (map trw_append_request_id (tdb_rows db))"
    "\<forall>s \<in> set (tdb_rows db). \<not> (trw_work_id_ref s = trw_work_id_ref r \<and> trw_generation s = trw_generation r)"
  using assms by (auto simp: insert_trajectory_def split: if_splits)

definition trajectory_inv :: "(json \<Rightarrow> string) \<Rightarrow> trajectory_db \<Rightarrow> bool" where
  "trajectory_inv H db =
     (trajectory_table H db \<and> distinct (map trw_trajectory_id (tdb_rows db))
      \<and> distinct (map trw_append_request_id (tdb_rows db)))"

lemma trajectory_invD:
  assumes "trajectory_inv H db"
  shows "trajectory_table H db" "\<exists>chain. trajectory_load H w db = Some chain"
  using assms trajectories.table_loads [of H "tdb_rows db" w]
  by (auto simp: trajectory_inv_def trajectory_load_unfold)

lemma trajectory_new_row_simps [simp]:
  "trw_trajectory_id (trajectory_new_row f n d c) = f"
  "trw_append_request_id (trajectory_new_row f n d c) = tc_append_request_id c"
  "trw_work_id_ref (trajectory_new_row f n d c) = tc_work_id c"
  "trw_generation (trajectory_new_row f n d c) = tc_expected_generation c"
  "trw_predecessor_id (trajectory_new_row f n d c) = tc_expected_predecessor_id c"
  "trw_content_digest (trajectory_new_row f n d c) = d"
  by (simp_all add: trajectory_new_row_def)

text \<open>What an applied call leaves behind.\<close>

lemma trajectory_applied_load:
  assumes "trajectory_inv H seen" and "trajectory_inv H db" and "trajectory_earlier seen db"
    and "trajectory_record H fresh now c seen db = (Inr out, db1)" and "to_status out = T_applied"
  obtains digest chain revision where "trajectory_inv H db1" "to_revision out = Some revision"
    "trajectory_load H (tc_work_id c) db = Some chain"
    "trajectory_load H (tc_work_id c) db1 = Some (chain @ [revision])"
    "tc_expected_generation c = int (length chain) + 1"
    "tc_work_id c \<in> set (tdb_handles db1)" "trajectory_call_ok c"
    "trajectory_digest H (tc_data c) (tc_source_kind c) (tc_source_ref c) (tc_source_revision c) = Inr digest"
    "htr_append_request_id revision = tc_append_request_id c" "htr_content_digest revision = digest"
    "htr_generation revision = tc_expected_generation c"
    "htr_predecessor_id revision = tc_expected_predecessor_id c"
proof -
  from assms(4) obtain digest revision where
    ins: "trajectory_digest H (tc_data c) (tc_source_kind c) (tc_source_ref c) (tc_source_revision c) = Inr digest"
      "trajectory_settled H digest c seen = Inr None"
      "insert_trajectory (trajectory_new_row fresh now digest c) db = Inr db1"
      "trajectory_row_of (trajectory_new_row fresh now digest c) = Inr revision"
    and out: "to_revision out = Some revision" and ok: "trajectory_call_ok c"
    by (cases rule: trajectory_record_cases) (use assms(5) in auto)
  note r = trajectory_row_of_Inr [OF ins(4), simplified]
  from trajectory_settled_None [OF ins(2)] obtain chain
    where chain: "trajectory_load H (tc_work_id c) seen = Some chain"
      and exp: "tc_expected_generation c = int (length chain) + 1"
        "tc_expected_predecessor_id c = tip htr_trajectory_id chain"
      and handle: "tc_work_id c \<in> set (tdb_handles seen)" by blast
  have "htr_data revision = tc_data c" "htr_source_kind revision = tc_source_kind c"
    "htr_source_ref revision = tc_source_ref c" "htr_source_revision revision = tc_source_revision c"
    using ins(4) by (auto simp: trajectory_row_of_def trajectory_new_row_def split: if_splits)
  then have acc: "trajectory_accept H (int (length chain) + 1) (tip htr_trajectory_id chain) revision"
    using ins(1) exp r by (simp add: trajectory_accept_def)
  from assms(3) obtain more where more: "tdb_rows db = tdb_rows seen @ more"
    by (auto simp: trajectory_earlier_def)
  note db1 = insert_trajectory_Inr [OF ins(3), simplified]
  note app = trajectories.insert_applied [OF trajectory_invD(1) [OF assms(1)] trajectory_invD(1) [OF assms(2)] more,
      of "trajectory_new_row fresh now digest c", simplified,
      OF chain [unfolded trajectory_load_unfold] ins(4) acc db1(4)]
  have "trajectory_inv H db1" using app(2) assms(2) db1 by (simp add: trajectory_inv_def)
  moreover have "tc_work_id c \<in> set (tdb_handles db1)"
    using handle assms(3) db1(1) by (auto simp: trajectory_earlier_def)
  ultimately show thesis
    using app(1,3) db1(1) out exp ok ins(1) r by (intro that) (simp_all add: trajectory_load_unfold)
qed

lemma trajectory_reach_inv: "trajectory_reach H db \<Longrightarrow> trajectory_inv H db"
proof (induction rule: trajectory_reach.induct)
  case trajectory_init
  then show ?case by (simp add: trajectory_inv_def chained_table_def)
next
  case (trajectory_handle db w)
  then show ?case by (simp add: trajectory_inv_def)
next
  case (trajectory_append seen db c fresh now res db')
  from trajectory_append.hyps(5) show ?case
  proof (cases rule: trajectory_record_cases)
    case kept
    with trajectory_append.IH(2) show ?thesis by simp
  next
    case (inserted digest revision)
    show ?thesis
      by (rule trajectory_applied_load [OF trajectory_append.IH trajectory_append.hyps(3)
            trajectory_append.hyps(5) [unfolded inserted(5)]]) simp_all
  qed
qed

lemma trajectory_load_distinct:
  assumes "trajectory_inv H db" and "trajectory_load H w db = Some chain"
  shows "distinct (map htr_trajectory_id chain)" "distinct (map htr_append_request_id chain)"
    "\<forall>r \<in> set chain. htr_work_id r = w"
proof -
  let ?vs = "chain_rows trw_work_id_ref trw_generation w (tdb_rows db)"
  have m: "mapE trajectory_row_of ?vs = Inr chain"
    using assms(2) by (simp add: trajectory_load_unfold trajectories.load_Some)
  have "?vs = filter (\<lambda>r. trw_work_id_ref r = w) (tdb_rows db)"
    by (rule trajectories.rows.chain_rows_filter [OF trajectory_invD(1) [OF assms(1)]])
  moreover have "distinct (map trw_trajectory_id (tdb_rows db))"
    "distinct (map trw_append_request_id (tdb_rows db))" using assms(1) by (simp_all add: trajectory_inv_def)
  ultimately show "distinct (map htr_trajectory_id chain)" "distinct (map htr_append_request_id chain)"
    using trajectory_decoded_columns [OF m] by (simp_all add: distinct_map_filter)
  have "htr_work_id ` set chain = trw_work_id_ref ` set ?vs"
    using arg_cong [OF trajectory_decoded_columns(3) [OF m], of set] by simp
  also have "\<dots> \<subseteq> {w}" by (auto simp: chain_rows_def)
  finally show "\<forall>r \<in> set chain. htr_work_id r = w" by blast
qed

lemma trajectory_compare_iff:
  assumes "distinct (map htr_trajectory_id chain)"
  shows "fst (trajectory_compare (Some chain) t) = T_current \<longleftrightarrow> tip htr_trajectory_id chain = Some t"
    and "fst (trajectory_compare (Some chain) t) = T_stale
           \<longleftrightarrow> t \<in> htr_trajectory_id ` set chain \<and> tip htr_trajectory_id chain \<noteq> Some t"
  using assms
  by (cases chain rule: rev_cases; auto simp: trajectory_compare_def image_iff)+

text \<open>
  C32. In every table that bound handles and recorded trajectories can produce, with records
  interleaved at will, the history of each work validates: its generations count from one, each
  names the identifier of the one before as its predecessor, no identifier occurs twice, the
  read returns the newest, and the currentness check calls exactly the newest identifier current
  and exactly the earlier ones stale.
\<close>

theorem trajectory_history_linear:
  assumes "trajectory_reach H db"
  shows "\<exists>chain. trajectory_load H w db = Some chain
     \<and> (\<forall>i < length chain. htr_generation (chain ! i) = int i + 1 \<and> htr_work_id (chain ! i) = w
          \<and> htr_predecessor_id (chain ! i) = tip htr_trajectory_id (take i chain))
     \<and> distinct (map htr_trajectory_id chain)
     \<and> trajectory_get H w db = (if chain = [] then (T_missing, None) else (T_current, Some (last chain)))
     \<and> (\<forall>t. (fst (trajectory_check H w t db) = T_current \<longleftrightarrow> tip htr_trajectory_id chain = Some t)
          \<and> (fst (trajectory_check H w t db) = T_stale
              \<longleftrightarrow> t \<in> htr_trajectory_id ` set chain \<and> tip htr_trajectory_id chain \<noteq> Some t))"
proof -
  have inv: "trajectory_inv H db" by (rule trajectory_reach_inv [OF assms])
  from trajectory_invD(2) [OF this] obtain chain where chain: "trajectory_load H w db = Some chain" by blast
  note d = trajectory_load_distinct [OF inv chain]
  have links: "linked (trajectory_accept H) htr_trajectory_id 1 None chain"
    using trajectories.load_linked chain by (simp add: trajectory_load_unfold)
  have "trajectory_get H w db = (if chain = [] then (T_missing, None) else (T_current, Some (last chain)))"
    using chain by (cases chain) (simp_all add: trajectory_get_def)
  with chain d show ?thesis
    by (intro exI [of _ chain])
       (simp add: trajectories.revisions.chain_gens [OF links] trajectories.revisions.chain_prev [OF links]
         trajectory_check_def trajectory_compare_iff)
qed

lemma trajectory_load_later:
  assumes "trajectory_inv H db1" and "trajectory_inv H db2" and "trajectory_earlier db1 db2"
    and "trajectory_load H w db1 = Some chain"
  shows "\<exists>more. trajectory_load H w db2 = Some (chain @ more)"
  using assms trajectories.load_later [of H "tdb_rows db1"]
  by (auto simp: trajectory_inv_def trajectory_earlier_def trajectory_load_unfold)

lemma trajectory_earlier_refl: "trajectory_earlier db db"
  by (simp add: trajectory_earlier_def)

lemma trajectory_record_replay:
  assumes "trajectory_inv H db" and "trajectory_load H (tc_work_id c) db = Some chain"
    and "revision \<in> set chain" and "tc_work_id c \<in> set (tdb_handles db)" and "trajectory_call_ok c"
    and "trajectory_digest H (tc_data c) (tc_source_kind c) (tc_source_ref c) (tc_source_revision c) = Inr digest"
    and "htr_append_request_id revision = tc_append_request_id c" "htr_content_digest revision = digest"
    "htr_generation revision = tc_expected_generation c"
    "htr_predecessor_id revision = tc_expected_predecessor_id c"
  shows "trajectory_record H fresh now c db db' =
     (Inr \<lparr>to_status = T_replayed, to_revision = Some revision,
           to_current_id = Some (htr_trajectory_id revision)\<rparr>, db')"
proof -
  have "find (\<lambda>row. htr_append_request_id row = htr_append_request_id revision) chain = Some revision"
    by (rule find_distinct_key [OF trajectory_load_distinct(2) [OF assms(1,2)] assms(3)])
  with assms show ?thesis
    by (simp add: trajectory_record_def trajectory_settled_def)
qed

lemma trajectory_generation_once:
  assumes "trajectory_inv H seen" and "trajectory_inv H db" and "trajectory_earlier seen db"
    and "trajectory_record H fresh now c seen db = (Inr out, db')"
    and "trajectory_load H (tc_work_id c) db = Some chain"
    and "tc_expected_generation c \<le> int (length chain)"
  shows "to_status out \<noteq> T_applied"
proof
  assume "to_status out = T_applied"
  from trajectory_applied_load [OF assms(1-4) this] obtain chain'
    where "trajectory_load H (tc_work_id c) db = Some chain'"
      "tc_expected_generation c = int (length chain') + 1" by blast
  with assms(5,6) show False by simp
qed

text \<open>
  An applied record appends exactly its revision to the history of its work; whatever is
  recorded afterwards, repeating the call returns that revision and changes nothing, and no
  other call that expects the same generation of the work is applied, even one that read the
  table before.
\<close>

theorem trajectory_record_once:
  assumes "trajectory_reach H seen" and "trajectory_reach H db" and "trajectory_earlier seen db"
    and "trajectory_record H fresh now c seen db = (Inr out, db1)" and "to_status out = T_applied"
    and "trajectory_reach H db2" and "trajectory_earlier db1 db2"
  shows "\<exists>chain revision. to_revision out = Some revision
     \<and> trajectory_load H (tc_work_id c) db = Some chain
     \<and> trajectory_load H (tc_work_id c) db1 = Some (chain @ [revision])
     \<and> (\<forall>fresh' now' db3. trajectory_record H fresh' now' c db2 db3 =
          (Inr \<lparr>to_status = T_replayed, to_revision = Some revision,
                to_current_id = Some (htr_trajectory_id revision)\<rparr>, db3))
     \<and> (\<forall>seen' c' fresh' now' out' db3. trajectory_reach H seen' \<and> trajectory_earlier seen' db2
          \<and> tc_work_id c' = tc_work_id c \<and> tc_expected_generation c' = tc_expected_generation c
          \<and> trajectory_record H fresh' now' c' seen' db2 = (Inr out', db3)
          \<longrightarrow> to_status out' \<noteq> T_applied)"
proof -
  have inv: "trajectory_inv H seen" "trajectory_inv H db" "trajectory_inv H db2"
    using assms(1,2,6) by (simp_all add: trajectory_reach_inv)
  obtain digest chain revision where a: "trajectory_inv H db1" "to_revision out = Some revision"
    "trajectory_load H (tc_work_id c) db = Some chain"
    "trajectory_load H (tc_work_id c) db1 = Some (chain @ [revision])"
    "tc_expected_generation c = int (length chain) + 1"
    and handle: "tc_work_id c \<in> set (tdb_handles db1)" and ok: "trajectory_call_ok c"
    and r: "trajectory_digest H (tc_data c) (tc_source_kind c) (tc_source_ref c) (tc_source_revision c) = Inr digest"
    "htr_append_request_id revision = tc_append_request_id c" "htr_content_digest revision = digest"
    "htr_generation revision = tc_expected_generation c"
    "htr_predecessor_id revision = tc_expected_predecessor_id c"
    by (rule trajectory_applied_load [OF inv(1,2) assms(3-5)])
  from trajectory_load_later [OF a(1) inv(3) assms(7) a(4)] obtain more
    where load2: "trajectory_load H (tc_work_id c) db2 = Some ((chain @ [revision]) @ more)" by blast
  have handle2: "tc_work_id c \<in> set (tdb_handles db2)"
    using handle assms(7) by (auto simp: trajectory_earlier_def)
  have replay: "trajectory_record H fresh' now' c db2 db3 =
     (Inr \<lparr>to_status = T_replayed, to_revision = Some revision,
           to_current_id = Some (htr_trajectory_id revision)\<rparr>, db3)" for fresh' now' db3
    by (rule trajectory_record_replay [OF inv(3) load2 _ handle2 ok r]) simp
  have once: "to_status out' \<noteq> T_applied"
    if "trajectory_reach H seen'" "trajectory_earlier seen' db2" "tc_work_id c' = tc_work_id c"
      "tc_expected_generation c' = tc_expected_generation c"
      "trajectory_record H fresh' now' c' seen' db2 = (Inr out', db3)" for seen' c' fresh' now' out' db3
    using trajectory_generation_once [OF trajectory_reach_inv [OF that(1)] inv(3) that(2,5)] load2 that(3,4) a(5)
    by simp
  show ?thesis using a(2-4) replay once by blast
qed

text \<open>A table with one handle, and one record.\<close>

definition flat_hash :: "json \<Rightarrow> string" where
  "flat_hash j = replicate 64 (CHR ''0'')"

definition demo_trajectory :: trajectory_data where
  "demo_trajectory = \<lparr>htd_outcome = ''ship'', htd_settled_decisions = [''keep V1''],
     htd_accepted_cuts_or_deferrals = [], htd_unresolved_human_questions = [],
     htd_current_slice = ''store'', htd_remaining_outcome = [], htd_authority_effect_refs = []\<rparr>"

definition demo_trajectory_call :: trajectory_call where
  "demo_trajectory_call = \<lparr>tc_work_id = 1, tc_append_request_id = 2, tc_expected_generation = 1,
     tc_expected_predecessor_id = None, tc_source_kind = HUMAN_INPUT, tc_source_ref = ''chat'',
     tc_source_revision = None, tc_data = demo_trajectory\<rparr>"

definition demo_trajectory_db :: trajectory_db where
  "demo_trajectory_db = \<lparr>tdb_rows = [], tdb_handles = [1]\<rparr>"

definition demo_trajectory_run :: "trajectory_outcome py_result \<times> trajectory_db" where
  "demo_trajectory_run =
     trajectory_record flat_hash 3 (Aware 0) demo_trajectory_call demo_trajectory_db demo_trajectory_db"

lemma demo_trajectory_reach: "trajectory_reach flat_hash demo_trajectory_db"
  using trajectory_handle [OF trajectory_init, of flat_hash 1] by (simp add: demo_trajectory_db_def)

lemma demo_trajectory_valid: "valid_trajectory_data (tc_data demo_trajectory_call)"
  by code_simp

lemma demo_trajectory_applied: "map_sum id to_status (fst demo_trajectory_run) = Inr T_applied"
  by code_simp

lemma demo_trajectory_after: "trajectory_reach flat_hash (snd demo_trajectory_run)"
  by (rule trajectory_append [OF demo_trajectory_reach demo_trajectory_reach trajectory_earlier_refl
        demo_trajectory_valid, of 3 "Aware 0" "fst demo_trajectory_run"])
     (simp add: demo_trajectory_run_def)

theorem trajectory_history_linear_witness:
  "\<exists>chain. trajectory_load flat_hash 1 (snd demo_trajectory_run) = Some chain
     \<and> (\<forall>i < length chain. htr_generation (chain ! i) = int i + 1)"
  using trajectory_history_linear [OF demo_trajectory_after, of 1] by auto

theorem trajectory_record_once_witness:
  "\<exists>revision. trajectory_record flat_hash 9 (Aware 7) demo_trajectory_call (snd demo_trajectory_run) demo_trajectory_db =
     (Inr \<lparr>to_status = T_replayed, to_revision = Some revision,
           to_current_id = Some (htr_trajectory_id revision)\<rparr>, demo_trajectory_db)"
proof -
  obtain out where out: "trajectory_record flat_hash 3 (Aware 0) demo_trajectory_call demo_trajectory_db demo_trajectory_db
      = (Inr out, snd demo_trajectory_run)" "to_status out = T_applied"
    using demo_trajectory_applied
    by (cases demo_trajectory_run) (auto simp: demo_trajectory_run_def map_sum_def split: sum.splits)
  from trajectory_record_once [OF demo_trajectory_reach demo_trajectory_reach trajectory_earlier_refl
      out demo_trajectory_after trajectory_earlier_refl]
  show ?thesis by blast
qed

end
