(* ===== verification/Outcome_State.thy ===== *)
theory Outcome_State
  imports Py_Ident Revision_Chain "HOL-Library.Product_Lexorder"
begin

text \<open>
  Owner-local outcome snapshots (\<open>src/switchstand/outcome_state.py\<close>): the items with their shape
  rules, the projection of a snapshot to ordered actions, and the append-only snapshot table of
  \<open>state.py\<close> with its idempotent append. The SHA-256 digest of canonical JSON is the parameter
  \<open>H\<close>; \<open>uuid4()\<close> is an argument. As for trajectories, an append reads one table and inserts into
  a later one.
\<close>

section \<open>Items and actions\<close>

datatype item_kind = DELIVERABLE | DECISION

datatype item_status = NOT_STARTED | READY | IN_PROGRESS | DONE

datatype acting_party = OWNER | MARCO

datatype item_source = AGENT_source | MARCO_source

record outcome_item =
  oi_item_key :: string
  oi_description :: string
  oi_kind :: item_kind
  oi_status :: item_status
  oi_who_acts :: acting_party
  oi_dispatch_work_id :: "uuid option"
  oi_what_yes_causes :: "string option"
  oi_source_label :: item_source
  oi_source_ref :: "string option"

definition valid_action_shape :: "outcome_item \<Rightarrow> bool" where
  "valid_action_shape i =
     (let dispatch = (oi_kind i = DELIVERABLE \<and> oi_status i = READY \<and> oi_who_acts i = MARCO);
          decision = (oi_kind i = DECISION \<and> oi_status i \<in> {NOT_STARTED, READY} \<and> oi_who_acts i = MARCO)
      in dispatch = (oi_dispatch_work_id i \<noteq> None)
         \<and> decision = (oi_what_yes_causes i \<noteq> None)
         \<and> \<not> (oi_who_acts i = MARCO \<and> oi_kind i = DELIVERABLE \<and> oi_status i = NOT_STARTED))"

definition valid_outcome_item :: "outcome_item \<Rightarrow> bool" where
  "valid_outcome_item i =
     (1 \<le> length (oi_item_key i) \<and> length (oi_item_key i) \<le> 120
      \<and> 1 \<le> length (oi_description i) \<and> length (oi_description i) \<le> 1000
      \<and> opt_min1 (oi_what_yes_causes i) \<and> opt_max 1000 (oi_what_yes_causes i)
      \<and> opt_min1 (oi_source_ref i) \<and> opt_max 512 (oi_source_ref i)
      \<and> valid_action_shape i)"

datatype action_class = NEEDS_MARCO | READY_TO_DISPATCH | OWNER_CAN_DO

record outcome_action =
  oa_action_class :: action_class
  oa_item_key :: string
  oa_description :: string
  oa_dispatch_work_id :: "uuid option"
  oa_what_yes_causes :: "string option"

datatype currentness = Current_basis | Stale_basis

record action_summary =
  as_currentness :: currentness
  as_open_action_count :: int
  as_actions :: "outcome_action list"

section \<open>Revisions\<close>

record outcome_row =
  orw_state_id :: uuid
  orw_operation_id :: uuid
  orw_owner_work_id :: uuid
  orw_generation :: int
  orw_predecessor_id :: "uuid option"
  orw_schema_version :: int
  orw_items :: "outcome_item list"
  orw_owner_currentness_token :: string
  orw_content_digest :: string

record outcome_revision =
  orv_state_id :: uuid
  orv_operation_id :: uuid
  orv_owner_work_id :: uuid
  orv_generation :: int
  orv_predecessor_id :: "uuid option"
  orv_items :: "outcome_item list"
  orv_owner_currentness_token :: string
  orv_content_digest :: string

record outcome_db =
  odb_rows :: "outcome_row list"
  odb_handles :: "uuid list"

fun item_kind_value :: "item_kind \<Rightarrow> string" where
  "item_kind_value DELIVERABLE = ''DELIVERABLE''"
| "item_kind_value DECISION = ''DECISION''"

fun item_status_value :: "item_status \<Rightarrow> string" where
  "item_status_value NOT_STARTED = ''NOT_STARTED''"
| "item_status_value READY = ''READY''"
| "item_status_value IN_PROGRESS = ''IN_PROGRESS''"
| "item_status_value DONE = ''DONE''"

definition item_json :: "outcome_item \<Rightarrow> json" where
  "item_json i = JObj [(''item_key'', JStr (oi_item_key i)), (''description'', JStr (oi_description i)),
     (''kind'', JStr (item_kind_value (oi_kind i))), (''status'', JStr (item_status_value (oi_status i))),
     (''who_acts'', JStr (if oi_who_acts i = OWNER then ''OWNER'' else ''MARCO'')),
     (''dispatch_work_id'', json_opt (\<lambda>u. json_uuid u) (oi_dispatch_work_id i)),
     (''what_yes_causes'', json_opt JStr (oi_what_yes_causes i)),
     (''source_label'', JStr (if oi_source_label i = AGENT_source then ''AGENT'' else ''MARCO'')),
     (''source_ref'', json_opt JStr (oi_source_ref i))]"

definition outcome_canonical :: "outcome_item list \<Rightarrow> json list py_result" where
  "outcome_canonical items =
     (if 64 < length items \<or> card (set (map oi_item_key items)) \<noteq> length items then Inl ValueError
      else Inr (map item_json items))"

definition outcome_digest ::
  "(json \<Rightarrow> string) \<Rightarrow> uuid \<Rightarrow> uuid option \<Rightarrow> string \<Rightarrow> outcome_item list \<Rightarrow> string py_result" where
  "outcome_digest H owner predecessor token items =
     bindE (outcome_canonical items) (\<lambda>canonical.
       Inr (H (JList [json_uuid owner, json_opt (\<lambda>u. json_uuid u) predecessor, JStr token, JList canonical])))"

definition outcome_row_of :: "outcome_row \<Rightarrow> outcome_revision py_result" where
  "outcome_row_of v =
     (if \<exists>i \<in> set (orw_items v). \<not> valid_outcome_item i then Inl ValidationError
      else Inr \<lparr>orv_state_id = orw_state_id v, orv_operation_id = orw_operation_id v,
        orv_owner_work_id = orw_owner_work_id v, orv_generation = orw_generation v,
        orv_predecessor_id = orw_predecessor_id v, orv_items = orw_items v,
        orv_owner_currentness_token = orw_owner_currentness_token v,
        orv_content_digest = orw_content_digest v\<rparr>)"

definition revision_digest :: "(json \<Rightarrow> string) \<Rightarrow> outcome_revision \<Rightarrow> string py_result" where
  "revision_digest H row = outcome_digest H (orv_owner_work_id row) (orv_predecessor_id row)
     (orv_owner_currentness_token row) (orv_items row)"

definition outcome_accept :: "(json \<Rightarrow> string) \<Rightarrow> int \<Rightarrow> uuid option \<Rightarrow> outcome_revision \<Rightarrow> bool" where
  "outcome_accept H generation predecessor row =
     (orv_generation row = generation \<and> orv_predecessor_id row = predecessor
      \<and> revision_digest H row = Inr (orv_content_digest row))"

definition outcome_chain :: "(json \<Rightarrow> string) \<Rightarrow> outcome_row list \<Rightarrow> outcome_revision list option" where
  "outcome_chain H values = validated_chain outcome_row_of (outcome_accept H) orv_state_id values"

record outcome_header =
  ohd_state_id :: uuid
  ohd_owner_work_id :: uuid
  ohd_generation :: int
  ohd_currentness :: currentness
  ohd_item_status_counts :: "(item_status \<times> nat) list"

definition revision_currentness :: "outcome_revision \<Rightarrow> string \<Rightarrow> currentness" where
  "revision_currentness row token =
     (if orv_owner_currentness_token row = token then Current_basis else Stale_basis)"

definition validated_revision_headers ::
  "(json \<Rightarrow> string) \<Rightarrow> outcome_row list \<Rightarrow> string \<Rightarrow> outcome_header list option" where
  "validated_revision_headers H values token =
     map_option (map (\<lambda>row. \<lparr>ohd_state_id = orv_state_id row, ohd_owner_work_id = orv_owner_work_id row,
       ohd_generation = orv_generation row, ohd_currentness = revision_currentness row token,
       ohd_item_status_counts =
         map (\<lambda>s. (s, length (filter (\<lambda>i. oi_status i = s) (orv_items row)))) [NOT_STARTED, READY, IN_PROGRESS, DONE]\<rparr>))
       (outcome_chain H values)"

section \<open>The action projection\<close>

definition skipped_item :: "outcome_item \<Rightarrow> bool" where
  "skipped_item i = (oi_status i = DONE \<or> (oi_who_acts i = MARCO \<and> oi_status i = IN_PROGRESS))"

definition item_action :: "outcome_item \<Rightarrow> outcome_action" where
  "item_action i = \<lparr>oa_action_class =
       (if oi_dispatch_work_id i \<noteq> None then READY_TO_DISPATCH
        else if oi_who_acts i = MARCO then NEEDS_MARCO else OWNER_CAN_DO),
     oa_item_key = oi_item_key i, oa_description = oi_description i,
     oa_dispatch_work_id = oi_dispatch_work_id i, oa_what_yes_causes = oi_what_yes_causes i\<rparr>"

fun class_order :: "action_class \<Rightarrow> int" where
  "class_order NEEDS_MARCO = 0"
| "class_order READY_TO_DISPATCH = 1"
| "class_order OWNER_CAN_DO = 2"

definition summary_of :: "outcome_revision \<Rightarrow> string \<Rightarrow> action_summary" where
  "summary_of row token =
     (let actions = sort_key (\<lambda>a. (class_order (oa_action_class a), oa_item_key a))
            (map item_action (filter (\<lambda>i. \<not> skipped_item i) (orv_items row)))
      in \<lparr>as_currentness = revision_currentness row token,
          as_open_action_count = int (length actions), as_actions = actions\<rparr>)"

definition outcome_load :: "(json \<Rightarrow> string) \<Rightarrow> uuid \<Rightarrow> outcome_db \<Rightarrow> outcome_revision list option" where
  "outcome_load H owner db = outcome_chain H (chain_rows orw_owner_work_id orw_generation owner (odb_rows db))"

datatype summary_read = No_summary | Unknown_summary | Summary action_summary

definition outcome_summary :: "(json \<Rightarrow> string) \<Rightarrow> uuid \<Rightarrow> string \<Rightarrow> outcome_db \<Rightarrow> summary_read" where
  "outcome_summary H owner token db =
     (case outcome_load H owner db of
        Some [] \<Rightarrow> No_summary
      | None \<Rightarrow> Unknown_summary
      | Some (r # rs) \<Rightarrow> Summary (summary_of (last (r # rs)) token))"

section \<open>Recording\<close>

datatype write_status = W_applied | W_replayed | W_stale | W_conflict | W_denied | W_unknown

record outcome_call =
  oc_owner_work_id :: uuid
  oc_active_work_id :: "uuid option"
  oc_operation_id :: uuid
  oc_expected_state_id :: "uuid option"
  oc_owner_currentness_token :: string
  oc_items :: "outcome_item list"

definition outcome_checks :: "outcome_row \<Rightarrow> bool" where
  "outcome_checks r =
     (1 \<le> orw_generation r \<and> orw_schema_version r = 1 \<and> orw_owner_currentness_token r \<noteq> []
      \<and> length (orw_content_digest r) = 64)"

definition outcome_row_conflict :: "outcome_row \<Rightarrow> outcome_row \<Rightarrow> bool" where
  "outcome_row_conflict r s =
     (orw_state_id s = orw_state_id r \<or> orw_operation_id s = orw_operation_id r
      \<or> orw_owner_work_id s = orw_owner_work_id r \<and> orw_generation s = orw_generation r)"

text \<open>\<open>INSERT ... ON CONFLICT DO NOTHING RETURNING\<close>.\<close>

definition insert_outcome :: "outcome_row \<Rightarrow> outcome_db \<Rightarrow> (outcome_row option \<times> outcome_db) py_result" where
  "insert_outcome r db =
     (if \<not> outcome_checks r then Inl IntegrityError
      else if \<exists>s \<in> set (odb_rows db). outcome_row_conflict r s then Inr (None, db)
      else if orw_owner_work_id r \<notin> set (odb_handles db)
              \<or> (case orw_predecessor_id r of None \<Rightarrow> False
                 | Some p \<Rightarrow> p \<notin> set (map orw_state_id (odb_rows db)))
      then Inl IntegrityError
      else Inr (Some r, db\<lparr>odb_rows := odb_rows db @ [r]\<rparr>))"

text \<open>The row with an operation identifier, and whether its digest still matches.\<close>

definition outcome_by_operation :: "uuid \<Rightarrow> outcome_db \<Rightarrow> outcome_row option py_result" where
  "outcome_by_operation operation db =
     one_or_none (filter (\<lambda>r. orw_operation_id r = operation) (odb_rows db))"

definition outcome_replay ::
  "(json \<Rightarrow> string) \<Rightarrow> string \<Rightarrow> uuid \<Rightarrow> outcome_row \<Rightarrow> (write_status \<times> uuid option) py_result" where
  "outcome_replay H digest owner v =
     bindE (outcome_row_of v) (\<lambda>row. bindE (revision_digest H row) (\<lambda>d.
       if orv_content_digest row \<noteq> d then Inr (W_unknown, Some (orv_state_id row))
       else if orv_owner_work_id row = owner
         then Inr (if orv_content_digest row = digest then W_replayed else W_conflict, Some (orv_state_id row))
       else Inr (W_conflict, Some (orv_state_id row))))"

definition outcome_collision ::
  "(json \<Rightarrow> string) \<Rightarrow> outcome_row option \<Rightarrow> (write_status \<times> uuid option) py_result" where
  "outcome_collision H collision =
     (case collision of
        None \<Rightarrow> Inr (W_unknown, None)
      | Some v \<Rightarrow> bindE (outcome_row_of v) (\<lambda>row. bindE (revision_digest H row) (\<lambda>d.
          if orv_content_digest row \<noteq> d then Inr (W_unknown, Some (orv_state_id row))
          else Inr (W_conflict, Some (orv_state_id row)))))"

definition outcome_new_row :: "uuid \<Rightarrow> string \<Rightarrow> outcome_revision list \<Rightarrow> outcome_call \<Rightarrow> outcome_row" where
  "outcome_new_row fresh digest chain c =
     \<lparr>orw_state_id = fresh, orw_operation_id = oc_operation_id c, orw_owner_work_id = oc_owner_work_id c,
      orw_generation = (if chain = [] then 1 else orv_generation (last chain) + 1),
      orw_predecessor_id = oc_expected_state_id c, orw_schema_version = 1, orw_items = oc_items c,
      orw_owner_currentness_token = oc_owner_currentness_token c, orw_content_digest = digest\<rparr>"

definition outcome_insert ::
  "(json \<Rightarrow> string) \<Rightarrow> string \<Rightarrow> outcome_row \<Rightarrow> outcome_db \<Rightarrow> (write_status \<times> uuid option) py_result \<times> outcome_db" where
  "outcome_insert H digest r db =
     (case insert_outcome r db of
        Inl e \<Rightarrow> (Inl e, db)
      | Inr (None, _) \<Rightarrow>
          (bindE (outcome_by_operation (orw_operation_id r) db) (outcome_collision H), db)
      | Inr (Some inserted, db') \<Rightarrow>
          (case outcome_row_of inserted of
             Inl e \<Rightarrow> (Inl e, db)
           | Inr row \<Rightarrow> if orv_content_digest row \<noteq> digest then (Inl ValueError, db)
                        else (Inr (W_applied, Some (orw_state_id r)), db')))"

text \<open>\<open>record\<close>: the reads see \<open>seen\<close>, the insert goes to \<open>db\<close>.\<close>

definition outcome_record ::
  "(json \<Rightarrow> string) \<Rightarrow> uuid \<Rightarrow> outcome_call \<Rightarrow> outcome_db \<Rightarrow> outcome_db
     \<Rightarrow> (write_status \<times> uuid option) py_result \<times> outcome_db" where
  "outcome_record H fresh c seen db =
     (if oc_active_work_id c \<noteq> Some (oc_owner_work_id c) then (Inr (W_denied, None), db)
      else if oc_owner_currentness_token c = [] then (Inl ValueError, db)
      else if \<exists>i \<in> set (oc_items c). oi_source_label i = MARCO_source then (Inr (W_denied, None), db)
      else case outcome_digest H (oc_owner_work_id c) (oc_expected_state_id c)
                  (oc_owner_currentness_token c) (oc_items c) of
        Inl e \<Rightarrow> (Inl e, db)
      | Inr digest \<Rightarrow>
          if oc_owner_work_id c \<notin> set (odb_handles seen) then (Inr (W_unknown, None), db)
          else (case outcome_load H (oc_owner_work_id c) seen of
            None \<Rightarrow> (Inr (W_unknown, None), db)
          | Some chain \<Rightarrow>
             (case outcome_by_operation (oc_operation_id c) seen of
                Inl e \<Rightarrow> (Inl e, db)
              | Inr (Some v) \<Rightarrow> (outcome_replay H digest (oc_owner_work_id c) v, db)
              | Inr None \<Rightarrow>
                  if oc_expected_state_id c \<noteq> tip orv_state_id chain
                  then (Inr (W_stale, tip orv_state_id chain), db)
                  else outcome_insert H digest (outcome_new_row fresh digest chain c) db)))"

section \<open>Histories\<close>

definition outcome_earlier :: "outcome_db \<Rightarrow> outcome_db \<Rightarrow> bool" where
  "outcome_earlier seen db =
     ((\<exists>more. odb_rows db = odb_rows seen @ more) \<and> set (odb_handles seen) \<subseteq> set (odb_handles db))"

text \<open>The tables that binding handles and recording outcomes can produce.\<close>

inductive outcome_reach :: "(json \<Rightarrow> string) \<Rightarrow> outcome_db \<Rightarrow> bool" for H where
  outcome_init: "outcome_reach H \<lparr>odb_rows = [], odb_handles = []\<rparr>"
| outcome_handle: "outcome_reach H db \<Longrightarrow> outcome_reach H (db\<lparr>odb_handles := w # odb_handles db\<rparr>)"
| outcome_append: "outcome_reach H seen \<Longrightarrow> outcome_reach H db \<Longrightarrow> outcome_earlier seen db \<Longrightarrow>
    list_all valid_outcome_item (oc_items c) \<Longrightarrow>
    outcome_record H fresh c seen db = (res, db') \<Longrightarrow> outcome_reach H db'"

interpretation outcomes: decoded_chain outcome_row_of "outcome_accept H" orv_state_id orv_generation
  orv_predecessor_id orw_state_id orw_generation orw_predecessor_id orw_owner_work_id for H
  by unfold_locales (auto simp: outcome_row_of_def outcome_accept_def split: if_splits)

abbreviation outcome_table :: "(json \<Rightarrow> string) \<Rightarrow> outcome_db \<Rightarrow> bool" where
  "outcome_table H db \<equiv> chained_table (accepted outcome_row_of (outcome_accept H))
     orw_state_id orw_owner_work_id (odb_rows db)"

lemmas outcome_load_unfold = outcome_load_def outcome_chain_def

definition outcome_inv :: "(json \<Rightarrow> string) \<Rightarrow> outcome_db \<Rightarrow> bool" where
  "outcome_inv H db =
     (outcome_table H db \<and> distinct (map orw_state_id (odb_rows db))
      \<and> distinct (map orw_operation_id (odb_rows db)))"

lemma outcome_invD:
  assumes "outcome_inv H db"
  shows "outcome_table H db" "\<exists>chain. outcome_load H w db = Some chain"
  using assms outcomes.table_loads [of H "odb_rows db" w]
  by (auto simp: outcome_inv_def outcome_load_unfold)

lemma outcome_replay_not_applied [simp]: "outcome_replay H d w v \<noteq> Inr (W_applied, i)"
  by (auto simp: outcome_replay_def bindE_eq_Inr split: if_splits)

lemma outcome_collision_not_applied [simp]: "outcome_collision H v \<noteq> Inr (W_applied, i)"
  by (auto simp: outcome_collision_def bindE_eq_Inr split: if_splits option.splits)

lemma outcome_insert_cases:
  assumes "outcome_insert H digest r db = (res, db')"
  obtains (kept) "db' = db" "\<And>i. res \<noteq> Inr (W_applied, i)"
    | (inserted) row where "db' = db\<lparr>odb_rows := odb_rows db @ [r]\<rparr>" "res = Inr (W_applied, Some (orw_state_id r))"
        "outcome_row_of r = Inr row" "\<forall>s \<in> set (odb_rows db). \<not> outcome_row_conflict r s"
proof (cases "insert_outcome r db")
  case (Inl e)
  with assms show thesis by (auto simp: outcome_insert_def intro: kept)
next
  case (Inr p)
  then obtain v d where ins: "insert_outcome r db = Inr (v, d)" by (cases p) auto
  show thesis
  proof (cases v)
    case None
    with ins assms have "db' = db" "res = bindE (outcome_by_operation (orw_operation_id r) db) (outcome_collision H)"
      by (auto simp: outcome_insert_def)
    then show thesis by (intro kept) (auto simp: bindE_eq_Inr)
  next
    case (Some x)
    with ins have x: "x = r" "d = db\<lparr>odb_rows := odb_rows db @ [r]\<rparr>" "\<forall>s \<in> set (odb_rows db). \<not> outcome_row_conflict r s"
      by (auto simp: insert_outcome_def split: if_splits)
    with ins Some assms show thesis
      by (auto simp: outcome_insert_def split: sum.splits if_splits intro: kept inserted)
  qed
qed

text \<open>An applied record passed every guard and inserted its row.\<close>

lemma outcome_record_cases:
  assumes "outcome_record H fresh c seen db = (res, db')"
  obtains (kept) "db' = db" "\<And>i. res \<noteq> Inr (W_applied, i)"
    | (inserted) digest chain row where "oc_active_work_id c = Some (oc_owner_work_id c)"
        "oc_owner_currentness_token c \<noteq> []" "\<forall>i \<in> set (oc_items c). oi_source_label i \<noteq> MARCO_source"
        "outcome_digest H (oc_owner_work_id c) (oc_expected_state_id c) (oc_owner_currentness_token c)
           (oc_items c) = Inr digest"
        "oc_owner_work_id c \<in> set (odb_handles seen)" "outcome_load H (oc_owner_work_id c) seen = Some chain"
        "oc_expected_state_id c = tip orv_state_id chain"
        "db' = db\<lparr>odb_rows := odb_rows db @ [outcome_new_row fresh digest chain c]\<rparr>"
        "res = Inr (W_applied, Some fresh)"
        "outcome_row_of (outcome_new_row fresh digest chain c) = Inr row"
        "\<forall>s \<in> set (odb_rows db). \<not> outcome_row_conflict (outcome_new_row fresh digest chain c) s"
proof -
  from assms consider
      (none) "db' = db" "\<And>i. res \<noteq> Inr (W_applied, i)"
    | (ins) digest chain where "oc_active_work_id c = Some (oc_owner_work_id c)"
        "oc_owner_currentness_token c \<noteq> []" "\<forall>i \<in> set (oc_items c). oi_source_label i \<noteq> MARCO_source"
        "outcome_digest H (oc_owner_work_id c) (oc_expected_state_id c) (oc_owner_currentness_token c)
           (oc_items c) = Inr digest"
        "oc_owner_work_id c \<in> set (odb_handles seen)" "outcome_load H (oc_owner_work_id c) seen = Some chain"
        "oc_expected_state_id c = tip orv_state_id chain"
        "outcome_insert H digest (outcome_new_row fresh digest chain c) db = (res, db')"
    by (auto simp: outcome_record_def split: if_split_asm sum.split_asm option.split_asm)
  then show thesis
  proof cases
    case none
    then show thesis by (rule kept)
  next
    case ins
    from ins(8) show thesis
    proof (cases rule: outcome_insert_cases)
      case kept
      then show thesis by (rule that(1))
    next
      case (inserted row)
      from inserted(2) have "res = Inr (W_applied, Some fresh)" by (simp add: outcome_new_row_def)
      then show thesis by (rule that(2) [OF ins(1-7) inserted(1) _ inserted(3,4)])
    qed
  qed
qed

lemma outcome_new_row_simps [simp]:
  "orw_state_id (outcome_new_row f d ch c) = f"
  "orw_operation_id (outcome_new_row f d ch c) = oc_operation_id c"
  "orw_owner_work_id (outcome_new_row f d ch c) = oc_owner_work_id c"
  by (simp_all add: outcome_new_row_def)

text \<open>What an applied record leaves behind.\<close>

lemma outcome_applied_load:
  assumes "outcome_inv H seen" and "outcome_inv H db" and "outcome_earlier seen db"
    and "outcome_record H fresh c seen db = (Inr (W_applied, i), db1)"
  obtains digest chain row where "i = Some fresh"
    "oc_active_work_id c = Some (oc_owner_work_id c)" "oc_owner_currentness_token c \<noteq> []"
    "\<forall>i \<in> set (oc_items c). oi_source_label i \<noteq> MARCO_source"
    "outcome_digest H (oc_owner_work_id c) (oc_expected_state_id c) (oc_owner_currentness_token c) (oc_items c) = Inr digest"
    "oc_owner_work_id c \<in> set (odb_handles db1)" "outcome_inv H db1"
    "outcome_load H (oc_owner_work_id c) db = Some chain"
    "outcome_load H (oc_owner_work_id c) db1 = Some (chain @ [row])"
    "oc_expected_state_id c = tip orv_state_id chain"
    "outcome_new_row fresh digest chain c \<in> set (odb_rows db1)"
    "outcome_row_of (outcome_new_row fresh digest chain c) = Inr row"
proof -
  from assms(4) show thesis
  proof (cases rule: outcome_record_cases)
    case kept
    then show thesis by blast
  next
    case (inserted digest chain row)
    let ?v = "outcome_new_row fresh digest chain c"
    have gen: "orw_generation ?v = int (length chain) + 1"
      using outcomes.last_generation [OF inserted(6) [unfolded outcome_load_unfold]]
      by (auto simp: outcome_new_row_def split: if_splits)
    have row: "orv_owner_work_id row = oc_owner_work_id c" "orv_predecessor_id row = tip orv_state_id chain"
      "orv_owner_currentness_token row = oc_owner_currentness_token c" "orv_items row = oc_items c"
      "orv_content_digest row = digest" "orv_generation row = orw_generation ?v"
      using inserted(7,10) by (auto simp: outcome_row_of_def outcome_new_row_def split: if_splits)
    then have acc: "outcome_accept H (int (length chain) + 1) (tip orv_state_id chain) row"
      using inserted(4,7) gen by (simp add: outcome_accept_def revision_digest_def)
    from assms(3) obtain more where more: "odb_rows db = odb_rows seen @ more"
      by (auto simp: outcome_earlier_def)
    have free: "\<forall>s \<in> set (odb_rows db). \<not> (orw_owner_work_id s = orw_owner_work_id ?v \<and> orw_generation s = orw_generation ?v)"
      "fresh \<notin> orw_state_id ` set (odb_rows db)" "oc_operation_id c \<notin> orw_operation_id ` set (odb_rows db)"
      using inserted(11) by (auto simp: outcome_row_conflict_def)
    have load: "outcomes.load H (orw_owner_work_id ?v) (odb_rows seen) = Some chain"
      using inserted(6) by (simp add: outcome_load_unfold)
    note app = outcomes.insert_applied [OF outcome_invD(1) [OF assms(1)] outcome_invD(1) [OF assms(2)] more
        load inserted(10) acc free(1)]
    have "outcome_inv H db1" using app(2) assms(2) free inserted(8) by (simp add: outcome_inv_def)
    moreover have "oc_owner_work_id c \<in> set (odb_handles db1)"
      using inserted(5,8) assms(3) by (auto simp: outcome_earlier_def)
    ultimately show thesis
      using that [of digest chain row] inserted app(1,3) by (simp add: outcome_load_unfold)
  qed
qed

lemma outcome_reach_inv: "outcome_reach H db \<Longrightarrow> outcome_inv H db"
proof (induction rule: outcome_reach.induct)
  case outcome_init
  then show ?case by (simp add: outcome_inv_def chained_table_def)
next
  case (outcome_handle db w)
  then show ?case by (simp add: outcome_inv_def)
next
  case (outcome_append seen db c fresh res db')
  from outcome_append.hyps(5) show ?case
  proof (cases rule: outcome_record_cases)
    case kept
    with outcome_append.IH(2) show ?thesis by simp
  next
    case (inserted digest chain row)
    show ?thesis
      by (rule outcome_applied_load [OF outcome_append.IH outcome_append.hyps(3)
            outcome_append.hyps(5) [unfolded inserted(9)]])
  qed
qed

lemma outcome_load_later:
  assumes "outcome_inv H db1" and "outcome_inv H db2" and "outcome_earlier db1 db2"
    and "outcome_load H w db1 = Some chain"
  shows "\<exists>more. outcome_load H w db2 = Some (chain @ more)"
  using assms outcomes.load_later [of H "odb_rows db1"]
  by (auto simp: outcome_inv_def outcome_earlier_def outcome_load_unfold)

lemma outcome_load_distinct:
  assumes "outcome_inv H db" and "outcome_load H w db = Some chain"
  shows "distinct (map orv_state_id chain)"
proof -
  let ?vs = "chain_rows orw_owner_work_id orw_generation w (odb_rows db)"
  have "mapE outcome_row_of ?vs = Inr chain"
    using assms(2) by (simp add: outcome_load_unfold outcomes.load_Some)
  then have "map orv_state_id chain = map orw_state_id ?vs"
    unfolding mapE_list by (induction rule: list_all2_induct) (auto dest: outcomes.decode_ident)
  moreover have "?vs = filter (\<lambda>r. orw_owner_work_id r = w) (odb_rows db)"
    by (rule outcomes.rows.chain_rows_filter [OF outcome_invD(1) [OF assms(1)]])
  moreover have "distinct (map orw_state_id (odb_rows db))" using assms(1) by (simp add: outcome_inv_def)
  ultimately show ?thesis by (simp add: distinct_map_filter)
qed

lemma outcome_by_operation_known:
  assumes "outcome_inv H db" and "v \<in> set (odb_rows db)"
  shows "outcome_by_operation (orw_operation_id v) db = Inr (Some v)"
  using assms one_or_none_unique_key [of orw_operation_id "odb_rows db" "orw_operation_id v"]
    find_distinct_key [of orw_operation_id "odb_rows db" v]
  by (simp add: outcome_by_operation_def outcome_inv_def)

text \<open>A repeated operation finds its own row.\<close>

lemma outcome_record_replay:
  assumes "outcome_inv H db" and "v \<in> set (odb_rows db)" and "outcome_row_of v = Inr row"
    and "v = outcome_new_row fresh digest chain c"
    and "outcome_digest H (oc_owner_work_id c) (oc_expected_state_id c) (oc_owner_currentness_token c) (oc_items c) = Inr digest"
    and "oc_active_work_id c = Some (oc_owner_work_id c)" "oc_owner_currentness_token c \<noteq> []"
    "\<forall>i \<in> set (oc_items c). oi_source_label i \<noteq> MARCO_source"
    "oc_owner_work_id c \<in> set (odb_handles db)"
  shows "outcome_record H fresh' c db db' = (Inr (W_replayed, Some fresh), db')"
proof -
  have op: "outcome_by_operation (oc_operation_id c) db = Inr (Some v)"
    using outcome_by_operation_known [OF assms(1,2)] assms(4) by simp
  from outcome_invD(2) [OF assms(1)] obtain ch where "outcome_load H (oc_owner_work_id c) db = Some ch" by blast
  moreover have "row = \<lparr>orv_state_id = fresh, orv_operation_id = oc_operation_id c,
      orv_owner_work_id = oc_owner_work_id c, orv_generation = orw_generation v,
      orv_predecessor_id = oc_expected_state_id c, orv_items = oc_items c,
      orv_owner_currentness_token = oc_owner_currentness_token c, orv_content_digest = digest\<rparr>"
    using assms(3,4) by (auto simp: outcome_row_of_def outcome_new_row_def split: if_splits)
  ultimately show ?thesis
    using assms op by (simp add: outcome_record_def outcome_replay_def revision_digest_def)
qed

text \<open>
  C33. An applied outcome record was made for the work the caller is active on and carries no item
  attributed to Marco; it appends exactly one snapshot to the owner's history. Whatever is
  recorded afterwards, repeating it returns the same snapshot identifier and changes nothing, and
  no other call that expects the same current snapshot of the owner is applied, even one that
  read the table before.
\<close>

theorem outcome_record_once:
  assumes "outcome_reach H seen" and "outcome_reach H db" and "outcome_earlier seen db"
    and "outcome_record H fresh c seen db = (Inr (W_applied, i), db1)"
    and "outcome_reach H db2" and "outcome_earlier db1 db2"
  shows "oc_active_work_id c = Some (oc_owner_work_id c)
     \<and> (\<forall>i \<in> set (oc_items c). oi_source_label i = AGENT_source)
     \<and> (\<exists>chain row. outcome_load H (oc_owner_work_id c) db = Some chain
          \<and> outcome_load H (oc_owner_work_id c) db1 = Some (chain @ [row]) \<and> i = Some (orv_state_id row)
          \<and> orv_items row = oc_items c)
     \<and> (\<forall>fresh' db3. outcome_record H fresh' c db2 db3 = (Inr (W_replayed, i), db3))
     \<and> (\<forall>seen' c' fresh' j db3. outcome_reach H seen' \<and> outcome_earlier seen' db2
          \<and> oc_owner_work_id c' = oc_owner_work_id c \<and> oc_expected_state_id c' = oc_expected_state_id c
          \<longrightarrow> outcome_record H fresh' c' seen' db2 \<noteq> (Inr (W_applied, j), db3))"
proof -
  have inv: "outcome_inv H seen" "outcome_inv H db" "outcome_inv H db2"
    using assms(1,2,5) by (simp_all add: outcome_reach_inv)
  obtain digest chain row where a: "i = Some fresh"
    "oc_active_work_id c = Some (oc_owner_work_id c)" "oc_owner_currentness_token c \<noteq> []"
    "\<forall>i \<in> set (oc_items c). oi_source_label i \<noteq> MARCO_source"
    "outcome_digest H (oc_owner_work_id c) (oc_expected_state_id c) (oc_owner_currentness_token c) (oc_items c) = Inr digest"
    "oc_owner_work_id c \<in> set (odb_handles db1)" "outcome_inv H db1"
    and load: "outcome_load H (oc_owner_work_id c) db = Some chain"
    "outcome_load H (oc_owner_work_id c) db1 = Some (chain @ [row])"
    and exp: "oc_expected_state_id c = tip orv_state_id chain"
    and v: "outcome_new_row fresh digest chain c \<in> set (odb_rows db1)"
    "outcome_row_of (outcome_new_row fresh digest chain c) = Inr row"
    by (rule outcome_applied_load [OF inv(1,2) assms(3,4)])
  have row: "orv_state_id row = fresh" "orv_items row = oc_items c"
    using v(2) by (auto simp: outcome_row_of_def outcome_new_row_def split: if_splits)
  have later: "outcome_new_row fresh digest chain c \<in> set (odb_rows db2)"
    "oc_owner_work_id c \<in> set (odb_handles db2)" using v(1) a(6) assms(6) by (auto simp: outcome_earlier_def)
  have replay: "outcome_record H fresh' c db2 db3 = (Inr (W_replayed, Some fresh), db3)" for fresh' db3
    by (rule outcome_record_replay [OF inv(3) later(1) v(2) refl a(5,2-4) later(2)])
  from outcome_load_later [OF a(7) inv(3) assms(6) load(2)] obtain more
    where load2: "outcome_load H (oc_owner_work_id c) db2 = Some ((chain @ [row]) @ more)" by blast
  have once: "outcome_record H fresh' c' seen' db2 \<noteq> (Inr (W_applied, j), db3)"
    if s: "outcome_reach H seen'" "outcome_earlier seen' db2" "oc_owner_work_id c' = oc_owner_work_id c"
      "oc_expected_state_id c' = oc_expected_state_id c" for seen' c' fresh' j db3
  proof
    assume "outcome_record H fresh' c' seen' db2 = (Inr (W_applied, j), db3)"
    then obtain ch where "outcome_load H (oc_owner_work_id c') db2 = Some ch"
        "oc_expected_state_id c' = tip orv_state_id ch"
      by (rule outcome_applied_load [OF outcome_reach_inv [OF s(1)] inv(3) s(2)])
    with load2 s(3,4) exp have "tip orv_state_id ((chain @ [row]) @ more) = tip orv_state_id chain"
      by simp
    moreover have "distinct (map orv_state_id ((chain @ [row]) @ more))"
      by (rule outcome_load_distinct [OF inv(3) load2])
    ultimately show False
      by (cases more rule: rev_cases; cases chain rule: rev_cases) (auto simp: tip_def split: if_splits)
  qed
  have "\<forall>i \<in> set (oc_items c). oi_source_label i = AGENT_source"
    using a(4) item_source.exhaust by blast
  moreover have "\<exists>chain row. outcome_load H (oc_owner_work_id c) db = Some chain
      \<and> outcome_load H (oc_owner_work_id c) db1 = Some (chain @ [row]) \<and> i = Some (orv_state_id row)
      \<and> orv_items row = oc_items c"
    by (rule exI [of _ chain], rule exI [of _ row]) (simp add: load row a(1))
  ultimately show ?thesis using a(1,2) replay once by simp
qed

section \<open>The projection of a stored snapshot\<close>

lemma outcome_load_items:
  assumes "outcome_load H w db = Some chain" and "row \<in> set chain"
  shows "\<forall>i \<in> set (orv_items row). valid_outcome_item i" "distinct (map oi_item_key (orv_items row))"
proof -
  let ?vs = "chain_rows orw_owner_work_id orw_generation w (odb_rows db)"
  have m: "list_all2 (\<lambda>v r. outcome_row_of v = Inr r) ?vs chain"
    using assms(1) by (simp add: outcome_load_unfold outcomes.load_Some mapE_list)
  then have "\<exists>v. outcome_row_of v = Inr row"
    using assms(2) by (induction rule: list_all2_induct) auto
  then obtain v where "outcome_row_of v = Inr row" by blast
  then show "\<forall>i \<in> set (orv_items row). valid_outcome_item i"
    by (auto simp: outcome_row_of_def split: if_splits)
  have l: "linked (outcome_accept H) orv_state_id 1 None chain"
    using outcomes.load_linked assms(1) by (simp add: outcome_load_unfold)
  have "\<exists>g p. outcome_accept H g p row" if "linked (outcome_accept H) orv_state_id g p chain" for g p
    using that assms(2) by (induction chain arbitrary: g p) auto
  with l obtain g p where "outcome_accept H g p row" by blast
  then obtain canonical where "outcome_canonical (orv_items row) = Inr canonical"
    by (auto simp: outcome_accept_def revision_digest_def outcome_digest_def bindE_eq_Inr)
  then have "card (set (map oi_item_key (orv_items row))) = length (orv_items row)"
    by (simp add: outcome_canonical_def split: if_split_asm)
  then show "distinct (map oi_item_key (orv_items row))"
    by (metis card_distinct length_map)
qed

abbreviation action_key :: "outcome_action \<Rightarrow> int \<times> string" where
  "action_key a \<equiv> (class_order (oa_action_class a), oa_item_key a)"

lemma sort_key_increasing:
  assumes "distinct (map f xs)"
  shows "sorted_wrt (\<lambda>x y. f x < f y) (sort_key f xs)"
proof -
  have "distinct (map f (sort_key f xs))"
    using assms by (simp add: distinct_map)
  moreover have "sorted (map f (sort_key f xs))" by simp
  ultimately have "sorted_wrt (<) (map f (sort_key f xs))"
    by (simp add: strict_sorted_iff)
  then show ?thesis by (simp add: sorted_wrt_map)
qed

lemma item_action_classes:
  assumes "valid_outcome_item i" and "\<not> skipped_item i"
  shows "oa_action_class (item_action i) = READY_TO_DISPATCH \<longleftrightarrow> oi_dispatch_work_id i \<noteq> None"
    and "oa_action_class (item_action i) = NEEDS_MARCO \<longleftrightarrow> oi_what_yes_causes i \<noteq> None"
    and "oa_action_class (item_action i) = OWNER_CAN_DO \<longleftrightarrow> oi_who_acts i = OWNER"
  using assms
  by (cases "oi_kind i"; cases "oi_status i"; cases "oi_who_acts i";
      auto simp: valid_outcome_item_def valid_action_shape_def skipped_item_def item_action_def)+

text \<open>What a summary of a snapshot says, in terms of its items.\<close>

definition projects :: "outcome_revision \<Rightarrow> string \<Rightarrow> action_summary \<Rightarrow> bool" where
  "projects row token s =
     (let todo = filter (\<lambda>i. oi_status i \<noteq> DONE \<and> \<not> (oi_who_acts i = MARCO \<and> oi_status i = IN_PROGRESS))
                   (orv_items row)
      in (as_currentness s = Current_basis \<longleftrightarrow> orv_owner_currentness_token row = token)
         \<and> set (as_actions s) = item_action ` set todo
         \<and> as_open_action_count s = int (length todo)
         \<and> sorted_wrt (\<lambda>a b. action_key a < action_key b) (as_actions s)
         \<and> (\<forall>i \<in> set todo.
              (oa_action_class (item_action i) = READY_TO_DISPATCH \<longleftrightarrow> oi_dispatch_work_id i \<noteq> None)
              \<and> (oa_action_class (item_action i) = NEEDS_MARCO \<longleftrightarrow> oi_what_yes_causes i \<noteq> None)
              \<and> (oa_action_class (item_action i) = OWNER_CAN_DO \<longleftrightarrow> oi_who_acts i = OWNER)))"

lemma summary_of_projects:
  assumes "\<forall>i \<in> set (orv_items row). valid_outcome_item i" and "distinct (map oi_item_key (orv_items row))"
  shows "projects row token (summary_of row token)"
proof -
  define todo where "todo = filter (\<lambda>i. \<not> skipped_item i) (orv_items row)"
  have todo: "filter (\<lambda>i. oi_status i \<noteq> DONE \<and> \<not> (oi_who_acts i = MARCO \<and> oi_status i = IN_PROGRESS))
        (orv_items row) = todo"
    unfolding todo_def by (rule filter_cong [OF refl]) (auto simp: skipped_item_def)
  from assms(2) have "distinct (map oi_item_key todo)" by (simp add: todo_def distinct_map_filter)
  then have "distinct (map action_key (map item_action todo))"
    by (auto simp: distinct_map inj_on_def item_action_def)
  then have sorted: "sorted_wrt (\<lambda>a b. action_key a < action_key b) (sort_key action_key (map item_action todo))"
    by (rule sort_key_increasing)
  have "as_actions (summary_of row token) = sort_key action_key (map item_action todo)"
    "as_open_action_count (summary_of row token) = int (length todo)"
    by (simp_all add: summary_of_def Let_def todo_def)
  then show ?thesis
    unfolding projects_def todo Let_def
    using sorted assms(1) item_action_classes
    by (simp add: summary_of_def revision_currentness_def Let_def todo_def)
qed

text \<open>
  C34. The summary of an owner is the projection of the newest validated snapshot: it has one
  action for each item that is not done and not already in Marco's hands, in strictly increasing
  order of class (Marco's decisions, then dispatches, then the owner's own work) and item key;
  an action is a dispatch exactly if it names a work to dispatch, needs Marco exactly if it
  states what a yes causes, and is left to the owner exactly if the item is the owner's.
\<close>

theorem outcome_summary_actions:
  assumes "outcome_reach H db"
  shows "\<exists>chain. outcome_load H w db = Some chain
     \<and> (if chain = [] then outcome_summary H w token db = No_summary
        else \<exists>s. outcome_summary H w token db = Summary s \<and> projects (last chain) token s)"
proof -
  from outcome_invD(2) [OF outcome_reach_inv [OF assms]] obtain chain
    where chain: "outcome_load H w db = Some chain" by blast
  show ?thesis
  proof (cases chain rule: rev_cases)
    case Nil
    with chain show ?thesis by (simp add: outcome_summary_def)
  next
    case (snoc rs row)
    then have "projects row token (summary_of row token)"
      by (intro summary_of_projects outcome_load_items [OF chain]) simp_all
    moreover have "outcome_summary H w token db = Summary (summary_of row token)"
      using chain snoc by (cases rs) (simp_all add: outcome_summary_def)
    ultimately show ?thesis using chain snoc by simp
  qed
qed

definition flat_digest :: "json \<Rightarrow> string" where
  "flat_digest j = replicate 64 (CHR ''a'')"

definition demo_items :: "outcome_item list" where
  "demo_items =
     [\<lparr>oi_item_key = ''b'', oi_description = ''code'', oi_kind = DELIVERABLE, oi_status = IN_PROGRESS,
       oi_who_acts = OWNER, oi_dispatch_work_id = None, oi_what_yes_causes = None,
       oi_source_label = AGENT_source, oi_source_ref = None\<rparr>,
      \<lparr>oi_item_key = ''a'', oi_description = ''ask'', oi_kind = DECISION, oi_status = READY,
       oi_who_acts = MARCO, oi_dispatch_work_id = None, oi_what_yes_causes = Some ''ship'',
       oi_source_label = AGENT_source, oi_source_ref = None\<rparr>]"

definition demo_outcome_call :: outcome_call where
  "demo_outcome_call = \<lparr>oc_owner_work_id = 1, oc_active_work_id = Some 1, oc_operation_id = 2,
     oc_expected_state_id = None, oc_owner_currentness_token = ''t'', oc_items = demo_items\<rparr>"

definition demo_outcome_db :: outcome_db where
  "demo_outcome_db = \<lparr>odb_rows = [], odb_handles = [1]\<rparr>"

definition demo_outcome_run :: "(write_status \<times> uuid option) py_result \<times> outcome_db" where
  "demo_outcome_run = outcome_record flat_digest 3 demo_outcome_call demo_outcome_db demo_outcome_db"

lemma outcome_earlier_refl: "outcome_earlier db db"
  by (simp add: outcome_earlier_def)

lemma demo_outcome_reach: "outcome_reach flat_digest demo_outcome_db"
  using outcome_handle [OF outcome_init, of flat_digest 1] by (simp add: demo_outcome_db_def)

lemma demo_outcome_valid: "list_all valid_outcome_item (oc_items demo_outcome_call)"
  by code_simp

lemma demo_outcome_digest:
  "outcome_digest flat_digest w p t demo_items = Inr (replicate 64 (CHR ''a''))"
  by (simp add: outcome_digest_def outcome_canonical_def flat_digest_def demo_items_def)

lemma demo_outcome_applied: "fst demo_outcome_run = Inr (W_applied, Some 3)"
proof -
  have "outcome_load flat_digest 1 demo_outcome_db = Some []"
    by (simp add: outcome_load_unfold demo_outcome_db_def chain_rows_def validated_chain_def)
  moreover have "outcome_row_of (outcome_new_row 3 (replicate 64 (CHR ''a'')) [] demo_outcome_call)
      = Inr \<lparr>orv_state_id = 3, orv_operation_id = 2, orv_owner_work_id = 1, orv_generation = 1,
          orv_predecessor_id = None, orv_items = demo_items, orv_owner_currentness_token = ''t'',
          orv_content_digest = replicate 64 (CHR ''a'')\<rparr>"
    using demo_outcome_valid
    by (simp add: outcome_row_of_def outcome_new_row_def demo_outcome_call_def list_all_iff)
  moreover have "insert_outcome (outcome_new_row 3 (replicate 64 (CHR ''a'')) [] demo_outcome_call) demo_outcome_db
      = Inr (Some (outcome_new_row 3 (replicate 64 (CHR ''a'')) [] demo_outcome_call),
          demo_outcome_db\<lparr>odb_rows := [outcome_new_row 3 (replicate 64 (CHR ''a'')) [] demo_outcome_call]\<rparr>)"
    by (simp add: insert_outcome_def outcome_checks_def demo_outcome_db_def outcome_new_row_def demo_outcome_call_def)
  moreover have "\<forall>i \<in> set demo_items. oi_source_label i \<noteq> MARCO_source"
    by (simp add: demo_items_def)
  ultimately show ?thesis
    by (simp add: demo_outcome_run_def outcome_record_def outcome_insert_def demo_outcome_digest
        outcome_by_operation_def demo_outcome_call_def demo_outcome_db_def outcome_new_row_def)
qed

lemma demo_outcome_after: "outcome_reach flat_digest (snd demo_outcome_run)"
  by (rule outcome_append [OF demo_outcome_reach demo_outcome_reach outcome_earlier_refl demo_outcome_valid,
        of 3 "fst demo_outcome_run"]) (simp add: demo_outcome_run_def)

theorem outcome_record_once_witness:
  "outcome_record flat_digest 9 demo_outcome_call (snd demo_outcome_run) demo_outcome_db
     = (Inr (W_replayed, Some 3), demo_outcome_db)"
proof -
  have "outcome_record flat_digest 3 demo_outcome_call demo_outcome_db demo_outcome_db
      = (Inr (W_applied, Some 3), snd demo_outcome_run)"
    using demo_outcome_applied by (simp add: demo_outcome_run_def prod_eq_iff)
  from outcome_record_once [OF demo_outcome_reach demo_outcome_reach outcome_earlier_refl this
      demo_outcome_after outcome_earlier_refl]
  show ?thesis by simp
qed

theorem outcome_summary_actions_witness:
  "\<exists>chain. outcome_load flat_digest 1 (snd demo_outcome_run) = Some chain
     \<and> (if chain = [] then outcome_summary flat_digest 1 ''t'' (snd demo_outcome_run) = No_summary
        else \<exists>s. outcome_summary flat_digest 1 ''t'' (snd demo_outcome_run) = Summary s
          \<and> projects (last chain) ''t'' s)"
  by (rule outcome_summary_actions [OF demo_outcome_after])

end
