(* ===== verification/Activation_Continuity.thy ===== *)
theory Activation_Continuity
  imports Grants
begin

text \<open>
  Activation acceptance and adoption (\<open>src/switchstand/activation_continuity.py\<close>): the installed
  contracts, transition intents and proofs with their validators, the obligation record, its
  seal, and the transition function. Two functions of the standard library are parameters, held
  in \<open>activation_env\<close>: the SHA-256 of canonical JSON and \<open>uuid5\<close> of the contract identity.
  States are kept as the strings the code stores, since a cleared blocker restores the stored
  name of the earlier phase.
\<close>

section \<open>Contracts, intents and proofs\<close>

record activation_env =
  ae_sha256 :: "json \<Rightarrow> string"
  ae_uuid5 :: "json \<Rightarrow> uuid"

datatype activation_transition =
    ACTIVATED | ACKNOWLEDGED | BLOCK | CLEAR_BLOCKER | ACCEPTANCE_PASS | ACCEPTANCE_FAIL
  | ACCEPTANCE_UNKNOWN | ADOPTION_ADOPTED | FINALIZE_DELIVERY | DEFER | RETIRE

datatype proof_kind = Acceptance_proof | Adoption_proof | Clearing_proof

datatype proof_currentness = Proof_current | Proof_stale | Proof_unknown

record activation_contract =
  act_product_work_id :: uuid
  act_outcome_key :: string
  act_target_revision :: string
  act_target_phase :: string
  act_return_owner_work_id :: uuid
  act_acceptance_contract_id :: string
  act_contract_revision :: string
  act_acceptance_verifier_work_id :: "uuid option"
  act_adoption_required :: bool
  act_adoption_actor_work_id :: "uuid option"
  act_lifecycle_authority_work_id :: uuid

definition text_between :: "nat \<Rightarrow> nat \<Rightarrow> string \<Rightarrow> bool" where
  "text_between lo hi s = (lo \<le> length s \<and> length s \<le> hi)"

definition opt_between :: "nat \<Rightarrow> nat \<Rightarrow> string option \<Rightarrow> bool" where
  "opt_between lo hi v = (case v of None \<Rightarrow> True | Some s \<Rightarrow> text_between lo hi s)"

definition valid_activation_contract :: "activation_contract \<Rightarrow> bool" where
  "valid_activation_contract c =
     (text_between 1 120 (act_outcome_key c) \<and> text_between 1 512 (act_target_revision c)
      \<and> text_between 1 120 (act_target_phase c) \<and> text_between 1 240 (act_acceptance_contract_id c)
      \<and> text_between 1 240 (act_contract_revision c)
      \<and> act_adoption_required c = (act_adoption_actor_work_id c \<noteq> None))"

definition contract_obligation_id :: "activation_env \<Rightarrow> activation_contract \<Rightarrow> uuid" where
  "contract_obligation_id E c = ae_uuid5 E (JList [json_uuid (act_product_work_id c), JStr (act_outcome_key c),
     JStr (act_target_revision c), JStr (act_target_phase c)])"

definition contract_stored :: "activation_env \<Rightarrow> activation_contract \<Rightarrow> json" where
  "contract_stored E c = JObj [(''obligation_id'', json_uuid (contract_obligation_id E c)),
     (''product_work_id'', json_uuid (act_product_work_id c)), (''outcome_key'', JStr (act_outcome_key c)),
     (''target_revision'', JStr (act_target_revision c)), (''target_phase'', JStr (act_target_phase c)),
     (''return_owner_work_id'', json_uuid (act_return_owner_work_id c)),
     (''acceptance_contract_id'', JStr (act_acceptance_contract_id c)),
     (''contract_revision'', JStr (act_contract_revision c)),
     (''acceptance_verifier_work_id'', json_opt (\<lambda>u. json_uuid u) (act_acceptance_verifier_work_id c)),
     (''adoption_requirement'', JStr (if act_adoption_required c then ''REQUIRED'' else ''NOT_REQUIRED'')),
     (''adoption_actor_work_id'', json_opt (\<lambda>u. json_uuid u) (act_adoption_actor_work_id c)),
     (''lifecycle_authority_work_id'', json_uuid (act_lifecycle_authority_work_id c))]"

definition unique_refs :: "string list \<Rightarrow> bool" where
  "unique_refs refs = (distinct refs \<and> (\<forall>v \<in> set refs. v \<noteq> [] \<and> length v \<le> 1000))"

record transition_intent =
  ti_operation_id :: uuid
  ti_obligation_id :: uuid
  ti_observed_revision :: string
  ti_transition :: activation_transition
  ti_evidence_refs :: "string list"
  ti_blocker_ref :: "string option"
  ti_clearing_event_ref :: "string option"

definition valid_intent :: "transition_intent \<Rightarrow> bool" where
  "valid_intent i =
     (text_between 1 64 (ti_observed_revision i) \<and> length (ti_evidence_refs i) \<le> 16
      \<and> opt_between 1 1000 (ti_blocker_ref i) \<and> opt_between 1 1000 (ti_clearing_event_ref i)
      \<and> unique_refs (ti_evidence_refs i))"

text \<open>The fields of \<open>product_currentness.ProductCurrentness\<close> a transition reads.\<close>

record product_reading =
  pc_ok :: bool
  pc_product_work_id :: uuid
  pc_current_true :: bool
  pc_reconciliation_id :: uuid
  pc_blockers :: "string list"

record technical_basis =
  tb_target_revision :: string
  tb_target_phase :: string
  tb_current :: bool
  tb_result :: product_reading

record runtime_binding =
  rb_actor_work_id :: uuid
  rb_binding_token :: string
  rb_currentness :: proof_currentness

record transition_proof =
  tp_kind :: proof_kind
  tp_obligation_id :: uuid
  tp_product_work_id :: uuid
  tp_target_revision :: string
  tp_target_phase :: string
  tp_acceptance_contract_id :: string
  tp_contract_revision :: string
  tp_currentness :: proof_currentness
  tp_evidence_refs :: "string list"
  tp_clearing_event_ref :: "string option"

definition valid_transition_proof :: "transition_proof \<Rightarrow> bool" where
  "valid_transition_proof p =
     (text_between 1 512 (tp_target_revision p) \<and> text_between 1 120 (tp_target_phase p)
      \<and> text_between 1 240 (tp_acceptance_contract_id p) \<and> text_between 1 240 (tp_contract_revision p)
      \<and> 1 \<le> length (tp_evidence_refs p) \<and> length (tp_evidence_refs p) \<le> 16
      \<and> opt_between 1 1000 (tp_clearing_event_ref p) \<and> unique_refs (tp_evidence_refs p)
      \<and> (tp_kind p = Clearing_proof) = (tp_clearing_event_ref p \<noteq> None))"

section \<open>Obligations\<close>

datatype acceptance_result = NOT_RUN | PASS | FAIL | UNKNOWN_acceptance

datatype adoption_result = NOT_REQUIRED | PENDING | ADOPTED | REJECTED | UNKNOWN_adoption

record activation_obligation =
  ao_binding :: json
  ao_state :: string
  ao_acceptance :: acceptance_result
  ao_adoption :: adoption_result
  ao_blocker_ref :: "string option"
  ao_blocker_phase :: "string option"
  ao_clearing_event_ref :: "string option"
  ao_acceptance_proof :: "string list"
  ao_adoption_proof :: "string list"
  ao_actor_ref :: string
  ao_runtime_binding_token :: string
  ao_technical_basis_ref :: "string option"
  ao_generation :: int
  ao_predecessor :: "string option"
  ao_operation_id :: uuid
  ao_intent_digest :: string
  ao_digest :: string

definition obligation_states :: "string set" where
  "obligation_states = {''WAITING_ACTIVATION'', ''VERIFY_NOW'', ''VERIFYING'', ''BLOCKED'', ''ACCEPTED'',
     ''DELIVERED'', ''DEFERRED'', ''RETIRED''}"

definition obligation_terminal :: "string set" where
  "obligation_terminal = {''DELIVERED'', ''DEFERRED'', ''RETIRED''}"

definition obligation_coherent :: "activation_obligation \<Rightarrow> bool" where
  "obligation_coherent v =
     ((ao_state v = ''BLOCKED'')
        = (ao_blocker_ref v \<noteq> None \<and> ao_blocker_phase v \<noteq> None \<and> ao_clearing_event_ref v \<noteq> None)
      \<and> (ao_state v \<in> {''ACCEPTED'', ''DELIVERED''} \<longrightarrow> ao_acceptance v = PASS)
      \<and> (ao_state v = ''DELIVERED'' \<longrightarrow> ao_adoption v \<in> {ADOPTED, NOT_REQUIRED})
      \<and> (ao_generation v = 1) = (ao_predecessor v = None))"

text \<open>\<open>Obligation.model_validate\<close>.\<close>

definition valid_activation_obligation :: "activation_obligation \<Rightarrow> bool" where
  "valid_activation_obligation v =
     (ao_state v \<in> obligation_states \<and> 1 \<le> ao_generation v \<and> lower_hex 64 (ao_intent_digest v)
      \<and> lower_hex 64 (ao_digest v) \<and> obligation_coherent v)"

datatype continuity_status =
    C_applied | C_replayed | C_current | C_stale | C_conflict | C_denied | C_missing | C_unknown

record continuity_result =
  cr_status :: continuity_status
  cr_obligation :: "activation_obligation option"
  cr_reason :: "string option"

fun acceptance_value :: "acceptance_result \<Rightarrow> string" where
  "acceptance_value NOT_RUN = ''NOT_RUN''"
| "acceptance_value PASS = ''PASS''"
| "acceptance_value FAIL = ''FAIL''"
| "acceptance_value UNKNOWN_acceptance = ''UNKNOWN''"

fun adoption_value :: "adoption_result \<Rightarrow> string" where
  "adoption_value NOT_REQUIRED = ''NOT_REQUIRED''"
| "adoption_value PENDING = ''PENDING''"
| "adoption_value ADOPTED = ''ADOPTED''"
| "adoption_value REJECTED = ''REJECTED''"
| "adoption_value UNKNOWN_adoption = ''UNKNOWN''"

text \<open>\<open>value.model_dump(mode='json', exclude={'digest'})\<close>.\<close>

definition obligation_payload :: "activation_obligation \<Rightarrow> json" where
  "obligation_payload v = JObj [(''binding'', ao_binding v), (''state'', JStr (ao_state v)),
     (''acceptance'', JStr (acceptance_value (ao_acceptance v))),
     (''adoption'', JStr (adoption_value (ao_adoption v))),
     (''blocker_ref'', json_opt JStr (ao_blocker_ref v)), (''blocker_phase'', json_opt JStr (ao_blocker_phase v)),
     (''clearing_event_ref'', json_opt JStr (ao_clearing_event_ref v)),
     (''acceptance_proof'', JList (map JStr (ao_acceptance_proof v))),
     (''adoption_proof'', JList (map JStr (ao_adoption_proof v))), (''actor_ref'', JStr (ao_actor_ref v)),
     (''runtime_binding_token'', JStr (ao_runtime_binding_token v)),
     (''technical_basis_ref'', json_opt JStr (ao_technical_basis_ref v)),
     (''generation'', JInt (ao_generation v)), (''predecessor'', json_opt JStr (ao_predecessor v)),
     (''operation_id'', json_uuid (ao_operation_id v)), (''intent_digest'', JStr (ao_intent_digest v))]"

definition seal_obligation :: "activation_env \<Rightarrow> activation_obligation \<Rightarrow> activation_obligation" where
  "seal_obligation E v = v\<lparr>ao_digest := ae_sha256 E (obligation_payload v)\<rparr>"

fun proof_currentness_value :: "proof_currentness \<Rightarrow> string" where
  "proof_currentness_value Proof_current = ''CURRENT''"
| "proof_currentness_value Proof_stale = ''STALE''"
| "proof_currentness_value Proof_unknown = ''UNKNOWN''"

fun transition_value :: "activation_transition \<Rightarrow> string" where
  "transition_value ACTIVATED = ''ACTIVATED''"
| "transition_value ACKNOWLEDGED = ''ACKNOWLEDGED''"
| "transition_value BLOCK = ''BLOCK''"
| "transition_value CLEAR_BLOCKER = ''CLEAR_BLOCKER''"
| "transition_value ACCEPTANCE_PASS = ''ACCEPTANCE_PASS''"
| "transition_value ACCEPTANCE_FAIL = ''ACCEPTANCE_FAIL''"
| "transition_value ACCEPTANCE_UNKNOWN = ''ACCEPTANCE_UNKNOWN''"
| "transition_value ADOPTION_ADOPTED = ''ADOPTION_ADOPTED''"
| "transition_value FINALIZE_DELIVERY = ''FINALIZE_DELIVERY''"
| "transition_value DEFER = ''DEFER''"
| "transition_value RETIRE = ''RETIRE''"

text \<open>\<open>actor_ref\<close> and \<open>intent_digest\<close>; \<open>principal.key\<close> is an argument.\<close>

definition actor_ref :: "activation_env \<Rightarrow> string \<Rightarrow> work_grant \<Rightarrow> runtime_binding \<Rightarrow> string" where
  "actor_ref E principal_key g rt = ae_sha256 E (JObj [(''principal'', JStr principal_key),
     (''grant'', json_uuid (wg_id g)), (''version'', JInt (wg_version g)),
     (''runtime'', JObj [(''actor_work_id'', json_uuid (rb_actor_work_id rt)),
        (''binding_token'', JStr (rb_binding_token rt)),
        (''currentness'', JStr (proof_currentness_value (rb_currentness rt)))])])"

definition intent_json :: "transition_intent \<Rightarrow> json" where
  "intent_json i = JObj [(''operation_id'', json_uuid (ti_operation_id i)),
     (''obligation_id'', json_uuid (ti_obligation_id i)),
     (''observed_revision'', JStr (ti_observed_revision i)),
     (''transition'', JStr (transition_value (ti_transition i))),
     (''evidence_refs'', JList (map JStr (ti_evidence_refs i))),
     (''blocker_ref'', json_opt JStr (ti_blocker_ref i)),
     (''clearing_event_ref'', json_opt JStr (ti_clearing_event_ref i))]"

definition intent_digest :: "activation_env \<Rightarrow> transition_intent \<Rightarrow> string \<Rightarrow> string" where
  "intent_digest E i actor = ae_sha256 E (JObj [(''intent'', intent_json i), (''actor_ref'', JStr actor)])"

section \<open>Transitions\<close>

definition technical_true :: "activation_contract \<Rightarrow> technical_basis option \<Rightarrow> bool" where
  "technical_true c basis =
     (case basis of
        None \<Rightarrow> False
      | Some b \<Rightarrow> tb_target_revision b = act_target_revision c \<and> tb_target_phase b = act_target_phase c
          \<and> tb_current b \<and> pc_product_work_id (tb_result b) = act_product_work_id c
          \<and> pc_ok (tb_result b) \<and> pc_current_true (tb_result b) \<and> pc_blockers (tb_result b) = [])"

definition technical_ref :: "technical_basis option \<Rightarrow> string option" where
  "technical_ref basis = map_option (\<lambda>b. uuid_str (pc_reconciliation_id (tb_result b))) basis"

definition proof_matches ::
  "activation_env \<Rightarrow> activation_contract \<Rightarrow> transition_intent \<Rightarrow> transition_proof option \<Rightarrow> proof_kind \<Rightarrow> bool" where
  "proof_matches E c i pf kind =
     (case pf of
        None \<Rightarrow> False
      | Some p \<Rightarrow> tp_kind p = kind \<and> tp_currentness p = Proof_current
          \<and> tp_obligation_id p = contract_obligation_id E c
          \<and> tp_product_work_id p = act_product_work_id c
          \<and> tp_target_revision p = act_target_revision c \<and> tp_target_phase p = act_target_phase c
          \<and> tp_acceptance_contract_id p = act_acceptance_contract_id c
          \<and> tp_contract_revision p = act_contract_revision c
          \<and> tp_clearing_event_ref p = ti_clearing_event_ref i)"

text \<open>\<open>transition.startswith('ACCEPTANCE_')\<close> with the result \<open>removeprefix\<close> leaves.\<close>

fun acceptance_of :: "activation_transition \<Rightarrow> acceptance_result option" where
  "acceptance_of ACCEPTANCE_PASS = Some PASS"
| "acceptance_of ACCEPTANCE_FAIL = Some FAIL"
| "acceptance_of ACCEPTANCE_UNKNOWN = Some UNKNOWN_acceptance"
| "acceptance_of _ = None"

definition authorized :: "activation_contract \<Rightarrow> uuid \<Rightarrow> activation_transition \<Rightarrow> bool" where
  "authorized c actor t =
     (if t = ACTIVATED then actor = act_product_work_id c
      else if t = ACKNOWLEDGED then actor = act_return_owner_work_id c
      else if acceptance_of t \<noteq> None
        then Some actor \<in> {Some (act_return_owner_work_id c), act_acceptance_verifier_work_id c}
      else if t = ADOPTION_ADOPTED then Some actor = act_adoption_actor_work_id c
      else if t \<in> {DEFER, RETIRE} then actor = act_lifecycle_authority_work_id c
      else Some actor \<in> {Some (act_return_owner_work_id c), act_acceptance_verifier_work_id c,
                         Some (act_product_work_id c)})"

definition next_action :: "activation_obligation \<Rightarrow> string option" where
  "next_action v =
     (if ao_state v = ''VERIFYING''
      then Some (if ao_acceptance v = NOT_RUN then ''VERIFY_NOW'' else ''REMEDIATE_REVERIFY'')
      else if ao_state v = ''WAITING_ACTIVATION'' then Some ''WAIT_ACTIVATION_CONDITION''
      else if ao_state v = ''VERIFY_NOW'' then Some ''VERIFY_NOW''
      else if ao_state v = ''BLOCKED'' then Some ''WAIT_CLEARING_EVENT''
      else if ao_state v = ''ACCEPTED''
        then Some (if ao_adoption v = PENDING then ''COMPLETE_ADOPTION'' else ''FINALIZE_DELIVERY'')
      else None)"

abbreviation no_obligation :: "continuity_status \<Rightarrow> string \<Rightarrow> continuity_result" where
  "no_obligation s r \<equiv> \<lparr>cr_status = s, cr_obligation = None, cr_reason = Some r\<rparr>"

definition zero_digest :: string where
  "zero_digest = replicate 64 (CHR ''0'')"

definition open_obligation ::
  "activation_env \<Rightarrow> activation_contract \<Rightarrow> transition_intent \<Rightarrow> string \<Rightarrow> string \<Rightarrow> technical_basis option
     \<Rightarrow> continuity_result py_result" where
  "open_obligation E c i actor token technical =
     (if ti_transition i \<noteq> ACTIVATED \<or> ti_observed_revision i \<noteq> ''MISSING''
      then Inr (no_obligation C_missing ''obligation_missing'')
      else if \<not> technical_true c technical then Inr (no_obligation C_denied ''activation_unproved'')
      else let v = \<lparr>ao_binding = contract_stored E c, ao_state = ''VERIFY_NOW'', ao_acceptance = NOT_RUN,
                 ao_adoption = (if act_adoption_required c then PENDING else NOT_REQUIRED),
                 ao_blocker_ref = None, ao_blocker_phase = None, ao_clearing_event_ref = None,
                 ao_acceptance_proof = [], ao_adoption_proof = [], ao_actor_ref = actor,
                 ao_runtime_binding_token = token, ao_technical_basis_ref = technical_ref technical,
                 ao_generation = 1, ao_predecessor = None, ao_operation_id = ti_operation_id i,
                 ao_intent_digest = intent_digest E i actor, ao_digest = zero_digest\<rparr>
           in if \<not> valid_activation_obligation v then Inl ValidationError
              else Inr \<lparr>cr_status = C_applied, cr_obligation = Some (seal_obligation E v), cr_reason = None\<rparr>)"

text \<open>
  The branches of \<open>advance_obligation\<close> that compute \<open>changes\<close>: \<open>Inl\<close> the reason of a denial, or
  the obligation with the changes applied. A validated blocked obligation carries its phase, so
  the restored state is defined wherever the function is called.
\<close>

definition nonempty_ref :: "string option \<Rightarrow> bool" where
  "nonempty_ref r = (r \<noteq> None \<and> r \<noteq> Some [])"

definition clear_blockers :: "activation_obligation \<Rightarrow> activation_obligation" where
  "clear_blockers v = v\<lparr>ao_blocker_ref := None, ao_blocker_phase := None, ao_clearing_event_ref := None\<rparr>"

definition obligation_changes ::
  "activation_env \<Rightarrow> activation_contract \<Rightarrow> activation_obligation \<Rightarrow> transition_intent \<Rightarrow> technical_basis option
     \<Rightarrow> transition_proof option \<Rightarrow> string + activation_obligation" where
  "obligation_changes E c cur i technical pf =
     (let state = ao_state cur; t = ti_transition i in
      if state = ''BLOCKED'' \<and> t \<notin> {CLEAR_BLOCKER, DEFER, RETIRE} then Inl ''transition_not_applicable''
      else if t = ACTIVATED \<and> state = ''WAITING_ACTIVATION'' then
        (if \<not> technical_true c technical then Inl ''activation_unproved''
         else Inr (cur\<lparr>ao_state := ''VERIFY_NOW'', ao_technical_basis_ref := technical_ref technical\<rparr>))
      else if t = ACKNOWLEDGED \<and> state = ''VERIFY_NOW'' then Inr (cur\<lparr>ao_state := ''VERIFYING''\<rparr>)
      else if t = BLOCK \<and> nonempty_ref (ti_blocker_ref i) \<and> nonempty_ref (ti_clearing_event_ref i) then
        Inr (cur\<lparr>ao_state := ''BLOCKED'', ao_blocker_ref := ti_blocker_ref i,
                 ao_blocker_phase := Some state, ao_clearing_event_ref := ti_clearing_event_ref i\<rparr>)
      else if t = CLEAR_BLOCKER \<and> state = ''BLOCKED'' then
        (if ti_clearing_event_ref i \<noteq> ao_clearing_event_ref cur \<or> \<not> proof_matches E c i pf Clearing_proof
         then Inl ''clearing_proof_invalid''
         else Inr (clear_blockers (cur\<lparr>ao_state := the (ao_blocker_phase cur)\<rparr>)))
      else if acceptance_of t \<noteq> None \<and> state \<in> {''VERIFY_NOW'', ''VERIFYING'', ''ACCEPTED''} then
        (if \<not> proof_matches E c i pf Acceptance_proof then Inl ''proof_invalid''
         else Inr (cur\<lparr>ao_acceptance := the (acceptance_of t), ao_acceptance_proof := tp_evidence_refs (the pf),
                 ao_state := (if acceptance_of t = Some PASS then ''ACCEPTED'' else ''VERIFYING'')\<rparr>))
      else if t = ADOPTION_ADOPTED \<and> proof_matches E c i pf Adoption_proof then
        Inr (cur\<lparr>ao_adoption := ADOPTED, ao_adoption_proof := tp_evidence_refs (the pf)\<rparr>)
      else if t = FINALIZE_DELIVERY \<and> state = ''ACCEPTED'' then Inr cur
      else if t \<in> {DEFER, RETIRE} then
        Inr (clear_blockers (cur\<lparr>ao_state := (if t = DEFER then ''DEFERRED'' else ''RETIRED'')\<rparr>))
      else Inl ''transition_not_applicable'')"

definition adoption_complete :: "activation_obligation \<Rightarrow> bool" where
  "adoption_complete v = (ao_adoption v \<in> {ADOPTED, NOT_REQUIRED})"

definition delivery_step :: "activation_contract \<Rightarrow> technical_basis option \<Rightarrow> activation_obligation \<Rightarrow> activation_obligation" where
  "delivery_step c technical candidate =
     (if ao_acceptance candidate = PASS \<and> adoption_complete candidate then
        (if technical_true c technical
         then candidate\<lparr>ao_state := ''DELIVERED'', ao_technical_basis_ref := technical_ref technical\<rparr>
         else if ao_state candidate = ''DELIVERED'' then candidate\<lparr>ao_state := ''ACCEPTED''\<rparr>
         else candidate)
      else candidate)"

definition stamped ::
  "activation_env \<Rightarrow> activation_obligation \<Rightarrow> transition_intent \<Rightarrow> string \<Rightarrow> string \<Rightarrow> activation_obligation
     \<Rightarrow> activation_obligation" where
  "stamped E cur i actor token changed =
     changed\<lparr>ao_actor_ref := actor, ao_runtime_binding_token := token, ao_generation := ao_generation cur + 1,
       ao_predecessor := Some (ao_digest cur), ao_operation_id := ti_operation_id i,
       ao_intent_digest := intent_digest E i actor, ao_digest := zero_digest\<rparr>"

definition advance_obligation ::
  "activation_env \<Rightarrow> activation_contract \<Rightarrow> activation_obligation \<Rightarrow> transition_intent \<Rightarrow> string \<Rightarrow> string
     \<Rightarrow> technical_basis option \<Rightarrow> transition_proof option \<Rightarrow> continuity_result" where
  "advance_obligation E c cur i actor token technical pf =
     (if ao_operation_id cur = ti_operation_id i then
        (if ao_intent_digest cur = intent_digest E i actor
         then \<lparr>cr_status = C_replayed, cr_obligation = Some cur, cr_reason = None\<rparr>
         else \<lparr>cr_status = C_conflict, cr_obligation = Some cur, cr_reason = Some ''operation_identity_conflict''\<rparr>)
      else if ao_digest cur \<noteq> ti_observed_revision i
        then \<lparr>cr_status = C_stale, cr_obligation = Some cur, cr_reason = Some ''revision_changed''\<rparr>
      else if ao_state cur \<in> obligation_terminal
        then \<lparr>cr_status = C_denied, cr_obligation = Some cur, cr_reason = Some ''obligation_terminal''\<rparr>
      else case obligation_changes E c cur i technical pf of
        Inl reason \<Rightarrow> \<lparr>cr_status = C_denied, cr_obligation = Some cur, cr_reason = Some reason\<rparr>
      | Inr changed \<Rightarrow> \<lparr>cr_status = C_applied,
          cr_obligation = Some (seal_obligation E (delivery_step c technical (stamped E cur i actor token changed))), cr_reason = None\<rparr>)"

section \<open>Soundness of a step\<close>

text \<open>
  What every obligation reached by transitions satisfies beyond its validator: blocker evidence
  only while blocked, and an accepted phase behind a blocker keeps its passed acceptance.
\<close>

definition open_phases :: "string set" where
  "open_phases = {''WAITING_ACTIVATION'', ''VERIFY_NOW'', ''VERIFYING'', ''ACCEPTED''}"

definition sound_obligation :: "activation_obligation \<Rightarrow> bool" where
  "sound_obligation v =
     (ao_state v \<in> obligation_states \<and> 1 \<le> ao_generation v \<and> (ao_generation v = 1) = (ao_predecessor v = None)
      \<and> (if ao_state v = ''BLOCKED''
         then ao_blocker_ref v \<noteq> None \<and> ao_clearing_event_ref v \<noteq> None
              \<and> (\<exists>ph \<in> open_phases. ao_blocker_phase v = Some ph \<and> (ph = ''ACCEPTED'' \<longrightarrow> ao_acceptance v = PASS))
         else ao_blocker_ref v = None \<and> ao_blocker_phase v = None \<and> ao_clearing_event_ref v = None)
      \<and> (ao_state v \<in> {''ACCEPTED'', ''DELIVERED''} \<longrightarrow> ao_acceptance v = PASS)
      \<and> (ao_state v = ''DELIVERED'' \<longrightarrow> adoption_complete v))"

lemma sound_coherent: "sound_obligation v \<Longrightarrow> obligation_coherent v"
  by (auto simp: sound_obligation_def obligation_coherent_def adoption_complete_def split: if_splits)

text \<open>The one step that loses coherence: a block that arrives when everything is delivered.\<close>

definition block_overrun ::
  "activation_contract \<Rightarrow> activation_obligation \<Rightarrow> transition_intent \<Rightarrow> technical_basis option \<Rightarrow> bool" where
  "block_overrun c cur i technical =
     (ti_transition i = BLOCK \<and> ao_acceptance cur = PASS \<and> adoption_complete cur \<and> technical_true c technical)"

text \<open>The branches that change the obligation.\<close>

lemma obligation_changes_Inr:
  assumes "obligation_changes E c cur i technical pf = Inr v"
  obtains (activated) "ti_transition i = ACTIVATED" "ao_state cur = ''WAITING_ACTIVATION''" "technical_true c technical"
      "v = cur\<lparr>ao_state := ''VERIFY_NOW'', ao_technical_basis_ref := technical_ref technical\<rparr>"
    | (acknowledged) "ti_transition i = ACKNOWLEDGED" "ao_state cur = ''VERIFY_NOW''"
      "v = cur\<lparr>ao_state := ''VERIFYING''\<rparr>"
    | (blocked) "ti_transition i = BLOCK" "nonempty_ref (ti_blocker_ref i)" "nonempty_ref (ti_clearing_event_ref i)"
      "ao_state cur \<noteq> ''BLOCKED''"
      "v = cur\<lparr>ao_state := ''BLOCKED'', ao_blocker_ref := ti_blocker_ref i,
                 ao_blocker_phase := Some (ao_state cur), ao_clearing_event_ref := ti_clearing_event_ref i\<rparr>"
    | (cleared) "ti_transition i = CLEAR_BLOCKER" "ao_state cur = ''BLOCKED''" "proof_matches E c i pf Clearing_proof"
      "ti_clearing_event_ref i = ao_clearing_event_ref cur"
      "v = clear_blockers (cur\<lparr>ao_state := the (ao_blocker_phase cur)\<rparr>)"
    | (tested) r where "acceptance_of (ti_transition i) = Some r" "ao_state cur \<in> {''VERIFY_NOW'', ''VERIFYING'', ''ACCEPTED''}"
      "proof_matches E c i pf Acceptance_proof"
      "v = cur\<lparr>ao_acceptance := r, ao_acceptance_proof := tp_evidence_refs (the pf),
                 ao_state := (if r = PASS then ''ACCEPTED'' else ''VERIFYING'')\<rparr>"
    | (adopted) "ti_transition i = ADOPTION_ADOPTED" "proof_matches E c i pf Adoption_proof" "ao_state cur \<noteq> ''BLOCKED''"
      "v = cur\<lparr>ao_adoption := ADOPTED, ao_adoption_proof := tp_evidence_refs (the pf)\<rparr>"
    | (finalized) "ti_transition i = FINALIZE_DELIVERY" "ao_state cur = ''ACCEPTED''" "v = cur"
    | (ended) s where "ti_transition i \<in> {DEFER, RETIRE}"
      "s = (if ti_transition i = DEFER then ''DEFERRED'' else ''RETIRED'')" "v = clear_blockers (cur\<lparr>ao_state := s\<rparr>)"
proof (cases "ti_transition i")
  case ACTIVATED
  with assms show thesis using activated
    by (simp add: obligation_changes_def Let_def split: if_split_asm)
next
  case ACKNOWLEDGED
  with assms show thesis using acknowledged
    by (simp add: obligation_changes_def Let_def split: if_split_asm)
next
  case BLOCK
  with assms show thesis using blocked
    by (simp add: obligation_changes_def Let_def split: if_split_asm)
next
  case CLEAR_BLOCKER
  with assms show thesis using cleared
    by (simp add: obligation_changes_def Let_def split: if_split_asm)
next
  case ADOPTION_ADOPTED
  with assms show thesis using adopted
    by (simp add: obligation_changes_def Let_def split: if_split_asm)
next
  case FINALIZE_DELIVERY
  with assms show thesis using finalized
    by (simp add: obligation_changes_def Let_def split: if_split_asm)
next
  case DEFER
  with assms show thesis using ended [of "''DEFERRED''"]
    by (simp add: obligation_changes_def Let_def split: if_split_asm)
next
  case RETIRE
  with assms show thesis using ended [of "''RETIRED''"]
    by (simp add: obligation_changes_def Let_def split: if_split_asm)
qed (use assms tested in \<open>simp_all add: obligation_changes_def Let_def split: if_split_asm\<close>)

lemma open_phaseD:
  "ph \<in> open_phases \<Longrightarrow> ph \<in> obligation_states \<and> ph \<noteq> ''BLOCKED'' \<and> ph \<noteq> ''DELIVERED'' \<and> ph \<notin> obligation_terminal"
  by (auto simp: open_phases_def obligation_states_def obligation_terminal_def)

lemma open_state:
  "s \<in> obligation_states \<Longrightarrow> s \<notin> obligation_terminal \<Longrightarrow> s \<noteq> ''BLOCKED'' \<Longrightarrow> s \<in> open_phases"
  by (auto simp: open_phases_def obligation_states_def obligation_terminal_def)

lemma obligation_changes_sound:
  assumes "sound_obligation cur" and "ao_state cur \<notin> obligation_terminal"
    and "obligation_changes E c cur i technical pf = Inr v"
  shows "sound_obligation v \<and> ao_state v \<noteq> ''DELIVERED'' \<and> (ao_state v = ''BLOCKED'' \<longleftrightarrow> ti_transition i = BLOCK)
    \<and> ao_generation v = ao_generation cur
    \<and> (ti_transition i = BLOCK \<longrightarrow> ao_acceptance v = ao_acceptance cur \<and> ao_adoption v = ao_adoption cur)"
  using assms(3)
proof (cases rule: obligation_changes_Inr)
  case activated
  with assms(1) show ?thesis by (simp add: sound_obligation_def obligation_states_def)
next
  case acknowledged
  with assms(1) show ?thesis by (simp add: sound_obligation_def obligation_states_def)
next
  case blocked
  have "ao_state cur \<in> open_phases"
    using assms(1,2) blocked(4) by (intro open_state) (simp_all add: sound_obligation_def)
  then show ?thesis using assms(1) blocked
    by (simp add: sound_obligation_def obligation_states_def nonempty_ref_def)
next
  case cleared
  with assms(1) obtain ph where "ph \<in> open_phases" "ao_blocker_phase cur = Some ph"
    "ph = ''ACCEPTED'' \<longrightarrow> ao_acceptance cur = PASS" by (auto simp: sound_obligation_def)
  with open_phaseD [of ph] assms(1) cleared show ?thesis
    by (simp add: sound_obligation_def clear_blockers_def)
next
  case (tested r)
  then have "ao_state cur \<noteq> ''BLOCKED''" "ti_transition i \<noteq> BLOCK" by auto
  with tested assms(1) show ?thesis by (simp add: sound_obligation_def obligation_states_def)
next
  case adopted
  moreover have "ao_state cur \<noteq> ''DELIVERED''" using assms(2) by (auto simp: obligation_terminal_def)
  ultimately show ?thesis using assms(1) by (simp add: sound_obligation_def)
next
  case finalized
  with assms(1) show ?thesis by (simp add: sound_obligation_def)
next
  case (ended s)
  then show ?thesis using assms(1)
    by (auto simp: sound_obligation_def clear_blockers_def obligation_states_def)
qed

lemma advance_applied:
  assumes "advance_obligation E c cur i actor token technical pf = r" and "cr_status r = C_applied"
  obtains changed where "obligation_changes E c cur i technical pf = Inr changed"
    "cr_obligation r = Some (seal_obligation E (delivery_step c technical (stamped E cur i actor token changed)))"
    "ao_operation_id cur \<noteq> ti_operation_id i" "ti_observed_revision i = ao_digest cur"
    "ao_state cur \<notin> obligation_terminal"
  using assms by (auto simp: advance_obligation_def split: if_split_asm sum.split_asm)

lemma sound_seal [simp]: "sound_obligation (seal_obligation E v) = sound_obligation v"
  "obligation_coherent (seal_obligation E v) = obligation_coherent v"
  by (simp_all add: sound_obligation_def obligation_coherent_def seal_obligation_def adoption_complete_def)

lemma sound_stamped:
  "sound_obligation v \<Longrightarrow> 1 \<le> ao_generation cur \<Longrightarrow> sound_obligation (stamped E cur i actor token v)"
  by (simp add: sound_obligation_def stamped_def adoption_complete_def)

lemma stamped_fields [simp]:
  "ao_state (stamped E cur i a k v) = ao_state v" "ao_acceptance (stamped E cur i a k v) = ao_acceptance v"
  "ao_adoption (stamped E cur i a k v) = ao_adoption v" "ao_generation (stamped E cur i a k v) = ao_generation cur + 1"
  "ao_predecessor (stamped E cur i a k v) = Some (ao_digest cur)"
  "ao_operation_id (stamped E cur i a k v) = ti_operation_id i"
  "ao_acceptance_proof (stamped E cur i a k v) = ao_acceptance_proof v"
  "ao_adoption_proof (stamped E cur i a k v) = ao_adoption_proof v"
  "ao_binding (stamped E cur i a k v) = ao_binding v" "adoption_complete (stamped E cur i a k v) = adoption_complete v"
  "ao_intent_digest (stamped E cur i a k v) = intent_digest E i a"
  by (simp_all add: stamped_def adoption_complete_def)

lemma sound_delivery:
  assumes "sound_obligation v" and "ao_state v \<noteq> ''DELIVERED''"
    and "ao_state v = ''BLOCKED'' \<Longrightarrow> \<not> (ao_acceptance v = PASS \<and> adoption_complete v \<and> technical_true c technical)"
  shows "sound_obligation (delivery_step c technical v)"
  using assms by (auto simp: delivery_step_def sound_obligation_def obligation_states_def adoption_complete_def)

lemma overrun_incoherent:
  assumes "sound_obligation v" and "ao_state v = ''BLOCKED''"
    and "ao_acceptance v = PASS \<and> adoption_complete v \<and> technical_true c technical"
  shows "\<not> obligation_coherent (delivery_step c technical v)"
  using assms by (auto simp: delivery_step_def sound_obligation_def obligation_coherent_def)

text \<open>
  Every applied transition of a sound obligation gives a sound one again, except a block that
  overruns a delivery, whose result its own validator rejects.
\<close>

lemma advance_step_sound:
  assumes "sound_obligation cur"
    and "advance_obligation E c cur i actor token technical pf = r" and "cr_status r = C_applied"
    and "cr_obligation r = Some v"
  shows "if block_overrun c cur i technical then \<not> obligation_coherent v else sound_obligation v"
proof -
  from advance_applied [OF assms(2,3)] obtain changed
    where ch: "obligation_changes E c cur i technical pf = Inr changed"
      and v: "v = seal_obligation E (delivery_step c technical (stamped E cur i actor token changed))"
      and t: "ao_state cur \<notin> obligation_terminal" using assms(4) by auto
  note s = obligation_changes_sound [OF assms(1) t ch]
  have st: "sound_obligation (stamped E cur i actor token changed)"
  proof (rule sound_stamped)
    show "sound_obligation changed" using s by blast
    show "1 \<le> ao_generation cur" using assms(1) by (simp add: sound_obligation_def)
  qed
  show ?thesis
  proof (cases "block_overrun c cur i technical")
    case True
    then have "ao_state changed = ''BLOCKED''" "ao_acceptance changed = PASS \<and> adoption_complete changed \<and> technical_true c technical"
      using s by (simp_all add: block_overrun_def adoption_complete_def)
    with True overrun_incoherent [OF st] show ?thesis by (simp add: v)
  next
    case False
    have "sound_obligation (delivery_step c technical (stamped E cur i actor token changed))"
      by (rule sound_delivery [OF st]) (use s False in \<open>auto simp: block_overrun_def adoption_complete_def\<close>)
    with False show ?thesis by (simp add: v)
  qed
qed

text \<open>An opened obligation is sound.\<close>

lemma open_obligation_sound:
  assumes "open_obligation E c i actor token technical = Inr r" and "cr_status r = C_applied"
    and "cr_obligation r = Some v"
  shows "sound_obligation v" "ao_generation v = 1" "ao_predecessor v = None" "ao_operation_id v = ti_operation_id i"
    "ao_digest v = ae_sha256 E (obligation_payload v)" "ao_binding v = contract_stored E c"
    "ao_acceptance v = NOT_RUN" "ao_adoption v \<noteq> ADOPTED" "ao_state v \<noteq> ''DELIVERED''"
    "ao_intent_digest v = intent_digest E i actor"
  using assms
  by (auto simp: open_obligation_def Let_def seal_obligation_def sound_obligation_def obligation_states_def
      obligation_payload_def split: if_split_asm)

end
