(* ===== verification/Activation_Store.thy ===== *)
theory Activation_Store
  imports Activation_Continuity Revision_Chain
begin

text \<open>
  The append-only store of activation obligations and its authenticated facade
  (\<open>src/switchstand/activation_continuity_store.py\<close>), and the installed contracts of
  \<open>activation_contract_loader.py\<close>. A transition reads the revisions of its obligation in one
  state of the table and inserts in a later one: locking the rows it found does not keep another
  transaction from inserting a successor, so the uniqueness constraints decide.
\<close>

section \<open>Rows and chains\<close>

record continuity_row =
  acr_obligation_id :: uuid
  acr_operation_id :: uuid
  acr_generation :: int
  acr_record :: activation_obligation

text \<open>A row read back: the validated record beside the operation column it is compared with.\<close>

definition continuity_row_of :: "continuity_row \<Rightarrow> (uuid \<times> activation_obligation) py_result" where
  "continuity_row_of v =
     (if valid_activation_obligation (acr_record v) then Inr (acr_operation_id v, acr_record v)
      else Inl ValidationError)"

definition continuity_accept ::
  "activation_env \<Rightarrow> int \<Rightarrow> string option \<Rightarrow> uuid \<times> activation_obligation \<Rightarrow> bool" where
  "continuity_accept E generation previous = (\<lambda>(operation, v).
     ao_generation v = generation \<and> ao_predecessor v = previous \<and> ao_operation_id v = operation
     \<and> ao_digest (seal_obligation E v) = ao_digest v)"

definition continuity_chain :: "activation_env \<Rightarrow> continuity_row list \<Rightarrow> activation_obligation list option" where
  "continuity_chain E rows =
     map_option (map snd) (validated_chain continuity_row_of (continuity_accept E) (\<lambda>(_, v). ao_digest v) rows)"

definition continuity_rows :: "uuid \<Rightarrow> continuity_row list \<Rightarrow> continuity_row list" where
  "continuity_rows obligation db = chain_rows acr_obligation_id acr_generation obligation db"

section \<open>Reads\<close>

text \<open>\<open>readable\<close> is false when the query raises \<open>SQLAlchemyError\<close>.\<close>

definition continuity_get :: "activation_env \<Rightarrow> bool \<Rightarrow> uuid \<Rightarrow> continuity_row list \<Rightarrow> continuity_result" where
  "continuity_get E readable obligation db =
     (if \<not> readable then no_obligation C_unknown ''state_unavailable''
      else case continuity_chain E (continuity_rows obligation db) of
        None \<Rightarrow> no_obligation C_unknown ''corrupt_revision_chain''
      | Some chain \<Rightarrow>
          if chain = [] then no_obligation C_missing ''obligation_missing''
          else \<lparr>cr_status = C_current, cr_obligation = Some (last chain), cr_reason = None\<rparr>)"

text \<open>\<open>None\<close> stands for the answer \<open>UNKNOWN\<close>.\<close>

definition for_owner :: "activation_env \<Rightarrow> bool \<Rightarrow> uuid \<Rightarrow> continuity_row list \<Rightarrow> activation_obligation list option" where
  "for_owner E readable owner db =
     (let rows = filter (\<lambda>r. json_get (ao_binding (acr_record r)) ''return_owner_work_id''
                   = Some (json_uuid owner)) db;
          chains = map (\<lambda>k. continuity_chain E (continuity_rows k rows))
                     (sort (remdups (map acr_obligation_id rows)))
      in if \<not> readable \<or> None \<in> set chains then None
         else Some (map last (filter (\<lambda>chain. chain \<noteq> []) (map the chains))))"

section \<open>Installed contracts\<close>

definition valid_installation :: "activation_env \<Rightarrow> activation_contract list \<Rightarrow> bool" where
  "valid_installation E contracts =
     (1 \<le> length contracts \<and> length contracts \<le> 100 \<and> list_all valid_activation_contract contracts
      \<and> distinct (map (contract_obligation_id E) contracts))"

definition load_activation_contracts ::
  "activation_env \<Rightarrow> activation_contract list \<Rightarrow> (uuid \<Rightarrow> activation_contract option) py_result" where
  "load_activation_contracts E contracts =
     (if \<not> valid_installation E contracts then Inl ValidationError
      else Inr (map_of (map (\<lambda>c. (contract_obligation_id E c, c)) contracts)))"

section \<open>Transitions\<close>

record continuity_call =
  cc_principal :: principal
  cc_grant :: work_grant
  cc_runtime :: runtime_binding
  cc_intent :: transition_intent
  cc_technical :: "technical_basis option"
  cc_proof :: "transition_proof option"

text \<open>A database error before the commit took effect, or after it.\<close>

datatype db_fault = No_fault | Lost_before | Lost_after

definition insert_continuity :: "continuity_row \<Rightarrow> continuity_row list \<Rightarrow> continuity_row list py_result" where
  "insert_continuity r db =
     (if \<exists>s \<in> set db. acr_operation_id s = acr_operation_id r
           \<or> (acr_obligation_id s = acr_obligation_id r \<and> acr_generation s = acr_generation r)
      then Inl IntegrityError else Inr (db @ [r]))"

text \<open>The decision the transaction takes on the rows it read.\<close>

definition continuity_decide ::
  "activation_env \<Rightarrow> activation_contract \<Rightarrow> continuity_call \<Rightarrow> string \<Rightarrow> continuity_row list
     \<Rightarrow> continuity_result py_result" where
  "continuity_decide E c call actor seen =
     (case continuity_chain E (continuity_rows (ti_obligation_id (cc_intent call)) seen) of
        None \<Rightarrow> Inr (no_obligation C_unknown ''corrupt_revision_chain'')
      | Some chain \<Rightarrow>
          if chain \<noteq> [] \<and> ao_binding (last chain) \<noteq> contract_stored E c
          then Inr (no_obligation C_conflict ''stored_binding_mismatch'')
          else if chain = []
          then open_obligation E c (cc_intent call) actor (rb_binding_token (cc_runtime call)) (cc_technical call)
          else Inr (advance_obligation E c (last chain) (cc_intent call) actor
                 (rb_binding_token (cc_runtime call)) (cc_technical call) (cc_proof call)))"

text \<open>The handler of a database error: read the obligation back.\<close>

definition continuity_replay ::
  "activation_env \<Rightarrow> continuity_call \<Rightarrow> string \<Rightarrow> bool \<Rightarrow> continuity_row list \<Rightarrow> continuity_result" where
  "continuity_replay E call actor readable db =
     (let i = cc_intent call; replay = continuity_get E readable (ti_obligation_id i) db
      in case cr_obligation replay of
           None \<Rightarrow> no_obligation C_unknown ''state_unavailable''
         | Some v \<Rightarrow>
             if ao_operation_id v = ti_operation_id i
             then replay\<lparr>cr_status := (if ao_intent_digest v = intent_digest E i actor then C_replayed else C_conflict)\<rparr>
             else replay\<lparr>cr_status := C_stale, cr_reason := Some ''revision_changed''\<rparr>)"

definition continuity_admit ::
  "(uuid \<Rightarrow> activation_contract option) \<Rightarrow> int \<Rightarrow> continuity_call \<Rightarrow> continuity_result + activation_contract" where
  "continuity_admit contracts now call =
     (case contracts (ti_obligation_id (cc_intent call)) of
        None \<Rightarrow> Inl (no_obligation C_denied ''contract_not_installed'')
      | Some c \<Rightarrow>
          if wg_principal (cc_grant call) \<noteq> cc_principal call \<or> \<not> grant_current now (cc_grant call)
          then Inl (no_obligation C_stale ''actor_binding_not_current'')
          else if rb_currentness (cc_runtime call) \<noteq> Proof_current
                  \<or> rb_actor_work_id (cc_runtime call) \<noteq> la_active_work_id (wg_authority (cc_grant call))
          then Inl (no_obligation C_stale ''runtime_binding_not_current'')
          else if \<not> authorized c (rb_actor_work_id (cc_runtime call)) (ti_transition (cc_intent call))
          then Inl (no_obligation C_denied ''transition_not_authorized'')
          else Inr c)"

definition continuity_transition ::
  "activation_env \<Rightarrow> (principal \<Rightarrow> string) \<Rightarrow> (uuid \<Rightarrow> activation_contract option) \<Rightarrow> int \<Rightarrow> db_fault \<Rightarrow> bool
     \<Rightarrow> continuity_call \<Rightarrow> continuity_row list \<Rightarrow> continuity_row list
     \<Rightarrow> continuity_result py_result \<times> continuity_row list" where
  "continuity_transition E pkey contracts now fault readable call seen db =
     (case continuity_admit contracts now call of
        Inl r \<Rightarrow> (Inr r, db)
      | Inr c \<Rightarrow>
         (let actor = actor_ref E (pkey (cc_principal call)) (cc_grant call) (cc_runtime call)
          in case continuity_decide E c call actor seen of
               Inl e \<Rightarrow> (Inl e, db)
             | Inr decision \<Rightarrow>
                (case cr_obligation decision of
                   None \<Rightarrow> (Inr decision, db)
                 | Some v \<Rightarrow>
                     if cr_status decision \<noteq> C_applied then (Inr decision, db)
                     else (case insert_continuity \<lparr>acr_obligation_id = ti_obligation_id (cc_intent call),
                              acr_operation_id = ao_operation_id v, acr_generation = ao_generation v,
                              acr_record = v\<rparr> db of
                             Inl e \<Rightarrow> (Inr (continuity_replay E call actor readable db), db)
                           | Inr db' \<Rightarrow>
                              (case fault of
                                 No_fault \<Rightarrow> (Inr decision, db')
                               | Lost_before \<Rightarrow> (Inr (continuity_replay E call actor readable db), db)
                               | Lost_after \<Rightarrow> (Inr (continuity_replay E call actor readable db'), db'))))))"

section \<open>The stored chains\<close>

interpretation obligations: decoded_chain continuity_row_of "continuity_accept E" "\<lambda>(_, v). ao_digest v"
  "\<lambda>(_, v). ao_generation v" "\<lambda>(_, v). ao_predecessor v" "\<lambda>r. ao_digest (acr_record r)"
  "\<lambda>r. ao_generation (acr_record r)" "\<lambda>r. ao_predecessor (acr_record r)" acr_obligation_id for E
  by unfold_locales (auto simp: continuity_row_of_def continuity_accept_def split: if_splits)

abbreviation continuity_table :: "activation_env \<Rightarrow> continuity_row list \<Rightarrow> bool" where
  "continuity_table E \<equiv> chained_table (accepted continuity_row_of (continuity_accept E))
     (\<lambda>r. ao_digest (acr_record r)) acr_obligation_id"

text \<open>The columns beside the record repeat its generation and operation.\<close>

definition columns_agree :: "continuity_row list \<Rightarrow> bool" where
  "columns_agree db = (\<forall>r \<in> set db. acr_generation r = ao_generation (acr_record r)
     \<and> acr_operation_id r = ao_operation_id (acr_record r))"

lemma insort_key_same: "f x = g x \<Longrightarrow> \<forall>y \<in> set ys. f y = g y \<Longrightarrow> insort_key f x ys = insort_key g x ys"
  by (induction ys) auto

lemma sort_key_same: "\<forall>x \<in> set xs. f x = g x \<Longrightarrow> sort_key f xs = sort_key g xs"
  by (induction xs) (auto intro: insort_key_same)

lemma continuity_rows_key:
  assumes "columns_agree db"
  shows "continuity_rows k db = chain_rows acr_obligation_id (\<lambda>r. ao_generation (acr_record r)) k db"
  unfolding continuity_rows_def chain_rows_def
  by (rule sort_key_same) (use assms in \<open>auto simp: columns_agree_def\<close>)

lemma continuity_chain_load:
  assumes "columns_agree db"
  shows "continuity_chain E (continuity_rows k db) = map_option (map snd) (obligations.load E k db)"
  by (simp add: continuity_chain_def continuity_rows_key [OF assms])

lemma continuity_decoded: "mapE continuity_row_of vs = Inr rs \<Longrightarrow> map snd rs = map acr_record vs"
  unfolding mapE_list
  by (induction rule: list_all2_induct) (auto simp: continuity_row_of_def split: if_splits)

lemma continuity_loaded:
  assumes "obligations.load E k db = Some rs"
  shows "map snd rs = map acr_record (chain_rows acr_obligation_id (\<lambda>r. ao_generation (acr_record r)) k db)"
  using assms unfolding obligations.load_Some by (intro continuity_decoded) blast

lemma continuity_tip: "tip (\<lambda>(_, v). ao_digest v) rs = tip ao_digest (map snd rs)"
  by (cases rs rule: rev_cases) auto

text \<open>An unreadable record hides the whole obligation.\<close>

lemma mapE_fails: "v \<in> set vs \<Longrightarrow> decode v = Inl e \<Longrightarrow> \<exists>e. mapE decode vs = Inl e"
proof (induction vs)
  case Nil
  then show ?case by simp
next
  case (Cons u us)
  then show ?case by (cases "decode u"; cases "mapE decode us") auto
qed

lemma continuity_corrupt:
  assumes "r \<in> set db" and "acr_obligation_id r = k" and "\<not> valid_activation_obligation (acr_record r)"
  shows "continuity_chain E (continuity_rows k db) = None"
proof -
  have "r \<in> set (continuity_rows k db)" using assms(1,2) by (simp add: continuity_rows_def chain_rows_def)
  moreover have "continuity_row_of r = Inl ValidationError" using assms(3) by (simp add: continuity_row_of_def)
  ultimately obtain e where "mapE continuity_row_of (continuity_rows k db) = Inl e"
    using mapE_fails [of r "continuity_rows k db" continuity_row_of ValidationError] by blast
  then show ?thesis by (simp add: continuity_chain_def validated_chain_def)
qed

section \<open>One transition\<close>

lemma continuity_admit_Inr:
  assumes "continuity_admit contracts now call = Inr c"
  shows "contracts (ti_obligation_id (cc_intent call)) = Some c"
    "authorized c (rb_actor_work_id (cc_runtime call)) (ti_transition (cc_intent call))"
    "grant_current now (cc_grant call)" "wg_principal (cc_grant call) = cc_principal call"
    "rb_actor_work_id (cc_runtime call) = la_active_work_id (wg_authority (cc_grant call))"
  using assms by (auto simp: continuity_admit_def split: option.split_asm if_split_asm)

lemma insert_continuity_Inr:
  assumes "insert_continuity r db = Inr db'"
  shows "db' = db @ [r]"
    "\<forall>s \<in> set db. \<not> (acr_obligation_id s = acr_obligation_id r \<and> acr_generation s = acr_generation r)"
    "acr_operation_id r \<notin> acr_operation_id ` set db"
  using assms by (auto simp: insert_continuity_def split: if_split_asm)

text \<open>A call changes the table only by inserting the obligation it decided on.\<close>

lemma continuity_transition_cases:
  assumes "continuity_transition E pkey contracts now fault readable call seen db = (res, db')"
  obtains (kept) "db' = db"
    | (inserted) c actor r v where "continuity_admit contracts now call = Inr c"
        "continuity_decide E c call actor seen = Inr r" "cr_status r = C_applied" "cr_obligation r = Some v"
        "insert_continuity \<lparr>acr_obligation_id = ti_obligation_id (cc_intent call),
           acr_operation_id = ao_operation_id v, acr_generation = ao_generation v, acr_record = v\<rparr> db = Inr db'"
        "actor = actor_ref E (pkey (cc_principal call)) (cc_grant call) (cc_runtime call)"
proof (cases "continuity_admit contracts now call")
  case (Inl r)
  with assms show thesis by (auto simp: continuity_transition_def intro: kept)
next
  case (Inr c)
  define actor where "actor = actor_ref E (pkey (cc_principal call)) (cc_grant call) (cc_runtime call)"
  note run = assms [unfolded continuity_transition_def Inr sum.case Let_def, folded actor_def]
  show thesis
  proof (cases "continuity_decide E c call actor seen")
    case (Inl e)
    with run show thesis by (auto intro: kept)
  next
    case dec: (Inr r)
    show thesis
    proof (cases "\<exists>v. cr_obligation r = Some v \<and> cr_status r = C_applied")
      case False
      with run dec show thesis by (cases "cr_obligation r") (auto intro: kept)
    next
      case True
      then obtain v where v: "cr_obligation r = Some v" "cr_status r = C_applied" by blast
      show thesis
      proof (cases "insert_continuity \<lparr>acr_obligation_id = ti_obligation_id (cc_intent call),
           acr_operation_id = ao_operation_id v, acr_generation = ao_generation v, acr_record = v\<rparr> db")
        case (Inl e)
        with run dec v show thesis by (auto intro: kept)
      next
        case ins: (Inr d)
        show thesis
        proof (cases "db' = db")
          case True
          then show thesis by (rule kept)
        next
          case False
          with run dec v ins have "db' = d" by (cases fault) auto
          with ins have "insert_continuity \<lparr>acr_obligation_id = ti_obligation_id (cc_intent call),
             acr_operation_id = ao_operation_id v, acr_generation = ao_generation v, acr_record = v\<rparr> db = Inr db'"
            by simp
          then show thesis by (rule inserted [OF Inr dec v(2,1) _ actor_def])
        qed
      qed
    qed
  qed
qed

text \<open>What is decided on top of a readable chain.\<close>

lemma continuity_decide_cases:
  assumes "continuity_decide E c call actor seen = Inr r" and "cr_status r = C_applied" and "cr_obligation r = Some v"
  obtains (opened) "continuity_chain E (continuity_rows (ti_obligation_id (cc_intent call)) seen) = Some []"
      "open_obligation E c (cc_intent call) actor (rb_binding_token (cc_runtime call)) (cc_technical call) = Inr r"
    | (advanced) chain cur where
      "continuity_chain E (continuity_rows (ti_obligation_id (cc_intent call)) seen) = Some (chain @ [cur])"
      "ao_binding cur = contract_stored E c"
      "advance_obligation E c cur (cc_intent call) actor (rb_binding_token (cc_runtime call))
         (cc_technical call) (cc_proof call) = r"
proof (cases "continuity_chain E (continuity_rows (ti_obligation_id (cc_intent call)) seen)")
  case None
  with assms show thesis by (auto simp: continuity_decide_def)
next
  case (Some chain)
  show thesis
  proof (cases chain rule: rev_cases)
    case Nil
    with Some assms(1) show thesis by (intro opened) (simp_all add: continuity_decide_def)
  next
    case (snoc ch cur)
    show thesis
    proof (cases "ao_binding cur = contract_stored E c")
      case True
      with Some snoc assms(1) show thesis by (intro advanced [of ch cur]) (simp_all add: continuity_decide_def)
    next
      case False
      with Some snoc assms show thesis by (auto simp: continuity_decide_def)
    qed
  qed
qed

lemma seal_fields [simp]:
  "ao_digest (seal_obligation E (seal_obligation E v)) = ao_digest (seal_obligation E v)"
  "ao_generation (seal_obligation E v) = ao_generation v" "ao_predecessor (seal_obligation E v) = ao_predecessor v"
  "ao_operation_id (seal_obligation E v) = ao_operation_id v" "ao_binding (seal_obligation E v) = ao_binding v"
  "ao_state (seal_obligation E v) = ao_state v" "ao_acceptance (seal_obligation E v) = ao_acceptance v"
  "ao_adoption (seal_obligation E v) = ao_adoption v"
  "ao_acceptance_proof (seal_obligation E v) = ao_acceptance_proof v"
  "ao_adoption_proof (seal_obligation E v) = ao_adoption_proof v"
  "ao_technical_basis_ref (seal_obligation E v) = ao_technical_basis_ref v"
  "ao_intent_digest (seal_obligation E v) = ao_intent_digest v"
  by (simp_all add: seal_obligation_def obligation_payload_def)

lemma delivery_fields [simp]:
  "ao_generation (delivery_step c t v) = ao_generation v" "ao_predecessor (delivery_step c t v) = ao_predecessor v"
  "ao_operation_id (delivery_step c t v) = ao_operation_id v" "ao_binding (delivery_step c t v) = ao_binding v"
  "ao_acceptance (delivery_step c t v) = ao_acceptance v" "ao_adoption (delivery_step c t v) = ao_adoption v"
  "ao_acceptance_proof (delivery_step c t v) = ao_acceptance_proof v"
  "ao_adoption_proof (delivery_step c t v) = ao_adoption_proof v"
  "ao_intent_digest (delivery_step c t v) = ao_intent_digest v"
  by (simp_all add: delivery_step_def)

lemma changes_binding:
  assumes "obligation_changes E c cur i technical pf = Inr v"
  shows "ao_binding v = ao_binding cur"
  using assms by (cases rule: obligation_changes_Inr) (simp_all add: clear_blockers_def)

text \<open>The fields of an applied obligation that link it to its predecessor.\<close>

lemma advance_fields:
  assumes "advance_obligation E c cur i actor token technical pf = r" and "cr_status r = C_applied"
    and "cr_obligation r = Some v"
  shows "ao_generation v = ao_generation cur + 1" "ao_predecessor v = Some (ao_digest cur)"
    "ao_operation_id v = ti_operation_id i" "ao_digest (seal_obligation E v) = ao_digest v"
    "ao_binding v = ao_binding cur" "ao_intent_digest v = intent_digest E i actor"
proof -
  from advance_applied [OF assms(1,2)] obtain changed
    where ch: "obligation_changes E c cur i technical pf = Inr changed"
      and v: "v = seal_obligation E (delivery_step c technical (stamped E cur i actor token changed))"
    using assms(3) by auto
  show "ao_generation v = ao_generation cur + 1" "ao_predecessor v = Some (ao_digest cur)"
    "ao_operation_id v = ti_operation_id i" "ao_digest (seal_obligation E v) = ao_digest v"
    "ao_binding v = ao_binding cur" "ao_intent_digest v = intent_digest E i actor"
    using changes_binding [OF ch] by (simp_all add: v)
qed

text \<open>The payload and the digest are the whole record.\<close>

lemma acceptance_value_inject: "acceptance_value a = acceptance_value b \<longleftrightarrow> a = b"
  by (cases a; cases b) simp_all

lemma adoption_value_inject: "adoption_value a = adoption_value b \<longleftrightarrow> a = b"
  by (cases a; cases b) simp_all

lemma json_opt_JStr_inject: "json_opt JStr a = json_opt JStr b \<longleftrightarrow> a = b"
  by (cases a; cases b) (simp_all add: json_opt_def)

lemma map_JStr_inject: "map JStr xs = map JStr ys \<longleftrightarrow> xs = ys"
  by (rule inj_map_eq_map) (simp add: inj_def)

lemma obligation_payload_inject:
  assumes "obligation_payload v = obligation_payload u" and "ao_digest v = ao_digest u"
  shows "v = u"
  using assms unfolding obligation_payload_def
  by (intro activation_obligation.equality)
     (simp_all add: acceptance_value_inject adoption_value_inject json_opt_JStr_inject map_JStr_inject)

definition hash_ok :: "activation_env \<Rightarrow> bool" where
  "hash_ok E = (\<forall>j. lower_hex 64 (ae_sha256 E j))"

lemma sealed_valid:
  assumes "hash_ok E" and "sound_obligation v" and "ao_digest (seal_obligation E v) = ao_digest v"
    and "ao_intent_digest v = intent_digest E i actor"
  shows "valid_activation_obligation v"
proof -
  have "lower_hex 64 (ao_digest v)"
    using assms(1,3) by (metis (no_types, lifting) activation_obligation.select_convs(17)
        activation_obligation.surjective activation_obligation.update_convs(17) hash_ok_def seal_obligation_def)
  with assms sound_coherent [OF assms(2)] show ?thesis
    by (simp add: valid_activation_obligation_def sound_obligation_def intent_digest_def hash_ok_def)
qed

text \<open>The chain a transition may extend, and what it extends it by.\<close>

definition overruns :: "activation_env \<Rightarrow> (uuid \<Rightarrow> activation_contract option) \<Rightarrow> continuity_call \<Rightarrow> continuity_row list \<Rightarrow> bool" where
  "overruns E contracts call seen =
     (case contracts (ti_obligation_id (cc_intent call)) of
        None \<Rightarrow> False
      | Some c \<Rightarrow> (case cr_obligation (continuity_get E True (ti_obligation_id (cc_intent call)) seen) of
          None \<Rightarrow> False | Some cur \<Rightarrow> block_overrun c cur (cc_intent call) (cc_technical call)))"

lemma decided_obligation:
  assumes "continuity_decide E c call actor seen = Inr r" and "cr_status r = C_applied" and "cr_obligation r = Some v"
    and "continuity_chain E (continuity_rows (ti_obligation_id (cc_intent call)) seen) = Some chain"
    and "\<forall>u \<in> set chain. sound_obligation u" and "\<forall>i < length chain. ao_generation (chain ! i) = int i + 1"
    and "contracts (ti_obligation_id (cc_intent call)) = Some c" and "\<not> overruns E contracts call seen"
    and "hash_ok E"
  shows "sound_obligation v \<and> valid_activation_obligation v \<and> ao_binding v = contract_stored E c
    \<and> continuity_accept E (int (length chain) + 1) (tip ao_digest chain) (ao_operation_id v, v)"
  using assms(1-3)
proof (cases rule: continuity_decide_cases)
  case opened
  note o = open_obligation_sound [OF opened(2) assms(2,3)]
  have "ao_digest (seal_obligation E v) = ao_digest v"
    using o(5) by (simp add: seal_obligation_def)
  with o opened(1) assms(4) sealed_valid [OF assms(9) o(1) this o(10)] show ?thesis
    by (simp add: continuity_accept_def)
next
  case (advanced ch cur)
  note f = advance_fields [OF advanced(3) assms(2,3)]
  from advanced(1) assms(4) have chain: "chain = ch @ [cur]" by simp
  have "ao_generation cur = int (length ch) + 1" using assms(6) by (auto simp: chain)
  moreover have "\<not> block_overrun c cur (cc_intent call) (cc_technical call)"
    using assms(7,8) advanced(1) by (simp add: overruns_def continuity_get_def)
  with advance_step_sound [OF _ advanced(3) assms(2,3)] assms(5) have s: "sound_obligation v"
    by (simp add: chain)
  ultimately show ?thesis
    using f advanced(2) sealed_valid [OF assms(9) s f(4,6)] by (simp add: chain continuity_accept_def)
qed

section \<open>Histories\<close>

text \<open>
  Tables produced by transitions, each reading some earlier table, with the calls that changed
  the table. The block that overruns a delivery is left out here: it is the subject of its own
  theorem.
\<close>

inductive continuity_reach ::
  "activation_env \<Rightarrow> (principal \<Rightarrow> string) \<Rightarrow> (uuid \<Rightarrow> activation_contract option)
     \<Rightarrow> (int \<times> continuity_call) list \<Rightarrow> continuity_row list \<Rightarrow> bool" for E pkey contracts where
  continuity_init: "continuity_reach E pkey contracts [] []"
| continuity_step: "continuity_reach E pkey contracts calls0 seen \<Longrightarrow> continuity_reach E pkey contracts calls (seen @ later) \<Longrightarrow>
    \<not> overruns E contracts call seen \<Longrightarrow>
    continuity_transition E pkey contracts now fault readable call seen (seen @ later) = (res, db') \<Longrightarrow>
    continuity_reach E pkey contracts (if db' = seen @ later then calls else calls @ [(now, call)]) db'"

text \<open>An admitted call on an obligation that changed the table.\<close>

definition logged ::
  "(uuid \<Rightarrow> activation_contract option) \<Rightarrow> uuid \<Rightarrow> activation_contract \<Rightarrow> (int \<times> continuity_call) list \<Rightarrow> continuity_call \<Rightarrow> bool" where
  "logged contracts k c calls call =
     (\<exists>now. (now, call) \<in> set calls \<and> ti_obligation_id (cc_intent call) = k \<and> continuity_admit contracts now call = Inr c)"

text \<open>Every verdict an obligation carries was given by such a call, with its proof.\<close>

definition evidenced ::
  "activation_env \<Rightarrow> (uuid \<Rightarrow> activation_contract option) \<Rightarrow> uuid \<Rightarrow> activation_contract
     \<Rightarrow> (int \<times> continuity_call) list \<Rightarrow> activation_obligation \<Rightarrow> bool" where
  "evidenced E contracts k c calls v =
     ((ao_acceptance v = PASS \<longrightarrow>
         (\<exists>call. logged contracts k c calls call \<and> ti_transition (cc_intent call) = ACCEPTANCE_PASS
            \<and> proof_matches E c (cc_intent call) (cc_proof call) Acceptance_proof
            \<and> tp_evidence_refs (the (cc_proof call)) = ao_acceptance_proof v))
      \<and> (ao_adoption v = ADOPTED \<longrightarrow>
         (\<exists>call. logged contracts k c calls call \<and> ti_transition (cc_intent call) = ADOPTION_ADOPTED
            \<and> proof_matches E c (cc_intent call) (cc_proof call) Adoption_proof
            \<and> tp_evidence_refs (the (cc_proof call)) = ao_adoption_proof v))
      \<and> (ao_adoption v = NOT_REQUIRED \<longrightarrow> \<not> act_adoption_required c)
      \<and> (ao_state v = ''DELIVERED'' \<longrightarrow>
         (\<exists>call. logged contracts k c calls call \<and> technical_true c (cc_technical call)
            \<and> technical_ref (cc_technical call) = ao_technical_basis_ref v)))"

definition continuity_inv ::
  "activation_env \<Rightarrow> (uuid \<Rightarrow> activation_contract option) \<Rightarrow> (int \<times> continuity_call) list \<Rightarrow> continuity_row list \<Rightarrow> bool" where
  "continuity_inv E contracts calls db =
     (columns_agree db \<and> continuity_table E db
      \<and> (\<forall>r \<in> set db. sound_obligation (acr_record r)
           \<and> (\<exists>c. contracts (acr_obligation_id r) = Some c \<and> ao_binding (acr_record r) = contract_stored E c
                \<and> evidenced E contracts (acr_obligation_id r) c calls (acr_record r))))"

lemma logged_mono: "logged contracts k c calls call \<Longrightarrow> logged contracts k c (calls @ later) call"
  by (auto simp: logged_def)

lemma evidenced_mono: "evidenced E contracts k c calls v \<Longrightarrow> evidenced E contracts k c (calls @ later) v"
  unfolding evidenced_def by (meson logged_mono)

text \<open>Where the verdicts of a changed obligation come from.\<close>

lemma changes_acceptance:
  assumes "obligation_changes E c cur i technical pf = Inr v" and "ao_acceptance v = PASS"
  shows "ao_acceptance cur = PASS \<and> ao_acceptance_proof v = ao_acceptance_proof cur
    \<or> ti_transition i = ACCEPTANCE_PASS \<and> proof_matches E c i pf Acceptance_proof
      \<and> tp_evidence_refs (the pf) = ao_acceptance_proof v"
  using assms(1)
proof (cases rule: obligation_changes_Inr)
  case (tested r)
  with assms(2) have "acceptance_of (ti_transition i) = Some PASS" by simp
  then have "ti_transition i = ACCEPTANCE_PASS" by (cases "ti_transition i") auto
  with tested show ?thesis by simp
qed (use assms(2) in \<open>simp_all add: clear_blockers_def\<close>)

lemma changes_adoption:
  assumes "obligation_changes E c cur i technical pf = Inr v"
  shows "ao_adoption v = ao_adoption cur \<and> ao_adoption_proof v = ao_adoption_proof cur
    \<or> ti_transition i = ADOPTION_ADOPTED \<and> proof_matches E c i pf Adoption_proof \<and> ao_adoption v = ADOPTED
      \<and> tp_evidence_refs (the pf) = ao_adoption_proof v"
  using assms by (cases rule: obligation_changes_Inr) (simp_all add: clear_blockers_def)

lemma delivered_technical:
  assumes "ao_state v \<noteq> ''DELIVERED''" and "ao_state (delivery_step c technical v) = ''DELIVERED''"
  shows "technical_true c technical \<and> technical_ref technical = ao_technical_basis_ref (delivery_step c technical v)"
  using assms by (auto simp: delivery_step_def split: if_split_asm)

lemma advanced_evidenced:
  assumes "sound_obligation cur" and "evidenced E contracts k c calls cur"
    and "advance_obligation E c cur (cc_intent call) actor token (cc_technical call) (cc_proof call) = r"
    and "cr_status r = C_applied" and "cr_obligation r = Some v" and "logged contracts k c (calls @ [x]) call"
  shows "evidenced E contracts k c (calls @ [x]) v"
proof -
  from advance_applied [OF assms(3,4)] obtain changed
    where ch: "obligation_changes E c cur (cc_intent call) (cc_technical call) (cc_proof call) = Inr changed"
      and v: "v = seal_obligation E (delivery_step c (cc_technical call) (stamped E cur (cc_intent call) actor token changed))"
      and t: "ao_state cur \<notin> obligation_terminal" using assms(5) by auto
  have old: "evidenced E contracts k c (calls @ [x]) cur" by (rule evidenced_mono [OF assms(2)])
  have "ao_state changed \<noteq> ''DELIVERED''" using obligation_changes_sound [OF assms(1) t ch] by blast
  then have d: "technical_true c (cc_technical call) \<and> technical_ref (cc_technical call) = ao_technical_basis_ref v"
    if "ao_state v = ''DELIVERED''"
    using delivered_technical [of "stamped E cur (cc_intent call) actor token changed" c "cc_technical call"] that
    by (simp add: v)
  note a = changes_acceptance [OF ch] and b = changes_adoption [OF ch]
  show ?thesis
    unfolding evidenced_def
  proof (intro conjI impI)
    assume "ao_acceptance v = PASS"
    then have "ao_acceptance changed = PASS" "ao_acceptance_proof v = ao_acceptance_proof changed" by (simp_all add: v)
    with a old assms(6) show "\<exists>call. logged contracts k c (calls @ [x]) call \<and> ti_transition (cc_intent call) = ACCEPTANCE_PASS
        \<and> proof_matches E c (cc_intent call) (cc_proof call) Acceptance_proof
        \<and> tp_evidence_refs (the (cc_proof call)) = ao_acceptance_proof v"
      unfolding evidenced_def by metis
  next
    assume "ao_adoption v = ADOPTED"
    then have "ao_adoption changed = ADOPTED" "ao_adoption_proof v = ao_adoption_proof changed" by (simp_all add: v)
    with b old assms(6) show "\<exists>call. logged contracts k c (calls @ [x]) call \<and> ti_transition (cc_intent call) = ADOPTION_ADOPTED
        \<and> proof_matches E c (cc_intent call) (cc_proof call) Adoption_proof
        \<and> tp_evidence_refs (the (cc_proof call)) = ao_adoption_proof v"
      unfolding evidenced_def by metis
  next
    assume "ao_adoption v = NOT_REQUIRED"
    then have "ao_adoption changed = NOT_REQUIRED" by (simp add: v)
    with b old show "\<not> act_adoption_required c" by (auto simp: evidenced_def)
  next
    assume "ao_state v = ''DELIVERED''"
    with d assms(6) show "\<exists>call. logged contracts k c (calls @ [x]) call \<and> technical_true c (cc_technical call)
        \<and> technical_ref (cc_technical call) = ao_technical_basis_ref v" by blast
  qed
qed

lemma opened_evidenced:
  assumes "open_obligation E c i actor token technical = Inr r" and "cr_status r = C_applied"
    and "cr_obligation r = Some v"
  shows "evidenced E contracts k c calls v"
proof -
  have "ao_adoption v = NOT_REQUIRED \<longrightarrow> \<not> act_adoption_required c"
    using assms by (auto simp: open_obligation_def Let_def split: if_split_asm)
  with open_obligation_sound [OF assms] show ?thesis by (simp add: evidenced_def)
qed

lemma continuity_inv_chain:
  assumes "continuity_inv E contracts calls db"
  obtains rs where "obligations.load E k db = Some rs"
    "continuity_chain E (continuity_rows k db) = Some (map snd rs)"
    "\<forall>u \<in> set (map snd rs). sound_obligation u"
    "\<forall>i < length rs. ao_generation (map snd rs ! i) = int i + 1"
    "\<forall>u \<in> set (map snd rs). \<exists>r \<in> set db. acr_obligation_id r = k \<and> acr_record r = u"
proof -
  from assms have ok: "columns_agree db" "continuity_table E db" by (simp_all add: continuity_inv_def)
  from obligations.table_loads [OF ok(2)] obtain rs where rs: "obligations.load E k db = Some rs" by blast
  have rows: "\<exists>r \<in> set db. acr_obligation_id r = k \<and> acr_record r = u" if "u \<in> set (map snd rs)" for u
    using that unfolding continuity_loaded [OF rs] by (auto simp: chain_rows_def)
  have "linked (continuity_accept E) (\<lambda>(_, v). ao_digest v) 1 None rs" by (rule obligations.load_linked [OF rs])
  from obligations.revisions.chain_gens [OF this]
  have gens: "\<forall>i < length rs. ao_generation (map snd rs ! i) = int i + 1" by (auto simp: split_beta)
  have "\<forall>u \<in> set (map snd rs). sound_obligation u" using rows assms unfolding continuity_inv_def by blast
  then show thesis
    using that [OF rs] rs rows gens by (simp add: continuity_chain_load [OF ok(1)])
qed

text \<open>An inserted obligation extends the chain of the table it goes to.\<close>

lemma continuity_inserted:
  assumes seen: "continuity_inv E contracts calls0 seen" and db: "continuity_inv E contracts calls (seen @ later)"
    and "hash_ok E" and "\<not> overruns E contracts call seen"
    and admit: "continuity_admit contracts now call = Inr c"
    and dec: "continuity_decide E c call actor seen = Inr r" "cr_status r = C_applied" "cr_obligation r = Some v"
    and ins: "insert_continuity \<lparr>acr_obligation_id = ti_obligation_id (cc_intent call),
           acr_operation_id = ao_operation_id v, acr_generation = ao_generation v, acr_record = v\<rparr> (seen @ later) = Inr db'"
  shows "continuity_inv E contracts (calls @ [(now, call)]) db'"
    "\<exists>rs. obligations.load E (ti_obligation_id (cc_intent call)) (seen @ later) = Some rs
       \<and> obligations.load E (ti_obligation_id (cc_intent call)) db' = Some (rs @ [(ao_operation_id v, v)])"
    "obligations.load E (ti_obligation_id (cc_intent call)) seen
       = obligations.load E (ti_obligation_id (cc_intent call)) (seen @ later)"
proof -
  let ?k = "ti_obligation_id (cc_intent call)"
  define x where "x = \<lparr>acr_obligation_id = ?k, acr_operation_id = ao_operation_id v,
      acr_generation = ao_generation v, acr_record = v\<rparr>"
  note ins = ins [folded x_def]
  obtain rs where rs: "obligations.load E ?k seen = Some rs"
    "continuity_chain E (continuity_rows ?k seen) = Some (map snd rs)"
    "\<forall>u \<in> set (map snd rs). sound_obligation u" "\<forall>i < length rs. ao_generation (map snd rs ! i) = int i + 1"
    and rows: "\<forall>u \<in> set (map snd rs). \<exists>r \<in> set seen. acr_obligation_id r = ?k \<and> acr_record r = u"
    by (rule continuity_inv_chain [OF seen, of ?k])
  note con = continuity_admit_Inr(1) [OF admit]
  have v: "sound_obligation v" "valid_activation_obligation v" "ao_binding v = contract_stored E c"
    "continuity_accept E (int (length rs) + 1) (tip (\<lambda>(_, v). ao_digest v) rs) (ao_operation_id v, v)"
    using decided_obligation [OF dec rs(2,3) _ con assms(4,3)] rs(4) by (simp_all add: continuity_tip)
  have x: "acr_obligation_id x = ?k" "continuity_row_of x = Inr (ao_operation_id v, v)"
    "acr_generation x = ao_generation (acr_record x)" "acr_operation_id x = ao_operation_id (acr_record x)" "acr_record x = v"
    using v(2) by (simp_all add: x_def continuity_row_of_def)
  have tables: "continuity_table E seen" "continuity_table E (seen @ later)" "columns_agree (seen @ later)"
    using seen db by (simp_all add: continuity_inv_def)
  note i = insert_continuity_Inr [OF ins]
  have free: "\<forall>s \<in> set (seen @ later). \<not> (acr_obligation_id s = acr_obligation_id x
      \<and> ao_generation (acr_record s) = ao_generation (acr_record x))"
    using i(2) tables(3) x(3) unfolding columns_agree_def by (metis (no_types, lifting))
  note app = obligations.insert_applied [OF tables(1,2) refl rs(1) [folded x(1)] x(2) v(4) free]
  show "\<exists>rs. obligations.load E ?k (seen @ later) = Some rs
      \<and> obligations.load E ?k db' = Some (rs @ [(ao_operation_id v, v)])"
    using app(1,3) i(1) by (simp add: x(1))
  show "obligations.load E ?k seen = obligations.load E ?k (seen @ later)"
    using app(1) rs(1) by (simp add: x(1))
  have log: "logged contracts ?k c (calls @ [(now, call)]) call" using admit by (auto simp: logged_def)
  have "evidenced E contracts ?k c (calls @ [(now, call)]) v"
    using dec
  proof (cases rule: continuity_decide_cases)
    case opened
    from opened(2) show ?thesis by (rule opened_evidenced [OF _ dec(2,3)])
  next
    case (advanced chain cur)
    with rs(2) have "map snd rs = chain @ [cur]" by simp
    then have cur: "cur \<in> set (map snd rs)" by (simp only: set_append) simp
    with rows obtain y where y: "y \<in> set seen" "acr_obligation_id y = ?k" "acr_record y = cur" by blast
    then have "y \<in> set (seen @ later)" by simp
    with db con y(2,3) have "evidenced E contracts ?k c calls cur" unfolding continuity_inv_def by fastforce
    with cur rs(3) show ?thesis
      by (intro advanced_evidenced [OF _ _ advanced(3) dec(2,3) log]) blast+
  qed
  then have new: "sound_obligation (acr_record x) \<and> (\<exists>c. contracts (acr_obligation_id x) = Some c
      \<and> ao_binding (acr_record x) = contract_stored E c
      \<and> evidenced E contracts (acr_obligation_id x) c (calls @ [(now, call)]) (acr_record x))"
    using v(1,3) con by (simp add: x)
  have "columns_agree db'" using tables(3) x(3,4) by (simp add: i(1) columns_agree_def)
  moreover have "continuity_table E db'" using app(2) by (simp add: i(1))
  moreover have "\<forall>r \<in> set (seen @ later). sound_obligation (acr_record r)
      \<and> (\<exists>c. contracts (acr_obligation_id r) = Some c \<and> ao_binding (acr_record r) = contract_stored E c
          \<and> evidenced E contracts (acr_obligation_id r) c (calls @ [(now, call)]) (acr_record r))"
    using db evidenced_mono unfolding continuity_inv_def by meson
  ultimately show "continuity_inv E contracts (calls @ [(now, call)]) db'"
    using new unfolding continuity_inv_def i(1) by simp
qed

lemma continuity_reach_inv:
  assumes "continuity_reach E pkey contracts calls db" and "hash_ok E"
  shows "continuity_inv E contracts calls db"
  using assms(1)
proof (induction rule: continuity_reach.induct)
  case continuity_init
  then show ?case by (simp add: continuity_inv_def columns_agree_def chained_table_def)
next
  case (continuity_step calls0 seen calls later call now fault readable res db')
  from continuity_step.hyps(4) show ?case
  proof (cases rule: continuity_transition_cases)
    case kept
    with continuity_step.IH(2) show ?thesis by simp
  next
    case (inserted c actor r v)
    have "db' \<noteq> seen @ later" using insert_continuity_Inr(1) [OF inserted(5)] by simp
    with continuity_inserted(1) [OF continuity_step.IH assms(2) continuity_step.hyps(3) inserted(1-5)]
    show ?thesis by simp
  qed
qed

section \<open>Properties\<close>

text \<open>A chain that transitions extend has no terminal obligation before its last.\<close>

definition open_until_last :: "activation_obligation list \<Rightarrow> bool" where
  "open_until_last chain = (\<forall>u \<in> set (butlast chain). ao_state u \<notin> obligation_terminal)"

lemma decided_open_until_last:
  assumes "continuity_decide E c call actor seen = Inr r" and "cr_status r = C_applied" and "cr_obligation r = Some v"
    and "continuity_chain E (continuity_rows (ti_obligation_id (cc_intent call)) seen) = Some chain"
    and "open_until_last chain"
  shows "open_until_last (chain @ [v])"
  using assms(1-3)
proof (cases rule: continuity_decide_cases)
  case opened
  with assms(4) show ?thesis by (simp add: open_until_last_def)
next
  case (advanced ch cur)
  from advance_applied [OF advanced(3) assms(2)] have "ao_state cur \<notin> obligation_terminal" by blast
  moreover have "set (butlast (chain @ [v])) = insert cur (set ch)" "butlast chain = ch"
    using advanced(1) assms(4) by (simp_all add: butlast_append)
  ultimately show ?thesis using assms(5) by (simp add: open_until_last_def)
qed

lemma continuity_same_chain:
  assumes "continuity_inv E contracts calls0 seen" and "continuity_inv E contracts calls db"
    and "obligations.load E k seen = obligations.load E k db"
  shows "continuity_chain E (continuity_rows k seen) = continuity_chain E (continuity_rows k db)"
  using assms by (simp add: continuity_inv_def continuity_chain_load)

lemma reach_open_until_last:
  assumes "continuity_reach E pkey contracts calls db" and "hash_ok E"
  shows "continuity_chain E (continuity_rows k db) = Some chain \<Longrightarrow> open_until_last chain"
  using assms(1)
proof (induction arbitrary: chain rule: continuity_reach.induct)
  case continuity_init
  then show ?case
    by (simp add: continuity_rows_def chain_rows_def continuity_chain_def validated_chain_def open_until_last_def)
next
  case (continuity_step calls0 seen calls later call now fault readable res db')
  let ?k = "ti_obligation_id (cc_intent call)"
  have inv: "continuity_inv E contracts calls0 seen" "continuity_inv E contracts calls (seen @ later)"
    by (rule continuity_reach_inv [OF continuity_step.hyps(1) assms(2)],
        rule continuity_reach_inv [OF continuity_step.hyps(2) assms(2)])
  from continuity_step.hyps(4) show ?case
  proof (cases rule: continuity_transition_cases)
    case kept
    with continuity_step show ?thesis by blast
  next
    case (inserted c actor r v)
    note new = continuity_inserted [OF inv assms(2) continuity_step.hyps(3) inserted(1-5)]
    then have agree: "columns_agree (seen @ later)" "columns_agree db'" using inv by (simp_all add: continuity_inv_def)
    from new(2) obtain rs where rs: "obligations.load E ?k (seen @ later) = Some rs"
      "obligations.load E ?k db' = Some (rs @ [(ao_operation_id v, v)])" by blast
    from insert_continuity_Inr(1) [OF inserted(5)] have db': "db' = (seen @ later) @
        [\<lparr>acr_obligation_id = ?k, acr_operation_id = ao_operation_id v, acr_generation = ao_generation v, acr_record = v\<rparr>]" .
    show ?thesis
    proof (cases "k = ?k")
      case False
      have rows: "continuity_rows k db' = continuity_rows k (seen @ later)"
        using False by (simp add: db' continuity_rows_def chain_rows_def)
      from continuity_step.prems rows continuity_step.IH(2) show ?thesis by simp
    next
      case True
      obtain rs0 where rs0: "obligations.load E ?k seen = Some rs0"
        "continuity_chain E (continuity_rows ?k seen) = Some (map snd rs0)"
        by (rule continuity_inv_chain [OF inv(1), of ?k])
      have "rs0 = rs" using new(3) rs0(1) rs(1) by simp
      moreover have "chain = map snd rs @ [v]"
        using continuity_step.prems True rs(2) by (simp add: continuity_chain_load [OF agree(2)])
      ultimately show ?thesis
        using decided_open_until_last [OF inserted(2-4) rs0(2)] continuity_step.IH(1) rs0(2) True by simp
    qed
  qed
qed

text \<open>
  C30. Through any interleaving of transitions (other than a block that overruns a delivery), the
  stored history of every obligation validates and is linear: its revisions pass their validator,
  their generations count from one, each names the digest of the one before, only the last can
  be delivered, deferred or retired, and a read returns the last.
\<close>

theorem activation_history_sound:
  assumes "continuity_reach E pkey contracts calls db" and "hash_ok E"
  shows "\<exists>chain. continuity_chain E (continuity_rows k db) = Some chain
     \<and> (\<forall>i < length chain. valid_activation_obligation (chain ! i) \<and> ao_generation (chain ! i) = int i + 1
          \<and> ao_predecessor (chain ! i) = tip ao_digest (take i chain)
          \<and> (Suc i < length chain \<longrightarrow> ao_state (chain ! i) \<notin> obligation_terminal))
     \<and> continuity_get E True k db =
         (if chain = [] then no_obligation C_missing ''obligation_missing''
          else \<lparr>cr_status = C_current, cr_obligation = Some (last chain), cr_reason = None\<rparr>)"
proof -
  have inv: "continuity_inv E contracts calls db" by (rule continuity_reach_inv [OF assms])
  obtain rs where rs: "obligations.load E k db = Some rs"
    and chain: "continuity_chain E (continuity_rows k db) = Some (map snd rs)"
    and gens: "\<forall>i < length rs. ao_generation (map snd rs ! i) = int i + 1"
    by (rule continuity_inv_chain [OF inv, of k])
  note links = obligations.load_linked [OF rs]
  have "list_all2 (\<lambda>v r. continuity_row_of v = Inr r)
      (chain_rows acr_obligation_id (\<lambda>r. ao_generation (acr_record r)) k db) rs"
    using rs unfolding obligations.load_Some mapE_list by blast
  then have valid: "\<forall>u \<in> set (map snd rs). valid_activation_obligation u"
    by (induction rule: list_all2_induct) (auto simp: continuity_row_of_def split: if_splits)
  have prev: "ao_predecessor (map snd rs ! i) = tip ao_digest (take i (map snd rs))" if "i < length rs" for i
  proof -
    have "(case rs ! i of (_, v) \<Rightarrow> ao_predecessor v) = tip (\<lambda>(_, v). ao_digest v) (take i rs)"
      by (rule obligations.revisions.chain_prev [OF links that])
    also have "\<dots> = tip ao_digest (map snd (take i rs))" by (rule continuity_tip)
    finally show ?thesis using that by (simp add: split_beta take_map)
  qed
  have "open_until_last (map snd rs)" by (rule reach_open_until_last [OF assms chain])
  then have ends: "ao_state (map snd rs ! i) \<notin> obligation_terminal" if "Suc i < length rs" for i
    using that unfolding open_until_last_def
    by (metis (no_types, lifting) add.commute length_butlast length_map less_diff_conv nth_butlast nth_mem plus_1_eq_Suc)
  have get: "continuity_get E True k db =
         (if map snd rs = [] then no_obligation C_missing ''obligation_missing''
          else \<lparr>cr_status = C_current, cr_obligation = Some (last (map snd rs)), cr_reason = None\<rparr>)"
    by (simp add: continuity_get_def chain)
  show ?thesis
    by (rule exI [of _ "map snd rs"]) (use chain valid gens prev ends get in simp)
qed


text \<open>
  The newest digest identifies the whole history: two stored chains with the same last digest
  are the same list of obligations, unless two different stored records have the same SHA-256.
\<close>

theorem head_digest_fixes_history:
  assumes "continuity_chain E rows = Some chain" and "continuity_chain E rows' = Some chain'"
    and "tip ao_digest chain = tip ao_digest chain'"
    and "inj_on (ae_sha256 E) (obligation_payload ` (set chain \<union> set chain'))"
  shows "chain = chain'"
proof -
  from assms(1,2) obtain rs rs' where
    rs: "validated_chain continuity_row_of (continuity_accept E) (\<lambda>(_, v). ao_digest v) rows = Some rs"
      "validated_chain continuity_row_of (continuity_accept E) (\<lambda>(_, v). ao_digest v) rows' = Some rs'"
    and snd: "chain = map snd rs" "chain' = map snd rs'" by (auto simp: continuity_chain_def)
  from rs have l: "linked (continuity_accept E) (\<lambda>(_, v). ao_digest v) 1 None rs"
    "linked (continuity_accept E) (\<lambda>(_, v). ao_digest v) 1 None rs'"
    by (auto simp: validated_chain_def split: sum.splits if_splits)
  have acc: "\<exists>g p. continuity_accept E g p x" if "x \<in> set xs" "linked (continuity_accept E) (\<lambda>(_, v). ao_digest v) g p xs"
    for x xs g p using that by (induction xs arbitrary: g p) auto
  have sealed: "fst x = ao_operation_id (snd x) \<and> ao_digest (snd x) = ae_sha256 E (obligation_payload (snd x))"
    if "x \<in> set rs \<union> set rs'" for x
    using that acc [OF _ l(1)] acc [OF _ l(2)]
    by (cases x) (force simp: continuity_accept_def seal_obligation_def)
  have "inj_on (\<lambda>(_, v). ao_digest v) (set rs \<union> set rs')"
  proof (rule inj_onI)
    fix x y
    assume xy: "x \<in> set rs \<union> set rs'" "y \<in> set rs \<union> set rs'" "(case x of (_, v) \<Rightarrow> ao_digest v) = (case y of (_, v) \<Rightarrow> ao_digest v)"
    then have d: "ao_digest (snd x) = ao_digest (snd y)" by (simp add: split_beta)
    with sealed [OF xy(1)] sealed [OF xy(2)]
    have "ae_sha256 E (obligation_payload (snd x)) = ae_sha256 E (obligation_payload (snd y))" by simp
    then have "obligation_payload (snd x) = obligation_payload (snd y)"
      by (rule inj_onD [OF assms(4)]) (use xy(1,2) in \<open>auto simp: snd\<close>)
    then have "snd x = snd y" by (rule obligation_payload_inject [OF _ d])
    then show "x = y" using sealed [OF xy(1)] sealed [OF xy(2)] by (simp add: prod_eq_iff)
  qed
  then have "rs = rs'"
    by (rule obligations.revisions.tip_determines_chain [OF l])
       (use assms(3) in \<open>simp only: continuity_tip snd\<close>)
  then show ?thesis by (simp add: snd)
qed

text \<open>An undisturbed applied transition.\<close>

lemma continuity_transition_applied:
  assumes "continuity_admit contracts now call = Inr c"
    and "continuity_decide E c call (actor_ref E (pkey (cc_principal call)) (cc_grant call) (cc_runtime call)) seen
           = Inr \<lparr>cr_status = C_applied, cr_obligation = Some v, cr_reason = None\<rparr>"
    and "insert_continuity \<lparr>acr_obligation_id = ti_obligation_id (cc_intent call), acr_operation_id = ao_operation_id v,
           acr_generation = ao_generation v, acr_record = v\<rparr> db = Inr db'"
  shows "continuity_transition E pkey contracts now No_fault readable call seen db
    = (Inr \<lparr>cr_status = C_applied, cr_obligation = Some v, cr_reason = None\<rparr>, db')"
  using assms by (simp add: continuity_transition_def Let_def)

text \<open>The overrunning block as the transition computes it.\<close>

lemma overrun_decided:
  assumes "sound_obligation cur" and "ao_state cur \<notin> obligation_terminal" and "ao_state cur \<noteq> ''BLOCKED''"
    and "block_overrun c cur i technical" and "nonempty_ref (ti_blocker_ref i)" "nonempty_ref (ti_clearing_event_ref i)"
    and "ti_observed_revision i = ao_digest cur" and "ao_operation_id cur \<noteq> ti_operation_id i"
  shows "\<exists>v. advance_obligation E c cur i actor token technical pf
      = \<lparr>cr_status = C_applied, cr_obligation = Some v, cr_reason = None\<rparr>
    \<and> ao_state v = ''DELIVERED'' \<and> ao_generation v = ao_generation cur + 1 \<and> ao_operation_id v = ti_operation_id i
    \<and> \<not> valid_activation_obligation v"
proof -
  define w where "w = cur\<lparr>ao_state := ''BLOCKED'', ao_blocker_ref := ti_blocker_ref i,
      ao_blocker_phase := Some (ao_state cur), ao_clearing_event_ref := ti_clearing_event_ref i\<rparr>"
  have t: "ti_transition i = BLOCK" "ao_acceptance cur = PASS" "adoption_complete cur" "technical_true c technical"
    using assms(4) by (simp_all add: block_overrun_def)
  have "obligation_changes E c cur i technical pf = Inr w"
    using assms(3,5,6) t(1) by (simp add: obligation_changes_def w_def)
  moreover define v where "v = seal_obligation E (delivery_step c technical (stamped E cur i actor token w))"
  ultimately have run: "advance_obligation E c cur i actor token technical pf
      = \<lparr>cr_status = C_applied, cr_obligation = Some v, cr_reason = None\<rparr>"
    using assms(2,7,8) by (simp add: advance_obligation_def)
  have "\<not> obligation_coherent v"
    using advance_step_sound [OF assms(1) run, of v] assms(4) by simp
  moreover have "ao_state v = ''DELIVERED''"
    using t by (simp add: v_def delivery_step_def w_def adoption_complete_def)
  moreover have "ao_generation v = ao_generation cur + 1" "ao_operation_id v = ti_operation_id i"
    using advance_fields(1,3) [OF run] by simp_all
  ultimately show ?thesis
    using run unfolding valid_activation_obligation_def by blast
qed

text \<open>
  C31. A block recorded on an accepted obligation whose acceptance passed and adoption is complete,
  while the product is current, is applied as a delivery that still carries the blocker. The
  stored revision fails its own validator: from then on every read of the obligation and every
  admitted transition on it answers that the revision chain is corrupt, whatever is stored
  afterwards.
\<close>

theorem block_overrun_hides_obligation:
  assumes "continuity_reach E pkey contracts calls db" and "hash_ok E"
    and "continuity_admit contracts now call = Inr c"
    and "continuity_get E True (ti_obligation_id (cc_intent call)) db
           = \<lparr>cr_status = C_current, cr_obligation = Some cur, cr_reason = None\<rparr>"
    and "ao_state cur \<notin> obligation_terminal" and "ao_state cur \<noteq> ''BLOCKED''"
    and "block_overrun c cur (cc_intent call) (cc_technical call)"
    and "nonempty_ref (ti_blocker_ref (cc_intent call))" and "nonempty_ref (ti_clearing_event_ref (cc_intent call))"
    and "ti_observed_revision (cc_intent call) = ao_digest cur"
    and "ti_operation_id (cc_intent call) \<notin> acr_operation_id ` set db"
  shows "\<exists>v db'. continuity_transition E pkey contracts now No_fault readable call db db
        = (Inr \<lparr>cr_status = C_applied, cr_obligation = Some v, cr_reason = None\<rparr>, db')
     \<and> ao_state v = ''DELIVERED''
     \<and> (\<forall>later. continuity_get E True (ti_obligation_id (cc_intent call)) (db' @ later)
          = no_obligation C_unknown ''corrupt_revision_chain'')
     \<and> (\<forall>later call' c' now' fault' readable'.
          ti_obligation_id (cc_intent call') = ti_obligation_id (cc_intent call)
          \<and> continuity_admit contracts now' call' = Inr c'
          \<longrightarrow> continuity_transition E pkey contracts now' fault' readable' call' (db' @ later) (db' @ later)
              = (Inr (no_obligation C_unknown ''corrupt_revision_chain''), db' @ later))"
proof -
  let ?k = "ti_obligation_id (cc_intent call)" and ?i = "cc_intent call"
  let ?actor = "actor_ref E (pkey (cc_principal call)) (cc_grant call) (cc_runtime call)"
  have inv: "continuity_inv E contracts calls db" by (rule continuity_reach_inv [OF assms(1,2)])
  obtain rs where load: "obligations.load E ?k db = Some rs"
    and chain: "continuity_chain E (continuity_rows ?k db) = Some (map snd rs)"
    and gens: "\<forall>i < length rs. ao_generation (map snd rs ! i) = int i + 1"
    and rows: "\<forall>u \<in> set (map snd rs). \<exists>r \<in> set db. acr_obligation_id r = ?k \<and> acr_record r = u"
    by (rule continuity_inv_chain [OF inv, of ?k])
  from assms(4) chain have rs: "rs \<noteq> []" "cur = last (map snd rs)"
    by (auto simp: continuity_get_def split: if_split_asm)
  then have "cur \<in> set (map snd rs)" by (simp only: last_in_set map_is_Nil_conv not_False_eq_True)
  with rows obtain y where y: "y \<in> set db" "acr_obligation_id y = ?k" "acr_record y = cur" by blast
  from continuity_admit_Inr(1) [OF assms(3)] inv y have cur: "sound_obligation cur" "ao_binding cur = contract_stored E c"
    and col: "columns_agree db" unfolding continuity_inv_def by force+
  have "acr_operation_id y = ao_operation_id cur" using col y by (auto simp: columns_agree_def)
  with assms(11) y(1) have "ao_operation_id cur \<noteq> ti_operation_id ?i" by (metis imageI)
  from overrun_decided [OF cur(1) assms(5-10) this, of E ?actor "rb_binding_token (cc_runtime call)" "cc_proof call"]
  obtain v where v: "advance_obligation E c cur ?i ?actor (rb_binding_token (cc_runtime call)) (cc_technical call) (cc_proof call)
      = \<lparr>cr_status = C_applied, cr_obligation = Some v, cr_reason = None\<rparr>"
    "ao_state v = ''DELIVERED''" "ao_generation v = ao_generation cur + 1" "ao_operation_id v = ti_operation_id ?i"
    "\<not> valid_activation_obligation v" by blast
  define x where "x = \<lparr>acr_obligation_id = ?k, acr_operation_id = ao_operation_id v,
      acr_generation = ao_generation v, acr_record = v\<rparr>"
  have "ao_generation cur = int (length rs)"
    using gens rs by (cases rs rule: rev_cases) (auto simp: nth_append)
  moreover have "ao_generation (acr_record s) \<le> int (length rs)" if "s \<in> set db" "acr_obligation_id s = ?k" for s
  proof -
    have "acr_record s \<in> set (map snd rs)"
      unfolding continuity_loaded [OF load] using that by (simp add: chain_rows_def)
    then obtain i where "i < length rs" "map snd rs ! i = acr_record s" by (metis in_set_conv_nth length_map)
    with gens show ?thesis by force
  qed
  ultimately have "insert_continuity x db = Inr (db @ [x])"
    using assms(11) col v(3,4) by (force simp: insert_continuity_def x_def columns_agree_def)
  moreover have "continuity_decide E c call ?actor db = Inr \<lparr>cr_status = C_applied, cr_obligation = Some v, cr_reason = None\<rparr>"
    using chain rs cur(2) v(1) by (simp add: continuity_decide_def)
  ultimately have run: "continuity_transition E pkey contracts now No_fault readable call db db
      = (Inr \<lparr>cr_status = C_applied, cr_obligation = Some v, cr_reason = None\<rparr>, db @ [x])"
    by (intro continuity_transition_applied [OF assms(3)]) (simp_all add: x_def)
  have corrupt: "continuity_chain E (continuity_rows ?k ((db @ [x]) @ later)) = None" for later
    by (rule continuity_corrupt [of x]) (use v(5) in \<open>simp_all add: x_def\<close>)
  then have "continuity_get E True ?k ((db @ [x]) @ later) = no_obligation C_unknown ''corrupt_revision_chain''" for later
    by (simp add: continuity_get_def)
  moreover have "continuity_transition E pkey contracts now' fault' readable' call' ((db @ [x]) @ later) ((db @ [x]) @ later)
      = (Inr (no_obligation C_unknown ''corrupt_revision_chain''), (db @ [x]) @ later)"
    if "ti_obligation_id (cc_intent call') = ?k" "continuity_admit contracts now' call' = Inr c'"
    for later call' c' now' fault' readable'
    using corrupt [of later] that by (simp add: continuity_transition_def continuity_decide_def Let_def)
  ultimately show ?thesis using run v(2) by blast
qed

section \<open>Concrete runs for the witnesses\<close>

definition demo_env :: activation_env where
  "demo_env = \<lparr>ae_sha256 = (\<lambda>_. zero_digest), ae_uuid5 = (\<lambda>_. 7)\<rparr>"

definition demo_contract :: activation_contract where
  "demo_contract = \<lparr>act_product_work_id = 10, act_outcome_key = ''k'', act_target_revision = ''r'',
     act_target_phase = ''p'', act_return_owner_work_id = 10, act_acceptance_contract_id = ''a'',
     act_contract_revision = ''1'', act_acceptance_verifier_work_id = None, act_adoption_required = False,
     act_adoption_actor_work_id = None, act_lifecycle_authority_work_id = 10\<rparr>"

definition demo_contracts :: "uuid \<Rightarrow> activation_contract option" where
  "demo_contracts = [7 \<mapsto> demo_contract]"

definition demo_basis :: technical_basis where
  "demo_basis = \<lparr>tb_target_revision = ''r'', tb_target_phase = ''p'', tb_current = True,
     tb_result = \<lparr>pc_ok = True, pc_product_work_id = 10, pc_current_true = True, pc_reconciliation_id = 9, pc_blockers = []\<rparr>\<rparr>"

definition demo_proof :: transition_proof where
  "demo_proof = \<lparr>tp_kind = Acceptance_proof, tp_obligation_id = 7, tp_product_work_id = 10,
     tp_target_revision = ''r'', tp_target_phase = ''p'', tp_acceptance_contract_id = ''a'', tp_contract_revision = ''1'',
     tp_currentness = Proof_current, tp_evidence_refs = [''e''], tp_clearing_event_ref = None\<rparr>"

definition demo_call :: "uuid \<Rightarrow> string \<Rightarrow> activation_transition \<Rightarrow> technical_basis option \<Rightarrow> continuity_call" where
  "demo_call op observed t technical = \<lparr>cc_principal = demo_principal, cc_grant = demo_grant,
     cc_runtime = \<lparr>rb_actor_work_id = 10, rb_binding_token = ''tok'', rb_currentness = Proof_current\<rparr>,
     cc_intent = \<lparr>ti_operation_id = op, ti_obligation_id = 7, ti_observed_revision = observed, ti_transition = t,
       ti_evidence_refs = [], ti_blocker_ref = (if t = BLOCK then Some ''b'' else None),
       ti_clearing_event_ref = (if t = BLOCK then Some ''ev'' else None)\<rparr>,
     cc_technical = technical, cc_proof = Some demo_proof\<rparr>"

definition demo_opened :: activation_obligation where
  "demo_opened = \<lparr>ao_binding = contract_stored demo_env demo_contract, ao_state = ''VERIFY_NOW'', ao_acceptance = NOT_RUN,
     ao_adoption = NOT_REQUIRED, ao_blocker_ref = None, ao_blocker_phase = None, ao_clearing_event_ref = None,
     ao_acceptance_proof = [], ao_adoption_proof = [], ao_actor_ref = zero_digest, ao_runtime_binding_token = ''tok'',
     ao_technical_basis_ref = Some (uuid_str 9), ao_generation = 1, ao_predecessor = None, ao_operation_id = 100,
     ao_intent_digest = zero_digest, ao_digest = zero_digest\<rparr>"

definition demo_verdict :: "string \<Rightarrow> activation_obligation" where
  "demo_verdict state = demo_opened\<lparr>ao_state := state, ao_acceptance := PASS, ao_acceptance_proof := [''e''],
     ao_generation := 2, ao_predecessor := Some zero_digest, ao_operation_id := 101\<rparr>"

definition demo_obligation_row :: "activation_obligation \<Rightarrow> continuity_row" where
  "demo_obligation_row v = \<lparr>acr_obligation_id = 7, acr_operation_id = ao_operation_id v, acr_generation = ao_generation v, acr_record = v\<rparr>"

lemma demo_hash: "hash_ok demo_env"
  by (simp add: hash_ok_def demo_env_def lower_hex_def zero_digest_def list_all_iff)

lemma demo_admit: "t \<noteq> ADOPTION_ADOPTED \<Longrightarrow> continuity_admit demo_contracts 5 (demo_call op ob t b) = Inr demo_contract"
  by (cases t) (simp_all add: continuity_admit_def demo_contracts_def demo_call_def demo_grant_def grant_current_def
      authorized_def demo_contract_def)

lemma demo_seal: "seal_obligation demo_env v = v\<lparr>ao_digest := zero_digest\<rparr>"
  by (simp add: seal_obligation_def demo_env_def)

lemma demo_hashes: "intent_digest demo_env i a = zero_digest" "actor_ref demo_env p g r = zero_digest"
  by (simp_all add: intent_digest_def actor_ref_def demo_env_def)

lemma demo_technical: "technical_true demo_contract (Some demo_basis)" "technical_ref (Some demo_basis) = Some (uuid_str 9)"
  by (simp_all add: technical_true_def demo_contract_def demo_basis_def technical_ref_def)

lemma demo_matches: "proof_matches demo_env demo_contract (cc_intent (demo_call op ob ACCEPTANCE_PASS b)) (Some demo_proof) Acceptance_proof"
  by (simp add: proof_matches_def demo_proof_def demo_contract_def demo_call_def contract_obligation_id_def demo_env_def)

lemma demo_valid:
  "valid_activation_obligation demo_opened" "s \<in> {''ACCEPTED'', ''DELIVERED''} \<Longrightarrow> valid_activation_obligation (demo_verdict s)"
  by (auto simp: valid_activation_obligation_def demo_opened_def demo_verdict_def obligation_states_def
      obligation_coherent_def lower_hex_def zero_digest_def list_all_iff)

lemma demo_step1:
  "continuity_transition demo_env pkey demo_contracts 5 No_fault True (demo_call 100 ''MISSING'' ACTIVATED (Some demo_basis)) [] []
     = (Inr \<lparr>cr_status = C_applied, cr_obligation = Some demo_opened, cr_reason = None\<rparr>, [demo_obligation_row demo_opened])"
proof -
  have "open_obligation demo_env demo_contract (cc_intent (demo_call 100 ''MISSING'' ACTIVATED (Some demo_basis))) zero_digest
      ''tok'' (Some demo_basis) = Inr \<lparr>cr_status = C_applied, cr_obligation = Some demo_opened, cr_reason = None\<rparr>"
    using demo_technical demo_valid(1)
    by (simp add: open_obligation_def demo_hashes demo_seal demo_opened_def demo_call_def demo_contract_def Let_def)
  then show ?thesis
    by (intro continuity_transition_applied [OF demo_admit])
       (simp_all add: demo_hashes continuity_decide_def continuity_rows_def chain_rows_def continuity_chain_def
         validated_chain_def insert_continuity_def demo_obligation_row_def demo_call_def)
qed

text \<open>The chain of the demonstration table, and a verdict on top of it.\<close>

lemma demo_chain1: "continuity_chain demo_env (continuity_rows 7 [demo_obligation_row demo_opened]) = Some [demo_opened]"
  using demo_valid(1)
  by (simp add: continuity_rows_def chain_rows_def demo_obligation_row_def continuity_chain_def validated_chain_def continuity_row_of_def
      continuity_accept_def demo_seal) (simp add: demo_opened_def)

lemma demo_chain2:
  assumes "s \<in> {''ACCEPTED'', ''DELIVERED''}"
  shows "continuity_chain demo_env (continuity_rows 7 [demo_obligation_row demo_opened, demo_obligation_row (demo_verdict s)])
    = Some [demo_opened, demo_verdict s]"
proof -
  have "continuity_rows 7 [demo_obligation_row demo_opened, demo_obligation_row (demo_verdict s)] = [demo_obligation_row demo_opened, demo_obligation_row (demo_verdict s)]"
    by (simp add: continuity_rows_def chain_rows_def demo_obligation_row_def) (simp add: demo_opened_def demo_verdict_def)
  moreover have "continuity_row_of (demo_obligation_row demo_opened) = Inr (100, demo_opened)"
    "continuity_row_of (demo_obligation_row (demo_verdict s)) = Inr (101, demo_verdict s)"
    using demo_valid assms by (simp_all add: continuity_row_of_def demo_obligation_row_def) (simp_all add: demo_opened_def demo_verdict_def)
  moreover have "continuity_accept demo_env 1 None (100, demo_opened)"
    "continuity_accept demo_env 2 (Some (ao_digest demo_opened)) (101, demo_verdict s)"
    by (simp_all add: continuity_accept_def demo_seal) (simp_all add: demo_opened_def demo_verdict_def)
  ultimately show ?thesis by (simp add: continuity_chain_def validated_chain_def)
qed

lemma demo_step2:
  assumes "b = None \<and> s = ''ACCEPTED'' \<or> b = Some demo_basis \<and> s = ''DELIVERED''"
  shows "continuity_transition demo_env pkey demo_contracts 5 No_fault True
      (demo_call 101 zero_digest ACCEPTANCE_PASS b) [demo_obligation_row demo_opened] [demo_obligation_row demo_opened]
    = (Inr \<lparr>cr_status = C_applied, cr_obligation = Some (demo_verdict s), cr_reason = None\<rparr>,
       [demo_obligation_row demo_opened, demo_obligation_row (demo_verdict s)])"
proof -
  let ?call = "demo_call 101 zero_digest ACCEPTANCE_PASS b"
  have "obligation_changes demo_env demo_contract demo_opened (cc_intent ?call) b (Some demo_proof)
      = Inr (demo_opened\<lparr>ao_acceptance := PASS, ao_acceptance_proof := [''e''], ao_state := ''ACCEPTED''\<rparr>)"
    using demo_matches [of 101 zero_digest b]
    by (simp add: obligation_changes_def demo_opened_def) (simp add: demo_call_def demo_proof_def)
  moreover have "delivery_step demo_contract b (stamped demo_env demo_opened (cc_intent ?call) zero_digest ''tok''
      (demo_opened\<lparr>ao_acceptance := PASS, ao_acceptance_proof := [''e''], ao_state := ''ACCEPTED''\<rparr>)) = demo_verdict s"
    using assms demo_technical
    by (auto simp: delivery_step_def stamped_def demo_hashes demo_opened_def demo_verdict_def adoption_complete_def
        demo_call_def technical_true_def)
  moreover have "seal_obligation demo_env (demo_verdict s) = demo_verdict s"
    by (simp add: demo_seal demo_verdict_def demo_opened_def)
  ultimately have adv: "advance_obligation demo_env demo_contract demo_opened (cc_intent ?call) zero_digest ''tok'' b (Some demo_proof)
      = \<lparr>cr_status = C_applied, cr_obligation = Some (demo_verdict s), cr_reason = None\<rparr>"
    by (simp add: advance_obligation_def obligation_terminal_def) (simp add: demo_opened_def demo_call_def)
  have bind: "ao_binding demo_opened = contract_stored demo_env demo_contract" by (simp add: demo_opened_def)
  show ?thesis
  proof (rule continuity_transition_applied [OF demo_admit])
    show "continuity_decide demo_env demo_contract ?call
        (actor_ref demo_env (pkey (cc_principal ?call)) (cc_grant ?call) (cc_runtime ?call)) [demo_obligation_row demo_opened]
      = Inr \<lparr>cr_status = C_applied, cr_obligation = Some (demo_verdict s), cr_reason = None\<rparr>"
      using adv demo_chain1 bind by (simp add: continuity_decide_def demo_hashes demo_call_def)
    show "insert_continuity \<lparr>acr_obligation_id = ti_obligation_id (cc_intent ?call),
        acr_operation_id = ao_operation_id (demo_verdict s), acr_generation = ao_generation (demo_verdict s),
        acr_record = demo_verdict s\<rparr> [demo_obligation_row demo_opened] = Inr [demo_obligation_row demo_opened, demo_obligation_row (demo_verdict s)]"
      by (simp add: insert_continuity_def demo_obligation_row_def demo_call_def) (simp add: demo_opened_def demo_verdict_def)
  qed simp
qed

definition demo_pkey :: "principal \<Rightarrow> string" where
  "demo_pkey p = pr_subject p"

definition demo_calls :: "technical_basis option \<Rightarrow> (int \<times> continuity_call) list" where
  "demo_calls b = [(5, demo_call 100 ''MISSING'' ACTIVATED (Some demo_basis)), (5, demo_call 101 zero_digest ACCEPTANCE_PASS b)]"

lemma demo_no_overrun: "t \<noteq> BLOCK \<Longrightarrow> \<not> overruns demo_env demo_contracts (demo_call op ob t b) seen"
  by (simp add: overruns_def block_overrun_def demo_call_def split: option.split)

lemma reach_alone:
  assumes "continuity_reach E pkey contracts calls db" and "\<not> overruns E contracts call db"
    and "continuity_transition E pkey contracts now fault readable call db db = (res, db')" and "db' \<noteq> db"
  shows "continuity_reach E pkey contracts (calls @ [(now, call)]) db'"
  using continuity_step [of E pkey contracts calls db calls "[]" call now fault readable res db'] assms by simp

lemma demo_reach:
  assumes "b = None \<and> s = ''ACCEPTED'' \<or> b = Some demo_basis \<and> s = ''DELIVERED''"
  shows "continuity_reach demo_env demo_pkey demo_contracts (demo_calls b) [demo_obligation_row demo_opened, demo_obligation_row (demo_verdict s)]"
proof -
  have "continuity_reach demo_env demo_pkey demo_contracts
      ([] @ [(5, demo_call 100 ''MISSING'' ACTIVATED (Some demo_basis))]) [demo_obligation_row demo_opened]"
    by (rule reach_alone [OF continuity_init demo_no_overrun demo_step1]) simp_all
  from reach_alone [OF this demo_no_overrun demo_step2 [OF assms]] show ?thesis by (simp add: demo_calls_def)
qed

lemma demo_get:
  assumes "s \<in> {''ACCEPTED'', ''DELIVERED''}"
  shows "continuity_get demo_env True 7 [demo_obligation_row demo_opened, demo_obligation_row (demo_verdict s)]
    = \<lparr>cr_status = C_current, cr_obligation = Some (demo_verdict s), cr_reason = None\<rparr>"
  by (simp add: continuity_get_def demo_chain2 [OF assms])

theorem activation_history_sound_witness:
  "\<exists>chain. continuity_chain demo_env (continuity_rows 7 [demo_obligation_row demo_opened, demo_obligation_row (demo_verdict ''DELIVERED'')]) = Some chain
     \<and> (\<forall>i < length chain. ao_generation (chain ! i) = int i + 1)"
  using activation_history_sound [OF demo_reach [of "Some demo_basis" "''DELIVERED''"] demo_hash, of 7] by auto


theorem head_digest_fixes_history_witness:
  "\<exists>chain. continuity_chain demo_env (continuity_rows 7 [demo_obligation_row demo_opened]) = Some chain \<and> chain = [demo_opened]"
proof -
  have "[demo_opened] = [demo_opened]"
    by (rule head_digest_fixes_history [OF demo_chain1 demo_chain1]) simp_all
  with demo_chain1 show ?thesis by blast
qed

theorem block_overrun_hides_obligation_witness:
  "\<exists>v db'. continuity_transition demo_env demo_pkey demo_contracts 5 No_fault True
       (demo_call 102 zero_digest BLOCK (Some demo_basis))
       [demo_obligation_row demo_opened, demo_obligation_row (demo_verdict ''ACCEPTED'')] [demo_obligation_row demo_opened, demo_obligation_row (demo_verdict ''ACCEPTED'')]
     = (Inr \<lparr>cr_status = C_applied, cr_obligation = Some v, cr_reason = None\<rparr>, db') \<and> ao_state v = ''DELIVERED''"
proof -
  let ?call = "demo_call 102 zero_digest BLOCK (Some demo_basis)"
  let ?cur = "demo_verdict ''ACCEPTED''"
  have k: "ti_obligation_id (cc_intent ?call) = 7" by (simp add: demo_call_def)
  have cur: "ao_state ?cur = ''ACCEPTED''" "ao_acceptance ?cur = PASS" "ao_adoption ?cur = NOT_REQUIRED" "ao_digest ?cur = zero_digest"
    by (simp_all add: demo_verdict_def demo_opened_def)
  have "block_overrun demo_contract ?cur (cc_intent ?call) (cc_technical ?call)"
    using demo_technical(1) cur by (simp add: block_overrun_def adoption_complete_def demo_call_def)
  moreover have "nonempty_ref (ti_blocker_ref (cc_intent ?call))" "nonempty_ref (ti_clearing_event_ref (cc_intent ?call))"
    "ti_observed_revision (cc_intent ?call) = ao_digest ?cur"
    "ti_operation_id (cc_intent ?call) \<notin> acr_operation_id ` set [demo_obligation_row demo_opened, demo_obligation_row ?cur]"
    using cur(4) by (simp_all add: demo_call_def nonempty_ref_def demo_obligation_row_def) (simp add: demo_verdict_def demo_opened_def)
  moreover have "ao_state ?cur \<notin> obligation_terminal" "ao_state ?cur \<noteq> ''BLOCKED''"
    by (simp_all add: cur(1) obligation_terminal_def)
  moreover have "continuity_get demo_env True (ti_obligation_id (cc_intent ?call)) [demo_obligation_row demo_opened, demo_obligation_row ?cur]
      = \<lparr>cr_status = C_current, cr_obligation = Some ?cur, cr_reason = None\<rparr>"
    unfolding k by (rule demo_get) simp
  moreover have "continuity_admit demo_contracts 5 ?call = Inr demo_contract" by (rule demo_admit) simp
  moreover have "continuity_reach demo_env demo_pkey demo_contracts (demo_calls None) [demo_obligation_row demo_opened, demo_obligation_row ?cur]"
    by (rule demo_reach) simp
  ultimately show ?thesis
    using block_overrun_hides_obligation [OF _ demo_hash, of demo_pkey demo_contracts "demo_calls None"
        "[demo_obligation_row demo_opened, demo_obligation_row ?cur]" 5 ?call demo_contract ?cur True] by blast
qed

end
