(* ===== verification/Human_Review.thy ===== *)
theory Human_Review
  imports Work_Store Revision_Chain
begin

text \<open>
  Human Review consequences (\<open>src/switchstand/human_reviews.py\<close>): the exact meaning of approving
  one package revision, the table that stores it with its decision, the reads of approved
  baselines and the three transactions \<open>propose\<close>, \<open>prepare\<close> and \<open>submit\<close>. The SHA-256 of
  canonical JSON, \<open>uuid5\<close>, \<open>str.casefold\<close> and the digest of \<open>canonical_revision\<close> are the
  fields of \<open>review_env\<close>; the server clock and the way a transaction ends are arguments. Every
  transaction locks the package's work row before it reads or writes, so the transactions of
  one package follow each other.
\<close>

section \<open>Consequences\<close>

record review_env =
  rve_sha256 :: "json \<Rightarrow> string"
  rve_uuid5 :: "string \<Rightarrow> uuid"
  rve_casefold :: "string \<Rightarrow> string"
  rve_revision :: "uuid \<Rightarrow> int \<Rightarrow> string"

text \<open>\<open>BoundedBaselineText\<close>: 1 to 1024 characters, one of them not white space (regex \<open>\S\<close>).\<close>

definition regex_space :: "char \<Rightarrow> bool" where
  "regex_space c = (let n = (of_char c :: nat) in (9 \<le> n \<and> n \<le> 13) \<or> n = 32 \<or> n = 133 \<or> n = 160)"

definition baseline_text :: "string \<Rightarrow> bool" where
  "baseline_text s = (1 \<le> length s \<and> length s \<le> 1024 \<and> (\<exists>c \<in> set s. \<not> regex_space c))"

definition baseline_texts :: "nat \<Rightarrow> nat \<Rightarrow> string list \<Rightarrow> bool" where
  "baseline_texts least most vs =
     (least \<le> length vs \<and> length vs \<le> most \<and> (\<forall>v \<in> set vs. baseline_text v))"

record review_opening =
  hro_what_you_asked :: string
  hro_what_this_does :: string
  hro_what_this_does_not_or_changes_for_you :: string
  hro_size :: string

record review_context =
  hdc_size_or_burden :: "string list"
  hdc_scale_assumptions :: "string list"
  hdc_material_risks_and_boundaries :: "string list"

datatype continuation = IMPLEMENT | LAND | ACTIVATE

record review_baseline =
  hrb_human_source_refs :: "string list"
  hrb_opening :: review_opening
  hrb_approved_meaning :: "string list"
  hrb_protected_requirements :: "string list"
  hrb_approved_non_goals :: "string list"
  hrb_decision_context :: review_context
  hrb_continuation_effects :: "continuation list"
  hrb_supersedes_baseline_id :: "uuid option"

definition valid_opening :: "review_opening \<Rightarrow> bool" where
  "valid_opening o' =
     (baseline_text (hro_what_you_asked o') \<and> baseline_text (hro_what_this_does o')
      \<and> baseline_text (hro_what_this_does_not_or_changes_for_you o') \<and> baseline_text (hro_size o'))"

definition valid_context :: "review_context \<Rightarrow> bool" where
  "valid_context d =
     (baseline_texts 1 16 (hdc_size_or_burden d) \<and> baseline_texts 0 16 (hdc_scale_assumptions d)
      \<and> baseline_texts 0 32 (hdc_material_risks_and_boundaries d))"

definition valid_baseline :: "review_baseline \<Rightarrow> bool" where
  "valid_baseline b =
     (baseline_texts 1 32 (hrb_human_source_refs b) \<and> valid_opening (hrb_opening b)
      \<and> baseline_texts 1 32 (hrb_approved_meaning b)
      \<and> baseline_texts 1 64 (hrb_protected_requirements b)
      \<and> baseline_texts 0 32 (hrb_approved_non_goals b) \<and> valid_context (hrb_decision_context b)
      \<and> 1 \<le> length (hrb_continuation_effects b) \<and> length (hrb_continuation_effects b) \<le> 3)"

definition unique_items :: "review_baseline \<Rightarrow> bool" where
  "unique_items b =
     (list_all distinct [hrb_human_source_refs b, hrb_approved_meaning b,
        hrb_protected_requirements b, hrb_approved_non_goals b,
        hdc_size_or_burden (hrb_decision_context b), hdc_scale_assumptions (hrb_decision_context b),
        hdc_material_risks_and_boundaries (hrb_decision_context b)]
      \<and> distinct (hrb_continuation_effects b))"

datatype approval_effect = Ready_for_implementation_only | Clear_human_review_for_named_continuation

record review_requester =
  hrq_name :: string
  hrq_mailbox_id :: uuid

record consequence =
  hrc_package_work_id :: uuid
  hrc_package_revision :: string
  hrc_implementation_scope :: "string list"
  hrc_implementation_target :: string
  hrc_excluded_effects :: "string list"
  hrc_approval_effect :: approval_effect
  hrc_baseline :: "review_baseline option"
  hrc_requester :: "review_requester option"
  hrc_task_text :: "string option"

text \<open>\<open>str.strip()\<close>, and the texts that exclude a continuation effect.\<close>

definition py_isspace :: "char \<Rightarrow> bool" where
  "py_isspace c = (py_space c \<or> (of_char c :: nat) = 133 \<or> (of_char c :: nat) = 160)"

fun effect_exclusions :: "continuation \<Rightarrow> string list" where
  "effect_exclusions IMPLEMENT = [''implement'', ''implementation'']"
| "effect_exclusions LAND = [''land'', ''landing'']"
| "effect_exclusions ACTIVATE = [''activate'', ''activation'']"

definition bounded_unique_items :: "review_env \<Rightarrow> consequence \<Rightarrow> bool" where
  "bounded_unique_items E c =
     (\<not> (hrc_task_text c \<noteq> None \<and> hrc_baseline c = None)
      \<and> (\<forall>vs \<in> {hrc_implementation_scope c, hrc_excluded_effects c}.
           distinct vs \<and> (\<forall>v \<in> set vs. v \<noteq> [] \<and> length v \<le> 512))
      \<and> (case hrc_baseline c of
           None \<Rightarrow> hrc_approval_effect c = Ready_for_implementation_only
         | Some b \<Rightarrow>
             hrc_approval_effect c = Clear_human_review_for_named_continuation
             \<and> (let excluded = map (\<lambda>v. rve_casefold E (strip_chars py_isspace v)) (hrc_excluded_effects c)
                in \<forall>e \<in> set (hrb_continuation_effects b). set excluded \<inter> set (effect_exclusions e) = {})))"

definition valid_consequence :: "review_env \<Rightarrow> consequence \<Rightarrow> bool" where
  "valid_consequence E c =
     (1 \<le> length (hrc_package_revision c) \<and> length (hrc_package_revision c) \<le> 512
      \<and> 1 \<le> length (hrc_implementation_scope c) \<and> length (hrc_implementation_scope c) \<le> 32
      \<and> 1 \<le> length (hrc_implementation_target c) \<and> length (hrc_implementation_target c) \<le> 1024
      \<and> 1 \<le> length (hrc_excluded_effects c) \<and> length (hrc_excluded_effects c) \<le> 32
      \<and> (case hrc_baseline c of None \<Rightarrow> True | Some b \<Rightarrow> valid_baseline b \<and> unique_items b)
      \<and> (case hrc_requester c of None \<Rightarrow> True
         | Some q \<Rightarrow> 1 \<le> length (hrq_name q) \<and> length (hrq_name q) \<le> 80)
      \<and> hrc_task_text c \<noteq> Some []
      \<and> bounded_unique_items E c)"

text \<open>\<open>model_dump(mode="json")\<close> with the two absent fields dropped, the digest and the identity.\<close>

abbreviation json_strs :: "string list \<Rightarrow> json" where
  "json_strs vs \<equiv> JList (map JStr vs)"

fun continuation_value :: "continuation \<Rightarrow> string" where
  "continuation_value IMPLEMENT = ''IMPLEMENT''"
| "continuation_value LAND = ''LAND''"
| "continuation_value ACTIVATE = ''ACTIVATE''"

fun approval_effect_value :: "approval_effect \<Rightarrow> string" where
  "approval_effect_value Ready_for_implementation_only = ''READY_FOR_IMPLEMENTATION_ONLY''"
| "approval_effect_value Clear_human_review_for_named_continuation =
     ''CLEAR_HUMAN_REVIEW_FOR_NAMED_CONTINUATION''"

definition baseline_json :: "review_baseline \<Rightarrow> json" where
  "baseline_json b =
     JObj [(''schema_version'', JStr ''2''),
       (''human_source_refs'', json_strs (hrb_human_source_refs b)),
       (''opening'', JObj [
          (''what_you_asked'', JStr (hro_what_you_asked (hrb_opening b))),
          (''what_this_does'', JStr (hro_what_this_does (hrb_opening b))),
          (''what_this_does_not_or_changes_for_you'',
             JStr (hro_what_this_does_not_or_changes_for_you (hrb_opening b))),
          (''size'', JStr (hro_size (hrb_opening b)))]),
       (''approved_meaning'', json_strs (hrb_approved_meaning b)),
       (''protected_requirements'', json_strs (hrb_protected_requirements b)),
       (''approved_non_goals'', json_strs (hrb_approved_non_goals b)),
       (''decision_context'', JObj [
          (''size_or_burden'', json_strs (hdc_size_or_burden (hrb_decision_context b))),
          (''scale_assumptions'', json_strs (hdc_scale_assumptions (hrb_decision_context b))),
          (''material_risks_and_boundaries'',
             json_strs (hdc_material_risks_and_boundaries (hrb_decision_context b)))]),
       (''continuation_effects'', json_strs (map continuation_value (hrb_continuation_effects b))),
       (''supersedes_baseline_id'', json_opt json_uuid (hrb_supersedes_baseline_id b))]"

definition requester_json :: "review_requester \<Rightarrow> json" where
  "requester_json q =
     JObj [(''name'', JStr (hrq_name q)), (''mailbox_id'', json_uuid (hrq_mailbox_id q))]"

definition consequence_digest :: "review_env \<Rightarrow> consequence \<Rightarrow> string" where
  "consequence_digest E c = rve_sha256 E (JObj (
     [(''package_work_id'', json_uuid (hrc_package_work_id c)),
      (''package_revision'', JStr (hrc_package_revision c)),
      (''implementation_scope'', json_strs (hrc_implementation_scope c)),
      (''implementation_target'', JStr (hrc_implementation_target c)),
      (''excluded_effects'', json_strs (hrc_excluded_effects c)),
      (''approval_effect'', JStr (approval_effect_value (hrc_approval_effect c))),
      (''baseline'', json_opt baseline_json (hrc_baseline c))]
     @ (case hrc_requester c of None \<Rightarrow> [] | Some q \<Rightarrow> [(''requester'', requester_json q)])
     @ (case hrc_task_text c of None \<Rightarrow> [] | Some t \<Rightarrow> [(''task_text'', JStr t)])))"

definition consequence_id :: "review_env \<Rightarrow> consequence \<Rightarrow> uuid" where
  "consequence_id E c = rve_uuid5 E (consequence_digest E c)"

section \<open>Rows, records and results\<close>

datatype human_decision = APPROVED | WAIT | HOLD | NO_DISPATCH

datatype review_state = St_pending | St_ready_for_implementation | St_wait | St_hold | St_no_dispatch

fun decision_state :: "human_decision \<Rightarrow> review_state" where
  "decision_state APPROVED = St_ready_for_implementation"
| "decision_state WAIT = St_wait"
| "decision_state HOLD = St_hold"
| "decision_state NO_DISPATCH = St_no_dispatch"

definition expected_state :: "human_decision option \<Rightarrow> review_state" where
  "expected_state d = (case d of None \<Rightarrow> St_pending | Some d' \<Rightarrow> decision_state d')"

text \<open>A row of \<open>human_review_consequences\<close>, with the JSONB column as the data it encodes.\<close>

record review_row =
  rvr_consequence_id :: uuid
  rvr_package_work_id :: uuid
  rvr_package_revision :: string
  rvr_consequence_digest :: string
  rvr_consequence :: consequence
  rvr_decision :: "human_decision option"
  rvr_state :: review_state
  rvr_created_at :: py_datetime
  rvr_decided_at :: "py_datetime option"

text \<open>The CHECK constraints of the table.\<close>

definition review_checks :: "review_row \<Rightarrow> bool" where
  "review_checks r =
     (rvr_package_revision r \<noteq> [] \<and> length (rvr_consequence_digest r) = 64
      \<and> (case rvr_decision r of
           None \<Rightarrow> rvr_state r = St_pending \<and> rvr_decided_at r = None
         | Some d \<Rightarrow> rvr_state r = decision_state d \<and> rvr_decided_at r \<noteq> None))"

record review_record =
  hrr_consequence_id :: uuid
  hrr_package_work_id :: uuid
  hrr_package_revision :: string
  hrr_consequence_digest :: string
  hrr_consequence :: consequence
  hrr_decision :: "human_decision option"
  hrr_state :: review_state

definition human_review_record :: "review_env \<Rightarrow> review_row \<Rightarrow> review_record py_result" where
  "human_review_record E row =
     (if \<not> valid_consequence E (rvr_consequence row) then Inl ValidationError
      else if consequence_digest E (rvr_consequence row) \<noteq> rvr_consequence_digest row
        \<or> consequence_id E (rvr_consequence row) \<noteq> rvr_consequence_id row
        \<or> hrc_package_work_id (rvr_consequence row) \<noteq> rvr_package_work_id row
        \<or> hrc_package_revision (rvr_consequence row) \<noteq> rvr_package_revision row
        \<or> rvr_state row \<noteq> expected_state (rvr_decision row) then Inl ValueError
      else Inr \<lparr>hrr_consequence_id = rvr_consequence_id row,
        hrr_package_work_id = rvr_package_work_id row,
        hrr_package_revision = rvr_package_revision row,
        hrr_consequence_digest = rvr_consequence_digest row,
        hrr_consequence = rvr_consequence row, hrr_decision = rvr_decision row,
        hrr_state = rvr_state row\<rparr>)"

datatype review_reason =
    Package_not_found | Package_revision_changed | Consequence_unavailable | Consequence_changed
  | Decision_conflict | Baseline_supersession_required | Baseline_supersession_invalid
  | Agent_notes_overflow | Task_text_required | Review_state_unavailable

datatype review_status =
    HR_prepared | HR_replayed | HR_recorded | HR_stale | HR_denied | HR_conflict | HR_unknown

record review_result =
  hrs_status :: review_status
  hrs_record :: "review_record option"
  hrs_reason :: "review_reason option"

definition review_exact_shape :: "review_result \<Rightarrow> bool" where
  "review_exact_shape r =
     (let ok = hrs_status r \<in> {HR_prepared, HR_replayed, HR_recorded}
      in ok = (hrs_record r \<noteq> None \<and> hrs_reason r = None) \<and> (ok \<or> hrs_reason r \<noteq> None))"

abbreviation review_ok :: "review_status \<Rightarrow> review_record \<Rightarrow> review_result" where
  "review_ok st r \<equiv> \<lparr>hrs_status = st, hrs_record = Some r, hrs_reason = None\<rparr>"

abbreviation review_fail :: "review_status \<Rightarrow> review_reason \<Rightarrow> review_result" where
  "review_fail st why \<equiv> \<lparr>hrs_status = st, hrs_record = None, hrs_reason = Some why\<rparr>"

section \<open>Approved baselines\<close>

definition record_supersedes :: "review_record \<Rightarrow> uuid option" where
  "record_supersedes r = Option.bind (hrc_baseline (hrr_consequence r)) hrb_supersedes_baseline_id"

definition approved_baseline ::
  "review_env \<Rightarrow> uuid \<Rightarrow> uuid \<Rightarrow> review_row list \<Rightarrow> review_record option py_result" where
  "approved_baseline E baseline_id package_work_id rows =
     bindE (one_or_none (filter (\<lambda>r. rvr_consequence_id r = baseline_id) rows)) (\<lambda>row.
     if_none row (Inr None) (\<lambda>row.
     bindE (human_review_record E row) (\<lambda>r.
       if hrr_package_work_id r \<noteq> package_work_id \<or> hrr_decision r \<noteq> Some APPROVED
          \<or> hrc_baseline (hrr_consequence r) = None then Inr None else Inr (Some r))))"

text \<open>The approved V2 records of a package, and those of them no other supersedes.\<close>

definition approved_v2 :: "review_env \<Rightarrow> uuid \<Rightarrow> review_row list \<Rightarrow> review_record list py_result" where
  "approved_v2 E package_work_id rows =
     bindE (mapE (human_review_record E)
       (filter (\<lambda>r. rvr_package_work_id r = package_work_id \<and> rvr_decision r = Some APPROVED) rows))
       (\<lambda>approved. Inr (filter (\<lambda>r. hrc_baseline (hrr_consequence r) \<noteq> None) approved))"

definition current_baselines :: "review_record list \<Rightarrow> review_record list" where
  "current_baselines v2 =
     (let superseded = Option.these (set (map record_supersedes v2))
      in filter (\<lambda>r. hrr_consequence_id r \<notin> superseded) v2)"

definition current_approved_baseline ::
  "review_env \<Rightarrow> uuid \<Rightarrow> review_row list \<Rightarrow> review_record option py_result" where
  "current_approved_baseline E package_work_id rows =
     bindE (approved_v2 E package_work_id rows) (\<lambda>v2.
       case current_baselines v2 of
         [] \<Rightarrow> Inr None | [r] \<Rightarrow> Inr (Some r) | _ \<Rightarrow> Inl ValueError)"

text \<open>\<open>len(notes.encode("utf-8"))\<close>: one byte for an ASCII character, two up to U+00FF.\<close>

definition utf8_length :: "string \<Rightarrow> nat" where
  "utf8_length s = sum_list (map (\<lambda>c. if (of_char c :: nat) < 128 then 1 else 2) s)"

definition agent_notes_fit :: "review_env \<Rightarrow> uuid \<Rightarrow> string \<Rightarrow> review_row list \<Rightarrow> bool py_result" where
  "agent_notes_fit E w notes rows =
     bindE (current_approved_baseline E w rows) (\<lambda>approved.
       Inr (case approved of None \<Rightarrow> True
            | Some r \<Rightarrow> hrc_task_text (hrr_consequence r) = None \<or> utf8_length notes \<le> 2048))"

definition baseline_supersession_reason ::
  "review_env \<Rightarrow> consequence \<Rightarrow> review_row list \<Rightarrow> review_reason option py_result" where
  "baseline_supersession_reason E c rows =
     (case hrc_baseline c of
        None \<Rightarrow> Inr None
      | Some b \<Rightarrow>
          bindE (approved_v2 E (hrc_package_work_id c) rows) (\<lambda>v2.
          let current = current_baselines v2 in
          if 1 < length current then Inl ValueError
          else (case hrb_supersedes_baseline_id b of
            None \<Rightarrow> Inr (if v2 \<noteq> [] then Some Baseline_supersession_required else None)
          | Some s \<Rightarrow>
              (case current of
                 [r] \<Rightarrow>
                   if hrr_consequence_id r \<noteq> s then Inr (Some Baseline_supersession_invalid)
                   else if hrc_task_text (hrr_consequence r) \<noteq> None \<and> hrc_task_text c = None
                   then Inr (Some Task_text_required)
                   else Inr None
               | _ \<Rightarrow> Inr (Some Baseline_supersession_invalid)))))"

section \<open>The transactions\<close>

record review_store =
  rv_works :: canon_db
  rv_rows :: "review_row list"

text \<open>
  \<open>async with engine.begin()\<close>: an exception of the body rolls back; otherwise the transaction
  commits, fails, loses a race for a unique key to another transaction, or commits without the
  client learning so.
\<close>

datatype txn_end = Commits | Aborts | Conflicts | Reply_lost

definition in_transaction ::
  "txn_end \<Rightarrow> ('s \<Rightarrow> ('a \<times> 's) py_result) \<Rightarrow> 's \<Rightarrow> 'a py_result \<times> 's" where
  "in_transaction e body s =
     (case body s of
        Inl err \<Rightarrow> (Inl err, s)
      | Inr (x, s') \<Rightarrow>
          (case e of Commits \<Rightarrow> (Inr x, s') | Aborts \<Rightarrow> (Inl SQLAlchemyError, s)
           | Conflicts \<Rightarrow> (Inl IntegrityError, s) | Reply_lost \<Rightarrow> (Inl SQLAlchemyError, s')))"

text \<open>\<open>except (SQLAlchemyError, TypeError, ValueError)\<close> around a transaction.\<close>

definition review_guarded :: "review_result py_result \<times> 's \<Rightarrow> review_result py_result \<times> 's" where
  "review_guarded out =
     (case out of
        (Inl err, s) \<Rightarrow>
          (if is_sqlalchemy_error err \<or> err = TypeError \<or> is_value_error err
           then Inr (review_fail HR_unknown Review_state_unavailable) else Inl err, s)
      | (Inr r, s) \<Rightarrow> (Inr r, s))"

definition package_reason ::
  "review_env \<Rightarrow> uuid \<Rightarrow> string \<Rightarrow> canon_db \<Rightarrow> review_reason option py_result" where
  "package_reason E w revision db =
     bindE (work_get_row w db) (\<lambda>package.
     if_none package (Inr (Some Package_not_found)) (\<lambda>p.
     bindE (canonical_revision (rve_revision E) (cw_work_id p) (cw_row_version p)) (\<lambda>current.
       Inr (if current \<noteq> revision then Some Package_revision_changed else None))))"

definition proposals :: "uuid \<Rightarrow> string \<Rightarrow> review_row list \<Rightarrow> review_row list" where
  "proposals w revision rows =
     filter (\<lambda>r. rvr_package_work_id r = w \<and> rvr_package_revision r = revision) rows"

definition insert_review :: "review_row \<Rightarrow> review_store \<Rightarrow> review_store py_result" where
  "insert_review r st =
     (if rvr_consequence_id r \<in> set (map rvr_consequence_id (rv_rows st))
         \<or> rvr_package_work_id r \<notin> set (map row_id (cdb_works (rv_works st)))
         \<or> \<not> review_checks r then Inl IntegrityError
      else Inr (st\<lparr>rv_rows := rv_rows st @ [r]\<rparr>))"

definition proposed_row :: "review_env \<Rightarrow> py_datetime \<Rightarrow> consequence \<Rightarrow> review_row" where
  "proposed_row E now c =
     \<lparr>rvr_consequence_id = consequence_id E c, rvr_package_work_id = hrc_package_work_id c,
      rvr_package_revision = hrc_package_revision c, rvr_consequence_digest = consequence_digest E c,
      rvr_consequence = c, rvr_decision = None, rvr_state = St_pending, rvr_created_at = now,
      rvr_decided_at = None\<rparr>"

definition propose_in ::
  "review_env \<Rightarrow> py_datetime \<Rightarrow> consequence \<Rightarrow> review_store \<Rightarrow> (review_result \<times> review_store) py_result" where
  "propose_in E now c st =
     bindE (package_reason E (hrc_package_work_id c) (hrc_package_revision c) (rv_works st)) (\<lambda>reason.
     case reason of
       Some why \<Rightarrow>
         Inr (review_fail (if why = Package_not_found then HR_denied else HR_stale) why, st)
     | None \<Rightarrow>
         (case proposals (hrc_package_work_id c) (hrc_package_revision c) (rv_rows st) of
            [row] \<Rightarrow>
              bindE (human_review_record E row) (\<lambda>existing.
                Inr (if hrr_consequence_digest existing \<noteq> consequence_digest E c
                     then review_fail HR_conflict Consequence_changed
                     else review_ok HR_replayed existing, st))
          | [] \<Rightarrow>
              bindE (baseline_supersession_reason E c (rv_rows st)) (\<lambda>supersession.
              case supersession of
                Some why \<Rightarrow> Inr (review_fail HR_denied why, st)
              | None \<Rightarrow>
                  bindE (insert_review (proposed_row E now c) st) (\<lambda>st'.
                  bindE (human_review_record E (proposed_row E now c)) (\<lambda>r.
                    Inr (review_ok HR_prepared r, st'))))
          | _ \<Rightarrow> Inr (review_fail HR_unknown Review_state_unavailable, st)))"

definition propose ::
  "review_env \<Rightarrow> py_datetime \<Rightarrow> txn_end \<Rightarrow> consequence \<Rightarrow> review_store
     \<Rightarrow> review_result py_result \<times> review_store" where
  "propose E now e c st = review_guarded (in_transaction e (propose_in E now c) st)"

definition prepare_in ::
  "review_env \<Rightarrow> uuid \<Rightarrow> string \<Rightarrow> review_store \<Rightarrow> (review_result \<times> review_store) py_result" where
  "prepare_in E w revision st =
     bindE (package_reason E w revision (rv_works st)) (\<lambda>reason.
     case reason of
       Some why \<Rightarrow>
         Inr (review_fail (if why \<noteq> Package_not_found then HR_stale else HR_denied) why, st)
     | None \<Rightarrow>
         (case proposals w revision (rv_rows st) of
            [] \<Rightarrow> Inr (review_fail HR_unknown Consequence_unavailable, st)
          | [row] \<Rightarrow> bindE (human_review_record E row) (\<lambda>r. Inr (review_ok HR_replayed r, st))
          | _ \<Rightarrow> Inr (review_fail HR_unknown Review_state_unavailable, st)))"

definition review_prepare ::
  "review_env \<Rightarrow> txn_end \<Rightarrow> uuid \<Rightarrow> string \<Rightarrow> review_store \<Rightarrow> review_result py_result \<times> review_store" where
  "review_prepare E e w revision st = review_guarded (in_transaction e (prepare_in E w revision) st)"

definition decided :: "py_datetime \<Rightarrow> human_decision \<Rightarrow> review_row \<Rightarrow> review_row" where
  "decided now d r =
     r\<lparr>rvr_decision := Some d, rvr_state := decision_state d, rvr_decided_at := Some now\<rparr>"

text \<open>The notes test of an approval that carries task text.\<close>

definition approval_overflows ::
  "review_env \<Rightarrow> uuid \<Rightarrow> human_decision \<Rightarrow> review_row \<Rightarrow> canon_db \<Rightarrow> bool py_result" where
  "approval_overflows E w d row db =
     (if d \<noteq> APPROVED then Inr False
      else bindE (human_review_record E row) (\<lambda>r.
        if hrc_task_text (hrr_consequence r) = None then Inr False
        else bindE (work_get_row w db) (\<lambda>package.
          Inr (case package of None \<Rightarrow> True | Some p \<Rightarrow> 2048 < utf8_length (cw_notes p)))))"

definition submit_in ::
  "review_env \<Rightarrow> py_datetime \<Rightarrow> uuid \<Rightarrow> uuid \<Rightarrow> string \<Rightarrow> human_decision \<Rightarrow> review_store
     \<Rightarrow> (review_result \<times> review_store) py_result" where
  "submit_in E now cid w revision d st =
     bindE (package_reason E w revision (rv_works st)) (\<lambda>reason.
     case reason of
       Some why \<Rightarrow> Inr (review_fail HR_stale why, st)
     | None \<Rightarrow>
         (case proposals w revision (rv_rows st) of
            [] \<Rightarrow> Inr (review_fail HR_denied Consequence_unavailable, st)
          | [row] \<Rightarrow>
              (if rvr_consequence_id row \<noteq> cid \<or> rvr_package_work_id row \<noteq> w
                  \<or> rvr_package_revision row \<noteq> revision
               then Inr (review_fail HR_stale Consequence_changed, st)
               else if rvr_decision row \<noteq> None
               then (if rvr_decision row \<noteq> Some d
                     then Inr (review_fail HR_conflict Decision_conflict, st)
                     else bindE (human_review_record E row) (\<lambda>r. Inr (review_ok HR_replayed r, st)))
               else bindE (approval_overflows E w d row (rv_works st)) (\<lambda>overflow.
                 if overflow then Inr (review_fail HR_denied Agent_notes_overflow, st)
                 else bindE (human_review_record E (decided now d row)) (\<lambda>r.
                   Inr (review_ok HR_recorded r,
                     st\<lparr>rv_rows := map (\<lambda>x. if rvr_consequence_id x = cid then decided now d x else x)
                       (rv_rows st)\<rparr>))))
          | _ \<Rightarrow> Inr (review_fail HR_unknown Review_state_unavailable, st)))"

definition submit ::
  "review_env \<Rightarrow> py_datetime \<Rightarrow> txn_end \<Rightarrow> uuid \<Rightarrow> uuid \<Rightarrow> string \<Rightarrow> human_decision \<Rightarrow> review_store
     \<Rightarrow> review_result py_result \<times> review_store" where
  "submit E now e cid w revision d st =
     review_guarded (in_transaction e (submit_in E now cid w revision d) st)"

section \<open>Supersession histories\<close>

text \<open>
  The shape the approved baselines of a package should have: each supersedes the one before it
  and none drops a task text an earlier one has.
\<close>

abbreviation supersession_linked :: "review_record list \<Rightarrow> bool" where
  "supersession_linked \<equiv> linked (\<lambda>_ p r. record_supersedes r = p) hrr_consequence_id 1 None"

definition baseline_history :: "review_record list \<Rightarrow> bool" where
  "baseline_history rs =
     (supersession_linked rs
      \<and> sorted_wrt (\<lambda>a b. hrc_task_text (hrr_consequence a) \<noteq> None
           \<longrightarrow> hrc_task_text (hrr_consequence b) \<noteq> None) rs)"

definition succeeds :: "consequence \<Rightarrow> review_record list \<Rightarrow> bool" where
  "succeeds c rs =
     (case hrc_baseline c of None \<Rightarrow> True
      | Some b \<Rightarrow> hrb_supersedes_baseline_id b = tip hrr_consequence_id rs
          \<and> (rs \<noteq> [] \<longrightarrow> hrc_task_text (hrr_consequence (last rs)) \<noteq> None \<longrightarrow> hrc_task_text c \<noteq> None))"

lemma these_insert: "Option.these (insert x A) = set_option x \<union> Option.these A"
  by (cases x) simp_all

lemma supersedes_earlier:
  assumes "supersession_linked rs"
  shows "Option.these (set (map record_supersedes rs)) \<subseteq> set (map hrr_consequence_id rs)"
  using assms
proof (induction rs rule: rev_induct)
  case Nil
  then show ?case by simp
next
  case (snoc r rs)
  then have "Option.these (set (map record_supersedes rs)) \<subseteq> set (map hrr_consequence_id rs)"
    and "record_supersedes r = tip hrr_consequence_id rs"
    by (auto simp: linked_snoc)
  then show ?case by (auto simp: these_insert tip_def split: if_splits)
qed

text \<open>In a linked history of distinct baselines exactly the newest is current.\<close>

lemma current_baselines_linked:
  assumes "supersession_linked rs" and "distinct (map hrr_consequence_id rs)"
  shows "current_baselines rs = (if rs = [] then [] else [last rs])"
  using assms
proof (induction rs rule: rev_induct)
  case Nil
  then show ?case by (simp add: current_baselines_def)
next
  case (snoc r rs)
  let ?old = "Option.these (set (map record_supersedes rs))"
  from snoc.prems have rs: "supersession_linked rs" "distinct (map hrr_consequence_id rs)"
    and r: "record_supersedes r = tip hrr_consequence_id rs"
      "hrr_consequence_id r \<notin> set (map hrr_consequence_id rs)"
    by (auto simp: linked_snoc)
  have new: "Option.these (set (map record_supersedes (rs @ [r])))
      = set_option (tip hrr_consequence_id rs) \<union> ?old"
    by (simp add: these_insert r(1))
  have "rs \<noteq> [] \<Longrightarrow> hrr_consequence_id (last rs) \<in> set (map hrr_consequence_id rs)" by simp
  with r(2) supersedes_earlier [OF rs(1)]
  have rfree: "hrr_consequence_id r \<notin> set_option (tip hrr_consequence_id rs) \<union> ?old"
    by (auto simp: tip_def simp del: set_map split: if_splits)
  have "filter (\<lambda>x. hrr_consequence_id x \<notin> set_option (tip hrr_consequence_id rs) \<union> ?old) rs
      = filter (\<lambda>x. hrr_consequence_id x \<notin> set_option (tip hrr_consequence_id rs))
          (current_baselines rs)"
    by (simp add: current_baselines_def conj_commute)
  also have "\<dots> = []"
    by (simp add: snoc.IH [OF rs] tip_def)
  finally show ?case
    using rfree by (simp add: current_baselines_def Let_def new del: set_map map_append)
qed

lemma history_snoc:
  assumes "baseline_history rs" and "succeeds (hrr_consequence r) rs"
    and "hrc_baseline (hrr_consequence r) \<noteq> None"
  shows "baseline_history (rs @ [r])"
  using assms unfolding baseline_history_def succeeds_def linked_snoc
  by (cases rs rule: rev_cases)
     (auto simp: record_supersedes_def sorted_wrt_append)

text \<open>The supersession test admits exactly the successors of the history.\<close>

lemma supersession_reason_succeeds:
  assumes "approved_v2 E (hrc_package_work_id c) rows = Inr rs"
    and "supersession_linked rs" and "distinct (map hrr_consequence_id rs)"
    and "baseline_supersession_reason E c rows = Inr None"
  shows "succeeds c rs"
  using assms(4) unfolding baseline_supersession_reason_def assms(1) Let_def bindE_simps
    current_baselines_linked [OF assms(2,3)] succeeds_def
  by (auto simp: tip_def split: option.splits if_splits)

section \<open>The rows of a reachable store\<close>

text \<open>The record a consistent row reads as, and the approved baselines in table order.\<close>

definition review_of :: "review_row \<Rightarrow> review_record" where
  "review_of row =
     \<lparr>hrr_consequence_id = rvr_consequence_id row, hrr_package_work_id = rvr_package_work_id row,
      hrr_package_revision = rvr_package_revision row,
      hrr_consequence_digest = rvr_consequence_digest row,
      hrr_consequence = rvr_consequence row, hrr_decision = rvr_decision row,
      hrr_state = rvr_state row\<rparr>"

lemma review_of_simps [simp]:
  "hrr_consequence_id (review_of r) = rvr_consequence_id r"
  "hrr_package_work_id (review_of r) = rvr_package_work_id r"
  "hrr_package_revision (review_of r) = rvr_package_revision r"
  "hrr_consequence_digest (review_of r) = rvr_consequence_digest r"
  "hrr_consequence (review_of r) = rvr_consequence r"
  "hrr_decision (review_of r) = rvr_decision r"
  by (simp_all add: review_of_def)

lemma record_review_of: "human_review_record E r = Inr x \<Longrightarrow> x = review_of r"
  by (simp add: human_review_record_def review_of_def split: if_split_asm)

definition readable :: "review_env \<Rightarrow> review_row \<Rightarrow> bool" where
  "readable E r = (human_review_record E r = Inr (review_of r))"

lemma readable_record: "human_review_record E r = Inr x \<Longrightarrow> readable E r \<and> x = review_of r"
  using record_review_of readable_def by metis

lemma readable_decided: "readable E r \<Longrightarrow> readable E (decided now d r)"
  by (simp add: readable_def human_review_record_def decided_def expected_state_def review_of_def
      split: if_split_asm)

definition is_v2 :: "uuid \<Rightarrow> review_row \<Rightarrow> bool" where
  "is_v2 p r = (rvr_package_work_id r = p \<and> rvr_decision r = Some APPROVED
     \<and> hrc_baseline (rvr_consequence r) \<noteq> None)"

definition baseline_chain :: "uuid \<Rightarrow> review_row list \<Rightarrow> review_record list" where
  "baseline_chain p rows = map review_of (filter (is_v2 p) rows)"

lemma mapE_readable: "\<forall>r \<in> set rows. readable E r \<Longrightarrow> mapE (human_review_record E) rows = Inr (map review_of rows)"
  by (induction rows) (simp_all add: readable_def)

lemma approved_v2_chain:
  assumes "\<forall>r \<in> set rows. readable E r"
  shows "approved_v2 E p rows = Inr (baseline_chain p rows)"
proof -
  have "mapE (human_review_record E)
      (filter (\<lambda>r. rvr_package_work_id r = p \<and> rvr_decision r = Some APPROVED) rows)
    = Inr (map review_of (filter (\<lambda>r. rvr_package_work_id r = p \<and> rvr_decision r = Some APPROVED) rows))"
    using assms by (intro mapE_readable) auto
  then show ?thesis
    by (simp add: approved_v2_def baseline_chain_def filter_map o_def is_v2_def [abs_def])
qed

definition row_version_is :: "review_env \<Rightarrow> review_row \<Rightarrow> int \<Rightarrow> bool" where
  "row_version_is E r v =
     (1 \<le> v \<and> rvr_package_revision r = ''pg_'' @ rve_revision E (rvr_package_work_id r) v)"

definition revision_order :: "review_env \<Rightarrow> review_row \<Rightarrow> review_row \<Rightarrow> bool" where
  "revision_order E r s =
     (rvr_package_work_id r = rvr_package_work_id s \<longrightarrow>
        (\<exists>v v'. v < v' \<and> row_version_is E r v \<and> row_version_is E s v'))"

definition review_inv :: "review_env \<Rightarrow> review_store \<Rightarrow> bool" where
  "review_inv E st =
     (work_keys (rv_works st) \<and> distinct (map rvr_consequence_id (rv_rows st))
      \<and> (\<forall>r \<in> set (rv_rows st). readable E r)
      \<and> (\<forall>r \<in> set (rv_rows st). \<exists>c v. work_lookup (rv_works st) (rvr_package_work_id r) = Some c
           \<and> row_version_is E r v \<and> v \<le> cw_row_version c)
      \<and> sorted_wrt (revision_order E) (rv_rows st)
      \<and> (\<forall>p. baseline_history (baseline_chain p (rv_rows st)))
      \<and> (\<forall>r \<in> set (rv_rows st). \<forall>c. rvr_decision r = None
           \<longrightarrow> work_lookup (rv_works st) (rvr_package_work_id r) = Some c
           \<longrightarrow> row_version_is E r (cw_row_version c)
           \<longrightarrow> succeeds (rvr_consequence r) (baseline_chain (rvr_package_work_id r) (rv_rows st))))"

definition revisions_distinct :: "review_env \<Rightarrow> bool" where
  "revisions_distinct E = (\<forall>w. inj_on (rve_revision E w) {v. 1 \<le> v})"

lemma row_version_unique:
  assumes "revisions_distinct E" and "row_version_is E r v" and "row_version_is E r v'"
  shows "v = v'"
  using assms unfolding revisions_distinct_def row_version_is_def
  by (metis append_eq_append_conv inj_onD mem_Collect_eq)

text \<open>Works only move forward: a row stays or its version grows.\<close>

definition canon_advances :: "canon_db \<Rightarrow> canon_db \<Rightarrow> bool" where
  "canon_advances db db' =
     (work_keys db' \<and> (\<forall>w c. work_lookup db w = Some c
        \<longrightarrow> (\<exists>c'. work_lookup db' w = Some c' \<and> (c' = c \<or> cw_row_version c < cw_row_version c'))))"

inductive review_step :: "review_env \<Rightarrow> review_store \<Rightarrow> review_store \<Rightarrow> bool" for E where
  step_propose: "propose E now e c st = (res, st') \<Longrightarrow> review_step E st st'"
| step_prepare: "review_prepare E e w revision st = (res, st') \<Longrightarrow> review_step E st st'"
| step_submit: "submit E now e cid w revision d st = (res, st') \<Longrightarrow> review_step E st st'"
| step_works: "canon_advances (rv_works st) db \<Longrightarrow> review_step E st (st\<lparr>rv_works := db\<rparr>)"

abbreviation review_start :: "canon_db \<Rightarrow> review_store" where
  "review_start db \<equiv> \<lparr>rv_works = db, rv_rows = []\<rparr>"

section \<open>What a transaction does\<close>

lemma transaction_cases:
  assumes "review_guarded (in_transaction e body st) = (res, st')"
  obtains (kept) "st' = st" | (ran) x where "body st = Inr (x, st')"
  using assms by (cases "body st")
    (auto simp: in_transaction_def review_guarded_def split: txn_end.splits if_splits)

text \<open>An answer of success is the body's answer.\<close>

lemma transaction_answer:
  assumes "review_guarded (in_transaction e body st) = (Inr r, st')"
    and "hrs_status r \<noteq> HR_unknown"
  shows "body st = Inr (r, st')"
  using assms by (cases "body st")
    (auto simp: in_transaction_def review_guarded_def split: txn_end.splits if_splits)

lemma package_reason_None:
  assumes "work_keys db" and "package_reason E w revision db = Inr None"
  obtains p where "work_lookup db w = Some p" "1 \<le> cw_row_version p"
    "revision = ''pg_'' @ rve_revision E w (cw_row_version p)"
proof -
  from assms obtain p where p: "work_lookup db w = Some p"
    and "canonical_revision (rve_revision E) (cw_work_id p) (cw_row_version p) = Inr revision"
    by (auto simp: package_reason_def work_get_row_lookup bindE_eq_Inr split: option.splits if_splits)
  moreover from p have "cw_work_id p = w"
    by (auto simp: work_lookup_def find_Some_iff)
  ultimately show thesis using that
    by (auto simp: canonical_revision_def split: if_splits)
qed

lemma propose_in_cases:
  assumes "propose_in E now c st = Inr (x, st')"
  obtains (kept) "st' = st"
    | (inserted) "package_reason E (hrc_package_work_id c) (hrc_package_revision c) (rv_works st) = Inr None"
        "proposals (hrc_package_work_id c) (hrc_package_revision c) (rv_rows st) = []"
        "baseline_supersession_reason E c (rv_rows st) = Inr None"
        "rvr_consequence_id (proposed_row E now c) \<notin> set (map rvr_consequence_id (rv_rows st))"
        "st' = st\<lparr>rv_rows := rv_rows st @ [proposed_row E now c]\<rparr>"
        "readable E (proposed_row E now c)"
proof -
  from assms obtain reason
    where pr: "package_reason E (hrc_package_work_id c) (hrc_package_revision c) (rv_works st) = Inr reason"
    by (auto simp: propose_in_def bindE_eq_Inr)
  show thesis
  proof (cases reason)
    case (Some why)
    with pr assms show thesis by (simp add: propose_in_def kept)
  next
    case None
    note run = assms [unfolded propose_in_def pr bindE_simps None option.case]
    show thesis
    proof (cases "proposals (hrc_package_work_id c) (hrc_package_revision c) (rv_rows st)" rule: one_or_none.cases)
      case 1
      then show thesis
        using run pr None unfolding insert_review_def
        by (auto simp: bindE_eq_Inr dest: readable_record intro: kept inserted
            split: option.split_asm if_split_asm)
    qed (use run in \<open>auto simp: bindE_eq_Inr intro: kept\<close>)
  qed
qed

lemma submit_in_cases:
  assumes "submit_in E now cid w revision d st = Inr (x, st')"
  obtains (kept) "st' = st" "hrs_status x = HR_replayed \<or> hrs_record x = None"
    | (recorded) row where "package_reason E w revision (rv_works st) = Inr None"
        "proposals w revision (rv_rows st) = [row]" "rvr_consequence_id row = cid"
        "rvr_package_work_id row = w" "rvr_package_revision row = revision" "rvr_decision row = None"
        "approval_overflows E w d row (rv_works st) = Inr False"
        "st' = st\<lparr>rv_rows := map (\<lambda>x. if rvr_consequence_id x = cid then decided now d x else x) (rv_rows st)\<rparr>"
        "x = review_ok HR_recorded (review_of (decided now d row))"
proof -
  from assms obtain reason where pr: "package_reason E w revision (rv_works st) = Inr reason"
    by (auto simp: submit_in_def bindE_eq_Inr)
  show thesis
  proof (cases reason)
    case (Some why)
    with pr assms show thesis by (auto simp: submit_in_def intro: kept(1))
  next
    case None
    note run = assms [unfolded submit_in_def pr bindE_simps None option.case]
    show thesis
    proof (cases "proposals w revision (rv_rows st)" rule: one_or_none.cases)
      case (2 row)
      from run [unfolded 2] pr None 2 show thesis
        by (auto simp: bindE_eq_Inr dest: record_review_of intro: kept(1) recorded
            split: if_split_asm)
    qed (use run in \<open>auto intro: kept(1)\<close>)
  qed
qed

lemma prepare_in_keeps: "prepare_in E w revision st = Inr (x, st') \<Longrightarrow> st' = st"
  unfolding prepare_in_def
  by (auto simp: bindE_eq_Inr split: option.split_asm list.split_asm if_split_asm)

lemma decided_simps [simp]:
  "rvr_consequence_id (decided now d r) = rvr_consequence_id r"
  "rvr_package_work_id (decided now d r) = rvr_package_work_id r"
  "rvr_package_revision (decided now d r) = rvr_package_revision r"
  "rvr_consequence (decided now d r) = rvr_consequence r"
  "rvr_decision (decided now d r) = Some d"
  by (simp_all add: decided_def)

lemma row_version_decided [simp]: "row_version_is E (decided now d r) v = row_version_is E r v"
  by (simp add: row_version_is_def)

lemma revision_order_decided [simp]:
  "revision_order E (decided now d r) s = revision_order E r s"
  "revision_order E s (decided now d r) = revision_order E s r"
  by (simp_all add: revision_order_def)

text \<open>Every answer has the shape the result model requires.\<close>

lemma exact_shape_simps [simp]:
  "review_exact_shape (review_fail s why) = (s \<notin> {HR_prepared, HR_replayed, HR_recorded})"
  "review_exact_shape (review_ok s r) = (s \<in> {HR_prepared, HR_replayed, HR_recorded})"
  by (auto simp: review_exact_shape_def Let_def)

definition answers_exactly :: "(review_result \<times> 's) py_result \<Rightarrow> bool" where
  "answers_exactly m = (\<forall>x s. m = Inr (x, s) \<longrightarrow> review_exact_shape x)"

lemma answers_exactly_intros [intro!]:
  "(\<And>v. answers_exactly (f v)) \<Longrightarrow> answers_exactly (bindE m f)"
  "review_exact_shape x \<Longrightarrow> answers_exactly (Inr (x, s))"
  by (auto simp: answers_exactly_def bindE_eq_Inr)

lemma body_exact_shape:
  "answers_exactly (propose_in E now c st)"
  "answers_exactly (prepare_in E w revision st)"
  "answers_exactly (submit_in E now cid w revision d st)"
  unfolding propose_in_def prepare_in_def submit_in_def
  by (auto split: option.split list.split)

lemma results_exact_shape:
  "propose E now e c st = (Inr out, st') \<Longrightarrow> review_exact_shape out"
  "review_prepare E e w revision st = (Inr out, st') \<Longrightarrow> review_exact_shape out"
  "submit E now e cid w revision d st = (Inr out, st') \<Longrightarrow> review_exact_shape out"
  by (auto simp: propose_def review_prepare_def submit_def in_transaction_def review_guarded_def
      split: sum.split_asm txn_end.split_asm if_split_asm
      dest: body_exact_shape [unfolded answers_exactly_def, rule_format])

section \<open>The invariant is kept\<close>

lemma review_invD:
  assumes "review_inv E st"
  shows "work_keys (rv_works st)" "distinct (map rvr_consequence_id (rv_rows st))"
    "\<forall>r \<in> set (rv_rows st). readable E r"
    "\<forall>r \<in> set (rv_rows st). \<exists>c v. work_lookup (rv_works st) (rvr_package_work_id r) = Some c
       \<and> row_version_is E r v \<and> v \<le> cw_row_version c"
    "sorted_wrt (revision_order E) (rv_rows st)"
    "baseline_history (baseline_chain p (rv_rows st))"
    "r \<in> set (rv_rows st) \<Longrightarrow> rvr_decision r = None
       \<Longrightarrow> work_lookup (rv_works st) (rvr_package_work_id r) = Some c
       \<Longrightarrow> row_version_is E r (cw_row_version c)
       \<Longrightarrow> succeeds (rvr_consequence r) (baseline_chain (rvr_package_work_id r) (rv_rows st))"
  using assms by (simp_all add: review_inv_def)

lemma chain_distinct:
  "distinct (map rvr_consequence_id rows) \<Longrightarrow> distinct (map hrr_consequence_id (baseline_chain p rows))"
  by (simp add: baseline_chain_def o_def distinct_map_filter)

text \<open>A new proposal is the newest row of its package and fits the history.\<close>

lemma propose_inv:
  assumes inv: "review_inv E st" and diff: "revisions_distinct E"
    and run: "propose_in E now c st = Inr (x, st')"
  shows "review_inv E st'"
  using run
proof (cases rule: propose_in_cases)
  case kept
  then show ?thesis using inv by simp
next
  case inserted
  note D = review_invD [OF inv]
  let ?r = "proposed_row E now c" and ?rows = "rv_rows st" and ?w = "hrc_package_work_id c"
  have cols: "rvr_package_work_id ?r = ?w" "rvr_package_revision ?r = hrc_package_revision c"
    "rvr_decision ?r = None" "rvr_consequence ?r = c"
    by (simp_all add: proposed_row_def)
  from package_reason_None [OF D(1) inserted(1)] obtain p
    where p: "work_lookup (rv_works st) ?w = Some p"
      and v: "row_version_is E ?r (cw_row_version p)"
    by (metis cols(1,2) row_version_is_def)
  have order: "revision_order E s ?r" if s: "s \<in> set ?rows" for s
  proof (cases "rvr_package_work_id s = ?w")
    case True
    from D(4) s p True obtain v' where v': "row_version_is E s v'" "v' \<le> cw_row_version p" by fastforce
    from inserted(2) s True have "rvr_package_revision s \<noteq> rvr_package_revision ?r"
      by (auto simp: proposals_def filter_empty_conv cols)
    with v v'(1) True have "v' \<noteq> cw_row_version p" by (auto simp: row_version_is_def cols)
    with v v' show ?thesis 
      unfolding revision_order_def by (metis less_le)
  next
    case False
    then show ?thesis by (simp add: revision_order_def cols)
  qed
  have chain: "baseline_chain q (?rows @ [?r]) = baseline_chain q ?rows" for q
    by (simp add: baseline_chain_def is_v2_def cols)
  have "succeeds c (baseline_chain ?w ?rows)"
    using supersession_reason_succeeds [OF approved_v2_chain [OF D(3)] _ chain_distinct [OF D(2)] inserted(3)]
      D(6) by (simp add: baseline_history_def)
  then show ?thesis
    using D inserted(4,6) order p v
    by (auto simp: review_inv_def inserted(5) chain cols sorted_wrt_append)
qed

text \<open>The rows of a package after the one of its current revision: there are none.\<close>

lemma current_row_last:
  assumes inv: "review_inv E st" and diff: "revisions_distinct E"
    and row: "row \<in> set (rv_rows st)" and p: "work_lookup (rv_works st) (rvr_package_work_id row) = Some p"
    and v: "row_version_is E row (cw_row_version p)"
  obtains pre post where "rv_rows st = pre @ row # post"
    "\<forall>s \<in> set post. rvr_package_work_id s \<noteq> rvr_package_work_id row"
proof -
  from row obtain pre post where split: "rv_rows st = pre @ row # post" by (meson split_list)
  have "rvr_package_work_id s \<noteq> rvr_package_work_id row" if s: "s \<in> set post" for s
  proof
    assume same: "rvr_package_work_id s = rvr_package_work_id row"
    from review_invD(5) [OF inv] s same obtain a b
      where "a < b" "row_version_is E row a" and b: "row_version_is E s b"
      by (auto simp: split sorted_wrt_append revision_order_def)
    with row_version_unique [OF diff v] have "cw_row_version p < b" by blast
    moreover from review_invD(4) [OF inv] s p same split obtain b'
      where "row_version_is E s b'" "b' \<le> cw_row_version p" by fastforce
    ultimately show False using row_version_unique [OF diff b] by force
  qed
  with split that show thesis by blast
qed

lemma sorted_wrt_map_iff:
  assumes "\<And>x y. P (f x) (f y) = P x y"
  shows "sorted_wrt P (map f xs) = sorted_wrt P xs"
  using assms by (induction xs) auto

abbreviation decide_row :: "py_datetime \<Rightarrow> human_decision \<Rightarrow> uuid \<Rightarrow> review_row \<Rightarrow> review_row" where
  "decide_row now d cid r \<equiv> if rvr_consequence_id r = cid then decided now d r else r"

text \<open>A recorded decision changes one row, the newest of its package.\<close>

lemma submit_recorded_row:
  assumes inv: "review_inv E st" and diff: "revisions_distinct E"
    and pr: "package_reason E w revision (rv_works st) = Inr None"
    and only: "proposals w revision (rv_rows st) = [row]"
    and cols: "rvr_package_work_id row = w" "rvr_package_revision row = revision"
  obtains pre post p where "rv_rows st = pre @ row # post" "\<forall>s \<in> set post. rvr_package_work_id s \<noteq> w"
    "map (decide_row now d (rvr_consequence_id row)) (rv_rows st) = pre @ decided now d row # post"
    "work_lookup (rv_works st) w = Some p" "row_version_is E row (cw_row_version p)"
proof -
  note D = review_invD [OF inv]
  have row: "row \<in> set (rv_rows st)"
    using arg_cong [OF only, of set] by (auto simp: proposals_def)
  from package_reason_None [OF D(1) pr] obtain p
    where p: "work_lookup (rv_works st) w = Some p" and v: "row_version_is E row (cw_row_version p)"
    by (metis cols row_version_is_def)
  from current_row_last [OF inv diff row _ v] p cols(1) obtain pre post
    where split: "rv_rows st = pre @ row # post" and post: "\<forall>s \<in> set post. rvr_package_work_id s \<noteq> w"
    by blast
  have "\<forall>s \<in> set pre \<union> set post. rvr_consequence_id s \<noteq> rvr_consequence_id row"
    using D(2) by (auto simp: split) (metis imageI)+
  then have "map (decide_row now d (rvr_consequence_id row)) (rv_rows st) = pre @ decided now d row # post"
    by (simp add: split map_idI)
  with split post p v that show thesis by blast
qed

lemma chain_after_decision:
  assumes "rvr_decision row = None" and "\<forall>s \<in> set post. rvr_package_work_id s \<noteq> rvr_package_work_id row"
  shows "baseline_chain q (pre @ decided now d row # post) =
      (if is_v2 q (decided now d row) then baseline_chain q (pre @ row # post) @ [review_of (decided now d row)]
       else baseline_chain q (pre @ row # post))"
proof -
  have "baseline_chain (rvr_package_work_id row) post = []"
    using assms(2) by (auto simp: baseline_chain_def is_v2_def filter_empty_conv)
  with assms(1) show ?thesis by (auto simp: baseline_chain_def is_v2_def)
qed

text \<open>It extends the history of its package and no other.\<close>

lemma submit_inv:
  assumes inv: "review_inv E st" and diff: "revisions_distinct E"
    and run: "submit_in E now cid w revision d st = Inr (x, st')"
  shows "review_inv E st'"
  using run
proof (cases rule: submit_in_cases)
  case kept
  then show ?thesis using inv by simp
next
  case (recorded row)
  note D = review_invD [OF inv]
  let ?rows = "rv_rows st" and ?upd = "decide_row now d cid"
  obtain pre post p
    where split: "?rows = pre @ row # post" and post: "\<forall>s \<in> set post. rvr_package_work_id s \<noteq> w"
      and rows': "map ?upd ?rows = pre @ decided now d row # post"
      and p: "work_lookup (rv_works st) w = Some p" and v: "row_version_is E row (cw_row_version p)"
    by (rule submit_recorded_row [OF inv diff recorded(1,2,4,5), of now d]) (simp add: recorded(3))
  have chain: "baseline_chain q (map ?upd ?rows) =
      (if is_v2 q (decided now d row) then baseline_chain q ?rows @ [review_of (decided now d row)]
       else baseline_chain q ?rows)" for q
    unfolding rows' using chain_after_decision [OF recorded(6)] post recorded(4) by (simp add: split)
  have fits: "succeeds (rvr_consequence row) (baseline_chain w ?rows)"
    using D(7) [of row, OF _ recorded(6)] p v recorded(4) by (simp add: split)
  have hist: "baseline_history (baseline_chain q (map ?upd ?rows))" for q
    using history_snoc [OF D(6) [of w], of "review_of (decided now d row)"] fits D(6) [of q] recorded(4)
    by (auto simp: chain is_v2_def)
  have pend: "succeeds (rvr_consequence s) (baseline_chain (rvr_package_work_id s) (map ?upd ?rows))"
    if s: "s \<in> set (map ?upd ?rows)" "rvr_decision s = None"
      "work_lookup (rv_works st) (rvr_package_work_id s) = Some c" "row_version_is E s (cw_row_version c)" for s c
  proof -
    from s(1,2) have "s \<in> set pre \<union> set post" unfolding rows' by auto
    with D(2) have mem: "s \<in> set ?rows" "s \<noteq> row" by (auto simp: split)
    have "\<not> (rvr_package_work_id s = w \<and> rvr_package_revision s = revision)"
      using mem arg_cong [OF recorded(2), of set] by (auto simp: proposals_def)
    with s(3,4) p v recorded(4,5) have "rvr_package_work_id s \<noteq> w" by (auto simp: row_version_is_def)
    with D(7) [OF mem(1) s(2-4)] recorded(4) show ?thesis by (simp add: chain is_v2_def)
  qed
  have rest: "\<forall>r \<in> set (map ?upd ?rows). \<exists>c v. work_lookup (rv_works st) (rvr_package_work_id r) = Some c
       \<and> row_version_is E r v \<and> v \<le> cw_row_version c"
    "\<forall>r \<in> set (map ?upd ?rows). readable E r"
    using D(3,4) readable_decided by auto
  have "sorted_wrt (revision_order E) (map ?upd ?rows)" "distinct (map rvr_consequence_id (map ?upd ?rows))"
    using D(2,5) by (simp_all add: sorted_wrt_map_iff o_def if_distrib cong: if_cong)
  then show ?thesis
    unfolding review_inv_def recorded(8)
    using D(1) hist pend rest by (simp del: set_map map_map)
qed

lemma works_inv:
  assumes inv: "review_inv E st" and diff: "revisions_distinct E" and adv: "canon_advances (rv_works st) db"
  shows "review_inv E (st\<lparr>rv_works := db\<rparr>)"
proof -
  note D = review_invD [OF inv]
  have fwd: "\<exists>c'. work_lookup db w = Some c' \<and> (c' = c \<or> cw_row_version c < cw_row_version c')"
    if "work_lookup (rv_works st) w = Some c" for w c
    using adv that by (simp add: canon_advances_def)
  have look: "\<exists>c v. work_lookup db (rvr_package_work_id r) = Some c \<and> row_version_is E r v \<and> v \<le> cw_row_version c"
    if r: "r \<in> set (rv_rows st)" for r
    using D(4) r fwd by (metis dual_order.trans less_imp_le)
  have pend: "succeeds (rvr_consequence r) (baseline_chain (rvr_package_work_id r) (rv_rows st))"
    if r: "r \<in> set (rv_rows st)" "rvr_decision r = None" "work_lookup db (rvr_package_work_id r) = Some c"
      "row_version_is E r (cw_row_version c)" for r c
  proof -
    from D(4) r(1) obtain c0 v where c0: "work_lookup (rv_works st) (rvr_package_work_id r) = Some c0"
      "row_version_is E r v" "v \<le> cw_row_version c0" by blast
    with row_version_unique [OF diff r(4)] have "cw_row_version c \<le> cw_row_version c0" by blast
    with fwd [OF c0(1)] r(3) have "c = c0" by auto
    with c0(1) D(7) [OF r(1,2)] r(4) show ?thesis by simp
  qed
  show ?thesis
    unfolding review_inv_def using D adv look pend by (simp add: canon_advances_def)
qed

lemma review_step_inv:
  assumes "review_step E st st'" and "revisions_distinct E" and "review_inv E st"
  shows "review_inv E st'"
  using assms
proof (induction rule: review_step.induct)
  case (step_propose now e c st res st')
  from step_propose(1) show ?case unfolding propose_def
    by (cases rule: transaction_cases) (use step_propose propose_inv in auto)
next
  case (step_prepare e w revision st res st')
  from step_prepare(1) show ?case unfolding review_prepare_def
    by (cases rule: transaction_cases) (use step_prepare in \<open>auto dest: prepare_in_keeps\<close>)
next
  case (step_submit now e cid w revision d st res st')
  from step_submit(1) show ?case unfolding submit_def
    by (cases rule: transaction_cases) (use step_submit submit_inv in auto)
next
  case (step_works st db)
  then show ?case by (simp add: works_inv)
qed

lemma review_steps_inv:
  assumes "(review_step E)\<^sup>*\<^sup>* st st'" and "revisions_distinct E" and "review_inv E st"
  shows "review_inv E st'"
  using assms by (induction rule: rtranclp_induct) (auto intro: review_step_inv)

lemma review_start_inv: "work_keys db \<Longrightarrow> review_inv E (review_start db)"
  by (simp add: review_inv_def baseline_chain_def baseline_history_def)

lemma inv_current_baseline:
  assumes "review_inv E st"
  shows "current_approved_baseline E p (rv_rows st) =
     Inr (if baseline_chain p (rv_rows st) = [] then None else Some (last (baseline_chain p (rv_rows st))))"
proof -
  note D = review_invD [OF assms]
  have "current_baselines (baseline_chain p (rv_rows st)) =
      (if baseline_chain p (rv_rows st) = [] then [] else [last (baseline_chain p (rv_rows st))])"
    using D(6) chain_distinct [OF D(2)] by (intro current_baselines_linked) (auto simp: baseline_history_def)
  then show ?thesis
    by (simp add: current_approved_baseline_def approved_v2_chain [OF D(3)])
qed

text \<open>Writers of canonical work follow the rule that works only move forward.\<close>

lemma work_put_advances:
  assumes "work_keys db" and "work_put casefold now w e v db = Some db'"
  shows "canon_advances db db'"
  unfolding canon_advances_def
proof (intro conjI allI impI)
  show "work_keys db'" using work_versions.put_wf [OF assms] .
  fix w' c assume c: "work_lookup db w' = Some c"
  show "\<exists>c'. work_lookup db' w' = Some c' \<and> (c' = c \<or> cw_row_version c < cw_row_version c')"
    using work_versions.put_grows [OF assms c] work_versions.put_other [OF assms, of w'] c
    by (cases "w' = w") auto
qed

text \<open>What a proposal and a submission do to the works and to the approved baselines.\<close>

lemma propose_chain:
  assumes "propose E now e c st = (res, st')"
  shows "rv_works st' = rv_works st" and "baseline_chain q (rv_rows st') = baseline_chain q (rv_rows st)"
proof -
  have *: "rv_works st' = rv_works st \<and> baseline_chain q (rv_rows st') = baseline_chain q (rv_rows st)"
    using assms unfolding propose_def
  proof (cases rule: transaction_cases)
    case (ran x)
    then show ?thesis
      by (cases rule: propose_in_cases) (auto simp: baseline_chain_def is_v2_def proposed_row_def)
  qed simp
  show "rv_works st' = rv_works st" "baseline_chain q (rv_rows st') = baseline_chain q (rv_rows st)"
    using * by simp_all
qed

lemma submit_chain:
  assumes inv: "review_inv E st" and diff: "revisions_distinct E"
    and run: "submit E now e cid w revision d st = (res, st')"
  obtains (kept) "st' = st"
    | (recorded) row where "rv_works st' = rv_works st" "rvr_package_work_id row = w"
        "approval_overflows E w d row (rv_works st) = Inr False"
        "\<forall>q. baseline_chain q (rv_rows st') =
           (if is_v2 q (decided now d row) then baseline_chain q (rv_rows st) @ [review_of (decided now d row)]
            else baseline_chain q (rv_rows st))"
  using run unfolding submit_def
proof (cases rule: transaction_cases)
  case kept
  then show thesis by (rule that(1))
next
  case (ran x)
  then show thesis
  proof (cases rule: submit_in_cases)
    case kept
    then show thesis by (intro that(1)) simp
  next
    case (recorded row)
    obtain pre post where split: "rv_rows st = pre @ row # post"
      and post: "\<forall>s \<in> set post. rvr_package_work_id s \<noteq> w"
      and rows: "map (decide_row now d cid) (rv_rows st) = pre @ decided now d row # post"
      by (rule submit_recorded_row [OF inv diff recorded(1,2,4,5), of now d]) (simp add: recorded(3))
    have rows': "rv_rows st' = pre @ decided now d row # post"
      unfolding recorded(8) using rows by simp
    have "baseline_chain q (rv_rows st') =
        (if is_v2 q (decided now d row) then baseline_chain q (rv_rows st) @ [review_of (decided now d row)]
         else baseline_chain q (rv_rows st))" for q
      using chain_after_decision [OF recorded(6)] post recorded(4) by (simp add: rows' split)
    moreover have "rv_works st' = rv_works st" by (simp add: recorded(8))
    ultimately show thesis using recorded(4,7) that(2) by blast
  qed
qed

lemma approval_fits:
  assumes "work_keys db" and "approval_overflows E w APPROVED row db = Inr False"
    and "hrc_task_text (rvr_consequence row) \<noteq> None" and "work_lookup db w = Some p"
  shows "utf8_length (cw_notes p) \<le> 2048"
  using assms record_review_of
  by (fastforce simp: approval_overflows_def work_get_row_lookup bindE_eq_Inr split: if_split_asm)

text \<open>The current baseline is a stored row of an existing package.\<close>

lemma current_baseline_row:
  assumes "review_inv E st" and "current_approved_baseline E p (rv_rows st) = Inr (Some r)"
  obtains row c where "row \<in> set (rv_rows st)" "rvr_package_work_id row = p" "r = review_of row"
    "work_lookup (rv_works st) p = Some c" "baseline_chain p (rv_rows st) \<noteq> []"
    "r = last (baseline_chain p (rv_rows st))"
proof -
  from inv_current_baseline [OF assms(1), of p] assms(2)
  have ne: "baseline_chain p (rv_rows st) \<noteq> []" and last: "r = last (baseline_chain p (rv_rows st))"
    by (auto split: if_split_asm)
  then have "r \<in> set (baseline_chain p (rv_rows st))" by simp
  then obtain row where "row \<in> set (rv_rows st)" "rvr_package_work_id row = p" "r = review_of row"
    by (auto simp: baseline_chain_def is_v2_def)
  with review_invD(4) [OF assms(1)] ne last that show thesis by blast
qed

text \<open>An answer that carries a record reports a stored row with the caller's decision.\<close>

lemma submit_in_record:
  assumes "submit_in E now cid w revision d st = Inr (x, st')" and "hrs_record x = Some r"
  shows "\<exists>row \<in> set (rv_rows st'). rvr_consequence_id row = cid \<and> rvr_decision row = Some d
     \<and> r = review_of row"
  using assms(1)
proof (cases rule: submit_in_cases)
  case kept
  then show ?thesis
    using assms unfolding submit_in_def
    by (auto simp: bindE_eq_Inr proposals_def filter_eq_Cons_iff dest: record_review_of
        split: option.split_asm list.split_asm if_split_asm)
next
  case (recorded row)
  have "row \<in> set (rv_rows st)"
    using arg_cong [OF recorded(2), of set] by (auto simp: proposals_def)
  with recorded(3,8,9) assms(2) show ?thesis by (auto intro!: bexI [of _ "decided now d row"])
qed

lemma decided_row_kept:
  assumes "review_step E st st'" and "review_inv E st" and "r \<in> set (rv_rows st)"
    and "rvr_decision r \<noteq> None"
  shows "r \<in> set (rv_rows st')"
  using assms
proof (induction rule: review_step.induct)
  case (step_propose now e c st res st')
  from step_propose(1) show ?case unfolding propose_def
  proof (cases rule: transaction_cases)
    case (ran x)
    then show ?thesis by (cases rule: propose_in_cases) (use step_propose in auto)
  qed (use step_propose in simp)
next
  case (step_prepare e w revision st res st')
  from step_prepare(1) show ?case unfolding review_prepare_def
    by (cases rule: transaction_cases) (use step_prepare in \<open>auto dest: prepare_in_keeps\<close>)
next
  case (step_submit now e cid w revision d st res st')
  from step_submit(1) show ?case unfolding submit_def
  proof (cases rule: transaction_cases)
    case (ran x)
    then show ?thesis
    proof (cases rule: submit_in_cases)
      case (recorded row)
      have "row \<in> set (rv_rows st)"
        using arg_cong [OF recorded(2), of set] by (auto simp: proposals_def)
      with step_submit recorded(3,6) review_invD(2) [OF step_submit(2)]
      have "rvr_consequence_id r \<noteq> cid" by (metis distinct_map inj_onD)
      with step_submit recorded(8) show ?thesis by (auto intro!: image_eqI [of _ _ r])
    qed (use step_submit in simp)
  qed (use step_submit in simp)
qed simp

lemma decided_rows_kept:
  assumes "(review_step E)\<^sup>*\<^sup>* st st'" and "revisions_distinct E" and "review_inv E st"
    and "r \<in> set (rv_rows st)" and "rvr_decision r \<noteq> None"
  shows "r \<in> set (rv_rows st')"
  using assms
proof (induction rule: rtranclp_induct)
  case (step y z)
  then show ?case using review_steps_inv decided_row_kept by blast
qed simp

lemma submit_on_decided:
  assumes inv: "review_inv E st" and r: "r \<in> set (rv_rows st)" "rvr_decision r = Some d"
    and run: "submit E now e (rvr_consequence_id r) w revision d' st = (res, st')"
  shows "st' = st \<and> (\<forall>out. res = Inr out \<longrightarrow> hrs_record out \<noteq> None
     \<longrightarrow> d' = d \<and> hrs_record out = Some (review_of r) \<and> hrs_status out = HR_replayed)"
proof -
  have only: "row = r" if "row \<in> set (rv_rows st)" "rvr_consequence_id row = rvr_consequence_id r" for row
    using review_invD(2) [OF inv] r(1) that by (metis distinct_map inj_onD)
  have body: "st1 = st \<and> (\<forall>y. hrs_record x = Some y
        \<longrightarrow> d' = d \<and> y = review_of r \<and> hrs_status x = HR_replayed)"
    if b: "submit_in E now (rvr_consequence_id r) w revision d' st = Inr (x, st1)" for x st1
    using b
  proof (cases rule: submit_in_cases)
    case kept
    then show ?thesis using submit_in_record [OF b] only r(2) by fastforce
  next
    case (recorded row)
    have "row \<in> set (rv_rows st)"
      using arg_cong [OF recorded(2), of set] by (auto simp: proposals_def)
    with only recorded(3,6) r(2) show ?thesis by fastforce
  qed
  show ?thesis
  proof (cases "submit_in E now (rvr_consequence_id r) w revision d' st")
    case (Inl err)
    then show ?thesis using run
      by (auto simp: submit_def in_transaction_def review_guarded_def split: if_splits)
  next
    case (Inr y)
    obtain x st1 where y: "y = (x, st1)" by fastforce
    from body [OF Inr [unfolded y]] run Inr y show ?thesis
      by (auto simp: submit_def in_transaction_def review_guarded_def split: if_splits txn_end.splits)
  qed
qed

section \<open>Properties\<close>

text \<open>
  C11. However proposals, decisions and writes to canonical work interleave, and however each
  transaction ends, the approved baselines of a package form one linear history: each supersedes
  the one approved just before it, and once a baseline carries task text all later ones do. So
  the read of the current approved baseline never meets several candidates; it returns the
  newest.
\<close>

theorem approved_baselines_linear:
  assumes "revisions_distinct E" and "work_keys db" and "(review_step E)\<^sup>*\<^sup>* (review_start db) st"
  shows "\<exists>chain. approved_v2 E p (rv_rows st) = Inr chain \<and> baseline_history chain
     \<and> distinct (map hrr_consequence_id chain)
     \<and> current_approved_baseline E p (rv_rows st) = Inr (if chain = [] then None else Some (last chain))"
proof -
  have inv: "review_inv E st"
    using review_steps_inv [OF assms(3,1)] review_start_inv [OF assms(2)] .
  note D = review_invD [OF inv]
  show ?thesis
    using approved_v2_chain [OF D(3)] D(6) chain_distinct [OF D(2)] inv_current_baseline [OF inv]
    by blast
qed

text \<open>
  C35. A decision is final: a decided row is never changed by any later transaction, and a later
  submission for it changes nothing and reports success only as a replay, of the same decision.
\<close>

theorem decision_final:
  assumes "revisions_distinct E" and "work_keys db" and "(review_step E)\<^sup>*\<^sup>* (review_start db) st"
    and "r \<in> set (rv_rows st)" and "rvr_decision r = Some d" and "(review_step E)\<^sup>*\<^sup>* st st'"
    and "submit E now e (rvr_consequence_id r) w revision d' st' = (res, st'')"
  shows "r \<in> set (rv_rows st') \<and> st'' = st'
     \<and> (\<forall>out. res = Inr out \<longrightarrow> hrs_record out \<noteq> None
          \<longrightarrow> d' = d \<and> hrs_record out = Some (review_of r) \<and> hrs_status out = HR_replayed)"
proof -
  have inv: "review_inv E st"
    using review_steps_inv [OF assms(3,1)] review_start_inv [OF assms(2)] .
  have r: "r \<in> set (rv_rows st')"
    using decided_rows_kept [OF assms(6,1) inv assms(4)] assms(5) by simp
  with submit_on_decided [OF review_steps_inv [OF assms(6,1) inv] r assms(5,7)] show ?thesis by simp
qed

text \<open>
  A run with two baselines: the digest reads the package revision, which counts the version.
\<close>

definition demo_sha256 :: "json \<Rightarrow> string" where
  "demo_sha256 j = (case j of
     JObj kvs \<Rightarrow> (case map_of kvs ''package_revision'' of
        Some (JStr s) \<Rightarrow> take 64 (s @ replicate 64 CHR ''0'') | _ \<Rightarrow> [])
   | _ \<Rightarrow> [])"

definition demo_review_env :: review_env where
  "demo_review_env = \<lparr>rve_sha256 = demo_sha256,
     rve_uuid5 = (\<lambda>s. of_nat (length (filter (\<lambda>c. c = CHR ''a'') s))),
     rve_casefold = id, rve_revision = (\<lambda>_ v. replicate (nat v) CHR ''a'')\<rparr>"

definition demo_baseline :: "uuid option \<Rightarrow> review_baseline" where
  "demo_baseline s = \<lparr>hrb_human_source_refs = [''h''],
     hrb_opening = \<lparr>hro_what_you_asked = ''a'', hro_what_this_does = ''b'',
       hro_what_this_does_not_or_changes_for_you = ''c'', hro_size = ''d''\<rparr>,
     hrb_approved_meaning = [''m''], hrb_protected_requirements = [''p''], hrb_approved_non_goals = [],
     hrb_decision_context = \<lparr>hdc_size_or_burden = [''s''], hdc_scale_assumptions = [],
       hdc_material_risks_and_boundaries = []\<rparr>,
     hrb_continuation_effects = [IMPLEMENT], hrb_supersedes_baseline_id = s\<rparr>"

definition demo_consequence :: "string \<Rightarrow> uuid option \<Rightarrow> consequence" where
  "demo_consequence revision s = \<lparr>hrc_package_work_id = 1, hrc_package_revision = revision,
     hrc_implementation_scope = [''x''], hrc_implementation_target = ''t'',
     hrc_excluded_effects = [''land''],
     hrc_approval_effect = Clear_human_review_for_named_continuation,
     hrc_baseline = Some (demo_baseline s), hrc_requester = None, hrc_task_text = Some ''task''\<rparr>"

definition demo_review_row :: "nat \<Rightarrow> uuid option \<Rightarrow> human_decision option \<Rightarrow> review_row" where
  "demo_review_row v s d = \<lparr>rvr_consequence_id = of_nat v, rvr_package_work_id = 1,
     rvr_package_revision = ''pg_'' @ replicate v CHR ''a'',
     rvr_consequence_digest = ''pg_'' @ replicate v CHR ''a'' @ replicate (61 - v) CHR ''0'',
     rvr_consequence = demo_consequence (''pg_'' @ replicate v CHR ''a'') s, rvr_decision = d,
     rvr_state = expected_state d, rvr_created_at = Aware 0,
     rvr_decided_at = map_option (\<lambda>_. Aware 1) d\<rparr>"

definition demo_works :: "int \<Rightarrow> canon_db" where
  "demo_works v = demo_canon\<lparr>cdb_works := [\<lparr>wrow_work = (demo_current 1 ''a'')\<lparr>cw_row_version := v\<rparr>,
     wrow_normalized_title = ''a''\<rparr>]\<rparr>"

lemmas demo_review_simps = demo_review_row_def demo_consequence_def demo_baseline_def demo_review_env_def
  demo_sha256_def demo_works_def demo_canon_def demo_current_def expected_state_def

lemma demo_distinct: "revisions_distinct demo_review_env"
  by (auto simp: revisions_distinct_def demo_review_env_def inj_on_def dest: arg_cong [of _ _ length])

lemma demo_regex_text: "c \<in> set ''abcdhmps'' \<Longrightarrow> baseline_text [c]"
  by (auto simp: baseline_text_def regex_space_def)

lemma demo_readable:
  "v \<in> {1, 2} \<Longrightarrow> human_review_record demo_review_env (demo_review_row v s d) = Inr (review_of (demo_review_row v s d))"
  by (auto simp: human_review_record_def review_of_def demo_review_simps valid_consequence_def
      bounded_unique_items_def valid_baseline_def unique_items_def valid_opening_def valid_context_def
      baseline_texts_def demo_regex_text consequence_digest_def consequence_id_def numeral_eq_Suc
      strip_chars_def py_isspace_def py_space_def)

lemma demo_proposed:
  "v \<in> {1, 2} \<Longrightarrow> proposed_row demo_review_env (Aware 0) (demo_consequence (''pg_'' @ replicate v CHR ''a'') s)
     = demo_review_row v s None"
  by (auto simp: proposed_row_def demo_review_simps consequence_digest_def consequence_id_def numeral_eq_Suc)

lemma demo_decided: "decided (Aware 1) d (demo_review_row v s None) = demo_review_row v s (Some d)"
  by (simp add: decided_def demo_review_row_def expected_state_def)

lemma demo_package:
  "v \<in> {1, 2} \<Longrightarrow> package_reason demo_review_env 1 (''pg_'' @ replicate v CHR ''a'') (demo_works (int v)) = Inr None"
  by (auto simp: package_reason_def work_get_row_def canonical_revision_def demo_works_def demo_canon_def
      demo_current_def demo_review_env_def)

lemma demo_row_cols [simp]:
  "rvr_package_work_id (demo_review_row v s d) = 1"
  "rvr_package_revision (demo_review_row v s d) = ''pg_'' @ replicate v CHR ''a''"
  "rvr_consequence_id (demo_review_row v s d) = of_nat v"
  "rvr_decision (demo_review_row v s d) = d"
  "hrc_baseline (rvr_consequence (demo_review_row v s d)) = Some (demo_baseline s)"
  "hrc_task_text (rvr_consequence (demo_review_row v s d)) = Some ''task''"
  by (simp_all add: demo_review_row_def demo_consequence_def)

abbreviation demo_first :: "review_row list" where
  "demo_first \<equiv> [demo_review_row 1 None (Some APPROVED)]"

abbreviation demo_second :: "review_row list" where
  "demo_second \<equiv> [demo_review_row 1 None (Some APPROVED), demo_review_row 2 (Some 1) (Some APPROVED)]"

lemma demo_propose_first:
  "propose demo_review_env (Aware 0) Commits (demo_consequence (''pg_'' @ replicate 1 CHR ''a'') None)
     (review_start (demo_works 1))
   = (Inr (review_ok HR_prepared (review_of (demo_review_row 1 None None))),
      \<lparr>rv_works = demo_works 1, rv_rows = [demo_review_row 1 None None]\<rparr>)"
proof -
  have c: "hrc_package_work_id (demo_consequence r s) = 1" "hrc_package_revision (demo_consequence r s) = r"
    "hrc_baseline (demo_consequence r s) = Some (demo_baseline s)" for r s
    by (simp_all add: demo_consequence_def)
  have sup: "baseline_supersession_reason demo_review_env (demo_consequence r None) [] = Inr None" for r
    by (simp add: baseline_supersession_reason_def approved_v2_def current_baselines_def c demo_baseline_def)
  have ins: "insert_review (demo_review_row 1 None None) (review_start (demo_works 1))
      = Inr \<lparr>rv_works = demo_works 1, rv_rows = [demo_review_row 1 None None]\<rparr>"
    by (simp add: insert_review_def review_checks_def demo_review_simps)
  show ?thesis
    unfolding propose_def in_transaction_def propose_in_def c
    using demo_package [of 1] demo_proposed [of 1 None] demo_readable [of 1 None None] sup ins
    by (simp add: proposals_def review_guarded_def)
qed

lemma demo_submit:
  assumes "v \<in> {1, 2}" and "\<forall>r \<in> set rows. rvr_consequence_id r \<noteq> of_nat v
     \<and> rvr_package_revision r \<noteq> ''pg_'' @ replicate v CHR ''a''"
  shows "submit demo_review_env (Aware 1) Commits (of_nat v) 1 (''pg_'' @ replicate v CHR ''a'') APPROVED
     \<lparr>rv_works = demo_works (int v), rv_rows = rows @ [demo_review_row v s None]\<rparr>
   = (Inr (review_ok HR_recorded (review_of (demo_review_row v s (Some APPROVED)))),
      \<lparr>rv_works = demo_works (int v), rv_rows = rows @ [demo_review_row v s (Some APPROVED)]\<rparr>)"
proof -
  let ?rows = "rows @ [demo_review_row v s None]"
  have props: "proposals 1 (''pg_'' @ replicate v CHR ''a'') ?rows = [demo_review_row v s None]"
    using assms(2) by (auto simp: proposals_def filter_empty_conv)
  have fits: "approval_overflows demo_review_env 1 APPROVED (demo_review_row v s None) (demo_works (int v)) = Inr False"
    using demo_readable [OF assms(1), of s None]
    by (simp add: approval_overflows_def work_get_row_def demo_works_def demo_canon_def demo_current_def
        utf8_length_def)
  have "map (decide_row (Aware 1) APPROVED (of_nat v)) rows = rows"
    using assms(2) by (simp add: map_idI)
  then show ?thesis
    unfolding submit_def in_transaction_def submit_in_def
    using demo_package [OF assms(1)] props fits demo_readable [OF assms(1), of s "Some APPROVED"]
    by (simp add: demo_decided review_guarded_def)
qed

lemma demo_propose_second:
  "propose demo_review_env (Aware 0) Commits (demo_consequence (''pg_'' @ replicate 2 CHR ''a'') (Some 1))
     \<lparr>rv_works = demo_works 2, rv_rows = demo_first\<rparr>
   = (Inr (review_ok HR_prepared (review_of (demo_review_row 2 (Some 1) None))),
      \<lparr>rv_works = demo_works 2, rv_rows = demo_first @ [demo_review_row 2 (Some 1) None]\<rparr>)"
proof -
  let ?c = "demo_consequence (''pg_'' @ replicate 2 CHR ''a'') (Some 1)"
  have c: "hrc_package_work_id (demo_consequence r s) = 1" "hrc_package_revision (demo_consequence r s) = r"
    "hrc_baseline (demo_consequence r s) = Some (demo_baseline s)"
    "hrc_task_text (demo_consequence r s) = Some ''task''" for r s
    by (simp_all add: demo_consequence_def)
  have "approved_v2 demo_review_env 1 demo_first = Inr [review_of (demo_review_row 1 None (Some APPROVED))]"
    using demo_readable [of 1 None "Some APPROVED"] by (simp add: approved_v2_def)
  then have sup: "baseline_supersession_reason demo_review_env ?c demo_first = Inr None"
    by (simp add: baseline_supersession_reason_def current_baselines_def c demo_baseline_def
        record_supersedes_def)
  have ins: "insert_review (demo_review_row 2 (Some 1) None) \<lparr>rv_works = demo_works 2, rv_rows = demo_first\<rparr>
      = Inr \<lparr>rv_works = demo_works 2, rv_rows = demo_first @ [demo_review_row 2 (Some 1) None]\<rparr>"
    by (simp add: insert_review_def review_checks_def demo_review_simps numeral_eq_Suc)
  have "proposals 1 (''pg_'' @ replicate 2 CHR ''a'') demo_first = []"
    by (simp add: proposals_def numeral_2_eq_2)
  then show ?thesis
    unfolding propose_def in_transaction_def propose_in_def c
    using demo_package [of 2] demo_proposed [of 2 "Some 1"] demo_readable [of 2 "Some 1" None] sup ins
    by (simp add: review_guarded_def)
qed

lemma demo_works_keys: "work_keys (demo_works v)"
  by (simp add: work_keys_def demo_works_def)

lemma demo_run_first: "(review_step demo_review_env)\<^sup>*\<^sup>* (review_start (demo_works 1))
    \<lparr>rv_works = demo_works 1, rv_rows = demo_first\<rparr>"
  using step_propose [OF demo_propose_first] step_submit [OF demo_submit [of 1 "[]" None]]
  by (simp add: converse_rtranclp_into_rtranclp)

lemma demo_pair: "''a'' \<noteq> replicate 2 CHR ''a''"
  by (simp add: numeral_2_eq_2)

lemma demo_run_second: "(review_step demo_review_env)\<^sup>*\<^sup>* \<lparr>rv_works = demo_works 1, rv_rows = demo_first\<rparr>
    \<lparr>rv_works = demo_works 2, rv_rows = demo_second\<rparr>"
proof -
  have "canon_advances (demo_works 1) (demo_works 2)"
    unfolding canon_advances_def
    by (intro conjI demo_works_keys) (auto simp: work_lookup_def demo_works_def demo_current_def)
  from step_works [of "\<lparr>rv_works = demo_works 1, rv_rows = demo_first\<rparr>", simplified, OF this]
    step_propose [OF demo_propose_second] step_submit [OF demo_submit [of 2 demo_first "Some 1"]] demo_pair
  show ?thesis by simp (blast intro: converse_rtranclp_into_rtranclp)
qed

theorem approved_baselines_linear_witness:
  "\<exists>chain. approved_v2 demo_review_env 1 demo_second = Inr chain \<and> baseline_history chain
     \<and> length chain = 2
     \<and> current_approved_baseline demo_review_env 1 demo_second = Inr (Some (last chain))"
proof -
  have v2: "approved_v2 demo_review_env 1 demo_second
      = Inr [review_of (demo_review_row 1 None (Some APPROVED)), review_of (demo_review_row 2 (Some 1) (Some APPROVED))]"
    using demo_readable [of 1 None "Some APPROVED"] demo_readable [of 2 "Some 1" "Some APPROVED"]
    by (simp add: approved_v2_def)
  from approved_baselines_linear [OF demo_distinct demo_works_keys rtranclp_trans [OF demo_run_first demo_run_second], of 1]
  show ?thesis by (simp only: review_store.simps v2) simp
qed

theorem decision_final_witness:
  "\<exists>res. submit demo_review_env (Aware 3) Commits 1 1 ''pg_a'' HOLD \<lparr>rv_works = demo_works 2, rv_rows = demo_second\<rparr>
     = (res, \<lparr>rv_works = demo_works 2, rv_rows = demo_second\<rparr>)
     \<and> demo_review_row 1 None (Some APPROVED) \<in> set demo_second
     \<and> (\<forall>out. res = Inr out \<longrightarrow> hrs_record out = None)"
proof -
  obtain res st where run: "submit demo_review_env (Aware 3) Commits 1 1 ''pg_a'' HOLD
      \<lparr>rv_works = demo_works 2, rv_rows = demo_second\<rparr> = (res, st)" by fastforce
  with decision_final [OF demo_distinct demo_works_keys demo_run_first, of "demo_review_row 1 None (Some APPROVED)"
      APPROVED, OF _ _ demo_run_second, of "Aware 3" Commits 1 "''pg_a''" HOLD res st]
  show ?thesis by (auto simp: run)
qed

end
