(* ===== verification/Mail_Tables.thy ===== *)
theory Mail_Tables
  imports Py_Ident
begin

text \<open>
  The rows of the mailbox tables: \<open>messages\<close> and \<open>message_deliveries\<close>
  (\<open>src/switchstand/mailbox/messages.py\<close>), \<open>agent_mailboxes\<close> and
  \<open>agent_mailbox_transfer_requests\<close> (\<open>src/switchstand/mailbox/agent_mailboxes.py\<close>). Times are
  instants of the database clock.
\<close>

record message_row =
  msg_sender_work_id :: uuid
  msg_message_id :: uuid
  msg_route_ref :: string
  msg_kind :: string
  msg_payload :: json
  msg_digest :: string
  msg_in_reply_to :: "uuid option"
  msg_created_at :: int

datatype delivery_state = AVAILABLE | RECEIVED | ACKNOWLEDGED | DISPOSITIONED

record delivery_row =
  dlv_delivery_id :: uuid
  dlv_sender_work_id :: uuid
  dlv_message_id :: uuid
  dlv_recipient_work_id :: uuid
  dlv_state :: delivery_state
  dlv_recipient_grant_version :: int
  dlv_received_at :: "int option"
  dlv_receiving_generation :: "string option"
  dlv_dispositioned_at :: "int option"
  dlv_disposition_digest :: "string option"
  dlv_evidence :: "json option"

datatype agent_type = Codex | Claude | Chatgpt

record agent_mailbox =
  amb_name :: string
  amb_name_key :: string
  amb_endpoint_id :: uuid
  amb_principal_key :: string
  amb_session_key :: string
  amb_generation :: int
  amb_agent_type :: "agent_type option"

datatype transfer_status = PENDING | APPROVED_transfer | STALE_transfer | CONFLICT_transfer

record transfer_row =
  trq_request_id :: uuid
  trq_name_key :: string
  trq_endpoint_id :: uuid
  trq_expected_generation :: int
  trq_source_principal_key :: string
  trq_source_session_key :: string
  trq_destination_principal_key :: string
  trq_destination_session_key :: string
  trq_destination_agent_type :: "agent_type option"
  trq_status :: transfer_status
  trq_reason :: "string option"
  trq_resulting_generation :: "int option"
  trq_created_at :: int
  trq_resolved_at :: "int option"

end
