(* ===== verification/Canonical_Txn.thy ===== *)
theory Canonical_Txn
  imports Human_Review Update_Gateway Mail_Tables
begin

text \<open>
  What the protected writes of the canonical runtime (\<open>src/switchstand/tracker/runtime.py\<close>) share:
  the tables their transactions read and write, the pending-review query, the reply from the
  journal, the grant checks, and the retry loop. The locale \<open>journalled_call\<close> is the contract of
  such a write; its lemma says what a whole call with its two attempts promises. Interpreted by
  \<open>Canonical_Update\<close>, \<open>Canonical_Relation\<close>, \<open>Canonical_Append\<close>, \<open>Canonical_Feedback\<close> and
  \<open>Canonical_Create\<close>. Digests (of \<open>json.dumps\<close> with sorted keys, and of its raw form), the name-based
  UUID of a created work, Pydantic's reading of a stored create request, the printed form of a float, and
  Unicode normalisation are fields of \<open>runtime_env\<close>; the clock, the way each transaction ends and
  what other transactions do between two attempts are arguments.
\<close>

section \<open>State\<close>

record runtime_env =
  rte_pkey :: "principal \<Rightarrow> string"
  rte_digest :: "json \<Rightarrow> string"
  rte_raw_digest :: "json \<Rightarrow> string"
  rte_create_id :: "string \<Rightarrow> uuid"
  rte_parse_create :: "json \<Rightarrow> protected_create py_result"
  rte_float :: "rat \<Rightarrow> string"
  rte_casefold :: "string \<Rightarrow> string"
  rte_review :: review_env

record runtime_db =
  rdb_grants :: grant_db
  rdb_store :: review_store
  rdb_handles :: "handle list"
  rdb_prs :: "pull_request_record list"
  rdb_pr_links :: "(uuid \<times> string \<times> int) list"
  rdb_messages :: "message_row list"
  rdb_deliveries :: "delivery_row list"
  rdb_mailboxes :: "agent_mailbox list"
  rdb_transfers :: "transfer_row list"
  rdb_receipts :: "string list"

abbreviation rdb_works :: "runtime_db \<Rightarrow> canon_db" where
  "rdb_works db \<equiv> rv_works (rdb_store db)"

abbreviation rdb_reviews :: "runtime_db \<Rightarrow> review_row list" where
  "rdb_reviews db \<equiv> rv_rows (rdb_store db)"

abbreviation rdb_intents :: "runtime_db \<Rightarrow> effect_row list" where
  "rdb_intents db \<equiv> gdb_intents (rdb_grants db)"

definition put_works :: "canon_db \<Rightarrow> runtime_db \<Rightarrow> runtime_db" where
  "put_works works db = db\<lparr>rdb_store := (rdb_store db)\<lparr>rv_works := works\<rparr>\<rparr>"

lemma put_works_simps [simp]:
  "rdb_works (put_works works db) = works"
  "rdb_reviews (put_works works db) = rdb_reviews db"
  "rdb_store (put_works works db) = (rdb_store db)\<lparr>rv_works := works\<rparr>"
  "rdb_grants (put_works works db) = rdb_grants db"
  "rdb_messages (put_works works db) = rdb_messages db"
  "rdb_handles (put_works works db) = rdb_handles db"
  "rdb_prs (put_works works db) = rdb_prs db"
  "rdb_pr_links (put_works works db) = rdb_pr_links db"
  "rdb_mailboxes (put_works works db) = rdb_mailboxes db"
  "rdb_deliveries (put_works works db) = rdb_deliveries db"
  "rdb_transfers (put_works works db) = rdb_transfers db"
  "rdb_receipts (put_works works db) = rdb_receipts db"
  by (simp_all add: put_works_def)

section \<open>Pending reviews\<close>

text \<open>
  \<open>payload[k1][k2]...astext = text\<close>: only a JSON string can have the text of an identifier, a
  revision or a type name.
\<close>

fun json_path :: "json \<Rightarrow> string list \<Rightarrow> json option" where
  "json_path j [] = Some j"
| "json_path j (k # ks) = (case json_get j k of None \<Rightarrow> None | Some v \<Rightarrow> json_path v ks)"

definition path_text :: "json \<Rightarrow> string list \<Rightarrow> string \<Rightarrow> bool" where
  "path_text j ks s = (json_path j ks = Some (JStr s))"

definition has_basis :: "uuid \<Rightarrow> uuid \<Rightarrow> string \<Rightarrow> message_row list \<Rightarrow> bool" where
  "has_basis review w revision msgs =
     list_ex (\<lambda>m. msg_kind m = ''request''
       \<and> msg_route_ref m \<in> {''review.request'', ''review.acquisition''}
       \<and> path_text (msg_payload m) [''brief'', ''basis'', ''review_id''] (uuid_str review)
       \<and> path_text (msg_payload m) [''brief'', ''basis'', ''subject_work_id''] (uuid_str w)
       \<and> path_text (msg_payload m) [''brief'', ''basis'', ''subject_revision''] revision) msgs"

definition has_outcome :: "uuid \<Rightarrow> uuid \<Rightarrow> string \<Rightarrow> message_row list \<Rightarrow> bool" where
  "has_outcome review w revision msgs =
     list_ex (\<lambda>m. msg_kind m = ''result''
       \<and> path_text (msg_payload m) [''outcome'', ''type''] ''REVIEW_OUTCOME''
       \<and> path_text (msg_payload m) [''outcome'', ''review_id''] (uuid_str review)
       \<and> path_text (msg_payload m) [''brief'', ''basis'', ''subject_work_id''] (uuid_str w)
       \<and> path_text (msg_payload m) [''brief'', ''basis'', ''subject_revision''] revision) msgs"

definition pending_review_id ::
  "uuid \<Rightarrow> string \<Rightarrow> uuid option \<Rightarrow> canon_db \<Rightarrow> message_row list \<Rightarrow> uuid option" where
  "pending_review_id w revision occurrence db msgs =
     (let ids = map row_id (filter (\<lambda>r.
            (row_id r, w) \<in> set (cdb_parents db)
            \<and> cw_work_type (wrow_work r) = Some ''REVIEW''
            \<and> (case occurrence of None \<Rightarrow> True | Some o' \<Rightarrow> row_id r = o')
            \<and> has_basis (row_id r) w revision msgs
            \<and> \<not> has_outcome (row_id r) w revision msgs) (cdb_works db))
      in case sort ids of [] \<Rightarrow> None | i # _ \<Rightarrow> Some i)"

definition confirmation_message :: "uuid \<Rightarrow> string" where
  "confirmation_message review =
     ''This item is waiting for review '' @ uuid_str review
     @ ''. This edit will cancel that review. If you meant it, repeat the same call with ''
     @ ''confirm_cancels_review=true.''"

section \<open>Journal and grant checks\<close>

text \<open>
  The row of an operation that was already recorded answers a repeated call: with the recorded
  outcome for the same principal and fingerprint, with a conflict otherwise.
\<close>

definition journal_reply ::
  "string \<Rightarrow> string \<Rightarrow> uuid \<Rightarrow> guard_outcome \<Rightarrow> runtime_db \<Rightarrow> guard_outcome option py_result" where
  "journal_reply key fp op conflict db =
     bindE (one_or_none (filter (\<lambda>r. ei_operation_id r = uuid_str op) (rdb_intents db))) (\<lambda>exact.
     if_none exact (Inr None) (\<lambda>row.
       if ei_principal_key row \<noteq> key \<or> ei_fingerprint row \<noteq> fp then Inr (Some conflict)
       else bindE (read_outcome (ei_outcome row)) (\<lambda>o'. Inr (Some o'))))"

text \<open>An unresolved effect on the work, with the answer that names it.\<close>

definition blocked_reply :: "guard_outcome \<Rightarrow> uuid \<Rightarrow> runtime_db \<Rightarrow> guard_outcome option py_result" where
  "blocked_reply unresolved w db =
     (case filter (\<lambda>r. ei_work_id r = uuid_str w \<and> go_effect (ei_outcome r) = Effect_unknown)
             (rdb_intents db) of
        [] \<Rightarrow> Inr None
      | row # _ \<Rightarrow>
          bindE (read_outcome (ei_outcome row)) (\<lambda>prior.
          bindE (with_blocked_effect unresolved prior) (\<lambda>o'. Inr (Some o'))))"

definition journal_insert :: "effect_row \<Rightarrow> runtime_db \<Rightarrow> runtime_db py_result" where
  "journal_insert row db =
     (if ei_operation_id row \<in> set (map ei_operation_id (rdb_intents db)) then Inl IntegrityError
      else Inr (db\<lparr>rdb_grants := (rdb_grants db)\<lparr>gdb_intents := rdb_intents db @ [row]\<rparr>\<rparr>))"

text \<open>
  The grant checks of updates and relation writes: the caller's own current grant, the work and
  the operation it names, its version, and the qualification for the calling surface.
\<close>

definition grant_reply ::
  "int \<Rightarrow> principal \<Rightarrow> uuid \<Rightarrow> int \<Rightarrow> grant_operation \<Rightarrow> (work_grant \<Rightarrow> string option) \<Rightarrow> (string \<Rightarrow> bool)
     \<Rightarrow> string \<Rightarrow> guard \<Rightarrow> work_grant option \<Rightarrow> guard_outcome + work_grant \<times> string" where
  "grant_reply now pr w version operation qf qualified reason guard grant =
     if_none grant (Inl (guard G_denied ''no_current_grant'' False)) (\<lambda>g.
     if wg_principal g \<noteq> pr \<or> \<not> grant_current now g
     then Inl (guard G_denied ''no_current_grant'' False)
     else if \<not> grant_can_write g w \<or> operation \<notin> wg_operations g
     then Inl (guard G_denied ''operation_or_work_not_granted'' False)
     else if version \<noteq> wg_version g
     then Inl (guard G_stale ''grant_version_changed'' False)
     else if_none (qf g) (Inl (guard G_denied reason False)) (\<lambda>q.
       if \<not> qualified q then Inl (guard G_denied reason False) else Inr (g, q)))"

text \<open>
  Everything a write of one work checks before it looks at the patch: the row is read under its
  lock, a recorded operation is answered, then come the grant, unresolved effects and the
  observed revision. \<open>T\<close> names what the request and its surface supply.
\<close>

record write_target =
  wt_work_id :: uuid
  wt_operation_id :: uuid
  wt_fingerprint :: string
  wt_grant_version :: int
  wt_observed_revision :: string
  wt_operation :: grant_operation
  wt_qualification :: "work_grant \<Rightarrow> string option"
  wt_qualified :: "string \<Rightarrow> bool"
  wt_unqualified :: string

definition work_admission ::
  "runtime_env \<Rightarrow> int \<Rightarrow> principal \<Rightarrow> write_target \<Rightarrow> guard \<Rightarrow> work_grant option \<Rightarrow> runtime_db
     \<Rightarrow> (guard_outcome + work_grant \<times> string \<times> current_work) py_result" where
  "work_admission E now pr T guard grant db =
     bindE (work_get_row (wt_work_id T) (rdb_works db)) (\<lambda>current.
     bindE (journal_reply (rte_pkey E pr) (wt_fingerprint T) (wt_operation_id T)
       (guard G_denied ''operation_identity_conflict'' False) db) (\<lambda>reply.
     case reply of Some o' \<Rightarrow> Inr (Inl o') | None \<Rightarrow>
     (case grant_reply now pr (wt_work_id T) (wt_grant_version T) (wt_operation T)
         (wt_qualification T) (wt_qualified T) (wt_unqualified T) guard grant of
       Inl o' \<Rightarrow> Inr (Inl o')
     | Inr (g, q) \<Rightarrow>
         bindE (blocked_reply (guard G_unknown ''target_has_unresolved_effect'' False)
           (wt_work_id T) db) (\<lambda>blocked.
         case blocked of Some o' \<Rightarrow> Inr (Inl o') | None \<Rightarrow>
         if_none current (Inr (Inl (guard G_denied ''work_not_bound'' False))) (\<lambda>c.
         bindE (canonical_revision (rve_revision (rte_review E)) (wt_work_id T) (cw_row_version c))
           (\<lambda>revision.
         if wt_observed_revision T \<noteq> revision
         then Inr (Inl (guard G_stale ''source_revision_changed'' False))
         else Inr (Inr (g, q, c))))))))"

text \<open>
  A recursive query that never ends can only be ended by the server, as a database error; the
  properties show that the cycle query always ends.
\<close>

definition ended :: "'a py_result option \<Rightarrow> 'a py_result" where
  "ended r = (case r of None \<Rightarrow> Inl SQLAlchemyError | Some x \<Rightarrow> x)"

section \<open>Attempts\<close>

text \<open>
  \<open>for attempt in range(2)\<close> around a transaction with its handlers: a handler answers or, with
  \<open>None\<close>, lets the loop continue; the flag says whether another attempt is left.
\<close>

definition two_attempts ::
  "(bool \<Rightarrow> py_error \<Rightarrow> 'a py_result option) \<Rightarrow> (int \<Rightarrow> 's \<Rightarrow> ('a \<times> 's) py_result)
     \<Rightarrow> int \<times> txn_end \<Rightarrow> ('s \<Rightarrow> 's) \<Rightarrow> int \<times> txn_end \<Rightarrow> 's \<Rightarrow> 'a py_result \<times> 's" where
  "two_attempts handlers body first between second db =
     (case in_transaction (snd first) (body (fst first)) db of
        (Inr o', db1) \<Rightarrow> (Inr o', db1)
      | (Inl e, db1) \<Rightarrow>
          (case handlers True e of
             Some out \<Rightarrow> (out, db1)
           | None \<Rightarrow>
               (case in_transaction (snd second) (body (fst second)) (between db1) of
                  (Inr o', db2) \<Rightarrow> (Inr o', db2)
                | (Inl e', db2) \<Rightarrow>
                    (case handlers False e' of
                       Some out \<Rightarrow> (out, db2) | None \<Rightarrow> (Inl AssertionError, db2)))))"

text \<open>A write that does not retry.\<close>

definition one_attempt ::
  "(py_error \<Rightarrow> 'a py_result) \<Rightarrow> (int \<Rightarrow> 's \<Rightarrow> ('a \<times> 's) py_result) \<Rightarrow> int \<times> txn_end \<Rightarrow> 's
     \<Rightarrow> 'a py_result \<times> 's" where
  "one_attempt handlers body t db =
     (case in_transaction (snd t) (body (fst t)) db of
        (Inr o', db') \<Rightarrow> (Inr o', db') | (Inl e, db') \<Rightarrow> (handlers e, db'))"

section \<open>The contract of a journalled call\<close>

text \<open>
  \<open>answered db o\<close>: the journal answers this call with \<open>o\<close>; \<open>wrote pre post o\<close>: the one change the
  call may make, with its outcome; \<open>sane\<close>: the table invariant it relies on.
\<close>

locale journalled_call =
  fixes handlers :: "bool \<Rightarrow> py_error \<Rightarrow> guard_outcome py_result option"
    and body :: "int \<Rightarrow> 's \<Rightarrow> (guard_outcome \<times> 's) py_result"
    and answered :: "'s \<Rightarrow> guard_outcome \<Rightarrow> bool"
    and wrote :: "'s \<Rightarrow> 's \<Rightarrow> guard_outcome \<Rightarrow> bool"
    and sane :: "'s \<Rightarrow> bool"
  assumes body_cases: "sane db \<Longrightarrow> body now db = Inr (out, db') \<Longrightarrow>
        db' = db \<and> (go_effect out = Not_sent \<or> answered db out) \<or> wrote db db' out"
    and wrote_answered: "wrote db db' out \<Longrightarrow> answered db' out"
    and handled: "handlers again e = Some (Inr out) \<Longrightarrow>
        go_effect out = Effect_unknown \<or> go_effect out = Not_sent \<and> e \<noteq> SQLAlchemyError"
    and retried: "handlers again e = None \<Longrightarrow> e \<noteq> SQLAlchemyError"
begin

lemma attempt_cases:
  assumes "sane db" and "in_transaction t (body now) db = (r, db')"
  shows "db' = db \<and> (\<forall>o'. r = Inr o' \<longrightarrow> go_effect o' = Not_sent \<or> answered db o')
    \<or> (\<exists>out. wrote db db' out \<and> (r = Inr out \<or> r = Inl SQLAlchemyError))"
proof (cases "body now db")
  case (Inl e)
  with assms(2) show ?thesis by (auto simp: in_transaction_def)
next
  case (Inr y)
  obtain out db1 where y: "y = (out, db1)" by fastforce
  from assms(2) Inr y have "(db' = db1 \<and> (r = Inr out \<or> r = Inl SQLAlchemyError))
      \<or> (db' = db \<and> (\<exists>e. r = Inl e))"
    by (auto simp: in_transaction_def split: txn_end.splits)
  with body_cases [OF assms(1) Inr [unfolded y]] show ?thesis by auto
qed

text \<open>What the answer of one handled attempt says about the state it left.\<close>

lemma attempt_truthful:
  assumes sane: "sane db" and run: "in_transaction t (body now) db = (r, db')"
    and out: "r = Inr out \<or> (\<exists>e again. r = Inl e \<and> handlers again e = Some (Inr out))"
  shows "(db' = db \<or> (\<exists>o'. wrote db db' o'))
     \<and> (go_effect out = Applied \<longrightarrow> answered db' out)
     \<and> (go_effect out = Not_sent \<longrightarrow> db' = db \<or> answered db' out)"
  using attempt_cases [OF sane run] out handled wrote_answered by fastforce

lemma call_truthful:
  assumes "sane db" and "sane (between db)"
    and run: "two_attempts handlers body first between second db = (Inr out, db')"
  shows "(\<exists>pre \<in> {db, between db}. db' = pre \<or> (\<exists>o'. wrote pre db' o'))
     \<and> (go_effect out = Applied \<longrightarrow> answered db' out)
     \<and> (go_effect out = Not_sent \<longrightarrow> db' \<in> {db, between db} \<or> answered db' out)"
proof -
  obtain r1 db1 where a1: "in_transaction (snd first) (body (fst first)) db = (r1, db1)" by fastforce
  show ?thesis
  proof (cases "\<exists>e. r1 = Inl e \<and> handlers True e = None")
    case True
    then obtain e where e: "r1 = Inl e" "handlers True e = None" by blast
    with attempt_cases [OF assms(1) a1] retried have db1: "db1 = db" by auto
    obtain r2 db2 where a2: "in_transaction (snd second) (body (fst second)) (between db) = (r2, db2)"
      by fastforce
    from run a1 a2 e db1 have "db' = db2"
      and "r2 = Inr out \<or> (\<exists>e'. r2 = Inl e' \<and> handlers False e' = Some (Inr out))"
      by (auto simp: two_attempts_def split: sum.split_asm option.split_asm)
    with attempt_truthful [OF assms(2) a2] show ?thesis by blast
  next
    case False
    with run a1 have "db' = db1" and "r1 = Inr out \<or> (\<exists>e. r1 = Inl e \<and> handlers True e = Some (Inr out))"
      by (auto simp: two_attempts_def split: sum.split_asm option.split_asm)
    with attempt_truthful [OF assms(1) a1] show ?thesis by blast
  qed
qed

lemma single_truthful:
  assumes "sane db" and "one_attempt (\<lambda>e. the (handlers False e)) body t db = (Inr out, db')"
    and "\<And>e. handlers False e \<noteq> None"
  shows "(db' = db \<or> (\<exists>o'. wrote db db' o'))
     \<and> (go_effect out = Applied \<longrightarrow> answered db' out)
     \<and> (go_effect out = Not_sent \<longrightarrow> db' = db \<or> answered db' out)"
proof -
  obtain r db1 where a: "in_transaction (snd t) (body (fst t)) db = (r, db1)" by fastforce
  from assms(2) a have "db' = db1" by (auto simp: one_attempt_def split: sum.split_asm)
  moreover have "r = Inr out \<or> (\<exists>e again. r = Inl e \<and> handlers again e = Some (Inr out))"
  proof (cases r)
    case (Inl e)
    with assms(2) a have "the (handlers False e) = Inr out" by (simp add: one_attempt_def)
    with assms(3) [of e] Inl show ?thesis by force
  qed (use assms(2) a in \<open>simp add: one_attempt_def\<close>)
  ultimately show ?thesis using attempt_truthful [OF assms(1) a] by blast
qed

end

section \<open>Facts the calls share\<close>

text \<open>The journal entry that answers a call: same operation, principal and fingerprint.\<close>

definition journalled :: "string \<Rightarrow> string \<Rightarrow> uuid \<Rightarrow> runtime_db \<Rightarrow> guard_outcome \<Rightarrow> bool" where
  "journalled key fp op db o' =
     (\<exists>row \<in> set (rdb_intents db). ei_operation_id row = uuid_str op
        \<and> ei_principal_key row = key \<and> ei_fingerprint row = fp \<and> ei_outcome row = o')"

lemma with_blocked_effect_keeps:
  "with_blocked_effect o' prior = Inr out \<Longrightarrow> go_effect out = go_effect o'"
  by (auto simp: with_blocked_effect_def split: option.split_asm)

lemma read_outcome_same: "read_outcome o' = Inr out \<Longrightarrow> out = o'"
  by (simp add: read_outcome_def split: if_split_asm)

lemma journal_reply_Some:
  assumes "journal_reply key fp op conflict db = Inr (Some o')"
  shows "o' = conflict \<or> journalled key fp op db o'"
  using assms
  by (auto simp: journal_reply_def bindE_eq_Inr one_or_none_Some journalled_def filter_eq_Cons_iff
      dest!: read_outcome_same split: if_split_asm option.split_asm)

lemma journal_reply_None:
  assumes "journal_reply key fp op conflict db = Inr None"
  shows "uuid_str op \<notin> set (map ei_operation_id (rdb_intents db))"
proof -
  from assms obtain x where x: "one_or_none (filter (\<lambda>r. ei_operation_id r = uuid_str op) (rdb_intents db)) = Inr x"
    by (auto simp: journal_reply_def bindE_eq_Inr)
  have "x = None" by (cases x) (use assms x in \<open>auto simp: journal_reply_def bindE_eq_Inr split: if_split_asm\<close>)
  with x show ?thesis by (auto simp: one_or_none_None filter_empty_conv)
qed

lemma blocked_reply_Some: "blocked_reply o' w db = Inr (Some out) \<Longrightarrow> go_effect out = go_effect o'"
  by (auto simp: blocked_reply_def bindE_eq_Inr dest: with_blocked_effect_keeps split: list.split_asm)

lemma blocked_reply_None:
  assumes "blocked_reply o' w db = Inr None"
  shows "\<forall>r \<in> set (rdb_intents db). \<not> (ei_work_id r = uuid_str w \<and> go_effect (ei_outcome r) = Effect_unknown)"
proof -
  from assms have "filter (\<lambda>r. ei_work_id r = uuid_str w \<and> go_effect (ei_outcome r) = Effect_unknown)
      (rdb_intents db) = []"
    by (auto simp: blocked_reply_def bindE_eq_Inr split: list.split_asm)
  then show ?thesis by (simp add: filter_empty_conv)
qed

lemma grant_reply_Inl:
  assumes "grant_reply now pr w version operation qf qualified reason guard grant = Inl o'"
  shows "\<exists>st why. o' = guard st why False"
  using assms by (auto simp: grant_reply_def split: option.split_asm if_split_asm)

lemma grant_reply_Inr:
  assumes "grant_reply now pr w version operation qf qualified reason guard grant = Inr (g, q)"
  shows "grant = Some g" "wg_principal g = pr" "grant_current now g" "grant_can_write g w"
    "operation \<in> wg_operations g" "wg_version g = version" "qf g = Some q" "qualified q"
  using assms by (auto simp: grant_reply_def split: option.split_asm if_split_asm)

lemma journal_insert_Inr:
  assumes "journal_insert row db = Inr db'"
  shows "ei_operation_id row \<notin> set (map ei_operation_id (rdb_intents db))"
    "db' = db\<lparr>rdb_grants := (rdb_grants db)\<lparr>gdb_intents := rdb_intents db @ [row]\<rparr>\<rparr>"
  using assms by (auto simp: journal_insert_def split: if_split_asm)

lemma work_lookup_id: "work_lookup db w = Some c \<Longrightarrow> cw_work_id c = w"
  by (auto simp: work_lookup_def find_Some_iff)

text \<open>What admission has established when it lets a write through.\<close>

definition write_admitted ::
  "runtime_env \<Rightarrow> int \<Rightarrow> principal \<Rightarrow> write_target \<Rightarrow> work_grant option \<Rightarrow> runtime_db
     \<Rightarrow> work_grant \<Rightarrow> string \<Rightarrow> current_work \<Rightarrow> bool" where
  "write_admitted E now pr T grant db g q c =
     (grant = Some g \<and> wg_principal g = pr \<and> grant_current now g
      \<and> grant_can_write g (wt_work_id T) \<and> wt_operation T \<in> wg_operations g
      \<and> wg_version g = wt_grant_version T \<and> wt_qualification T g = Some q \<and> wt_qualified T q
      \<and> work_lookup (rdb_works db) (wt_work_id T) = Some c \<and> 1 \<le> cw_row_version c
      \<and> wt_observed_revision T = ''pg_'' @ rve_revision (rte_review E) (wt_work_id T) (cw_row_version c)
      \<and> uuid_str (wt_operation_id T) \<notin> set (map ei_operation_id (rdb_intents db))
      \<and> (\<forall>r \<in> set (rdb_intents db).
           \<not> (ei_work_id r = uuid_str (wt_work_id T) \<and> go_effect (ei_outcome r) = Effect_unknown)))"

lemma work_admission_cases:
  assumes keys: "work_keys (rdb_works db)" and run: "work_admission E now pr T guard grant db = Inr x"
    and silent: "\<And>st why. go_effect (guard st why False) = Not_sent"
  obtains (answered) o' where "x = Inl o'"
      "go_effect o' = Not_sent \<or> journalled (rte_pkey E pr) (wt_fingerprint T) (wt_operation_id T) db o'"
    | (admitted) g q c where "x = Inr (g, q, c)" "write_admitted E now pr T grant db g q c"
proof -
  let ?grant = "grant_reply now pr (wt_work_id T) (wt_grant_version T) (wt_operation T)
         (wt_qualification T) (wt_qualified T) (wt_unqualified T) guard grant"
  note run = run [unfolded work_admission_def work_get_row_lookup [OF keys] bindE_simps]
  obtain reply where reply: "journal_reply (rte_pkey E pr) (wt_fingerprint T) (wt_operation_id T)
      (guard G_denied ''operation_identity_conflict'' False) db = Inr reply"
    using run by (auto simp: bindE_eq_Inr)
  note run = run [unfolded reply bindE_simps]
  show thesis
  proof (cases reply)
    case (Some o')
    with run journal_reply_Some [OF reply [unfolded Some]] silent answered show thesis by auto
  next
    case None
    note run = run [unfolded None option.case] and fresh = journal_reply_None [OF reply [unfolded None]]
    show thesis
    proof (cases ?grant)
      case (Inl o')
      with run grant_reply_Inl [OF Inl] silent answered show thesis by auto
    next
      case (Inr y)
      obtain g q where y: "y = (g, q)" by fastforce
      note g = grant_reply_Inr [OF Inr [unfolded y]]
      note run = run [unfolded Inr y sum.case prod.case]
      obtain blocked where blocked: "blocked_reply (guard G_unknown ''target_has_unresolved_effect'' False)
          (wt_work_id T) db = Inr blocked"
        using run by (auto simp: bindE_eq_Inr)
      show thesis
      proof (cases blocked)
        case (Some o')
        with run blocked blocked_reply_Some [OF blocked [unfolded Some]] silent answered show thesis by auto
      next
        case None
        from run [unfolded blocked None bindE_simps option.case] blocked_reply_None [OF blocked [unfolded None]]
          fresh g silent answered admitted
        show thesis
          by (auto simp: bindE_eq_Inr canonical_revision_def write_admitted_def
              split: option.split_asm if_split_asm)
      qed
    qed
  qed
qed

end
