(* ===== verification/Canonical_Append.thy ===== *)
theory Canonical_Append
  imports Canonical_Txn Work_Relations
begin

text \<open>
  Appends to canonical work (\<open>CanonicalAppendGateway\<close> in \<open>src/switchstand/tracker/appends.py\<close>): the
  event, the version of the work and the journal row commit in one transaction, which is not
  retried.
\<close>

section \<open>Operations\<close>

definition append_guard :: "protected_append \<Rightarrow> guard" where
  "append_guard req st reason possible_send =
     \<lparr>go_status = st, go_operation = ''work_append'', go_work_id = Some (pa_work_id req),
      go_operation_id = Some (pa_operation_id req), go_reason = reason,
      go_effect = (if possible_send then Effect_unknown else Not_sent),
      go_retry = (if possible_send then Retry_reconcile
                  else if st = G_stale then Retry_refresh else Retry_none),
      go_next_action = (if possible_send
        then ''Reconcile the recorded effect; do not send a new operation.''
        else ''Refresh work/grant or ask the trusted issuer.''),
      go_receipt = None, go_blocked_by = None\<rparr>"

definition append_fingerprint :: "(principal \<Rightarrow> string) \<Rightarrow> (json \<Rightarrow> string) \<Rightarrow> principal \<Rightarrow> protected_append \<Rightarrow> string" where
  "append_fingerprint pkey digest pr req =
     digest (JList [JStr (pkey pr), json_uuid (pa_work_id req), JInt (pa_grant_version req),
       JStr (pa_observed_revision req), JStr (pa_text req)])"

abbreviation append_fp :: "runtime_env \<Rightarrow> principal \<Rightarrow> protected_append \<Rightarrow> string" where
  "append_fp E pr req \<equiv> append_fingerprint (rte_pkey E) (rte_raw_digest E) pr req"

definition append_request_json :: "protected_append \<Rightarrow> json" where
  "append_request_json req =
     JObj [(''api_version'', JStr ''1''), (''operation_id'', json_uuid (pa_operation_id req)),
       (''work_id'', json_uuid (pa_work_id req)),
       (''grant_version'', JInt (pa_grant_version req)),
       (''observed_revision'', JStr (pa_observed_revision req)), (''text'', JStr (pa_text req)),
       (''confirm_cancels_review'', JBool (pa_confirm_cancels_review req))]"

text \<open>What is checked between the row lock and the event.\<close>

definition append_refusal ::
  "runtime_env \<Rightarrow> principal \<Rightarrow> protected_append \<Rightarrow> runtime_db \<Rightarrow> (guard_outcome + current_work) py_result" where
  "append_refusal E pr req db =
     bindE (work_get_row (pa_work_id req) (rdb_works db)) (\<lambda>current.
     if_none current (Inr (Inl (append_guard req G_denied ''work_not_bound'' False))) (\<lambda>c.
     bindE (journal_reply (rte_pkey E pr) (append_fp E pr req) (pa_operation_id req)
       (append_guard req G_denied ''operation_identity_conflict'' False) db) (\<lambda>reply.
     case reply of Some o' \<Rightarrow> Inr (Inl o') | None \<Rightarrow>
     bindE (blocked_reply (append_guard req G_unknown ''target_has_unresolved_effect'' False)
       (pa_work_id req) db) (\<lambda>blocked.
     case blocked of Some o' \<Rightarrow> Inr (Inl o') | None \<Rightarrow>
     if cw_completed c then Inr (Inl (append_guard req G_denied ''work_is_terminal'' False))
     else bindE (canonical_revision (rve_revision (rte_review E)) (pa_work_id req) (cw_row_version c))
       (\<lambda>revision.
     if pa_observed_revision req \<noteq> revision
     then Inr (Inl (append_guard req G_stale ''source_revision_changed'' False))
     else case (if pa_confirm_cancels_review req then None
                else pending_review_id (pa_work_id req) (pa_observed_revision req) None
                       (rdb_works db) (rdb_messages db)) of
       Some review \<Rightarrow>
         Inr (Inl ((append_guard req G_confirm_required ''pending_review'' False)
           \<lparr>go_next_action := confirmation_message review\<rparr>))
     | None \<Rightarrow> Inr (Inr c))))))"

definition append_call_of :: "py_datetime \<Rightarrow> principal \<Rightarrow> protected_append \<Rightarrow> current_work \<Rightarrow> append_call" where
  "append_call_of stamp pr req c =
     \<lparr>ac_work_id = pa_work_id req, ac_observed_version = cw_row_version c,
      ac_operation_id = pa_operation_id req, ac_subtype = ''comment_added'',
      ac_text = Some (pa_text req), ac_created_at = stamp, ac_actor = Some (pr_subject pr),
      ac_asana_story_gid = None\<rparr>"

definition append_receipt_of ::
  "principal \<Rightarrow> protected_append \<Rightarrow> work_grant \<Rightarrow> string \<Rightarrow> uuid \<Rightarrow> guard_outcome" where
  "append_receipt_of pr req g q event =
     \<lparr>go_status = G_ok, go_operation = ''work_append'', go_work_id = Some (pa_work_id req),
      go_operation_id = Some (pa_operation_id req), go_reason = ''exact_effect_verified'',
      go_effect = Applied, go_retry = Retry_none, go_next_action = ''Use the recorded receipt.'',
      go_receipt = Some (R_effect
        \<lparr>rc_operation_id = pa_operation_id req, rc_principal = pr, rc_grant_id = wg_id g,
         rc_grant_version = wg_version g, rc_qualification = q, efr_work_id = pa_work_id req,
         efr_provider = ''postgres'', efr_task_gid = uuid_str (pa_work_id req),
         efr_story_gid = uuid_str event, efr_text = pa_text req\<rparr>),
      go_blocked_by = None\<rparr>"

definition append_journal_row ::
  "runtime_env \<Rightarrow> principal \<Rightarrow> protected_append \<Rightarrow> work_grant \<Rightarrow> guard_outcome \<Rightarrow> effect_row" where
  "append_journal_row E pr req g outcome =
     \<lparr>ei_operation_id = uuid_str (pa_operation_id req), ei_fingerprint = append_fp E pr req,
      ei_principal_key = rte_pkey E pr, ei_work_id = uuid_str (pa_work_id req),
      ei_grant_id = uuid_str (wg_id g), ei_grant_version = wg_version g,
      ei_intent = JObj [(''request'', append_request_json req), (''authority'', JStr ''postgres'')],
      ei_outcome = outcome\<rparr>"

definition append_write ::
  "runtime_env \<Rightarrow> uuid \<Rightarrow> py_datetime \<Rightarrow> principal \<Rightarrow> protected_append \<Rightarrow> work_grant \<Rightarrow> string \<Rightarrow> current_work
     \<Rightarrow> runtime_db \<Rightarrow> (guard_outcome \<times> runtime_db) py_result" where
  "append_write E new stamp pr req g q c db =
     bindE (append_locked new (append_call_of stamp pr req c) (rdb_works db)) (\<lambda>(appended, works).
       let outcome = append_receipt_of pr req g q (sev_id (ao_event appended)) in
       bindE (journal_insert (append_journal_row E pr req g outcome) (put_works works db)) (\<lambda>db'.
         Inr (outcome, db')))"

text \<open>The grant is checked before the journal is read; \<open>new\<close> is the fresh identifier of the event.\<close>

definition append_in ::
  "runtime_env \<Rightarrow> uuid \<Rightarrow> py_datetime \<Rightarrow> principal \<Rightarrow> protected_append \<Rightarrow> int \<Rightarrow> runtime_db
     \<Rightarrow> (guard_outcome \<times> runtime_db) py_result" where
  "append_in E new stamp pr req now db =
     bindE (gs_current (rte_pkey E pr) (rdb_grants db)) (\<lambda>grant.
     case grant_reply now pr (pa_work_id req) (pa_grant_version req) Work_append wg_append_qualification
       (\<lambda>q. (pr_assurance pr = Test_assurance) = starts_with q ''test:'')
       ''append_not_qualified_for_this_surface'' (append_guard req) grant of
       Inl o' \<Rightarrow> Inr (o', db)
     | Inr (g, q) \<Rightarrow>
         bindE (append_refusal E pr req db) (\<lambda>refusal.
         case refusal of
           Inl o' \<Rightarrow> Inr (o', db)
         | Inr c \<Rightarrow> append_write E new stamp pr req g q c db))"

definition append_handlers :: "protected_append \<Rightarrow> py_error \<Rightarrow> guard_outcome py_result" where
  "append_handlers req e =
     (if e = IntegrityError then Inr (append_guard req G_denied ''operation_identity_conflict'' False)
      else if \<exists>v. e = StaleWorkVersion v then Inr (append_guard req G_stale ''source_revision_changed'' False)
      else if e = TypeError \<or> is_value_error e \<or> e = KeyError
      then Inr (append_guard req G_denied ''invalid_database_append'' False)
      else if is_sqlalchemy_error e
      then Inr (append_guard req G_unknown ''state_or_effect_unavailable'' True)
      else Inl e)"

definition canonical_append ::
  "runtime_env \<Rightarrow> uuid \<Rightarrow> py_datetime \<Rightarrow> principal \<Rightarrow> protected_append \<Rightarrow> int \<times> txn_end \<Rightarrow> runtime_db
     \<Rightarrow> guard_outcome py_result \<times> runtime_db" where
  "canonical_append E new stamp pr req t db =
     one_attempt (append_handlers req) (append_in E new stamp pr req) t db"

section \<open>The one change\<close>

abbreviation append_journalled ::
  "runtime_env \<Rightarrow> principal \<Rightarrow> protected_append \<Rightarrow> runtime_db \<Rightarrow> guard_outcome \<Rightarrow> bool" where
  "append_journalled E pr req \<equiv> journalled (rte_pkey E pr) (append_fp E pr req) (pa_operation_id req)"

lemma append_guard_effect [simp]: "go_effect (append_guard req st why False) = Not_sent"
  by (simp add: append_guard_def)

text \<open>
  The observed row keeps every column and takes the next version when an event was added; an event
  that an earlier append left behind is answered without a second one.
\<close>

definition append_effect :: "protected_append \<Rightarrow> canon_db \<Rightarrow> canon_db \<Rightarrow> bool" where
  "append_effect req works works' =
     (relations_inv works' \<and> cdb_parents works' = cdb_parents works
      \<and> (works' = works \<and> Some (pa_operation_id req) \<in> set (map sev_operation_id (cdb_events works))
         \<or> (\<exists>e. events_of (pa_work_id req) works' = events_of (pa_work_id req) works @ [e]
              \<and> sev_text e = Some (pa_text req) \<and> sev_operation_id e = Some (pa_operation_id req)
              \<and> work_lookup works' = (\<lambda>u. if u = pa_work_id req
                  then map_option (\<lambda>c. c\<lparr>cw_row_version := cw_row_version c + 1\<rparr>) (work_lookup works u)
                  else work_lookup works u)
              \<and> (\<forall>u. u \<noteq> pa_work_id req \<longrightarrow> work_links u works' = work_links u works))))"

definition append_written ::
  "runtime_env \<Rightarrow> principal \<Rightarrow> protected_append \<Rightarrow> runtime_db \<Rightarrow> runtime_db \<Rightarrow> guard_outcome \<Rightarrow> bool" where
  "append_written E pr req pre db' out =
     (\<exists>g c. work_lookup (rdb_works pre) (pa_work_id req) = Some c \<and> \<not> cw_completed c
        \<and> pa_observed_revision req
            = ''pg_'' @ rve_revision (rte_review E) (pa_work_id req) (cw_row_version c)
        \<and> (pa_confirm_cancels_review req
           \<or> pending_review_id (pa_work_id req) (pa_observed_revision req) None (rdb_works pre)
               (rdb_messages pre) = None)
        \<and> append_effect req (rdb_works pre) (rdb_works db')
        \<and> rdb_reviews db' = rdb_reviews pre \<and> rdb_messages db' = rdb_messages pre
        \<and> uuid_str (pa_operation_id req) \<notin> set (map ei_operation_id (rdb_intents pre))
        \<and> gdb_grants (rdb_grants db') = gdb_grants (rdb_grants pre)
        \<and> rdb_intents db' = rdb_intents pre @ [append_journal_row E pr req g out]
        \<and> go_effect out = Applied)"

lemma work_exists_events [simp]:
  "work_exists u (db\<lparr>cdb_events := es\<rparr>) = work_exists u db" "forest (db\<lparr>cdb_events := es\<rparr>) = forest db"
  by (simp_all add: work_exists_def forest_def)

lemma append_locked_effect:
  assumes inv: "relations_inv works" and c: "work_lookup works (pa_work_id req) = Some c"
    and run: "append_locked new (append_call_of stamp pr req c) works = Inr (appended, works')"
  shows "append_effect req works works'"
proof -
  have ev: "events_inv works" using inv by (simp add: relations_inv_def)
  note stream = append_stream [OF ev run]
  from relations_inv_keys [OF inv] run show ?thesis
  proof (cases rule: append_cases)
    case (replay e)
    with inv show ?thesis by (force simp: append_effect_def append_call_of_def)
  next
    case (created d)
    let ?e = "new_event new (append_call_of stamp pr req c) works (cw_row_version d)"
    have id: "ac_work_id (append_call_of stamp pr req c) = pa_work_id req" by (simp add: append_call_of_def)
    with created c have d: "d = c" by simp
    have w': "works' = bump_version (pa_work_id req) (cw_row_version c + 1)
        (works\<lparr>cdb_events := cdb_events works @ [?e]\<rparr>)"
      using created(5) id d by simp
    have "events_inv works'" using stream by blast
    with inv have "relations_inv works'" by (simp add: relations_inv_def w')
    moreover have "events_of (pa_work_id req) works' = events_of (pa_work_id req) works @ [?e]"
      using stream created(4) id by simp
    moreover have "work_links u works' = work_links u works" if "u \<noteq> pa_work_id req" for u
      using links_append [OF run] that id by simp
    ultimately show ?thesis using c
      by (auto simp: append_effect_def w' bump_lookup fun_eq_iff new_event_def append_call_of_def
          intro!: exI [of _ ?e])
  qed
qed

lemma append_refusal_cases:
  assumes keys: "work_keys (rdb_works db)" and run: "append_refusal E pr req db = Inr x"
  obtains (answered) o' where "x = Inl o'" "go_effect o' = Not_sent \<or> append_journalled E pr req db o'"
    | (fit) c where "x = Inr c" "work_lookup (rdb_works db) (pa_work_id req) = Some c" "\<not> cw_completed c"
        "pa_observed_revision req = ''pg_'' @ rve_revision (rte_review E) (pa_work_id req) (cw_row_version c)"
        "pa_confirm_cancels_review req \<or> pending_review_id (pa_work_id req) (pa_observed_revision req) None
           (rdb_works db) (rdb_messages db) = None"
        "uuid_str (pa_operation_id req) \<notin> set (map ei_operation_id (rdb_intents db))"
proof (cases "work_lookup (rdb_works db) (pa_work_id req)")
  case None
  with run answered show thesis by (auto simp: append_refusal_def work_get_row_lookup [OF keys])
next
  case (Some c)
  note run = run [unfolded append_refusal_def work_get_row_lookup [OF keys] Some bindE_simps option.case]
  obtain reply where reply: "journal_reply (rte_pkey E pr) (append_fp E pr req) (pa_operation_id req)
      (append_guard req G_denied ''operation_identity_conflict'' False) db = Inr reply"
    using run by (auto simp: bindE_eq_Inr)
  note run = run [unfolded reply bindE_simps]
  show thesis
  proof (cases reply)
    case R: (Some o')
    with run journal_reply_Some [OF reply [unfolded R]] answered show thesis by auto
  next
    case R: None
    note run = run [unfolded R option.case] and fresh = journal_reply_None [OF reply [unfolded R]]
    obtain blocked where blocked: "blocked_reply (append_guard req G_unknown ''target_has_unresolved_effect'' False)
        (pa_work_id req) db = Inr blocked"
      using run by (auto simp: bindE_eq_Inr)
    show thesis
    proof (cases blocked)
      case B: (Some o')
      with run blocked blocked_reply_Some [OF blocked [unfolded B]] answered show thesis by auto
    next
      case B: None
      from run [unfolded blocked B bindE_simps option.case] fresh Some answered fit show thesis
        by (auto simp: bindE_eq_Inr canonical_revision_def split: option.split_asm if_split_asm)
    qed
  qed
qed

lemma append_in_written:
  assumes inv: "relations_inv (rdb_works db)" and run: "append_in E new stamp pr req now db = Inr (out, db')"
  shows "db' = db \<and> (go_effect out = Not_sent \<or> append_journalled E pr req db out)
     \<or> append_written E pr req db db' out"
proof -
  note keys = relations_inv_keys [OF inv]
  from run obtain grant where run: "(case grant_reply now pr (pa_work_id req) (pa_grant_version req) Work_append
       wg_append_qualification (\<lambda>q. (pr_assurance pr = Test_assurance) = starts_with q ''test:'')
       ''append_not_qualified_for_this_surface'' (append_guard req) grant of
       Inl o' \<Rightarrow> Inr (o', db)
     | Inr (g, q) \<Rightarrow> bindE (append_refusal E pr req db) (\<lambda>refusal.
         case refusal of Inl o' \<Rightarrow> Inr (o', db) | Inr c \<Rightarrow> append_write E new stamp pr req g q c db))
     = Inr (out, db')"
    by (auto simp: append_in_def bindE_eq_Inr)
  show ?thesis
  proof (cases "grant_reply now pr (pa_work_id req) (pa_grant_version req) Work_append
       wg_append_qualification (\<lambda>q. (pr_assurance pr = Test_assurance) = starts_with q ''test:'')
       ''append_not_qualified_for_this_surface'' (append_guard req) grant")
    case (Inl o')
    with run grant_reply_Inl [OF Inl] show ?thesis by auto
  next
    case (Inr y)
    obtain g q where y: "y = (g, q)" by fastforce
    note run = run [unfolded Inr y sum.case prod.case]
    obtain refusal where ref: "append_refusal E pr req db = Inr refusal" using run by (auto simp: bindE_eq_Inr)
    note run = run [unfolded ref bindE_simps]
    show ?thesis
    proof (cases rule: append_refusal_cases [OF keys ref, case_names answered fit])
      case (answered o')
      with run show ?thesis by auto
    next
      case (fit c)
      with run obtain appended works where
        ap: "append_locked new (append_call_of stamp pr req c) (rdb_works db) = Inr (appended, works)"
        and out: "out = append_receipt_of pr req g q (sev_id (ao_event appended))"
        and jr: "journal_insert (append_journal_row E pr req g out) (put_works works db) = Inr db'"
        by (auto simp: append_write_def Let_def bindE_eq_Inr)
      note eff = append_locked_effect [OF inv fit(2) ap]
      have "go_effect out = Applied" by (simp add: out append_receipt_of_def)
      then have "append_written E pr req db db' out"
        using fit eff journal_insert_Inr(2) [OF jr] unfolding append_written_def
        by (intro exI [of _ g] exI [of _ c]) simp
      then show ?thesis by simp
    qed
  qed
qed

interpretation append_call: journalled_call "\<lambda>_ e. Some (append_handlers req e)" "append_in E new stamp pr req"
  "append_journalled E pr req" "append_written E pr req" "\<lambda>db. relations_inv (rdb_works db)"
  for E new stamp pr req
proof (unfold_locales, goal_cases)
  case (1 db now out db')
  then show ?case using append_in_written by blast
next
  case (2 db db' out)
  then show ?case by (auto simp: append_written_def journalled_def append_journal_row_def)
next
  case (3 again e out)
  then show ?case by (auto simp: append_handlers_def append_guard_def split: if_split_asm)
qed simp

lemma canonical_append_truthful:
  assumes "relations_inv (rdb_works db)" and "canonical_append E new stamp pr req t db = (Inr out, db')"
  shows "(db' = db \<or> (\<exists>o'. append_written E pr req db db' o'))
     \<and> (go_effect out = Applied \<longrightarrow> append_journalled E pr req db' out)
     \<and> (go_effect out = Not_sent \<longrightarrow> db' = db \<or> append_journalled E pr req db' out)"
  using append_call.single_truthful [OF assms(1)] assms(2) by (simp add: canonical_append_def)

end
