(* ===== verification/Canonical_Update.thy ===== *)
theory Canonical_Update
  imports Canonical_Txn Work_Policy
begin

text \<open>
  Scalar updates of canonical work (\<open>protected_update\<close> in
  \<open>src/switchstand/tracker/runtime.py\<close>): admission, the one-field finish, the reopening rule, the
  resultant-state policy and the notes bound. The work row and the journal row are written in one
  transaction.
\<close>

section \<open>Outcomes\<close>

definition runtime_guard :: "protected_update \<Rightarrow> guard_status \<Rightarrow> string \<Rightarrow> bool \<Rightarrow> guard_outcome" where
  "runtime_guard req st reason possible =
     \<lparr>go_status = st, go_operation = ''work_update'', go_work_id = Some (pu_work_id req),
      go_operation_id = Some (pu_operation_id req), go_reason = reason,
      go_effect = (if possible then Effect_unknown else Not_sent),
      go_retry = (if possible then Retry_reconcile
                  else if st = G_stale then Retry_refresh else Retry_none),
      go_next_action = (if possible
        then ''Retry this exact work_update OperationId; do not start a new effect.''
        else ''Refresh work/grant or ask the trusted issuer.''),
      go_receipt = None, go_blocked_by = None\<rparr>"

definition runtime_fingerprint :: "runtime_env \<Rightarrow> principal \<Rightarrow> protected_update \<Rightarrow> string" where
  "runtime_fingerprint E pr req =
     rte_digest E (JList [JStr (rte_pkey E pr), json_uuid (pu_work_id req),
       JInt (pu_grant_version req), JStr (pu_observed_revision req), patch_json True (pu_patch req)])"

section \<open>Admission\<close>

text \<open>
  Everything before the patch is looked at: an answer, or the admitting grant with its
  qualification and the locked row.
\<close>

abbreviation update_target :: "runtime_env \<Rightarrow> principal \<Rightarrow> protected_update \<Rightarrow> write_target" where
  "update_target E pr req \<equiv>
     \<lparr>wt_work_id = pu_work_id req, wt_operation_id = pu_operation_id req,
      wt_fingerprint = runtime_fingerprint E pr req, wt_grant_version = pu_grant_version req,
      wt_observed_revision = pu_observed_revision req, wt_operation = Work_update,
      wt_qualification = wg_update_qualification,
      wt_qualified = (\<lambda>q. (pr_assurance pr = Test_assurance) = starts_with q ''test:''),
      wt_unqualified = ''update_not_qualified_for_this_surface''\<rparr>"

definition update_admission ::
  "runtime_env \<Rightarrow> int \<Rightarrow> principal \<Rightarrow> protected_update \<Rightarrow> work_grant option \<Rightarrow> runtime_db
     \<Rightarrow> (guard_outcome + work_grant \<times> string \<times> current_work) py_result" where
  "update_admission E now pr req grant db =
     bindE (work_admission E now pr (update_target E pr req) (runtime_guard req) grant db) (\<lambda>adm.
     case adm of Inl o' \<Rightarrow> Inr (Inl o') | Inr admitted_work \<Rightarrow>
       (case (if pu_confirm_cancels_review req then None
              else pending_review_id (pu_work_id req) (pu_observed_revision req) None
                     (rdb_works db) (rdb_messages db)) of
          Some review \<Rightarrow>
            Inr (Inl ((runtime_guard req G_confirm_required ''pending_review'' False)
              \<lparr>go_next_action := confirmation_message review\<rparr>))
        | None \<Rightarrow> Inr (Inr admitted_work)))"

section \<open>The patch\<close>

definition SCALAR_FIELDS :: "work_field set" where
  "SCALAR_FIELDS = {Title, Notes, Completed, Priority, Work_type, Lifecycle_state,
     Review_next_action, Canonical_root, Owner_key, Wait_kind, Unblock_condition, Next_due,
     Next_action_class, Next_action_ref}"

definition terminal_values :: "(work_field \<times> scalar) list" where
  "terminal_values = [(Completed, Flag True), (Lifecycle_state, Text ''TERMINAL''),
     (Wait_kind, Text ''NONE''), (Unblock_condition, Text ''NONE''), (Next_due, Text ''NONE''),
     (Next_action_class, Text ''NONE''), (Next_action_ref, Text ''NONE'')]"

definition transition_fields :: "patch \<Rightarrow> work_field list" where
  "transition_fields p = filter (\<lambda>f. p f \<noteq> None) [Completed, Lifecycle_state]"

text \<open>The one-field finish: \<open>None\<close> when the patch contradicts it.\<close>

definition finish_values :: "patch \<Rightarrow> patch option" where
  "finish_values p =
     (if length (transition_fields p) = 1
         \<and> (patch_get p Completed = Some (Flag True)
            \<or> patch_get p Lifecycle_state = Some (Text ''TERMINAL''))
      then (if list_ex (\<lambda>(f, v). p f \<noteq> None \<and> patch_get p f \<noteq> Some v) terminal_values then None
            else Some (\<lambda>f. case map_of terminal_values f of Some v \<Rightarrow> Some (Some v) | None \<Rightarrow> p f))
      else Some p)"

text \<open>\<open>replace(current, **values)\<close>; a validated patch has no null and each value its field's type.\<close>

definition text_value :: "patch \<Rightarrow> work_field \<Rightarrow> string \<Rightarrow> string" where
  "text_value p f old = (case patch_get p f of Some (Text s) \<Rightarrow> s | _ \<Rightarrow> old)"

definition opt_value :: "patch \<Rightarrow> work_field \<Rightarrow> string option \<Rightarrow> string option" where
  "opt_value p f old = (case patch_get p f of Some (Text s) \<Rightarrow> Some s | _ \<Rightarrow> old)"

definition flag_value :: "patch \<Rightarrow> work_field \<Rightarrow> bool \<Rightarrow> bool" where
  "flag_value p f old = (case patch_get p f of Some (Flag b) \<Rightarrow> b | _ \<Rightarrow> old)"

definition candidate_of :: "current_work \<Rightarrow> patch \<Rightarrow> current_work" where
  "candidate_of c p = c\<lparr>
     cw_title := text_value p Title (cw_title c),
     cw_completed := flag_value p Completed (cw_completed c),
     cw_notes := text_value p Notes (cw_notes c),
     cw_priority := opt_value p Priority (cw_priority c),
     cw_work_type := opt_value p Work_type (cw_work_type c),
     cw_lifecycle_state := opt_value p Lifecycle_state (cw_lifecycle_state c),
     cw_review_next_action := opt_value p Review_next_action (cw_review_next_action c),
     cw_canonical_root := opt_value p Canonical_root (cw_canonical_root c),
     cw_owner_key := opt_value p Owner_key (cw_owner_key c),
     cw_wait_kind := opt_value p Wait_kind (cw_wait_kind c),
     cw_unblock_condition := opt_value p Unblock_condition (cw_unblock_condition c),
     cw_next_due := opt_value p Next_due (cw_next_due c),
     cw_next_action_class := opt_value p Next_action_class (cw_next_action_class c),
     cw_next_action_ref := opt_value p Next_action_ref (cw_next_action_ref c)\<rparr>"

definition semantic_of :: "current_work \<Rightarrow> semantic_state" where
  "semantic_of c = \<lparr>ss_lifecycle_state = cw_lifecycle_state c, ss_canonical_root = cw_canonical_root c,
     ss_owner_key = cw_owner_key c, ss_wait_kind = cw_wait_kind c,
     ss_unblock_condition = cw_unblock_condition c, ss_next_due = cw_next_due c,
     ss_next_action_class = cw_next_action_class c, ss_next_action_ref = cw_next_action_ref c,
     ss_completed = Some (cw_completed c)\<rparr>"

text \<open>A reopening that does not spell out the whole current state it reopens to.\<close>

definition incomplete_reopen :: "current_work \<Rightarrow> patch \<Rightarrow> patch \<Rightarrow> bool" where
  "incomplete_reopen c p vals =
     (transition_fields p \<noteq> []
      \<and> (cw_completed c \<or> cw_lifecycle_state c = Some ''TERMINAL'')
      \<and> \<not> cw_completed (candidate_of c vals)
      \<and> \<not> (patch_get vals Completed = Some (Flag False)
           \<and> patch_get vals Lifecycle_state = Some (Text ''CURRENT'')
           \<and> (\<forall>f \<in> {Next_action_class, Next_action_ref}.
                patch_get vals f \<notin> {None, Some (Text ''NONE''), Some (Text ''UNKNOWN'')})
           \<and> (\<forall>f \<in> {Wait_kind, Unblock_condition, Next_due}. patch_get vals f = Some (Text ''NONE''))))"

definition validate_semantic_write :: "current_work \<Rightarrow> work_field set \<Rightarrow> unit py_result" where
  "validate_semantic_write c affected =
     (if affected \<inter> SEMANTIC_FIELDS \<noteq> {} then validate_resultant_state affected (semantic_of c)
      else Inr ())"

text \<open>\<open>str(error)\<close> of the error the resultant-state validator raises.\<close>

definition resultant_state_message :: "work_field set \<Rightarrow> semantic_state \<Rightarrow> string" where
  "resultant_state_message affected s =
     (let transition = affected \<inter> {Completed, Lifecycle_state} \<noteq> {};
          waits = transition \<or> affected \<inter> {Wait_kind, Unblock_condition, Next_due} \<noteq> {};
          actions = waits \<or> affected \<inter> {Next_action_class, Next_action_ref} \<noteq> {};
          lifecycle = ss_lifecycle_state s;
          action = state_action s
      in if (waits \<or> actions) \<and> lifecycle \<notin> Some ` set lifecycle_states
         then ''semantic writes require a lifecycle state''
         else if Canonical_root \<in> affected \<and> \<not> root_value (ss_canonical_root s)
         then ''canonical root must be NONE, UNKNOWN, or a WorkId''
         else if Owner_key \<in> affected \<and> \<not> truthy (ss_owner_key s)
         then ''owner key must be NONE, UNKNOWN, or nonempty''
         else if transition \<and> ss_completed s \<noteq> None
                 \<and> ss_completed s \<noteq> Some (lifecycle = Some ''TERMINAL'')
         then ''completed/lifecycle_state must agree: use completed=true alone to finish, ''
              @ ''or completed=false with a valid nonterminal transition''
         else if actions \<and> action \<notin> {(NONE, NONE), (UNKNOWN, UNKNOWN)}
                 \<and> \<not> (exact_value (fst action) \<and> exact_value (snd action))
         then ''next_action_class/next_action_ref require two exact values, NONE/NONE, ''
              @ ''or UNKNOWN/UNKNOWN''
         else if actions \<and> lifecycle \<in> {Some ''WAITING'', Some ''DEFERRED'', Some ''TERMINAL''}
                 \<and> action \<noteq> (NONE, NONE)
         then ''next_action_class/next_action_ref must both be NONE for ''
              @ ''waiting/deferred/terminal work''
         else if lifecycle = Some ''CURRENT''
         then ''CURRENT requires wait_kind=unblock_condition=next_due=NONE''
         else if lifecycle = Some ''WAITING'' \<or> lifecycle = Some ''DEFERRED''
         then (if \<not> exact_value (ss_wait_kind s) \<or> \<not> exact_value (ss_unblock_condition s)
               then ''WAITING/DEFERRED requires exact wait_kind and unblock_condition''
               else ''WAITING/DEFERRED requires an explicit next_due disposition'')
         else if lifecycle = Some ''TERMINAL''
         then ''TERMINAL requires wait_kind=unblock_condition=next_due=NONE''
         else ''UNKNOWN requires explicit wait_kind/unblock_condition/next_due dispositions'')"

definition exact_root :: "string option \<Rightarrow> uuid option py_result" where
  "exact_root v =
     (if v \<in> {None, NONE, UNKNOWN} then Inr None
      else case py_uuid (the v) of None \<Rightarrow> Inl ValueError | Some u \<Rightarrow> Inr (Some u))"

section \<open>The write\<close>

definition update_receipt_of ::
  "principal \<Rightarrow> protected_update \<Rightarrow> work_grant \<Rightarrow> string \<Rightarrow> string \<Rightarrow> patch \<Rightarrow> guard_outcome" where
  "update_receipt_of pr req g q revision vals =
     \<lparr>go_status = G_ok, go_operation = ''work_update'', go_work_id = Some (pu_work_id req),
      go_operation_id = Some (pu_operation_id req), go_reason = ''scalar_state_converged'',
      go_effect = Applied, go_retry = Retry_none, go_next_action = ''Use the recorded receipt.'',
      go_receipt = Some (R_update
        \<lparr>rc_operation_id = pu_operation_id req, rc_principal = pr, rc_grant_id = wg_id g,
         rc_grant_version = wg_version g, rc_qualification = q, upr_work_id = pu_work_id req,
         upr_provider = ''postgres'', upr_task_gid = uuid_str (pu_work_id req),
         upr_observed_revision = pu_observed_revision req,
         upr_resulting_revision = revision, upr_patch = vals\<rparr>),
      go_blocked_by = None\<rparr>"

definition update_journal_row ::
  "runtime_env \<Rightarrow> principal \<Rightarrow> protected_update \<Rightarrow> work_grant \<Rightarrow> guard_outcome \<Rightarrow> effect_row" where
  "update_journal_row E pr req g outcome =
     \<lparr>ei_operation_id = uuid_str (pu_operation_id req), ei_fingerprint = runtime_fingerprint E pr req,
      ei_principal_key = rte_pkey E pr, ei_work_id = uuid_str (pu_work_id req),
      ei_grant_id = uuid_str (wg_id g), ei_grant_version = wg_version g,
      ei_intent = JObj [(''request'', update_request_json req), (''authority'', JStr ''postgres'')],
      ei_outcome = outcome\<rparr>"

text \<open>The refusals a candidate state can meet, in the order of the code.\<close>

definition candidate_refusal ::
  "runtime_env \<Rightarrow> protected_update \<Rightarrow> current_work \<Rightarrow> patch \<Rightarrow> runtime_db \<Rightarrow> guard_outcome option py_result" where
  "candidate_refusal E req c vals db =
     (let cand = candidate_of c vals; affected = set (fields_set vals) in
      bindE (agent_notes_fit (rte_review E) (cw_work_id cand) (cw_notes cand) (rdb_reviews db)) (\<lambda>fit.
      if \<not> fit then Inr (Some (runtime_guard req G_denied ''agent_notes_overflow'' False))
      else if incomplete_reopen c (pu_patch req) vals
      then Inr (Some ((runtime_guard req G_denied ''invalid_resultant_state'' False)
        \<lparr>go_next_action := ''reopen requires explicit completed=false, CURRENT, exact ''
           @ ''next_action_class/next_action_ref and NONE wait_kind/unblock_condition/next_due''\<rparr>))
      else case validate_semantic_write cand affected of
        Inl _ \<Rightarrow> Inr (Some ((runtime_guard req G_denied ''invalid_resultant_state'' False)
          \<lparr>go_next_action := resultant_state_message affected (semantic_of cand)\<rparr>))
      | Inr _ \<Rightarrow>
          bindE (if pu_patch req Canonical_root \<noteq> None then exact_root (cw_canonical_root cand) else Inr None)
            (\<lambda>root.
          if_none root (Inr None) (\<lambda>u.
          bindE (work_get_row u (rdb_works db)) (\<lambda>row.
            Inr (if row = None
                 then Some (runtime_guard req G_denied ''canonical_root_not_bound'' False) else None))))))"

definition update_write ::
  "runtime_env \<Rightarrow> principal \<Rightarrow> protected_update \<Rightarrow> work_grant \<Rightarrow> string \<Rightarrow> current_work \<Rightarrow> patch
     \<Rightarrow> runtime_db \<Rightarrow> (guard_outcome \<times> runtime_db) py_result" where
  "update_write E pr req g q c vals db =
     bindE (candidate_refusal E req c vals db) (\<lambda>refusal.
     case refusal of
       Some o' \<Rightarrow> Inr (o', db)
     | None \<Rightarrow>
         bindE (replace_locked (rte_casefold E) (candidate_of c vals) (rdb_works db)) (\<lambda>(changed, works).
         bindE (canonical_revision (rve_revision (rte_review E)) (pu_work_id req) (cw_row_version changed))
           (\<lambda>revision.
         if \<not> valid_scalar_patch vals then Inl ValidationError
         else let outcome = update_receipt_of pr req g q revision vals in
           bindE (journal_insert (update_journal_row E pr req g outcome) (put_works works db)) (\<lambda>db'.
             Inr (outcome, db')))))"

definition update_in ::
  "runtime_env \<Rightarrow> int \<Rightarrow> principal \<Rightarrow> protected_update \<Rightarrow> runtime_db
     \<Rightarrow> (guard_outcome \<times> runtime_db) py_result" where
  "update_in E now pr req db =
     bindE (gs_current (rte_pkey E pr) (rdb_grants db)) (\<lambda>grant.
     bindE (update_admission E now pr req grant db) (\<lambda>admitted.
     case admitted of
       Inl o' \<Rightarrow> Inr (o', db)
     | Inr (g, q, c) \<Rightarrow>
         (if \<not> set (fields_set (pu_patch req)) \<subseteq> SCALAR_FIELDS
          then Inr (runtime_guard req G_denied ''invalid_database_metadata'' False, db)
          else case finish_values (pu_patch req) of
            None \<Rightarrow> Inr ((runtime_guard req G_denied ''invalid_resultant_state'' False)
              \<lparr>go_next_action := ''FINISH requires cleared wait/action fields; use completed=true alone.''\<rparr>, db)
          | Some vals \<Rightarrow> update_write E pr req g q c vals db)))"

text \<open>The handlers around one attempt; errors the clauses do not name leave the call.\<close>

definition update_handlers :: "protected_update \<Rightarrow> bool \<Rightarrow> py_error \<Rightarrow> guard_outcome py_result option" where
  "update_handlers req again e =
     (if e = IntegrityError
      then (if again then None
            else Some (Inr (runtime_guard req G_denied ''invalid_database_metadata'' False)))
      else if e = TypeError \<or> is_value_error e \<or> e = KeyError
      then Some (Inr (runtime_guard req G_denied ''invalid_database_metadata'' False))
      else if is_sqlalchemy_error e
      then Some (Inr (runtime_guard req G_unknown ''state_or_effect_unavailable'' True))
      else Some (Inl e))"

definition canonical_update ::
  "runtime_env \<Rightarrow> principal \<Rightarrow> protected_update \<Rightarrow> int \<times> txn_end \<Rightarrow> (runtime_db \<Rightarrow> runtime_db)
     \<Rightarrow> int \<times> txn_end \<Rightarrow> runtime_db \<Rightarrow> guard_outcome py_result \<times> runtime_db" where
  "canonical_update E pr req first between second db =
     two_attempts (update_handlers req) (\<lambda>now. update_in E now pr req) first between second db"

section \<open>What an attempt does\<close>

abbreviation update_journalled ::
  "runtime_env \<Rightarrow> principal \<Rightarrow> protected_update \<Rightarrow> runtime_db \<Rightarrow> guard_outcome \<Rightarrow> bool" where
  "update_journalled E pr req \<equiv>
     journalled (rte_pkey E pr) (runtime_fingerprint E pr req) (pu_operation_id req)"

lemma runtime_guard_effect [simp]:
  "go_effect (runtime_guard req st re b) = (if b then Effect_unknown else Not_sent)"
  by (simp add: runtime_guard_def)

definition admitted_call ::
  "runtime_env \<Rightarrow> int \<Rightarrow> principal \<Rightarrow> protected_update \<Rightarrow> work_grant option \<Rightarrow> runtime_db
     \<Rightarrow> work_grant \<Rightarrow> string \<Rightarrow> current_work \<Rightarrow> bool" where
  "admitted_call E now pr req grant db g q c =
     (write_admitted E now pr (update_target E pr req) grant db g q c
      \<and> (pu_confirm_cancels_review req
         \<or> pending_review_id (pu_work_id req) (pu_observed_revision req) None (rdb_works db)
             (rdb_messages db) = None))"

lemma admission_cases:
  assumes keys: "work_keys (rdb_works db)" and run: "update_admission E now pr req grant db = Inr x"
  shows "(\<exists>o'. x = Inl o' \<and> (go_effect o' = Not_sent \<or> update_journalled E pr req db o'))
    \<or> (\<exists>g q c. x = Inr (g, q, c) \<and> admitted_call E now pr req grant db g q c)"
proof -
  from run obtain y where y: "work_admission E now pr (update_target E pr req) (runtime_guard req) grant db = Inr y"
    by (auto simp: update_admission_def bindE_eq_Inr)
  show ?thesis
    by (cases rule: work_admission_cases [OF keys y])
      (use run y in \<open>auto simp: update_admission_def admitted_call_def split: option.split_asm if_split_asm\<close>)
qed

lemma journal_row_simps [simp]:
  "ei_operation_id (update_journal_row E pr req g o') = uuid_str (pu_operation_id req)"
  "ei_fingerprint (update_journal_row E pr req g o') = runtime_fingerprint E pr req"
  "ei_principal_key (update_journal_row E pr req g o') = rte_pkey E pr"
  "ei_work_id (update_journal_row E pr req g o') = uuid_str (pu_work_id req)"
  "ei_outcome (update_journal_row E pr req g o') = o'"
  by (simp_all add: update_journal_row_def)

lemma candidate_refusal_effect:
  assumes "candidate_refusal E req c vals db = Inr (Some o')"
  shows "go_effect o' = Not_sent"
  using assms unfolding candidate_refusal_def Let_def
  by (auto simp: bindE_eq_Inr split: if_split_asm option.split_asm sum.split_asm)

lemma update_write_cases:
  assumes "update_write E pr req g q c vals db = Inr (out, db')"
  obtains (refused) "db' = db" "go_effect out = Not_sent"
    | (wrote) changed works revision where "candidate_refusal E req c vals db = Inr None"
        "replace_locked (rte_casefold E) (candidate_of c vals) (rdb_works db) = Inr (changed, works)"
        "out = update_receipt_of pr req g q revision vals"
        "journal_insert (update_journal_row E pr req g out) (put_works works db) = Inr db'"
proof -
  from assms obtain refusal where ref: "candidate_refusal E req c vals db = Inr refusal"
    by (auto simp: update_write_def bindE_eq_Inr)
  show thesis
  proof (cases refusal)
    case (Some o')
    with ref assms candidate_refusal_effect show thesis by (auto simp: update_write_def intro: refused)
  next
    case None
    with ref assms show thesis
      by (auto simp: update_write_def Let_def bindE_eq_Inr split: if_split_asm prod.split_asm
          intro!: wrote)
  qed
qed

lemma update_in_cases:
  assumes keys: "work_keys (rdb_works db)" and run: "update_in E now pr req db = Inr (out, db')"
  obtains (kept) "db' = db" "go_effect out = Not_sent \<or> update_journalled E pr req db out"
    | (written) grant g q c vals changed works revision where
        "admitted_call E now pr req grant db g q c"
        "finish_values (pu_patch req) = Some vals" "candidate_refusal E req c vals db = Inr None"
        "replace_locked (rte_casefold E) (candidate_of c vals) (rdb_works db) = Inr (changed, works)"
        "out = update_receipt_of pr req g q revision vals"
        "journal_insert (update_journal_row E pr req g out) (put_works works db) = Inr db'"
proof -
  from run obtain grant adm where adm: "update_admission E now pr req grant db = Inr adm"
    and rest: "(case adm of Inl o' \<Rightarrow> Inr (o', db)
     | Inr (g, q, c) \<Rightarrow>
         (if \<not> set (fields_set (pu_patch req)) \<subseteq> SCALAR_FIELDS
          then Inr (runtime_guard req G_denied ''invalid_database_metadata'' False, db)
          else case finish_values (pu_patch req) of
            None \<Rightarrow> Inr ((runtime_guard req G_denied ''invalid_resultant_state'' False)
              \<lparr>go_next_action := ''FINISH requires cleared wait/action fields; use completed=true alone.''\<rparr>, db)
          | Some vals \<Rightarrow> update_write E pr req g q c vals db)) = Inr (out, db')"
    by (auto simp: update_in_def bindE_eq_Inr)
  show thesis
  proof (cases adm)
    case (Inl o')
    with admission_cases [OF keys adm] rest show thesis by (auto intro: kept)
  next
    case (Inr y)
    obtain g q c where y: "y = (g, q, c)" by (cases y)
    show thesis
    proof (cases "finish_values (pu_patch req)")
      case None
      with Inr y rest show thesis by (auto split: if_split_asm intro: kept)
    next
      case (Some vals)
      show thesis
      proof (cases "set (fields_set (pu_patch req)) \<subseteq> SCALAR_FIELDS")
        case False
        with Some Inr y rest show thesis by (auto intro: kept)
      next
        case True
        with Some Inr y rest have "update_write E pr req g q c vals db = Inr (out, db')"
          by simp
        then show thesis
        proof (cases rule: update_write_cases)
          case refused
          then show thesis by (auto intro: kept)
        next
          case (wrote changed works revision)
          with Some Inr y admission_cases [OF keys adm] show thesis by (auto intro: written)
        qed
      qed
    qed
  qed
qed

text \<open>
  The one change an update may make to a state: the observed row takes the patched values and
  the next version, and the journal gains the operation with the applied outcome.
\<close>

definition update_written ::
  "runtime_env \<Rightarrow> principal \<Rightarrow> protected_update \<Rightarrow> runtime_db \<Rightarrow> runtime_db \<Rightarrow> guard_outcome \<Rightarrow> bool" where
  "update_written E pr req pre db' out =
     (\<exists>g c vals.
        work_lookup (rdb_works pre) (pu_work_id req) = Some c
        \<and> pu_observed_revision req
            = ''pg_'' @ rve_revision (rte_review E) (pu_work_id req) (cw_row_version c)
        \<and> finish_values (pu_patch req) = Some vals
        \<and> candidate_refusal E req c vals pre = Inr None
        \<and> work_keys (rdb_works db')
        \<and> (\<exists>rows. rdb_works db' = (rdb_works pre)\<lparr>cdb_works := rows\<rparr>)
        \<and> work_lookup (rdb_works db') (pu_work_id req)
            = Some ((candidate_of c vals)\<lparr>cw_row_version := cw_row_version c + 1\<rparr>)
        \<and> (\<forall>w. w \<noteq> pu_work_id req \<longrightarrow> work_lookup (rdb_works db') w = work_lookup (rdb_works pre) w)
        \<and> rdb_reviews db' = rdb_reviews pre \<and> rdb_messages db' = rdb_messages pre
        \<and> uuid_str (pu_operation_id req) \<notin> set (map ei_operation_id (rdb_intents pre))
        \<and> gdb_grants (rdb_grants db') = gdb_grants (rdb_grants pre)
        \<and> rdb_intents db'
            = rdb_intents pre @ [update_journal_row E pr req g out]
        \<and> go_effect out = Applied)"

lemma candidate_of_simps [simp]:
  "cw_work_id (candidate_of c p) = cw_work_id c"
  "cw_row_version (candidate_of c p) = cw_row_version c"
  "cw_admitted_at (candidate_of c p) = cw_admitted_at c"
  "cw_notes (candidate_of c p) = text_value p Notes (cw_notes c)"
  by (simp_all add: candidate_of_def)

lemma update_in_written:
  assumes keys: "work_keys (rdb_works db)" and run: "update_in E now pr req db = Inr (out, db')"
  shows "(db' = db \<and> (go_effect out = Not_sent \<or> update_journalled E pr req db out))
     \<or> update_written E pr req db db' out"
proof (cases rule: update_in_cases [OF keys run, case_names kept written])
  case kept
  then show ?thesis by simp
next
  case (written grant g q c vals changed works revision)
  note adm = written(1) [unfolded admitted_call_def write_admitted_def, simplified]
  let ?cand = "candidate_of c vals"
  from adm have c: "work_lookup (rdb_works db) (pu_work_id req) = Some c" by blast
  note id = work_lookup_id [OF c]
  have "replace_work (rte_casefold E) ?cand (rdb_works db) = Inr (changed, works)"
    using written(4) c id by (simp add: replace_work_def work_get_row_lookup [OF keys])
  note run = replace_work_run [OF keys this]
  have row: "work_lookup works (pu_work_id req) = Some (?cand\<lparr>cw_row_version := cw_row_version c + 1\<rparr>)"
    using run(1) c id by (auto simp: candidate_of_def)
  have rows: "\<exists>rows. works = (rdb_works db)\<lparr>cdb_works := rows\<rparr>"
    using written(4) by (auto simp: replace_locked_def bindE_eq_Inr split: if_split_asm)
  have "go_effect out = Applied" by (simp add: written(5) update_receipt_of_def)
  then have "update_written E pr req db db' out"
    unfolding update_written_def journal_insert_Inr(2) [OF written(6)]
    using adm c written(2,3) row rows run(2,3) id
    by (intro exI [of _ g] exI [of _ c] exI [of _ vals]) simp
  then show ?thesis by simp
qed

interpretation update_call: journalled_call "update_handlers req" "\<lambda>now. update_in E now pr req"
  "update_journalled E pr req" "update_written E pr req" "\<lambda>db. work_keys (rdb_works db)" for E pr req
proof (unfold_locales, goal_cases)
  case (1 db now out db')
  then show ?case using update_in_written by blast
next
  case (2 db db' out)
  then show ?case by (auto simp: update_written_def journalled_def)
next
  case (3 again e out)
  then show ?case by (auto simp: update_handlers_def split: if_split_asm)
next
  case (4 again e)
  then show ?case by (auto simp: update_handlers_def split: if_split_asm)
qed

section \<open>Candidates\<close>

lemma written_advances:
  assumes "update_written E pr req pre db' out"
  shows "canon_advances (rdb_works pre) (rdb_works db')"
  unfolding canon_advances_def
proof (intro conjI allI impI)
  show "work_keys (rdb_works db')" using assms by (auto simp: update_written_def)
  fix w c assume "work_lookup (rdb_works pre) w = Some c"
  then show "\<exists>c'. work_lookup (rdb_works db') w = Some c' \<and> (c' = c \<or> cw_row_version c < cw_row_version c')"
    using assms by (cases "w = pu_work_id req") (auto simp: update_written_def)
qed

lemma written_store:
  assumes "update_written E pr req pre db' out"
  shows "rdb_store db' = (rdb_store pre)\<lparr>rv_works := rdb_works db'\<rparr>"
  using assms by (auto simp: update_written_def intro!: review_store.equality)

lemma candidate_accepted:
  assumes "candidate_refusal E req c vals db = Inr None"
  shows "agent_notes_fit (rte_review E) (cw_work_id c) (cw_notes (candidate_of c vals)) (rdb_reviews db) = Inr True"
    and "\<not> incomplete_reopen c (pu_patch req) vals"
    and "validate_semantic_write (candidate_of c vals) (set (fields_set vals)) = Inr ()"
  using assms unfolding candidate_refusal_def Let_def
  by (auto simp: bindE_eq_Inr split: if_split_asm option.split_asm sum.split_asm)

lemma candidate_untouched:
  assumes "f \<notin> set (fields_set vals)"
  shows "state_field (semantic_of (candidate_of c vals)) f = state_field (semantic_of c) f"
  using assms
  by (cases f) (simp_all add: semantic_of_def candidate_of_def opt_value_def flag_value_def patch_get_def)

lemma candidate_coherent:
  assumes "candidate_refusal E req c vals db = Inr None" and "coherent_state (semantic_of c)"
  shows "coherent_state (semantic_of (candidate_of c vals))"
proof (cases "set (fields_set vals) \<inter> SEMANTIC_FIELDS = {}")
  case True
  have "validate_resultant_state {} s = Inr ()" for s
    by (simp add: validate_resultant_state_def Let_def)
  moreover have "state_field (semantic_of (candidate_of c vals)) f = state_field (semantic_of c) f" for f
  proof (cases "f \<in> SEMANTIC_FIELDS")
    case True
    with \<open>_ = {}\<close> show ?thesis by (intro candidate_untouched) blast
  next
    case False
    then show ?thesis by (cases f) (simp_all add: SEMANTIC_FIELDS_def)
  qed
  ultimately show ?thesis using incremental_coherent [OF assms(2), of "{}"] by simp
next
  case False
  with candidate_accepted(3) [OF assms(1)]
  have "validate_resultant_state (set (fields_set vals)) (semantic_of (candidate_of c vals)) = Inr ()"
    by (simp add: validate_semantic_write_def)
  with incremental_coherent [OF assms(2)] candidate_untouched show ?thesis by blast
qed

lemma written_coherent:
  assumes "update_written E pr req pre db' out" and "work_lookup (rdb_works pre) w = Some c"
    and "coherent_state (semantic_of c)"
  shows "\<exists>c'. work_lookup (rdb_works db') w = Some c' \<and> coherent_state (semantic_of c')"
proof (cases "w = pu_work_id req")
  case True
  with assms(1,2) obtain vals where "candidate_refusal E req c vals pre = Inr None"
    "work_lookup (rdb_works db') w = Some ((candidate_of c vals)\<lparr>cw_row_version := cw_row_version c + 1\<rparr>)"
    by (auto simp: update_written_def)
  moreover have "semantic_of (c'\<lparr>cw_row_version := v\<rparr>) = semantic_of c'" for c' v
    by (simp add: semantic_of_def)
  ultimately show ?thesis using candidate_coherent assms(3) by metis
next
  case False
  with assms show ?thesis by (auto simp: update_written_def)
qed

section \<open>Properties\<close>

text \<open>
  A scalar update of canonical work is truthful and atomic, whatever faults its transactions
  meet and whatever others do between its two attempts: it leaves the state as it was or makes
  exactly one change, in which the observed row takes the patched values at the next version and
  the journal gains the operation. An answer that reports the effect as applied is journalled, and
  an answer that reports it as not sent changed nothing unless it replays a journalled outcome.
\<close>

theorem canonical_update_truthful:
  assumes "work_keys (rdb_works db)" and "work_keys (rdb_works (between db))"
    and "canonical_update E pr req first between second db = (Inr out, db')"
  shows "(\<exists>pre \<in> {db, between db}. db' = pre \<or> (\<exists>o'. update_written E pr req pre db' o'))
     \<and> (go_effect out = Applied \<longrightarrow> update_journalled E pr req db' out)
     \<and> (go_effect out = Not_sent \<longrightarrow> db' \<in> {db, between db} \<or> update_journalled E pr req db' out)"
  using update_call.call_truthful [OF assms(1,2) assms(3) [unfolded canonical_update_def]] .

text \<open>A current work, the grant to update it, and a patch of its notes.\<close>

definition demo_rt_env :: runtime_env where
  "demo_rt_env = \<lparr>rte_pkey = (\<lambda>_. ''k''), rte_digest = (\<lambda>_. ''f''), rte_raw_digest = (\<lambda>_. ''f''),
     rte_create_id = (\<lambda>_. 12),
     rte_parse_create = (\<lambda>_. Inl ValidationError), rte_float = (\<lambda>_. ''1''), rte_casefold = id,
     rte_review = demo_review_env\<rparr>"

definition demo_rt_work :: current_work where
  "demo_rt_work = (demo_current 10 ''a'')\<lparr>cw_lifecycle_state := Some ''CURRENT'', cw_canonical_root := NONE,
     cw_owner_key := Some ''agent:a'', cw_wait_kind := NONE, cw_unblock_condition := NONE,
     cw_next_due := NONE, cw_next_action_class := NONE, cw_next_action_ref := NONE\<rparr>"

definition demo_rt_db :: runtime_db where
  "demo_rt_db = \<lparr>rdb_grants = \<lparr>gdb_grants = [(''k'', Some demo_grant)], gdb_intents = []\<rparr>,
     rdb_store = review_start (demo_canon\<lparr>cdb_works := [\<lparr>wrow_work = demo_rt_work,
       wrow_normalized_title = ''a''\<rparr>]\<rparr>), rdb_handles = [],
     rdb_prs = [], rdb_pr_links = [], rdb_messages = [], rdb_deliveries = [], rdb_mailboxes = [], rdb_transfers = [], rdb_receipts = []\<rparr>"

definition demo_rt_req :: protected_update where
  "demo_rt_req = \<lparr>pu_operation_id = 7, pu_work_id = 10, pu_grant_version = 1,
     pu_observed_revision = ''pg_a'', pu_patch = (\<lambda>f. if f = Notes then Some (Some (Text ''hello'')) else None),
     pu_confirm_cancels_review = False\<rparr>"

lemma demo_rt_admitted:
  "update_admission demo_rt_env 0 demo_principal demo_rt_req (Some demo_grant) demo_rt_db
     = Inr (Inr (demo_grant, ''real:u'', demo_rt_work))"
  by (simp add: update_admission_def work_admission_def demo_rt_env_def demo_rt_db_def demo_rt_req_def demo_rt_work_def
      demo_grant_def demo_principal_def work_get_row_def demo_current_def demo_canon_def grant_current_def
      grant_can_write_def starts_with_def canonical_revision_def demo_review_env_def pending_review_id_def
      journal_reply_def grant_reply_def blocked_reply_def)

lemma demo_rt_values: "finish_values (pu_patch demo_rt_req) = Some (pu_patch demo_rt_req)"
  by (simp add: finish_values_def demo_rt_req_def transition_fields_def)

lemma demo_rt_fields: "fields_set (pu_patch demo_rt_req) = [Notes]"
  by (simp add: fields_set_def work_fields_def demo_rt_req_def)

lemma demo_rt_patch: "valid_scalar_patch (pu_patch demo_rt_req)"
  by (simp add: valid_scalar_patch_def fields_set_def work_fields_def fields_typed_def patch_get_def
      demo_rt_req_def root_text_ok_def text_of_def)

lemma demo_rt_accepted: "candidate_refusal demo_rt_env demo_rt_req demo_rt_work (pu_patch demo_rt_req) demo_rt_db = Inr None"
  by (simp add: candidate_refusal_def Let_def demo_rt_fields validate_semantic_write_def SEMANTIC_FIELDS_def
      agent_notes_fit_def current_approved_baseline_def approved_v2_def current_baselines_def
      incomplete_reopen_def transition_fields_def demo_rt_db_def demo_rt_req_def)

definition demo_rt_outcome :: guard_outcome where
  "demo_rt_outcome = update_receipt_of demo_principal demo_rt_req demo_grant ''real:u'' ''pg_aa'' (pu_patch demo_rt_req)"

definition demo_rt_after :: runtime_db where
  "demo_rt_after = (put_works (demo_canon\<lparr>cdb_works := [\<lparr>
       wrow_work = (candidate_of demo_rt_work (pu_patch demo_rt_req))\<lparr>cw_row_version := 2\<rparr>,
       wrow_normalized_title = ''a''\<rparr>]\<rparr>) demo_rt_db)\<lparr>
     rdb_grants := (rdb_grants demo_rt_db)\<lparr>gdb_intents :=
       [update_journal_row demo_rt_env demo_principal demo_rt_req demo_grant demo_rt_outcome]\<rparr>\<rparr>"

lemma demo_rt_run: "update_in demo_rt_env 0 demo_principal demo_rt_req demo_rt_db = Inr (demo_rt_outcome, demo_rt_after)"
proof -
  have grant: "gs_current (rte_pkey demo_rt_env demo_principal) (rdb_grants demo_rt_db) = Inr (Some demo_grant)"
    by (simp add: gs_current_def demo_rt_env_def demo_rt_db_def read_grant_def valid_grant_def demo_grant_def
        demo_principal_def valid_principal_def bounded_authority_def opt_min1_def)
  have scalar: "set (fields_set (pu_patch demo_rt_req)) \<subseteq> SCALAR_FIELDS"
    by (simp add: demo_rt_fields SCALAR_FIELDS_def)
  have "rte_casefold demo_rt_env = id" by (simp add: demo_rt_env_def)
  then have repl: "replace_locked (rte_casefold demo_rt_env) (candidate_of demo_rt_work (pu_patch demo_rt_req)) (rdb_works demo_rt_db)
      = Inr ((candidate_of demo_rt_work (pu_patch demo_rt_req))\<lparr>cw_row_version := 2\<rparr>, rdb_works demo_rt_after)"
    by (simp add: replace_locked_def demo_rt_db_def demo_rt_after_def demo_rt_work_def demo_current_def
        demo_canon_def candidate_of_def normalize_title_def py_split_def py_space_def replaced_row_def
        text_value_def patch_get_def demo_rt_req_def)
  have rev: "canonical_revision (rve_revision (rte_review demo_rt_env)) (pu_work_id demo_rt_req) 2 = Inr ''pg_aa''"
    by (simp add: canonical_revision_def demo_rt_env_def demo_review_env_def numeral_2_eq_2)
  have "update_write demo_rt_env demo_principal demo_rt_req demo_grant ''real:u'' demo_rt_work (pu_patch demo_rt_req) demo_rt_db
      = Inr (demo_rt_outcome, demo_rt_after)"
    using repl rev demo_rt_accepted demo_rt_patch
    by (simp add: update_write_def Let_def journal_insert_def demo_rt_outcome_def)
       (simp add: demo_rt_after_def demo_rt_db_def demo_rt_outcome_def)
  with grant scalar demo_rt_admitted demo_rt_values show ?thesis by (simp add: update_in_def)
qed

lemma demo_rt_keys: "work_keys (rdb_works demo_rt_db)"
  by (simp add: work_keys_def demo_rt_db_def)

theorem canonical_update_truthful_witness:
  "\<exists>out db'. canonical_update demo_rt_env demo_principal demo_rt_req (0, Conflicts) (\<lambda>db. db) (0, Commits) demo_rt_db
       = (Inr out, db')
     \<and> go_effect out = Applied \<and> update_journalled demo_rt_env demo_principal demo_rt_req db' out"
proof -
  have run: "canonical_update demo_rt_env demo_principal demo_rt_req (0, Conflicts) (\<lambda>db. db) (0, Commits) demo_rt_db
      = (Inr demo_rt_outcome, demo_rt_after)"
    by (simp add: canonical_update_def two_attempts_def in_transaction_def demo_rt_run update_handlers_def)
  have "go_effect demo_rt_outcome = Applied" by (simp add: demo_rt_outcome_def update_receipt_of_def)
  with canonical_update_truthful [OF demo_rt_keys demo_rt_keys run] run show ?thesis by blast
qed

end
