(* ===== verification/Canonical_Create.thy ===== *)
theory Canonical_Create
  imports Canonical_Update Work_Relations
begin

text \<open>
  Creation of canonical work (\<open>protected_create\<close> in \<open>src/switchstand/tracker/runtime.py\<close>, with the
  identity and the guard of \<open>src/switchstand/tracker/creates.py\<close>): the placement decides the root, the
  resolved state is validated, and the handle, the row, its placement and the journal row are
  written and read back in one transaction.
\<close>

section \<open>Operations\<close>

definition create_work_id :: "runtime_env \<Rightarrow> uuid \<Rightarrow> uuid" where
  "create_work_id E op = rte_create_id E (uuid_str op)"

definition create_guard :: "runtime_env \<Rightarrow> protected_create \<Rightarrow> guard" where
  "create_guard E req st reason possible_send =
     \<lparr>go_status = st, go_operation = ''work_create'',
      go_work_id = Some (create_work_id E (pc_operation_id req)),
      go_operation_id = Some (pc_operation_id req), go_reason = reason,
      go_effect = (if possible_send then Effect_unknown else Not_sent),
      go_retry = (if possible_send then Retry_reconcile
                  else if st = G_stale then Retry_refresh else Retry_none),
      go_next_action = (if possible_send
        then ''Retry only this OperationId so Switchstand can reconcile it; do not create again.''
        else ''Refresh admission or ask the trusted issuer.''),
      go_receipt = None, go_blocked_by = None\<rparr>"

definition create_request_json :: "protected_create \<Rightarrow> json" where
  "create_request_json req =
     JObj [(''api_version'', JStr ''1''), (''operation_id'', json_uuid (pc_operation_id req)),
       (''grant_version'', JInt (pc_grant_version req)), (''title'', JStr (pc_title req)),
       (''notes'', JStr (pc_notes req)), (''priority'', JStr (pc_priority req)),
       (''work_type'', JStr (pc_work_type req)), (''lifecycle_state'', JStr (pc_lifecycle_state req)),
       (''canonical_root'', json_opt JStr (pc_canonical_root req)), (''owner_key'', JStr (pc_owner_key req)),
       (''wait_kind'', JStr (pc_wait_kind req)), (''unblock_condition'', JStr (pc_unblock_condition req)),
       (''next_due'', JStr (pc_next_due req)), (''next_action_class'', JStr (pc_next_action_class req)),
       (''next_action_ref'', JStr (pc_next_action_ref req)),
       (''parent_work_id'', json_opt json_uuid (pc_parent_work_id req)),
       (''project_id'', json_opt json_uuid (pc_project_id req)),
       (''project_gid'', json_opt JStr (pc_project_gid req))]"

text \<open>A recorded operation is compared by its request, read again with today's defaults.\<close>

definition recorded_request :: "effect_row \<Rightarrow> json" where
  "recorded_request row = (case json_get (ei_intent row) ''request'' of None \<Rightarrow> JNull | Some j \<Rightarrow> j)"

definition create_reply ::
  "runtime_env \<Rightarrow> principal \<Rightarrow> protected_create \<Rightarrow> runtime_db \<Rightarrow> guard_outcome option py_result" where
  "create_reply E pr req db =
     bindE (one_or_none (filter (\<lambda>r. ei_operation_id r = uuid_str (pc_operation_id req)) (rdb_intents db))) (\<lambda>exact.
     if_none exact (Inr None) (\<lambda>row.
       bindE (rte_parse_create E (recorded_request row)) (\<lambda>prior.
       if ei_principal_key row \<noteq> rte_pkey E pr \<or> create_request_json prior \<noteq> create_request_json req
       then Inr (Some (create_guard E req G_denied ''operation_identity_conflict'' False))
       else bindE (read_outcome (ei_outcome row)) (\<lambda>o'. Inr (Some o')))))"

definition create_grant ::
  "runtime_env \<Rightarrow> int \<Rightarrow> principal \<Rightarrow> protected_create \<Rightarrow> grant_operation \<Rightarrow> (work_grant \<Rightarrow> string option)
     \<Rightarrow> work_grant option \<Rightarrow> guard_outcome + work_grant \<times> string" where
  "create_grant E now pr req operation qf grant =
     if_none grant (Inl (create_guard E req G_denied ''no_current_grant'' False)) (\<lambda>g.
     if wg_principal g \<noteq> pr \<or> \<not> grant_current now g
     then Inl (create_guard E req G_denied ''no_current_grant'' False)
     else if operation \<notin> wg_operations g
     then Inl (create_guard E req G_denied ''operation_not_granted'' False)
     else if pc_grant_version req \<noteq> wg_version g
     then Inl (create_guard E req G_stale ''grant_version_changed'' False)
     else if_none (qf g)
       (Inl (create_guard E req G_denied ''create_not_qualified_for_this_surface'' False)) (\<lambda>q.
       if \<not> starts_with q (if pr_assurance pr = Test_assurance then ''test:'' else ''real:'')
       then Inl (create_guard E req G_denied ''create_not_qualified_for_this_surface'' False)
       else Inr (g, q)))"

definition START_HERE_PROVIDER_WORK_ID :: string where
  "START_HERE_PROVIDER_WORK_ID = ''1218327002478382''"

definition start_here_child_shape :: "protected_create \<Rightarrow> bool" where
  "start_here_child_shape req =
     (pc_canonical_root req = None \<and> pc_work_type req = ''Task'' \<and> pc_lifecycle_state req = ''CURRENT''
      \<and> (pc_owner_key req = CODEX_COORDINATOR_NAME \<or> starts_with (pc_owner_key req) ''agent:'')
      \<and> pc_wait_kind req = ''NONE'' \<and> pc_unblock_condition req = ''NONE'' \<and> pc_next_due req = ''NONE''
      \<and> pc_next_action_class req = ''OWNER_CAN_DO''
      \<and> pc_next_action_ref req \<notin> {''NONE'', ''UNKNOWN''})"

definition root_not_exact :: "runtime_env \<Rightarrow> protected_create \<Rightarrow> guard_outcome" where
  "root_not_exact E req =
     (create_guard E req G_denied ''parent_root_not_exact'' False)\<lparr>go_next_action :=
       ''Omit parent_work_id to capture independently; retain the intended relation in notes.''\<rparr>"

text \<open>The root of a child is its parent's; the imported start page is the one rootless parent.\<close>

definition child_root ::
  "runtime_env \<Rightarrow> protected_create \<Rightarrow> work_grant \<Rightarrow> uuid \<Rightarrow> runtime_db \<Rightarrow> (guard_outcome + string) py_result" where
  "child_root E req g parent db =
     (if \<not> grant_can_write g parent
      then Inr (Inl (create_guard E req G_denied ''parent_not_granted'' False))
      else bindE (work_get_row parent (rdb_works db)) (\<lambda>current.
        if_none current (Inr (Inl (create_guard E req G_denied ''parent_not_writable'' False))) (\<lambda>c.
        if cw_completed c then Inr (Inl (create_guard E req G_denied ''parent_not_writable'' False))
        else (case exact_root (cw_canonical_root c) of
            Inl _ \<Rightarrow> Inr (Inl (root_not_exact E req))
          | Inr (Some u) \<Rightarrow>
              if cw_canonical_root c \<noteq> Some (uuid_str u) then Inr (Inl (root_not_exact E req))
              else if pc_canonical_root req \<noteq> None \<and> pc_canonical_root req \<noteq> cw_canonical_root c
              then Inr (Inl (create_guard E req G_denied ''child_root_conflicts_with_parent'' False))
              else Inr (Inr (uuid_str u))
          | Inr None \<Rightarrow>
              if cw_canonical_root c \<noteq> None \<or> cw_work_type c \<noteq> Some ''Context''
                 \<or> \<not> list_ex (\<lambda>h. h_id h = parent \<and> h_provider h = ''asana''
                       \<and> h_provider_work_id h = START_HERE_PROVIDER_WORK_ID) (rdb_handles db)
                 \<or> \<not> start_here_child_shape req
              then Inr (Inl (root_not_exact E req))
              else Inr (Inr (uuid_str (create_work_id E (pc_operation_id req))))))))"

text \<open>A work without a parent is its own root and lives in an admitted project, or is a capture.\<close>

definition own_root ::
  "runtime_env \<Rightarrow> protected_create \<Rightarrow> grant_operation \<Rightarrow> work_grant \<Rightarrow> runtime_db
     \<Rightarrow> guard_outcome + string \<times> uuid option" where
  "own_root E req operation g db =
     (let by_gid = (\<lambda>gid. map_option prj_id
            (find (\<lambda>p. prj_asana_gid p = Some gid) (cdb_projects (rdb_works db))));
          project = (case pc_project_id req of
            Some p \<Rightarrow> Some p | None \<Rightarrow> Option.bind (pc_project_gid req) by_gid);
          self = uuid_str (create_work_id E (pc_operation_id req)) in
      if wg_scope g \<noteq> Workspace \<and> operation \<noteq> File_issue
      then Inl (create_guard E req G_denied ''workspace_create_required'' False)
      else if project = None \<and> (\<not> is_capture req \<or> pc_project_gid req \<noteq> None)
      then Inl (create_guard E req G_denied ''project_not_admitted'' False)
      else if pc_canonical_root req \<noteq> None \<and> pc_canonical_root req \<noteq> Some self
      then Inl (create_guard E req G_denied ''root_must_be_self'' False)
      else Inr (self, project))"

definition placement_root ::
  "runtime_env \<Rightarrow> protected_create \<Rightarrow> grant_operation \<Rightarrow> work_grant \<Rightarrow> runtime_db
     \<Rightarrow> (guard_outcome + string \<times> uuid option) py_result" where
  "placement_root E req operation g db =
     (case pc_parent_work_id req of
        Some parent \<Rightarrow>
          bindE (child_root E req g parent db) (\<lambda>rid.
            Inr (case rid of Inl o' \<Rightarrow> Inl o' | Inr r \<Rightarrow> Inr (r, pc_project_id req)))
      | None \<Rightarrow> Inr (own_root E req operation g db))"

definition created_work :: "runtime_env \<Rightarrow> protected_create \<Rightarrow> string \<Rightarrow> current_work" where
  "created_work E req rid =
     \<lparr>cw_work_id = create_work_id E (pc_operation_id req), cw_title = pc_title req, cw_completed = False,
      cw_notes = pc_notes req, cw_row_version = 1, cw_assignee = None,
      cw_priority = Some (pc_priority req), cw_work_type = Some (pc_work_type req),
      cw_lifecycle_state = Some (pc_lifecycle_state req), cw_review_next_action = None,
      cw_canonical_root = Some rid, cw_owner_key = Some (pc_owner_key req),
      cw_wait_kind = Some (pc_wait_kind req), cw_unblock_condition = Some (pc_unblock_condition req),
      cw_next_due = Some (pc_next_due req), cw_next_action_class = Some (pc_next_action_class req),
      cw_next_action_ref = Some (pc_next_action_ref req), cw_admitted_at = None\<rparr>"

text \<open>The text of the first error of \<open>validate_create_state\<close>.\<close>

definition create_state_message :: "bool \<Rightarrow> string option \<Rightarrow> semantic_state \<Rightarrow> string" where
  "create_state_message parented work_type s =
     (if validate_resultant_state SEMANTIC_FIELDS (s\<lparr>ss_completed := None\<rparr>) \<noteq> Inr ()
      then resultant_state_message SEMANTIC_FIELDS (s\<lparr>ss_completed := None\<rparr>)
      else if ss_canonical_root s \<in> {None, NONE, UNKNOWN} then ''created work requires an exact root''
      else if \<not> parented \<and> work_type \<in> report_types \<and> ss_owner_key s = NONE
      then ''ownerless reports must wait for triage''
      else if parented \<and> work_type = Some ''Evidence'' \<and> ss_owner_key s = NONE
      then ''ownerless Evidence must be an inert CURRENT child''
      else if work_type \<in> {None, UNKNOWN} then ''substantive create requires an explicit work type''
      else if ss_lifecycle_state s \<notin> {Some ''CURRENT'', Some ''WAITING'', Some ''DEFERRED''}
      then ''substantive create requires an actionable lifecycle''
      else if ss_owner_key s = None \<or> \<not> exact_value (ss_owner_key s)
             \<or> (ss_owner_key s \<noteq> Some CODEX_COORDINATOR_NAME
                \<and> \<not> starts_with (the (ss_owner_key s)) ''agent:'')
      then ''substantive create requires derived agent ownership''
      else if ss_lifecycle_state s = Some ''CURRENT''
      then (if state_waits s \<noteq> (NONE, NONE, NONE) then ''current create cannot carry a wait''
            else ''current create requires an exact next action'')
      else ''waiting create requires an exact wait and no action'')"

definition create_advice :: "string \<Rightarrow> string" where
  "create_advice err =
     ''Nothing was created. '' @ err @ ''. Correct only intent already ''
     @ ''authorized by the assignment; do not invent an owner, action, ''
     @ ''wait or approval. Changed arguments require a fresh operation_id; ''
     @ ''an ambiguous prior effect must instead be reconciled with its ''
     @ ''exact original identity and arguments.''"

definition create_refusal ::
  "runtime_env \<Rightarrow> protected_create \<Rightarrow> current_work \<Rightarrow> runtime_db \<Rightarrow> guard_outcome option py_result" where
  "create_refusal E req created db =
     bindE (agent_notes_fit (rte_review E) (cw_work_id created) (cw_notes created) (rdb_reviews db)) (\<lambda>fit.
     if \<not> fit then Inr (Some (create_guard E req G_denied ''agent_notes_overflow'' False))
     else let parented = (pc_parent_work_id req \<noteq> None); s = semantic_of created in
     (case validate_create_state parented (cw_work_type created) s of
        Inl _ \<Rightarrow> Inr (Some ((create_guard E req G_denied ''invalid_resultant_state'' False)
          \<lparr>go_next_action := create_advice (create_state_message parented (cw_work_type created) s)\<rparr>))
      | Inr _ \<Rightarrow>
          bindE (exact_root (cw_canonical_root created)) (\<lambda>rid.
          if_none rid (Inr None) (\<lambda>u.
          if u = cw_work_id created then Inr None
          else bindE (work_get_row u (rdb_works db)) (\<lambda>row.
            Inr (if row = None
                 then Some (create_guard E req G_denied ''canonical_root_not_bound'' False) else None))))))"

definition resolved_state :: "current_work \<Rightarrow> json" where
  "resolved_state c =
     JObj [(''completed'', JBool (cw_completed c)), (''priority'', json_opt JStr (cw_priority c)),
       (''work_type'', json_opt JStr (cw_work_type c)),
       (''lifecycle_state'', json_opt JStr (cw_lifecycle_state c)),
       (''canonical_root'', json_opt JStr (cw_canonical_root c)), (''owner_key'', json_opt JStr (cw_owner_key c)),
       (''wait_kind'', json_opt JStr (cw_wait_kind c)),
       (''unblock_condition'', json_opt JStr (cw_unblock_condition c)), (''next_due'', json_opt JStr (cw_next_due c)),
       (''next_action_class'', json_opt JStr (cw_next_action_class c)),
       (''next_action_ref'', json_opt JStr (cw_next_action_ref c))]"

text \<open>The inserts, with the keys they could break.\<close>

definition insert_postgres_handle :: "uuid \<Rightarrow> runtime_db \<Rightarrow> runtime_db py_result" where
  "insert_postgres_handle w db =
     (let h = \<lparr>h_id = w, h_provider = ''postgres'', h_provider_work_id = uuid_str w\<rparr> in
      if list_ex (\<lambda>x. h_id x = w \<or> (h_provider x, h_provider_work_id x) = (''postgres'', uuid_str w)) (rdb_handles db)
      then Inl IntegrityError
      else Inr (db\<lparr>rdb_handles := rdb_handles db @ [h]\<rparr>))"

definition insert_placement :: "uuid \<Rightarrow> uuid option \<Rightarrow> uuid option \<Rightarrow> canon_db \<Rightarrow> canon_db py_result" where
  "insert_placement w parent project works =
     (case (parent, project) of
        (Some p, _) \<Rightarrow>
          if w \<in> fst ` set (cdb_parents works) \<or> w = p \<or> p \<notin> set (map row_id (cdb_works works))
          then Inl IntegrityError
          else Inr (works\<lparr>cdb_parents := cdb_parents works @ [(w, p)]\<rparr>)
      | (None, Some j) \<Rightarrow>
          if (w, j) \<in> set (map member_key (cdb_members works)) \<or> j \<notin> set (map prj_id (cdb_projects works))
          then Inl IntegrityError
          else Inr (works\<lparr>cdb_members := cdb_members works @
                 [\<lparr>mem_project_id = j, mem_work_id = w, mem_section_name = None\<rparr>]\<rparr>)
      | (None, None) \<Rightarrow> Inr works)"

text \<open>The read-back of everything that was written.\<close>

definition create_readback ::
  "current_work \<Rightarrow> uuid option \<Rightarrow> uuid option \<Rightarrow> runtime_db \<Rightarrow> bool py_result" where
  "create_readback created parent project db =
     (let w = cw_work_id created; works = rdb_works db in
      bindE (work_get_row w works) (\<lambda>stored.
        Inr ((case stored of None \<Rightarrow> False
              | Some c \<Rightarrow> cw_admitted_at c \<noteq> None \<and> c\<lparr>cw_admitted_at := None\<rparr> = created)
          \<and> w \<in> set (map h_id (rdb_handles db))
          \<and> (if parent \<noteq> None then parent_of works w
             else map_option mem_project_id (find (\<lambda>m. mem_work_id m = w) (cdb_members works)))
            = (if parent \<noteq> None then parent else project))))"

definition create_receipt_of ::
  "principal \<Rightarrow> protected_create \<Rightarrow> work_grant \<Rightarrow> string \<Rightarrow> uuid \<Rightarrow> guard_outcome" where
  "create_receipt_of pr req g q w =
     \<lparr>go_status = G_ok, go_operation = ''work_create'', go_work_id = Some w,
      go_operation_id = Some (pc_operation_id req), go_reason = ''exact_create_verified'',
      go_effect = Applied, go_retry = Retry_none,
      go_next_action = (if is_capture req
        then ''Captured unassigned work; this is not an executable assignment.''
        else ''Use the recorded create receipt.''),
      go_receipt = Some (R_create
        \<lparr>rc_operation_id = pc_operation_id req, rc_principal = pr, rc_grant_id = wg_id g,
         rc_grant_version = wg_version g, rc_qualification = q, crr_work_id = w,
         crr_provider = ''postgres'', crr_task_gid = uuid_str w,
         crr_parent_task_gid = map_option uuid_str (pc_parent_work_id req),
         crr_project_gid = pc_project_gid req, crr_title = pc_title req\<rparr>),
      go_blocked_by = None\<rparr>"

definition create_journal_row ::
  "runtime_env \<Rightarrow> principal \<Rightarrow> protected_create \<Rightarrow> work_grant \<Rightarrow> current_work \<Rightarrow> guard_outcome \<Rightarrow> effect_row" where
  "create_journal_row E pr req g created outcome =
     \<lparr>ei_operation_id = uuid_str (pc_operation_id req),
      ei_fingerprint = rte_digest E (JList [JStr (rte_pkey E pr), create_request_json req, resolved_state created]),
      ei_principal_key = rte_pkey E pr, ei_work_id = uuid_str (cw_work_id created),
      ei_grant_id = uuid_str (wg_id g), ei_grant_version = wg_version g,
      ei_intent = JObj [(''request'', create_request_json req), (''resolved_state'', resolved_state created),
        (''authority'', JStr ''postgres'')],
      ei_outcome = outcome\<rparr>"

definition create_write ::
  "runtime_env \<Rightarrow> py_datetime \<Rightarrow> principal \<Rightarrow> protected_create \<Rightarrow> work_grant \<Rightarrow> string \<Rightarrow> string \<Rightarrow> uuid option
     \<Rightarrow> runtime_db \<Rightarrow> (guard_outcome \<times> runtime_db) py_result" where
  "create_write E stamp pr req g q rid project db =
     (let created = created_work E req rid; w = cw_work_id created in
      bindE (create_refusal E req created db) (\<lambda>refusal.
      case refusal of Some o' \<Rightarrow> Inr (o', db) | None \<Rightarrow>
      bindE (insert_postgres_handle w db) (\<lambda>db1.
      bindE (create_locked (rte_casefold E) stamp created (rdb_works db1)) (\<lambda>works1.
      bindE (insert_placement w (pc_parent_work_id req) project works1) (\<lambda>works2.
      let db2 = put_works works2 db1 in
      bindE (create_readback created (pc_parent_work_id req) project db2) (\<lambda>exact.
      if \<not> exact then Inl ValueError
      else let outcome = create_receipt_of pr req g q w in
        bindE (journal_insert (create_journal_row E pr req g created outcome) db2) (\<lambda>db3.
          Inr (outcome, db3))))))))"

definition create_in ::
  "runtime_env \<Rightarrow> py_datetime \<Rightarrow> principal \<Rightarrow> protected_create \<Rightarrow> grant_operation \<Rightarrow> (work_grant \<Rightarrow> string option)
     \<Rightarrow> int \<Rightarrow> runtime_db \<Rightarrow> (guard_outcome \<times> runtime_db) py_result" where
  "create_in E stamp pr req operation qf now db =
     bindE (gs_current (rte_pkey E pr) (rdb_grants db)) (\<lambda>grant.
     bindE (create_reply E pr req db) (\<lambda>reply.
     case reply of Some o' \<Rightarrow> Inr (o', db) | None \<Rightarrow>
     (case create_grant E now pr req operation qf grant of
        Inl o' \<Rightarrow> Inr (o', db)
      | Inr (g, q) \<Rightarrow>
          bindE (placement_root E req operation g db) (\<lambda>placed.
          case placed of
            Inl o' \<Rightarrow> Inr (o', db)
          | Inr (rid, project) \<Rightarrow> create_write E stamp pr req g q rid project db))))"

definition create_handlers :: "runtime_env \<Rightarrow> protected_create \<Rightarrow> bool \<Rightarrow> py_error \<Rightarrow> guard_outcome py_result option" where
  "create_handlers E req again e =
     (if e = IntegrityError
      then (if again then None
            else Some (Inr (create_guard E req G_denied ''invalid_database_create'' False)))
      else if e = TypeError \<or> is_value_error e \<or> e = KeyError
      then Some (Inr (create_guard E req G_denied ''invalid_database_create'' False))
      else if is_sqlalchemy_error e
      then Some (Inr (create_guard E req G_unknown ''state_or_effect_unavailable'' True))
      else Some (Inl e))"

definition canonical_create ::
  "runtime_env \<Rightarrow> py_datetime \<Rightarrow> principal \<Rightarrow> protected_create \<Rightarrow> grant_operation \<Rightarrow> (work_grant \<Rightarrow> string option)
     \<Rightarrow> int \<times> txn_end \<Rightarrow> (runtime_db \<Rightarrow> runtime_db) \<Rightarrow> int \<times> txn_end \<Rightarrow> runtime_db
     \<Rightarrow> guard_outcome py_result \<times> runtime_db" where
  "canonical_create E stamp pr req operation qf first between second db =
     two_attempts (create_handlers E req) (create_in E stamp pr req operation qf) first between second db"

section \<open>The one change\<close>

definition create_answered :: "runtime_env \<Rightarrow> principal \<Rightarrow> protected_create \<Rightarrow> runtime_db \<Rightarrow> guard_outcome \<Rightarrow> bool" where
  "create_answered E pr req db o' =
     (\<exists>row \<in> set (rdb_intents db). ei_operation_id row = uuid_str (pc_operation_id req)
        \<and> ei_principal_key row = rte_pkey E pr \<and> ei_outcome row = o'
        \<and> (recorded_request row = create_request_json req
           \<or> (\<exists>prior. rte_parse_create E (recorded_request row) = Inr prior
                \<and> create_request_json prior = create_request_json req)))"

lemma create_guard_effect [simp]: "go_effect (create_guard E req st why False) = Not_sent"
  by (simp add: create_guard_def)

lemma root_not_exact_effect [simp]: "go_effect (root_not_exact E req) = Not_sent"
  by (simp add: root_not_exact_def)

lemma create_reply_Some:
  assumes "create_reply E pr req db = Inr (Some o')"
  shows "go_effect o' = Not_sent \<or> create_answered E pr req db o'"
proof -
  from assms obtain x where x: "one_or_none (filter (\<lambda>r. ei_operation_id r = uuid_str (pc_operation_id req))
      (rdb_intents db)) = Inr x"
    by (auto simp: create_reply_def bindE_eq_Inr)
  obtain row where row: "x = Some row" by (cases x) (use assms x in \<open>auto simp: create_reply_def\<close>)
  note run = assms [unfolded create_reply_def x row bindE_simps option.case]
  then obtain prior where prior: "rte_parse_create E (recorded_request row) = Inr prior"
    by (auto simp: bindE_eq_Inr)
  from x row have "row \<in> set (rdb_intents db)" "ei_operation_id row = uuid_str (pc_operation_id req)"
    by (auto simp: one_or_none_Some dest!: filter_eq_ConsD)
  with run [unfolded prior bindE_simps] prior show ?thesis
    by (auto simp: create_answered_def bindE_eq_Inr dest!: read_outcome_same split: if_split_asm)
qed

lemma create_reply_None:
  assumes "create_reply E pr req db = Inr None"
  shows "uuid_str (pc_operation_id req) \<notin> set (map ei_operation_id (rdb_intents db))"
proof -
  from assms obtain x where x: "one_or_none (filter (\<lambda>r. ei_operation_id r = uuid_str (pc_operation_id req))
      (rdb_intents db)) = Inr x"
    by (auto simp: create_reply_def bindE_eq_Inr)
  have "x = None"
    by (cases x) (use assms x in \<open>auto simp: create_reply_def bindE_eq_Inr split: if_split_asm\<close>)
  with x show ?thesis by (auto simp: one_or_none_None filter_empty_conv)
qed

lemma create_grant_Inl: "create_grant E now pr req operation qf grant = Inl o' \<Longrightarrow> go_effect o' = Not_sent"
  by (auto simp: create_grant_def split: option.split_asm if_split_asm)

lemma child_root_Inl:
  assumes "child_root E req g parent db = Inr (Inl o')"
  shows "go_effect o' = Not_sent"
proof (cases "grant_can_write g parent")
  case True
  with assms obtain x where x: "work_get_row parent (rdb_works db) = Inr x"
    by (auto simp: child_root_def bindE_eq_Inr)
  show ?thesis
  proof (cases x)
    case (Some c)
    with assms True x show ?thesis
      by (cases "exact_root (cw_canonical_root c)") (auto simp: child_root_def split: if_split_asm option.split_asm)
  qed (use assms True x in \<open>auto simp: child_root_def\<close>)
qed (use assms in \<open>auto simp: child_root_def\<close>)

lemma own_root_Inl: "own_root E req operation g db = Inl o' \<Longrightarrow> go_effect o' = Not_sent"
  by (auto simp: own_root_def Let_def split: if_split_asm)

lemma placement_root_Inl:
  assumes "placement_root E req operation g db = Inr (Inl o')"
  shows "go_effect o' = Not_sent"
proof (cases "pc_parent_work_id req")
  case None
  with assms own_root_Inl show ?thesis by (simp add: placement_root_def)
next
  case (Some parent)
  with assms obtain r where r: "child_root E req g parent db = Inr r"
    by (auto simp: placement_root_def bindE_eq_Inr)
  with assms Some child_root_Inl show ?thesis by (cases r) (auto simp: placement_root_def)
qed

lemma create_refusal_effect:
  "create_refusal E req created db = Inr (Some o') \<Longrightarrow> go_effect o' = Not_sent"
  by (auto simp: create_refusal_def Let_def bindE_eq_Inr split: if_split_asm option.split_asm sum.split_asm)

text \<open>A fresh row breaks no relation, and can be placed below any stored work.\<close>

lemma create_relations:
  assumes inv: "relations_inv works" and run: "create_locked casefold stamp item works = Inr works'"
  shows "relations_inv works'" and "parent_of works' = parent_of works" and "\<not> work_exists (cw_work_id item) works"
    and "work_exists (cw_work_id item) works'"
    and "cdb_parents works' = cdb_parents works" "cdb_members works' = cdb_members works"
    "cdb_projects works' = cdb_projects works"
proof -
  obtain r where works': "works' = works\<lparr>cdb_works := cdb_works works @ [r]\<rparr>" and id: "row_id r = cw_work_id item"
    using run by (auto simp: create_locked_def bindE_eq_Inr split: if_split_asm)
  note res = create_locked_run [OF run]
  show "\<not> work_exists (cw_work_id item) works" "work_exists (cw_work_id item) works'"
    using run id works' by (auto simp: create_locked_def work_exists_def bindE_eq_Inr split: if_split_asm)
  have "events_inv works'"
    by (rule events_inv_mono [of works])
      (use inv res(1,3) res(4) [OF relations_inv_keys [OF inv]] in \<open>auto simp: relations_inv_def works'\<close>)
  moreover have "work_exists u works'" if "work_exists u works" for u
    using that by (simp add: work_exists_def works')
  ultimately show "relations_inv works'" using inv by (auto simp: relations_inv_def forest_def works')
qed (use run in \<open>auto simp: create_locked_def parent_of_def bindE_eq_Inr split: if_split_asm\<close>)

lemma fresh_not_related:
  assumes "forest works" and "\<not> work_exists w works"
  shows "w \<notin> fst ` set (cdb_parents works)" and "q \<noteq> w \<Longrightarrow> (q, w) \<notin> (set (cdb_parents works))\<^sup>*"
proof -
  have none: "(x, w) \<notin> set (cdb_parents works)" "(w, x) \<notin> set (cdb_parents works)" for x
    using assms by (auto simp: forest_def)
  then show "w \<notin> fst ` set (cdb_parents works)" by force
  show "(q, w) \<notin> (set (cdb_parents works))\<^sup>*" if "q \<noteq> w"
    using that none(1) by (metis rtranclE)
qed

lemma placement_relations:
  assumes inv: "relations_inv works" and ex: "work_exists w works" and fresh: "w \<notin> fst ` set (cdb_parents works)"
    and path: "\<And>q. q \<noteq> w \<Longrightarrow> (q, w) \<notin> (set (cdb_parents works))\<^sup>*"
    and run: "insert_placement w parent project works = Inr works'"
  shows "relations_inv works'" and "parent_of works' = (parent_of works)(w := parent)"
    and "work_lookup works' = work_lookup works"
proof -
  have "relations_inv works' \<and> parent_of works' = (parent_of works)(w := parent)
      \<and> work_lookup works' = work_lookup works"
  proof (cases parent)
    case None
    have "map_of (cdb_parents works) w = None" using fresh by (auto simp: map_of_eq_None_iff)
    then show ?thesis
      using None run inv ex
      by (cases project) (auto simp: insert_placement_def relations_inv_def events_inv_def events_of_def parent_of_def
          fun_eq_iff work_keys_def split: if_split_asm)
  next
    case (Some p)
    with run have p: "w \<noteq> p" "work_exists p works"
      and works': "works' = works\<lparr>cdb_parents := cdb_parents works @ [(w, p)]\<rparr>"
      by (auto simp: insert_placement_def work_exists_def split: if_split_asm)
    have same: "filter (\<lambda>r. fst r \<noteq> w) (cdb_parents works) = cdb_parents works"
      using fresh by (intro filter_True) force
    then have eq: "works' = replace_parent w (Some p) works" by (simp add: works' replace_parent_def)
    have "forest works'"
      unfolding eq using forest_reparent [OF _ ex p(2) path] inv p(1) by (simp add: relations_inv_def)
    moreover have "events_inv works'"
      using inv by (auto simp: relations_inv_def events_inv_def events_of_def works' work_keys_def work_lookup_def)
    ultimately show ?thesis using inv Some
      by (auto simp: eq relations_inv_def parent_of_replace fun_eq_iff)
  qed
  then show "relations_inv works'" "parent_of works' = (parent_of works)(w := parent)"
    "work_lookup works' = work_lookup works" by blast+
qed

lemma linked_placement:
  assumes "insert_placement w parent project works = Inr works'" and "u \<noteq> w"
  shows "work_links u works' = work_links u works"
  using assms
  by (auto simp: insert_placement_def work_links_def parent_of_def events_of_def map_add_def
      split: option.split_asm if_split_asm option.split)

definition create_effect ::
  "runtime_env \<Rightarrow> py_datetime \<Rightarrow> protected_create \<Rightarrow> current_work \<Rightarrow> canon_db \<Rightarrow> canon_db \<Rightarrow> bool" where
  "create_effect E stamp req created works works' =
     (relations_inv works' \<and> work_lookup works (cw_work_id created) = None
      \<and> work_lookup works' = (work_lookup works)(cw_work_id created \<mapsto> created\<lparr>cw_admitted_at := Some stamp\<rparr>)
      \<and> parent_of works' = (parent_of works)(cw_work_id created := pc_parent_work_id req)
      \<and> (\<forall>u. u \<noteq> cw_work_id created \<longrightarrow> work_links u works' = work_links u works))"

text \<open>The new row, validated, with its placement, its handle and its journal row.\<close>

definition create_written ::
  "runtime_env \<Rightarrow> py_datetime \<Rightarrow> principal \<Rightarrow> protected_create \<Rightarrow> runtime_db \<Rightarrow> runtime_db \<Rightarrow> guard_outcome \<Rightarrow> bool" where
  "create_written E stamp pr req pre db' out =
     (\<exists>g base. let created = created_work E req base in
        create_refusal E req created pre = Inr None
        \<and> create_effect E stamp req created (rdb_works pre) (rdb_works db')
        \<and> rdb_reviews db' = rdb_reviews pre \<and> rdb_messages db' = rdb_messages pre
        \<and> cw_work_id created \<notin> set (map h_id (rdb_handles pre))
        \<and> set (map h_id (rdb_handles db')) = insert (cw_work_id created) (set (map h_id (rdb_handles pre)))
        \<and> uuid_str (pc_operation_id req) \<notin> set (map ei_operation_id (rdb_intents pre))
        \<and> gdb_grants (rdb_grants db') = gdb_grants (rdb_grants pre)
        \<and> rdb_intents db' = rdb_intents pre @ [create_journal_row E pr req g created out]
        \<and> go_effect out = Applied)"

lemma create_rows_effect:
  assumes inv: "relations_inv works" and ins: "create_locked casefold stamp created works = Inr works1"
    and pl: "insert_placement (cw_work_id created) (pc_parent_work_id req) project works1 = Inr works2"
  shows "create_effect E stamp req created works works2"
proof -
  note C = create_relations [OF inv ins] and L = create_locked_run [OF ins]
  have "forest works" using inv by (simp add: relations_inv_def)
  note F = fresh_not_related [OF this C(3)]
  have fresh: "cw_work_id created \<notin> fst ` set (cdb_parents works1)" using F(1) C(5) by simp
  have "q \<noteq> cw_work_id created \<Longrightarrow> (q, cw_work_id created) \<notin> (set (cdb_parents works1))\<^sup>*" for q
    using F(2) C(5) by simp
  note P = placement_relations [OF C(1,4) fresh this pl]
  have "work_links u works2 = work_links u works" if "u \<noteq> cw_work_id created" for u
    using linked_placement [OF pl that] linked_create [OF ins] by simp
  then show ?thesis using P C(2) L(1,3) by (auto simp: create_effect_def fun_eq_iff)
qed

lemma create_write_cases:
  assumes "create_write E stamp pr req g q base project db = Inr (out, db')"
  obtains (refused) "db' = db" "go_effect out = Not_sent"
    | (wrote) db1 works1 works2 where "create_refusal E req (created_work E req base) db = Inr None"
        "insert_postgres_handle (cw_work_id (created_work E req base)) db = Inr db1"
        "create_locked (rte_casefold E) stamp (created_work E req base) (rdb_works db1) = Inr works1"
        "insert_placement (cw_work_id (created_work E req base)) (pc_parent_work_id req) project works1 = Inr works2"
        "out = create_receipt_of pr req g q (cw_work_id (created_work E req base))"
        "journal_insert (create_journal_row E pr req g (created_work E req base) out) (put_works works2 db1) = Inr db'"
proof -
  note run = assms [unfolded create_write_def Let_def]
  then obtain refusal where ref: "create_refusal E req (created_work E req base) db = Inr refusal"
    by (auto simp: bindE_eq_Inr)
  note run = run [unfolded ref bindE_simps]
  show thesis
  proof (cases refusal)
    case (Some o')
    with ref run create_refusal_effect refused show thesis by auto
  next
    case None
    note run = run [unfolded None option.case]
    show thesis
      using run ref None by (auto simp: bindE_eq_Inr split: if_split_asm intro!: wrote)
  qed
qed

lemma create_in_written:
  assumes inv: "relations_inv (rdb_works db)"
    and run: "create_in E stamp pr req operation qf now db = Inr (out, db')"
  shows "db' = db \<and> (go_effect out = Not_sent \<or> create_answered E pr req db out)
     \<or> create_written E stamp pr req db db' out"
proof -
  from run obtain grant reply where reply: "create_reply E pr req db = Inr reply"
    and run: "(case reply of Some o' \<Rightarrow> Inr (o', db) | None \<Rightarrow>
     (case create_grant E now pr req operation qf grant of Inl o' \<Rightarrow> Inr (o', db)
      | Inr (g, q) \<Rightarrow> bindE (placement_root E req operation g db) (\<lambda>placed.
          case placed of Inl o' \<Rightarrow> Inr (o', db)
          | Inr (base, project) \<Rightarrow> create_write E stamp pr req g q base project db))) = Inr (out, db')"
    by (auto simp: create_in_def bindE_eq_Inr)
  show ?thesis
  proof (cases reply)
    case (Some o')
    with run create_reply_Some [OF reply [unfolded Some]] show ?thesis by auto
  next
    case None
    note fresh = create_reply_None [OF reply [unfolded None]] and run = run [unfolded None option.case]
    show ?thesis
    proof (cases "create_grant E now pr req operation qf grant")
      case (Inl o')
      with run create_grant_Inl [OF Inl] show ?thesis by auto
    next
      case (Inr y)
      obtain g q where y: "y = (g, q)" by fastforce
      note run = run [unfolded Inr y sum.case prod.case]
      obtain placed where placed: "placement_root E req operation g db = Inr placed"
        using run by (auto simp: bindE_eq_Inr)
      note run = run [unfolded placed bindE_simps]
      show ?thesis
      proof (cases placed)
        case (Inl o')
        with run placed placement_root_Inl show ?thesis by auto
      next
        case P: (Inr z)
        obtain base project where z: "z = (base, project)" by fastforce
        from run P z have "create_write E stamp pr req g q base project db = Inr (out, db')" by simp
        then show ?thesis
        proof (cases rule: create_write_cases)
          case refused
          then show ?thesis by simp
        next
          case (wrote db1 works1 works2)
          have db1: "db1 = db\<lparr>rdb_handles := rdb_handles db @ [\<lparr>h_id = cw_work_id (created_work E req base),
              h_provider = ''postgres'', h_provider_work_id = uuid_str (cw_work_id (created_work E req base))\<rparr>]\<rparr>"
            "cw_work_id (created_work E req base) \<notin> set (map h_id (rdb_handles db))"
            using wrote(2) by (auto simp: insert_postgres_handle_def Let_def list_ex_iff split: if_split_asm)
          have "create_locked (rte_casefold E) stamp (created_work E req base) (rdb_works db) = Inr works1"
            using wrote(3) by (simp add: db1)
          note eff = create_rows_effect [OF inv this wrote(4)]
          have "go_effect out = Applied" by (simp add: wrote(5) create_receipt_of_def)
          then have "create_written E stamp pr req db db' out"
            unfolding create_written_def Let_def
            using wrote(1) eff fresh journal_insert_Inr(2) [OF wrote(6)] db1
            by (intro exI [of _ g] exI [of _ base]) simp
          then show ?thesis by simp
        qed
      qed
    qed
  qed
qed

interpretation create_call: journalled_call "create_handlers E req" "create_in E stamp pr req operation qf"
  "create_answered E pr req" "create_written E stamp pr req" "\<lambda>db. relations_inv (rdb_works db)"
  for E stamp pr req operation qf
proof (unfold_locales, goal_cases)
  case (1 db now out db')
  then show ?case using create_in_written by blast
next
  case (2 db db' out)
  then show ?case
    by (auto simp: create_written_def create_answered_def create_journal_row_def recorded_request_def Let_def)
next
  case (3 again e out)
  then show ?case by (auto simp: create_handlers_def create_guard_def split: if_split_asm)
next
  case (4 again e)
  then show ?case by (auto simp: create_handlers_def split: if_split_asm)
qed

end
