(* ===== verification/Canonical_Feedback.thy ===== *)
theory Canonical_Feedback
  imports Canonical_Txn Work_Relations
begin

text \<open>
  Classification of filed feedback (\<open>protected_feedback_classification\<close> in
  \<open>src/switchstand/tracker/runtime.py\<close>): the source is annotated, closed or placed below a target,
  and an amended target takes the notes of the source, in one journalled transaction that is not
  retried.
\<close>

section \<open>Operations\<close>

definition classification_guard :: "protected_feedback \<Rightarrow> guard" where
  "classification_guard req st reason possible =
     \<lparr>go_status = st, go_operation = ''feedback_classify'', go_work_id = Some (pf_source_work_id req),
      go_operation_id = Some (pf_operation_id req), go_reason = reason,
      go_effect = (if possible then Effect_unknown else Not_sent),
      go_retry = (if possible then Retry_reconcile
                  else if st = G_stale then Retry_refresh else Retry_none),
      go_next_action = (if possible then ''Replay this exact classification OperationId.''
        else ''Refresh the source, target, or reporting grant.''),
      go_receipt = None, go_blocked_by = None\<rparr>"

fun feedback_class_name :: "feedback_class \<Rightarrow> string" where
  "feedback_class_name FB_new = ''NEW''"
| "feedback_class_name FB_amend = ''AMEND''"
| "feedback_class_name FB_duplicate = ''DUPLICATE''"
| "feedback_class_name FB_sub_item = ''SUB-ITEM''"
| "feedback_class_name FB_related = ''RELATED''"

fun code_status_name :: "code_status \<Rightarrow> string" where
  "code_status_name CS_fixed = ''FIXED''"
| "code_status_name CS_candidate_exists = ''CANDIDATE_EXISTS''"
| "code_status_name CS_in_progress = ''IN_PROGRESS''"
| "code_status_name CS_no_matching_change = ''NO_MATCHING_CHANGE''"

definition feedback_request_json :: "protected_feedback \<Rightarrow> json" where
  "feedback_request_json req =
     JObj [(''operation_id'', json_uuid (pf_operation_id req)), (''grant_version'', JInt (pf_grant_version req)),
       (''source_work_id'', json_uuid (pf_source_work_id req)),
       (''observed_source_revision'', JStr (pf_observed_source_revision req)),
       (''classification'', JStr (feedback_class_name (pf_classification req))),
       (''target_work_id'', json_opt json_uuid (pf_target_work_id req)),
       (''observed_target_revision'', json_opt JStr (pf_observed_target_revision req)),
       (''code_status'', json_opt (\<lambda>c. JStr (code_status_name c)) (pf_code_status req)),
       (''fork_runtime_seconds'', json_opt JFloat (pf_fork_runtime_seconds req)),
       (''critical_path_wait_seconds'', json_opt JFloat (pf_critical_path_wait_seconds req))]"

definition feedback_fp :: "runtime_env \<Rightarrow> principal \<Rightarrow> protected_feedback \<Rightarrow> string" where
  "feedback_fp E pr req = rte_digest E (JList [JStr (rte_pkey E pr), feedback_request_json req])"

text \<open>Filing grants are not bound to a work; the caller may classify what it filed itself.\<close>

definition feedback_grant ::
  "int \<Rightarrow> principal \<Rightarrow> protected_feedback \<Rightarrow> work_grant option \<Rightarrow> guard_outcome + work_grant \<times> string" where
  "feedback_grant now pr req grant =
     if_none grant (Inl (classification_guard req G_denied ''report_not_granted'' False)) (\<lambda>g.
     if wg_principal g \<noteq> pr \<or> \<not> grant_current now g \<or> File_issue \<notin> wg_operations g
     then Inl (classification_guard req G_denied ''report_not_granted'' False)
     else if pf_grant_version req \<noteq> wg_version g
     then Inl (classification_guard req G_stale ''grant_version_changed'' False)
     else if_none (wg_report_qualification g)
       (Inl (classification_guard req G_denied ''report_not_qualified'' False)) (\<lambda>q.
       if \<not> starts_with q (if pr_assurance pr = Test_assurance then ''test:'' else ''real:'')
       then Inl (classification_guard req G_denied ''report_not_qualified'' False) else Inr (g, q)))"

definition feedback_ids :: "protected_feedback \<Rightarrow> uuid list" where
  "feedback_ids req = sort_key uuid_str
     (pf_source_work_id req # (case pf_target_work_id req of None \<Rightarrow> [] | Some t \<Rightarrow> [t]))"

definition locked_works :: "canon_db \<Rightarrow> uuid list \<Rightarrow> (uuid \<times> current_work option) list py_result" where
  "locked_works works ws =
     foldr (\<lambda>w rest. bindE (work_get_row w works) (\<lambda>c. bindE rest (\<lambda>cs. Inr ((w, c) # cs)))) ws (Inr [])"

definition feedback_target ::
  "runtime_env \<Rightarrow> protected_feedback \<Rightarrow> string set \<Rightarrow> current_work option
     \<Rightarrow> (guard_outcome option) py_result" where
  "feedback_target E req types target =
     (case pf_target_work_id req of
        None \<Rightarrow> Inr None
      | Some t \<Rightarrow>
          (case target of
             None \<Rightarrow> Inr (Some (classification_guard req G_denied ''invalid_feedback_target'' False))
           | Some c \<Rightarrow>
               if cw_completed c \<or> (case cw_work_type c of None \<Rightarrow> True | Some k \<Rightarrow> k \<notin> types)
               then Inr (Some (classification_guard req G_denied ''invalid_feedback_target'' False))
               else bindE (canonical_revision (rve_revision (rte_review E)) (cw_work_id c) (cw_row_version c))
                 (\<lambda>revision. Inr (if pf_observed_target_revision req \<noteq> Some revision
                   then Some (classification_guard req G_stale ''target_revision_changed'' False) else None))))"

text \<open>The receipt columns that the origin query reads from a recorded outcome.\<close>

fun receipt_qualification :: "receipt \<Rightarrow> string" where
  "receipt_qualification (R_effect r) = rc_qualification r"
| "receipt_qualification (R_feedback r) = rc_qualification r"
| "receipt_qualification (R_priority_claim r) = rc_qualification r"
| "receipt_qualification (R_create r) = rc_qualification r"
| "receipt_qualification (R_project_create r) = rc_qualification r"
| "receipt_qualification (R_relation r) = rc_qualification r"
| "receipt_qualification (R_update r) = rc_qualification r"

definition filed_here :: "string \<Rightarrow> string \<Rightarrow> current_work \<Rightarrow> runtime_db \<Rightarrow> bool" where
  "filed_here key q source db =
     list_ex (\<lambda>r. ei_work_id r = uuid_str (cw_work_id source) \<and> ei_principal_key r = key
       \<and> map_option receipt_qualification (go_receipt (ei_outcome r)) = Some q
       \<and> go_operation (ei_outcome r) = ''work_create''
       \<and> (\<exists>k. cw_work_type source = Some k \<and> path_text (ei_intent r) [''request'', ''work_type''] k))
       (rdb_intents db)"

definition feedback_blocked :: "protected_feedback \<Rightarrow> runtime_db \<Rightarrow> bool" where
  "feedback_blocked req db =
     list_ex (\<lambda>r. ei_work_id r \<in> set (map uuid_str (feedback_ids req))
       \<and> ei_operation_id r \<noteq> uuid_str (pf_operation_id req)
       \<and> go_effect (ei_outcome r) = Effect_unknown) (rdb_intents db)"

text \<open>The works, checked, or the answer.\<close>

definition feedback_subjects ::
  "runtime_env \<Rightarrow> principal \<Rightarrow> protected_feedback \<Rightarrow> string \<Rightarrow> string set \<Rightarrow> string \<Rightarrow> runtime_db
     \<Rightarrow> (guard_outcome + current_work \<times> current_work option) py_result" where
  "feedback_subjects E pr req source_type types q db =
     bindE (locked_works (rdb_works db) (feedback_ids req)) (\<lambda>locked.
     let source = Option.bind (map_of locked (pf_source_work_id req)) id;
         target = Option.bind (pf_target_work_id req) (\<lambda>t. Option.bind (map_of locked t) id) in
     if_none source (Inr (Inl (classification_guard req G_denied ''invalid_feedback_source'' False))) (\<lambda>s.
     if cw_completed s \<or> cw_work_type s \<noteq> Some source_type
     then Inr (Inl (classification_guard req G_denied ''invalid_feedback_source'' False))
     else bindE (canonical_revision (rve_revision (rte_review E)) (cw_work_id s) (cw_row_version s)) (\<lambda>revision.
     if pf_observed_source_revision req \<noteq> revision
     then Inr (Inl (classification_guard req G_stale ''source_revision_changed'' False))
     else bindE (feedback_target E req types target) (\<lambda>bad.
     case bad of Some o' \<Rightarrow> Inr (Inl o') | None \<Rightarrow>
     if \<not> filed_here (rte_pkey E pr) q s db
     then Inr (Inl (classification_guard req G_denied ''source_not_filed_here'' False))
     else if feedback_blocked req db
     then Inr (Inl (classification_guard req G_unknown ''feedback_has_unresolved_effect'' False))
     else Inr (Inr (s, target))))))"

section \<open>The plan of a classification\<close>

definition py_rstrip :: "string \<Rightarrow> string" where
  "py_rstrip s = rev (dropWhile py_isspace (rev s))"

definition code_note :: "runtime_env \<Rightarrow> protected_feedback \<Rightarrow> string" where
  "code_note E req =
     (case (pf_code_status req, pf_fork_runtime_seconds req, pf_critical_path_wait_seconds req) of
        (Some c, fork, wait) \<Rightarrow>
          '' Code reconciliation: '' @ code_status_name c @ ''; fork ''
          @ (case fork of None \<Rightarrow> ''None'' | Some x \<Rightarrow> rte_float E x) @ ''s; critical wait ''
          @ (case wait of None \<Rightarrow> ''None'' | Some x \<Rightarrow> rte_float E x) @ ''s.''
      | _ \<Rightarrow> [])"

definition target_ref :: "current_work option \<Rightarrow> string" where
  "target_ref target = (case target of None \<Rightarrow> [] | Some t \<Rightarrow> '' '' @ uuid_str (cw_work_id t))"

fun source_note :: "feedback_class \<Rightarrow> string \<Rightarrow> string" where
  "source_note FB_new ref = ''Classification: NEW''"
| "source_note FB_amend ref = ''Classification: AMEND'' @ ref"
| "source_note FB_duplicate ref = ''Classification: DUPLICATE of'' @ ref"
| "source_note FB_sub_item ref = ''Classification: SUB-ITEM of'' @ ref"
| "source_note FB_related ref = ''Classification: RELATED to'' @ ref"

definition closes_source :: "feedback_class \<Rightarrow> bool" where
  "closes_source k = (k = FB_amend \<or> k = FB_duplicate)"

abbreviation paragraph_break :: string where
  "paragraph_break \<equiv> [CHR 0x0A, CHR 0x0A]"

definition source_notes :: "runtime_env \<Rightarrow> protected_feedback \<Rightarrow> current_work \<Rightarrow> current_work option \<Rightarrow> string" where
  "source_notes E req source target =
     strip_chars py_isspace (py_rstrip (cw_notes source) @ paragraph_break
       @ source_note (pf_classification req) (target_ref target) @ ''.'' @ code_note E req)"

definition target_notes :: "protected_feedback \<Rightarrow> current_work \<Rightarrow> current_work option \<Rightarrow> string option" where
  "target_notes req source target =
     (case target of
        None \<Rightarrow> None
      | Some t \<Rightarrow>
          if pf_classification req = FB_amend
          then Some (strip_chars py_isspace (py_rstrip (cw_notes t) @ paragraph_break
            @ ''Amended from '' @ uuid_str (cw_work_id source) @ '': '' @ cw_notes source))
          else None)"

definition classified :: "feedback_class \<Rightarrow> string \<Rightarrow> current_work \<Rightarrow> current_work" where
  "classified k notes source =
     (let close = closes_source k; cleared = (\<lambda>v. if close then Some ''NONE'' else v) in
      source\<lparr>cw_notes := notes, cw_completed := close,
        cw_lifecycle_state := if close then Some ''TERMINAL'' else cw_lifecycle_state source,
        cw_wait_kind := cleared (cw_wait_kind source),
        cw_unblock_condition := cleared (cw_unblock_condition source),
        cw_next_due := cleared (cw_next_due source),
        cw_next_action_class := cleared (cw_next_action_class source),
        cw_next_action_ref := cleared (cw_next_action_ref source)\<rparr>)"

definition notes_refusal ::
  "runtime_env \<Rightarrow> protected_feedback \<Rightarrow> current_work \<Rightarrow> current_work option \<Rightarrow> runtime_db
     \<Rightarrow> guard_outcome option py_result" where
  "notes_refusal E req source target db =
     (let sn = source_notes E req source target; tn = target_notes req source target in
      if 8000 < length sn \<or> (case tn of None \<Rightarrow> False | Some n \<Rightarrow> 8000 < length n)
      then Inr (Some (classification_guard req G_denied ''classification_notes_overflow'' False))
      else bindE (agent_notes_fit (rte_review E) (cw_work_id source) sn (rdb_reviews db)) (\<lambda>fit.
        if \<not> fit then Inr (Some (classification_guard req G_denied ''agent_notes_overflow'' False))
        else (case (target, tn) of
            (Some t, Some n) \<Rightarrow>
              bindE (agent_notes_fit (rte_review E) (cw_work_id t) n (rdb_reviews db)) (\<lambda>fit.
                Inr (if fit then None
                     else Some (classification_guard req G_denied ''agent_notes_overflow'' False)))
          | _ \<Rightarrow> Inr None)))"

text \<open>The three writes.\<close>

definition classify_rows ::
  "runtime_env \<Rightarrow> protected_feedback \<Rightarrow> current_work \<Rightarrow> current_work option \<Rightarrow> canon_db
     \<Rightarrow> (current_work \<times> canon_db) py_result" where
  "classify_rows E req source target works =
     bindE (case (target, target_notes req source target) of
         (Some t, Some n) \<Rightarrow>
           bindE (replace_locked (rte_casefold E) (t\<lparr>cw_notes := n\<rparr>) works) (\<lambda>(_, works1). Inr works1)
       | _ \<Rightarrow> Inr works) (\<lambda>works1.
     bindE (replace_locked (rte_casefold E)
         (classified (pf_classification req) (source_notes E req source target) source) works1) (\<lambda>(s, works2).
     case (pf_classification req, pf_target_work_id req) of
       (FB_sub_item, Some parent) \<Rightarrow>
         bindE (ended (set_parent (cw_work_id s) (Some parent) (cw_row_version s) works2)) (\<lambda>(version, works3).
           Inr (s\<lparr>cw_row_version := version\<rparr>, works3))
     | _ \<Rightarrow> Inr (s, works2)))"

definition feedback_receipt_of ::
  "principal \<Rightarrow> protected_feedback \<Rightarrow> work_grant \<Rightarrow> string \<Rightarrow> current_work \<Rightarrow> string \<Rightarrow> guard_outcome" where
  "feedback_receipt_of pr req g q s revision =
     \<lparr>go_status = G_ok, go_operation = ''feedback_classify'', go_work_id = Some (cw_work_id s),
      go_operation_id = Some (pf_operation_id req), go_reason = ''classification_converged'',
      go_effect = Applied, go_retry = Retry_none, go_next_action = ''Use the recorded receipt.'',
      go_receipt = Some (R_feedback
        \<lparr>rc_operation_id = pf_operation_id req, rc_principal = pr, rc_grant_id = wg_id g,
         rc_grant_version = wg_version g, rc_qualification = q, fbr_work_id = cw_work_id s,
         fbr_task_gid = uuid_str (cw_work_id s), fbr_observed_revision = pf_observed_source_revision req,
         fbr_resulting_revision = revision, fbr_classification = pf_classification req,
         fbr_target_work_id = pf_target_work_id req\<rparr>),
      go_blocked_by = None\<rparr>"

definition feedback_journal_row ::
  "runtime_env \<Rightarrow> principal \<Rightarrow> protected_feedback \<Rightarrow> work_grant \<Rightarrow> guard_outcome \<Rightarrow> effect_row" where
  "feedback_journal_row E pr req g outcome =
     \<lparr>ei_operation_id = uuid_str (pf_operation_id req), ei_fingerprint = feedback_fp E pr req,
      ei_principal_key = rte_pkey E pr, ei_work_id = uuid_str (pf_source_work_id req),
      ei_grant_id = uuid_str (wg_id g), ei_grant_version = wg_version g,
      ei_intent = JObj [(''request'', feedback_request_json req), (''authority'', JStr ''postgres'')],
      ei_outcome = outcome\<rparr>"

definition feedback_write ::
  "runtime_env \<Rightarrow> principal \<Rightarrow> protected_feedback \<Rightarrow> work_grant \<Rightarrow> string \<Rightarrow> current_work \<Rightarrow> current_work option
     \<Rightarrow> runtime_db \<Rightarrow> (guard_outcome \<times> runtime_db) py_result" where
  "feedback_write E pr req g q source target db =
     bindE (notes_refusal E req source target db) (\<lambda>refusal.
     case refusal of Some o' \<Rightarrow> Inr (o', db) | None \<Rightarrow>
     bindE (classify_rows E req source target (rdb_works db)) (\<lambda>(s, works).
     bindE (canonical_revision (rve_revision (rte_review E)) (cw_work_id s) (cw_row_version s)) (\<lambda>revision.
     let outcome = feedback_receipt_of pr req g q s revision in
     bindE (journal_insert (feedback_journal_row E pr req g outcome) (put_works works db)) (\<lambda>db'.
       Inr (outcome, db')))))"

definition feedback_in ::
  "runtime_env \<Rightarrow> principal \<Rightarrow> protected_feedback \<Rightarrow> string \<Rightarrow> string set \<Rightarrow> int \<Rightarrow> runtime_db
     \<Rightarrow> (guard_outcome \<times> runtime_db) py_result" where
  "feedback_in E pr req source_type types now db =
     bindE (gs_current (rte_pkey E pr) (rdb_grants db)) (\<lambda>grant.
     bindE (journal_reply (rte_pkey E pr) (feedback_fp E pr req) (pf_operation_id req)
       (classification_guard req G_denied ''operation_identity_conflict'' False) db) (\<lambda>reply.
     case reply of Some o' \<Rightarrow> Inr (o', db) | None \<Rightarrow>
     (case feedback_grant now pr req grant of
        Inl o' \<Rightarrow> Inr (o', db)
      | Inr (g, q) \<Rightarrow>
          bindE (feedback_subjects E pr req source_type types q db) (\<lambda>subjects.
          case subjects of
            Inl o' \<Rightarrow> Inr (o', db)
          | Inr (source, target) \<Rightarrow> feedback_write E pr req g q source target db))))"

definition feedback_handlers :: "protected_feedback \<Rightarrow> py_error \<Rightarrow> guard_outcome py_result" where
  "feedback_handlers req e =
     (if e = IntegrityError \<or> e = TypeError \<or> is_value_error e \<or> e = KeyError \<or> e = LookupError
      then Inr (classification_guard req G_denied ''invalid_classification'' False)
      else if is_sqlalchemy_error e
      then Inr (classification_guard req G_unknown ''state_or_effect_unavailable'' True)
      else Inl e)"

definition canonical_feedback ::
  "runtime_env \<Rightarrow> principal \<Rightarrow> protected_feedback \<Rightarrow> string \<Rightarrow> string set \<Rightarrow> int \<times> txn_end \<Rightarrow> runtime_db
     \<Rightarrow> guard_outcome py_result \<times> runtime_db" where
  "canonical_feedback E pr req source_type types t db =
     one_attempt (feedback_handlers req) (feedback_in E pr req source_type types) t db"

section \<open>The one change\<close>

abbreviation feedback_journalled ::
  "runtime_env \<Rightarrow> principal \<Rightarrow> protected_feedback \<Rightarrow> runtime_db \<Rightarrow> guard_outcome \<Rightarrow> bool" where
  "feedback_journalled E pr req \<equiv> journalled (rte_pkey E pr) (feedback_fp E pr req) (pf_operation_id req)"

lemma classification_guard_effect [simp]: "go_effect (classification_guard req st why False) = Not_sent"
  by (simp add: classification_guard_def)

lemma classified_simps [simp]:
  "cw_work_id (classified k n c) = cw_work_id c" "cw_row_version (classified k n c) = cw_row_version c"
  "cw_admitted_at (classified k n c) = cw_admitted_at c" "cw_notes (classified k n c) = n"
  "cw_work_type (classified k n c) = cw_work_type c"
  by (simp_all add: classified_def Let_def)

text \<open>
  The source takes its classified columns, one version further, and two when its parent changes as
  well; an amended target takes the notes of the source; no other row and no other parent changes.
\<close>

definition amended_lookup ::
  "protected_feedback \<Rightarrow> current_work \<Rightarrow> current_work option \<Rightarrow> canon_db \<Rightarrow> uuid \<Rightarrow> current_work option" where
  "amended_lookup req source target works u =
     (case (target, target_notes req source target) of
        (Some t, Some n) \<Rightarrow>
          if u = cw_work_id t then Some (t\<lparr>cw_notes := n, cw_row_version := cw_row_version t + 1\<rparr>)
          else work_lookup works u
      | _ \<Rightarrow> work_lookup works u)"

definition feedback_effect ::
  "runtime_env \<Rightarrow> protected_feedback \<Rightarrow> current_work \<Rightarrow> current_work option \<Rightarrow> canon_db \<Rightarrow> canon_db \<Rightarrow> bool" where
  "feedback_effect E req source target works works' =
     (relations_inv works'
      \<and> (\<exists>v. cw_row_version source < v \<and> work_lookup works' = (\<lambda>u.
           if u = cw_work_id source
           then Some ((classified (pf_classification req) (source_notes E req source target) source)
                        \<lparr>cw_row_version := v\<rparr>)
           else amended_lookup req source target works u))
      \<and> parent_of works' = (if pf_classification req = FB_sub_item
           then (parent_of works)(cw_work_id source := pf_target_work_id req) else parent_of works)
      \<and> (\<forall>u. u \<noteq> cw_work_id source \<longrightarrow> work_links u works' = work_links u works))"

definition feedback_subject ::
  "protected_feedback \<Rightarrow> current_work \<Rightarrow> current_work option \<Rightarrow> canon_db \<Rightarrow> bool" where
  "feedback_subject req source target works =
     (work_lookup works (pf_source_work_id req) = Some source
      \<and> target = Option.bind (pf_target_work_id req) (work_lookup works)
      \<and> (pf_target_work_id req = None) = (target = None))"

lemma target_row_effect:
  assumes inv: "relations_inv works" and subj: "feedback_subject req source target works"
    and valid: "valid_protected_feedback req"
    and run: "(case (target, target_notes req source target) of
         (Some t, Some n) \<Rightarrow>
           bindE (replace_locked casefold (t\<lparr>cw_notes := n\<rparr>) works) (\<lambda>(_, works1). Inr works1)
       | _ \<Rightarrow> Inr works) = Inr works1"
  shows "relations_inv works1 \<and> work_lookup works1 = amended_lookup req source target works
    \<and> parent_of works1 = parent_of works \<and> work_lookup works1 (pf_source_work_id req) = Some source
    \<and> (\<forall>u. work_links u works1 = work_links u works)"
proof (cases "\<exists>t n. target = Some t \<and> target_notes req source target = Some n")
  case True
  then obtain t n where t: "target = Some t" and n: "target_notes req source (Some t) = Some n" by blast
  from subj t obtain tid where tid: "pf_target_work_id req = Some tid" "work_lookup works tid = Some t"
    and src: "work_lookup works (pf_source_work_id req) = Some source"
    by (cases "pf_target_work_id req") (auto simp: feedback_subject_def)
  note id = work_lookup_id [OF tid(2)]
  from valid tid(1) have other: "pf_source_work_id req \<noteq> tid"
    by (auto simp: valid_protected_feedback_def Let_def)
  from run t n obtain out where rep: "replace_locked casefold (t\<lparr>cw_notes := n\<rparr>) works = Inr (out, works1)"
    by (auto simp: bindE_eq_Inr)
  have look: "work_lookup works (cw_work_id (t\<lparr>cw_notes := n\<rparr>)) = Some t" using tid(2) id by simp
  note r = replace_relations [OF inv look _ _ rep]
  show ?thesis using r src other id linked_replace [OF rep] by (auto simp: t n amended_lookup_def fun_eq_iff)
next
  case False
  then have "amended_lookup req source target works = work_lookup works" "works1 = works"
    using run by (auto simp: amended_lookup_def fun_eq_iff split: option.splits)
  with subj inv show ?thesis by (simp add: feedback_subject_def)
qed

lemma classify_rows_effect:
  assumes inv: "relations_inv works" and subj: "feedback_subject req source target works"
    and valid: "valid_protected_feedback req"
    and run: "classify_rows E req source target works = Inr (s, works')"
  shows "feedback_effect E req source target works works'" and "cw_work_id s = pf_source_work_id req"
proof -
  let ?c = "classified (pf_classification req) (source_notes E req source target) source"
  note run = run [unfolded classify_rows_def]
  obtain works1 where w1: "(case (target, target_notes req source target) of
         (Some t, Some n) \<Rightarrow>
           bindE (replace_locked (rte_casefold E) (t\<lparr>cw_notes := n\<rparr>) works) (\<lambda>(_, works1). Inr works1)
       | _ \<Rightarrow> Inr works) = Inr works1"
    using run by (auto simp: bindE_eq_Inr)
  note run = run [unfolded w1 bindE_simps]
  from target_row_effect [OF inv subj valid w1] have T: "relations_inv works1"
    "work_lookup works1 = amended_lookup req source target works" "parent_of works1 = parent_of works"
    "work_lookup works1 (pf_source_work_id req) = Some source" "\<And>u. work_links u works1 = work_links u works" by blast+
  obtain s2 works2 where rep: "replace_locked (rte_casefold E) ?c works1 = Inr (s2, works2)"
    using run by (auto simp: bindE_eq_Inr)
  note run = run [unfolded rep bindE_simps prod.case]
  have id: "cw_work_id source = pf_source_work_id req"
    using subj work_lookup_id by (auto simp: feedback_subject_def)
  have look: "work_lookup works1 (cw_work_id ?c) = Some source" using T(4) id by simp
  note r = replace_relations [OF T(1) look _ _ rep, simplified]
  show "feedback_effect E req source target works works'" "cw_work_id s = pf_source_work_id req"
  proof -
    have "feedback_effect E req source target works works' \<and> cw_work_id s = pf_source_work_id req"
    proof (cases "pf_classification req = FB_sub_item")
      case False
      with run have "s = s2" "works' = works2"
        by (auto split: feedback_class.split_asm option.split_asm)
      with r False T id linked_replace [OF rep] show ?thesis
        by (auto simp: feedback_effect_def intro!: exI [of _ "cw_row_version source + 1"])
    next
      case True
      with valid obtain tid where tid: "pf_target_work_id req = Some tid"
        by (auto simp: valid_protected_feedback_def Let_def)
      from run [unfolded True tid] obtain v where
        "ended (set_parent (cw_work_id s2) (Some tid) (cw_row_version s2) works2) = Inr (v, works')"
        and s: "s = s2\<lparr>cw_row_version := v\<rparr>"
        by (auto simp: bindE_eq_Inr)
      then have par: "set_parent (cw_work_id s2) (Some tid) (cw_row_version s2) works2 = Some (Inr (v, works'))"
        by (simp add: ended_def split: option.split_asm)
      have base: "forest works2" "work_keys works2"
        using r(1) relations_inv_keys by (simp_all add: relations_inv_def)
      note acc = set_parent_accepts [OF base par] and inv' = relations_inv_parent [OF r(1) par]
      have "\<exists>v. cw_row_version source < v \<and> work_lookup works' = (work_lookup works2)(cw_work_id source \<mapsto> ?c\<lparr>cw_row_version := v\<rparr>)"
        using acc r(2,3)
        by (auto simp: bump_lookup fun_eq_iff split: if_split_asm
            intro: exI [of _ "cw_row_version source + 1"] exI [of _ "cw_row_version source + 2"])
      moreover have "work_links u works' = work_links u works" if "u \<noteq> cw_work_id source" for u
        using linked_parent [OF par] linked_replace [OF rep] T(5) that id r(2) by simp
      ultimately show ?thesis using acc r(2-4) inv' T True tid s id
        by (auto simp: feedback_effect_def fun_eq_iff)
    qed
    then show "feedback_effect E req source target works works'" "cw_work_id s = pf_source_work_id req"
      by blast+
  qed
qed

definition feedback_written ::
  "runtime_env \<Rightarrow> principal \<Rightarrow> protected_feedback \<Rightarrow> runtime_db \<Rightarrow> runtime_db \<Rightarrow> guard_outcome \<Rightarrow> bool" where
  "feedback_written E pr req pre db' out =
     (\<exists>g source target. feedback_subject req source target (rdb_works pre)
        \<and> \<not> cw_completed source
        \<and> pf_observed_source_revision req
            = ''pg_'' @ rve_revision (rte_review E) (cw_work_id source) (cw_row_version source)
        \<and> notes_refusal E req source target pre = Inr None
        \<and> feedback_effect E req source target (rdb_works pre) (rdb_works db')
        \<and> rdb_reviews db' = rdb_reviews pre \<and> rdb_messages db' = rdb_messages pre
        \<and> uuid_str (pf_operation_id req) \<notin> set (map ei_operation_id (rdb_intents pre))
        \<and> gdb_grants (rdb_grants db') = gdb_grants (rdb_grants pre)
        \<and> rdb_intents db' = rdb_intents pre @ [feedback_journal_row E pr req g out]
        \<and> go_effect out = Applied)"

lemma locked_works_lookup:
  "work_keys works \<Longrightarrow> locked_works works ws = Inr (map (\<lambda>w. (w, work_lookup works w)) ws)"
  by (induction ws) (simp_all add: locked_works_def work_get_row_lookup)

lemma locked_map:
  "map_of (map (\<lambda>w. (w, f w)) ws) u = (if u \<in> set ws then Some (f u) else None)"
  by (induction ws) auto

lemma feedback_grant_Inl: "feedback_grant now pr req grant = Inl o' \<Longrightarrow> go_effect o' = Not_sent"
  by (auto simp: feedback_grant_def split: option.split_asm if_split_asm)

lemma feedback_target_cases:
  assumes "feedback_target E req types target = Inr x"
  shows "(case x of Some o' \<Rightarrow> go_effect o' = Not_sent | None \<Rightarrow> pf_target_work_id req = None \<or> target \<noteq> None)"
  using assms
  by (auto simp: feedback_target_def bindE_eq_Inr split: option.splits if_splits)

lemma feedback_subjects_cases:
  assumes keys: "work_keys (rdb_works db)" and run: "feedback_subjects E pr req source_type types q db = Inr x"
  obtains (answered) o' where "x = Inl o'" "go_effect o' = Not_sent"
    | (fit) source target where "x = Inr (source, target)" "feedback_subject req source target (rdb_works db)"
        "\<not> cw_completed source"
        "pf_observed_source_revision req
           = ''pg_'' @ rve_revision (rte_review E) (cw_work_id source) (cw_row_version source)"
proof -
  let ?target = "Option.bind (pf_target_work_id req) (work_lookup (rdb_works db))"
  have ids: "set (feedback_ids req) = insert (pf_source_work_id req) (set_option (pf_target_work_id req))"
    by (auto simp: feedback_ids_def split: option.split)
  then have target: "Option.bind (pf_target_work_id req) (\<lambda>t. Option.bind
      (map_of (map (\<lambda>w. (w, work_lookup (rdb_works db) w)) (feedback_ids req)) t) id) = ?target"
    by (cases "pf_target_work_id req") (simp_all add: locked_map)
  have source: "Option.bind (map_of (map (\<lambda>w. (w, work_lookup (rdb_works db) w)) (feedback_ids req))
      (pf_source_work_id req)) id = work_lookup (rdb_works db) (pf_source_work_id req)"
    by (simp add: locked_map ids)
  note run = run [unfolded feedback_subjects_def locked_works_lookup [OF keys] bindE_simps Let_def source target]
  show thesis
  proof (cases "work_lookup (rdb_works db) (pf_source_work_id req)")
    case None
    with run answered show thesis by auto
  next
    case (Some s)
    note run = run [unfolded Some option.case]
    show thesis
    proof (cases "cw_completed s \<or> cw_work_type s \<noteq> Some source_type")
      case True
      with run answered show thesis by auto
    next
      case False
      with run obtain revision where rev: "canonical_revision (rve_revision (rte_review E)) (cw_work_id s)
          (cw_row_version s) = Inr revision"
        by (auto simp: bindE_eq_Inr)
      note run = run [unfolded if_not_P [OF False] rev bindE_simps]
      show thesis
      proof (cases "pf_observed_source_revision req = revision")
        case False
        with run answered show thesis by auto
      next
        case same: True
        then obtain bad where bad: "feedback_target E req types ?target = Inr bad"
          using run by (auto simp: bindE_eq_Inr)
        have eq: "pf_observed_source_revision req
            = ''pg_'' @ rve_revision (rte_review E) (cw_work_id s) (cw_row_version s)"
          using rev same by (auto simp: canonical_revision_def split: if_split_asm)
        have subj: "feedback_subject req s ?target (rdb_works db)" if "bad = None"
          using Some feedback_target_cases [OF bad] that by (auto simp: feedback_subject_def)
        from run same bad feedback_target_cases [OF bad] answered fit [OF _ subj _ eq] False
        show thesis by (auto split: option.split_asm if_split_asm)
      qed
    qed
  qed
qed

lemma notes_refusal_effect:
  "notes_refusal E req source target db = Inr (Some o') \<Longrightarrow> go_effect o' = Not_sent"
  by (auto simp: notes_refusal_def Let_def bindE_eq_Inr split: if_split_asm option.split_asm)

lemma feedback_write_cases:
  assumes "feedback_write E pr req g q source target db = Inr (out, db')"
  obtains (refused) "db' = db" "go_effect out = Not_sent"
    | (wrote) s works revision where "notes_refusal E req source target db = Inr None"
        "classify_rows E req source target (rdb_works db) = Inr (s, works)"
        "out = feedback_receipt_of pr req g q s revision"
        "journal_insert (feedback_journal_row E pr req g out) (put_works works db) = Inr db'"
proof -
  from assms obtain refusal where ref: "notes_refusal E req source target db = Inr refusal"
    by (auto simp: feedback_write_def bindE_eq_Inr)
  show thesis
  proof (cases refusal)
    case (Some o')
    with ref assms notes_refusal_effect refused show thesis by (auto simp: feedback_write_def)
  next
    case None
    with ref assms wrote show thesis by (auto simp: feedback_write_def Let_def bindE_eq_Inr)
  qed
qed

lemma feedback_in_written:
  assumes inv: "relations_inv (rdb_works db)" and valid: "valid_protected_feedback req"
    and run: "feedback_in E pr req source_type types now db = Inr (out, db')"
  shows "db' = db \<and> (go_effect out = Not_sent \<or> feedback_journalled E pr req db out)
     \<or> feedback_written E pr req db db' out"
proof -
  note keys = relations_inv_keys [OF inv]
  from run obtain grant reply where reply: "journal_reply (rte_pkey E pr) (feedback_fp E pr req) (pf_operation_id req)
      (classification_guard req G_denied ''operation_identity_conflict'' False) db = Inr reply"
    and run: "(case reply of Some o' \<Rightarrow> Inr (o', db) | None \<Rightarrow>
      (case feedback_grant now pr req grant of Inl o' \<Rightarrow> Inr (o', db)
       | Inr (g, q) \<Rightarrow> bindE (feedback_subjects E pr req source_type types q db) (\<lambda>subjects.
          case subjects of Inl o' \<Rightarrow> Inr (o', db)
          | Inr (source, target) \<Rightarrow> feedback_write E pr req g q source target db))) = Inr (out, db')"
    by (auto simp: feedback_in_def bindE_eq_Inr)
  show ?thesis
  proof (cases reply)
    case (Some o')
    with run journal_reply_Some [OF reply [unfolded Some]] show ?thesis by auto
  next
    case None
    note fresh = journal_reply_None [OF reply [unfolded None]] and run = run [unfolded None option.case]
    show ?thesis
    proof (cases "feedback_grant now pr req grant")
      case (Inl o')
      with run feedback_grant_Inl [OF Inl] show ?thesis by auto
    next
      case (Inr y)
      obtain g q where y: "y = (g, q)" by fastforce
      note run = run [unfolded Inr y sum.case prod.case]
      obtain x where x: "feedback_subjects E pr req source_type types q db = Inr x"
        using run by (auto simp: bindE_eq_Inr)
      note run = run [unfolded x bindE_simps]
      show ?thesis
      proof (cases rule: feedback_subjects_cases [OF keys x, case_names answered fit])
        case (answered o')
        with run show ?thesis by auto
      next
        case (fit source target)
        with run have "feedback_write E pr req g q source target db = Inr (out, db')" by simp
        then show ?thesis
        proof (cases rule: feedback_write_cases)
          case refused
          then show ?thesis by simp
        next
          case (wrote s works revision)
          note eff = classify_rows_effect(1) [OF inv fit(2) valid wrote(2)]
          have "go_effect out = Applied" by (simp add: wrote(3) feedback_receipt_of_def)
          then have "feedback_written E pr req db db' out"
            using fit wrote(1) eff fresh journal_insert_Inr(2) [OF wrote(4)] unfolding feedback_written_def
            by (intro exI [of _ g] exI [of _ source] exI [of _ target]) simp
          then show ?thesis by simp
        qed
      qed
    qed
  qed
qed

interpretation feedback_call: journalled_call "\<lambda>_ e. Some (feedback_handlers req e)"
  "feedback_in E pr req source_type types" "feedback_journalled E pr req" "feedback_written E pr req"
  "\<lambda>db. relations_inv (rdb_works db) \<and> valid_protected_feedback req" for E pr req source_type types
proof (unfold_locales, goal_cases)
  case (1 db now out db')
  then show ?case using feedback_in_written by blast
next
  case (2 db db' out)
  then show ?case by (auto simp: feedback_written_def journalled_def feedback_journal_row_def)
next
  case (3 again e out)
  then show ?case by (auto simp: feedback_handlers_def classification_guard_def split: if_split_asm)
qed simp

lemma canonical_feedback_truthful:
  assumes "relations_inv (rdb_works db)" and "valid_protected_feedback req"
    and "canonical_feedback E pr req source_type types t db = (Inr out, db')"
  shows "(db' = db \<or> (\<exists>o'. feedback_written E pr req db db' o'))
     \<and> (go_effect out = Applied \<longrightarrow> feedback_journalled E pr req db' out)
     \<and> (go_effect out = Not_sent \<longrightarrow> db' = db \<or> feedback_journalled E pr req db' out)"
  using feedback_call.single_truthful [of db req E pr source_type types t out db'] assms
  by (simp add: canonical_feedback_def)

end
