(* ===== verification/Pull_Requests.thy ===== *)
theory Pull_Requests
  imports Canonical_Txn
begin

text \<open>
  Pull-request identity and accepted ownership (\<open>change\<close> in \<open>src/switchstand/pull_requests.py\<close>):
  linking a pull request to a work, unlinking it, and handing its ownership over against a
  durable acceptance message of the recipient. It runs inside the transaction of a relation write.
\<close>

section \<open>Operations\<close>

text \<open>\<open>StaleVersion\<close> is a \<open>ValueError\<close> of its own, which the caller catches first.\<close>

datatype pr_error = Pr_stale | Pr_error py_error

abbreviation pr_key :: "pull_request_record \<Rightarrow> string \<times> int" where
  "pr_key p \<equiv> (prr_repository p, prr_number p)"

abbreviation change_key :: "pull_request_change \<Rightarrow> string \<times> int" where
  "change_key c \<equiv> (prc_repository c, prc_number c)"

text \<open>The caller's mailbox row, fenced again under the transaction.\<close>

definition caller_bound :: "agent_mailbox \<Rightarrow> string \<Rightarrow> agent_mailbox list \<Rightarrow> bool" where
  "caller_bound caller key actors =
     (case find (\<lambda>a. amb_name_key a = amb_name_key caller) actors of
        None \<Rightarrow> False
      | Some b \<Rightarrow>
          amb_endpoint_id b = amb_endpoint_id caller \<and> amb_principal_key b = amb_principal_key caller
          \<and> amb_session_key b = amb_session_key caller \<and> amb_generation b = amb_generation caller
          \<and> amb_principal_key caller = key)"

definition pr_actors :: "agent_mailbox \<Rightarrow> pull_request_change \<Rightarrow> runtime_db \<Rightarrow> agent_mailbox list" where
  "pr_actors caller c db =
     (let wanted = [amb_name_key caller,
            (case prc_recipient_key c of None \<Rightarrow> amb_name_key caller
             | Some k \<Rightarrow> if k = [] then amb_name_key caller else k)]
      in sort_key amb_name_key (filter (\<lambda>a. amb_name_key a \<in> set wanted) (rdb_mailboxes db)))"

text \<open>\<open>INSERT ... ON CONFLICT DO NOTHING\<close> of the identity.\<close>

definition pr_register :: "agent_mailbox \<Rightarrow> pull_request_change \<Rightarrow> uuid \<Rightarrow> runtime_db \<Rightarrow> runtime_db" where
  "pr_register caller c op db =
     (if change_key c \<in> set (map pr_key (rdb_prs db)) then db
      else db\<lparr>rdb_prs := rdb_prs db @ [\<lparr>prr_repository = prc_repository c, prr_number = prc_number c,
        prr_owner_key = amb_name_key caller, prr_row_version = 1,
        prr_acceptance_ref = ''operation:'' @ uuid_str op\<rparr>]\<rparr>)"

text \<open>The payload of the message a delivery carries from the recipient to the caller.\<close>

definition acceptance_payload ::
  "uuid option \<Rightarrow> agent_mailbox \<Rightarrow> agent_mailbox \<Rightarrow> runtime_db \<Rightarrow> json option" where
  "acceptance_payload delivery recipient caller db =
     (case concat (map (\<lambda>d. map msg_payload (filter (\<lambda>m.
            msg_sender_work_id m = dlv_sender_work_id d \<and> msg_message_id m = dlv_message_id d
            \<and> Some (dlv_delivery_id d) = delivery
            \<and> msg_sender_work_id m = amb_endpoint_id recipient
            \<and> dlv_recipient_work_id d = amb_endpoint_id caller) (rdb_messages db)))
          (rdb_deliveries db)) of
        [] \<Rightarrow> None | j # _ \<Rightarrow> Some j)"

definition acceptance_fields :: "pull_request_change \<Rightarrow> agent_mailbox \<Rightarrow> agent_mailbox \<Rightarrow> (string \<times> json) list" where
  "acceptance_fields c recipient caller =
     [(''kind'', JStr ''pr_owner_acceptance''), (''repository'', JStr (prc_repository c)),
      (''number'', JInt (prc_number c)), (''previous_owner'', JStr (amb_name_key caller)),
      (''expected_version'', json_opt JInt (prc_expected_version c)),
      (''package_ref'', JStr (prc_package_ref c)), (''recipient_key'', JStr (amb_name_key recipient)),
      (''recipient_generation'', JInt (amb_generation recipient)),
      (''previous_owner_generation'', JInt (amb_generation caller))]"

text \<open>Equality with a dict: the same keys with the same values, in any order.\<close>

definition json_dict :: "json option \<Rightarrow> (string \<times> json) list \<Rightarrow> bool" where
  "json_dict j dict = (case j of Some (JObj kvs) \<Rightarrow> map_of kvs = map_of dict | _ \<Rightarrow> False)"

definition pr_hand_over ::
  "pull_request_change \<Rightarrow> agent_mailbox \<Rightarrow> agent_mailbox list \<Rightarrow> pull_request_record \<Rightarrow> runtime_db
     \<Rightarrow> runtime_db py_result" where
  "pr_hand_over c caller actors row db =
     (case find (\<lambda>a. Some (amb_name_key a) = prc_recipient_key c) actors of
        None \<Rightarrow> Inl ValueError
      | Some recipient \<Rightarrow>
          if prr_owner_key row \<noteq> amb_name_key caller \<or> prc_expected_version c = None
             \<or> amb_name_key recipient = amb_name_key caller then Inl ValueError
          else if \<not> json_dict (acceptance_payload (prc_acceptance_delivery_id c) recipient caller db)
                     (acceptance_fields c recipient caller) then Inl ValueError
          else Inr (db\<lparr>rdb_prs := map (\<lambda>p. if pr_key p = change_key c
                 then p\<lparr>prr_owner_key := amb_name_key recipient, prr_row_version := prr_row_version row + 1,
                   prr_acceptance_ref := ''delivery:'' @ str_opt_uuid (prc_acceptance_delivery_id c)\<rparr>
                 else p) (rdb_prs db)\<rparr>))"

definition pr_write ::
  "uuid \<Rightarrow> relation_action \<Rightarrow> pull_request_change \<Rightarrow> agent_mailbox \<Rightarrow> agent_mailbox list
     \<Rightarrow> pull_request_record \<Rightarrow> runtime_db \<Rightarrow> runtime_db py_result" where
  "pr_write w action c caller actors row db =
     (let link = (w, prc_repository c, prc_number c) in
      case action of
        A_set \<Rightarrow> pr_hand_over c caller actors row db
      | A_add \<Rightarrow> Inr (if link \<in> set (rdb_pr_links db) then db
                       else db\<lparr>rdb_pr_links := rdb_pr_links db @ [link]\<rparr>)
      | A_remove \<Rightarrow> Inr (db\<lparr>rdb_pr_links := filter (\<lambda>l. l \<noteq> link) (rdb_pr_links db)\<rparr>)
      | _ \<Rightarrow> Inl ValueError)"

definition pr_change ::
  "uuid \<Rightarrow> relation_action \<Rightarrow> pull_request_change \<Rightarrow> agent_mailbox \<Rightarrow> string \<Rightarrow> uuid \<Rightarrow> runtime_db
     \<Rightarrow> pr_error + pull_request_record \<times> runtime_db" where
  "pr_change w action c caller key op db =
     (let actors = pr_actors caller c db;
          db1 = (if action = A_add then pr_register caller c op db else db) in
      if \<not> caller_bound caller key actors then Inl (Pr_error ValueError)
      else case one_or_none (filter (\<lambda>p. pr_key p = change_key c) (rdb_prs db1)) of
        Inl e \<Rightarrow> Inl (Pr_error e)
      | Inr None \<Rightarrow> Inl (Pr_error ValueError)
      | Inr (Some row) \<Rightarrow>
          if action \<in> {A_remove, A_set} \<and> (w, prc_repository c, prc_number c) \<notin> set (rdb_pr_links db1)
          then Inl (Pr_error ValueError)
          else if prc_expected_version c \<noteq> None \<and> prc_expected_version c \<noteq> Some (prr_row_version row)
          then Inl Pr_stale
          else (case pr_write w action c caller actors row db1 of
            Inl e \<Rightarrow> Inl (Pr_error e)
          | Inr db2 \<Rightarrow>
              (case filter (\<lambda>p. pr_key p = change_key c) (rdb_prs db2) of
                 [p] \<Rightarrow> Inr (p, db2) | _ \<Rightarrow> Inl (Pr_error SQLAlchemyError))))"

section \<open>Ownership\<close>

definition pr_keys :: "runtime_db \<Rightarrow> bool" where
  "pr_keys db = distinct (map pr_key (rdb_prs db))"

definition pr_lookup :: "runtime_db \<Rightarrow> string \<times> int \<Rightarrow> pull_request_record option" where
  "pr_lookup db k = find (\<lambda>p. pr_key p = k) (rdb_prs db)"

text \<open>The only thing a change touches outside the pull-request tables: nothing.\<close>

lemma pr_register_simps [simp]:
  "rdb_store (pr_register a c op db) = rdb_store db" "rdb_grants (pr_register a c op db) = rdb_grants db"
  "rdb_messages (pr_register a c op db) = rdb_messages db" "rdb_handles (pr_register a c op db) = rdb_handles db"
  "rdb_deliveries (pr_register a c op db) = rdb_deliveries db"
  "rdb_mailboxes (pr_register a c op db) = rdb_mailboxes db"
  by (simp_all add: pr_register_def)

lemma pr_write_cases:
  assumes "pr_write w action c caller actors row db = Inr db'"
  obtains (link) links where "db' = db\<lparr>rdb_pr_links := links\<rparr>" "action \<noteq> A_set"
    | (hand_over) recipient where "action = A_set" "recipient \<in> set actors"
        "Some (amb_name_key recipient) = prc_recipient_key c" "prr_owner_key row = amb_name_key caller"
        "prc_expected_version c \<noteq> None" "amb_name_key recipient \<noteq> amb_name_key caller"
        "json_dict (acceptance_payload (prc_acceptance_delivery_id c) recipient caller db)
           (acceptance_fields c recipient caller)"
        "db' = db\<lparr>rdb_prs := map (\<lambda>p. if pr_key p = change_key c
                 then p\<lparr>prr_owner_key := amb_name_key recipient, prr_row_version := prr_row_version row + 1,
                   prr_acceptance_ref := ''delivery:'' @ str_opt_uuid (prc_acceptance_delivery_id c)\<rparr>
                 else p) (rdb_prs db)\<rparr>"
proof (cases "action = A_set")
  case True
  with assms have "pr_hand_over c caller actors row db = Inr db'" by (simp add: pr_write_def)
  with True show thesis
    by (auto simp: pr_hand_over_def find_Some_iff split: option.split_asm if_split_asm
        intro!: hand_over)
next
  case False
  with assms have "db' = db \<or> (\<exists>links. db' = db\<lparr>rdb_pr_links := links\<rparr>)"
    by (auto simp: pr_write_def Let_def split: relation_action.split_asm if_split_asm)
  with False link [of "rdb_pr_links db"] link show thesis by auto
qed

lemma pr_change_cases:
  assumes "pr_change w action c caller key op db = Inr (p, db')"
  obtains row db1 where "db1 = (if action = A_add then pr_register caller c op db else db)"
    "caller_bound caller key (pr_actors caller c db)"
    "filter (\<lambda>p. pr_key p = change_key c) (rdb_prs db1) = [row]"
    "prc_expected_version c \<noteq> None \<longrightarrow> prc_expected_version c = Some (prr_row_version row)"
    "pr_write w action c caller (pr_actors caller c db) row db1 = Inr db'"
    "filter (\<lambda>p. pr_key p = change_key c) (rdb_prs db') = [p]"
proof -
  let ?db1 = "if action = A_add then pr_register caller c op db else db"
  note run = assms [unfolded pr_change_def Let_def]
  have bound: "caller_bound caller key (pr_actors caller c db)"
    using run by (simp split: if_split_asm)
  obtain r where r: "one_or_none (filter (\<lambda>p. pr_key p = change_key c) (rdb_prs ?db1)) = Inr r"
    by (cases "one_or_none (filter (\<lambda>p. pr_key p = change_key c) (rdb_prs ?db1))") (use run bound in auto)
  obtain row where row: "r = Some row" by (cases r) (use run bound r in auto)
  have expected: "prc_expected_version c \<noteq> None \<longrightarrow> prc_expected_version c = Some (prr_row_version row)"
    and wr: "\<exists>db2. pr_write w action c caller (pr_actors caller c db) row ?db1 = Inr db2
      \<and> (case filter (\<lambda>p. pr_key p = change_key c) (rdb_prs db2) of
           [p] \<Rightarrow> Inr (p, db2) | _ \<Rightarrow> Inl (Pr_error SQLAlchemyError)) = Inr (p, db')"
    using run bound r row by (auto split: if_split_asm sum.split_asm)
  from wr obtain db2 where db2: "pr_write w action c caller (pr_actors caller c db) row ?db1 = Inr db2"
    and sel: "(case filter (\<lambda>p. pr_key p = change_key c) (rdb_prs db2) of
           [p] \<Rightarrow> Inr (p, db2) | _ \<Rightarrow> Inl (Pr_error SQLAlchemyError)) = Inr (p, db')" by blast
  have "filter (\<lambda>p. pr_key p = change_key c) (rdb_prs db2) = [p]" "db2 = db'"
    by (cases "filter (\<lambda>p. pr_key p = change_key c) (rdb_prs db2)" rule: one_or_none.cases; use sel in simp)+
  with db2 have "pr_write w action c caller (pr_actors caller c db) row ?db1 = Inr db'"
    "filter (\<lambda>p. pr_key p = change_key c) (rdb_prs db') = [p]" by simp_all
  with bound r row expected that show thesis by (simp only: one_or_none_Some)
qed

text \<open>Registering an identity keeps every identity that exists.\<close>

lemma pr_register_lookup:
  "pr_lookup db k = Some p \<Longrightarrow> pr_lookup (pr_register a c op db) k = Some p"
  "pr_keys db \<Longrightarrow> pr_keys (pr_register a c op db)"
  by (auto simp: pr_lookup_def pr_register_def find_append pr_keys_def)

lemma find_map_key:
  assumes "\<And>p. pr_key (f p) = pr_key p"
  shows "find (\<lambda>p. pr_key p = k) (map (\<lambda>p. if pr_key p = j then f p else p) ps)
     = map_option (\<lambda>p. if k = j then f p else p) (find (\<lambda>p. pr_key p = k) ps)"
  using assms by (induction ps) auto

lemma rdb_prs_update: "rdb_prs (db\<lparr>rdb_prs := ps\<rparr>) = ps"
  by simp

text \<open>What a hand-over rests on: the owner's exact version and the recipient's delivered acceptance.\<close>

definition accepted_hand_over ::
  "pull_request_change \<Rightarrow> agent_mailbox \<Rightarrow> pull_request_record \<Rightarrow> runtime_db \<Rightarrow> pull_request_record \<Rightarrow> bool" where
  "accepted_hand_over c caller p db p' =
     (\<exists>recipient d m kvs. recipient \<in> set (rdb_mailboxes db) \<and> d \<in> set (rdb_deliveries db)
        \<and> m \<in> set (rdb_messages db)
        \<and> prr_owner_key p = amb_name_key caller \<and> prc_expected_version c = Some (prr_row_version p)
        \<and> amb_name_key recipient \<noteq> amb_name_key caller
        \<and> Some (dlv_delivery_id d) = prc_acceptance_delivery_id c
        \<and> dlv_sender_work_id d = amb_endpoint_id recipient \<and> dlv_recipient_work_id d = amb_endpoint_id caller
        \<and> msg_sender_work_id m = dlv_sender_work_id d \<and> msg_message_id m = dlv_message_id d
        \<and> msg_payload m = JObj kvs \<and> map_of kvs = map_of (acceptance_fields c recipient caller)
        \<and> prr_owner_key p' = amb_name_key recipient \<and> prr_row_version p' = prr_row_version p + 1)"

lemma acceptance_delivered:
  assumes "json_dict (acceptance_payload delivery recipient caller db) dict"
  obtains d m kvs where "d \<in> set (rdb_deliveries db)" "m \<in> set (rdb_messages db)"
    "Some (dlv_delivery_id d) = delivery" "dlv_sender_work_id d = amb_endpoint_id recipient"
    "dlv_recipient_work_id d = amb_endpoint_id caller"
    "msg_sender_work_id m = dlv_sender_work_id d" "msg_message_id m = dlv_message_id d"
    "msg_payload m = JObj kvs" "map_of kvs = map_of dict"
proof -
  let ?js = "concat (map (\<lambda>d. map msg_payload (filter (\<lambda>m.
            msg_sender_work_id m = dlv_sender_work_id d \<and> msg_message_id m = dlv_message_id d
            \<and> Some (dlv_delivery_id d) = delivery
            \<and> msg_sender_work_id m = amb_endpoint_id recipient
            \<and> dlv_recipient_work_id d = amb_endpoint_id caller) (rdb_messages db)))
          (rdb_deliveries db))"
  from assms obtain kvs where kvs: "acceptance_payload delivery recipient caller db = Some (JObj kvs)"
    "map_of kvs = map_of dict"
    by (auto simp: json_dict_def split: option.split_asm json.split_asm)
  then have "JObj kvs \<in> set ?js"
    by (cases ?js) (simp_all add: acceptance_payload_def)
  then obtain d m where "d \<in> set (rdb_deliveries db)" "m \<in> set (rdb_messages db)" "msg_payload m = JObj kvs"
    "msg_sender_work_id m = dlv_sender_work_id d" "msg_message_id m = dlv_message_id d"
    "Some (dlv_delivery_id d) = delivery" "msg_sender_work_id m = amb_endpoint_id recipient"
    "dlv_recipient_work_id d = amb_endpoint_id caller"
    by auto
  with kvs(2) show thesis using that [of d m kvs] by simp
qed

section \<open>Properties\<close>

text \<open>
  C16. A pull request changes hands only by acceptance: a change leaves every registered pull
  request as it is, except that a hand-over by its current owner, naming its exact version and a
  delivered message in which the recipient accepts exactly this hand-over, makes the recipient the
  owner at the next version.
\<close>

theorem pr_owner_needs_acceptance:
  assumes "pr_change w action c caller key op db = Inr (q, db')" and "pr_lookup db k = Some p"
  shows "\<exists>p'. pr_lookup db' k = Some p'
     \<and> (p' = p \<or> k = change_key c \<and> action = A_set \<and> accepted_hand_over c caller p db p')"
proof -
  from assms(1) obtain row db1 where db1: "db1 = (if action = A_add then pr_register caller c op db else db)"
    and row: "filter (\<lambda>p. pr_key p = change_key c) (rdb_prs db1) = [row]"
    and exp: "prc_expected_version c \<noteq> None \<longrightarrow> prc_expected_version c = Some (prr_row_version row)"
    and wr: "pr_write w action c caller (pr_actors caller c db) row db1 = Inr db'"
    by (rule pr_change_cases)
  have p: "pr_lookup db1 k = Some p" using assms(2) by (simp add: db1 pr_register_lookup(1))
  from wr show ?thesis
  proof (cases rule: pr_write_cases)
    case (link links)
    with p show ?thesis by (simp add: pr_lookup_def)
  next
    case (hand_over recipient)
    have db1: "db1 = db" using hand_over(1) by (simp add: db1)
    let ?f = "\<lambda>p. p\<lparr>prr_owner_key := amb_name_key recipient, prr_row_version := prr_row_version row + 1,
       prr_acceptance_ref := ''delivery:'' @ str_opt_uuid (prc_acceptance_delivery_id c)\<rparr>"
    have "find (\<lambda>p. pr_key p = k) (map (\<lambda>p. if pr_key p = change_key c then ?f p else p) (rdb_prs db1))
        = map_option (\<lambda>p. if k = change_key c then ?f p else p) (find (\<lambda>p. pr_key p = k) (rdb_prs db1))"
      by (rule find_map_key) simp
    then have look: "pr_lookup db' k = Some (if k = change_key c then ?f p else p)"
      using p unfolding pr_lookup_def hand_over(8) rdb_prs_update by (simp only: option.map)
    show ?thesis
    proof (cases "k = change_key c")
      case True
      with p have "p \<in> set (filter (\<lambda>p. pr_key p = change_key c) (rdb_prs db1))"
        by (auto simp: pr_lookup_def find_Some_iff)
      with row have "p = row" by simp
      moreover have "recipient \<in> set (rdb_mailboxes db)"
        using hand_over(2) by (auto simp: pr_actors_def Let_def)
      moreover obtain d m kvs where "d \<in> set (rdb_deliveries db1)" "m \<in> set (rdb_messages db1)"
        "Some (dlv_delivery_id d) = prc_acceptance_delivery_id c"
        "dlv_sender_work_id d = amb_endpoint_id recipient" "dlv_recipient_work_id d = amb_endpoint_id caller"
        "msg_sender_work_id m = dlv_sender_work_id d" "msg_message_id m = dlv_message_id d"
        "msg_payload m = JObj kvs" "map_of kvs = map_of (acceptance_fields c recipient caller)"
        by (rule acceptance_delivered [OF hand_over(7)])
      ultimately have "accepted_hand_over c caller p db (?f p)"
        using hand_over(4-6) exp unfolding accepted_hand_over_def db1
        by (intro exI [of _ recipient] exI [of _ d] exI [of _ m] exI [of _ kvs]) simp
      with look True hand_over(1) show ?thesis by simp
    next
      case False
      with look show ?thesis by simp
    qed
  qed
qed

text \<open>A hand-over from \<open>a\<close> to \<open>b\<close>.\<close>

definition demo_agent :: "string \<Rightarrow> uuid \<Rightarrow> agent_mailbox" where
  "demo_agent n u = \<lparr>amb_name = n, amb_name_key = n, amb_endpoint_id = u, amb_principal_key = n, amb_session_key = n,
     amb_generation = 1, amb_agent_type = None\<rparr>"

definition demo_pr :: "string \<Rightarrow> int \<Rightarrow> pull_request_record" where
  "demo_pr owner v = \<lparr>prr_repository = ''r'', prr_number = 5, prr_owner_key = owner, prr_row_version = v,
     prr_acceptance_ref = []\<rparr>"

definition demo_pr_change :: pull_request_change where
  "demo_pr_change = \<lparr>prc_repository = ''r'', prc_number = 5, prc_expected_version = Some 3,
     prc_recipient_key = Some ''b'', prc_acceptance_delivery_id = Some 9, prc_package_ref = ''p''\<rparr>"

definition demo_pr_db :: runtime_db where
  "demo_pr_db = \<lparr>rdb_grants = \<lparr>gdb_grants = [], gdb_intents = []\<rparr>, rdb_store = review_start demo_canon,
     rdb_handles = [], rdb_prs = [demo_pr ''a'' 3], rdb_pr_links = [(1, ''r'', 5)],
     rdb_messages = [\<lparr>msg_sender_work_id = 20, msg_message_id = 8, msg_route_ref = [], msg_kind = [],
       msg_payload = JObj (acceptance_fields demo_pr_change (demo_agent ''b'' 20) (demo_agent ''a'' 10)), msg_digest = [], msg_in_reply_to = None, msg_created_at = 0\<rparr>],
     rdb_deliveries = [\<lparr>dlv_delivery_id = 9, dlv_sender_work_id = 20, dlv_message_id = 8,
       dlv_recipient_work_id = 10, dlv_state = AVAILABLE, dlv_recipient_grant_version = 1, dlv_received_at = None,
       dlv_receiving_generation = None, dlv_dispositioned_at = None, dlv_disposition_digest = None, dlv_evidence = None\<rparr>],
     rdb_mailboxes = [demo_agent ''a'' 10, demo_agent ''b'' 20], rdb_transfers = [], rdb_receipts = []\<rparr>"

lemma demo_pr_run:
  "\<exists>q db'. pr_change 1 A_set demo_pr_change (demo_agent ''a'' 10) ''a'' 7 demo_pr_db = Inr (q, db')
     \<and> prr_owner_key q = ''b'' \<and> pr_lookup db' (''r'', 5) = Some q"
  by (simp add: pr_change_def pr_actors_def caller_bound_def pr_write_def pr_hand_over_def acceptance_payload_def
      json_dict_def demo_pr_db_def demo_pr_def demo_pr_change_def demo_agent_def pr_lookup_def)

theorem pr_owner_needs_acceptance_witness:
  "\<exists>p'. prr_owner_key p' = ''b''
     \<and> accepted_hand_over demo_pr_change (demo_agent ''a'' 10) (demo_pr ''a'' 3) demo_pr_db p'"
proof -
  obtain q db' where run: "pr_change 1 A_set demo_pr_change (demo_agent ''a'' 10) ''a'' 7 demo_pr_db = Inr (q, db')"
    "prr_owner_key q = ''b''" "pr_lookup db' (''r'', 5) = Some q"
    using demo_pr_run by blast
  have "pr_lookup demo_pr_db (''r'', 5) = Some (demo_pr ''a'' 3)"
    by (simp add: pr_lookup_def demo_pr_db_def demo_pr_def)
  from pr_owner_needs_acceptance [OF run(1) this] run(2,3) show ?thesis by (auto simp: demo_pr_def)
qed

end
