(* ===== verification/Canonical_Relation.thy ===== *)
theory Canonical_Relation
  imports Pull_Requests Relation_Gateway Work_Relations
begin

text \<open>
  Relation writes of canonical work (\<open>protected_relation\<close> in
  \<open>src/switchstand/tracker/runtime.py\<close>): parents, dependencies, project placements and pull
  requests, with the guards that keep a pending review from being cancelled or hidden unnoticed.
  The relation, the version of the work and the journal row are written in one transaction.
\<close>

section \<open>Operations\<close>

abbreviation relation_fp :: "runtime_env \<Rightarrow> principal \<Rightarrow> protected_relation \<Rightarrow> string" where
  "relation_fp E pr req \<equiv> relation_fingerprint (rte_pkey E) (rte_digest E) pr req"

definition relation_target :: "runtime_env \<Rightarrow> principal \<Rightarrow> protected_relation \<Rightarrow> write_target" where
  "relation_target E pr req =
     \<lparr>wt_work_id = prl_work_id req, wt_operation_id = prl_operation_id req,
      wt_fingerprint = relation_fp E pr req, wt_grant_version = prl_grant_version req,
      wt_observed_revision = prl_observed_revision req, wt_operation = Work_relate,
      wt_qualification = wg_relation_qualification,
      wt_qualified = (\<lambda>q. starts_with q
        (if pr_assurance pr = Test_assurance then ''test:'' else ''real:'')),
      wt_unqualified = ''relation_not_qualified_for_this_surface''\<rparr>"

text \<open>
  Moving a review occurrence away from its subject while the review is pending would hide it; this
  is refused whatever the confirmation flag says.
\<close>

definition hides_review ::
  "runtime_env \<Rightarrow> protected_relation \<Rightarrow> current_work \<Rightarrow> runtime_db \<Rightarrow> bool py_result" where
  "hides_review E req c db =
     (if rp_kind (prl_patch req) = K_parent \<and> cw_work_type c = Some ''REVIEW''
      then (case parent_of (rdb_works db) (prl_work_id req) of
          None \<Rightarrow> Inr False
        | Some parent \<Rightarrow>
            if Some parent = rp_target_work_id (prl_patch req) then Inr False
            else (case work_lookup (rdb_works db) parent of
                None \<Rightarrow> Inr False
              | Some subject \<Rightarrow>
                  bindE (canonical_revision (rve_revision (rte_review E)) parent (cw_row_version subject))
                    (\<lambda>revision. Inr (pending_review_id parent revision (Some (prl_work_id req))
                       (rdb_works db) (rdb_messages db) \<noteq> None))))
      else Inr False)"

text \<open>A request that leaves the relation as it is does not invalidate a review.\<close>

definition changes_relation :: "protected_relation \<Rightarrow> canon_db \<Rightarrow> bool" where
  "changes_relation req db =
     (let p = prl_patch req; w = prl_work_id req in
      case (rp_kind p, rp_target_work_id p, rp_project_id p) of
        (K_parent, target, _) \<Rightarrow> parent_of db w \<noteq> target
      | (K_dependency, Some target, _) \<Rightarrow> ((w, target) \<in> set (cdb_deps db)) \<noteq> (rp_action p = A_add)
      | (K_placement, _, Some project) \<Rightarrow>
          ((w, project) \<in> set (map member_key (cdb_members db))) \<noteq> (rp_action p = A_add)
      | _ \<Rightarrow> True)"

definition relation_refusal ::
  "runtime_env \<Rightarrow> protected_relation \<Rightarrow> work_grant \<Rightarrow> current_work \<Rightarrow> runtime_db
     \<Rightarrow> guard_outcome option py_result" where
  "relation_refusal E req g c db =
     (let p = prl_patch req; w = prl_work_id req in
      if rp_kind p = K_assignee
      then Inr (Some (relation_guard req G_denied ''invalid_database_relation'' False))
      else bindE (hides_review E req c db) (\<lambda>hides.
        if hides then Inr (Some (relation_guard req G_denied ''pending_review_subject_relation'' False))
        else if (case rp_target_work_id p of None \<Rightarrow> False | Some t \<Rightarrow> \<not> grant_can_read g t True)
        then Inr (Some (relation_guard req G_denied ''relation_target_not_granted'' False))
        else case (if changes_relation req (rdb_works db) \<and> \<not> prl_confirm_cancels_review req
                   then pending_review_id w (prl_observed_revision req) None (rdb_works db) (rdb_messages db)
                   else None) of
          Some review \<Rightarrow>
            Inr (Some ((relation_guard req G_confirm_required ''pending_review'' False)
              \<lparr>go_next_action := confirmation_message review\<rparr>))
        | None \<Rightarrow> Inr None))"

text \<open>
  The change itself: a refusal, or the tables with the pull request's record.
\<close>

datatype relation_write =
    Refused guard_outcome
  | Related "pull_request_record option" runtime_db

definition relation_change ::
  "runtime_env \<Rightarrow> principal \<Rightarrow> agent_mailbox option \<Rightarrow> protected_relation \<Rightarrow> current_work \<Rightarrow> runtime_db
     \<Rightarrow> relation_write py_result" where
  "relation_change E pr caller req c db =
     (let p = prl_patch req; w = prl_work_id req; n = cw_row_version c; works = rdb_works db;
          keep = (\<lambda>(_, works'). Inr (Related None (put_works works' db))) in
      case rp_kind p of
        K_pull_request \<Rightarrow>
          (case (caller, rp_pull_request p) of
             (Some a, Some change) \<Rightarrow>
               (case pr_change w (rp_action p) change a (rte_pkey E pr) (prl_operation_id req) db of
                  Inl Pr_stale \<Rightarrow> Inr (Refused (relation_guard req G_stale ''pr_revision_changed'' False))
                | Inl (Pr_error e) \<Rightarrow> Inl e
                | Inr (r, db') \<Rightarrow> Inr (Related (Some r) (put_works (bump_version w (n + 1) works) db')))
           | _ \<Rightarrow> Inr (Refused (relation_guard req G_denied ''agent_not_registered'' False)))
      | K_parent \<Rightarrow> bindE (ended (set_parent w (rp_target_work_id p) n works)) keep
      | K_dependency \<Rightarrow>
          (case rp_target_work_id p of
             None \<Rightarrow> Inl AssertionError
           | Some t \<Rightarrow> bindE (change_dependency w t (rp_action p = A_add) n works) keep)
      | _ \<Rightarrow>
          (case rp_project_id p of
             None \<Rightarrow> Inl AssertionError
           | Some project \<Rightarrow>
               if project \<notin> set (map prj_id (cdb_projects works))
               then Inr (Refused (relation_guard req G_denied ''project_not_admitted'' False))
               else bindE (change_project_membership w project (rp_action p = A_add) n works) keep))"

definition relation_receipt_of ::
  "principal \<Rightarrow> protected_relation \<Rightarrow> work_grant \<Rightarrow> string \<Rightarrow> pull_request_record option \<Rightarrow> guard_outcome" where
  "relation_receipt_of pr req g q record =
     \<lparr>go_status = G_ok, go_operation = ''work_relate'', go_work_id = Some (prl_work_id req),
      go_operation_id = Some (prl_operation_id req), go_reason = ''relation_state_converged'',
      go_effect = Applied, go_retry = Retry_none, go_next_action = ''Use the recorded receipt.'',
      go_receipt = Some (R_relation
        \<lparr>rc_operation_id = prl_operation_id req, rc_principal = pr, rc_grant_id = wg_id g,
         rc_grant_version = wg_version g, rc_qualification = q, rlr_work_id = prl_work_id req,
         rlr_provider = ''postgres'', rlr_task_gid = uuid_str (prl_work_id req),
         rlr_observed_revision = prl_observed_revision req, rlr_patch = prl_patch req,
         rlr_pull_request = record\<rparr>),
      go_blocked_by = None\<rparr>"

definition relation_journal_row ::
  "runtime_env \<Rightarrow> principal \<Rightarrow> protected_relation \<Rightarrow> work_grant \<Rightarrow> guard_outcome \<Rightarrow> effect_row" where
  "relation_journal_row E pr req g outcome =
     \<lparr>ei_operation_id = uuid_str (prl_operation_id req), ei_fingerprint = relation_fp E pr req,
      ei_principal_key = rte_pkey E pr, ei_work_id = uuid_str (prl_work_id req),
      ei_grant_id = uuid_str (wg_id g), ei_grant_version = wg_version g,
      ei_intent = JObj [(''request'', relation_request_json req), (''authority'', JStr ''postgres'')],
      ei_outcome = outcome\<rparr>"

text \<open>The rest of the transaction, once the call is admitted.\<close>

definition relation_apply ::
  "runtime_env \<Rightarrow> agent_mailbox option \<Rightarrow> principal \<Rightarrow> protected_relation \<Rightarrow> work_grant \<Rightarrow> string \<Rightarrow> current_work
     \<Rightarrow> runtime_db \<Rightarrow> (guard_outcome \<times> runtime_db) py_result" where
  "relation_apply E caller pr req g q c db =
     bindE (relation_refusal E req g c db) (\<lambda>refusal.
     case refusal of Some o' \<Rightarrow> Inr (o', db) | None \<Rightarrow>
     bindE (relation_change E pr caller req c db) (\<lambda>written.
     case written of
       Refused o' \<Rightarrow> Inr (o', db)
     | Related record db' \<Rightarrow>
         let outcome = relation_receipt_of pr req g q record in
         bindE (journal_insert (relation_journal_row E pr req g outcome) db') (\<lambda>db''.
           Inr (outcome, db''))))"

definition relation_in ::
  "runtime_env \<Rightarrow> agent_mailbox option \<Rightarrow> int \<Rightarrow> principal \<Rightarrow> protected_relation \<Rightarrow> runtime_db
     \<Rightarrow> (guard_outcome \<times> runtime_db) py_result" where
  "relation_in E caller now pr req db =
     bindE (gs_current (rte_pkey E pr) (rdb_grants db)) (\<lambda>grant.
     bindE (work_admission E now pr (relation_target E pr req) (relation_guard req) grant db) (\<lambda>adm.
     case adm of
       Inl o' \<Rightarrow> Inr (o', db)
     | Inr (g, q, c) \<Rightarrow> relation_apply E caller pr req g q c db))"

text \<open>The handlers; \<open>StaleVersion\<close> is answered where it is raised, before anything is written.\<close>

definition relation_handlers :: "protected_relation \<Rightarrow> bool \<Rightarrow> py_error \<Rightarrow> guard_outcome py_result option" where
  "relation_handlers req again e =
     (if e = IntegrityError
      then (if again then None
            else Some (Inr (relation_guard req G_denied ''invalid_database_relation'' False)))
      else if e = LookupError \<or> e = TypeError \<or> is_value_error e \<or> e = KeyError
      then Some (Inr (relation_guard req G_denied ''invalid_database_relation'' False))
      else if is_sqlalchemy_error e
      then Some (Inr (relation_guard req G_unknown ''state_or_effect_unavailable'' True))
      else Some (Inl e))"

definition canonical_relate ::
  "runtime_env \<Rightarrow> agent_mailbox option \<Rightarrow> principal \<Rightarrow> protected_relation \<Rightarrow> int \<times> txn_end
     \<Rightarrow> (runtime_db \<Rightarrow> runtime_db) \<Rightarrow> int \<times> txn_end \<Rightarrow> runtime_db \<Rightarrow> guard_outcome py_result \<times> runtime_db" where
  "canonical_relate E caller pr req first between second db =
     two_attempts (relation_handlers req) (\<lambda>now. relation_in E caller now pr req) first between second db"

section \<open>The one change\<close>

text \<open>A relation write moves the version of its work exactly when it changes the relation.\<close>

definition relation_lookup :: "protected_relation \<Rightarrow> canon_db \<Rightarrow> uuid \<Rightarrow> current_work option" where
  "relation_lookup req works u =
     (if u = prl_work_id req \<and> changes_relation req works
      then map_option (\<lambda>c. c\<lparr>cw_row_version := cw_row_version c + 1\<rparr>) (work_lookup works u)
      else work_lookup works u)"

definition relation_parents :: "protected_relation \<Rightarrow> canon_db \<Rightarrow> uuid \<Rightarrow> uuid option" where
  "relation_parents req works =
     (if rp_kind (prl_patch req) = K_parent
      then (parent_of works)(prl_work_id req := rp_target_work_id (prl_patch req)) else parent_of works)"

definition relation_effect :: "protected_relation \<Rightarrow> runtime_db \<Rightarrow> runtime_db \<Rightarrow> bool" where
  "relation_effect req db db' =
     (relations_inv (rdb_works db') \<and> work_lookup (rdb_works db') = relation_lookup req (rdb_works db)
      \<and> parent_of (rdb_works db') = relation_parents req (rdb_works db)
      \<and> (\<forall>u. u \<noteq> prl_work_id req \<longrightarrow> work_links u (rdb_works db') = work_links u (rdb_works db))
      \<and> (\<not> changes_relation req (rdb_works db) \<longrightarrow> rdb_works db' = rdb_works db)
      \<and> rdb_reviews db' = rdb_reviews db \<and> rdb_messages db' = rdb_messages db
      \<and> rdb_grants db' = rdb_grants db)"

lemma bumped_lookup:
  assumes "work_lookup works w = Some c" and "\<And>u. work_lookup works' u = work_lookup works u"
  shows "work_lookup (bump_version w (cw_row_version c + 1) works') u
     = (if u = w then map_option (\<lambda>c. c\<lparr>cw_row_version := cw_row_version c + 1\<rparr>) (work_lookup works u)
        else work_lookup works u)"
  using assms by (auto simp: bump_lookup)

lemma relations_inv_bump:
  assumes "relations_inv works" and "work_lookup works w = Some c"
  shows "relations_inv (bump_version w (cw_row_version c + 1) works)"
proof -
  have "events_inv (bump_version w (cw_row_version c + 1) works)"
    by (rule events_inv_bump) (use assms relations_inv_keys in \<open>auto simp: relations_inv_def\<close>)
  with assms(1) show ?thesis by (simp add: relations_inv_def)
qed

lemma parent_effect:
  assumes inv: "relations_inv (rdb_works db)" and c: "work_lookup (rdb_works db) (prl_work_id req) = Some c"
    and kind: "rp_kind (prl_patch req) = K_parent"
    and run: "set_parent (prl_work_id req) (rp_target_work_id (prl_patch req)) (cw_row_version c) (rdb_works db)
       = Some (Inr (v, works))"
  shows "relation_effect req db (put_works works db)"
proof -
  have base: "forest (rdb_works db)" "work_keys (rdb_works db)"
    using inv relations_inv_keys by (simp_all add: relations_inv_def)
  note res = set_parent_accepts [OF base run]
  have "work_lookup works = relation_lookup req (rdb_works db)"
    using res kind c
    by (auto simp: relation_lookup_def changes_relation_def Let_def bumped_lookup [OF c] split: if_split_asm)
  moreover have "\<not> changes_relation req (rdb_works db) \<Longrightarrow> works = rdb_works db"
    using run kind by (auto simp: changes_relation_def set_parent_def split: if_split_asm sum.split_asm)
  ultimately show ?thesis using res relations_inv_parent [OF inv run] kind linked_parent [OF run]
    by (simp add: relation_effect_def relation_parents_def)
qed

lemma dependency_effect:
  assumes inv: "relations_inv (rdb_works db)" and c: "work_lookup (rdb_works db) (prl_work_id req) = Some c"
    and kind: "rp_kind (prl_patch req) = K_dependency" and t: "rp_target_work_id (prl_patch req) = Some t"
    and run: "change_dependency (prl_work_id req) t (rp_action (prl_patch req) = A_add) (cw_row_version c)
       (rdb_works db) = Inr (v, works)"
  shows "relation_effect req db (put_works works db)"
proof -
  note keys = relations_inv_keys [OF inv]
  have changes: "changes_relation req (rdb_works db)
      \<longleftrightarrow> ((prl_work_id req, t) \<in> set (cdb_deps (rdb_works db))) \<noteq> (rp_action (prl_patch req) = A_add)"
    using kind t by (simp add: changes_relation_def)
  have "work_lookup works = relation_lookup req (rdb_works db) \<and> parent_of works = parent_of (rdb_works db)
      \<and> (\<not> changes_relation req (rdb_works db) \<longrightarrow> works = rdb_works db)"
  proof (cases rule: change_dependency_run [OF keys run])
    case (1 c')
    with c changes show ?thesis
      by (auto simp: relation_lookup_def bumped_lookup [OF c] parent_of_def fun_eq_iff)
  qed
  with relations_inv_dependency [OF inv run] linked_dependency [OF run] kind show ?thesis
    by (simp add: relation_effect_def relation_parents_def)
qed

lemma placement_effect:
  assumes inv: "relations_inv (rdb_works db)" and c: "work_lookup (rdb_works db) (prl_work_id req) = Some c"
    and kind: "rp_kind (prl_patch req) = K_placement" and p: "rp_project_id (prl_patch req) = Some p"
    and run: "change_project_membership (prl_work_id req) p (rp_action (prl_patch req) = A_add) (cw_row_version c)
       (rdb_works db) = Inr (v, works)"
  shows "relation_effect req db (put_works works db)"
proof -
  note keys = relations_inv_keys [OF inv]
  have changes: "changes_relation req (rdb_works db)
      \<longleftrightarrow> ((prl_work_id req, p) \<in> set (map member_key (cdb_members (rdb_works db))))
          \<noteq> (rp_action (prl_patch req) = A_add)"
    using kind p by (simp add: changes_relation_def)
  have "work_lookup works = relation_lookup req (rdb_works db) \<and> parent_of works = parent_of (rdb_works db)
      \<and> (\<not> changes_relation req (rdb_works db) \<longrightarrow> works = rdb_works db)"
  proof (cases rule: change_membership_run [OF keys run])
    case (1 c')
    show ?thesis
    proof (cases "changes_relation req (rdb_works db)")
      case True
      with 1(1,2,5) c changes obtain ms where
        "works = bump_version (prl_work_id req) (cw_row_version c + 1) ((rdb_works db)\<lparr>cdb_members := ms\<rparr>)"
        by blast
      with True show ?thesis by (simp add: relation_lookup_def bumped_lookup [OF c] parent_of_def fun_eq_iff)
    next
      case False
      with 1(4) changes show ?thesis by (auto simp: relation_lookup_def)
    qed
  qed
  with relations_inv_membership [OF inv run] linked_membership [OF run] kind show ?thesis
    by (simp add: relation_effect_def relation_parents_def)
qed

lemma pr_change_tables:
  assumes "pr_change w action ch a key op db = Inr (p, db')"
  shows "rdb_store db' = rdb_store db" "rdb_messages db' = rdb_messages db" "rdb_grants db' = rdb_grants db"
proof -
  have "rdb_store db' = rdb_store db \<and> rdb_messages db' = rdb_messages db \<and> rdb_grants db' = rdb_grants db"
  proof (cases rule: pr_change_cases [OF assms])
    case (1 row db1)
    from 1(5) show ?thesis by (cases rule: pr_write_cases) (simp_all add: 1(1))
  qed
  then show "rdb_store db' = rdb_store db" "rdb_messages db' = rdb_messages db" "rdb_grants db' = rdb_grants db"
    by simp_all
qed

lemma relation_change_effect:
  assumes inv: "relations_inv (rdb_works db)" and c: "work_lookup (rdb_works db) (prl_work_id req) = Some c"
    and kind: "rp_kind (prl_patch req) \<noteq> K_assignee"
    and run: "relation_change E pr caller req c db = Inr (Related record db')"
  shows "relation_effect req db db'"
proof (cases "rp_kind (prl_patch req)")
  case K_parent
  have base: "forest (rdb_works db)" "work_keys (rdb_works db)"
    using inv relations_inv_keys by (simp_all add: relations_inv_def)
  from run K_parent obtain v works where "ended (set_parent (prl_work_id req) (rp_target_work_id (prl_patch req))
      (cw_row_version c) (rdb_works db)) = Inr (v, works)" and db': "db' = put_works works db"
    by (auto simp: relation_change_def Let_def bindE_eq_Inr)
  then have "set_parent (prl_work_id req) (rp_target_work_id (prl_patch req)) (cw_row_version c) (rdb_works db)
      = Some (Inr (v, works))"
    by (simp add: ended_def split: option.split_asm)
  from parent_effect [OF inv c K_parent this] db' show ?thesis by simp
next
  case K_dependency
  with run obtain t v works where "rp_target_work_id (prl_patch req) = Some t"
    "change_dependency (prl_work_id req) t (rp_action (prl_patch req) = A_add) (cw_row_version c) (rdb_works db)
      = Inr (v, works)" "db' = put_works works db"
    by (auto simp: relation_change_def Let_def bindE_eq_Inr split: option.split_asm)
  with dependency_effect [OF inv c K_dependency] show ?thesis by simp
next
  case K_placement
  with run obtain p v works where "rp_project_id (prl_patch req) = Some p"
    "change_project_membership (prl_work_id req) p (rp_action (prl_patch req) = A_add) (cw_row_version c)
      (rdb_works db) = Inr (v, works)" "db' = put_works works db"
    by (auto simp: relation_change_def Let_def bindE_eq_Inr split: option.split_asm if_split_asm)
  with placement_effect [OF inv c K_placement] show ?thesis by simp
next
  case K_pull_request
  with run obtain a change db1 where pr: "pr_change (prl_work_id req) (rp_action (prl_patch req)) change a (rte_pkey E pr)
      (prl_operation_id req) db = Inr (the record, db1)"
    and db': "db' = put_works (bump_version (prl_work_id req) (cw_row_version c + 1) (rdb_works db)) db1"
    by (auto simp: relation_change_def Let_def split: option.split_asm sum.split_asm pr_error.split_asm)
  have changes: "changes_relation req (rdb_works db)" using K_pull_request by (simp add: changes_relation_def)
  then have "work_lookup (rdb_works db') = relation_lookup req (rdb_works db)"
    by (simp add: db' relation_lookup_def bumped_lookup [OF c] fun_eq_iff)
  with pr_change_tables [OF pr] relations_inv_bump [OF inv c] K_pull_request changes show ?thesis
    by (simp add: db' relation_effect_def relation_parents_def)
qed (use kind in simp)

text \<open>
  The one change a relation write may make: the effect above, under a refusal check that passed,
  with the operation journalled.
\<close>

definition relation_written ::
  "runtime_env \<Rightarrow> principal \<Rightarrow> protected_relation \<Rightarrow> runtime_db \<Rightarrow> runtime_db \<Rightarrow> guard_outcome \<Rightarrow> bool" where
  "relation_written E pr req pre db' out =
     (\<exists>g c. work_lookup (rdb_works pre) (prl_work_id req) = Some c
        \<and> prl_observed_revision req
            = ''pg_'' @ rve_revision (rte_review E) (prl_work_id req) (cw_row_version c)
        \<and> relation_refusal E req g c pre = Inr None
        \<and> relation_effect req pre (db'\<lparr>rdb_grants := rdb_grants pre\<rparr>)
        \<and> uuid_str (prl_operation_id req) \<notin> set (map ei_operation_id (rdb_intents pre))
        \<and> gdb_grants (rdb_grants db') = gdb_grants (rdb_grants pre)
        \<and> rdb_intents db' = rdb_intents pre @ [relation_journal_row E pr req g out]
        \<and> go_effect out = Applied)"

lemma relation_guard_effect [simp]: "go_effect (relation_guard req st why False) = Not_sent"
  by (simp add: relation_guard_def)

lemma relation_refusal_effect:
  assumes "relation_refusal E req g c db = Inr (Some o')"
  shows "go_effect o' = Not_sent"
  using assms unfolding relation_refusal_def Let_def
  by (auto simp: bindE_eq_Inr split: if_split_asm option.split_asm)

lemma relation_change_refused:
  assumes "relation_change E pr caller req c db = Inr (Refused o')"
  shows "go_effect o' = Not_sent"
  using assms unfolding relation_change_def Let_def
  by (auto simp: bindE_eq_Inr split: relation_kind.split_asm option.split_asm sum.split_asm pr_error.split_asm
      if_split_asm)

abbreviation relation_journalled ::
  "runtime_env \<Rightarrow> principal \<Rightarrow> protected_relation \<Rightarrow> runtime_db \<Rightarrow> guard_outcome \<Rightarrow> bool" where
  "relation_journalled E pr req \<equiv> journalled (rte_pkey E pr) (relation_fp E pr req) (prl_operation_id req)"

lemma relation_target_simps [simp]:
  "wt_work_id (relation_target E pr req) = prl_work_id req"
  "wt_operation_id (relation_target E pr req) = prl_operation_id req"
  "wt_fingerprint (relation_target E pr req) = relation_fp E pr req"
  "wt_observed_revision (relation_target E pr req) = prl_observed_revision req"
  by (simp_all add: relation_target_def)

lemma relation_refusal_kind:
  "relation_refusal E req g c db = Inr None \<Longrightarrow> rp_kind (prl_patch req) \<noteq> K_assignee"
  by (auto simp: relation_refusal_def Let_def)

lemma relation_admitted_cases:
  assumes inv: "relations_inv (rdb_works db)" and adm: "write_admitted E now pr (relation_target E pr req) grant db g q c"
    and run: "relation_apply E caller pr req g q c db = Inr (out, db')"
  shows "db' = db \<and> go_effect out = Not_sent \<or> relation_written E pr req db db' out"
proof -
  note c = adm [unfolded write_admitted_def, simplified] and run = run [unfolded relation_apply_def]
  from run obtain refusal where ref: "relation_refusal E req g c db = Inr refusal"
    by (auto simp: bindE_eq_Inr)
  show ?thesis
  proof (cases refusal)
    case (Some o')
    with run ref relation_refusal_effect show ?thesis by auto
  next
    case None
    note ref = ref [unfolded None] and run = run [unfolded ref None bindE_simps option.case]
    from run obtain written where ch: "relation_change E pr caller req c db = Inr written"
      by (auto simp: bindE_eq_Inr)
    note run = run [unfolded ch bindE_simps]
    show ?thesis
    proof (cases written)
      case (Refused o')
      with run ch relation_change_refused show ?thesis by auto
    next
      case (Related r db1)
      note eff = relation_change_effect [OF inv _ relation_refusal_kind [OF ref] ch [unfolded Related]]
      from run Related have out: "out = relation_receipt_of pr req g q r"
        and jr: "journal_insert (relation_journal_row E pr req g out) db1 = Inr db'"
        by (auto simp: Let_def bindE_eq_Inr)
      have e: "relation_effect req db db1" using eff c by blast
      then have same: "rdb_grants db1 = rdb_grants db" by (simp add: relation_effect_def)
      have "go_effect out = Applied" by (simp add: out relation_receipt_of_def)
      then have "relation_written E pr req db db' out"
        using c ref e same journal_insert_Inr [OF jr] unfolding relation_written_def
        by (intro exI [of _ g] exI [of _ c]) (simp add: relation_effect_def)
      then show ?thesis by simp
    qed
  qed
qed

lemma relation_in_written:
  assumes inv: "relations_inv (rdb_works db)" and run: "relation_in E caller now pr req db = Inr (out, db')"
  shows "db' = db \<and> (go_effect out = Not_sent \<or> relation_journalled E pr req db out)
     \<or> relation_written E pr req db db' out"
proof -
  from run obtain grant adm where adm: "work_admission E now pr (relation_target E pr req) (relation_guard req) grant db
      = Inr adm"
    and rest: "(case adm of Inl o' \<Rightarrow> Inr (o', db) | Inr (g, q, c) \<Rightarrow> relation_apply E caller pr req g q c db)
      = Inr (out, db')"
    by (auto simp: relation_in_def bindE_eq_Inr)
  show ?thesis
  proof (cases rule: work_admission_cases [OF relations_inv_keys [OF inv] adm relation_guard_effect,
        case_names answered admitted])
    case (answered o')
    with rest show ?thesis by auto
  next
    case (admitted g q c)
    with rest relation_admitted_cases [OF inv admitted(2)] show ?thesis by auto
  qed
qed

interpretation relation_call: journalled_call "relation_handlers req" "\<lambda>now. relation_in E caller now pr req"
  "relation_journalled E pr req" "relation_written E pr req" "\<lambda>db. relations_inv (rdb_works db)"
  for E caller pr req
proof (unfold_locales, goal_cases)
  case (1 db now out db')
  then show ?case using relation_in_written by blast
next
  case (2 db db' out)
  then show ?case by (auto simp: relation_written_def journalled_def relation_journal_row_def)
next
  case (3 again e out)
  then show ?case by (auto simp: relation_handlers_def relation_guard_def split: if_split_asm)
next
  case (4 again e)
  then show ?case by (auto simp: relation_handlers_def split: if_split_asm)
qed

section \<open>Reviews\<close>

text \<open>A pending review of \<open>s\<close> at its current revision, held by the occurrence \<open>r\<close> below it.\<close>

definition review_pending :: "runtime_env \<Rightarrow> uuid \<Rightarrow> uuid \<Rightarrow> runtime_db \<Rightarrow> bool" where
  "review_pending E r s db =
     (parent_of (rdb_works db) r = Some s
      \<and> (\<exists>c. work_lookup (rdb_works db) s = Some c \<and> 1 \<le> cw_row_version c
           \<and> pending_review_id s (''pg_'' @ rve_revision (rte_review E) s (cw_row_version c)) (Some r)
               (rdb_works db) (rdb_messages db) \<noteq> None))"

lemma pending_review_iff:
  "pending_review_id s revision occurrence works msgs \<noteq> None \<longleftrightarrow>
     (\<exists>row \<in> set (cdb_works works). (row_id row, s) \<in> set (cdb_parents works)
        \<and> cw_work_type (wrow_work row) = Some ''REVIEW''
        \<and> (case occurrence of None \<Rightarrow> True | Some o' \<Rightarrow> row_id row = o')
        \<and> has_basis (row_id row) s revision msgs \<and> \<not> has_outcome (row_id row) s revision msgs)"
proof -
  have "(case sort ids of [] \<Rightarrow> None | i # _ \<Rightarrow> Some i) \<noteq> None \<longleftrightarrow> ids \<noteq> []" for ids :: "uuid list"
    by (cases "sort ids") (metis length_0_conv length_sort list.simps(4), metis list.simps(3,5) option.simps(3) sort_key_simps(1))
  then show ?thesis by (simp only: pending_review_id_def Let_def map_is_Nil_conv filter_empty_conv) blast
qed

lemma pending_occurrence:
  assumes "pending_review_id s revision (Some r) works msgs \<noteq> None" and "work_keys works"
  shows "\<exists>c. work_lookup works r = Some c \<and> cw_work_type c = Some ''REVIEW''"
    and "pending_review_id s revision None works msgs \<noteq> None"
proof -
  from assms(1) show "pending_review_id s revision None works msgs \<noteq> None"
    by (auto simp only: pending_review_iff option.case)
  from assms(1) obtain row where row: "row \<in> set (cdb_works works)" "row_id row = r"
    "cw_work_type (wrow_work row) = Some ''REVIEW''"
    by (auto simp only: pending_review_iff option.case)
  with find_distinct_key [of row_id "cdb_works works" row] assms(2)
  have "work_lookup works r = Some (wrow_work row)"
    by (simp add: work_lookup_def work_keys_def)
  with row(3) show "\<exists>c. work_lookup works r = Some c \<and> cw_work_type c = Some ''REVIEW''" by blast
qed

lemma written_keeps_review:
  assumes keys: "work_keys (rdb_works pre)" and wr: "relation_written E pr req pre db' out"
    and pend: "review_pending E r s pre"
  shows "parent_of (rdb_works db') r = Some s"
proof (rule ccontr)
  assume lost: "parent_of (rdb_works db') r \<noteq> Some s"
  from wr obtain g c where c: "work_lookup (rdb_works pre) (prl_work_id req) = Some c"
    and ref: "relation_refusal E req g c pre = Inr None"
    and par: "parent_of (rdb_works db') = relation_parents req (rdb_works pre)"
    by (auto simp: relation_written_def relation_effect_def)
  from pend obtain subj where s: "parent_of (rdb_works pre) r = Some s" "work_lookup (rdb_works pre) s = Some subj"
    "1 \<le> cw_row_version subj"
    and p: "pending_review_id s (''pg_'' @ rve_revision (rte_review E) s (cw_row_version subj)) (Some r)
        (rdb_works pre) (rdb_messages pre) \<noteq> None"
    by (auto simp: review_pending_def)
  from lost par s(1) have moved: "rp_kind (prl_patch req) = K_parent" "prl_work_id req = r"
    "rp_target_work_id (prl_patch req) \<noteq> Some s"
    by (auto simp: relation_parents_def split: if_split_asm)
  with pending_occurrence(1) [OF p keys] c have "cw_work_type c = Some ''REVIEW''" by simp
  with moved s p have "hides_review E req c pre = Inr True"
    by (auto simp: hides_review_def canonical_revision_def)
  with ref moved(1) show False by (simp add: relation_refusal_def)
qed

lemma written_respects_review:
  assumes keys: "work_keys (rdb_works pre)" and wr: "relation_written E pr req pre db' out"
    and pend: "review_pending E r (prl_work_id req) pre" and unconfirmed: "\<not> prl_confirm_cancels_review req"
  shows "work_lookup (rdb_works db') = work_lookup (rdb_works pre)"
proof -
  from wr obtain g c where c: "work_lookup (rdb_works pre) (prl_work_id req) = Some c"
    and rev: "prl_observed_revision req = ''pg_'' @ rve_revision (rte_review E) (prl_work_id req) (cw_row_version c)"
    and ref: "relation_refusal E req g c pre = Inr None"
    and look: "work_lookup (rdb_works db') = relation_lookup req (rdb_works pre)"
    by (auto simp: relation_written_def relation_effect_def)
  from pend c rev have "pending_review_id (prl_work_id req) (prl_observed_revision req) (Some r)
      (rdb_works pre) (rdb_messages pre) \<noteq> None"
    by (auto simp: review_pending_def)
  note some = pending_occurrence(2) [OF this keys]
  with ref unconfirmed some have "\<not> changes_relation req (rdb_works pre)"
    by (auto simp: relation_refusal_def Let_def bindE_eq_Inr split: if_split_asm option.split_asm)
  with look show ?thesis by (auto simp: relation_lookup_def)
qed

section \<open>Properties\<close>

text \<open>
  C15. A relation write of canonical work never hides or silently cancels a pending review, whatever
  faults its transactions meet and whatever others do between its two attempts: it leaves the state
  as it was or makes exactly one journalled change, in which the version of its work moves exactly
  when the relation changes; every review occurrence that was pending keeps its subject as parent;
  and without the confirmation flag a work with a pending review keeps its revision. Answers that
  report the effect as applied are journalled, and answers that report it as not sent changed
  nothing unless they replay a journalled outcome.
\<close>

theorem canonical_relation_safe:
  assumes "relations_inv (rdb_works db)" and "relations_inv (rdb_works (between db))"
    and "canonical_relate E caller pr req first between second db = (Inr out, db')"
  shows "(\<exists>pre \<in> {db, between db}. (db' = pre \<or> (\<exists>o'. relation_written E pr req pre db' o'))
       \<and> (\<forall>r s. review_pending E r s pre \<longrightarrow> parent_of (rdb_works db') r = Some s)
       \<and> (\<forall>r. review_pending E r (prl_work_id req) pre \<longrightarrow> \<not> prl_confirm_cancels_review req
            \<longrightarrow> work_lookup (rdb_works db') = work_lookup (rdb_works pre)))
     \<and> (go_effect out = Applied \<longrightarrow> relation_journalled E pr req db' out)
     \<and> (go_effect out = Not_sent \<longrightarrow> db' \<in> {db, between db} \<or> relation_journalled E pr req db' out)"
proof -
  note call = relation_call.call_truthful [OF assms(1,2) assms(3) [unfolded canonical_relate_def]]
  then obtain pre where pre: "pre \<in> {db, between db}" "db' = pre \<or> (\<exists>o'. relation_written E pr req pre db' o')"
    by blast
  then have keys: "work_keys (rdb_works pre)" using assms(1,2) relations_inv_keys by blast
  have "\<forall>r s. review_pending E r s pre \<longrightarrow> parent_of (rdb_works db') r = Some s"
    using pre(2) written_keeps_review [OF keys] by (auto simp: review_pending_def)
  moreover have "\<forall>r. review_pending E r (prl_work_id req) pre \<longrightarrow> \<not> prl_confirm_cancels_review req
      \<longrightarrow> work_lookup (rdb_works db') = work_lookup (rdb_works pre)"
    using pre(2) written_respects_review [OF keys] by blast
  ultimately show ?thesis using pre call by blast
qed

text \<open>A work under review that gains a dependency, with the cancellation confirmed.\<close>

definition demo_rel_works :: canon_db where
  "demo_rel_works = demo_canon\<lparr>cdb_works := [
       \<lparr>wrow_work = demo_current 10 ''a'', wrow_normalized_title = ''a''\<rparr>,
       \<lparr>wrow_work = (demo_current 11 ''b'')\<lparr>cw_work_type := Some ''REVIEW''\<rparr>, wrow_normalized_title = ''b''\<rparr>],
     cdb_parents := [(11, 10)]\<rparr>"

definition demo_basis :: message_row where
  "demo_basis = \<lparr>msg_sender_work_id = 10, msg_message_id = 3, msg_route_ref = ''review.request'',
     msg_kind = ''request'', msg_payload = JObj [(''brief'', JObj [(''basis'', JObj [
       (''review_id'', JStr (uuid_str 11)), (''subject_work_id'', JStr (uuid_str 10)),
       (''subject_revision'', JStr ''pg_a'')])])], msg_digest = [], msg_in_reply_to = None, msg_created_at = 0\<rparr>"

definition demo_rel_env :: runtime_env where
  "demo_rel_env = \<lparr>rte_pkey = (\<lambda>_. ''k''), rte_digest = (\<lambda>_. ''f''), rte_raw_digest = (\<lambda>_. ''f''),
     rte_create_id = (\<lambda>_. 12),
     rte_parse_create = (\<lambda>_. Inl ValidationError), rte_float = (\<lambda>_. ''1''), rte_casefold = id,
     rte_review = demo_review_env\<rparr>"

definition demo_rel_db :: runtime_db where
  "demo_rel_db = \<lparr>rdb_grants = \<lparr>gdb_grants = [(''k'', Some demo_grant)], gdb_intents = []\<rparr>,
     rdb_store = review_start demo_rel_works, rdb_handles = [], rdb_prs = [], rdb_pr_links = [],
     rdb_messages = [demo_basis], rdb_deliveries = [], rdb_mailboxes = [], rdb_transfers = [], rdb_receipts = []\<rparr>"

definition demo_rel_req :: protected_relation where
  "demo_rel_req = \<lparr>prl_operation_id = 7, prl_work_id = 10, prl_grant_version = 1,
     prl_observed_revision = ''pg_a'',
     prl_patch = \<lparr>rp_kind = K_dependency, rp_action = A_add, rp_target_work_id = Some 11,
       rp_project_id = None, rp_assignee_gid = None, rp_project_gid = None, rp_section_gid = None,
       rp_pull_request = None\<rparr>,
     prl_confirm_cancels_review = True\<rparr>"

lemma demo_rel_inv: "relations_inv (rdb_works demo_rel_db)"
  by (simp add: relations_inv_def forest_def demo_rel_db_def demo_rel_works_def demo_canon_def demo_current_def
      work_exists_def work_keys_def events_inv_def events_of_def acyclic_empty)

lemma demo_rel_pending: "review_pending demo_rel_env 11 10 demo_rel_db"
  by (simp add: review_pending_def pending_review_id_def has_basis_def has_outcome_def path_text_def demo_rel_db_def
      demo_rel_works_def demo_canon_def demo_current_def demo_rel_env_def demo_review_env_def demo_basis_def
      parent_of_def work_lookup_def)

lemma demo_rel_admitted:
  "work_admission demo_rel_env 0 demo_principal (relation_target demo_rel_env demo_principal demo_rel_req)
     (relation_guard demo_rel_req) (Some demo_grant) demo_rel_db
     = Inr (Inr (demo_grant, ''real:r'', demo_current 10 ''a''))"
  by (simp add: work_admission_def relation_target_def demo_rel_env_def demo_rel_db_def demo_rel_works_def
      demo_rel_req_def demo_grant_def demo_principal_def work_get_row_def demo_current_def demo_canon_def
      grant_current_def grant_can_write_def starts_with_def canonical_revision_def demo_review_env_def
      journal_reply_def grant_reply_def blocked_reply_def)

lemma demo_rel_run:
  "\<exists>out db'. relation_in demo_rel_env None 0 demo_principal demo_rel_req demo_rel_db = Inr (out, db')
     \<and> go_effect out = Applied"
proof -
  have grant: "gs_current (rte_pkey demo_rel_env demo_principal) (rdb_grants demo_rel_db) = Inr (Some demo_grant)"
    by (simp add: gs_current_def demo_rel_env_def demo_rel_db_def read_grant_def valid_grant_def demo_grant_def
        demo_principal_def valid_principal_def bounded_authority_def opt_min1_def)
  have "relation_refusal demo_rel_env demo_rel_req demo_grant (demo_current 10 ''a'') demo_rel_db = Inr None"
    by (simp add: relation_refusal_def hides_review_def demo_rel_req_def demo_grant_def grant_can_read_def
        authority_can_read_def)
  moreover have "\<exists>works. relation_change demo_rel_env demo_principal None demo_rel_req (demo_current 10 ''a'') demo_rel_db
      = Inr (Related None (put_works works demo_rel_db))"
    by (simp add: relation_change_def demo_rel_req_def change_dependency_def locked_version_def work_get_row_def
        demo_rel_db_def demo_rel_works_def demo_canon_def demo_current_def work_exists_def)
       (rule exI, rule refl)
  ultimately have "\<exists>out db'. relation_apply demo_rel_env None demo_principal demo_rel_req demo_grant ''real:r''
      (demo_current 10 ''a'') demo_rel_db = Inr (out, db') \<and> go_effect out = Applied"
    by (auto simp: relation_apply_def Let_def journal_insert_def relation_receipt_of_def demo_rel_db_def)
  with grant demo_rel_admitted show ?thesis by (simp add: relation_in_def)
qed

theorem canonical_relation_safe_witness:
  "\<exists>out db'. canonical_relate demo_rel_env None demo_principal demo_rel_req (0, Commits) (\<lambda>db. db) (0, Commits)
       demo_rel_db = (Inr out, db')
     \<and> relation_journalled demo_rel_env demo_principal demo_rel_req db' out
     \<and> parent_of (rdb_works db') 11 = Some 10"
proof -
  obtain out db' where run: "relation_in demo_rel_env None 0 demo_principal demo_rel_req demo_rel_db = Inr (out, db')"
    and ok: "go_effect out = Applied" using demo_rel_run by blast
  then have call: "canonical_relate demo_rel_env None demo_principal demo_rel_req (0, Commits) (\<lambda>db. db) (0, Commits)
       demo_rel_db = (Inr out, db')"
    by (simp add: canonical_relate_def two_attempts_def in_transaction_def)
  from canonical_relation_safe [OF demo_rel_inv demo_rel_inv call] ok demo_rel_pending call show ?thesis by blast
qed

end
