(* ===== verification/Canonical_Runtime.thy ===== *)
theory Canonical_Runtime
  imports Canonical_Append Canonical_Create Canonical_Feedback Canonical_Relation
begin

text \<open>
  The protected writes of canonical work composed: updates, relation writes, appends, creates and
  feedback classifications are one kind of call, and all of them share the tables with reviews,
  grants, messages and other writers. The promises below hold for every call and survive every
  interleaving.
\<close>

section \<open>Calls\<close>

datatype canonical_call =
    Do_update protected_update
  | Do_relation "agent_mailbox option" protected_relation
  | Do_append uuid py_datetime protected_append
  | Do_feedback string "string set" protected_feedback
  | Do_create py_datetime grant_operation "work_grant \<Rightarrow> string option" protected_create

fun call_operation :: "canonical_call \<Rightarrow> uuid" where
  "call_operation (Do_update req) = pu_operation_id req"
| "call_operation (Do_relation caller req) = prl_operation_id req"
| "call_operation (Do_append new stamp req) = pa_operation_id req"
| "call_operation (Do_feedback source_type types req) = pf_operation_id req"
| "call_operation (Do_create stamp operation qf req) = pc_operation_id req"

fun call_valid :: "canonical_call \<Rightarrow> bool" where
  "call_valid (Do_feedback source_type types req) = valid_protected_feedback req"
| "call_valid _ = True"

fun call_body ::
  "runtime_env \<Rightarrow> principal \<Rightarrow> canonical_call \<Rightarrow> int \<Rightarrow> runtime_db \<Rightarrow> (guard_outcome \<times> runtime_db) py_result" where
  "call_body E pr (Do_update req) now = update_in E now pr req"
| "call_body E pr (Do_relation caller req) now = relation_in E caller now pr req"
| "call_body E pr (Do_append new stamp req) now = append_in E new stamp pr req now"
| "call_body E pr (Do_feedback source_type types req) now = feedback_in E pr req source_type types now"
| "call_body E pr (Do_create stamp operation qf req) now = create_in E stamp pr req operation qf now"

text \<open>Appends and classifications answer every exception at once; the others retry a conflict.\<close>

fun call_handlers :: "runtime_env \<Rightarrow> canonical_call \<Rightarrow> bool \<Rightarrow> py_error \<Rightarrow> guard_outcome py_result option" where
  "call_handlers E (Do_update req) again e = update_handlers req again e"
| "call_handlers E (Do_relation caller req) again e = relation_handlers req again e"
| "call_handlers E (Do_append new stamp req) again e = Some (append_handlers req e)"
| "call_handlers E (Do_feedback source_type types req) again e = Some (feedback_handlers req e)"
| "call_handlers E (Do_create stamp operation qf req) again e = create_handlers E req again e"

definition run_canonical ::
  "runtime_env \<Rightarrow> principal \<Rightarrow> canonical_call \<Rightarrow> int \<times> txn_end \<Rightarrow> (runtime_db \<Rightarrow> runtime_db) \<Rightarrow> int \<times> txn_end
     \<Rightarrow> runtime_db \<Rightarrow> guard_outcome py_result \<times> runtime_db" where
  "run_canonical E pr call = two_attempts (call_handlers E call) (call_body E pr call)"

lemma two_attempts_once: "two_attempts (\<lambda>_ e. Some (h e)) body first between second = one_attempt h body first"
  by (auto simp: two_attempts_def one_attempt_def fun_eq_iff split: sum.splits prod.splits)

text \<open>The five entry points are runs of this one function.\<close>

lemma run_canonical_calls:
  "run_canonical E pr (Do_update req) = canonical_update E pr req"
  "run_canonical E pr (Do_relation caller rq) = canonical_relate E caller pr rq"
  "run_canonical E pr (Do_append new stamp ra) first between second = canonical_append E new stamp pr ra first"
  "run_canonical E pr (Do_feedback st types rf) first between second = canonical_feedback E pr rf st types first"
  "run_canonical E pr (Do_create stamp operation qf rc) = canonical_create E stamp pr rc operation qf"
proof -
  have h: "call_handlers E (Do_append new stamp ra) = (\<lambda>_ e. Some (append_handlers ra e))"
    "call_handlers E (Do_feedback st types rf) = (\<lambda>_ e. Some (feedback_handlers rf e))"
    "call_handlers E (Do_update req) = update_handlers req"
    "call_handlers E (Do_relation caller rq) = relation_handlers rq"
    "call_handlers E (Do_create stamp operation qf rc) = create_handlers E rc"
    by (simp_all add: fun_eq_iff)
  have b: "call_body E pr (Do_append new stamp ra) = append_in E new stamp pr ra"
    "call_body E pr (Do_feedback st types rf) = feedback_in E pr rf st types"
    "call_body E pr (Do_update req) = (\<lambda>now. update_in E now pr req)"
    "call_body E pr (Do_relation caller rq) = (\<lambda>now. relation_in E caller now pr rq)"
    "call_body E pr (Do_create stamp operation qf rc) = create_in E stamp pr rc operation qf"
    by (simp_all add: fun_eq_iff)
  show "run_canonical E pr (Do_update req) = canonical_update E pr req"
    "run_canonical E pr (Do_relation caller rq) = canonical_relate E caller pr rq"
    "run_canonical E pr (Do_append new stamp ra) first between second = canonical_append E new stamp pr ra first"
    "run_canonical E pr (Do_feedback st types rf) first between second = canonical_feedback E pr rf st types first"
    "run_canonical E pr (Do_create stamp operation qf rc) = canonical_create E stamp pr rc operation qf"
    by (simp_all add: run_canonical_def h b two_attempts_once canonical_update_def canonical_relate_def
        canonical_append_def canonical_feedback_def canonical_create_def fun_eq_iff)
qed

fun call_answered :: "runtime_env \<Rightarrow> principal \<Rightarrow> canonical_call \<Rightarrow> runtime_db \<Rightarrow> guard_outcome \<Rightarrow> bool" where
  "call_answered E pr (Do_update req) = update_journalled E pr req"
| "call_answered E pr (Do_relation caller req) = relation_journalled E pr req"
| "call_answered E pr (Do_append new stamp req) = append_journalled E pr req"
| "call_answered E pr (Do_feedback source_type types req) = feedback_journalled E pr req"
| "call_answered E pr (Do_create stamp operation qf req) = create_answered E pr req"

fun call_wrote ::
  "runtime_env \<Rightarrow> principal \<Rightarrow> canonical_call \<Rightarrow> runtime_db \<Rightarrow> runtime_db \<Rightarrow> guard_outcome \<Rightarrow> bool" where
  "call_wrote E pr (Do_update req) = update_written E pr req"
| "call_wrote E pr (Do_relation caller req) = relation_written E pr req"
| "call_wrote E pr (Do_append new stamp req) = append_written E pr req"
| "call_wrote E pr (Do_feedback source_type types req) = feedback_written E pr req"
| "call_wrote E pr (Do_create stamp operation qf req) = create_written E stamp pr req"

abbreviation call_sane :: "canonical_call \<Rightarrow> runtime_db \<Rightarrow> bool" where
  "call_sane call db \<equiv> relations_inv (rdb_works db) \<and> call_valid call"

interpretation canonical: journalled_call "call_handlers E call" "call_body E pr call" "call_answered E pr call"
  "call_wrote E pr call" "call_sane call" for E pr call
proof (unfold_locales, goal_cases)
  case (1 db now out db')
  then have inv: "relations_inv (rdb_works db)" "call_valid call" by simp_all
  note keys = relations_inv_keys [OF inv(1)]
  from 1 inv show ?case
    by (cases call) (use update_in_written [OF keys] relation_in_written [OF inv(1)] append_in_written [OF inv(1)]
      feedback_in_written [OF inv(1)] create_in_written [OF inv(1)] in simp_all)
next
  case (2 db db' out)
  then show ?case
    by (cases call) (simp_all add: update_call.wrote_answered relation_call.wrote_answered append_call.wrote_answered
        feedback_call.wrote_answered create_call.wrote_answered)
next
  case (3 again e out)
  then show ?case
    by (cases call) (auto dest: update_call.handled relation_call.handled create_call.handled
        append_call.handled [simplified] feedback_call.handled [simplified])
next
  case (4 again e)
  then show ?case
    by (cases call) (auto dest: update_call.retried relation_call.retried create_call.retried)
qed

text \<open>Whatever the call, its one change appends its own journal row under a fresh operation id.\<close>

lemma call_wrote_journal:
  assumes "call_wrote E pr call pre db' out"
  obtains row where "rdb_intents db' = rdb_intents pre @ [row]" "ei_operation_id row = uuid_str (call_operation call)"
    "ei_principal_key row = rte_pkey E pr" "ei_outcome row = out"
    "uuid_str (call_operation call) \<notin> set (map ei_operation_id (rdb_intents pre))"
    "gdb_grants (rdb_grants db') = gdb_grants (rdb_grants pre)"
proof (cases call)
  case Do_update
  with assms that show thesis by (auto simp: update_written_def)
next
  case Do_relation
  with assms that show thesis by (auto simp: relation_written_def relation_journal_row_def)
next
  case Do_append
  with assms that show thesis by (auto simp: append_written_def append_journal_row_def)
next
  case Do_feedback
  with assms that show thesis by (auto simp: feedback_written_def feedback_journal_row_def)
next
  case Do_create
  with assms that show thesis by (auto simp: create_written_def create_journal_row_def Let_def)
qed

section \<open>Sound writes\<close>

text \<open>
  What every write of works promises: rows only advance, the events and relations of a work change
  only with its version, the relation tables stay well formed, notes change only within the bound of the approved task text, and no coherent work becomes
  incoherent or is created so.
\<close>

definition sound_write :: "runtime_env \<Rightarrow> runtime_db \<Rightarrow> runtime_db \<Rightarrow> bool" where
  "sound_write E db db' =
     (rdb_store db' = (rdb_store db)\<lparr>rv_works := rdb_works db'\<rparr>
      \<and> canon_advances (rdb_works db) (rdb_works db') \<and> relations_inv (rdb_works db')
      \<and> (\<forall>w c. work_lookup (rdb_works db) w = Some c \<longrightarrow> work_lookup (rdb_works db') w = Some c
           \<longrightarrow> work_links w (rdb_works db') = work_links w (rdb_works db))
      \<and> (\<forall>w c'. work_lookup (rdb_works db') w = Some c' \<longrightarrow>
           (\<exists>c. work_lookup (rdb_works db) w = Some c \<and> cw_notes c' = cw_notes c)
           \<or> agent_notes_fit (rte_review E) w (cw_notes c') (rdb_reviews db) = Inr True)
      \<and> (\<forall>w c'. work_lookup (rdb_works db') w = Some c' \<longrightarrow> coherent_state (semantic_of c')
           \<or> (\<exists>c. work_lookup (rdb_works db) w = Some c \<and> \<not> coherent_state (semantic_of c))))"

lemma semantic_of_version [simp]: "semantic_of (c\<lparr>cw_row_version := v\<rparr>) = semantic_of c"
  by (simp add: semantic_of_def)

lemma store_works:
  "rdb_reviews db' = rdb_reviews db \<Longrightarrow> rdb_store db' = (rdb_store db)\<lparr>rv_works := rdb_works db'\<rparr>"
  by (auto intro!: review_store.equality)

lemma bumped_differs: "c \<noteq> c\<lparr>cw_row_version := cw_row_version c + 1\<rparr>"
proof
  assume "c = c\<lparr>cw_row_version := cw_row_version c + 1\<rparr>"
  from arg_cong [OF this, of cw_row_version] show False by simp
qed

text \<open>A write that moves versions only is sound.\<close>

lemma version_write_sound:
  assumes "relations_inv (rdb_works db')" and "rdb_reviews db' = rdb_reviews db"
    and "\<And>u. work_lookup (rdb_works db') u = work_lookup (rdb_works db) u
           \<or> work_lookup (rdb_works db') u
               = map_option (\<lambda>c. c\<lparr>cw_row_version := cw_row_version c + 1\<rparr>) (work_lookup (rdb_works db) u)"
    and "\<And>u c. work_lookup (rdb_works db) u = Some c \<Longrightarrow> work_lookup (rdb_works db') u = Some c
           \<Longrightarrow> work_links u (rdb_works db') = work_links u (rdb_works db)"
  shows "sound_write E db db'"
proof -
  have row: "\<exists>c. work_lookup (rdb_works db) w = Some c \<and> (c' = c \<or> c' = c\<lparr>cw_row_version := cw_row_version c + 1\<rparr>)"
    if "work_lookup (rdb_works db') w = Some c'" for w c'
    using assms(3) [of w] that by (cases "work_lookup (rdb_works db) w") auto
  have kept: "\<exists>c'. work_lookup (rdb_works db') w = Some c' \<and> (c' = c \<or> cw_row_version c < cw_row_version c')"
    if "work_lookup (rdb_works db) w = Some c" for w c
    using assms(3) [of w] that by auto
  have "canon_advances (rdb_works db) (rdb_works db')"
    using relations_inv_keys [OF assms(1)] kept by (auto simp: canon_advances_def)
  with assms(1) assms(4) store_works [OF assms(2)] show ?thesis
    unfolding sound_write_def by (auto dest!: row)
qed

lemma advances_exists:
  assumes "canon_advances works works'" and "work_exists w works"
  shows "work_exists w works'"
proof -
  from assms(2) obtain c where "work_lookup works w = Some c"
    by (fastforce simp: work_exists_def work_lookup_def find_None_iff)
  with assms(1) obtain c' where "work_lookup works' w = Some c'" by (auto simp: canon_advances_def)
  then show ?thesis by (rule work_exists_lookup)
qed

lemma update_sound:
  assumes wr: "update_written E pr req db db' out" and inv: "relations_inv (rdb_works db)"
  shows "sound_write E db db'"
proof -
  from wr obtain c vals rows where w: "work_lookup (rdb_works db) (pu_work_id req) = Some c"
    "candidate_refusal E req c vals db = Inr None" "rdb_reviews db' = rdb_reviews db"
    "work_lookup (rdb_works db') (pu_work_id req) = Some ((candidate_of c vals)\<lparr>cw_row_version := cw_row_version c + 1\<rparr>)"
    "\<forall>w. w \<noteq> pu_work_id req \<longrightarrow> work_lookup (rdb_works db') w = work_lookup (rdb_works db) w"
    and rows: "rdb_works db' = (rdb_works db)\<lparr>cdb_works := rows\<rparr>"
    by (auto simp: update_written_def)
  note adv = written_advances [OF wr]
  have "events_inv (rdb_works db')"
    by (rule events_inv_mono [of "rdb_works db"])
      (use inv adv in \<open>auto simp: relations_inv_def canon_advances_def rows\<close>, force)
  with inv advances_exists [OF adv] have "relations_inv (rdb_works db')"
    by (auto simp: relations_inv_def forest_def rows)
  moreover have "(\<exists>c. work_lookup (rdb_works db) u = Some c \<and> cw_notes c' = cw_notes c)
      \<or> agent_notes_fit (rte_review E) u (cw_notes c') (rdb_reviews db) = Inr True"
    if "work_lookup (rdb_works db') u = Some c'" for u c'
    using that w candidate_accepted(1) [OF w(2)] work_lookup_id [OF w(1)] by (cases "u = pu_work_id req") auto
  moreover have "coherent_state (semantic_of c')
      \<or> (\<exists>c. work_lookup (rdb_works db) u = Some c \<and> \<not> coherent_state (semantic_of c))"
    if "work_lookup (rdb_works db') u = Some c'" for u c'
    using that w candidate_coherent [OF w(2)] by (cases "u = pu_work_id req") auto
  moreover have "work_links u (rdb_works db') = work_links u (rdb_works db)" for u by (simp add: rows)
  ultimately show ?thesis using adv written_store [OF wr] by (simp add: sound_write_def)
qed

lemma relation_sound:
  assumes "relation_written E pr req db db' out"
  shows "sound_write E db db'"
proof (rule version_write_sound)
  show "relations_inv (rdb_works db')" "rdb_reviews db' = rdb_reviews db"
    using assms by (auto simp: relation_written_def relation_effect_def)
  fix u
  have look: "work_lookup (rdb_works db') = relation_lookup req (rdb_works db)"
    using assms by (auto simp: relation_written_def relation_effect_def)
  have lnk: "(u \<noteq> prl_work_id req \<longrightarrow> work_links u (rdb_works db') = work_links u (rdb_works db))
      \<and> (\<not> changes_relation req (rdb_works db) \<longrightarrow> rdb_works db' = rdb_works db)"
    using assms by (auto simp: relation_written_def relation_effect_def)
  show "work_links u (rdb_works db') = work_links u (rdb_works db)"
    if "work_lookup (rdb_works db) u = Some c" "work_lookup (rdb_works db') u = Some c" for c
    using that lnk bumped_differs [of c] by (cases "u = prl_work_id req \<and> changes_relation req (rdb_works db)")
      (auto simp: look relation_lookup_def)
  from look show "work_lookup (rdb_works db') u = work_lookup (rdb_works db) u
     \<or> work_lookup (rdb_works db') u
         = map_option (\<lambda>c. c\<lparr>cw_row_version := cw_row_version c + 1\<rparr>) (work_lookup (rdb_works db) u)"
    by (simp add: relation_lookup_def)
qed

lemma append_sound:
  assumes "append_written E pr req db db' out"
  shows "sound_write E db db'"
proof (rule version_write_sound)
  have eff: "append_effect req (rdb_works db) (rdb_works db')" using assms by (auto simp: append_written_def)
  then show "relations_inv (rdb_works db')" by (simp add: append_effect_def)
  show "rdb_reviews db' = rdb_reviews db" using assms by (auto simp: append_written_def)
  fix u
  show "work_links u (rdb_works db') = work_links u (rdb_works db)"
    if "work_lookup (rdb_works db) u = Some c" "work_lookup (rdb_works db') u = Some c" for c
    using that eff bumped_differs [of c] by (cases "u = pa_work_id req") (auto simp: append_effect_def)
  from eff show "work_lookup (rdb_works db') u = work_lookup (rdb_works db) u
     \<or> work_lookup (rdb_works db') u
         = map_option (\<lambda>c. c\<lparr>cw_row_version := cw_row_version c + 1\<rparr>) (work_lookup (rdb_works db) u)"
    unfolding append_effect_def by auto
qed

text \<open>Closing clears the waits and the action, so a classified work is as coherent as it was.\<close>

lemma classified_coherent:
  assumes "coherent_state (semantic_of c)" and "\<not> cw_completed c"
  shows "coherent_state (semantic_of (classified k n c))"
proof (cases "closes_source k")
  case True
  with assms(1) show ?thesis
    by (simp add: classified_def semantic_of_def coherent_state_def coherent_actions_def coherent_waits_def
        coherent_completion_def lifecycle_states_def)
next
  case False
  with assms(2) have "semantic_of (classified k n c) = semantic_of c"
    by (simp add: classified_def semantic_of_def)
  with assms(1) show ?thesis by simp
qed

lemma notes_accepted:
  assumes "notes_refusal E req source target db = Inr None"
  shows "agent_notes_fit (rte_review E) (cw_work_id source) (source_notes E req source target) (rdb_reviews db) = Inr True"
    and "target = Some t \<Longrightarrow> target_notes req source target = Some n \<Longrightarrow>
       agent_notes_fit (rte_review E) (cw_work_id t) n (rdb_reviews db) = Inr True"
  using assms by (auto simp: notes_refusal_def Let_def bindE_eq_Inr split: if_split_asm option.split_asm)

lemma feedback_sound:
  assumes wr: "feedback_written E pr req db db' out"
  shows "sound_write E db db'"
proof -
  from wr obtain source target v where subj: "feedback_subject req source target (rdb_works db)"
    and src: "\<not> cw_completed source" and fit: "notes_refusal E req source target db = Inr None"
    and rev: "rdb_reviews db' = rdb_reviews db" and inv': "relations_inv (rdb_works db')"
    and v: "cw_row_version source < v"
    and lnk: "\<forall>u. u \<noteq> cw_work_id source \<longrightarrow> work_links u (rdb_works db') = work_links u (rdb_works db)"
    and look: "work_lookup (rdb_works db') = (\<lambda>u. if u = cw_work_id source
        then Some ((classified (pf_classification req) (source_notes E req source target) source)\<lparr>cw_row_version := v\<rparr>)
        else amended_lookup req source target (rdb_works db) u)"
    by (auto simp: feedback_written_def feedback_effect_def)
  have s: "work_lookup (rdb_works db) (cw_work_id source) = Some source"
    using subj work_lookup_id by (auto simp: feedback_subject_def)
  have t: "work_lookup (rdb_works db) (cw_work_id t) = Some t" if "target = Some t" for t
    using subj that work_lookup_id by (cases "pf_target_work_id req") (auto simp: feedback_subject_def)
  let ?s = "classified (pf_classification req) (source_notes E req source target) source"
  have rows: "u = cw_work_id source \<and> c' = ?s\<lparr>cw_row_version := v\<rparr>
      \<or> (\<exists>t n. target = Some t \<and> target_notes req source target = Some n \<and> u = cw_work_id t
           \<and> c' = t\<lparr>cw_notes := n, cw_row_version := cw_row_version t + 1\<rparr>)
      \<or> work_lookup (rdb_works db) u = Some c'"
    if "work_lookup (rdb_works db') u = Some c'" for u c'
    using that by (auto simp: look amended_lookup_def split: if_split_asm option.split_asm)
  have "\<exists>c'. work_lookup (rdb_works db') u = Some c' \<and> (c' = c \<or> cw_row_version c < cw_row_version c')"
    if "work_lookup (rdb_works db) u = Some c" for u c
  proof (cases "u = cw_work_id source")
    case True
    with that s v show ?thesis by (simp add: look)
  next
    case False
    then have row: "work_lookup (rdb_works db') u = amended_lookup req source target (rdb_works db) u"
      by (simp add: look)
    show ?thesis
    proof (cases "\<exists>t n. target = Some t \<and> target_notes req source target = Some n \<and> u = cw_work_id t")
      case True
      then obtain t' n where "target = Some t'" "target_notes req source (Some t') = Some n" "u = cw_work_id t'"
        by blast
      with row that t show ?thesis by (simp add: amended_lookup_def)
    next
      case False
      with row that show ?thesis by (auto simp: amended_lookup_def split: option.split)
    qed
  qed
  then have "canon_advances (rdb_works db) (rdb_works db')"
    using relations_inv_keys [OF inv'] by (auto simp: canon_advances_def)
  moreover have "(\<exists>c. work_lookup (rdb_works db) u = Some c \<and> cw_notes c' = cw_notes c)
      \<or> agent_notes_fit (rte_review E) u (cw_notes c') (rdb_reviews db) = Inr True"
    if "work_lookup (rdb_works db') u = Some c'" for u c'
    using rows [OF that] notes_accepted [OF fit] by auto
  moreover have "coherent_state (semantic_of c')
      \<or> (\<exists>c. work_lookup (rdb_works db) u = Some c \<and> \<not> coherent_state (semantic_of c))"
    if "work_lookup (rdb_works db') u = Some c'" for u c'
  proof -
    have renoted: "semantic_of (x\<lparr>cw_notes := n, cw_row_version := m\<rparr>) = semantic_of x" for x n m
      by (simp add: semantic_of_def)
    from rows [OF that] consider "u = cw_work_id source" "c' = ?s\<lparr>cw_row_version := v\<rparr>"
      | t n where "target = Some t" "u = cw_work_id t" "c' = t\<lparr>cw_notes := n, cw_row_version := cw_row_version t + 1\<rparr>"
      | "work_lookup (rdb_works db) u = Some c'" by blast
    then show ?thesis
    proof cases
      case 1
      with s classified_coherent [OF _ src] show ?thesis by auto
    next
      case 2
      with t renoted show ?thesis by simp
    qed simp
  qed
  moreover have "work_links u (rdb_works db') = work_links u (rdb_works db)"
    if "work_lookup (rdb_works db) u = Some c" "work_lookup (rdb_works db') u = Some c" for u c
  proof (cases "u = cw_work_id source")
    case True
    with that s have "cw_row_version source = v" by (simp add: look) (metis current_work.select_convs(5) current_work.surjective current_work.update_convs(5))
    with v show ?thesis by simp
  qed (use lnk in simp)
  ultimately show ?thesis using store_works [OF rev] inv' by (simp add: sound_write_def)
qed

lemma create_accepted:
  assumes "create_refusal E req c db = Inr None"
  shows "agent_notes_fit (rte_review E) (cw_work_id c) (cw_notes c) (rdb_reviews db) = Inr True"
    and "validate_create_state (pc_parent_work_id req \<noteq> None) (cw_work_type c) (semantic_of c) = Inr ()"
  using assms unfolding create_refusal_def Let_def
  by (auto simp: bindE_eq_Inr split: if_split_asm option.split_asm sum.split_asm)

lemma created_coherent:
  assumes "validate_create_state parented k s = Inr ()" and "ss_completed s = Some False"
  shows "coherent_state s"
proof -
  from assms(1) have v: "validate_resultant_state SEMANTIC_FIELDS (s\<lparr>ss_completed := None\<rparr>) = Inr ()"
    and l: "ss_lifecycle_state s \<noteq> Some ''TERMINAL''"
    unfolding validate_create_state_def bindE_eq_Inr if_raise
    by (auto simp: capture_shape_def split: if_split_asm)
  have same: "coherent_actions (s\<lparr>ss_completed := None\<rparr>) = coherent_actions s"
    "coherent_waits (s\<lparr>ss_completed := None\<rparr>) = coherent_waits s"
    by (auto simp: coherent_actions_def coherent_waits_def split: option.split)
  from v have "coherent_state (s\<lparr>ss_completed := None\<rparr>)"
    by (simp add: validate_iff coherent_for_def coherent_state_def SEMANTIC_FIELDS_def)
  with l assms(2) same show ?thesis by (simp add: coherent_state_def coherent_completion_def)
qed

lemma create_sound:
  assumes wr: "create_written E stamp pr req db db' out"
  shows "sound_write E db db'"
proof -
  from wr obtain base where ref: "create_refusal E req (created_work E req base) db = Inr None"
    and eff: "create_effect E stamp req (created_work E req base) (rdb_works db) (rdb_works db')"
    and rev: "rdb_reviews db' = rdb_reviews db"
    by (auto simp: create_written_def Let_def)
  let ?c = "created_work E req base"
  have c: "semantic_of (?c\<lparr>cw_admitted_at := a\<rparr>) = semantic_of ?c" for a by (simp add: semantic_of_def)
  have "ss_completed (semantic_of ?c) = Some False" by (simp add: semantic_of_def created_work_def)
  from created_coherent [OF create_accepted(2) [OF ref] this] have coh: "coherent_state (semantic_of ?c)" .
  have inv': "relations_inv (rdb_works db')" and none: "work_lookup (rdb_works db) (cw_work_id ?c) = None"
    and look: "work_lookup (rdb_works db') = (work_lookup (rdb_works db))(cw_work_id ?c \<mapsto> ?c\<lparr>cw_admitted_at := Some stamp\<rparr>)"
    using eff by (auto simp: create_effect_def)
  have "\<forall>u. u \<noteq> cw_work_id ?c \<longrightarrow> work_links u (rdb_works db') = work_links u (rdb_works db)"
    using eff by (simp add: create_effect_def)
  with none have "work_links u (rdb_works db') = work_links u (rdb_works db)" if "work_lookup (rdb_works db) u = Some d" for u d
    using that by (cases "u = cw_work_id ?c") auto
  moreover have "canon_advances (rdb_works db) (rdb_works db')"
    using relations_inv_keys [OF inv'] none by (auto simp: canon_advances_def look)
  ultimately show ?thesis using inv' store_works [OF rev] create_accepted(1) [OF ref] coh
    by (auto simp: sound_write_def look c)
qed

lemma call_wrote_sound:
  assumes "call_wrote E pr call db db' out" and "relations_inv (rdb_works db)"
  shows "sound_write E db db'"
  using assms
  by (cases call) (auto intro: update_sound relation_sound append_sound feedback_sound create_sound)

section \<open>Steps\<close>

text \<open>
  The transactions on the shared tables: attempts of calls, review proposals and decisions, grant
  issuance, journal writes of the provider gateways, messages, and other sound writers.
\<close>

inductive runtime_step :: "runtime_env \<Rightarrow> runtime_db \<Rightarrow> runtime_db \<Rightarrow> bool" for E where
  rt_call: "call_valid call \<Longrightarrow> in_transaction t (call_body E pr call now) db = (r, db') \<Longrightarrow> runtime_step E db db'"
| rt_propose: "propose (rte_review E) now e c (rdb_store db) = (r, s) \<Longrightarrow>
    runtime_step E db (db\<lparr>rdb_store := s\<rparr>)"
| rt_submit: "submit (rte_review E) now e cid w revision d (rdb_store db) = (r, s) \<Longrightarrow>
    runtime_step E db (db\<lparr>rdb_store := s\<rparr>)"
| rt_grants: "gdb_intents gs = rdb_intents db \<Longrightarrow> runtime_step E db (db\<lparr>rdb_grants := gs\<rparr>)"
| rt_journal: "journal.journal_step (rdb_grants db) gs \<Longrightarrow> runtime_step E db (db\<lparr>rdb_grants := gs\<rparr>)"
| rt_messages: "runtime_step E db (db\<lparr>rdb_messages := ms, rdb_deliveries := ds, rdb_mailboxes := bs, rdb_transfers := ts,
     rdb_receipts := rs\<rparr>)"
| rt_other: "sound_write E db db' \<Longrightarrow> rdb_grants db' = rdb_grants db \<Longrightarrow> runtime_step E db db'"

abbreviation runtime_steps :: "runtime_env \<Rightarrow> runtime_db \<Rightarrow> runtime_db \<Rightarrow> bool" where
  "runtime_steps E \<equiv> (runtime_step E)\<^sup>*\<^sup>*"

text \<open>What a step does to the works and the reviews.\<close>

lemma runtime_step_kinds:
  assumes "runtime_step E db db'" and "relations_inv (rdb_works db)"
  obtains (same) "rdb_store db' = rdb_store db"
    | (works) "sound_write E db db'"
    | (proposed) now e c r where "propose (rte_review E) now e c (rdb_store db) = (r, rdb_store db')"
    | (submitted) now e cid w revision d r where
        "submit (rte_review E) now e cid w revision d (rdb_store db) = (r, rdb_store db')"
  using assms(1)
proof cases
  case (rt_call call t pr now r)
  then have "call_sane call db" using assms(2) by simp
  from canonical.attempt_cases [OF this rt_call(2)] consider "db' = db" | out where "call_wrote E pr call db db' out"
    by blast
  then show thesis by cases (use same works call_wrote_sound assms(2) in auto)
next
  case (rt_propose now e c r s)
  then show thesis using proposed [of now e c r] by simp
next
  case (rt_submit now e cid w revision d r s)
  then show thesis using submitted [of now e cid w revision d r] by simp
qed (use same works in simp_all)

section \<open>Invariants\<close>

text \<open>The bound on notes under an approved task text.\<close>

definition notes_bounded :: "runtime_env \<Rightarrow> runtime_db \<Rightarrow> bool" where
  "notes_bounded E db =
     (\<forall>p r c. current_approved_baseline (rte_review E) p (rdb_reviews db) = Inr (Some r)
        \<longrightarrow> hrc_task_text (hrr_consequence r) \<noteq> None
        \<longrightarrow> work_lookup (rdb_works db) p = Some c \<longrightarrow> utf8_length (cw_notes c) \<le> 2048)"

lemma agent_notes_bound:
  assumes "agent_notes_fit R w notes rows = Inr True"
    and "current_approved_baseline R w rows = Inr (Some r)" and "hrc_task_text (hrr_consequence r) \<noteq> None"
  shows "utf8_length notes \<le> 2048"
  using assms by (auto simp: agent_notes_fit_def)

lemma submit_notes_bounded:
  assumes inv: "review_inv (rte_review E) (rdb_store db)" and diff: "revisions_distinct (rte_review E)"
    and run: "submit (rte_review E) now e cid w revision d (rdb_store db) = (res, s)"
    and bound: "notes_bounded E db"
  shows "notes_bounded E (db\<lparr>rdb_store := s\<rparr>)"
  using run
proof (cases rule: submit_chain [OF inv diff, consumes 1, case_names kept recorded])
  case kept
  then show ?thesis using bound by simp
next
  case (recorded row)
  have inv': "review_inv (rte_review E) s"
    using review_step_inv [OF step_submit [OF run] diff inv] .
  show ?thesis
    unfolding notes_bounded_def
  proof (intro allI impI)
    fix p r c
    assume "current_approved_baseline (rte_review E) p (rdb_reviews (db\<lparr>rdb_store := s\<rparr>)) = Inr (Some r)"
      and task: "hrc_task_text (hrr_consequence r) \<noteq> None"
      and look: "work_lookup (rdb_works (db\<lparr>rdb_store := s\<rparr>)) p = Some c"
    then have cur: "current_approved_baseline (rte_review E) p (rv_rows s) = Inr (Some r)"
      and look: "work_lookup (rdb_works db) p = Some c" using recorded(1) by simp_all
    from inv_current_baseline [OF inv', of p] cur
    have r: "baseline_chain p (rv_rows s) \<noteq> []" "r = last (baseline_chain p (rv_rows s))"
      by (auto split: if_split_asm)
    show "utf8_length (cw_notes c) \<le> 2048"
    proof (cases "is_v2 p (decided now d row)")
      case True
      with r recorded(2,4) have "r = review_of (decided now d row)" "p = w" "d = APPROVED"
        by (auto simp: is_v2_def)
      with approval_fits [OF review_invD(1) [OF inv], of _ w row c] recorded(3) task look show ?thesis by simp
    next
      case False
      with r recorded(4) inv_current_baseline [OF inv, of p]
      have "current_approved_baseline (rte_review E) p (rdb_reviews db) = Inr (Some r)" by simp
      with bound task look show ?thesis by (simp add: notes_bounded_def)
    qed
  qed
qed

lemma propose_notes_bounded:
  assumes inv: "review_inv (rte_review E) (rdb_store db)" and diff: "revisions_distinct (rte_review E)"
    and run: "propose (rte_review E) now e c (rdb_store db) = (res, s)" and bound: "notes_bounded E db"
  shows "notes_bounded E (db\<lparr>rdb_store := s\<rparr>)"
proof -
  have inv': "review_inv (rte_review E) s"
    using review_step_inv [OF step_propose [OF run] diff inv] .
  have "current_approved_baseline (rte_review E) p (rv_rows s)
      = current_approved_baseline (rte_review E) p (rdb_reviews db)" for p
    using inv_current_baseline [OF inv, of p] inv_current_baseline [OF inv', of p] propose_chain(2) [OF run, of p]
    by simp
  with bound propose_chain(1) [OF run] show ?thesis by (simp add: notes_bounded_def)
qed

lemma notes_bounded_store: "notes_bounded E (db\<lparr>rdb_store := rdb_store db'\<rparr>) = notes_bounded E db'"
  by (simp add: notes_bounded_def)

lemma sound_notes_bounded:
  assumes wr: "sound_write E db db'" and bound: "notes_bounded E db"
  shows "notes_bounded E db'"
  unfolding notes_bounded_def
proof (intro allI impI)
  fix p r c'
  assume cur': "current_approved_baseline (rte_review E) p (rdb_reviews db') = Inr (Some r)"
    and task: "hrc_task_text (hrr_consequence r) \<noteq> None" and look: "work_lookup (rdb_works db') p = Some c'"
  from wr have store: "rdb_store db' = (rdb_store db)\<lparr>rv_works := rdb_works db'\<rparr>" by (simp add: sound_write_def)
  from cur' have cur: "current_approved_baseline (rte_review E) p (rdb_reviews db) = Inr (Some r)"
    by (subst (asm) store) simp
  from wr look have "(\<exists>c. work_lookup (rdb_works db) p = Some c \<and> cw_notes c' = cw_notes c)
      \<or> agent_notes_fit (rte_review E) p (cw_notes c') (rdb_reviews db) = Inr True"
    unfolding sound_write_def by blast
  then show "utf8_length (cw_notes c') \<le> 2048"
  proof
    assume "\<exists>c. work_lookup (rdb_works db) p = Some c \<and> cw_notes c' = cw_notes c"
    with bound cur task show ?thesis by (auto simp: notes_bounded_def)
  next
    assume "agent_notes_fit (rte_review E) p (cw_notes c') (rdb_reviews db) = Inr True"
    from agent_notes_bound [OF this cur task] show ?thesis .
  qed
qed

definition runtime_inv :: "runtime_env \<Rightarrow> runtime_db \<Rightarrow> bool" where
  "runtime_inv E db =
     (review_inv (rte_review E) (rdb_store db) \<and> notes_bounded E db \<and> relations_inv (rdb_works db))"

lemma runtime_invD:
  assumes "runtime_inv E db"
  shows "review_inv (rte_review E) (rdb_store db)" "notes_bounded E db" "relations_inv (rdb_works db)"
  using assms by (auto simp: runtime_inv_def)

text \<open>The review transactions read the works and write none.\<close>

lemma review_keeps_works:
  assumes "runtime_inv E db" and diff: "revisions_distinct (rte_review E)"
  shows "propose (rte_review E) now e p (rdb_store db) = (r, s) \<Longrightarrow> rv_works s = rdb_works db"
    and "submit (rte_review E) now e cid v revision d (rdb_store db) = (r', s') \<Longrightarrow> rv_works s' = rdb_works db"
proof -
  show "propose (rte_review E) now e p (rdb_store db) = (r, s) \<Longrightarrow> rv_works s = rdb_works db"
    by (rule propose_chain(1))
  assume "submit (rte_review E) now e cid v revision d (rdb_store db) = (r', s')"
  then show "rv_works s' = rdb_works db"
    by (cases rule: submit_chain [OF runtime_invD(1) [OF assms(1)] diff]) simp_all
qed

lemma runtime_step_inv:
  assumes step: "runtime_step E db db'" and diff: "revisions_distinct (rte_review E)" and inv: "runtime_inv E db"
  shows "runtime_inv E db'"
proof -
  note D = runtime_invD [OF inv]
  from step D(3) show ?thesis
  proof (cases rule: runtime_step_kinds)
    case same
    with inv show ?thesis by (simp add: runtime_inv_def notes_bounded_def)
  next
    case works
    then have adv: "canon_advances (rdb_works db) (rdb_works db')" and rel: "relations_inv (rdb_works db')"
      and store: "rdb_store db' = (rdb_store db)\<lparr>rv_works := rdb_works db'\<rparr>"
      by (simp_all add: sound_write_def)
    from review_step_inv [OF step_works [OF adv] diff D(1)] store have "review_inv (rte_review E) (rdb_store db')"
      by metis
    with rel sound_notes_bounded [OF works D(2)] show ?thesis by (simp add: runtime_inv_def)
  next
    case (proposed now e c r)
    from propose_notes_bounded [OF D(1) diff proposed D(2)] review_keeps_works(1) [OF inv diff proposed]
      review_step_inv [OF step_propose [OF proposed] diff D(1)] D(3) show ?thesis
      by (simp add: runtime_inv_def notes_bounded_store)
  next
    case (submitted now e cid w revision d r)
    from submit_notes_bounded [OF D(1) diff submitted D(2)] review_keeps_works(2) [OF inv diff submitted]
      review_step_inv [OF step_submit [OF submitted] diff D(1)] D(3) show ?thesis
      by (simp add: runtime_inv_def notes_bounded_store)
  qed
qed

lemma runtime_steps_inv:
  assumes "runtime_steps E db db'" and "revisions_distinct (rte_review E)" and "runtime_inv E db"
  shows "runtime_inv E db'"
  using assms by (induction rule: rtranclp_induct) (auto intro: runtime_step_inv)

text \<open>No step makes a coherent work incoherent.\<close>

definition keeps_coherent :: "runtime_db \<Rightarrow> runtime_db \<Rightarrow> bool" where
  "keeps_coherent db db' =
     (\<forall>w c'. work_lookup (rdb_works db') w = Some c' \<longrightarrow> coherent_state (semantic_of c')
        \<or> (\<exists>c. work_lookup (rdb_works db) w = Some c \<and> \<not> coherent_state (semantic_of c)))"

lemma keeps_coherent_trans: "keeps_coherent a b \<Longrightarrow> keeps_coherent b c \<Longrightarrow> keeps_coherent a c"
  unfolding keeps_coherent_def by blast

lemma runtime_step_coherent:
  assumes "runtime_step E db db'" and diff: "revisions_distinct (rte_review E)" and inv: "runtime_inv E db"
  shows "keeps_coherent db db'"
  using assms(1) runtime_invD(3) [OF inv]
proof (cases rule: runtime_step_kinds)
  case works
  then show ?thesis by (simp add: sound_write_def keeps_coherent_def)
next
  case (proposed now e c r)
  then show ?thesis using review_keeps_works(1) [OF inv diff proposed] by (simp add: keeps_coherent_def)
next
  case (submitted now e cid w revision d r)
  then show ?thesis using review_keeps_works(2) [OF inv diff submitted] by (simp add: keeps_coherent_def)
qed (simp add: keeps_coherent_def)

lemma runtime_steps_coherent:
  assumes "runtime_steps E db db'" and "revisions_distinct (rte_review E)" and "runtime_inv E db"
  shows "keeps_coherent db db'"
  using assms
proof (induction rule: rtranclp_induct)
  case base
  then show ?case by (simp add: keeps_coherent_def)
next
  case (step y z)
  have "runtime_inv E y" using runtime_steps_inv [OF step(1) step(4,5)] .
  with step show ?case by (meson runtime_step_coherent keeps_coherent_trans)
qed

section \<open>Operations are applied once\<close>

lemma runtime_step_entry:
  assumes step: "runtime_step E db db'" and inv: "relations_inv (rdb_works db)"
    and r: "journal_entry (rdb_grants db) op = Some r"
  shows "\<exists>r'. journal_entry (rdb_grants db') op = Some r' \<and> row_ident r' = row_ident r"
  using step
proof cases
  case (rt_call call t pr now x)
  then have "call_sane call db" using inv by simp
  from canonical.attempt_cases [OF this rt_call(2)] consider "db' = db" | out where "call_wrote E pr call db db' out"
    by blast
  then show ?thesis
  proof cases
    case 1
    with r show ?thesis by simp
  next
    case 2
    then obtain row where "rdb_intents db' = rdb_intents db @ [row]" by (rule call_wrote_journal)
    with r show ?thesis by (simp add: journal_entry_def find_append)
  qed
next
  case (rt_journal gs)
  with journal.step_persists [OF rt_journal(2) r] show ?thesis by simp
qed (use r in \<open>simp_all add: journal_entry_def\<close>)

lemma runtime_steps_entry:
  assumes "runtime_steps E db db'" and "revisions_distinct (rte_review E)" and "runtime_inv E db"
    and "journal_entry (rdb_grants db) op = Some r"
  shows "\<exists>r'. journal_entry (rdb_grants db') op = Some r' \<and> row_ident r' = row_ident r"
  using assms
proof (induction rule: rtranclp_induct)
  case (step y z)
  then obtain r1 where r1: "journal_entry (rdb_grants y) op = Some r1" "row_ident r1 = row_ident r" by blast
  have "relations_inv (rdb_works y)" using runtime_invD(3) [OF runtime_steps_inv [OF step(1) step(4,5)]] .
  from runtime_step_entry [OF step(2) this r1(1)] r1(2) show ?case by simp
qed simp

text \<open>A recorded operation id answers every later attempt of any call that carries it.\<close>

lemma recorded_attempt:
  assumes "call_sane call db" and "journal_entry (rdb_grants db) (uuid_str (call_operation call)) = Some r"
    and "in_transaction t (call_body E pr call now) db = (res, db')"
  shows "db' = db \<and> (\<forall>out. res = Inr out \<longrightarrow> go_effect out = Not_sent \<or> call_answered E pr call db out)"
  using canonical.attempt_cases [OF assms(1,3)]
proof
  assume "\<exists>out. call_wrote E pr call db db' out \<and> (res = Inr out \<or> res = Inl SQLAlchemyError)"
  then obtain out where "call_wrote E pr call db db' out" by blast
  then have "uuid_str (call_operation call) \<notin> set (map ei_operation_id (rdb_intents db))"
    by (rule call_wrote_journal)
  with assms(2) show ?thesis unfolding journal_entry_def by (metis find_key_None option.distinct(1))
qed

lemma runtime_start_inv:
  assumes "relations_inv (rdb_works start)" and "rdb_reviews start = []"
  shows "runtime_inv E start"
proof -
  have "notes_bounded E start"
    by (simp add: notes_bounded_def assms(2) current_approved_baseline_def approved_v2_def current_baselines_def)
  moreover have "review_inv (rte_review E) (rdb_store start)"
    using review_start_inv [OF relations_inv_keys [OF assms(1)]] assms(2)
    by (metis old.unit.exhaust review_store.surjective)
  ultimately show ?thesis using assms(1) by (simp add: runtime_inv_def)
qed

section \<open>Properties\<close>


lemma demo_rt_relations: "relations_inv (rdb_works demo_rt_db)"
  by (simp add: relations_inv_def forest_def demo_rt_db_def demo_canon_def demo_current_def demo_rt_work_def
      work_exists_def work_keys_def events_inv_def events_of_def acyclic_empty)

lemma demo_rt_start: "revisions_distinct (rte_review demo_rt_env)" "rdb_reviews demo_rt_db = []"
  by (simp_all add: demo_rt_env_def demo_distinct demo_rt_db_def)

lemma demo_rt_step: "runtime_steps demo_rt_env demo_rt_db demo_rt_after"
proof -
  have "in_transaction Commits (call_body demo_rt_env demo_principal (Do_update demo_rt_req) 0) demo_rt_db
      = (Inr demo_rt_outcome, demo_rt_after)"
    by (simp add: in_transaction_def demo_rt_run)
  from rt_call [OF _ this] show ?thesis by auto
qed


text \<open>
  C13. Every protected write of canonical work is truthful and atomic, whatever faults its
  transactions meet and whatever others do between its attempts. It leaves the state as it was or
  makes exactly one change: the change its kind of call describes, sound for the works, with one
  new journal row under the operation id and the caller, where no row had that id. An answer that
  reports the effect as applied is in the journal, and one that reports it as not sent changed
  nothing unless it replays the journal.
\<close>

theorem canonical_calls_truthful:
  assumes "call_sane call db" and "call_sane call (between db)"
    and "run_canonical E pr call first between second db = (Inr out, db')"
  shows "(\<exists>pre \<in> {db, between db}. db' = pre
       \<or> (\<exists>o' row. call_wrote E pr call pre db' o' \<and> sound_write E pre db'
            \<and> rdb_intents db' = rdb_intents pre @ [row] \<and> ei_operation_id row = uuid_str (call_operation call)
            \<and> ei_principal_key row = rte_pkey E pr \<and> ei_outcome row = o'
            \<and> uuid_str (call_operation call) \<notin> set (map ei_operation_id (rdb_intents pre))))
     \<and> (go_effect out = Applied \<longrightarrow> call_answered E pr call db' out)
     \<and> (go_effect out = Not_sent \<longrightarrow> db' \<in> {db, between db} \<or> call_answered E pr call db' out)"
proof -
  note truth = canonical.call_truthful [OF assms(1,2) assms(3) [unfolded run_canonical_def]]
  have "\<exists>row. sound_write E pre db'
      \<and> rdb_intents db' = rdb_intents pre @ [row] \<and> ei_operation_id row = uuid_str (call_operation call)
      \<and> ei_principal_key row = rte_pkey E pr \<and> ei_outcome row = o'
      \<and> uuid_str (call_operation call) \<notin> set (map ei_operation_id (rdb_intents pre))"
    if "pre \<in> {db, between db}" "call_wrote E pr call pre db' o'" for pre o'
  proof -
    from that(1) assms(1,2) have "relations_inv (rdb_works pre)" by auto
    note sound = call_wrote_sound [OF that(2) this]
    from that(2) obtain row where "rdb_intents db' = rdb_intents pre @ [row]"
      "ei_operation_id row = uuid_str (call_operation call)" "ei_principal_key row = rte_pkey E pr" "ei_outcome row = o'"
      "uuid_str (call_operation call) \<notin> set (map ei_operation_id (rdb_intents pre))"
      by (rule call_wrote_journal)
    with sound show ?thesis by blast
  qed
  with truth show ?thesis by blast
qed

theorem canonical_calls_truthful_witness:
  "\<exists>out db'. run_canonical demo_rt_env demo_principal (Do_update demo_rt_req) (0, Conflicts) (\<lambda>db. db) (0, Commits)
         demo_rt_db = (Inr out, db')
     \<and> go_effect out = Applied \<and> call_answered demo_rt_env demo_principal (Do_update demo_rt_req) db' out"
proof -
  have run: "run_canonical demo_rt_env demo_principal (Do_update demo_rt_req) (0, Conflicts) (\<lambda>db. db) (0, Commits) demo_rt_db
      = (Inr demo_rt_outcome, demo_rt_after)"
    by (simp add: run_canonical_def two_attempts_def in_transaction_def demo_rt_run update_handlers_def)
  have sane: "call_sane (Do_update demo_rt_req) demo_rt_db" by (simp add: demo_rt_relations)
  have "go_effect demo_rt_outcome = Applied" by (simp add: demo_rt_outcome_def update_receipt_of_def)
  with canonical_calls_truthful [OF sane sane run] run show ?thesis by blast
qed

text \<open>
  C14. An operation is applied at most once. Once any operation id is in the journal, whatever runs
  afterwards, its entry stays with the same principal, fingerprint, work, grant and intent; and any
  attempt of any kind of call under that id, by any principal and at any time, changes nothing,
  whether its transaction commits, fails or loses the answer, and reports success only as the
  journal answers it.
\<close>

theorem operation_applied_once:
  assumes "revisions_distinct (rte_review E)" and "relations_inv (rdb_works start)" and "rdb_reviews start = []"
    and "runtime_steps E start db" and "journal_entry (rdb_grants db) (uuid_str (call_operation call)) = Some r"
    and "runtime_steps E db db'" and "call_valid call"
    and "in_transaction t (call_body E pr call now) db' = (res, db'')"
  shows "(\<exists>r'. journal_entry (rdb_grants db') (uuid_str (call_operation call)) = Some r' \<and> row_ident r' = row_ident r)
     \<and> db'' = db' \<and> (\<forall>out. res = Inr out \<longrightarrow> go_effect out = Not_sent \<or> call_answered E pr call db' out)"
proof -
  from runtime_steps_inv [OF assms(4,1) runtime_start_inv [OF assms(2,3)]] have inv: "runtime_inv E db" .
  from runtime_steps_entry [OF assms(6,1) inv assms(5)] obtain r'
    where r': "journal_entry (rdb_grants db') (uuid_str (call_operation call)) = Some r'" "row_ident r' = row_ident r"
    by blast
  have "call_sane call db'" using runtime_invD(3) [OF runtime_steps_inv [OF assms(6,1) inv]] assms(7) by simp
  from recorded_attempt [OF this r'(1) assms(8)] r' show ?thesis by blast
qed

theorem operation_applied_once_witness:
  "\<exists>res r. journal_entry (rdb_grants demo_rt_after) (uuid_str 7) = Some r \<and> go_effect (ei_outcome r) = Applied
     \<and> in_transaction Commits (call_body demo_rt_env demo_principal (Do_update demo_rt_req) 5) demo_rt_after
         = (res, demo_rt_after)"
proof -
  obtain r where r: "journal_entry (rdb_grants demo_rt_after) (uuid_str (call_operation (Do_update demo_rt_req))) = Some r"
    "go_effect (ei_outcome r) = Applied"
    by (simp add: journal_entry_def demo_rt_after_def update_journal_row_def demo_rt_req_def demo_rt_outcome_def
        update_receipt_of_def)
  obtain res db'' where run:
    "in_transaction Commits (call_body demo_rt_env demo_principal (Do_update demo_rt_req) 5) demo_rt_after = (res, db'')"
    by fastforce
  have "db'' = demo_rt_after"
    using operation_applied_once [OF demo_rt_start(1) demo_rt_relations demo_rt_start(2) demo_rt_step r(1)
        rtranclp.rtrancl_refl _ run] by simp
  moreover have "call_operation (Do_update demo_rt_req) = 7" by (simp add: demo_rt_req_def)
  ultimately show ?thesis using r run by auto
qed

end
