(* ===== verification/Canonical_Reads.thy ===== *)
theory Canonical_Reads
  imports Canonical_Runtime
begin

text \<open>
  The reads of canonical work (\<open>get\<close>, \<open>search\<close> and \<open>feedback_candidates\<close> in
  \<open>src/switchstand/tracker/runtime.py\<close>, and \<open>src/switchstand/tracker/event_reads.py\<close>). A read is
  several queries; each sees the tables at its own instant while other transactions run in
  between. A read compares revisions before and after and answers only when they agree.
\<close>

section \<open>Queries over a moving database\<close>

text \<open>The tables at the instant of the \<open>k\<close>-th query; a read is a program over the number of queries made.\<close>

type_synonym tables_at = "nat \<Rightarrow> runtime_db"

definition query :: "tables_at \<Rightarrow> (runtime_db \<Rightarrow> 'a py_result) \<Rightarrow> (nat, 'a) prog" where
  "query h f k = (f (h k), Suc k)"

text \<open>Library code the reads use: the digest of search criteria, cursor JSON, \<open>isoformat\<close>.\<close>

record read_code =
  rdc_digest :: "json \<Rightarrow> string"
  rdc_enc :: "json \<Rightarrow> string"
  rdc_dec :: "string \<Rightarrow> json option"
  rdc_iso :: "py_datetime \<Rightarrow> string"

section \<open>Projections\<close>

definition routing_of :: "current_work \<Rightarrow> routing" where
  "routing_of c =
     \<lparr>rt_priority = cw_priority c, rt_work_type = cw_work_type c, rt_horizon = None,
      rt_review_next_action = cw_review_next_action c, rt_stage3_gate = None,
      rt_lifecycle_state = cw_lifecycle_state c, rt_canonical_root = cw_canonical_root c,
      rt_owner_key = cw_owner_key c, rt_wait_kind = cw_wait_kind c,
      rt_unblock_condition = cw_unblock_condition c, rt_next_due = cw_next_due c,
      rt_next_action_class = cw_next_action_class c, rt_next_action_ref = cw_next_action_ref c\<rparr>"

definition context_of :: "current_work \<Rightarrow> work_relations \<Rightarrow> work_context" where
  "context_of c rel =
     \<lparr>wc_assignee = cw_assignee c,
      wc_placements = map (\<lambda>p. \<lparr>wp_area = plc_name p, wp_stage = plc_section_name p\<rparr>) (wrl_placements rel)\<rparr>"

text \<open>The relations of a work are four queries on one connection.\<close>

definition relations_read :: "tables_at \<Rightarrow> uuid \<Rightarrow> (nat, work_relations) prog" where
  "relations_read h w =
     bindP (query h (\<lambda>db. Inr (work_exists w (rdb_works db)))) (\<lambda>known.
     if \<not> known then raiseP LookupError else
     bindP (query h (\<lambda>db. Inr (parent_of (rdb_works db) w))) (\<lambda>parent.
     bindP (query h (\<lambda>db. Inr (dependencies_of w (rdb_works db)))) (\<lambda>deps.
     bindP (query h (\<lambda>db. Inr (placements_of w (rdb_works db)))) (\<lambda>places.
       returnP \<lparr>wrl_parent_work_id = parent, wrl_dependency_work_ids = deps, wrl_placements = places\<rparr>))))"

definition task_approval :: "runtime_env \<Rightarrow> uuid \<Rightarrow> runtime_db \<Rightarrow> review_record option py_result" where
  "task_approval E w db =
     bindE (work_get_row w (rdb_works db)) (\<lambda>_.
     bindE (current_approved_baseline (rte_review E) w (rdb_reviews db)) (\<lambda>approved.
       Inr (case approved of None \<Rightarrow> None
            | Some r \<Rightarrow> if hrc_task_text (hrr_consequence r) = None then None else Some r)))"

definition item_view :: "string \<Rightarrow> current_work \<Rightarrow> work_relations \<Rightarrow> review_record option \<Rightarrow> work_item" where
  "item_view revision c rel approved =
     \<lparr>wi_id = cw_work_id c, wi_title = cw_title c, wi_notes = cw_notes c,
      wi_task_text = Option.bind approved (\<lambda>r. hrc_task_text (hrr_consequence r)),
      wi_task_approval_id = map_option hrr_consequence_id approved,
      wi_task_approval_digest = map_option hrr_consequence_digest approved,
      wi_completed = cw_completed c,
      wi_revision = revision,
      wi_routing = routing_of c, wi_context = context_of c rel, wi_source = None,
      wi_admitted_at = cw_admitted_at c\<rparr>"

text \<open>\<open>_item\<close>: nothing when the row is no longer the one that was read first.\<close>

definition public_item :: "runtime_env \<Rightarrow> tables_at \<Rightarrow> current_work \<Rightarrow> (nat, work_item option) prog" where
  "public_item E h c =
     bindP (relations_read h (cw_work_id c)) (\<lambda>rel.
     bindP (query h (task_approval E (cw_work_id c))) (\<lambda>approved.
     bindP (query h (\<lambda>db. work_get_row (cw_work_id c) (rdb_works db))) (\<lambda>latest.
       if latest \<noteq> Some c then returnP None
       else bindP (liftP (canonical_revision (rve_revision (rte_review E)) (cw_work_id c) (cw_row_version c))) (\<lambda>revision.
         if \<not> valid_routing (routing_of c) then raiseP ValidationError
         else returnP (Some (item_view revision c rel approved))))))"

section \<open>Reads of work\<close>

fun get_tries :: "nat \<Rightarrow> runtime_env \<Rightarrow> tables_at \<Rightarrow> uuid \<Rightarrow> (nat, work_result) prog" where
  "get_tries 0 E h w = returnP \<lparr>wr_status = S_unknown, wr_item = None\<rparr>"
| "get_tries (Suc n) E h w =
     bindP (query h (\<lambda>db. work_get_row w (rdb_works db))) (\<lambda>work.
     case work of
       None \<Rightarrow> returnP \<lparr>wr_status = S_unknown, wr_item = None\<rparr>
     | Some c \<Rightarrow>
         bindP (public_item E h c) (\<lambda>item.
         if item \<noteq> None then returnP \<lparr>wr_status = S_ok, wr_item = item\<rparr>
         else get_tries n E h w))"

definition canonical_get :: "runtime_env \<Rightarrow> tables_at \<Rightarrow> uuid \<Rightarrow> (nat, work_result) prog" where
  "canonical_get = get_tries 2"

definition search_view :: "work_item \<Rightarrow> search_item" where
  "search_view i =
     \<lparr>si_id = wi_id i, si_title = wi_title i, si_completed = wi_completed i, si_revision = wi_revision i,
      si_routing = wi_routing i, si_context = wi_context i, si_admitted_at = wi_admitted_at i\<rparr>"

definition query_of :: "search_request \<Rightarrow> work_query" where
  "query_of req =
     \<lparr>wq_text = sr_text req, wq_completed = sr_completed req, wq_lifecycle_state = sr_lifecycle_state req,
      wq_owner_key = sr_owner_key req, wq_priority = sr_priority req, wq_work_type = sr_work_type req,
      wq_canonical_root = sr_canonical_root req\<rparr>"

text \<open>The items of a page; nothing when one of them changed meanwhile.\<close>

fun page_items :: "runtime_env \<Rightarrow> tables_at \<Rightarrow> current_work list \<Rightarrow> (nat, search_item list option) prog" where
  "page_items E h [] = returnP (Some [])"
| "page_items E h (c # cs) =
     bindP (public_item E h c) (\<lambda>public.
     case public of
       None \<Rightarrow> returnP None
     | Some i \<Rightarrow> bindP (page_items E h cs) (\<lambda>rest. returnP (map_option (\<lambda>is. search_view i # is) rest)))"

fun search_tries ::
  "nat \<Rightarrow> runtime_env \<Rightarrow> read_code \<Rightarrow> tables_at \<Rightarrow> search_request \<Rightarrow> (nat, search_result) prog" where
  "search_tries 0 E C h req = returnP \<lparr>srr_status = S_unknown, srr_items = [], srr_next_cursor = None\<rparr>"
| "search_tries (Suc n) E C h req =
     bindP (query h (\<lambda>db. work_search (rte_casefold E) (rdc_digest C) (rdc_enc C) (rdc_dec C) (query_of req)
         (sr_limit req) (rdb_works db) (sr_cursor req))) (\<lambda>(page, cursor).
     bindP (page_items E h page) (\<lambda>items.
     case items of
       Some is \<Rightarrow> returnP \<lparr>srr_status = S_ok, srr_items = is, srr_next_cursor = cursor\<rparr>
     | None \<Rightarrow> search_tries n E C h req))"

definition canonical_search ::
  "runtime_env \<Rightarrow> read_code \<Rightarrow> tables_at \<Rightarrow> search_request \<Rightarrow> (nat, search_result) prog" where
  "canonical_search = search_tries 2"

section \<open>Feedback candidates\<close>

text \<open>
  The three longest words of the title, and one search for each of them and each feedback type (the
  frozen set of types as the list of its elements).
\<close>

definition title_tokens :: "string \<Rightarrow> string list" where
  "title_tokens normalized = take 3 (sort_key (\<lambda>t. (- int (length t), t)) (sorted_list_of_set (set (py_split normalized))))"

definition candidate_request :: "string \<Rightarrow> string \<Rightarrow> search_request" where
  "candidate_request token kind =
     \<lparr>sr_text = Some token, sr_completed = Some False, sr_lifecycle_state = None, sr_owner_key = None,
      sr_priority = None, sr_work_type = Some kind, sr_canonical_root = None, sr_cursor = None, sr_limit = 10\<rparr>"

text \<open>\<open>found[item.id] = item\<close>.\<close>

definition put_found :: "search_item \<Rightarrow> search_item list \<Rightarrow> search_item list" where
  "put_found i found =
     (if si_id i \<in> set (map si_id found) then map (\<lambda>x. if si_id x = si_id i then i else x) found
      else found @ [i])"

fun add_candidates ::
  "(string \<Rightarrow> string) \<Rightarrow> uuid \<Rightarrow> string \<Rightarrow> search_item list \<Rightarrow> search_item list \<Rightarrow> search_item list py_result" where
  "add_candidates casefold source token [] found = Inr found"
| "add_candidates casefold source token (i # is) found =
     (if si_id i = source then add_candidates casefold source token is found
      else bindE (normalize_title casefold (si_title i)) (\<lambda>n.
        add_candidates casefold source token is
          (if token \<in> set (py_split n) then put_found i found else found)))"

fun search_candidates ::
  "runtime_env \<Rightarrow> read_code \<Rightarrow> tables_at \<Rightarrow> uuid \<Rightarrow> (string \<times> string) list \<Rightarrow> search_item list
     \<Rightarrow> (nat, search_item list) prog" where
  "search_candidates E C h source [] found = returnP found"
| "search_candidates E C h source ((token, kind) # rest) found =
     (if \<not> valid_search_request (candidate_request token kind) then raiseP ValidationError
      else bindP (canonical_search E C h (candidate_request token kind)) (\<lambda>result.
        if srr_status result \<noteq> S_ok then raiseP SQLAlchemyError
        else bindP (liftP (add_candidates (rte_casefold E) source token (srr_items result) found)) (\<lambda>found'.
          search_candidates E C h source rest found')))"

definition candidate_key :: "(string \<Rightarrow> string) \<Rightarrow> string \<Rightarrow> search_item \<Rightarrow> (int \<times> string \<times> string) py_result" where
  "candidate_key casefold normalized i =
     bindE (normalize_title casefold (si_title i)) (\<lambda>n.
       Inr (- int (card (set (py_split normalized) \<inter> set (py_split n))), n, uuid_str (si_id i)))"

definition feedback_candidates ::
  "runtime_env \<Rightarrow> read_code \<Rightarrow> tables_at \<Rightarrow> string \<Rightarrow> uuid \<Rightarrow> string list \<Rightarrow> (nat, search_item list) prog" where
  "feedback_candidates E C h title source kinds =
     bindP (liftP (normalize_title (rte_casefold E) title)) (\<lambda>normalized.
     bindP (search_candidates E C h source (List.product (title_tokens normalized) (sort kinds)) []) (\<lambda>found.
     bindP (mapP (\<lambda>i. liftP (bindE (candidate_key (rte_casefold E) normalized i) (\<lambda>k. Inr (k, i)))) found) (\<lambda>keyed.
       returnP (take 10 (map snd (sort_key fst keyed))))))"

section \<open>Event reads\<close>

definition event_view :: "read_code \<Rightarrow> stored_event \<Rightarrow> work_event" where
  "event_view C e =
     \<lparr>we_id = sev_id e, we_work_id = sev_work_id e, we_subtype = Some (sev_subtype e), we_text = sev_text e,
      we_created_at = rdc_iso C (sev_created_at e), we_actor = sev_actor e\<rparr>"

definition revision_read :: "runtime_env \<Rightarrow> tables_at \<Rightarrow> uuid \<Rightarrow> (nat, string option) prog" where
  "revision_read E h w =
     bindP (query h (\<lambda>db. work_get_row w (rdb_works db))) (\<lambda>work.
     case work of
       None \<Rightarrow> returnP None
     | Some c \<Rightarrow>
         bindP (liftP (canonical_revision (rve_revision (rte_review E)) w (cw_row_version c))) (\<lambda>r. returnP (Some r)))"

abbreviation unknown_history :: history_result where
  "unknown_history \<equiv>
     \<lparr>hs_status = S_unknown, hs_work_id = None, hs_revision = None, hs_events = [], hs_next_cursor = None\<rparr>"

abbreviation stale_history :: "uuid \<Rightarrow> string \<Rightarrow> history_result" where
  "stale_history w r \<equiv>
     \<lparr>hs_status = S_stale, hs_work_id = Some w, hs_revision = Some r, hs_events = [], hs_next_cursor = None\<rparr>"

definition canonical_history ::
  "runtime_env \<Rightarrow> read_code \<Rightarrow> tables_at \<Rightarrow> history_request \<Rightarrow> (nat, history_result) prog" where
  "canonical_history E C h req =
     bindP (revision_read E h (hr_work_id req)) (\<lambda>revision.
     if_none revision (returnP unknown_history) (\<lambda>r.
     if hr_observed_revision req \<noteq> r then returnP (stale_history (hr_work_id req) r)
     else
       bindP (query h (\<lambda>db. event_page (rdc_enc C) (rdc_dec C) (hr_work_id req) (hr_limit req) (rdb_works db)
           (hr_cursor req))) (\<lambda>(page, cursor).
       bindP (revision_read E h (hr_work_id req)) (\<lambda>latest.
       if_none latest (returnP unknown_history) (\<lambda>l.
       returnP (if l \<noteq> r then stale_history (hr_work_id req) l
         else \<lparr>hs_status = S_ok, hs_work_id = Some (hr_work_id req), hs_revision = Some r,
               hs_events = map (event_view C) page, hs_next_cursor = cursor\<rparr>))))))"

abbreviation unknown_event :: event_result where
  "unknown_event \<equiv> \<lparr>ev_status = S_unknown, ev_work_id = None, ev_revision = None, ev_item = None\<rparr>"

abbreviation stale_event :: "uuid \<Rightarrow> string \<Rightarrow> event_result" where
  "stale_event w r \<equiv> \<lparr>ev_status = S_stale, ev_work_id = Some w, ev_revision = Some r, ev_item = None\<rparr>"

definition canonical_event ::
  "runtime_env \<Rightarrow> read_code \<Rightarrow> tables_at \<Rightarrow> event_request \<Rightarrow> (nat, event_result) prog" where
  "canonical_event E C h req =
     bindP (revision_read E h (er_work_id req)) (\<lambda>revision.
     if_none revision (returnP unknown_event) (\<lambda>r.
     if er_observed_revision req \<noteq> r then returnP (stale_event (er_work_id req) r)
     else
       bindP (query h (\<lambda>db. event_get (er_work_id req) (er_event_id req) (rdb_works db))) (\<lambda>event.
       bindP (revision_read E h (er_work_id req)) (\<lambda>latest.
       if_none latest (returnP unknown_event) (\<lambda>l.
       returnP (if l \<noteq> r then stale_event (er_work_id req) l
         else if_none event unknown_event (\<lambda>e.
           \<lparr>ev_status = S_ok, ev_work_id = Some (er_work_id req), ev_revision = Some r,
            ev_item = Some (event_view C e)\<rparr>)))))))"

text \<open>A client that follows the history cursors of one revision, with fuel.\<close>

fun follow_history ::
  "nat \<Rightarrow> runtime_env \<Rightarrow> read_code \<Rightarrow> tables_at \<Rightarrow> uuid \<Rightarrow> string \<Rightarrow> int \<Rightarrow> string option
     \<Rightarrow> (nat, work_event list option) prog" where
  "follow_history 0 E C h w r limit cursor = returnP None"
| "follow_history (Suc n) E C h w r limit cursor =
     bindP (canonical_history E C h
       \<lparr>hr_work_id = w, hr_observed_revision = r, hr_cursor = cursor, hr_limit = limit\<rparr>) (\<lambda>res.
     if hs_status res \<noteq> S_ok then returnP None
     else case hs_next_cursor res of
       None \<Rightarrow> returnP (Some (hs_events res))
     | Some c \<Rightarrow> bindP (follow_history n E C h w r limit (Some c)) (\<lambda>rest.
         returnP (map_option (\<lambda>es. hs_events res @ es) rest)))"

section \<open>What a revision fixes\<close>

lemma runtime_step_view:
  assumes "runtime_step E db db'" and diff: "revisions_distinct (rte_review E)" and inv: "runtime_inv E db"
    and "work_lookup (rdb_works db) w = Some c"
  shows "\<exists>c'. work_lookup (rdb_works db') w = Some c'
     \<and> (c' = c \<and> work_links w (rdb_works db') = work_links w (rdb_works db) \<or> cw_row_version c < cw_row_version c')"
  using assms(1) runtime_invD(3) [OF inv]
proof (cases rule: runtime_step_kinds)
  case works
  then obtain c' where c': "work_lookup (rdb_works db') w = Some c'" "c' = c \<or> cw_row_version c < cw_row_version c'"
    using assms(4) unfolding sound_write_def canon_advances_def by blast
  moreover have "c' = c \<Longrightarrow> work_links w (rdb_works db') = work_links w (rdb_works db)"
    using works c'(1) assms(4) unfolding sound_write_def by blast
  ultimately show ?thesis by blast
next
  case (proposed now e p r)
  then show ?thesis using review_keeps_works(1) [OF inv diff proposed] assms(4) by simp
next
  case (submitted now e cid v revision d r)
  then show ?thesis using review_keeps_works(2) [OF inv diff submitted] assms(4) by simp
qed (use assms(4) in simp)

lemma runtime_steps_view:
  assumes "runtime_steps E db db'" and "revisions_distinct (rte_review E)" and "runtime_inv E db"
    and "work_lookup (rdb_works db) w = Some c"
  shows "\<exists>c'. work_lookup (rdb_works db') w = Some c'
     \<and> (c' = c \<and> work_links w (rdb_works db') = work_links w (rdb_works db) \<or> cw_row_version c < cw_row_version c')"
  using assms
proof (induction rule: rtranclp_induct)
  case (step y z)
  then obtain c1 where c1: "work_lookup (rdb_works y) w = Some c1"
    "c1 = c \<and> work_links w (rdb_works y) = work_links w (rdb_works db) \<or> cw_row_version c < cw_row_version c1" by blast
  have "runtime_inv E y" using runtime_steps_inv [OF step(1) step(4,5)] .
  from runtime_step_view [OF step(2) step(4) this c1(1)] obtain c2 where "work_lookup (rdb_works z) w = Some c2"
    "c2 = c1 \<and> work_links w (rdb_works z) = work_links w (rdb_works y) \<or> cw_row_version c1 < cw_row_version c2" by blast
  with c1(2) show ?case by fastforce
qed simp

text \<open>The tables move by transactions of the runtime, from a state its invariant holds in.\<close>

definition evolves :: "runtime_env \<Rightarrow> tables_at \<Rightarrow> bool" where
  "evolves E h =
     (revisions_distinct (rte_review E) \<and> runtime_inv E (h 0) \<and> (\<forall>k. runtime_steps E (h k) (h (Suc k))))"

lemma evolves_steps: "evolves E h \<Longrightarrow> i \<le> j \<Longrightarrow> runtime_steps E (h i) (h j)"
  by (rotate_tac, induction j rule: dec_induct) (auto simp: evolves_def elim: rtranclp_trans)

lemma evolves_inv: "evolves E h \<Longrightarrow> runtime_inv E (h k)"
  using runtime_steps_inv [OF evolves_steps, of E h 0 k] by (simp add: evolves_def)

lemma evolves_row [simp]: "evolves E h \<Longrightarrow> work_get_row w (rdb_works (h k)) = Inr (work_lookup (rdb_works (h k)) w)"
  using relations_inv_keys [OF runtime_invD(3) [OF evolves_inv]] by (simp add: work_get_row_lookup)

lemma evolves_view:
  assumes "evolves E h" and "i \<le> j" and "work_lookup (rdb_works (h i)) w = Some c"
  obtains c' where "work_lookup (rdb_works (h j)) w = Some c'"
    "c' = c \<and> work_links w (rdb_works (h j)) = work_links w (rdb_works (h i)) \<or> cw_row_version c < cw_row_version c'"
proof -
  have "revisions_distinct (rte_review E)" using assms(1) by (simp add: evolves_def)
  from runtime_steps_view [OF evolves_steps [OF assms(1,2)] this evolves_inv [OF assms(1)] assms(3)] that
  show thesis by blast
qed

text \<open>Two reads of the same version enclose no change of the row or of what hangs on it.\<close>

lemma row_kept:
  assumes h: "evolves E h" and "i \<le> j" and "j \<le> l" and c: "work_lookup (rdb_works (h i)) w = Some c"
    and d: "work_lookup (rdb_works (h l)) w = Some d" "cw_row_version d = cw_row_version c"
  shows "work_lookup (rdb_works (h j)) w = Some c \<and> work_links w (rdb_works (h j)) = work_links w (rdb_works (h i))"
proof -
  from h assms(2) c obtain c1 where c1: "work_lookup (rdb_works (h j)) w = Some c1"
    "c1 = c \<and> work_links w (rdb_works (h j)) = work_links w (rdb_works (h i)) \<or> cw_row_version c < cw_row_version c1"
    by (rule evolves_view)
  from h assms(3) c1(1) obtain c2 where c2: "work_lookup (rdb_works (h l)) w = Some c2"
    "c2 = c1 \<or> cw_row_version c1 < cw_row_version c2"
    by (rule evolves_view) blast
  with d c1 show ?thesis by auto
qed

section \<open>Snapshots of work\<close>

lemma query_simp [simp]: "query h f k = (f (h k), Suc k)"
  by (simp add: query_def)

lemma relations_read_run:
  assumes "relations_read h w k = (Inr rel, k')"
  shows "k' = k + 4" and "wrl_parent_work_id rel = parent_of (rdb_works (h (k + 1))) w"
    and "wrl_dependency_work_ids rel = dependencies_of w (rdb_works (h (k + 2)))"
    and "wrl_placements rel = placements_of w (rdb_works (h (k + 3)))"
  using assms by (auto simp: relations_read_def bindP_def numeral_eq_Suc split: if_split_asm)

lemma linked_relations:
  assumes "work_links w db' = work_links w db"
  shows "parent_of db' w = parent_of db w" and "dependencies_of w db' = dependencies_of w db"
    and "events_of w db' = events_of w db"
  using assms by (simp_all add: work_links_def dependencies_of_def)

text \<open>
  An item is a snapshot of a run of instants: throughout it the row is the same, and so are the
  events, the parent, the dependencies and the memberships of the work.
\<close>

definition item_snapshot ::
  "runtime_env \<Rightarrow> tables_at \<Rightarrow> nat \<Rightarrow> nat \<Rightarrow> current_work \<Rightarrow> work_item \<Rightarrow> bool" where
  "item_snapshot E h i k c item =
     ((\<forall>n. i \<le> n \<longrightarrow> n < k \<longrightarrow> work_lookup (rdb_works (h n)) (cw_work_id c) = Some c
         \<and> work_links (cw_work_id c) (rdb_works (h n)) = work_links (cw_work_id c) (rdb_works (h i)))
      \<and> (\<exists>p a approved. i \<le> p \<and> p < k \<and> i \<le> a \<and> a < k
           \<and> task_approval E (cw_work_id c) (h a) = Inr approved
           \<and> item = item_view (''pg_'' @ rve_revision (rte_review E) (cw_work_id c) (cw_row_version c)) c
               \<lparr>wrl_parent_work_id = parent_of (rdb_works (h a)) (cw_work_id c),
                wrl_dependency_work_ids = dependencies_of (cw_work_id c) (rdb_works (h a)),
                wrl_placements = placements_of (cw_work_id c) (rdb_works (h p))\<rparr> approved))"

lemma public_item_run:
  assumes h: "evolves E h" and run: "public_item E h c k = (Inr (Some item), k')"
  obtains rel approved where "relations_read h (cw_work_id c) k = (Inr rel, k + 4)"
    "task_approval E (cw_work_id c) (h (k + 4)) = Inr approved"
    "work_lookup (rdb_works (h (k + 5))) (cw_work_id c) = Some c" "k' = k + 6"
    "item = item_view (''pg_'' @ rve_revision (rte_review E) (cw_work_id c) (cw_row_version c)) c rel approved"
proof -
  note run = run [unfolded public_item_def]
  from run obtain rel k1 where rel: "relations_read h (cw_work_id c) k = (Inr rel, k1)"
    by (auto simp: bindP_def split: sum.split_asm prod.split_asm)
  note k1 = relations_read_run(1) [OF rel]
  from run rel k1 obtain approved where ap: "task_approval E (cw_work_id c) (h (k + 4)) = Inr approved"
    by (auto simp: bindP_def split: sum.split_asm)
  from run rel k1 ap h that show thesis
    by (auto simp: bindP_def liftP_def canonical_revision_def ac_simps split: if_split_asm)
qed

lemma public_item_grows: "public_item E h c k = (Inr x, k') \<Longrightarrow> k < k'"
  by (auto simp: public_item_def bindP_def relations_read_def liftP_def split: sum.split_asm prod.split_asm if_split_asm)

lemma public_item_snapshot:
  assumes h: "evolves E h" and ik: "i \<le> k" and c: "work_lookup (rdb_works (h i)) (cw_work_id c) = Some c"
    and run: "public_item E h c k = (Inr (Some item), k')"
  shows "item_snapshot E h i k' c item" and "k < k'"
proof -
  from public_item_run [OF h run] obtain rel approved where
    r: "relations_read h (cw_work_id c) k = (Inr rel, k + 4)"
      "task_approval E (cw_work_id c) (h (k + 4)) = Inr approved"
      "work_lookup (rdb_works (h (k + 5))) (cw_work_id c) = Some c" and k': "k' = k + 6"
    and item: "item = item_view (''pg_'' @ rve_revision (rte_review E) (cw_work_id c) (cw_row_version c)) c rel approved"
    by blast
  show "k < k'" by (simp add: k')
  have kept: "work_lookup (rdb_works (h n)) (cw_work_id c) = Some c
      \<and> work_links (cw_work_id c) (rdb_works (h n)) = work_links (cw_work_id c) (rdb_works (h i))" if "i \<le> n" "n < k'" for n
    using row_kept [OF h that(1) _ c r(3)] that(2) k' by simp
  note R = relations_read_run [OF r(1)]
  have "work_links (cw_work_id c) (rdb_works (h (k + m))) = work_links (cw_work_id c) (rdb_works (h (k + 4)))" if "m < 6" for m
    using kept [of "k + m"] kept [of "k + 4"] that ik k' by simp
  from linked_relations(1) [OF this, of 1] linked_relations(2) [OF this, of 2]
  have "rel = \<lparr>wrl_parent_work_id = parent_of (rdb_works (h (k + 4))) (cw_work_id c),
      wrl_dependency_work_ids = dependencies_of (cw_work_id c) (rdb_works (h (k + 4))),
      wrl_placements = placements_of (cw_work_id c) (rdb_works (h (k + 3)))\<rparr>"
    using R by simp
  with r(2) item kept show "item_snapshot E h i k' c item"
    unfolding item_snapshot_def using ik k'
    by (intro conjI) (blast, intro exI [of _ "k + 3"] exI [of _ "k + 4"] exI [of _ approved], simp)
qed

text \<open>The approved task text of a snapshot bounds the notes it shows.\<close>

lemma snapshot_notes:
  assumes h: "evolves E h" and snap: "item_snapshot E h i k c item" and shown: "wi_task_text item \<noteq> None"
  shows "utf8_length (wi_notes item) \<le> 2048"
proof -
  from snap obtain a approved rel where a: "i \<le> a" "a < k" "task_approval E (cw_work_id c) (h a) = Inr approved"
    and item: "item = item_view (''pg_'' @ rve_revision (rte_review E) (cw_work_id c) (cw_row_version c)) c rel approved"
    and row: "work_lookup (rdb_works (h a)) (cw_work_id c) = Some c"
    unfolding item_snapshot_def by blast
  from shown item obtain r where r: "approved = Some r" "hrc_task_text (hrr_consequence r) \<noteq> None"
    by (auto simp: item_view_def bind_eq_Some_conv split: option.split_asm)
  with a(3) h have "current_approved_baseline (rte_review E) (cw_work_id c) (rdb_reviews (h a)) = Inr (Some r)"
    by (auto simp: task_approval_def bindE_eq_Inr split: option.split_asm if_split_asm)
  with runtime_invD(2) [OF evolves_inv [OF h, of a]] r row show ?thesis
    by (simp add: notes_bounded_def item item_view_def)
qed

lemma get_tries_snapshot:
  assumes h: "evolves E h" and run: "get_tries n E h w k = (Inr res, k')"
  shows "res = \<lparr>wr_status = S_unknown, wr_item = None\<rparr>
    \<or> (\<exists>i c item. k \<le> i \<and> i < k' \<and> cw_work_id c = w \<and> res = \<lparr>wr_status = S_ok, wr_item = Some item\<rparr>
         \<and> item_snapshot E h i k' c item)"
  using run
proof (induction n arbitrary: k)
  case (Suc n)
  show ?case
  proof (cases "work_lookup (rdb_works (h k)) w")
    case None
    with Suc.prems h show ?thesis by (simp add: bindP_def)
  next
    case (Some c)
    have id: "cw_work_id c = w" using work_lookup_id [OF Some] .
    with Some have c: "work_lookup (rdb_works (h k)) (cw_work_id c) = Some c" by simp
    from Suc.prems Some h obtain item k1 where item: "public_item E h c (Suc k) = (Inr item, k1)"
      by (auto simp: bindP_def split: sum.split_asm prod.split_asm)
    show ?thesis
    proof (cases item)
      case None
      with Suc.prems Some h item have "get_tries n E h w k1 = (Inr res, k')" by (simp add: bindP_def)
      from Suc.IH [OF this] show ?thesis
      proof
        assume "\<exists>i c item. k1 \<le> i \<and> i < k' \<and> cw_work_id c = w \<and> res = \<lparr>wr_status = S_ok, wr_item = Some item\<rparr>
            \<and> item_snapshot E h i k' c item"
        then obtain i d it where it: "k1 \<le> i" "i < k'" "cw_work_id d = w"
          "res = \<lparr>wr_status = S_ok, wr_item = Some it\<rparr>" "item_snapshot E h i k' d it" by blast
        have "k \<le> i" using it(1) public_item_grows [OF item] by simp
        with it show ?thesis by blast
      qed blast
    next
      case item': (Some i)
      note snap = public_item_snapshot [OF h le_SucI [OF order_refl] c item [unfolded item']]
      from Suc.prems Some h item item' have "k1 = k'" "res = \<lparr>wr_status = S_ok, wr_item = Some i\<rparr>"
        by (auto simp: bindP_def)
      with snap id show ?thesis
        by (intro disjI2 exI [of _ k] exI [of _ c] exI [of _ i]) simp
    qed
  qed
qed simp

section \<open>Snapshots of event streams\<close>

text \<open>From a row on, every revision read answers, and it answers the same exactly while the row is the same.\<close>

lemma revision_read_run:
  assumes h: "evolves E h" and "k \<le> i" and c: "work_lookup (rdb_works (h k)) w = Some c" and v: "1 \<le> cw_row_version c"
  obtains l where "revision_read E h w i = (Inr (Some l), Suc i)"
    "l = ''pg_'' @ rve_revision (rte_review E) w (cw_row_version c) \<longleftrightarrow>
       work_lookup (rdb_works (h i)) w = Some c \<and> work_links w (rdb_works (h i)) = work_links w (rdb_works (h k))"
proof -
  from h assms(2) c obtain c' where c': "work_lookup (rdb_works (h i)) w = Some c'"
    "c' = c \<and> work_links w (rdb_works (h i)) = work_links w (rdb_works (h k)) \<or> cw_row_version c < cw_row_version c'"
    by (rule evolves_view)
  have "inj_on (rve_revision (rte_review E) w) {v. 1 \<le> v}"
    using h by (simp add: evolves_def revisions_distinct_def)
  from inj_on_eq_iff [OF this, of "cw_row_version c'" "cw_row_version c"] c' v
  have "rve_revision (rte_review E) w (cw_row_version c') = rve_revision (rte_review E) w (cw_row_version c)
      \<longleftrightarrow> work_lookup (rdb_works (h i)) w = Some c \<and> work_links w (rdb_works (h i)) = work_links w (rdb_works (h k))"
    by auto
  moreover have "revision_read E h w i
      = (Inr (Some (''pg_'' @ rve_revision (rte_review E) w (cw_row_version c'))), Suc i)"
    using h c' v by (auto simp: revision_read_def bindP_def liftP_def canonical_revision_def)
  ultimately show thesis using that by simp
qed

lemma event_page_total:
  "event_page enc dec w limit db c = Inr x \<Longrightarrow> \<exists>y. event_page enc dec w limit db' c = Inr y"
  by (simp add: event_page_def bindE_def split: if_split_asm sum.split_asm option.split_asm prod.split)

lemma event_page_linked:
  assumes "work_links w db' = work_links w db"
  shows "event_page enc dec w limit db' c = event_page enc dec w limit db c"
  unfolding event_page_def linked_relations(3) [OF assms] ..

lemma history_run:
  assumes h: "evolves E h" and "k \<le> i" and c: "work_lookup (rdb_works (h k)) w = Some c" and v: "1 \<le> cw_row_version c"
    and page: "event_page (rdc_enc C) (rdc_dec C) w limit (rdb_works (h k)) cursor = Inr (rows, more')"
  shows "\<exists>res i'. canonical_history E C h \<lparr>hr_work_id = w,
      hr_observed_revision = ''pg_'' @ rve_revision (rte_review E) w (cw_row_version c),
      hr_cursor = cursor, hr_limit = limit\<rparr> i = (Inr res, i') \<and> i \<le> i'
    \<and> (hs_status res = S_ok \<longrightarrow> hs_events res = map (event_view C) rows \<and> hs_next_cursor res = more')
    \<and> ((\<forall>n. work_lookup (rdb_works (h n)) w = Some c) \<longrightarrow> hs_status res = S_ok)"
proof -
  let ?r = "''pg_'' @ rve_revision (rte_review E) w (cw_row_version c)"
  let ?same = "\<lambda>n. work_lookup (rdb_works (h n)) w = Some c \<and> work_links w (rdb_works (h n)) = work_links w (rdb_works (h k))"
  have stay: "?same n" if "\<forall>n. work_lookup (rdb_works (h n)) w = Some c" "k \<le> n" for n
    using row_kept [OF h that(2) order_refl c] that(1) by blast
  from h assms(2) c v obtain l where first: "revision_read E h w i = (Inr (Some l), Suc i)" "l = ?r \<longleftrightarrow> ?same i"
    by (rule revision_read_run)
  have ki: "k \<le> Suc (Suc i)" using assms(2) by simp
  from h ki c v obtain l' where last: "revision_read E h w (Suc (Suc i)) = (Inr (Some l'), Suc (Suc (Suc i)))"
    "l' = ?r \<longleftrightarrow> ?same (Suc (Suc i))"
    by (rule revision_read_run)
  from event_page_total [OF page] obtain ps q where
    got: "event_page (rdc_enc C) (rdc_dec C) w limit (rdb_works (h (Suc i))) cursor = Inr (ps, q)" by fastforce
  have mid: "(ps, q) = (rows, more')" if "l' = ?r"
  proof -
    note end' = conjunct1 [OF iffD1 [OF last(2) that]]
    have "work_links w (rdb_works (h (Suc i))) = work_links w (rdb_works (h k))"
      using row_kept [OF h le_SucI [OF assms(2)] le_SucI [OF order_refl] c end'] by simp
    from event_page_linked [OF this] got page show ?thesis by simp
  qed
  have run: "canonical_history E C h \<lparr>hr_work_id = w, hr_observed_revision = ?r, hr_cursor = cursor, hr_limit = limit\<rparr> i
      = (if ?r \<noteq> l then (Inr (stale_history w l), Suc i)
         else (Inr (if l' \<noteq> l then stale_history w l'
              else \<lparr>hs_status = S_ok, hs_work_id = Some w, hs_revision = Some l,
                    hs_events = map (event_view C) ps, hs_next_cursor = q\<rparr>), Suc (Suc (Suc i))))"
    by (simp add: canonical_history_def bindP_def first(1) got last(1))
  show ?thesis
  proof (cases "?r = l \<and> l' = l")
    case True
    then have "ps = rows" "q = more'" using mid by auto
    with run True show ?thesis by simp
  next
    case False
    then have changed: "\<not> (\<forall>n. work_lookup (rdb_works (h n)) w = Some c)"
      using first(2) last(2) stay [OF _ assms(2)] stay [OF _ ki] by metis
    from False have "\<exists>res i'. canonical_history E C h \<lparr>hr_work_id = w, hr_observed_revision = ?r,
        hr_cursor = cursor, hr_limit = limit\<rparr> i = (Inr res, i') \<and> i \<le> i' \<and> hs_status res = S_stale"
      unfolding run by (cases "?r = l") simp_all
    with changed show ?thesis by fastforce
  qed
qed

lemma follow_history_run:
  assumes h: "evolves E h" and c: "work_lookup (rdb_works (h k)) w = Some c" and v: "1 \<le> cw_row_version c"
    and ok: "page_ok (rdc_enc C) (rdc_dec C) limit (rdb_works (h k))"
    and "page_at (rdc_enc C) w (rdb_works (h k)) cursor n" and "n \<le> length (events_of w (rdb_works (h k)))"
    and "length (events_of w (rdb_works (h k))) - n < fuel" and "k \<le> i"
  shows "\<exists>out i'. follow_history fuel E C h w (''pg_'' @ rve_revision (rte_review E) w (cw_row_version c)) limit cursor i
       = (Inr out, i')
     \<and> (out = None \<or> out = Some (map (event_view C) (drop n (events_of w (rdb_works (h k))))))
     \<and> ((\<forall>n. work_lookup (rdb_works (h n)) w = Some c) \<longrightarrow> out \<noteq> None)"
  using assms(5-8)
proof (induction fuel arbitrary: cursor n i)
  case (Suc fuel)
  let ?es = "events_of w (rdb_works (h k))"
  from history_pages.fetch_page [OF ok Suc.prems(1,2)] obtain more' where
    page: "event_page (rdc_enc C) (rdc_dec C) w limit (rdb_works (h k)) cursor = Inr (take (nat limit) (drop n ?es), more')"
    and fin: "more' = None \<longleftrightarrow> length ?es \<le> n + nat limit"
    and at: "more' \<noteq> None \<longrightarrow> page_at (rdc_enc C) w (rdb_works (h k)) more' (n + nat limit)" by blast
  from history_run [OF h Suc.prems(4) c v page] obtain res i' where
    run: "canonical_history E C h \<lparr>hr_work_id = w,
      hr_observed_revision = ''pg_'' @ rve_revision (rte_review E) w (cw_row_version c),
      hr_cursor = cursor, hr_limit = limit\<rparr> i = (Inr res, i')" "i \<le> i'"
    and got: "hs_status res = S_ok \<longrightarrow> hs_events res = map (event_view C) (take (nat limit) (drop n ?es))
      \<and> hs_next_cursor res = more'"
    and live: "\<forall>n. work_lookup (rdb_works (h n)) w = Some c \<Longrightarrow> hs_status res = S_ok"
    by metis
  show ?case
  proof (cases "hs_status res = S_ok")
    case False
    with run live show ?thesis by (auto simp: bindP_def)
  next
    case True
    note got = got [rule_format, OF True]
    show ?thesis
    proof (cases more')
      case None
      with fin have "take (nat limit) (drop n ?es) = drop n ?es" by simp
      with run True got None show ?thesis by (simp add: bindP_def)
    next
      case (Some d)
      have pos: "0 < nat limit" using history_pages.limit_pos [OF ok] .
      have "page_at (rdc_enc C) w (rdb_works (h k)) (Some d) (n + nat limit)" "n + nat limit \<le> length ?es"
        "length ?es - (n + nat limit) < fuel" "k \<le> i'"
        using at fin Some Suc.prems(3,4) run(2) pos by auto
      from Suc.IH [OF this] obtain out j where rest: "follow_history fuel E C h w
          (''pg_'' @ rve_revision (rte_review E) w (cw_row_version c)) limit (Some d) i' = (Inr out, j)"
        "out = None \<or> out = Some (map (event_view C) (drop (n + nat limit) ?es))"
        "(\<forall>n. work_lookup (rdb_works (h n)) w = Some c) \<longrightarrow> out \<noteq> None" by blast
      have "take (nat limit) (drop n ?es) @ drop (n + nat limit) ?es = drop n ?es"
        by (metis append_take_drop_id drop_drop add.commute)
      then have "map (event_view C) (take (nat limit) (drop n ?es)) @ map (event_view C) (drop (n + nat limit) ?es)
          = map (event_view C) (drop n ?es)" by (simp flip: map_append)
      with run True got Some rest show ?thesis by (auto simp: bindP_def)
    qed
  qed
qed simp

section \<open>Snapshots of searches\<close>

lemma after_key_subset: "x \<in> set (after_key key a rows) \<Longrightarrow> x \<in> set rows"
  by (auto simp: after_key_def split: option.split_asm)

lemma search_page_rows:
  assumes "work_search casefold digest enc dec q limit db cursor = Inr (page, more')" and "work_keys db"
    and "c \<in> set page"
  obtains r n where "r \<in> set (cdb_works db)" "c = wrow_work r" "query_matches n q r"
    "work_lookup db (cw_work_id c) = Some c"
proof -
  from assms(1,3) obtain r n where r: "r \<in> set (cdb_works db)" "c = wrow_work r" "query_matches n q r"
    by (auto simp: work_search_def bindE_eq_Inr Let_def key_page_def split: if_split_asm
        dest!: in_set_takeD after_key_subset)
  from find_distinct_key [of row_id, OF _ r(1)] assms(2) have "work_lookup db (row_id r) = Some (wrow_work r)"
    by (simp add: work_lookup_def work_keys_def)
  with r that show thesis by blast
qed

lemma page_items_snapshot:
  assumes h: "evolves E h" and "i \<le> k" and "\<forall>c \<in> set cs. work_lookup (rdb_works (h i)) (cw_work_id c) = Some c"
    and "page_items E h cs k = (Inr (Some is), k')"
  shows "k \<le> k' \<and> list_all2 (\<lambda>c s. \<exists>j item. i < j \<and> j \<le> k' \<and> item_snapshot E h i j c item \<and> s = search_view item) cs is"
  using assms(2-4)
proof (induction cs arbitrary: k "is")
  case (Cons c cs)
  from Cons.prems(3) obtain p k1 where p: "public_item E h c k = (Inr p, k1)"
    by (auto simp: bindP_def split: sum.split_asm prod.split_asm)
  with Cons.prems(3) obtain item where item: "p = Some item" by (cases p) (auto simp: bindP_def)
  from Cons.prems(3) p item obtain rest where rest: "page_items E h cs k1 = (Inr (Some rest), k')" "is = search_view item # rest"
    by (auto simp: bindP_def split: sum.split_asm prod.split_asm)
  have c: "work_lookup (rdb_works (h i)) (cw_work_id c) = Some c" using Cons.prems(2) by simp
  note snap = public_item_snapshot [OF h Cons.prems(1) c p [unfolded item]]
  have "i \<le> k1" using snap(2) Cons.prems(1) by simp
  from Cons.IH [OF this _ rest(1)] Cons.prems(2) have "k1 \<le> k'"
    "list_all2 (\<lambda>c s. \<exists>j item. i < j \<and> j \<le> k' \<and> item_snapshot E h i j c item \<and> s = search_view item) cs rest" by simp_all
  moreover have "\<exists>j it. i < j \<and> j \<le> k' \<and> item_snapshot E h i j c it \<and> search_view item = search_view it"
    using snap Cons.prems(1) \<open>k1 \<le> k'\<close> by (intro exI [of _ k1] exI [of _ item]) simp
  ultimately show ?case using rest(2) snap(2) by simp
qed simp

lemma page_items_grows: "page_items E h cs k = (Inr x, k') \<Longrightarrow> k \<le> k'"
proof (induction cs arbitrary: k x)
  case (Cons c cs)
  from Cons.prems obtain p k1 where p: "public_item E h c k = (Inr p, k1)"
    by (auto simp: bindP_def split: sum.split_asm prod.split_asm)
  note grow = public_item_grows [OF p]
  show ?case
  proof (cases p)
    case (Some item)
    with Cons.prems p obtain r where "page_items E h cs k1 = (Inr r, k')"
      by (auto simp: bindP_def split: sum.split_asm prod.split_asm)
    from Cons.IH [OF this] grow show ?thesis by simp
  qed (use Cons.prems p grow in \<open>simp add: bindP_def\<close>)
qed simp

text \<open>A page answered as ok is the page of one instant, each item a snapshot that begins there.\<close>

definition search_snapshot ::
  "runtime_env \<Rightarrow> read_code \<Rightarrow> tables_at \<Rightarrow> search_request \<Rightarrow> nat \<Rightarrow> nat \<Rightarrow> search_result \<Rightarrow> bool" where
  "search_snapshot E C h req i k res =
     (\<exists>page. work_search (rte_casefold E) (rdc_digest C) (rdc_enc C) (rdc_dec C) (query_of req) (sr_limit req)
          (rdb_works (h i)) (sr_cursor req) = Inr (page, srr_next_cursor res)
        \<and> list_all2 (\<lambda>c s. \<exists>j item. i < j \<and> j \<le> k \<and> item_snapshot E h i j c item \<and> s = search_view item)
            page (srr_items res))"

lemma search_tries_snapshot:
  assumes h: "evolves E h" and run: "search_tries n E C h req k = (Inr res, k')"
  shows "res = \<lparr>srr_status = S_unknown, srr_items = [], srr_next_cursor = None\<rparr>
     \<or> srr_status res = S_ok \<and> (\<exists>i. k \<le> i \<and> i < k' \<and> search_snapshot E C h req i k' res)"
  using run
proof (induction n arbitrary: k)
  case (Suc n)
  from Suc.prems obtain page more' where page: "work_search (rte_casefold E) (rdc_digest C) (rdc_enc C) (rdc_dec C)
      (query_of req) (sr_limit req) (rdb_works (h k)) (sr_cursor req) = Inr (page, more')"
    by (auto simp: bindP_def split: sum.split_asm)
  have keys: "work_keys (rdb_works (h k))" using relations_inv_keys [OF runtime_invD(3) [OF evolves_inv [OF h]]] .
  from Suc.prems page obtain items k1 where items: "page_items E h page (Suc k) = (Inr items, k1)"
    by (auto simp: bindP_def split: sum.split_asm prod.split_asm)
  show ?case
  proof (cases items)
    case None
    with Suc.prems page items have "search_tries n E C h req k1 = (Inr res, k')" by (simp add: bindP_def)
    from Suc.IH [OF this] page_items_grows [OF items] show ?thesis by (meson Suc_leD le_trans)
  next
    case (Some "is")
    have rows: "\<forall>c \<in> set page. work_lookup (rdb_works (h k)) (cw_work_id c) = Some c"
      using search_page_rows [OF page keys] by blast
    note snap = page_items_snapshot [OF h le_SucI [OF order_refl] rows items [unfolded Some]]
    from Suc.prems page items Some have "k1 = k'" "res = \<lparr>srr_status = S_ok, srr_items = is, srr_next_cursor = more'\<rparr>"
      by (auto simp: bindP_def)
    with snap page show ?thesis
      by (intro disjI2 conjI exI [of _ k]) (simp_all add: search_snapshot_def)
  qed
qed simp

section \<open>Suggestions\<close>

text \<open>
  What a suggestion is: not the source, and at some instant of the call the current public view of
  an open work of one of the types, whose title shares a word with the given one.
\<close>

definition suggestion ::
  "runtime_env \<Rightarrow> tables_at \<Rightarrow> nat \<Rightarrow> nat \<Rightarrow> string \<Rightarrow> uuid \<Rightarrow> string list \<Rightarrow> search_item \<Rightarrow> bool" where
  "suggestion E h k k' normalized source kinds s =
     (si_id s \<noteq> source
      \<and> (\<exists>n. normalize_title (rte_casefold E) (si_title s) = Inr n \<and> set (py_split normalized) \<inter> set (py_split n) \<noteq> {})
      \<and> (\<exists>i c. k \<le> i \<and> i < k' \<and> work_lookup (rdb_works (h i)) (si_id s) = Some c \<and> \<not> cw_completed c
           \<and> cw_work_type c \<in> Some ` set kinds \<and> si_title s = cw_title c
           \<and> si_revision s = ''pg_'' @ rve_revision (rte_review E) (si_id s) (cw_row_version c)))"

lemma suggestion_mono: "suggestion E h k j n src kinds s \<Longrightarrow> j \<le> k' \<Longrightarrow> suggestion E h k k' n src kinds s"
  unfolding suggestion_def by (meson less_le_trans)

lemma put_found_ids:
  assumes "distinct (map si_id found)"
  shows "distinct (map si_id (put_found i found))"
proof (cases "si_id i \<in> set (map si_id found)")
  case True
  have "map si_id (map (\<lambda>x. if si_id x = si_id i then i else x) found) = map si_id found" by (induction found) auto
  with True assms show ?thesis unfolding put_found_def by (simp only: if_True)
qed (use assms in \<open>simp add: put_found_def\<close>)

lemma put_found_set: "set (put_found i found) \<subseteq> insert i (set found)"
  by (auto simp: put_found_def)

lemma add_candidates_keep:
  assumes "add_candidates casefold src token is found = Inr found'" and "distinct (map si_id found)"
    and "\<forall>s \<in> set found. P s"
    and "\<And>s n. s \<in> set is \<Longrightarrow> si_id s \<noteq> src \<Longrightarrow> normalize_title casefold (si_title s) = Inr n
           \<Longrightarrow> token \<in> set (py_split n) \<Longrightarrow> P s"
  shows "distinct (map si_id found') \<and> (\<forall>s \<in> set found'. P s)"
  using assms
proof (induction "is" arbitrary: found)
  case (Cons i "is")
  show ?case
  proof (cases "si_id i = src")
    case True
    with Cons.prems show ?thesis by (intro Cons.IH [of found]) auto
  next
    case False
    with Cons.prems(1) obtain n where n: "normalize_title casefold (si_title i) = Inr n"
      and run: "add_candidates casefold src token is (if token \<in> set (py_split n) then put_found i found else found) = Inr found'"
      by (auto simp: bindE_eq_Inr)
    show ?thesis
    proof (rule Cons.IH [OF run])
      show "distinct (map si_id (if token \<in> set (py_split n) then put_found i found else found))"
        using Cons.prems(2) put_found_ids by simp
      show "\<forall>s \<in> set (if token \<in> set (py_split n) then put_found i found else found). P s"
        using Cons.prems(3) Cons.prems(4) [of i n] False n put_found_set [of i found] by auto
    qed (use Cons.prems(4) in auto)
  qed
qed simp

lemma searched_suggestion:
  assumes h: "evolves E h" and run: "canonical_search E C h (candidate_request token kind) k = (Inr res, k')"
    and ok: "srr_status res = S_ok" and s: "s \<in> set (srr_items res)" "si_id s \<noteq> src"
    and n: "normalize_title (rte_casefold E) (si_title s) = Inr n" "token \<in> set (py_split n)"
    and token: "token \<in> set (py_split normalized)" "kind \<in> set kinds"
  shows "suggestion E h k k' normalized src kinds s"
proof -
  let ?req = "candidate_request token kind"
  from search_tries_snapshot [OF h run [unfolded canonical_search_def]] ok obtain i where
    i: "k \<le> i" "i < k'" "search_snapshot E C h ?req i k' res" by auto
  then obtain page more' where page: "work_search (rte_casefold E) (rdc_digest C) (rdc_enc C) (rdc_dec C) (query_of ?req)
      (sr_limit ?req) (rdb_works (h i)) (sr_cursor ?req) = Inr (page, more')"
    and all: "list_all2 (\<lambda>c s. \<exists>j item. i < j \<and> j \<le> k' \<and> item_snapshot E h i j c item \<and> s = search_view item)
        page (srr_items res)"
    by (auto simp: search_snapshot_def)
  from all s(1) obtain c j item where c: "c \<in> set page" and snap: "i < j" "item_snapshot E h i j c item"
    and view: "s = search_view item"
    by (auto simp: list_all2_conv_all_nth in_set_conv_nth) metis
  have keys: "work_keys (rdb_works (h i))" using relations_inv_keys [OF runtime_invD(3) [OF evolves_inv [OF h]]] .
  from search_page_rows [OF page keys c] obtain r m where r: "c = wrow_work r" "query_matches m (query_of ?req) r"
    "work_lookup (rdb_works (h i)) (cw_work_id c) = Some c" by blast
  from r(1,2) have "\<not> cw_completed c" "cw_work_type c = Some kind"
    by (auto simp: query_matches_def query_of_def candidate_request_def opt_eq_def)
  moreover from snap(2) have "si_id s = cw_work_id c" "si_title s = cw_title c"
    "si_revision s = ''pg_'' @ rve_revision (rte_review E) (cw_work_id c) (cw_row_version c)"
    by (auto simp: item_snapshot_def view search_view_def item_view_def)
  ultimately show ?thesis using i(1,2) s(2) n token r(3) unfolding suggestion_def by auto
qed

lemma search_tries_grows: "search_tries n E C h req k = (Inr res, k') \<Longrightarrow> k \<le> k'"
proof (induction n arbitrary: k)
  case (Suc n)
  from Suc.prems obtain page more' where page: "work_search (rte_casefold E) (rdc_digest C) (rdc_enc C) (rdc_dec C)
      (query_of req) (sr_limit req) (rdb_works (h k)) (sr_cursor req) = Inr (page, more')"
    by (auto simp: bindP_def split: sum.split_asm)
  from Suc.prems page obtain items k1 where items: "page_items E h page (Suc k) = (Inr items, k1)"
    by (auto simp: bindP_def split: sum.split_asm prod.split_asm)
  note grow = page_items_grows [OF items]
  show ?case
  proof (cases items)
    case None
    with Suc.prems page items have "search_tries n E C h req k1 = (Inr res, k')" by (simp add: bindP_def)
    from Suc.IH [OF this] grow show ?thesis by simp
  qed (use Suc.prems page items grow in \<open>simp add: bindP_def\<close>)
qed simp

lemma search_candidates_keep:
  assumes h: "evolves E h" and "search_candidates E C h src todo found k = (Inr found', k')"
    and "set todo \<subseteq> set (py_split normalized) \<times> set kinds" and "k0 \<le> k" and "distinct (map si_id found)"
    and "\<forall>s \<in> set found. suggestion E h k0 k normalized src kinds s"
  shows "distinct (map si_id found') \<and> (\<forall>s \<in> set found'. suggestion E h k0 k' normalized src kinds s)"
  using assms(2-6)
proof (induction todo arbitrary: found k)
  case (Cons x todo)
  obtain token kind where x: "x = (token, kind)" by fastforce
  note run = Cons.prems(1) [unfolded x]
  from run obtain res k1 where res: "canonical_search E C h (candidate_request token kind) k = (Inr res, k1)"
    by (auto simp: bindP_def split: if_split_asm sum.split_asm prod.split_asm)
  with run have ok: "srr_status res = S_ok" by (auto simp: bindP_def split: if_split_asm)
  from run res ok obtain found1 where add: "add_candidates (rte_casefold E) src token (srr_items res) found = Inr found1"
    by (auto simp: bindP_def liftP_def split: if_split_asm sum.split_asm)
  with run res ok have rest: "search_candidates E C h src todo found1 k1 = (Inr found', k')"
    by (auto simp: bindP_def liftP_def split: if_split_asm)
  have grow: "k \<le> k1" using search_tries_grows res by (simp add: canonical_search_def)
  have later: "suggestion E h k0 k1 normalized src kinds s" if "suggestion E h k k1 normalized src kinds s" for s
    using that Cons.prems(3) unfolding suggestion_def by (meson le_trans)
  have "distinct (map si_id found1) \<and> (\<forall>s \<in> set found1. suggestion E h k0 k1 normalized src kinds s)"
  proof (rule add_candidates_keep [OF add Cons.prems(4)])
    show "\<forall>s \<in> set found. suggestion E h k0 k1 normalized src kinds s"
      using Cons.prems(5) suggestion_mono [OF _ grow] by blast
    show "suggestion E h k0 k1 normalized src kinds s"
      if "s \<in> set (srr_items res)" "si_id s \<noteq> src" "normalize_title (rte_casefold E) (si_title s) = Inr n"
        "token \<in> set (py_split n)" for s n
      by (rule later [OF searched_suggestion [OF h res ok that]]) (use Cons.prems(2) x in auto)
  qed
  with Cons.prems(2,3) grow show ?case by (intro Cons.IH [OF rest]) auto
qed simp

section \<open>Properties\<close>



text \<open>
  C37. Reading a work is a snapshot. The read queries the row, the relations and the approval while
  other transactions run, and tries twice; if it answers with an item, then from its first query
  of the row to its last the row, the events and the relations of the work did not change, the item
  shows exactly them, and the approved task text is the one current at an instant in between; and
  an item with an approved task text has notes of at most 2048 bytes. Otherwise it answers
  unknown, with no item.
\<close>

theorem work_get_snapshot:
  assumes "evolves E h" and "canonical_get E h w k = (Inr res, k')"
  shows "valid_work_result res \<and> wr_status res \<in> {S_ok, S_unknown}
     \<and> (\<forall>item. wr_item res = Some item \<longrightarrow>
          (\<exists>i c. k \<le> i \<and> i < k' \<and> cw_work_id c = w \<and> item_snapshot E h i k' c item)
          \<and> (wi_task_text item \<noteq> None \<longrightarrow> utf8_length (wi_notes item) \<le> 2048))"
  using get_tries_snapshot [OF assms(1) assms(2) [unfolded canonical_get_def]]
proof
  assume "\<exists>i c item. k \<le> i \<and> i < k' \<and> cw_work_id c = w \<and> res = \<lparr>wr_status = S_ok, wr_item = Some item\<rparr>
      \<and> item_snapshot E h i k' c item"
  then obtain i c item where snap: "k \<le> i" "i < k'" "cw_work_id c = w" "item_snapshot E h i k' c item"
    and res: "res = \<lparr>wr_status = S_ok, wr_item = Some item\<rparr>" by blast
  from snap snapshot_notes [OF assms(1) snap(4)] show ?thesis
    unfolding res by (auto simp: valid_work_result_def)
qed (simp add: valid_work_result_def)

text \<open>The work changes during the first try of the read.\<close>

definition demo_moving :: tables_at where
  "demo_moving k = (if k < 3 then demo_rt_db else demo_rt_after)"

lemma demo_moving_evolves: "evolves demo_rt_env demo_moving"
  using runtime_start_inv [OF demo_rt_relations demo_rt_start(2)] demo_rt_step demo_rt_start(1)
  by (simp add: evolves_def demo_moving_def)

lemma demo_after_row:
  "work_lookup (rdb_works demo_rt_after) 10 = Some ((candidate_of demo_rt_work (pu_patch demo_rt_req))\<lparr>cw_row_version := 2\<rparr>)"
  by (simp add: work_lookup_def demo_rt_after_def candidate_of_def demo_rt_work_def demo_current_def)

theorem work_get_snapshot_witness:
  "\<exists>res k' item. canonical_get demo_rt_env demo_moving 10 0 = (Inr res, k') \<and> k' = 14 \<and> wr_item res = Some item
     \<and> wi_notes item = ''hello'' \<and> (\<exists>i c. i < 14 \<and> item_snapshot demo_rt_env demo_moving i 14 c item)"
proof -
  let ?c = "(candidate_of demo_rt_work (pu_patch demo_rt_req))\<lparr>cw_row_version := 2\<rparr>"
  have old: "work_lookup (rdb_works demo_rt_db) 10 = Some demo_rt_work"
    by (simp add: work_lookup_def demo_rt_db_def demo_rt_work_def demo_current_def)
  have ids: "cw_work_id demo_rt_work = 10" "cw_work_id ?c = 10" "demo_rt_work \<noteq> ?c" "cw_notes ?c = ''hello''"
    "cw_row_version ?c = 2"
    by (simp_all add: demo_rt_work_def demo_current_def candidate_of_def text_value_def patch_get_def demo_rt_req_def)
  have ok: "valid_routing (routing_of ?c)"
    by (simp add: valid_routing_def routing_of_def candidate_of_def demo_rt_work_def demo_current_def demo_rt_req_def
        text_value_def opt_value_def patch_get_def lifecycle_states_def opt_min1_def root_text_ok_def)
  have known: "work_exists 10 (rdb_works demo_rt_db)" "work_exists 10 (rdb_works demo_rt_after)"
    using work_exists_lookup [OF old] work_exists_lookup [OF demo_after_row] by simp_all
  have keys: "work_get_row w (rdb_works demo_rt_db) = Inr (work_lookup (rdb_works demo_rt_db) w)"
    "work_get_row w (rdb_works demo_rt_after) = Inr (work_lookup (rdb_works demo_rt_after) w)" for w
    using evolves_row [OF demo_moving_evolves, of w 0] evolves_row [OF demo_moving_evolves, of w 3]
    by (simp_all add: demo_moving_def)
  have none: "rdb_reviews demo_rt_db = []" "rdb_reviews demo_rt_after = []"
    by (simp_all add: demo_rt_db_def demo_rt_after_def)
  then have appr: "task_approval demo_rt_env w demo_rt_after = Inr None" for w
    using keys by (simp add: task_approval_def current_approved_baseline_def approved_v2_def current_baselines_def)
  obtain res item where run: "canonical_get demo_rt_env demo_moving 10 0 = (Inr res, 14)" "wr_item res = Some item"
    "wi_notes item = ''hello''"
    using old ids ok known keys appr demo_after_row
    by (simp add: canonical_get_def numeral_2_eq_2 bindP_def public_item_def relations_read_def demo_moving_def
        liftP_def canonical_revision_def item_view_def)
  from work_get_snapshot [OF demo_moving_evolves run(1)] run show ?thesis by blast
qed

text \<open>
  C38. Paging through a history is a snapshot. A client names the revision it observed and follows
  the cursors, one call per page, while other transactions run. Whatever it collects in the end is
  exactly the whole event stream of the work at that revision, in order and once each, however
  many pages and interruptions; no call raises; and if nothing changes the work it does collect
  it, with as many calls as there are events and one more.
\<close>

theorem history_read_snapshot:
  assumes "evolves E h" and "work_lookup (rdb_works (h k)) w = Some c" and "1 \<le> cw_row_version c"
    and "page_ok (rdc_enc C) (rdc_dec C) limit (rdb_works (h k))"
    and "length (events_of w (rdb_works (h k))) < fuel"
  shows "\<exists>out k'. follow_history fuel E C h w (''pg_'' @ rve_revision (rte_review E) w (cw_row_version c)) limit None k
       = (Inr out, k')
     \<and> (out = None \<or> out = Some (map (event_view C) (events_of w (rdb_works (h k)))))
     \<and> ((\<forall>n. work_lookup (rdb_works (h n)) w = Some c) \<longrightarrow> out \<noteq> None)"
  using follow_history_run [OF assms(1-4) history_pages.start [OF assms(4)], of fuel k] assms(5) by simp

definition demo_code :: read_code where
  "demo_code = \<lparr>rdc_digest = (\<lambda>_. ''d''), rdc_enc = demo_event_enc, rdc_dec = demo_event_dec, rdc_iso = (\<lambda>_. ''t'')\<rparr>"

theorem history_read_snapshot_witness:
  "\<exists>k'. follow_history 1 demo_rt_env demo_code (\<lambda>_. demo_rt_after) 10
       (''pg_'' @ rve_revision (rte_review demo_rt_env) 10 2) 1 None 0 = (Inr (Some []), k')"
proof -
  let ?c = "(candidate_of demo_rt_work (pu_patch demo_rt_req))\<lparr>cw_row_version := 2\<rparr>"
  have inv: "runtime_inv demo_rt_env demo_rt_after"
    using evolves_inv [OF demo_moving_evolves, of 3] by (simp add: demo_moving_def)
  have h: "evolves demo_rt_env (\<lambda>_. demo_rt_after)" using inv demo_rt_start(1) by (simp add: evolves_def)
  have "events_inv (rdb_works demo_rt_after)" using runtime_invD(3) [OF inv] by (simp add: relations_inv_def)
  then have ok: "page_ok (rdc_enc demo_code) (rdc_dec demo_code) 1 (rdb_works demo_rt_after)"
    by (simp add: page_ok_def demo_code_def demo_event_dec_enc)
  have none: "events_of 10 (rdb_works demo_rt_after) = []"
    by (simp add: events_of_def demo_rt_after_def demo_canon_def)
  have "1 \<le> cw_row_version ?c" "length (events_of 10 (rdb_works demo_rt_after)) < 1" by (simp_all add: none)
  from history_read_snapshot [OF h demo_after_row this(1) ok this(2), of 0] none demo_after_row show ?thesis by auto
qed

text \<open>
  Suggestions for feedback are useful ones: at most ten, no work twice, never the source, and
  each was, at an instant of the call, an open work of one of the feedback types, shown at its
  revision of that instant, whose title shares a word with the given one.
\<close>

theorem feedback_candidates_sound:
  assumes "evolves E h" and "feedback_candidates E C h title src kinds k = (Inr items, k')"
  shows "length items \<le> 10 \<and> distinct (map si_id items)
     \<and> (\<exists>n. normalize_title (rte_casefold E) title = Inr n
          \<and> (\<forall>s \<in> set items. suggestion E h k k' n src kinds s))"
proof -
  from assms(2) obtain n where n: "normalize_title (rte_casefold E) title = Inr n"
    by (auto simp: feedback_candidates_def bindP_def liftP_def split: sum.split_asm)
  let ?todo = "List.product (title_tokens n) (sort kinds)"
  from assms(2) n obtain found k1 where found: "search_candidates E C h src ?todo [] k = (Inr found, k1)"
    by (auto simp: feedback_candidates_def bindP_def liftP_def split: sum.split_asm prod.split_asm)
  have "set ?todo \<subseteq> set (py_split n) \<times> set kinds"
    by (auto simp: title_tokens_def dest!: in_set_takeD)
  from search_candidates_keep [OF assms(1) found this order_refl]
  have keep: "distinct (map si_id found)" "\<forall>s \<in> set found. suggestion E h k k1 n src kinds s" by simp_all
  from assms(2) n found obtain keyed k2 where
    keyed: "mapP (\<lambda>i. liftP (bindE (candidate_key (rte_casefold E) n i) (\<lambda>k. Inr (k, i)))) found k1 = (Inr keyed, k2)"
    by (auto simp: feedback_candidates_def bindP_def liftP_def split: sum.split_asm prod.split_asm)
  have snds: "map snd keyed = found \<and> k2 = k1"
    using keyed
  proof (induction found arbitrary: keyed)
    case (Cons i found)
    then show ?case
      by (auto simp: bindP_def liftP_def bindE_eq_Inr split: sum.split_asm prod.split_asm)
  qed simp
  have items: "items = take 10 (map snd (sort_key fst keyed))" "k' = k1"
    using assms(2) n found keyed snds by (auto simp: feedback_candidates_def bindP_def liftP_def)
  have "distinct (map (si_id \<circ> snd) keyed)" using keep(1) snds by (simp flip: map_map)
  then have "distinct (map (si_id \<circ> snd) (sort_key fst keyed))" by (simp add: distinct_map)
  then have ids: "distinct (map si_id items)" unfolding items(1) take_map [symmetric] by simp
  have "set items \<subseteq> snd ` set keyed" by (auto simp: items(1) dest: in_set_takeD)
  also have "\<dots> = set found" using snds by (metis set_map)
  finally have "\<forall>s \<in> set items. suggestion E h k k' n src kinds s" using keep(2) items(2) by blast
  with ids n show ?thesis by (simp add: items(1))
qed

text \<open>A title that shares its one word with an open work of the type.\<close>

definition demo_open :: current_work where
  "demo_open = (demo_current 10 ''a'')\<lparr>cw_work_type := Some ''BUG''\<rparr>"

definition demo_open_db :: runtime_db where
  "demo_open_db = put_works (demo_canon\<lparr>cdb_works := [\<lparr>wrow_work = demo_open, wrow_normalized_title = ''a''\<rparr>]\<rparr>) demo_rt_db"

theorem feedback_candidates_sound_witness:
  "\<exists>s k'. feedback_candidates demo_rt_env demo_code (\<lambda>_. demo_open_db) ''a'' 5 [''BUG''] 0 = (Inr [s], k')
     \<and> si_id s = 10 \<and> suggestion demo_rt_env (\<lambda>_. demo_open_db) 0 k' ''a'' 5 [''BUG''] s"
proof -
  have inv: "relations_inv (rdb_works demo_open_db)" "rdb_reviews demo_open_db = []"
    by (simp_all add: relations_inv_def forest_def demo_open_db_def demo_rt_db_def demo_canon_def demo_current_def
        demo_open_def work_exists_def work_keys_def events_inv_def events_of_def acyclic_empty)
  have h: "evolves demo_rt_env (\<lambda>_. demo_open_db)"
    using runtime_start_inv [OF inv] demo_rt_start(1) by (simp add: evolves_def)
  have row: "work_lookup (rdb_works demo_open_db) 10 = Some demo_open"
    by (simp add: work_lookup_def demo_open_db_def demo_open_def demo_current_def)
  have title: "normalize_title (rte_casefold demo_rt_env) ''a'' = Inr ''a''" "py_split ''a'' = [''a'']"
    by (simp_all add: normalize_title_def demo_rt_env_def py_split_def py_space_def)
  have tokens: "title_tokens ''a'' = [''a'']" by (simp add: title_tokens_def title)
  have page: "work_search (rte_casefold demo_rt_env) (rdc_digest demo_code) (rdc_enc demo_code) (rdc_dec demo_code)
      (query_of (candidate_request ''a'' ''BUG'')) 10 (rdb_works demo_open_db) None = Inr ([demo_open], None)"
    by (simp add: work_search_def query_of_def candidate_request_def opt_result_def title bindE_def Let_def key_page_def
        after_key_def query_matches_def opt_eq_def starts_with_def demo_open_db_def demo_open_def demo_current_def)
  have keys: "work_get_row w (rdb_works demo_open_db) = Inr (work_lookup (rdb_works demo_open_db) w)" for w
    using evolves_row [OF h] .
  have appr: "task_approval demo_rt_env w demo_open_db = Inr None" for w
    using keys inv(2) by (simp add: task_approval_def current_approved_baseline_def approved_v2_def current_baselines_def)
  have ids: "cw_work_id demo_open = 10" "cw_row_version demo_open = 1" "cw_title demo_open = ''a''"
    "valid_routing (routing_of demo_open)"
    by (simp_all add: demo_open_def demo_current_def valid_routing_def routing_of_def opt_min1_def root_text_ok_def)
  obtain item k1 where item: "public_item demo_rt_env (\<lambda>_. demo_open_db) demo_open 1 = (Inr (Some item), k1)"
    "wi_id item = 10" "wi_title item = ''a''"
    using row ids keys appr work_exists_lookup [OF row]
    by (simp add: public_item_def relations_read_def bindP_def liftP_def canonical_revision_def item_view_def)
  have valid: "valid_search_request (candidate_request ''a'' ''BUG'')"
    by (simp add: valid_search_request_def candidate_request_def opt_min1_def opt_max_def)
  have found: "canonical_search demo_rt_env demo_code (\<lambda>_. demo_open_db) (candidate_request ''a'' ''BUG'') 0
      = (Inr \<lparr>srr_status = S_ok, srr_items = [search_view item], srr_next_cursor = None\<rparr>, k1)"
    using page item(1) by (simp add: canonical_search_def numeral_2_eq_2 bindP_def candidate_request_def)
  have view: "si_id (search_view item) = 10" "si_title (search_view item) = ''a''"
    using item by (simp_all add: search_view_def)
  have run: "feedback_candidates demo_rt_env demo_code (\<lambda>_. demo_open_db) ''a'' 5 [''BUG''] 0 = (Inr [search_view item], k1)"
    using title tokens valid found view
    by (simp add: feedback_candidates_def bindP_def liftP_def put_found_def candidate_key_def)
  from feedback_candidates_sound [OF h run] title run view show ?thesis by auto
qed

end
