(* ===== verification/Agent_Mailboxes.thy ===== *)
theory Agent_Mailboxes
  imports Canonical_Txn
begin

text \<open>
  Named agent mailboxes (\<open>src/switchstand/mailbox/agent_mailboxes.py\<close>): a name is bound to an
  endpoint, a principal and a session; the generation of the binding moves with every change of
  owner and fences the previous one. Registration, takeover and host-approved transfer are
  transactions on the two mailbox tables. \<open>casefold\<close>, the session digest and \<open>uuid5\<close> are
  parameters.
\<close>

section \<open>Names and sessions\<close>

record mailbox_env =
  mbe_casefold :: "string \<Rightarrow> string"
  mbe_session_digest :: "string \<Rightarrow> string"
  mbe_transfer_id :: "string list \<Rightarrow> uuid"

definition CODEX_COORDINATOR_KEY :: string where
  "CODEX_COORDINATOR_KEY = ''codex-coordinator''"

definition COORDINATOR_DISPLAY_NAME :: string where
  "COORDINATOR_DISPLAY_NAME = ''Codex Coordinator''"

definition LEGACY_ROOT_KEY :: string where
  "LEGACY_ROOT_KEY = ''root''"

definition lower_letter :: "char \<Rightarrow> bool" where
  "lower_letter c = (CHR ''a'' \<le> c \<and> c \<le> CHR ''z'')"

definition key_char :: "char \<Rightarrow> bool" where
  "key_char c = (lower_letter c \<or> CHR ''0'' \<le> c \<and> c \<le> CHR ''9'')"

text \<open>\<open>re.sub(r"[^a-z0-9]+", "-", text)\<close>.\<close>

fun dash_runs :: "bool \<Rightarrow> string \<Rightarrow> string" where
  "dash_runs inside [] = []"
| "dash_runs inside (c # cs) =
     (if key_char c then c # dash_runs False cs
      else if inside then dash_runs True cs else CHR ''-'' # dash_runs True cs)"

definition visible_name :: "string \<Rightarrow> string" where
  "visible_name value = py_join '' '' (py_split value)"

definition agent_name_key :: "(string \<Rightarrow> string) \<Rightarrow> string \<Rightarrow> string py_result" where
  "agent_name_key casefold value =
     (let visible = visible_name value;
          key = strip_chars (\<lambda>c. c = CHR ''-'') (dash_runs False (casefold visible)) in
      if visible = [] \<or> key = [] \<or> \<not> lower_letter (hd key) \<or> length visible > 80 \<or> length key > 80
      then Inl ValueError else Inr key)"

definition chat_session_key :: "(string \<Rightarrow> string) \<Rightarrow> string \<Rightarrow> string py_result" where
  "chat_session_key digest value =
     (if value = [] \<or> length value > 4096 then Inl ValueError else Inr (digest value))"

definition session_agent_type :: "string \<Rightarrow> agent_type" where
  "session_agent_type session =
     (if starts_with session ''codex:'' then Codex
      else if starts_with session ''claude:'' then Claude else Chatgpt)"

definition coordinator_name_keys :: "(string \<Rightarrow> string) \<Rightarrow> string \<Rightarrow> string list py_result" where
  "coordinator_name_keys casefold value =
     bindE (agent_name_key casefold value) (\<lambda>key.
       Inr (if key \<in> {CODEX_COORDINATOR_KEY, LEGACY_ROOT_KEY} then [CODEX_COORDINATOR_KEY, LEGACY_ROOT_KEY]
            else [key]))"

section \<open>Rows and results\<close>

definition valid_mailbox :: "agent_mailbox \<Rightarrow> bool" where
  "valid_mailbox m =
     (1 \<le> length (amb_name m) \<and> length (amb_name m) \<le> 80
      \<and> 1 \<le> length (amb_name_key m) \<and> length (amb_name_key m) \<le> 80
      \<and> lower_letter (hd (amb_name_key m))
      \<and> list_all (\<lambda>c. key_char c \<or> c = CHR ''.'' \<or> c = CHR ''-'') (tl (amb_name_key m))
      \<and> amb_principal_key m \<noteq> [] \<and> amb_session_key m \<noteq> [] \<and> 1 \<le> amb_generation m)"

definition mailbox_view :: "agent_mailbox \<Rightarrow> agent_mailbox py_result" where
  "mailbox_view m = (if valid_mailbox m then Inr m else Inl ValidationError)"

datatype mailbox_status = Mb_ok | Mb_conflict | Mb_denied | Mb_recovery_required

record mailbox_result =
  mbr_status :: mailbox_status
  mbr_mailbox :: "agent_mailbox option"
  mbr_reason :: "string option"

definition mailbox_ok :: "agent_mailbox \<Rightarrow> mailbox_result py_result" where
  "mailbox_ok m =
     bindE (mailbox_view m) (\<lambda>v. Inr \<lparr>mbr_status = Mb_ok, mbr_mailbox = Some v, mbr_reason = None\<rparr>)"

definition mailbox_no :: "mailbox_status \<Rightarrow> string \<Rightarrow> mailbox_result" where
  "mailbox_no st reason = \<lparr>mbr_status = st, mbr_mailbox = None, mbr_reason = Some reason\<rparr>"

abbreviation mailbox_unavailable :: mailbox_result where
  "mailbox_unavailable \<equiv> mailbox_no Mb_recovery_required ''state_unavailable''"

text \<open>The unique keys: the name, the endpoint, and the principal with the session.\<close>

definition owner_key :: "agent_mailbox \<Rightarrow> string \<times> string" where
  "owner_key m = (amb_principal_key m, amb_session_key m)"

definition mailbox_keys :: "agent_mailbox list \<Rightarrow> bool" where
  "mailbox_keys ms =
     (distinct (map amb_name_key ms) \<and> distinct (map amb_endpoint_id ms) \<and> distinct (map owner_key ms)
      \<and> list_all (\<lambda>m. 1 \<le> amb_generation m) ms)"

abbreviation by_key :: "string \<Rightarrow> agent_mailbox list \<Rightarrow> agent_mailbox list" where
  "by_key key \<equiv> filter (\<lambda>m. amb_name_key m = key)"

abbreviation by_owner :: "string \<times> string \<Rightarrow> agent_mailbox list \<Rightarrow> agent_mailbox list" where
  "by_owner owner \<equiv> filter (\<lambda>m. owner_key m = owner)"

text \<open>\<open>INSERT ... ON CONFLICT DO NOTHING\<close> and \<open>UPDATE\<close> under the constraints.\<close>

definition insert_mailbox :: "agent_mailbox \<Rightarrow> runtime_db \<Rightarrow> runtime_db" where
  "insert_mailbox m db =
     (if mailbox_keys (rdb_mailboxes db @ [m]) then db\<lparr>rdb_mailboxes := rdb_mailboxes db @ [m]\<rparr> else db)"

definition update_mailbox ::
  "(agent_mailbox \<Rightarrow> bool) \<Rightarrow> (agent_mailbox \<Rightarrow> agent_mailbox) \<Rightarrow> runtime_db \<Rightarrow> runtime_db py_result" where
  "update_mailbox p f db =
     (let ms = map (\<lambda>m. if p m then f m else m) (rdb_mailboxes db) in
      if mailbox_keys ms then Inr (db\<lparr>rdb_mailboxes := ms\<rparr>) else Inl IntegrityError)"

section \<open>Registration\<close>

definition new_mailbox :: "uuid \<Rightarrow> string \<Rightarrow> string \<Rightarrow> string \<times> string \<Rightarrow> string \<Rightarrow> agent_mailbox" where
  "new_mailbox fresh display key owner session =
     \<lparr>amb_name = display, amb_name_key = key, amb_endpoint_id = fresh, amb_principal_key = fst owner,
      amb_session_key = snd owner, amb_generation = 1, amb_agent_type = Some (session_agent_type session)\<rparr>"

definition retyped :: "string \<Rightarrow> agent_mailbox \<Rightarrow> agent_mailbox" where
  "retyped session m = m\<lparr>amb_agent_type := Some (session_agent_type session)\<rparr>"

definition register_in ::
  "mailbox_env \<Rightarrow> uuid \<Rightarrow> string \<Rightarrow> string \<Rightarrow> string \<Rightarrow> runtime_db \<Rightarrow> (mailbox_result \<times> runtime_db) py_result" where
  "register_in E fresh name pkey session db =
     bindE (agent_name_key (mbe_casefold E) name) (\<lambda>key.
     bindE (chat_session_key (mbe_session_digest E) session) (\<lambda>skey.
     bindE (one_or_none (by_owner (pkey, skey) (rdb_mailboxes db))) (\<lambda>prior.
     case prior of
       Some m \<Rightarrow>
         bindE (update_mailbox (\<lambda>x. amb_name_key x = amb_name_key m) (retyped session) db) (\<lambda>db'.
         bindE (mailbox_ok (retyped session m)) (\<lambda>r. Inr (r, db')))
     | None \<Rightarrow>
         if key \<in> {CODEX_COORDINATOR_KEY, LEGACY_ROOT_KEY}
         then Inr (mailbox_no Mb_denied ''reserved_name_requires_takeover'', db)
         else
           let db' = insert_mailbox (new_mailbox fresh (visible_name name) key (pkey, skey) session) db in
           bindE (one_or_none (by_owner (pkey, skey) (rdb_mailboxes db'))) (\<lambda>mine.
           case mine of
             Some m \<Rightarrow> bindE (mailbox_ok m) (\<lambda>r. Inr (r, db'))
           | None \<Rightarrow>
               bindE (one_or_none (by_key key (rdb_mailboxes db'))) (\<lambda>bound.
               Inr (if bound \<noteq> None then mailbox_no Mb_conflict ''name_collision'' else mailbox_unavailable,
                    db'))))))"

text \<open>\<open>except (IntegrityError, SQLAlchemyError, TypeError, ValueError)\<close>.\<close>

definition mailbox_handlers :: "py_error \<Rightarrow> mailbox_result py_result" where
  "mailbox_handlers e =
     (if is_sqlalchemy_error e \<or> e = TypeError \<or> is_value_error e then Inr mailbox_unavailable else Inl e)"

definition mailbox_call ::
  "(runtime_db \<Rightarrow> (mailbox_result \<times> runtime_db) py_result) \<Rightarrow> txn_end \<Rightarrow> runtime_db
     \<Rightarrow> mailbox_result py_result \<times> runtime_db" where
  "mailbox_call body t db = one_attempt mailbox_handlers (\<lambda>_. body) (0, t) db"

definition register_agent ::
  "mailbox_env \<Rightarrow> uuid \<Rightarrow> string \<Rightarrow> string \<Rightarrow> string \<Rightarrow> txn_end \<Rightarrow> runtime_db \<Rightarrow> mailbox_result py_result \<times> runtime_db" where
  "register_agent E fresh name pkey session = mailbox_call (register_in E fresh name pkey session)"

section \<open>Lookups\<close>

definition guarded_read :: "mailbox_result py_result \<Rightarrow> mailbox_result py_result" where
  "guarded_read r = (case r of Inl e \<Rightarrow> mailbox_handlers e | Inr x \<Rightarrow> Inr x)"

definition by_name :: "mailbox_env \<Rightarrow> string \<Rightarrow> runtime_db \<Rightarrow> mailbox_result py_result" where
  "by_name E name db = guarded_read (
     bindE (coordinator_name_keys (mbe_casefold E) name) (\<lambda>keys.
     case filter (\<lambda>m. amb_name_key m \<in> set keys) (rdb_mailboxes db) of
       [] \<Rightarrow> Inr (mailbox_no Mb_denied ''mailbox_not_found'')
     | [m] \<Rightarrow> mailbox_ok m
     | _ \<Rightarrow> Inr mailbox_unavailable))"

definition by_endpoint_id :: "uuid \<Rightarrow> runtime_db \<Rightarrow> mailbox_result py_result" where
  "by_endpoint_id endpoint db = guarded_read (
     bindE (one_or_none (filter (\<lambda>m. amb_endpoint_id m = endpoint) (rdb_mailboxes db))) (\<lambda>row.
     if_none row (Inr (mailbox_no Mb_denied ''mailbox_not_found'')) mailbox_ok))"

definition for_actor :: "mailbox_env \<Rightarrow> string \<Rightarrow> string \<Rightarrow> runtime_db \<Rightarrow> mailbox_result py_result" where
  "for_actor E pkey session db = guarded_read (
     bindE (chat_session_key (mbe_session_digest E) session) (\<lambda>skey.
     bindE (one_or_none (by_owner (pkey, skey) (rdb_mailboxes db))) (\<lambda>row.
     if_none row (Inr (mailbox_no Mb_denied ''agent_not_registered'')) mailbox_ok)))"

definition for_session :: "mailbox_env \<Rightarrow> string \<Rightarrow> runtime_db \<Rightarrow> mailbox_result py_result" where
  "for_session E session db = guarded_read (
     bindE (chat_session_key (mbe_session_digest E) session) (\<lambda>skey.
     case take 2 (filter (\<lambda>m. amb_session_key m = skey) (rdb_mailboxes db)) of
       [] \<Rightarrow> Inr (mailbox_no Mb_denied ''agent_not_registered'')
     | [m] \<Rightarrow> mailbox_ok m
     | _ \<Rightarrow> Inr mailbox_unavailable))"

section \<open>Takeover\<close>

text \<open>A missing name is registered for the caller, or the caller's own mailbox is renamed to it.\<close>

definition claim_name ::
  "uuid \<Rightarrow> string \<Rightarrow> string \<Rightarrow> string \<times> string \<Rightarrow> string \<Rightarrow> runtime_db \<Rightarrow> (mailbox_result option \<times> runtime_db) py_result" where
  "claim_name fresh name key owner session db =
     bindE (one_or_none (by_owner owner (rdb_mailboxes db))) (\<lambda>prior.
     case prior of
       None \<Rightarrow> Inr (None, insert_mailbox (new_mailbox fresh (visible_name name) key owner session) db)
     | Some m \<Rightarrow>
         if amb_name_key m \<in> {CODEX_COORDINATOR_KEY, LEGACY_ROOT_KEY}
         then Inr (Some (mailbox_no Mb_conflict ''session_already_registered''), db)
         else bindE (update_mailbox (\<lambda>x. amb_name_key x = amb_name_key m)
                (\<lambda>x. x\<lparr>amb_name_key := key, amb_name := visible_name name\<rparr>) db) (\<lambda>db'. Inr (None, db')))"

text \<open>The owner of a locked row changes, and its generation with it.\<close>

definition moved :: "string \<times> string \<Rightarrow> agent_type option \<Rightarrow> agent_mailbox \<Rightarrow> agent_mailbox" where
  "moved owner kind m =
     m\<lparr>amb_principal_key := fst owner, amb_session_key := snd owner, amb_agent_type := kind,
       amb_generation := amb_generation m + 1\<rparr>"

definition move_owner ::
  "(agent_mailbox \<Rightarrow> bool) \<Rightarrow> (agent_mailbox \<Rightarrow> agent_mailbox) \<Rightarrow> agent_mailbox \<Rightarrow> runtime_db
     \<Rightarrow> (mailbox_result \<times> runtime_db) py_result" where
  "move_owner p f m db =
     bindE (update_mailbox p f db) (\<lambda>db'.
     if \<not> list_ex p (rdb_mailboxes db) then Inr (mailbox_unavailable, db')
     else bindE (mailbox_ok (f m)) (\<lambda>r. Inr (r, db')))"

definition takeover_row ::
  "string \<Rightarrow> string \<times> string \<Rightarrow> string \<Rightarrow> bool \<Rightarrow> agent_mailbox \<Rightarrow> runtime_db \<Rightarrow> (mailbox_result \<times> runtime_db) py_result" where
  "takeover_row key owner session allow m db =
     (if amb_principal_key m \<noteq> fst owner \<and> \<not> allow then Inr (mailbox_no Mb_denied ''principal_mismatch'', db)
      else if owner_key m = owner
      then bindE (update_mailbox (\<lambda>x. amb_name_key x = key) (retyped session) db) (\<lambda>db'.
           bindE (mailbox_ok (retyped session m)) (\<lambda>r. Inr (r, db')))
      else
        bindE (one_or_none (filter (\<lambda>x. owner_key x = owner \<and> amb_name_key x \<noteq> key) (rdb_mailboxes db))) (\<lambda>prior.
        if prior \<noteq> None then Inr (mailbox_no Mb_conflict ''session_already_registered'', db)
        else
          move_owner (\<lambda>x. amb_name_key x = key \<and> amb_generation x = amb_generation m)
            (moved owner (Some (session_agent_type session))) m db))"

definition takeover_in ::
  "mailbox_env \<Rightarrow> uuid \<Rightarrow> string \<Rightarrow> string \<Rightarrow> string \<Rightarrow> bool \<Rightarrow> runtime_db \<Rightarrow> (mailbox_result \<times> runtime_db) py_result" where
  "takeover_in E fresh name pkey session allow db =
     bindE (agent_name_key (mbe_casefold E) name) (\<lambda>key.
     bindE (chat_session_key (mbe_session_digest E) session) (\<lambda>skey.
     bindE (one_or_none (by_key key (rdb_mailboxes db))) (\<lambda>row.
     case row of
       Some m \<Rightarrow> takeover_row key (pkey, skey) session allow m db
     | None \<Rightarrow>
         bindE (claim_name fresh name key (pkey, skey) session db) (\<lambda>(early, db1).
         case early of
           Some r \<Rightarrow> Inr (r, db1)
         | None \<Rightarrow>
             bindE (one_or_none (by_key key (rdb_mailboxes db1))) (\<lambda>row1.
             case row1 of
               None \<Rightarrow> Inr (mailbox_unavailable, db1)
             | Some m \<Rightarrow> takeover_row key (pkey, skey) session allow m db1)))))"

definition takeover ::
  "mailbox_env \<Rightarrow> uuid \<Rightarrow> string \<Rightarrow> string \<Rightarrow> string \<Rightarrow> bool \<Rightarrow> txn_end \<Rightarrow> runtime_db
     \<Rightarrow> mailbox_result py_result \<times> runtime_db" where
  "takeover E fresh name pkey session allow = mailbox_call (takeover_in E fresh name pkey session allow)"

definition coordinator_in ::
  "mailbox_env \<Rightarrow> string \<Rightarrow> string \<Rightarrow> bool \<Rightarrow> runtime_db \<Rightarrow> (mailbox_result \<times> runtime_db) py_result" where
  "coordinator_in E pkey session allow db =
     bindE (chat_session_key (mbe_session_digest E) session) (\<lambda>skey.
     case filter (\<lambda>m. amb_name_key m \<in> {CODEX_COORDINATOR_KEY, LEGACY_ROOT_KEY}) (rdb_mailboxes db) of
       [] \<Rightarrow> Inr (mailbox_no Mb_denied ''mailbox_not_found'', db)
     | [m] \<Rightarrow>
         if amb_principal_key m \<noteq> pkey \<and> \<not> allow then Inr (mailbox_no Mb_denied ''principal_mismatch'', db)
         else if owner_key m = (pkey, skey) \<and> amb_name_key m = CODEX_COORDINATOR_KEY
                 \<and> amb_agent_type m = Some (session_agent_type session)
         then bindE (mailbox_ok m) (\<lambda>r. Inr (r, db))
         else
           bindE (one_or_none (filter (\<lambda>x. owner_key x = (pkey, skey) \<and> amb_name_key x \<noteq> amb_name_key m)
             (rdb_mailboxes db))) (\<lambda>prior.
           if prior \<noteq> None then Inr (mailbox_no Mb_conflict ''session_already_registered'', db)
           else
             let f = (\<lambda>x. (moved (pkey, skey) (Some (session_agent_type session)) x)
                   \<lparr>amb_name_key := CODEX_COORDINATOR_KEY, amb_name := COORDINATOR_DISPLAY_NAME\<rparr>) in
             move_owner (\<lambda>x. amb_name_key x = amb_name_key m \<and> amb_generation x = amb_generation m) f m db)
     | _ \<Rightarrow> Inr (mailbox_unavailable, db))"

definition takeover_coordinator ::
  "mailbox_env \<Rightarrow> string \<Rightarrow> string \<Rightarrow> bool \<Rightarrow> txn_end \<Rightarrow> runtime_db \<Rightarrow> mailbox_result py_result \<times> runtime_db" where
  "takeover_coordinator E pkey session allow = mailbox_call (coordinator_in E pkey session allow)"

section \<open>Transfers\<close>

datatype transfer_answer = Tr_pending | Tr_approved | Tr_stale | Tr_conflict | Tr_denied | Tr_recovery_required

record transfer_result =
  trr_status :: transfer_answer
  trr_request_id :: "uuid option"
  trr_name :: "string option"
  trr_endpoint_id :: "uuid option"
  trr_generation :: "int option"
  trr_reason :: "string option"

definition transfer_no :: "transfer_answer \<Rightarrow> uuid option \<Rightarrow> string option \<Rightarrow> transfer_result" where
  "transfer_no st rid reason =
     \<lparr>trr_status = st, trr_request_id = rid, trr_name = None, trr_endpoint_id = None, trr_generation = None,
      trr_reason = reason\<rparr>"

definition transfer_yes :: "transfer_answer \<Rightarrow> uuid \<Rightarrow> string \<Rightarrow> uuid \<Rightarrow> int option \<Rightarrow> transfer_result" where
  "transfer_yes st rid name endpoint generation =
     \<lparr>trr_status = st, trr_request_id = Some rid, trr_name = Some name, trr_endpoint_id = Some endpoint,
      trr_generation = generation, trr_reason = None\<rparr>"

text \<open>\<open>str\<close> of an integer; what the request identity is the digest of.\<close>

fun nat_str :: "nat \<Rightarrow> string" where
  "nat_str n = (if n < 10 then [char_of (48 + n)] else nat_str (n div 10) @ [char_of (48 + n mod 10)])"

declare nat_str.simps [simp del]

definition int_str :: "int \<Rightarrow> string" where
  "int_str n = (if n < 0 then CHR ''-'' # nat_str (nat (- n)) else nat_str (nat n))"

definition transfer_identity :: "agent_mailbox \<Rightarrow> string \<times> string \<Rightarrow> string list" where
  "transfer_identity m destination =
     [uuid_str (amb_endpoint_id m), int_str (amb_generation m), amb_principal_key m, amb_session_key m,
      fst destination, snd destination]"

definition new_transfer :: "uuid \<Rightarrow> string \<Rightarrow> agent_mailbox \<Rightarrow> string \<times> string \<Rightarrow> agent_type \<Rightarrow> int \<Rightarrow> transfer_row" where
  "new_transfer rid key m destination kind now =
     \<lparr>trq_request_id = rid, trq_name_key = key, trq_endpoint_id = amb_endpoint_id m,
      trq_expected_generation = amb_generation m, trq_source_principal_key = amb_principal_key m,
      trq_source_session_key = amb_session_key m, trq_destination_principal_key = fst destination,
      trq_destination_session_key = snd destination, trq_destination_agent_type = Some kind,
      trq_status = PENDING, trq_reason = None, trq_resulting_generation = None, trq_created_at = now,
      trq_resolved_at = None\<rparr>"

fun settled_answer :: "transfer_status \<Rightarrow> transfer_answer" where
  "settled_answer STALE_transfer = Tr_stale"
| "settled_answer CONFLICT_transfer = Tr_conflict"
| "settled_answer _ = Tr_recovery_required"

definition request_transfer_in ::
  "mailbox_env \<Rightarrow> int \<Rightarrow> string \<Rightarrow> string \<Rightarrow> string \<Rightarrow> runtime_db \<Rightarrow> (transfer_result \<times> runtime_db) py_result" where
  "request_transfer_in E now name pkey session db =
     bindE (agent_name_key (mbe_casefold E) name) (\<lambda>key.
     bindE (chat_session_key (mbe_session_digest E) session) (\<lambda>skey.
     bindE (one_or_none (by_key key (rdb_mailboxes db))) (\<lambda>row.
     case row of
       None \<Rightarrow> Inr (transfer_no Tr_denied None (Some ''mailbox_not_found''), db)
     | Some m \<Rightarrow>
         if amb_principal_key m = pkey
         then Inr (transfer_no Tr_denied None (Some ''same_principal_use_takeover''), db)
         else
           bindE (one_or_none (by_owner (pkey, skey) (rdb_mailboxes db))) (\<lambda>prior.
           if prior \<noteq> None then Inr (transfer_no Tr_conflict None (Some ''session_already_registered''), db)
           else
             let rid = mbe_transfer_id E (transfer_identity m (pkey, skey));
                 new = new_transfer rid key m (pkey, skey) (session_agent_type session) now;
                 db' = (if rid \<in> set (map trq_request_id (rdb_transfers db)) then db
                        else db\<lparr>rdb_transfers := rdb_transfers db @ [new]\<rparr>) in
             case find (\<lambda>t. trq_request_id t = rid) (rdb_transfers db') of
               None \<Rightarrow> Inl SQLAlchemyError
             | Some t \<Rightarrow>
                 Inr (case trq_status t of
                        APPROVED_transfer \<Rightarrow>
                          transfer_yes Tr_approved rid (amb_name m) (amb_endpoint_id m) (trq_resulting_generation t)
                      | PENDING \<Rightarrow>
                          transfer_yes Tr_pending rid (amb_name m) (amb_endpoint_id m) (Some (amb_generation m))
                      | st \<Rightarrow> transfer_no (settled_answer st) (Some rid) (trq_reason t), db')))))"

definition settle_transfer :: "uuid \<Rightarrow> (transfer_row \<Rightarrow> transfer_row) \<Rightarrow> runtime_db \<Rightarrow> runtime_db" where
  "settle_transfer rid f db =
     db\<lparr>rdb_transfers := map (\<lambda>t. if trq_request_id t = rid then f t else t) (rdb_transfers db)\<rparr>"

definition transfer_preimage :: "transfer_row \<Rightarrow> uuid \<times> int \<times> string \<times> string" where
  "transfer_preimage t =
     (trq_endpoint_id t, trq_expected_generation t, trq_source_principal_key t, trq_source_session_key t)"

definition mailbox_image :: "agent_mailbox \<Rightarrow> uuid \<times> int \<times> string \<times> string" where
  "mailbox_image m = (amb_endpoint_id m, amb_generation m, amb_principal_key m, amb_session_key m)"

definition approve_transfer_in :: "int \<Rightarrow> uuid \<Rightarrow> runtime_db \<Rightarrow> (transfer_result \<times> runtime_db) py_result" where
  "approve_transfer_in now rid db =
     bindE (one_or_none (filter (\<lambda>t. trq_request_id t = rid) (rdb_transfers db))) (\<lambda>request.
     case request of
       None \<Rightarrow> Inr (transfer_no Tr_denied (Some rid) (Some ''mailbox_not_found''), db)
     | Some t \<Rightarrow>
         bindE (one_or_none (by_key (trq_name_key t) (rdb_mailboxes db))) (\<lambda>row.
         case trq_status t of
           APPROVED_transfer \<Rightarrow>
             Inr (transfer_yes Tr_approved rid (case row of Some m \<Rightarrow> amb_name m | None \<Rightarrow> trq_name_key t)
               (trq_endpoint_id t) (trq_resulting_generation t), db)
         | PENDING \<Rightarrow>
             (case row of
                Some m \<Rightarrow>
                  if mailbox_image m \<noteq> transfer_preimage t
                  then Inr (transfer_no Tr_stale (Some rid) (Some ''mailbox_changed''),
                    settle_transfer rid (\<lambda>t. t\<lparr>trq_status := STALE_transfer, trq_reason := Some ''mailbox_changed'',
                      trq_resolved_at := Some now\<rparr>) db)
                  else
                    bindE (one_or_none (filter (\<lambda>x. owner_key x
                        = (trq_destination_principal_key t, trq_destination_session_key t)
                        \<and> amb_name_key x \<noteq> trq_name_key t) (rdb_mailboxes db))) (\<lambda>collision.
                    if collision \<noteq> None
                    then Inr (transfer_no Tr_conflict (Some rid) (Some ''session_already_registered''),
                      settle_transfer rid (\<lambda>t. t\<lparr>trq_status := CONFLICT_transfer,
                        trq_reason := Some ''session_already_registered'', trq_resolved_at := Some now\<rparr>) db)
                    else
                      bindE (update_mailbox (\<lambda>x. amb_name_key x = trq_name_key t
                          \<and> amb_generation x = trq_expected_generation t)
                        (moved (trq_destination_principal_key t, trq_destination_session_key t)
                          (trq_destination_agent_type t)) db) (\<lambda>db'.
                      if \<not> list_ex (\<lambda>x. amb_name_key x = trq_name_key t
                          \<and> amb_generation x = trq_expected_generation t) (rdb_mailboxes db)
                      then Inl RuntimeError
                      else Inr (transfer_yes Tr_approved rid (amb_name m) (amb_endpoint_id m) (Some (amb_generation m + 1)),
                        settle_transfer rid (\<lambda>t. t\<lparr>trq_status := APPROVED_transfer, trq_reason := None,
                          trq_resulting_generation := Some (amb_generation m + 1), trq_resolved_at := Some now\<rparr>) db')))
              | None \<Rightarrow>
                  Inr (transfer_no Tr_stale (Some rid) (Some ''mailbox_changed''),
                    settle_transfer rid (\<lambda>t. t\<lparr>trq_status := STALE_transfer, trq_reason := Some ''mailbox_changed'',
                      trq_resolved_at := Some now\<rparr>) db))
         | st \<Rightarrow> Inr (transfer_no (settled_answer st) (Some rid) (trq_reason t), db)))"

definition transfer_handlers :: "uuid option \<Rightarrow> py_error \<Rightarrow> transfer_result py_result" where
  "transfer_handlers rid e =
     (if is_sqlalchemy_error e \<or> e = TypeError \<or> is_value_error e \<or> e = RuntimeError \<and> rid \<noteq> None
      then Inr (transfer_no Tr_recovery_required rid (Some ''state_unavailable'')) else Inl e)"

definition request_transfer ::
  "mailbox_env \<Rightarrow> string \<Rightarrow> string \<Rightarrow> string \<Rightarrow> int \<times> txn_end \<Rightarrow> runtime_db \<Rightarrow> transfer_result py_result \<times> runtime_db" where
  "request_transfer E name pkey session =
     one_attempt (transfer_handlers None) (\<lambda>now. request_transfer_in E now name pkey session)"

definition approve_transfer :: "uuid \<Rightarrow> int \<times> txn_end \<Rightarrow> runtime_db \<Rightarrow> transfer_result py_result \<times> runtime_db" where
  "approve_transfer rid = one_attempt (transfer_handlers (Some rid)) (\<lambda>now. approve_transfer_in now rid)"

section \<open>Effects\<close>

text \<open>
  Every transaction keeps the unique keys, loses no mailbox, and changes the owner of an endpoint
  only together with its generation.
\<close>

definition mailbox_effect :: "agent_mailbox list \<Rightarrow> agent_mailbox list \<Rightarrow> bool" where
  "mailbox_effect ms ms' =
     (mailbox_keys ms'
      \<and> (\<forall>m \<in> set ms. \<exists>m' \<in> set ms'. amb_endpoint_id m' = amb_endpoint_id m
           \<and> (mailbox_image m' = mailbox_image m \<or> amb_generation m < amb_generation m')))"

lemma bindE_left:
  assumes "bindE m f = Inr x"
  obtains y where "m = Inr y"
  using assms by (cases m) (auto simp: bindE_def)

lemma one_or_none_mem:
  assumes "one_or_none (filter P xs) = Inr (Some x)"
  shows "x \<in> set xs" and "P x"
proof -
  from assms have "x \<in> set (filter P xs)" by (simp add: one_or_none_Some)
  then show "x \<in> set xs" "P x" by simp_all
qed

lemma mailbox_effect_refl: "mailbox_keys ms \<Longrightarrow> mailbox_effect ms ms"
  by (auto simp: mailbox_effect_def)

lemma mailbox_effect_trans:
  assumes "mailbox_effect ms ms'" and "mailbox_effect ms' ms''"
  shows "mailbox_effect ms ms''"
  unfolding mailbox_effect_def
proof (intro conjI ballI)
  show "mailbox_keys ms''" using assms(2) by (simp add: mailbox_effect_def)
  fix m assume "m \<in> set ms"
  with assms(1) obtain m1 where m1: "m1 \<in> set ms'" "amb_endpoint_id m1 = amb_endpoint_id m"
    "mailbox_image m1 = mailbox_image m \<or> amb_generation m < amb_generation m1" by (auto simp: mailbox_effect_def)
  with assms(2) obtain m2 where m2: "m2 \<in> set ms''" "amb_endpoint_id m2 = amb_endpoint_id m1"
    "mailbox_image m2 = mailbox_image m1 \<or> amb_generation m1 < amb_generation m2" by (auto simp: mailbox_effect_def)
  have gen: "amb_generation x = amb_generation y" if "mailbox_image x = mailbox_image y" for x y
    using that by (simp add: mailbox_image_def)
  have "mailbox_image m2 = mailbox_image m \<or> amb_generation m < amb_generation m2"
    using m1(3) m2(3) gen [of m1 m] gen [of m2 m1] by (metis less_trans)
  with m1(2) m2(1,2) show "\<exists>m' \<in> set ms''. amb_endpoint_id m' = amb_endpoint_id m
      \<and> (mailbox_image m' = mailbox_image m \<or> amb_generation m < amb_generation m')"
    by (intro bexI [of _ m2]) simp_all
qed

lemma insert_mailbox_effect:
  assumes "mailbox_keys (rdb_mailboxes db)"
  shows "mailbox_effect (rdb_mailboxes db) (rdb_mailboxes (insert_mailbox m db))"
  using assms by (auto simp: mailbox_effect_def insert_mailbox_def)

lemma update_mailbox_run:
  assumes "update_mailbox p f db = Inr db'"
  shows "db' = db\<lparr>rdb_mailboxes := map (\<lambda>m. if p m then f m else m) (rdb_mailboxes db)\<rparr>"
    and "mailbox_keys (rdb_mailboxes db')"
  using assms by (auto simp: update_mailbox_def Let_def split: if_split_asm)

lemma update_mailbox_effect:
  assumes run: "update_mailbox p f db = Inr db'"
    and f: "\<And>m. p m \<Longrightarrow> amb_endpoint_id (f m) = amb_endpoint_id m
       \<and> (mailbox_image (f m) = mailbox_image m \<or> amb_generation m < amb_generation (f m))"
  shows "mailbox_effect (rdb_mailboxes db) (rdb_mailboxes db')"
  unfolding mailbox_effect_def
proof (intro conjI ballI)
  show "mailbox_keys (rdb_mailboxes db')" using update_mailbox_run(2) [OF run] .
  fix m assume m: "m \<in> set (rdb_mailboxes db)"
  let ?m = "if p m then f m else m"
  have "?m \<in> set (rdb_mailboxes db')" using m unfolding update_mailbox_run(1) [OF run] by simp
  moreover have "amb_endpoint_id ?m = amb_endpoint_id m \<and> (mailbox_image ?m = mailbox_image m \<or> amb_generation m < amb_generation ?m)"
    using f by simp
  ultimately show "\<exists>m' \<in> set (rdb_mailboxes db'). amb_endpoint_id m' = amb_endpoint_id m
      \<and> (mailbox_image m' = mailbox_image m \<or> amb_generation m < amb_generation m')" by blast
qed

lemma moved_simps [simp]:
  "amb_endpoint_id (moved owner kind m) = amb_endpoint_id m"
  "amb_generation (moved owner kind m) = amb_generation m + 1"
  "amb_principal_key (moved owner kind m) = fst owner"
  by (simp_all add: moved_def)

lemma retyped_simps [simp]:
  "amb_endpoint_id (retyped session m) = amb_endpoint_id m"
  "mailbox_image (retyped session m) = mailbox_image m"
  by (simp_all add: retyped_def mailbox_image_def)

lemma mailbox_ok_db:
  "bindE (mailbox_ok m) (\<lambda>r. Inr (r, db')) = Inr (x, db'') \<Longrightarrow> db'' = db'"
  by (auto simp: bindE_eq_Inr)

lemmas effect_rules = mailbox_effect_refl insert_mailbox_effect

lemma takeover_row_effect:
  assumes keys: "mailbox_keys (rdb_mailboxes db)"
    and run: "takeover_row key owner session allow m db = Inr (r, db')"
  shows "mailbox_effect (rdb_mailboxes db) (rdb_mailboxes db')"
  using run keys
  by (auto simp: takeover_row_def move_owner_def bindE_eq_Inr intro: effect_rules elim!: update_mailbox_effect
      split: if_split_asm)

lemma claim_name_effect:
  assumes keys: "mailbox_keys (rdb_mailboxes db)"
    and run: "claim_name fresh name key owner session db = Inr (early, db')"
  shows "mailbox_effect (rdb_mailboxes db) (rdb_mailboxes db')"
proof -
  obtain prior where prior: "one_or_none (by_owner owner (rdb_mailboxes db)) = Inr prior"
    using run by (auto simp: claim_name_def bindE_eq_Inr)
  show ?thesis
    by (cases prior) (use run prior keys in \<open>auto simp: claim_name_def bindE_eq_Inr mailbox_image_def
        intro: effect_rules elim!: update_mailbox_effect split: if_split_asm\<close>)
qed

lemma register_effect:
  assumes keys: "mailbox_keys (rdb_mailboxes db)" and run: "register_in E fresh name pkey session db = Inr (r, db')"
  shows "mailbox_effect (rdb_mailboxes db) (rdb_mailboxes db')"
proof -
  obtain key skey prior where k: "agent_name_key (mbe_casefold E) name = Inr key"
    "chat_session_key (mbe_session_digest E) session = Inr skey"
    "one_or_none (by_owner (pkey, skey) (rdb_mailboxes db)) = Inr prior"
    using run by (auto simp: register_in_def bindE_eq_Inr)
  note run = run [unfolded register_in_def k bindE_simps]
  show ?thesis
  proof (cases prior)
    case None
    with run keys show ?thesis
      by (auto simp: bindE_eq_Inr Let_def intro: effect_rules split: if_split_asm option.split_asm)
  next
    case (Some m)
    with run show ?thesis by (auto simp: bindE_eq_Inr elim!: update_mailbox_effect)
  qed
qed

lemma takeover_effect:
  assumes keys: "mailbox_keys (rdb_mailboxes db)"
    and run: "takeover_in E fresh name pkey session allow db = Inr (r, db')"
  shows "mailbox_effect (rdb_mailboxes db) (rdb_mailboxes db')"
proof -
  from run obtain key skey row where k: "agent_name_key (mbe_casefold E) name = Inr key"
    "chat_session_key (mbe_session_digest E) session = Inr skey"
    "one_or_none (by_key key (rdb_mailboxes db)) = Inr row"
    by (auto simp: takeover_in_def bindE_eq_Inr)
  note run = run [unfolded takeover_in_def k bindE_simps]
  show ?thesis
  proof (cases row)
    case (Some m)
    with run takeover_row_effect [OF keys] show ?thesis by simp
  next
    case None
    with run obtain early db1 where c: "claim_name fresh name key (pkey, skey) session db = Inr (early, db1)"
      by (auto simp: bindE_eq_Inr)
    note claimed = claim_name_effect [OF keys c]
    then have keys1: "mailbox_keys (rdb_mailboxes db1)" by (simp add: mailbox_effect_def)
    from run None c consider "db' = db1" | m where
      "takeover_row key (pkey, skey) session allow m db1 = Inr (r, db')"
      by (auto simp: bindE_eq_Inr split: option.split_asm)
    then show ?thesis
    proof cases
      case (2 m)
      from mailbox_effect_trans [OF claimed takeover_row_effect [OF keys1 2]] show ?thesis .
    qed (use claimed in simp)
  qed
qed

lemma coordinator_effect:
  assumes keys: "mailbox_keys (rdb_mailboxes db)" and run: "coordinator_in E pkey session allow db = Inr (r, db')"
  shows "mailbox_effect (rdb_mailboxes db) (rdb_mailboxes db')"
proof -
  obtain skey where s: "chat_session_key (mbe_session_digest E) session = Inr skey"
    using run by (auto simp: coordinator_in_def bindE_eq_Inr)
  let ?rows = "filter (\<lambda>m. amb_name_key m \<in> {CODEX_COORDINATOR_KEY, LEGACY_ROOT_KEY}) (rdb_mailboxes db)"
  note run = run [unfolded coordinator_in_def s bindE_simps]
  show ?thesis
  proof (cases ?rows)
    case Nil
    from run [unfolded Nil list.case] mailbox_effect_refl [OF keys] show ?thesis by simp
  next
    case (Cons m rest)
    note run = run [unfolded Cons list.case]
    show ?thesis
    proof (cases rest)
      case Nil
      from run [unfolded Nil list.case] keys show ?thesis
        by (auto simp: move_owner_def bindE_eq_Inr Let_def intro: effect_rules elim!: update_mailbox_effect
            split: if_split_asm)
    next
      case (Cons x y)
      from run [unfolded Cons list.case] mailbox_effect_refl [OF keys] show ?thesis by simp
    qed
  qed
qed

text \<open>Transfers: the request changes no mailbox; the approval moves exactly the requested one.\<close>

lemma request_transfer_effect:
  assumes "request_transfer_in E now name pkey session db = Inr (r, db')"
  shows "rdb_mailboxes db' = rdb_mailboxes db"
    and "rdb_transfers db' = rdb_transfers db \<or> (\<exists>t. rdb_transfers db' = rdb_transfers db @ [t] \<and> trq_status t = PENDING
           \<and> trq_request_id t \<notin> set (map trq_request_id (rdb_transfers db)))"
proof -
  obtain key skey row where k: "agent_name_key (mbe_casefold E) name = Inr key"
    "chat_session_key (mbe_session_digest E) session = Inr skey"
    "one_or_none (by_key key (rdb_mailboxes db)) = Inr row"
    using assms by (auto simp: request_transfer_in_def bindE_eq_Inr)
  note run = assms [unfolded request_transfer_in_def k bindE_simps]
  have "rdb_mailboxes db' = rdb_mailboxes db \<and> (rdb_transfers db' = rdb_transfers db
     \<or> (\<exists>t. rdb_transfers db' = rdb_transfers db @ [t] \<and> trq_status t = PENDING
           \<and> trq_request_id t \<notin> set (map trq_request_id (rdb_transfers db))))"
  proof (cases row)
    case (Some m)
    from run [unfolded Some option.case] show ?thesis
      by (auto simp: bindE_eq_Inr Let_def new_transfer_def split: if_split_asm option.split_asm)
  qed (use run in simp)
  then show "rdb_mailboxes db' = rdb_mailboxes db"
    "rdb_transfers db' = rdb_transfers db \<or> (\<exists>t. rdb_transfers db' = rdb_transfers db @ [t] \<and> trq_status t = PENDING
           \<and> trq_request_id t \<notin> set (map trq_request_id (rdb_transfers db)))" by blast+
qed

lemma approve_transfer_cases:
  assumes "approve_transfer_in now rid db = Inr (r, db')"
  obtains (same) "db' = db"
    | (closed) t f where "t \<in> set (rdb_transfers db)" "trq_request_id t = rid" "trq_status t = PENDING"
        "db' = settle_transfer rid f db" "\<And>t. trq_request_id (f t) = trq_request_id t \<and> trq_status (f t) \<noteq> PENDING"
    | (approved) t f m db1 where "t \<in> set (rdb_transfers db)" "trq_request_id t = rid" "trq_status t = PENDING"
        "m \<in> set (rdb_mailboxes db)" "amb_name_key m = trq_name_key t" "mailbox_image m = transfer_preimage t"
        "update_mailbox (\<lambda>x. amb_name_key x = trq_name_key t \<and> amb_generation x = trq_expected_generation t)
           (moved (trq_destination_principal_key t, trq_destination_session_key t) (trq_destination_agent_type t)) db
           = Inr db1"
        "db' = settle_transfer rid f db1" "\<And>t. trq_request_id (f t) = trq_request_id t \<and> trq_status (f t) \<noteq> PENDING"
proof -
  obtain req where req: "one_or_none (filter (\<lambda>t. trq_request_id t = rid) (rdb_transfers db)) = Inr req"
    using assms by (auto simp: approve_transfer_in_def bindE_eq_Inr)
  note run = assms [unfolded approve_transfer_in_def req bindE_simps]
  show thesis
  proof (cases req)
    case None
    show thesis by (rule same) (use run None in simp)
  next
    case (Some t)
    note t = one_or_none_mem [OF req [unfolded Some]]
    note run = run [unfolded Some option.case]
    obtain row where row: "one_or_none (by_key (trq_name_key t) (rdb_mailboxes db)) = Inr row"
      by (rule bindE_left [OF run])
    note run = run [unfolded row bindE_simps]
    show thesis
    proof (cases "trq_status t")
      case PENDING
      note run = run [unfolded PENDING transfer_status.case]
      show thesis
      proof (cases row)
        case None
        show thesis
          by (rule closed [OF t PENDING, of "\<lambda>t. t\<lparr>trq_status := STALE_transfer,
            trq_reason := Some ''mailbox_changed'', trq_resolved_at := Some now\<rparr>"]) (use run None in simp_all)
      next
        case row': (Some m)
        note m = one_or_none_mem [OF row [unfolded row']]
        note run = run [unfolded row' option.case]
        show thesis
        proof (cases "mailbox_image m = transfer_preimage t")
          case False
          show thesis
            by (rule closed [OF t PENDING, of "\<lambda>t. t\<lparr>trq_status := STALE_transfer,
              trq_reason := Some ''mailbox_changed'', trq_resolved_at := Some now\<rparr>"]) (use run False in simp_all)
        next
          case True
          with run obtain c where c: "one_or_none (filter (\<lambda>x. owner_key x
              = (trq_destination_principal_key t, trq_destination_session_key t)
              \<and> amb_name_key x \<noteq> trq_name_key t) (rdb_mailboxes db)) = Inr c"
            by (auto simp: bindE_eq_Inr)
          note run = run [unfolded c bindE_simps]
          show thesis
          proof (cases c)
            case None
            with run True obtain db1 where db1: "update_mailbox (\<lambda>x. amb_name_key x = trq_name_key t
                \<and> amb_generation x = trq_expected_generation t)
                (moved (trq_destination_principal_key t, trq_destination_session_key t) (trq_destination_agent_type t)) db
                = Inr db1"
              by (auto simp: bindE_eq_Inr)
            show thesis
              by (rule approved [OF t PENDING m True db1, of "\<lambda>t. t\<lparr>trq_status := APPROVED_transfer,
                trq_reason := None, trq_resulting_generation := Some (amb_generation m + 1),
                trq_resolved_at := Some now\<rparr>"]) (use run True None db1 in \<open>simp_all split: if_split_asm\<close>)
          next
            case (Some x)
            show thesis
              by (rule closed [OF t PENDING, of "\<lambda>t. t\<lparr>trq_status := CONFLICT_transfer,
                trq_reason := Some ''session_already_registered'', trq_resolved_at := Some now\<rparr>"])
                (use run True Some in simp_all)
          qed
        qed
      qed
    qed (rule same, use run in simp)+
  qed
qed

section \<open>Bindings over time\<close>

text \<open>\<open>_current_agent_binding\<close> (\<open>mailbox/messages.py\<close>): the binding is the current one of its endpoint.\<close>

definition current_agent_binding :: "agent_mailbox \<Rightarrow> runtime_db \<Rightarrow> bool py_result" where
  "current_agent_binding b db =
     bindE (one_or_none (filter (\<lambda>m. mailbox_image m = mailbox_image b) (rdb_mailboxes db))) (\<lambda>row. Inr (row \<noteq> None))"

lemma current_binding_iff:
  assumes "mailbox_keys (rdb_mailboxes db)"
  shows "current_agent_binding b db = Inr (\<exists>m \<in> set (rdb_mailboxes db). mailbox_image m = mailbox_image b)"
proof -
  have "distinct (map mailbox_image (rdb_mailboxes db))"
    using assms by (auto simp: mailbox_keys_def mailbox_image_def distinct_map inj_on_def)
  note find = one_or_none_unique_key [OF this, of "mailbox_image b"]
  show ?thesis
    unfolding current_agent_binding_def find bindE_simps
    using find_None_iff [of "\<lambda>m. mailbox_image m = mailbox_image b" "rdb_mailboxes db"] by auto
qed

datatype mailbox_op =
    Register uuid string string string
  | Take_over uuid string string string bool
  | Take_coordinator string string bool
  | Request_transfer string string string
  | Approve_transfer uuid

fun op_in :: "mailbox_env \<Rightarrow> int \<Rightarrow> mailbox_op \<Rightarrow> runtime_db \<Rightarrow> (unit \<times> runtime_db) py_result" where
  "op_in E now (Register fresh name pkey session) db =
     bindE (register_in E fresh name pkey session db) (\<lambda>(_, db'). Inr ((), db'))"
| "op_in E now (Take_over fresh name pkey session allow) db =
     bindE (takeover_in E fresh name pkey session allow db) (\<lambda>(_, db'). Inr ((), db'))"
| "op_in E now (Take_coordinator pkey session allow) db =
     bindE (coordinator_in E pkey session allow db) (\<lambda>(_, db'). Inr ((), db'))"
| "op_in E now (Request_transfer name pkey session) db =
     bindE (request_transfer_in E now name pkey session db) (\<lambda>(_, db'). Inr ((), db'))"
| "op_in E now (Approve_transfer rid) db =
     bindE (approve_transfer_in now rid db) (\<lambda>(_, db'). Inr ((), db'))"

text \<open>The mailbox transactions, with any fault, among others that leave the two tables alone.\<close>

inductive mailbox_step :: "mailbox_env \<Rightarrow> runtime_db \<Rightarrow> runtime_db \<Rightarrow> bool" for E where
  mb_op: "in_transaction t (op_in E now op) db = (r, db') \<Longrightarrow> mailbox_step E db db'"
| mb_other: "rdb_mailboxes db' = rdb_mailboxes db \<Longrightarrow> rdb_transfers db' = rdb_transfers db \<Longrightarrow> mailbox_step E db db'"

abbreviation mailbox_steps :: "mailbox_env \<Rightarrow> runtime_db \<Rightarrow> runtime_db \<Rightarrow> bool" where
  "mailbox_steps E \<equiv> (mailbox_step E)\<^sup>*\<^sup>*"

lemma in_transaction_state:
  "in_transaction t body db = (r, db') \<Longrightarrow> db' = db \<or> (\<exists>x. body db = Inr (x, db'))"
  by (auto simp: in_transaction_def split: sum.split_asm prod.split_asm txn_end.split_asm)

lemma settle_mailboxes [simp]: "rdb_mailboxes (settle_transfer rid f db) = rdb_mailboxes db"
  by (simp add: settle_transfer_def)

lemma approve_effect:
  assumes keys: "mailbox_keys (rdb_mailboxes db)" and run: "approve_transfer_in now rid db = Inr (r, db')"
  shows "mailbox_effect (rdb_mailboxes db) (rdb_mailboxes db')"
  using run
proof (cases rule: approve_transfer_cases)
  case (approved t f m db1)
  from approved(7) have "mailbox_effect (rdb_mailboxes db) (rdb_mailboxes db1)" by (rule update_mailbox_effect) simp
  with approved(8) show ?thesis by simp
qed (use mailbox_effect_refl [OF keys] in simp_all)

lemma op_effect:
  assumes keys: "mailbox_keys (rdb_mailboxes db)" and run: "op_in E now op db = Inr (x, db')"
  shows "mailbox_effect (rdb_mailboxes db) (rdb_mailboxes db')"
proof (cases op)
  case (Request_transfer name pkey session)
  with run obtain y where "request_transfer_in E now name pkey session db = Inr (y, db')" by (auto simp: bindE_eq_Inr)
  from request_transfer_effect(1) [OF this] mailbox_effect_refl [OF keys] show ?thesis by simp
qed (use run in \<open>auto simp: bindE_eq_Inr dest: register_effect [OF keys] takeover_effect [OF keys]
      coordinator_effect [OF keys] approve_effect [OF keys]\<close>)

lemma mailbox_step_effect:
  assumes "mailbox_step E db db'" and keys: "mailbox_keys (rdb_mailboxes db)"
  shows "mailbox_effect (rdb_mailboxes db) (rdb_mailboxes db')"
  using assms(1)
proof cases
  case (mb_op t now op r)
  from in_transaction_state [OF this] show ?thesis
    using op_effect [OF keys] mailbox_effect_refl [OF keys] by blast
qed (simp add: mailbox_effect_refl [OF keys])

lemma mailbox_steps_effect:
  assumes "mailbox_steps E db db'" and "mailbox_keys (rdb_mailboxes db)"
  shows "mailbox_effect (rdb_mailboxes db) (rdb_mailboxes db')"
  using assms
proof (induction rule: rtranclp_induct)
  case base
  then show ?case by (rule mailbox_effect_refl)
next
  case (step y z)
  then have "mailbox_effect (rdb_mailboxes db) (rdb_mailboxes y)" by blast
  moreover from this have "mailbox_keys (rdb_mailboxes y)" by (simp add: mailbox_effect_def)
  ultimately show ?case using mailbox_step_effect [OF step(2)] mailbox_effect_trans by blast
qed

text \<open>
  C17. A mailbox binding that was lost never becomes current again: whatever registrations,
  takeovers and transfers follow, even back to the same principal and session, the fence on a
  binding that an agent still holds stays closed.
\<close>

theorem lost_binding_never_returns:
  assumes "mailbox_keys (rdb_mailboxes db0)" and "mailbox_steps E db0 db1" and "mailbox_steps E db1 db2"
    and "current_agent_binding b db0 = Inr True" and "current_agent_binding b db1 = Inr False"
  shows "current_agent_binding b db2 = Inr False"
proof -
  from mailbox_steps_effect [OF assms(2,1)] have e1: "mailbox_effect (rdb_mailboxes db0) (rdb_mailboxes db1)" .
  then have keys1: "mailbox_keys (rdb_mailboxes db1)" by (simp add: mailbox_effect_def)
  from mailbox_steps_effect [OF assms(3) keys1] have e2: "mailbox_effect (rdb_mailboxes db1) (rdb_mailboxes db2)" .
  then have keys2: "mailbox_keys (rdb_mailboxes db2)" by (simp add: mailbox_effect_def)
  from assms(4) obtain m0 where m0: "m0 \<in> set (rdb_mailboxes db0)" "mailbox_image m0 = mailbox_image b"
    by (auto simp: current_binding_iff [OF assms(1)])
  with e1 obtain m1 where m1: "m1 \<in> set (rdb_mailboxes db1)" "amb_endpoint_id m1 = amb_endpoint_id m0"
    "mailbox_image m1 = mailbox_image m0 \<or> amb_generation m0 < amb_generation m1" by (auto simp: mailbox_effect_def)
  with assms(5) m0(2) have less: "amb_generation b < amb_generation m1"
    by (auto simp: current_binding_iff [OF keys1] mailbox_image_def)
  from e2 m1(1) obtain m2 where m2: "m2 \<in> set (rdb_mailboxes db2)" "amb_endpoint_id m2 = amb_endpoint_id m1"
    "mailbox_image m2 = mailbox_image m1 \<or> amb_generation m1 < amb_generation m2" by (auto simp: mailbox_effect_def)
  have "mailbox_image m \<noteq> mailbox_image b" if m: "m \<in> set (rdb_mailboxes db2)" for m
  proof
    assume same: "mailbox_image m = mailbox_image b"
    then have "amb_endpoint_id m = amb_endpoint_id m2" using m0(2) m1(2) m2(2) by (simp add: mailbox_image_def)
    moreover have "distinct (map amb_endpoint_id (rdb_mailboxes db2))" using keys2 by (simp add: mailbox_keys_def)
    ultimately have "m = m2" using m m2(1) by (metis distinct_map inj_onD)
    with same less m2(3) show False by (auto simp: mailbox_image_def)
  qed
  then show ?thesis by (auto simp: current_binding_iff [OF keys2])
qed

text \<open>A session takes its principal's mailbox over, and the fenced one takes it back.\<close>

definition demo_mailbox :: agent_mailbox where
  "demo_mailbox = \<lparr>amb_name = ''a'', amb_name_key = ''a'', amb_endpoint_id = 1, amb_principal_key = ''p'',
     amb_session_key = ''s'', amb_generation = 1, amb_agent_type = None\<rparr>"

definition demo_mail_env :: mailbox_env where
  "demo_mail_env = \<lparr>mbe_casefold = id, mbe_session_digest = id, mbe_transfer_id = (\<lambda>_. 9)\<rparr>"

definition demo_mail_db :: "agent_mailbox list \<Rightarrow> runtime_db" where
  "demo_mail_db ms = \<lparr>rdb_grants = \<lparr>gdb_grants = [], gdb_intents = []\<rparr>, rdb_store = review_start demo_canon,
     rdb_handles = [], rdb_prs = [], rdb_pr_links = [], rdb_messages = [], rdb_deliveries = [],
     rdb_mailboxes = ms, rdb_transfers = [], rdb_receipts = []\<rparr>"

abbreviation demo_bound :: "string \<Rightarrow> int \<Rightarrow> agent_mailbox" where
  "demo_bound s n \<equiv> demo_mailbox\<lparr>amb_session_key := s, amb_generation := n, amb_agent_type := Some Chatgpt\<rparr>"

lemma demo_name_key: "agent_name_key (mbe_casefold demo_mail_env) ''a'' = Inr ''a''"
  by (simp add: agent_name_key_def visible_name_def py_split_def py_space_def demo_mail_env_def Let_def key_char_def
      lower_letter_def strip_chars_def)

lemma demo_takeover:
  assumes "s \<noteq> s'" and s': "s' = [c]" and "1 \<le> n"
  shows "op_in demo_mail_env 0 (Take_over 5 ''a'' ''p'' s' False) (demo_mail_db [demo_bound s n])
    = Inr ((), demo_mail_db [demo_bound s' (n + 1)])"
proof -
  have key: "chat_session_key (mbe_session_digest demo_mail_env) s' = Inr s'"
    by (simp add: chat_session_key_def demo_mail_env_def s')
  have kind: "session_agent_type s' = Chatgpt" by (simp add: session_agent_type_def starts_with_def s')
  have row: "takeover_row ''a'' (''p'', s') s' False (demo_bound s n) (demo_mail_db [demo_bound s n])
      = Inr (\<lparr>mbr_status = Mb_ok, mbr_mailbox = Some (demo_bound s' (n + 1)), mbr_reason = None\<rparr>,
             demo_mail_db [demo_bound s' (n + 1)])"
    using assms(1,3)
    by (simp add: takeover_row_def demo_mail_db_def demo_mailbox_def owner_key_def move_owner_def update_mailbox_def
        mailbox_keys_def moved_def kind [unfolded s'] mailbox_ok_def mailbox_view_def valid_mailbox_def lower_letter_def s')
  have found: "one_or_none (by_key ''a'' (rdb_mailboxes (demo_mail_db [demo_bound s n]))) = Inr (Some (demo_bound s n))"
    by (simp add: demo_mail_db_def demo_mailbox_def)
  show ?thesis unfolding op_in.simps takeover_in_def demo_name_key key bindE_simps found option.case row by simp
qed

theorem lost_binding_never_returns_witness:
  "\<exists>db1 db2. mailbox_steps demo_mail_env (demo_mail_db [demo_bound ''s'' 1]) db1
     \<and> mailbox_steps demo_mail_env db1 db2
     \<and> (\<exists>m \<in> set (rdb_mailboxes db2). owner_key m = owner_key (demo_bound ''s'' 1))
     \<and> current_agent_binding (demo_bound ''s'' 1) db2 = Inr False"
proof -
  let ?db0 = "demo_mail_db [demo_bound ''s'' 1]" and ?db1 = "demo_mail_db [demo_bound ''t'' 2]"
    and ?db2 = "demo_mail_db [demo_bound ''s'' 3]"
  have "in_transaction Commits (op_in demo_mail_env 0 (Take_over 5 ''a'' ''p'' ''t'' False)) ?db0 = (Inr (), ?db1)"
    unfolding in_transaction_def by (subst demo_takeover) simp_all
  then have s1: "mailbox_steps demo_mail_env ?db0 ?db1" using mb_op by blast
  have "in_transaction Commits (op_in demo_mail_env 0 (Take_over 5 ''a'' ''p'' ''s'' False)) ?db1 = (Inr (), ?db2)"
    unfolding in_transaction_def by (subst demo_takeover) simp_all
  then have s2: "mailbox_steps demo_mail_env ?db1 ?db2" using mb_op by blast
  have keys: "mailbox_keys (rdb_mailboxes ?db0)" by (simp add: mailbox_keys_def demo_mail_db_def demo_mailbox_def)
  have "current_agent_binding (demo_bound ''s'' 1) ?db0 = Inr True" "current_agent_binding (demo_bound ''s'' 1) ?db1 = Inr False"
    by (simp_all add: current_agent_binding_def demo_mail_db_def mailbox_image_def)
  from lost_binding_never_returns [OF keys s1 s2 this] s1 s2 show ?thesis
    by (intro exI [of _ ?db1] exI [of _ ?db2]) (simp add: demo_mail_db_def owner_key_def demo_mailbox_def)
qed

section \<open>Who may move a mailbox\<close>

definition same_principals :: "agent_mailbox list \<Rightarrow> agent_mailbox list \<Rightarrow> bool" where
  "same_principals ms ms' =
     (\<forall>m \<in> set ms. \<forall>m' \<in> set ms'. amb_endpoint_id m' = amb_endpoint_id m \<longrightarrow> amb_principal_key m' = amb_principal_key m)"

lemma mailbox_unique:
  assumes "mailbox_keys ms" and "m \<in> set ms" and "m' \<in> set ms"
  shows "amb_endpoint_id m = amb_endpoint_id m' \<Longrightarrow> m = m'" and "amb_name_key m = amb_name_key m' \<Longrightarrow> m = m'"
proof -
  have "inj_on amb_endpoint_id (set ms)" "inj_on amb_name_key (set ms)"
    using assms(1) by (simp_all add: mailbox_keys_def distinct_map)
  then show "amb_endpoint_id m = amb_endpoint_id m' \<Longrightarrow> m = m'" and "amb_name_key m = amb_name_key m' \<Longrightarrow> m = m'"
    using assms(2,3) by (simp_all only: inj_on_eq_iff)
qed

lemma same_principals_refl:
  assumes "mailbox_keys ms"
  shows "same_principals ms ms"
  unfolding same_principals_def
proof (intro ballI impI)
  fix m m' assume "m \<in> set ms" "m' \<in> set ms" "amb_endpoint_id m' = amb_endpoint_id m"
  then have "m' = m" using mailbox_unique(1) [OF assms] by blast
  then show "amb_principal_key m' = amb_principal_key m" by simp
qed

lemma insert_same_principals:
  assumes "mailbox_keys (rdb_mailboxes db)"
  shows "same_principals (rdb_mailboxes db) (rdb_mailboxes (insert_mailbox x db))"
proof (cases "mailbox_keys (rdb_mailboxes db @ [x])")
  case True
  then have fresh: "amb_endpoint_id x \<notin> amb_endpoint_id ` set (rdb_mailboxes db)" by (simp add: mailbox_keys_def)
  have ms: "rdb_mailboxes (insert_mailbox x db) = rdb_mailboxes db @ [x]" by (simp add: insert_mailbox_def True)
  show ?thesis
    unfolding same_principals_def ms
  proof (intro ballI impI)
    fix m m' assume m: "m \<in> set (rdb_mailboxes db)" "m' \<in> set (rdb_mailboxes db @ [x])"
      "amb_endpoint_id m' = amb_endpoint_id m"
    with fresh have "m' \<noteq> x" by force
    with m have "m' = m" using mailbox_unique(1) [OF assms, of m' m] by simp
    then show "amb_principal_key m' = amb_principal_key m" by simp
  qed
qed (simp add: insert_mailbox_def same_principals_refl [OF assms])

lemma update_same_principals:
  assumes "mailbox_keys (rdb_mailboxes db)" and "update_mailbox p f db = Inr db'"
    and f: "\<And>m. m \<in> set (rdb_mailboxes db) \<Longrightarrow> p m \<Longrightarrow> amb_endpoint_id (f m) = amb_endpoint_id m
         \<and> amb_principal_key (f m) = amb_principal_key m"
  shows "same_principals (rdb_mailboxes db) (rdb_mailboxes db')"
  unfolding same_principals_def
proof (intro ballI impI)
  fix m m' assume m: "m \<in> set (rdb_mailboxes db)" "m' \<in> set (rdb_mailboxes db')" "amb_endpoint_id m' = amb_endpoint_id m"
  then obtain x where x: "x \<in> set (rdb_mailboxes db)" "m' = (if p x then f x else x)"
    by (auto simp: update_mailbox_run(1) [OF assms(2)])
  then have same: "amb_endpoint_id m' = amb_endpoint_id x" "amb_principal_key m' = amb_principal_key x"
    using f [OF x(1)] by auto
  with m(3) have "x = m" using mailbox_unique(1) [OF assms(1) x(1) m(1)] by simp
  with same show "amb_principal_key m' = amb_principal_key m" by simp
qed

lemma retyped_principal [simp]: "amb_principal_key (retyped session m) = amb_principal_key m"
  by (simp add: retyped_def)

text \<open>Without the flag a row stays with its principal.\<close>

lemma takeover_row_principals:
  assumes keys: "mailbox_keys (rdb_mailboxes db)" and m: "m \<in> set (rdb_mailboxes db)" "amb_name_key m = key"
    and run: "takeover_row key owner session False m db = Inr (r, db')"
  shows "same_principals (rdb_mailboxes db) (rdb_mailboxes db')"
proof (cases "amb_principal_key m = fst owner")
  case False
  with run have "db' = db" by (simp add: takeover_row_def)
  with same_principals_refl [OF keys] show ?thesis by simp
next
  case True
  have row: "x = m" if "x \<in> set (rdb_mailboxes db)" "amb_name_key x = key" for x
    using mailbox_unique(2) [OF keys that(1) m(1)] that(2) m(2) by simp
  show ?thesis
  proof (cases "owner_key m = owner")
    case owned: True
    with run True have "update_mailbox (\<lambda>x. amb_name_key x = key) (retyped session) db = Inr db'"
      by (auto simp: takeover_row_def bindE_eq_Inr)
    from update_same_principals [OF keys this] show ?thesis by simp
  next
    case False
    then have "takeover_row key owner session False m db =
        bindE (one_or_none (filter (\<lambda>x. owner_key x = owner \<and> amb_name_key x \<noteq> key) (rdb_mailboxes db))) (\<lambda>prior.
        if prior \<noteq> None then Inr (mailbox_no Mb_conflict ''session_already_registered'', db)
        else move_owner (\<lambda>x. amb_name_key x = key \<and> amb_generation x = amb_generation m)
            (moved owner (Some (session_agent_type session))) m db)"
      using True by (simp add: takeover_row_def)
    with run consider "db' = db"
      | "update_mailbox (\<lambda>x. amb_name_key x = key \<and> amb_generation x = amb_generation m)
           (moved owner (Some (session_agent_type session))) db = Inr db'"
      by (auto simp: bindE_eq_Inr move_owner_def split: if_split_asm)
    then show ?thesis
    proof cases
      case 2
      show ?thesis by (rule update_same_principals [OF keys 2]) (use row True in auto)
    qed (use same_principals_refl [OF keys] in simp)
  qed
qed

lemma same_principals_trans:
  assumes "same_principals ms ms'" and "mailbox_effect ms ms'" and "same_principals ms' ms''"
  shows "same_principals ms ms''"
  using assms unfolding same_principals_def mailbox_effect_def by metis

lemma claim_name_principals:
  assumes keys: "mailbox_keys (rdb_mailboxes db)"
    and run: "claim_name fresh name key owner session db = Inr (early, db')"
  shows "same_principals (rdb_mailboxes db) (rdb_mailboxes db')"
proof -
  obtain prior where prior: "one_or_none (by_owner owner (rdb_mailboxes db)) = Inr prior"
    using run by (auto simp: claim_name_def bindE_eq_Inr)
  show ?thesis
    by (cases prior) (use run prior keys in \<open>auto simp: claim_name_def bindE_eq_Inr
        intro: same_principals_refl insert_same_principals elim!: update_same_principals [OF keys] split: if_split_asm\<close>)
qed

lemma takeover_principals:
  assumes keys: "mailbox_keys (rdb_mailboxes db)" and run: "takeover_in E fresh name pkey session False db = Inr (r, db')"
  shows "same_principals (rdb_mailboxes db) (rdb_mailboxes db')"
proof -
  from run obtain key skey row where k: "agent_name_key (mbe_casefold E) name = Inr key"
    "chat_session_key (mbe_session_digest E) session = Inr skey"
    "one_or_none (by_key key (rdb_mailboxes db)) = Inr row"
    by (auto simp: takeover_in_def bindE_eq_Inr)
  note run = run [unfolded takeover_in_def k bindE_simps]
  show ?thesis
  proof (cases row)
    case (Some m)
    from takeover_row_principals [OF keys one_or_none_mem [OF k(3) [unfolded Some]]] run Some show ?thesis by simp
  next
    case None
    with run obtain early db1 where c: "claim_name fresh name key (pkey, skey) session db = Inr (early, db1)"
      by (auto simp: bindE_eq_Inr)
    note claimed = claim_name_effect [OF keys c] and same = claim_name_principals [OF keys c]
    then have keys1: "mailbox_keys (rdb_mailboxes db1)" by (simp add: mailbox_effect_def)
    note run = run [unfolded None option.case c bindE_simps prod.case]
    show ?thesis
    proof (cases early)
      case (Some x)
      with run same show ?thesis by simp
    next
      case None
      note run = run [unfolded None option.case]
      obtain row1 where row1: "one_or_none (by_key key (rdb_mailboxes db1)) = Inr row1" by (rule bindE_left [OF run])
      note run = run [unfolded row1 bindE_simps]
      show ?thesis
      proof (cases row1)
        case None
        with run same show ?thesis by simp
      next
        case (Some m)
        from takeover_row_principals [OF keys1 one_or_none_mem [OF row1 [unfolded Some]]] run Some
        have "same_principals (rdb_mailboxes db1) (rdb_mailboxes db')" by simp
        from same_principals_trans [OF same claimed this] show ?thesis .
      qed
    qed
  qed
qed

lemma register_principals:
  assumes keys: "mailbox_keys (rdb_mailboxes db)" and run: "register_in E fresh name pkey session db = Inr (r, db')"
  shows "same_principals (rdb_mailboxes db) (rdb_mailboxes db')"
proof -
  obtain key skey prior where k: "agent_name_key (mbe_casefold E) name = Inr key"
    "chat_session_key (mbe_session_digest E) session = Inr skey"
    "one_or_none (by_owner (pkey, skey) (rdb_mailboxes db)) = Inr prior"
    using run by (auto simp: register_in_def bindE_eq_Inr)
  note run = run [unfolded register_in_def k bindE_simps]
  show ?thesis
  proof (cases prior)
    case None
    with run keys show ?thesis
      by (auto simp: bindE_eq_Inr Let_def intro: same_principals_refl insert_same_principals
          split: if_split_asm option.split_asm)
  next
    case (Some m)
    with run show ?thesis by (auto simp: bindE_eq_Inr elim!: update_same_principals [OF keys])
  qed
qed

lemma coordinator_principals:
  assumes keys: "mailbox_keys (rdb_mailboxes db)" and run: "coordinator_in E pkey session False db = Inr (r, db')"
  shows "same_principals (rdb_mailboxes db) (rdb_mailboxes db')"
proof -
  note refl = same_principals_refl [OF keys]
  obtain skey where s: "chat_session_key (mbe_session_digest E) session = Inr skey"
    by (rule bindE_left [OF run [unfolded coordinator_in_def]])
  let ?rows = "filter (\<lambda>m. amb_name_key m \<in> {CODEX_COORDINATOR_KEY, LEGACY_ROOT_KEY}) (rdb_mailboxes db)"
  note run = run [unfolded coordinator_in_def s bindE_simps]
  show ?thesis
  proof (cases ?rows)
    case Nil
    from run [unfolded Nil list.case] refl show ?thesis by simp
  next
    case (Cons m rest)
    have "m \<in> set ?rows" unfolding Cons by simp
    then have m: "m \<in> set (rdb_mailboxes db)" by simp
    note run = run [unfolded Cons list.case]
    show ?thesis
    proof (cases "rest = [] \<and> amb_principal_key m = pkey")
      case False
      with run refl show ?thesis by (cases rest) simp_all
    next
      case True
      let ?f = "\<lambda>x. (moved (pkey, skey) (Some (session_agent_type session)) x)
          \<lparr>amb_name_key := CODEX_COORDINATOR_KEY, amb_name := COORDINATOR_DISPLAY_NAME\<rparr>"
      let ?p = "\<lambda>x. amb_name_key x = amb_name_key m \<and> amb_generation x = amb_generation m"
      have "db' = db \<or> update_mailbox ?p ?f db = Inr db'"
        using run True by (auto simp: move_owner_def bindE_eq_Inr Let_def split: if_split_asm)
      then show ?thesis
      proof
        assume upd: "update_mailbox ?p ?f db = Inr db'"
        show ?thesis
        proof (rule update_same_principals [OF keys upd])
          fix x assume x: "x \<in> set (rdb_mailboxes db)" "?p x"
          then have "x = m" using mailbox_unique(2) [OF keys x(1) m] by simp
          with True show "amb_endpoint_id (?f x) = amb_endpoint_id x \<and> amb_principal_key (?f x) = amb_principal_key x"
            by simp
        qed
      qed (use refl in simp)
    qed
  qed
qed

text \<open>
  C18. A mailbox changes its principal only with authority. Registration, an ordinary takeover and a
  transfer request never move a mailbox to another principal; that takes the privileged takeover
  flag, or the approval of a pending transfer whose recorded source is exactly the present binding.
  Such an approval gives the mailbox to the recorded destination at the next generation and
  settles the request, so it cannot be approved a second time.
\<close>

theorem mailbox_moves_authorised:
  assumes keys: "mailbox_keys (rdb_mailboxes db)" and run: "in_transaction e (op_in E now op) db = (r, db')"
    and m: "m \<in> set (rdb_mailboxes db)" and m': "m' \<in> set (rdb_mailboxes db')" "amb_endpoint_id m' = amb_endpoint_id m"
    and diff: "amb_principal_key m' \<noteq> amb_principal_key m"
  shows "(\<exists>fresh name pkey session. op = Take_over fresh name pkey session True)
     \<or> (\<exists>pkey session. op = Take_coordinator pkey session True)
     \<or> (\<exists>rid t. op = Approve_transfer rid \<and> t \<in> set (rdb_transfers db) \<and> trq_request_id t = rid \<and> trq_status t = PENDING
          \<and> mailbox_image m = transfer_preimage t
          \<and> owner_key m' = (trq_destination_principal_key t, trq_destination_session_key t)
          \<and> amb_generation m' = amb_generation m + 1
          \<and> (\<forall>t' \<in> set (rdb_transfers db'). trq_request_id t' = rid \<longrightarrow> trq_status t' \<noteq> PENDING))"
proof -
  have moved': "\<not> same_principals (rdb_mailboxes db) (rdb_mailboxes db')"
    using m m' diff by (auto simp: same_principals_def)
  with same_principals_refl [OF keys] have "db' \<noteq> db" by auto
  with in_transaction_state [OF run] obtain x where x: "op_in E now op db = Inr (x, db')" by blast
  show ?thesis
  proof (cases op)
    case (Register fresh name pkey session)
    with x obtain y where y: "register_in E fresh name pkey session db = Inr (y, db')" by (auto simp: bindE_eq_Inr)
    from moved' register_principals [OF keys y] show ?thesis by simp
  next
    case (Take_over fresh name pkey session allow)
    with x obtain y where y: "takeover_in E fresh name pkey session allow db = Inr (y, db')" by (auto simp: bindE_eq_Inr)
    with moved' takeover_principals [OF keys] Take_over show ?thesis by (cases allow) auto
  next
    case (Take_coordinator pkey session allow)
    with x obtain y where y: "coordinator_in E pkey session allow db = Inr (y, db')" by (auto simp: bindE_eq_Inr)
    with moved' coordinator_principals [OF keys] Take_coordinator show ?thesis by (cases allow) auto
  next
    case (Request_transfer name pkey session)
    with x obtain y where y: "request_transfer_in E now name pkey session db = Inr (y, db')" by (auto simp: bindE_eq_Inr)
    from request_transfer_effect(1) [OF this] moved' same_principals_refl [OF keys] show ?thesis by simp
  next
    case (Approve_transfer rid)
    with x obtain y where y: "approve_transfer_in now rid db = Inr (y, db')" by (auto simp: bindE_eq_Inr)
    from y show ?thesis
    proof (cases rule: approve_transfer_cases)
      case (approved t f n db1)
      let ?p = "\<lambda>x. amb_name_key x = trq_name_key t \<and> amb_generation x = trq_expected_generation t"
      let ?f = "moved (trq_destination_principal_key t, trq_destination_session_key t) (trq_destination_agent_type t)"
      note db1 = update_mailbox_run(1) [OF approved(7)]
      from m'(1) approved(8) obtain z where z: "z \<in> set (rdb_mailboxes db)" "m' = (if ?p z then ?f z else z)"
        by (auto simp: db1)
      then have "amb_endpoint_id z = amb_endpoint_id m" using m'(2) by (auto split: if_split_asm)
      with mailbox_unique(1) [OF keys z(1) m] have zm: "z = m" by simp
      with z(2) diff have p: "?p m" "m' = ?f m" by (auto split: if_split_asm)
      with mailbox_unique(2) [OF keys m approved(4)] approved(5) have "m = n" by simp
      moreover have "rdb_transfers db' = map (\<lambda>t. if trq_request_id t = rid then f t else t) (rdb_transfers db)"
        using approved(8) by (simp add: settle_transfer_def db1)
      ultimately show ?thesis using Approve_transfer approved(1,2,3,6,9) p
        by (auto simp: owner_key_def moved_def)
    qed (use moved' same_principals_refl [OF keys] in simp_all)
  qed
qed

definition demo_transfer :: transfer_row where
  "demo_transfer = new_transfer 9 ''a'' (demo_bound ''s'' 1) (''q'', ''t'') Chatgpt 0"

lemma demo_approve:
  "op_in demo_mail_env 5 (Approve_transfer 9) (demo_mail_db [demo_bound ''s'' 1]\<lparr>rdb_transfers := [demo_transfer]\<rparr>)
     = Inr ((), demo_mail_db [(demo_bound ''t'' 2)\<lparr>amb_principal_key := ''q''\<rparr>]
         \<lparr>rdb_transfers := [demo_transfer\<lparr>trq_status := APPROVED_transfer, trq_reason := None,
            trq_resulting_generation := Some 2, trq_resolved_at := Some 5\<rparr>]\<rparr>)"
  by (simp add: approve_transfer_in_def demo_transfer_def new_transfer_def demo_mail_db_def demo_mailbox_def
      mailbox_image_def transfer_preimage_def owner_key_def update_mailbox_def mailbox_keys_def moved_def settle_transfer_def)

theorem mailbox_moves_authorised_witness:
  "\<exists>r db'. in_transaction Commits (op_in demo_mail_env 5 (Approve_transfer 9))
       (demo_mail_db [demo_bound ''s'' 1]\<lparr>rdb_transfers := [demo_transfer]\<rparr>) = (r, db')
     \<and> map owner_key (rdb_mailboxes db') = [(''q'', ''t'')]
     \<and> (\<forall>t \<in> set (rdb_transfers db'). trq_status t \<noteq> PENDING)"
proof -
  let ?db = "demo_mail_db [demo_bound ''s'' 1]\<lparr>rdb_transfers := [demo_transfer]\<rparr>"
  let ?m' = "(demo_bound ''t'' 2)\<lparr>amb_principal_key := ''q''\<rparr>"
  let ?db' = "demo_mail_db [?m']\<lparr>rdb_transfers := [demo_transfer\<lparr>trq_status := APPROVED_transfer, trq_reason := None,
       trq_resulting_generation := Some 2, trq_resolved_at := Some 5\<rparr>]\<rparr>"
  have run: "in_transaction Commits (op_in demo_mail_env 5 (Approve_transfer 9)) ?db = (Inr (), ?db')"
    unfolding in_transaction_def demo_approve by simp
  have keys: "mailbox_keys (rdb_mailboxes ?db)" by (simp add: mailbox_keys_def demo_mail_db_def demo_mailbox_def)
  have "demo_bound ''s'' 1 \<in> set (rdb_mailboxes ?db)" "?m' \<in> set (rdb_mailboxes ?db')"
    "amb_endpoint_id ?m' = amb_endpoint_id (demo_bound ''s'' 1)" "amb_principal_key ?m' \<noteq> amb_principal_key (demo_bound ''s'' 1)"
    by (simp_all add: demo_mail_db_def demo_mailbox_def)
  from mailbox_moves_authorised [OF keys run this] run show ?thesis
    by (auto simp: demo_mail_db_def demo_transfer_def new_transfer_def)
qed

end
