(* ===== verification/Message_State.thy ===== *)
theory Message_State
  imports Agent_Mailboxes
begin

text \<open>
  Durable messages and their deliveries (\<open>src/switchstand/mailbox/messages.py\<close>): submission with
  a stable identity, receipt, recovery, acknowledgement and disposition of a delivery against
  evidence. Each method is a transaction on the message tables; the binding fence of
  \<open>Agent_Mailboxes\<close> and the effect journal of \<open>Grant_State\<close> are read in it. The two namespaces of
  \<open>uuid5\<close> and the digest of \<open>json.dumps\<close> are fields of \<open>mail_env\<close>. Notification after a commit has
  no part in the state and is left out.
\<close>

section \<open>Requests and results\<close>

record mail_env =
  mle_digest :: "json \<Rightarrow> string"
  mle_delivery_id :: "string \<Rightarrow> uuid"
  mle_effect_id :: "string \<Rightarrow> uuid"
  mle_pkey :: "principal \<Rightarrow> string"

definition REVIEW_CUTOFF_RECEIPT :: string where
  "REVIEW_CUTOFF_RECEIPT = ''typed-review-v1-cutoff''"

definition REVIEW_ROUTE_REFS :: "string list" where
  "REVIEW_ROUTE_REFS = [''review.request'', ''review.acquisition'', ''review.outcome'']"

datatype message_kind = Kind_request | Kind_result

fun kind_value :: "message_kind \<Rightarrow> string" where
  "kind_value Kind_request = ''request''"
| "kind_value Kind_result = ''result''"

definition route_text :: "string \<Rightarrow> bool" where
  "route_text s =
     (s \<noteq> [] \<and> lower_letter (hd s)
      \<and> list_all (\<lambda>c. key_char c \<or> c \<in> {CHR ''_'', CHR ''.'', CHR ''-''}) (tl s))"

record message_route =
  mrt_recipient_work_id :: uuid
  mrt_recipient_grant_version :: int

record submit_request =
  smr_message_id :: uuid
  smr_grant_version :: int
  smr_route_ref :: string
  smr_kind :: message_kind
  smr_payload :: json
  smr_in_reply_to :: "uuid option"

definition valid_submit_request :: "submit_request \<Rightarrow> bool" where
  "valid_submit_request req =
     (1 \<le> smr_grant_version req \<and> route_text (smr_route_ref req)
      \<and> (smr_kind req = Kind_result) = (smr_in_reply_to req \<noteq> None))"

record send_request =
  snr_work_id :: uuid
  snr_grant_version :: int
  snr_message_id :: uuid
  snr_route_ref :: "string option"
  snr_payload :: json
  snr_recipient_work_id :: "uuid option"
  snr_in_reply_to :: "uuid option"

definition valid_send_request :: "send_request \<Rightarrow> bool" where
  "valid_send_request req =
     (1 \<le> snr_grant_version req
      \<and> (case snr_route_ref req of None \<Rightarrow> True | Some s \<Rightarrow> route_text s)
      \<and> (snr_recipient_work_id req = None) \<noteq> (snr_in_reply_to req = None)
      \<and> (snr_recipient_work_id req = None) \<noteq> (snr_route_ref req \<noteq> None))"

record pending_message =
  pdm_delivery_id :: uuid
  pdm_message_id :: uuid
  pdm_sender_work_id :: uuid
  pdm_recipient_work_id :: uuid
  pdm_route_ref :: string
  pdm_kind :: string
  pdm_payload :: json
  pdm_state :: delivery_state
  pdm_recipient_grant_version :: int
  pdm_receiving_generation :: "string option"

datatype message_status = Ms_ok | Ms_conflict | Ms_denied | Ms_stale | Ms_recovery_required

record submit_result =
  sbr_status :: message_status
  sbr_message :: "pending_message option"
  sbr_reason :: "string option"

definition submit_no :: "message_status \<Rightarrow> string \<Rightarrow> submit_result" where
  "submit_no st reason = \<lparr>sbr_status = st, sbr_message = None, sbr_reason = Some reason\<rparr>"

definition submit_ok :: "pending_message \<Rightarrow> submit_result" where
  "submit_ok v = \<lparr>sbr_status = Ms_ok, sbr_message = Some v, sbr_reason = None\<rparr>"

text \<open>\<open>RuntimeCurrentness\<close>, and the evidence of a disposition: exactly one correlation.\<close>

record runtime_currentness =
  rcn_generation :: string
  rcn_current_generation :: "string option"

datatype disposition_evidence = Result_evidence uuid | Effect_evidence uuid

fun evidence_json :: "disposition_evidence \<Rightarrow> json" where
  "evidence_json (Result_evidence m) =
     JObj [(''kind'', JStr ''result''), (''result_message_id'', json_uuid m), (''operation_id'', JNull)]"
| "evidence_json (Effect_evidence op) =
     JObj [(''kind'', JStr ''provider_effect''), (''result_message_id'', JNull), (''operation_id'', json_uuid op)]"

definition disposition_digest :: "mail_env \<Rightarrow> disposition_evidence \<Rightarrow> string" where
  "disposition_digest E ev = mle_digest E (evidence_json ev)"

record disposition_request =
  dsp_delivery_id :: uuid
  dsp_grant_version :: int
  dsp_digest :: string
  dsp_evidence :: disposition_evidence

definition valid_disposition_request :: "mail_env \<Rightarrow> disposition_request \<Rightarrow> bool" where
  "valid_disposition_request E req =
     (1 \<le> dsp_grant_version req \<and> lower_hex 64 (dsp_digest req)
      \<and> dsp_digest req = disposition_digest E (dsp_evidence req))"

record transition_result =
  trn_status :: message_status
  trn_state :: "delivery_state option"
  trn_digest :: "string option"
  trn_reason :: "string option"

definition delivery_answer :: "message_status \<Rightarrow> string option \<Rightarrow> delivery_row option \<Rightarrow> transition_result" where
  "delivery_answer st reason row =
     \<lparr>trn_status = st, trn_state = map_option dlv_state row,
      trn_digest = (case row of None \<Rightarrow> None | Some d \<Rightarrow> dlv_disposition_digest d), trn_reason = reason\<rparr>"

section \<open>Admission\<close>

definition message_admission ::
  "int \<Rightarrow> principal \<Rightarrow> work_grant option \<Rightarrow> int \<Rightarrow> uuid option \<Rightarrow> (message_status \<times> string) option" where
  "message_admission now pr grant version w =
     (case grant of
        None \<Rightarrow> Some (Ms_denied, ''actor_not_admitted'')
      | Some g \<Rightarrow>
          if wg_principal g \<noteq> pr \<or> \<not> grant_current now g then Some (Ms_denied, ''actor_not_admitted'')
          else if wg_version g \<noteq> version then Some (Ms_stale, ''grant_version_changed'')
          else if Message \<notin> wg_operations g then Some (Ms_denied, ''message_not_granted'')
          else if w \<noteq> None \<and> wg_scope g = Launch \<and> Some (la_active_work_id (wg_authority g)) \<noteq> w
          then Some (Ms_denied, ''actor_not_admitted'')
          else None)"

definition state_admission ::
  "int \<Rightarrow> principal \<Rightarrow> work_grant option \<Rightarrow> int \<Rightarrow> uuid option \<Rightarrow> (message_status \<times> string) option" where
  "state_admission now pr grant version w =
     (case message_admission now pr grant version w of
        None \<Rightarrow> None
      | Some (st, reason) \<Rightarrow>
          Some (if reason = ''grant_version_changed'' then (st, reason) else (Ms_denied, ''no_current_grant'')))"

definition runtime_admission :: "runtime_currentness \<Rightarrow> (message_status \<times> string) option" where
  "runtime_admission rt =
     (case rcn_current_generation rt of
        None \<Rightarrow> Some (Ms_recovery_required, ''runtime_currentness_unavailable'')
      | Some g \<Rightarrow> if rcn_generation rt \<noteq> g then Some (Ms_stale, ''runtime_generation_changed'') else None)"

section \<open>Tables\<close>

definition msg_key :: "message_row \<Rightarrow> uuid \<times> uuid" where
  "msg_key m = (msg_sender_work_id m, msg_message_id m)"

definition dlv_message_key :: "delivery_row \<Rightarrow> uuid \<times> uuid" where
  "dlv_message_key d = (dlv_sender_work_id d, dlv_message_id d)"

definition dlv_route_key :: "delivery_row \<Rightarrow> uuid \<times> uuid \<times> uuid" where
  "dlv_route_key d = (dlv_sender_work_id d, dlv_message_id d, dlv_recipient_work_id d)"

text \<open>\<open>_pending_query\<close>: each delivery with its message.\<close>

definition pending_query :: "runtime_db \<Rightarrow> (delivery_row \<times> message_row) list" where
  "pending_query db =
     concat (map (\<lambda>d. map (Pair d) (filter (\<lambda>m. msg_key m = dlv_message_key d) (rdb_messages db))) (rdb_deliveries db))"

definition message_fields :: "delivery_row \<times> message_row \<Rightarrow> pending_message" where
  "message_fields row =
     \<lparr>pdm_delivery_id = dlv_delivery_id (fst row), pdm_message_id = dlv_message_id (fst row),
      pdm_sender_work_id = dlv_sender_work_id (fst row), pdm_recipient_work_id = dlv_recipient_work_id (fst row),
      pdm_route_ref = msg_route_ref (snd row), pdm_kind = msg_kind (snd row), pdm_payload = msg_payload (snd row),
      pdm_state = dlv_state (fst row), pdm_recipient_grant_version = dlv_recipient_grant_version (fst row),
      pdm_receiving_generation = dlv_receiving_generation (fst row)\<rparr>"

definition message_view :: "delivery_row \<times> message_row \<Rightarrow> pending_message py_result" where
  "message_view row =
     (if msg_kind (snd row) \<notin> {''request'', ''result''} then Inl ValidationError else Inr (message_fields row))"

text \<open>\<open>one()\<close> and \<open>scalar_one()\<close>.\<close>

definition one_row :: "'a list \<Rightarrow> 'a py_result" where
  "one_row rows = (case rows of [x] \<Rightarrow> Inr x | _ \<Rightarrow> Inl SQLAlchemyError)"

text \<open>\<open>INSERT ... ON CONFLICT DO NOTHING\<close> under the primary keys and unique constraints.\<close>

definition insert_message :: "message_row \<Rightarrow> runtime_db \<Rightarrow> runtime_db" where
  "insert_message m db =
     (if msg_key m \<in> set (map msg_key (rdb_messages db))
        \<or> msg_in_reply_to m \<noteq> None \<and> msg_in_reply_to m \<in> set (map msg_in_reply_to (rdb_messages db)) then db
      else db\<lparr>rdb_messages := rdb_messages db @ [m]\<rparr>)"

definition insert_delivery :: "delivery_row \<Rightarrow> runtime_db \<Rightarrow> bool \<times> runtime_db" where
  "insert_delivery d db =
     (if dlv_delivery_id d \<in> set (map dlv_delivery_id (rdb_deliveries db))
        \<or> dlv_route_key d \<in> set (map dlv_route_key (rdb_deliveries db)) then (False, db)
      else (True, db\<lparr>rdb_deliveries := rdb_deliveries db @ [d]\<rparr>))"

definition update_delivery :: "uuid \<Rightarrow> (delivery_row \<Rightarrow> delivery_row) \<Rightarrow> runtime_db \<Rightarrow> runtime_db" where
  "update_delivery i f db =
     db\<lparr>rdb_deliveries := map (\<lambda>d. if dlv_delivery_id d = i then f d else d) (rdb_deliveries db)\<rparr>"

definition delivery_row_of :: "uuid \<Rightarrow> runtime_db \<Rightarrow> delivery_row option py_result" where
  "delivery_row_of i db = one_or_none (filter (\<lambda>d. dlv_delivery_id d = i) (rdb_deliveries db))"

definition binding_current :: "agent_mailbox option \<Rightarrow> runtime_db \<Rightarrow> bool py_result" where
  "binding_current binding db = (case binding of None \<Rightarrow> Inr True | Some b \<Rightarrow> current_agent_binding b db)"

section \<open>Submission\<close>

definition message_digest :: "mail_env \<Rightarrow> message_route \<Rightarrow> submit_request \<Rightarrow> string" where
  "message_digest E route req = mle_digest E (JObj
     [(''route'', JObj [(''recipient_work_id'', json_uuid (mrt_recipient_work_id route)),
        (''recipient_grant_version'', JInt (mrt_recipient_grant_version route))]),
      (''message'', JObj [(''route_ref'', JStr (smr_route_ref req)), (''kind'', JStr (kind_value (smr_kind req))),
        (''payload'', smr_payload req),
        (''in_reply_to_delivery_id'', json_opt (\<lambda>u. json_uuid u) (smr_in_reply_to req))])])"

definition delivery_identity :: "mail_env \<Rightarrow> uuid \<Rightarrow> uuid \<Rightarrow> uuid \<Rightarrow> uuid" where
  "delivery_identity E sender message recipient =
     mle_delivery_id E (uuid_str sender @ '':'' @ uuid_str message @ '':'' @ uuid_str recipient)"

definition new_message :: "uuid \<Rightarrow> submit_request \<Rightarrow> string \<Rightarrow> int \<Rightarrow> message_row" where
  "new_message sender req digest now =
     \<lparr>msg_sender_work_id = sender, msg_message_id = smr_message_id req, msg_route_ref = smr_route_ref req,
      msg_kind = kind_value (smr_kind req), msg_payload = smr_payload req, msg_digest = digest,
      msg_in_reply_to = smr_in_reply_to req, msg_created_at = now\<rparr>"

definition new_delivery :: "mail_env \<Rightarrow> uuid \<Rightarrow> message_route \<Rightarrow> submit_request \<Rightarrow> delivery_row" where
  "new_delivery E sender route req =
     \<lparr>dlv_delivery_id = delivery_identity E sender (smr_message_id req) (mrt_recipient_work_id route),
      dlv_sender_work_id = sender, dlv_message_id = smr_message_id req,
      dlv_recipient_work_id = mrt_recipient_work_id route, dlv_state = AVAILABLE,
      dlv_recipient_grant_version = mrt_recipient_grant_version route, dlv_received_at = None,
      dlv_receiving_generation = None, dlv_dispositioned_at = None, dlv_disposition_digest = None,
      dlv_evidence = None\<rparr>"

definition persist_delivery ::
  "mail_env \<Rightarrow> int \<Rightarrow> uuid \<Rightarrow> message_route \<Rightarrow> submit_request \<Rightarrow> string \<Rightarrow> runtime_db
     \<Rightarrow> (((delivery_row \<times> message_row) option \<times> bool) \<times> runtime_db) py_result" where
  "persist_delivery E now sender route req digest db =
     (let db1 = insert_message (new_message sender req digest now) db;
          i = delivery_identity E sender (smr_message_id req) (mrt_recipient_work_id route) in
      bindE (one_row (filter (\<lambda>m. msg_key m = (sender, smr_message_id req)) (rdb_messages db1))) (\<lambda>current.
      if msg_digest current \<noteq> digest then Inr ((None, False), db1)
      else
        case insert_delivery (new_delivery E sender route req) db1 of (fresh, db2) \<Rightarrow>
        bindE (one_row (filter (\<lambda>row. dlv_delivery_id (fst row) = i) (pending_query db2))) (\<lambda>row.
        Inr ((Some row, fresh), db2))))"

definition dispositioned :: "mail_env \<Rightarrow> int \<Rightarrow> disposition_evidence \<Rightarrow> delivery_row \<Rightarrow> delivery_row" where
  "dispositioned E now ev d =
     d\<lparr>dlv_state := DISPOSITIONED, dlv_dispositioned_at := Some now,
       dlv_disposition_digest := Some (disposition_digest E ev), dlv_evidence := Some (evidence_json ev)\<rparr>"

text \<open>\<open>_disposition_result\<close>: a reply disposes of the delivery it answers.\<close>

definition disposition_result ::
  "mail_env \<Rightarrow> int \<Rightarrow> uuid \<Rightarrow> uuid \<Rightarrow> uuid \<Rightarrow> agent_mailbox \<Rightarrow> runtime_db
     \<Rightarrow> (submit_result option \<times> runtime_db) py_result" where
  "disposition_result E now i sender result binding db =
     bindE (delivery_row_of i db) (\<lambda>replied.
     case replied of
       None \<Rightarrow> Inr (Some (submit_no Ms_conflict ''reply_delivery_not_found''), db)
     | Some d \<Rightarrow>
         let ev = Result_evidence result in
         if dlv_recipient_work_id d \<noteq> sender
         then Inr (Some (submit_no Ms_conflict ''reply_delivery_not_found''), db)
         else if dlv_state d = DISPOSITIONED
         then if dlv_disposition_digest d = Some (disposition_digest E ev) \<and> dlv_evidence d = Some (evidence_json ev)
              then Inr (None, db)
              else Inr (Some (submit_no Ms_conflict ''reply_identity_conflict''), db)
         else if dlv_state d \<notin> {RECEIVED, ACKNOWLEDGED}
         then Inr (Some (submit_no Ms_conflict ''reply_delivery_not_found''), db)
         else if dlv_state d = RECEIVED \<and> (dlv_recipient_grant_version d \<noteq> amb_generation binding
               \<or> dlv_receiving_generation d \<noteq> Some (int_str (amb_generation binding)))
         then Inr (Some (submit_no Ms_conflict ''reply_delivery_not_found''), db)
         else Inr (None, update_delivery i (dispositioned E now ev) db))"

text \<open>The checks of a reply in \<open>_store\<close>.\<close>

definition reply_refusal ::
  "uuid \<Rightarrow> uuid \<Rightarrow> uuid \<Rightarrow> (int \<times> string) option \<Rightarrow> runtime_db \<Rightarrow> submit_result option py_result" where
  "reply_refusal i sender message received db =
     bindE (delivery_row_of i db) (\<lambda>replied.
     case replied of
       None \<Rightarrow> Inr (Some (submit_no Ms_conflict ''reply_delivery_not_found''))
     | Some d \<Rightarrow>
         if dlv_recipient_work_id d \<noteq> sender
         then Inr (Some (submit_no Ms_denied ''reply_sender_not_recipient''))
         else if (case received of None \<Rightarrow> False | Some (version, generation) \<Rightarrow>
              dlv_state d \<notin> {RECEIVED, ACKNOWLEDGED}
              \<or> dlv_state d = RECEIVED \<and> (dlv_recipient_grant_version d \<noteq> version
                  \<or> dlv_receiving_generation d \<noteq> Some generation))
         then Inr (Some (submit_no Ms_conflict ''reply_delivery_not_found''))
         else
           bindE (one_or_none (filter (\<lambda>m. msg_in_reply_to m = Some i) (rdb_messages db))) (\<lambda>prior.
           Inr (if prior \<noteq> None \<and> map_option msg_key prior \<noteq> Some (sender, message)
                then Some (submit_no Ms_conflict ''reply_identity_conflict'') else None)))"

text \<open>
  How the block of \<open>_store\<close> ends: it returns early, it stored a delivery, or it raises
  \<open>_AtomicResultFailure\<close>, which rolls back and carries its answer.
\<close>

datatype store_end =
    Returned submit_result
  | Stored "delivery_row \<times> message_row" bool
  | Rolled_back submit_result

definition store_in ::
  "mail_env \<Rightarrow> int \<Rightarrow> uuid \<Rightarrow> message_route \<Rightarrow> submit_request \<Rightarrow> (int \<times> string) option \<Rightarrow> agent_mailbox option
     \<Rightarrow> runtime_db \<Rightarrow> (store_end \<times> runtime_db) py_result" where
  "store_in E now sender route req received binding db =
     (let digest = message_digest E route req in
      if smr_route_ref req \<in> set REVIEW_ROUTE_REFS \<and> REVIEW_CUTOFF_RECEIPT \<in> set (rdb_receipts db)
      then Inr (Returned (submit_no Ms_denied ''reserved_route''), db)
      else
        bindE (binding_current binding db) (\<lambda>held.
        if \<not> held then Inr (Returned (submit_no Ms_stale ''sender_binding_changed''), db)
        else
          bindE (case smr_in_reply_to req of None \<Rightarrow> Inr None
                 | Some i \<Rightarrow> reply_refusal i sender (smr_message_id req) received db) (\<lambda>refused.
          case refused of
            Some r \<Rightarrow> Inr (Returned r, db)
          | None \<Rightarrow>
              bindE (persist_delivery E now sender route req digest db) (\<lambda>((row, fresh), db1).
              case row of
                None \<Rightarrow> Inr (Returned (submit_no Ms_conflict ''message_identity_conflict''), db1)
              | Some stored \<Rightarrow>
                  (case (smr_in_reply_to req, binding) of
                     (Some i, Some b) \<Rightarrow>
                       bindE (disposition_result E now i sender (smr_message_id req) b db1) (\<lambda>(failure, db2).
                       Inr (case failure of Some r \<Rightarrow> Rolled_back r | None \<Rightarrow> Stored stored fresh, db2))
                   | _ \<Rightarrow> Inr (Stored stored fresh, db1))))))"

definition store_txn ::
  "txn_end \<Rightarrow> (runtime_db \<Rightarrow> (store_end \<times> runtime_db) py_result) \<Rightarrow> runtime_db \<Rightarrow> store_end py_result \<times> runtime_db" where
  "store_txn e body db =
     (case body db of
        Inr (Rolled_back r, _) \<Rightarrow> (Inr (Rolled_back r), db)
      | _ \<Rightarrow> in_transaction e body db)"

text \<open>
  The callers of \<open>_store\<close>. Only \<open>submit_received_result\<close> catches the raised answer; elsewhere it
  passes the \<open>except\<close> clause as an exception of its own class, for which \<open>RuntimeError\<close> stands.
\<close>

abbreviation submit_unavailable :: submit_result where
  "submit_unavailable \<equiv> submit_no Ms_recovery_required ''state_unavailable''"

definition mail_caught :: "py_error \<Rightarrow> bool" where
  "mail_caught e = (is_sqlalchemy_error e \<or> is_value_error e)"

definition submit_handlers :: "py_error \<Rightarrow> submit_result py_result" where
  "submit_handlers e = (if mail_caught e then Inr submit_unavailable else Inl e)"

definition store_answer :: "bool \<Rightarrow> store_end py_result \<Rightarrow> submit_result py_result" where
  "store_answer atomic r =
     (case r of
        Inl e \<Rightarrow> submit_handlers e
      | Inr (Returned x) \<Rightarrow> Inr x
      | Inr (Rolled_back x) \<Rightarrow> if atomic then Inr x else Inl RuntimeError
      | Inr (Stored row fresh) \<Rightarrow>
          (case message_view row of Inl e \<Rightarrow> submit_handlers e | Inr v \<Rightarrow> Inr (submit_ok v)))"

definition submit_admitted ::
  "mail_env \<Rightarrow> uuid \<Rightarrow> message_route \<Rightarrow> submit_request \<Rightarrow> agent_mailbox option \<Rightarrow> int \<times> txn_end \<Rightarrow> runtime_db
     \<Rightarrow> submit_result py_result \<times> runtime_db" where
  "submit_admitted E sender route req binding t db =
     (case store_txn (snd t) (store_in E (fst t) sender route req None binding) db of
        (r, db') \<Rightarrow> (store_answer False r, db'))"

definition submit_received_result ::
  "mail_env \<Rightarrow> uuid \<Rightarrow> int \<Rightarrow> string \<Rightarrow> message_route \<Rightarrow> submit_request \<Rightarrow> agent_mailbox option
     \<Rightarrow> int \<times> txn_end \<Rightarrow> runtime_db \<Rightarrow> submit_result py_result \<times> runtime_db" where
  "submit_received_result E sender version generation route req binding t db =
     (case store_txn (snd t) (store_in E (fst t) sender route req (Some (version, generation)) binding) db of
        (r, db') \<Rightarrow> (store_answer True r, db'))"

text \<open>\<open>submit_review_internal\<close>, a part of a review transaction.\<close>

definition review_reply_refusal ::
  "uuid \<Rightarrow> uuid \<Rightarrow> uuid \<Rightarrow> (int \<times> string) option \<Rightarrow> runtime_db \<Rightarrow> submit_result option py_result" where
  "review_reply_refusal i sender message received db =
     bindE (delivery_row_of i db) (\<lambda>replied.
     if (case replied of None \<Rightarrow> True
         | Some d \<Rightarrow> dlv_recipient_work_id d \<noteq> sender
             \<or> (case received of None \<Rightarrow> False | Some (version, generation) \<Rightarrow>
                  (dlv_state d, dlv_recipient_grant_version d, dlv_receiving_generation d)
                    \<noteq> (RECEIVED, version, Some generation)))
     then Inr (Some (submit_no Ms_conflict ''reply_delivery_not_found''))
     else
       bindE (one_or_none (filter (\<lambda>m. msg_in_reply_to m = Some i) (rdb_messages db))) (\<lambda>prior.
       Inr (if prior \<noteq> None \<and> map_option msg_key prior \<noteq> Some (sender, message)
            then Some (submit_no Ms_conflict ''reply_identity_conflict'') else None)))"

definition submit_review_internal ::
  "mail_env \<Rightarrow> int \<Rightarrow> agent_mailbox \<Rightarrow> message_route \<Rightarrow> submit_request \<Rightarrow> (int \<times> string) option \<Rightarrow> runtime_db
     \<Rightarrow> (submit_result \<times> runtime_db) py_result" where
  "submit_review_internal E now sender route req received db =
     bindE (current_agent_binding sender db) (\<lambda>held.
     if \<not> held then Inr (submit_no Ms_stale ''sender_binding_changed'', db)
     else
       bindE (case smr_in_reply_to req of None \<Rightarrow> Inr None
              | Some i \<Rightarrow> review_reply_refusal i (amb_endpoint_id sender) (smr_message_id req) received db) (\<lambda>refused.
       case refused of
         Some r \<Rightarrow> Inr (r, db)
       | None \<Rightarrow>
           bindE (persist_delivery E now (amb_endpoint_id sender) route req (message_digest E route req) db)
             (\<lambda>((row, fresh), db1).
           case row of
             None \<Rightarrow> Inr (submit_no Ms_conflict ''message_identity_conflict'', db1)
           | Some stored \<Rightarrow> bindE (message_view stored) (\<lambda>v. Inr (submit_ok v, db1)))))"

text \<open>\<open>committed_public_replay\<close>: the stored message under the same identity answers a repeated send.\<close>

definition replay_matches :: "send_request \<Rightarrow> delivery_row \<times> message_row \<Rightarrow> bool" where
  "replay_matches req row =
     (msg_kind (snd row) = (if snr_in_reply_to req = None then ''request'' else ''result'')
      \<and> msg_payload (snd row) = snr_payload req
      \<and> msg_in_reply_to (snd row) = snr_in_reply_to req
      \<and> (snr_in_reply_to req = None \<longrightarrow>
           Some (dlv_recipient_work_id (fst row)) = snr_recipient_work_id req
           \<and> Some (msg_route_ref (snd row)) = snr_route_ref req))"

definition replay_in ::
  "mail_env \<Rightarrow> int \<Rightarrow> uuid \<Rightarrow> send_request \<Rightarrow> agent_mailbox option \<Rightarrow> runtime_db
     \<Rightarrow> (submit_result option \<times> runtime_db) py_result" where
  "replay_in E now sender req binding db =
     bindE (binding_current binding db) (\<lambda>held.
     if \<not> held then Inr (Some (submit_no Ms_stale ''sender_binding_changed''), db)
     else
       bindE (one_or_none (filter (\<lambda>row. msg_key (snd row) = (sender, snr_message_id req)) (pending_query db))) (\<lambda>found.
       case found of
         None \<Rightarrow> Inr (None, db)
       | Some row \<Rightarrow>
           if \<not> replay_matches req row
           then Inr (Some (submit_no Ms_conflict ''message_identity_conflict''), db)
           else
             bindE (case (snr_in_reply_to req, binding) of
                      (Some i, Some b) \<Rightarrow> disposition_result E now i sender (snr_message_id req) b db
                    | _ \<Rightarrow> Inr (None, db)) (\<lambda>(failure, db').
             case failure of
               Some r \<Rightarrow> Inr (Some r, db')
             | None \<Rightarrow> bindE (message_view row) (\<lambda>v. Inr (Some (submit_ok v), db')))))"

definition committed_public_replay ::
  "mail_env \<Rightarrow> uuid \<Rightarrow> send_request \<Rightarrow> agent_mailbox option \<Rightarrow> int \<times> txn_end \<Rightarrow> runtime_db
     \<Rightarrow> submit_result option py_result \<times> runtime_db" where
  "committed_public_replay E sender req binding t = in_transaction (snd t) (replay_in E (fst t) sender req binding)"

section \<open>Transitions of a delivery\<close>

definition admitted_access :: "delivery_row option \<Rightarrow> uuid \<Rightarrow> transition_result option" where
  "admitted_access row w =
     (case row of
        None \<Rightarrow> Some (delivery_answer Ms_denied (Some ''delivery_not_found'') None)
      | Some d \<Rightarrow> if dlv_recipient_work_id d \<noteq> w
                  then Some (delivery_answer Ms_denied (Some ''delivery_not_for_current_work'') None) else None)"

text \<open>The steps the three transitions share: fence, locked row, access.\<close>

definition on_delivery ::
  "agent_mailbox option \<Rightarrow> uuid \<Rightarrow> uuid \<Rightarrow> (delivery_row \<Rightarrow> (transition_result \<times> runtime_db) py_result) \<Rightarrow> runtime_db
     \<Rightarrow> (transition_result \<times> runtime_db) py_result" where
  "on_delivery binding w i act db =
     bindE (binding_current binding db) (\<lambda>held.
     if \<not> held then Inr (delivery_answer Ms_stale (Some ''receiving_binding_changed'') None, db)
     else
       bindE (delivery_row_of i db) (\<lambda>row.
       case admitted_access row w of
         Some denied \<Rightarrow> Inr (denied, db)
       | None \<Rightarrow> act (the row)))"

definition marked_received :: "int \<Rightarrow> int \<Rightarrow> string \<Rightarrow> delivery_row \<Rightarrow> delivery_row" where
  "marked_received now version generation d =
     d\<lparr>dlv_state := RECEIVED, dlv_recipient_grant_version := version,
       dlv_receiving_generation := Some generation, dlv_received_at := Some now\<rparr>"

definition receive_in ::
  "int \<Rightarrow> uuid \<Rightarrow> int \<Rightarrow> string \<Rightarrow> uuid \<Rightarrow> agent_mailbox option \<Rightarrow> runtime_db \<Rightarrow> (transition_result \<times> runtime_db) py_result" where
  "receive_in now w version generation i binding db =
     on_delivery binding w i (\<lambda>d.
       case dlv_state d of
         DISPOSITIONED \<Rightarrow> Inr (delivery_answer Ms_conflict (Some ''delivery_already_dispositioned'') (Some d), db)
       | ACKNOWLEDGED \<Rightarrow> Inr (delivery_answer Ms_conflict (Some ''delivery_already_acknowledged'') (Some d), db)
       | RECEIVED \<Rightarrow>
           if dlv_recipient_grant_version d \<noteq> version \<or> dlv_receiving_generation d \<noteq> Some generation
           then Inr (delivery_answer Ms_recovery_required (Some ''receiving_binding_changed'') (Some d), db)
           else Inr (delivery_answer Ms_ok None (Some d), db)
       | AVAILABLE \<Rightarrow>
           Inr (delivery_answer Ms_ok None (Some (marked_received now version generation d)),
                update_delivery i (marked_received now version generation) db)) db"

definition rebound :: "int \<Rightarrow> string \<Rightarrow> delivery_row \<Rightarrow> delivery_row" where
  "rebound version generation d =
     d\<lparr>dlv_recipient_grant_version := version, dlv_receiving_generation := Some generation\<rparr>"

definition recover_in ::
  "uuid \<Rightarrow> int \<Rightarrow> string \<Rightarrow> uuid \<Rightarrow> agent_mailbox option \<Rightarrow> runtime_db \<Rightarrow> (transition_result \<times> runtime_db) py_result" where
  "recover_in w version generation i binding db =
     on_delivery binding w i (\<lambda>d.
       if dlv_state d = DISPOSITIONED
       then Inr (delivery_answer Ms_conflict (Some ''delivery_already_dispositioned'') (Some d), db)
       else if dlv_state d \<noteq> RECEIVED
       then Inr (delivery_answer Ms_conflict (Some ''delivery_not_received'') (Some d), db)
       else Inr (delivery_answer Ms_ok None (Some (rebound version generation d)),
                 update_delivery i (rebound version generation) db)) db"

text \<open>\<open>getattr(outcome.receipt, "work_id", None)\<close>.\<close>

fun receipt_work_id :: "receipt \<Rightarrow> uuid option" where
  "receipt_work_id (R_effect r) = Some (efr_work_id r)"
| "receipt_work_id (R_feedback r) = Some (fbr_work_id r)"
| "receipt_work_id (R_priority_claim r) = pclr_work_id r"
| "receipt_work_id (R_create r) = Some (crr_work_id r)"
| "receipt_work_id (R_project_create r) = None"
| "receipt_work_id (R_relation r) = Some (rlr_work_id r)"
| "receipt_work_id (R_update r) = Some (upr_work_id r)"

definition message_effect_operation_id :: "mail_env \<Rightarrow> uuid \<Rightarrow> uuid" where
  "message_effect_operation_id E i = mle_effect_id E (uuid_str i)"

fun evidence_failure :: "mail_env \<Rightarrow> uuid \<Rightarrow> delivery_row \<Rightarrow> disposition_evidence \<Rightarrow> runtime_db \<Rightarrow> string option py_result" where
  "evidence_failure E w d (Result_evidence m) db =
     bindE (one_or_none (filter (\<lambda>x. msg_key x = (w, m)) (rdb_messages db))) (\<lambda>result.
     Inr (case result of
            None \<Rightarrow> Some ''result_evidence_missing''
          | Some x \<Rightarrow> if msg_in_reply_to x \<noteq> Some (dlv_delivery_id d) then Some ''result_evidence_mismatch'' else None))"
| "evidence_failure E w d (Effect_evidence op) db =
     (if op \<noteq> message_effect_operation_id E (dlv_delivery_id d) then Inr (Some ''effect_evidence_mismatch'')
      else
        bindE (previous op w (rdb_grants db)) (\<lambda>prior.
        Inr (case prior of
               None \<Rightarrow> Some ''effect_evidence_missing''
             | Some (_, _, outcome) \<Rightarrow>
                 if go_operation_id outcome \<noteq> Some op then Some ''effect_evidence_mismatch''
                 else if go_effect outcome = Effect_unknown then Some ''effect_evidence_unknown''
                 else if go_effect outcome = Not_sent then Some ''effect_not_applied''
                 else if (case go_receipt outcome of None \<Rightarrow> True | Some r \<Rightarrow> receipt_work_id r \<noteq> Some w)
                 then Some ''effect_evidence_mismatch''
                 else None)))"

definition disposition_in ::
  "mail_env \<Rightarrow> int \<Rightarrow> uuid \<Rightarrow> int \<Rightarrow> string \<Rightarrow> disposition_request \<Rightarrow> agent_mailbox option \<Rightarrow> runtime_db
     \<Rightarrow> (transition_result \<times> runtime_db) py_result" where
  "disposition_in E now w version generation req binding db =
     on_delivery binding w (dsp_delivery_id req) (\<lambda>d.
       if dlv_state d = DISPOSITIONED
       then if dlv_disposition_digest d = Some (dsp_digest req)
              \<and> dlv_evidence d = Some (evidence_json (dsp_evidence req))
            then Inr (delivery_answer Ms_ok None (Some d), db)
            else Inr (delivery_answer Ms_conflict (Some ''disposition_identity_conflict'') (Some d), db)
       else if dlv_state d \<notin> {RECEIVED, ACKNOWLEDGED}
       then Inr (delivery_answer Ms_conflict (Some ''delivery_not_received'') (Some d), db)
       else if dlv_state d = RECEIVED \<and> (dlv_recipient_grant_version d \<noteq> version
             \<or> dlv_receiving_generation d \<noteq> Some generation)
       then Inr (delivery_answer Ms_recovery_required (Some ''receiving_binding_changed'') (Some d), db)
       else
         bindE (evidence_failure E w d (dsp_evidence req) db) (\<lambda>failure.
         case failure of
           Some reason \<Rightarrow> Inr (delivery_answer Ms_recovery_required (Some reason) (Some d), db)
         | None \<Rightarrow>
             let f = (\<lambda>d. d\<lparr>dlv_state := DISPOSITIONED, dlv_dispositioned_at := Some now,
                  dlv_disposition_digest := Some (dsp_digest req),
                  dlv_evidence := Some (evidence_json (dsp_evidence req))\<rparr>) in
             Inr (delivery_answer Ms_ok None (Some (f d)), update_delivery (dsp_delivery_id req) f db))) db"

text \<open>Acknowledgement, one delivery after the other.\<close>

record acknowledge_item =
  aki_delivery_id :: uuid
  aki_status :: message_status
  aki_state :: "delivery_state option"
  aki_reason :: "string option"

definition acknowledged :: "int \<Rightarrow> int \<Rightarrow> agent_mailbox \<Rightarrow> delivery_row \<Rightarrow> delivery_row" where
  "acknowledged now version binding d =
     d\<lparr>dlv_state := ACKNOWLEDGED, dlv_recipient_grant_version := version,
       dlv_receiving_generation := Some (int_str (amb_generation binding)),
       dlv_received_at := (case dlv_received_at d of None \<Rightarrow> Some now | Some t \<Rightarrow> Some t)\<rparr>"

definition acknowledge_one ::
  "int \<Rightarrow> uuid \<Rightarrow> int \<Rightarrow> agent_mailbox \<Rightarrow> uuid \<Rightarrow> runtime_db \<Rightarrow> (acknowledge_item \<times> runtime_db) py_result" where
  "acknowledge_one now w version binding i db =
     bindE (delivery_row_of i db) (\<lambda>row.
     let no = (\<lambda>st reason. \<lparr>aki_delivery_id = i, aki_status = st, aki_state = None, aki_reason = Some reason\<rparr>);
         yes = \<lparr>aki_delivery_id = i, aki_status = Ms_ok, aki_state = Some ACKNOWLEDGED, aki_reason = None\<rparr> in
     Inr (case row of
            None \<Rightarrow> (no Ms_denied ''delivery_not_found'', db)
          | Some d \<Rightarrow>
              if dlv_recipient_work_id d \<noteq> w then (no Ms_denied ''delivery_not_for_current_work'', db)
              else if dlv_state d = DISPOSITIONED then (no Ms_conflict ''delivery_already_dispositioned'', db)
              else if dlv_state d \<noteq> ACKNOWLEDGED then (yes, update_delivery i (acknowledged now version binding) db)
              else (yes, db)))"

fun acknowledge_all ::
  "int \<Rightarrow> uuid \<Rightarrow> int \<Rightarrow> agent_mailbox \<Rightarrow> uuid list \<Rightarrow> runtime_db \<Rightarrow> (acknowledge_item list \<times> runtime_db) py_result" where
  "acknowledge_all now w version binding [] db = Inr ([], db)"
| "acknowledge_all now w version binding (i # is) db =
     bindE (acknowledge_one now w version binding i db) (\<lambda>(x, db1).
     bindE (acknowledge_all now w version binding is db1) (\<lambda>(xs, db2). Inr (x # xs, db2)))"

record acknowledge_result =
  akr_status :: message_status
  akr_results :: "acknowledge_item list"
  akr_reason :: "string option"

definition acknowledge_in ::
  "int \<Rightarrow> uuid \<Rightarrow> int \<Rightarrow> uuid list \<Rightarrow> agent_mailbox \<Rightarrow> runtime_db \<Rightarrow> (acknowledge_result \<times> runtime_db) py_result" where
  "acknowledge_in now w version ids binding db =
     bindE (current_agent_binding binding db) (\<lambda>held.
     if \<not> held
     then Inr (\<lparr>akr_status = Ms_stale, akr_results = [], akr_reason = Some ''receiving_binding_changed''\<rparr>, db)
     else
       bindE (acknowledge_all now w version binding ids db) (\<lambda>(xs, db').
       if xs = [] then Inl ValidationError
       else Inr (\<lparr>akr_status = Ms_ok, akr_results = xs, akr_reason = None\<rparr>, db')))"

definition acknowledge_handlers :: "py_error \<Rightarrow> acknowledge_result py_result" where
  "acknowledge_handlers e =
     (if mail_caught e
      then Inr \<lparr>akr_status = Ms_recovery_required, akr_results = [], akr_reason = Some ''state_unavailable''\<rparr>
      else Inl e)"

definition acknowledge_admitted ::
  "uuid \<Rightarrow> int \<Rightarrow> uuid list \<Rightarrow> agent_mailbox \<Rightarrow> int \<times> txn_end \<Rightarrow> runtime_db \<Rightarrow> acknowledge_result py_result \<times> runtime_db" where
  "acknowledge_admitted w version ids binding =
     one_attempt acknowledge_handlers (\<lambda>now. acknowledge_in now w version ids binding)"

text \<open>The public transitions: runtime currentness first, then the transaction.\<close>

definition transition_handlers :: "py_error \<Rightarrow> transition_result py_result" where
  "transition_handlers e =
     (if mail_caught e then Inr (delivery_answer Ms_recovery_required (Some ''state_unavailable'') None) else Inl e)"

definition when_current ::
  "runtime_currentness \<Rightarrow> (int \<Rightarrow> runtime_db \<Rightarrow> (transition_result \<times> runtime_db) py_result) \<Rightarrow> int \<times> txn_end \<Rightarrow> runtime_db
     \<Rightarrow> transition_result py_result \<times> runtime_db" where
  "when_current rt body t db =
     (case runtime_admission rt of
        Some (st, reason) \<Rightarrow> (Inr (delivery_answer st (Some reason) None), db)
      | None \<Rightarrow> one_attempt transition_handlers body t db)"

definition receive_admitted ::
  "uuid \<Rightarrow> int \<Rightarrow> runtime_currentness \<Rightarrow> uuid \<Rightarrow> agent_mailbox option \<Rightarrow> int \<times> txn_end \<Rightarrow> runtime_db
     \<Rightarrow> transition_result py_result \<times> runtime_db" where
  "receive_admitted w version rt i binding =
     when_current rt (\<lambda>now. receive_in now w version (rcn_generation rt) i binding)"

definition recover_admitted ::
  "uuid \<Rightarrow> int \<Rightarrow> runtime_currentness \<Rightarrow> uuid \<Rightarrow> agent_mailbox option \<Rightarrow> int \<times> txn_end \<Rightarrow> runtime_db
     \<Rightarrow> transition_result py_result \<times> runtime_db" where
  "recover_admitted w version rt i binding =
     when_current rt (\<lambda>now. recover_in w version (rcn_generation rt) i binding)"

definition disposition_admitted ::
  "mail_env \<Rightarrow> uuid \<Rightarrow> int \<Rightarrow> runtime_currentness \<Rightarrow> disposition_request \<Rightarrow> agent_mailbox option \<Rightarrow> int \<times> txn_end
     \<Rightarrow> runtime_db \<Rightarrow> transition_result py_result \<times> runtime_db" where
  "disposition_admitted E w version rt req binding =
     when_current rt (\<lambda>now. disposition_in E now w version (rcn_generation rt) req binding)"

text \<open>The conditional rebinding of a received delivery by a review (\<open>reviews.py\<close>).\<close>

definition rebind_received :: "uuid \<Rightarrow> int \<Rightarrow> string option \<Rightarrow> int \<Rightarrow> runtime_db \<Rightarrow> runtime_db" where
  "rebind_received i version generation fresh db =
     db\<lparr>rdb_deliveries := map (\<lambda>d.
       if dlv_delivery_id d = i \<and> dlv_state d = RECEIVED \<and> dlv_recipient_grant_version d = version
          \<and> generation \<noteq> None \<and> dlv_receiving_generation d = generation
       then rebound fresh (int_str fresh) d else d) (rdb_deliveries db)\<rparr>"

end
