(* ===== verification/Message_Safety.thy ===== *)
theory Message_Safety
  imports Message_State
begin

text \<open>
  What the message transactions of \<open>Message_State\<close> promise together, in any order and with any
  faults: messages are immutable, deliveries only advance, a reply comes from the addressee and
  is unique, a disposition is final and was made against true evidence, and a committed message
  answers every repetition of its send.
\<close>

section \<open>The invariant of the tables\<close>

definition message_content :: "message_row \<Rightarrow> string \<times> string \<times> json \<times> uuid option" where
  "message_content m = (msg_route_ref m, msg_kind m, msg_payload m, msg_in_reply_to m)"

definition request_content :: "submit_request \<Rightarrow> string \<times> string \<times> json \<times> uuid option" where
  "request_content req = (smr_route_ref req, kind_value (smr_kind req), smr_payload req, smr_in_reply_to req)"

definition dlv_ident :: "delivery_row \<Rightarrow> uuid \<times> uuid \<times> uuid \<times> uuid" where
  "dlv_ident d = (dlv_delivery_id d, dlv_sender_work_id d, dlv_message_id d, dlv_recipient_work_id d)"

text \<open>
  The keys; one delivery for each message, under the identity derived from its route; a result is
  a reply of the addressee, and no delivery has two.
\<close>

definition mail_tables :: "mail_env \<Rightarrow> message_row list \<Rightarrow> delivery_row list \<Rightarrow> bool" where
  "mail_tables E ms ds =
     (distinct (map msg_key ms) \<and> distinct (map dlv_delivery_id ds) \<and> distinct (map dlv_message_key ds)
      \<and> msg_key ` set ms = dlv_message_key ` set ds
      \<and> (\<forall>d \<in> set ds. dlv_delivery_id d
           = delivery_identity E (dlv_sender_work_id d) (dlv_message_id d) (dlv_recipient_work_id d))
      \<and> (\<forall>m \<in> set ms. msg_kind m = (if msg_in_reply_to m = None then ''request'' else ''result''))
      \<and> (\<forall>m \<in> set ms. \<forall>m' \<in> set ms.
           msg_in_reply_to m \<noteq> None \<longrightarrow> msg_in_reply_to m' = msg_in_reply_to m \<longrightarrow> m' = m)
      \<and> (\<forall>m \<in> set ms. \<forall>i. msg_in_reply_to m = Some i \<longrightarrow>
           (\<exists>d \<in> set ds. dlv_delivery_id d = i \<and> dlv_recipient_work_id d = msg_sender_work_id m)))"

abbreviation mail_inv :: "mail_env \<Rightarrow> runtime_db \<Rightarrow> bool" where
  "mail_inv E db \<equiv> mail_tables E (rdb_messages db) (rdb_deliveries db)"

text \<open>It depends on the identities of the deliveries only.\<close>

lemma mail_tables_ident:
  assumes "map dlv_ident ds' = map dlv_ident ds"
  shows "mail_tables E ms ds' = mail_tables E ms ds"
proof -
  have keys: "map dlv_delivery_id xs = map fst (map dlv_ident xs)"
    "map dlv_message_key xs = map (\<lambda>(i, s, m, r). (s, m)) (map dlv_ident xs)" for xs
    by (simp_all add: dlv_ident_def dlv_message_key_def)
  have image: "dlv_message_key ` set xs = (\<lambda>(i, s, m, r). (s, m)) ` set (map dlv_ident xs)" for xs
    by (force simp: dlv_ident_def dlv_message_key_def)
  have all: "(\<forall>d \<in> set xs. dlv_delivery_id d = delivery_identity E (dlv_sender_work_id d) (dlv_message_id d) (dlv_recipient_work_id d))
      = (\<forall>(i, s, m, r) \<in> set (map dlv_ident xs). i = delivery_identity E s m r)" for xs
    by (auto simp: dlv_ident_def)
  have ex: "(\<exists>d \<in> set xs. dlv_delivery_id d = i \<and> dlv_recipient_work_id d = w)
      = (\<exists>(j, s, m, r) \<in> set (map dlv_ident xs). j = i \<and> r = w)" for xs i w
    by (auto simp: dlv_ident_def)
  show ?thesis unfolding mail_tables_def keys image all ex assms ..
qed

lemma mail_invD:
  assumes "mail_inv E db"
  shows "distinct (map msg_key (rdb_messages db))" and "distinct (map dlv_delivery_id (rdb_deliveries db))"
    and "distinct (map dlv_message_key (rdb_deliveries db))"
    and "msg_key ` set (rdb_messages db) = dlv_message_key ` set (rdb_deliveries db)"
    and "d \<in> set (rdb_deliveries db) \<Longrightarrow> dlv_delivery_id d
           = delivery_identity E (dlv_sender_work_id d) (dlv_message_id d) (dlv_recipient_work_id d)"
    and "m \<in> set (rdb_messages db) \<Longrightarrow> msg_kind m = (if msg_in_reply_to m = None then ''request'' else ''result'')"
  using assms unfolding mail_tables_def by blast+

text \<open>
  SHA-256 and \<open>uuid5\<close> where they are used: a stored message under the submitted identity with the
  submitted digest has the submitted content and recipient, and a stored delivery under the derived
  identity has the route it is derived from.
\<close>

definition identities_agree :: "mail_env \<Rightarrow> uuid \<Rightarrow> message_route \<Rightarrow> submit_request \<Rightarrow> runtime_db \<Rightarrow> bool" where
  "identities_agree E sender route req db =
     ((\<forall>row \<in> set (pending_query db). msg_key (snd row) = (sender, smr_message_id req) \<longrightarrow>
         msg_digest (snd row) = message_digest E route req \<longrightarrow>
         message_content (snd row) = request_content req
         \<and> dlv_recipient_work_id (fst row) = mrt_recipient_work_id route)
      \<and> (\<forall>d \<in> set (rdb_deliveries db).
           dlv_delivery_id d = delivery_identity E sender (smr_message_id req) (mrt_recipient_work_id route) \<longrightarrow>
           dlv_message_key d = (sender, smr_message_id req)))"

lemma pending_query_mem:
  "row \<in> set (pending_query db) \<longleftrightarrow>
     fst row \<in> set (rdb_deliveries db) \<and> snd row \<in> set (rdb_messages db) \<and> msg_key (snd row) = dlv_message_key (fst row)"
  by (cases row) (auto simp: pending_query_def)

lemma pending_query_map:
  assumes keys: "distinct (map msg_key ms)" and sub: "dlv_message_key ` set ds \<subseteq> msg_key ` set ms"
  shows "concat (map (\<lambda>d. map (Pair d) (filter (\<lambda>m. msg_key m = dlv_message_key d) ms)) ds)
    = map (\<lambda>d. (d, the (find (\<lambda>m. msg_key m = dlv_message_key d) ms))) ds"
  using sub
proof (induction ds)
  case (Cons d ds)
  then have "dlv_message_key d \<in> set (map msg_key ms)" by auto
  then have "find (\<lambda>m. msg_key m = dlv_message_key d) ms \<noteq> None" unfolding find_key_None by simp
  then obtain m where m: "find (\<lambda>m. msg_key m = dlv_message_key d) ms = Some m" by blast
  then have mem: "m \<in> set (filter (\<lambda>m. msg_key m = dlv_message_key d) ms)" by (auto simp: find_Some_iff)
  from filter_key_distinct [OF keys, of "dlv_message_key d"]
  have "filter (\<lambda>m. msg_key m = dlv_message_key d) ms = [m]"
  proof
    assume "filter (\<lambda>m. msg_key m = dlv_message_key d) ms = []"
    with mem show ?thesis by (simp only: list.set empty_iff)
  next
    assume "\<exists>r. filter (\<lambda>m. msg_key m = dlv_message_key d) ms = [r] \<and> msg_key r = dlv_message_key d"
    then obtain r where r: "filter (\<lambda>m. msg_key m = dlv_message_key d) ms = [r]" by blast
    from mem [unfolded r] r show ?thesis by simp
  qed
  with Cons m show ?case by simp
qed simp

lemma pending_query_keys:
  assumes "mail_inv E db"
  shows "map (dlv_delivery_id \<circ> fst) (pending_query db) = map dlv_delivery_id (rdb_deliveries db)"
    and "map (msg_key \<circ> snd) (pending_query db) = map dlv_message_key (rdb_deliveries db)"
proof -
  have q: "pending_query db = map (\<lambda>d. (d, the (find (\<lambda>m. msg_key m = dlv_message_key d) (rdb_messages db)))) (rdb_deliveries db)"
    unfolding pending_query_def using pending_query_map [OF mail_invD(1) [OF assms]] mail_invD(4) [OF assms] by blast
  then show "map (dlv_delivery_id \<circ> fst) (pending_query db) = map dlv_delivery_id (rdb_deliveries db)" by simp
  have "map (msg_key \<circ> snd) (pending_query db) = map (dlv_message_key \<circ> fst) (pending_query db)"
    by (auto simp: pending_query_mem)
  then show "map (msg_key \<circ> snd) (pending_query db) = map dlv_message_key (rdb_deliveries db)" by (simp add: q)
qed

lemma one_row_Inr: "one_row rows = Inr x \<longleftrightarrow> rows = [x]"
  by (auto simp: one_row_def split: list.splits)

lemma delivery_row_of_find:
  "mail_inv E db \<Longrightarrow> delivery_row_of i db = Inr (find (\<lambda>d. dlv_delivery_id d = i) (rdb_deliveries db))"
  unfolding delivery_row_of_def by (rule one_or_none_unique_key) (rule mail_invD)

lemma delivery_row_of_Some:
  assumes "delivery_row_of i db = Inr (Some d)"
  shows "d \<in> set (rdb_deliveries db)" and "dlv_delivery_id d = i"
  using one_or_none_mem [OF assms [unfolded delivery_row_of_def]] by simp_all

section \<open>What a transaction may change\<close>

fun delivery_rank :: "delivery_state \<Rightarrow> nat" where
  "delivery_rank AVAILABLE = 0"
| "delivery_rank RECEIVED = 1"
| "delivery_rank ACKNOWLEDGED = 2"
| "delivery_rank DISPOSITIONED = 3"

definition mail_advances :: "runtime_db \<Rightarrow> runtime_db \<Rightarrow> bool" where
  "mail_advances db db' =
     (set (rdb_messages db) \<subseteq> set (rdb_messages db')
      \<and> (\<forall>d \<in> set (rdb_deliveries db). \<exists>d' \<in> set (rdb_deliveries db'). dlv_ident d' = dlv_ident d
           \<and> delivery_rank (dlv_state d) \<le> delivery_rank (dlv_state d')
           \<and> (dlv_state d = DISPOSITIONED \<longrightarrow> d' = d)))"

text \<open>The evidence a disposition names, in the tables.\<close>

fun evidence_holds :: "mail_env \<Rightarrow> delivery_row \<Rightarrow> disposition_evidence \<Rightarrow> runtime_db \<Rightarrow> bool" where
  "evidence_holds E d (Result_evidence r) db =
     (\<exists>m \<in> set (rdb_messages db). msg_key m = (dlv_recipient_work_id d, r) \<and> msg_in_reply_to m = Some (dlv_delivery_id d))"
| "evidence_holds E d (Effect_evidence op) db =
     (op = message_effect_operation_id E (dlv_delivery_id d)
      \<and> (\<exists>row \<in> set (rdb_intents db). ei_operation_id row = uuid_str op
           \<and> go_operation_id (ei_outcome row) = Some op \<and> go_effect (ei_outcome row) = Applied
           \<and> (\<exists>rc. go_receipt (ei_outcome row) = Some rc \<and> receipt_work_id rc = Some (dlv_recipient_work_id d))))"

definition evidence_recorded :: "mail_env \<Rightarrow> delivery_row \<Rightarrow> runtime_db \<Rightarrow> bool" where
  "evidence_recorded E d db =
     (\<exists>ev. dlv_disposition_digest d = Some (disposition_digest E ev) \<and> dlv_evidence d = Some (evidence_json ev)
        \<and> evidence_holds E d ev db)"

definition mail_write :: "mail_env \<Rightarrow> runtime_db \<Rightarrow> runtime_db \<Rightarrow> bool" where
  "mail_write E db db' =
     (mail_inv E db' \<and> mail_advances db db' \<and> rdb_grants db' = rdb_grants db
      \<and> (\<forall>d \<in> set (rdb_deliveries db'). dlv_state d = DISPOSITIONED \<longrightarrow>
           d \<in> set (rdb_deliveries db) \<or> evidence_recorded E d db'))"

lemma mail_advances_refl: "mail_advances db db"
  by (auto simp: mail_advances_def)

lemma mail_advances_trans:
  assumes "mail_advances db db1" and "mail_advances db1 db2"
  shows "mail_advances db db2"
  unfolding mail_advances_def
proof (intro conjI ballI)
  show "set (rdb_messages db) \<subseteq> set (rdb_messages db2)" using assms by (auto simp: mail_advances_def)
  fix d assume "d \<in> set (rdb_deliveries db)"
  with assms(1) obtain d1 where d1: "d1 \<in> set (rdb_deliveries db1)" "dlv_ident d1 = dlv_ident d"
    "delivery_rank (dlv_state d) \<le> delivery_rank (dlv_state d1)" "dlv_state d = DISPOSITIONED \<longrightarrow> d1 = d"
    unfolding mail_advances_def by blast
  with assms(2) obtain d2 where d2: "d2 \<in> set (rdb_deliveries db2)" "dlv_ident d2 = dlv_ident d1"
    "delivery_rank (dlv_state d1) \<le> delivery_rank (dlv_state d2)" "dlv_state d1 = DISPOSITIONED \<longrightarrow> d2 = d1"
    unfolding mail_advances_def by blast
  from d1 d2 show "\<exists>d' \<in> set (rdb_deliveries db2). dlv_ident d' = dlv_ident d
      \<and> delivery_rank (dlv_state d) \<le> delivery_rank (dlv_state d') \<and> (dlv_state d = DISPOSITIONED \<longrightarrow> d' = d)"
    by (intro bexI [of _ d2]) auto
qed

lemma mail_write_refl: "mail_inv E db \<Longrightarrow> mail_write E db db"
  by (simp add: mail_write_def mail_advances_refl)

lemma evidence_holds_mono:
  assumes "evidence_holds E d ev db" and "set (rdb_messages db) \<subseteq> set (rdb_messages db')" and "rdb_grants db' = rdb_grants db"
  shows "evidence_holds E d ev db'"
proof (cases ev)
  case (Result_evidence r)
  with assms(1,2) show ?thesis by auto
qed (use assms(1,3) in auto)

lemma mail_write_trans:
  assumes "mail_write E db db1" and "mail_write E db1 db2"
  shows "mail_write E db db2"
proof -
  have m: "set (rdb_messages db1) \<subseteq> set (rdb_messages db2)" "rdb_grants db2 = rdb_grants db1"
    using assms(2) by (simp_all add: mail_write_def mail_advances_def)
  have "d \<in> set (rdb_deliveries db) \<or> evidence_recorded E d db2"
    if d: "d \<in> set (rdb_deliveries db2)" "dlv_state d = DISPOSITIONED" for d
  proof (cases "d \<in> set (rdb_deliveries db1)")
    case True
    with d(2) assms(1) have "d \<in> set (rdb_deliveries db) \<or> evidence_recorded E d db1" by (simp add: mail_write_def)
    then show ?thesis using evidence_holds_mono [OF _ m] by (auto simp: evidence_recorded_def)
  next
    case False
    with d assms(2) show ?thesis by (auto simp: mail_write_def)
  qed
  with assms mail_advances_trans show ?thesis unfolding mail_write_def by metis
qed

section \<open>Rewriting deliveries\<close>

lemma rewrite_write:
  assumes inv: "mail_inv E db"
    and f: "\<And>d. d \<in> set (rdb_deliveries db) \<Longrightarrow> dlv_ident (f d) = dlv_ident d
        \<and> delivery_rank (dlv_state d) \<le> delivery_rank (dlv_state (f d))
        \<and> (dlv_state d = DISPOSITIONED \<longrightarrow> f d = d)
        \<and> (dlv_state (f d) = DISPOSITIONED \<longrightarrow> f d = d \<or> evidence_recorded E (f d) db)"
  shows "mail_write E db (db\<lparr>rdb_deliveries := map f (rdb_deliveries db)\<rparr>)"
proof -
  let ?db = "db\<lparr>rdb_deliveries := map f (rdb_deliveries db)\<rparr>"
  have "map dlv_ident (map f (rdb_deliveries db)) = map dlv_ident (rdb_deliveries db)" using f by simp
  from mail_tables_ident [OF this] inv have "mail_inv E ?db" by simp
  moreover have "mail_advances db ?db"
    unfolding mail_advances_def using f by auto
  moreover have "d \<in> set (rdb_deliveries db) \<or> evidence_recorded E d ?db"
    if "d \<in> set (rdb_deliveries ?db)" "dlv_state d = DISPOSITIONED" for d
  proof -
    from that(1) obtain d0 where d0: "d0 \<in> set (rdb_deliveries db)" "d = f d0" by auto
    with f [OF d0(1)] that(2) have "d = d0 \<or> evidence_recorded E d db" by auto
    then show ?thesis using d0(1) evidence_holds_mono [of E d _ db ?db] by (auto simp: evidence_recorded_def)
  qed
  ultimately show ?thesis by (simp add: mail_write_def)
qed

lemma update_write:
  assumes inv: "mail_inv E db" and d: "delivery_row_of i db = Inr (Some d)"
    and f: "dlv_ident (f d) = dlv_ident d" "delivery_rank (dlv_state d) \<le> delivery_rank (dlv_state (f d))"
      "dlv_state d \<noteq> DISPOSITIONED" "dlv_state (f d) = DISPOSITIONED \<Longrightarrow> evidence_recorded E (f d) db"
  shows "mail_write E db (update_delivery i f db)"
  unfolding update_delivery_def
proof (rule rewrite_write [OF inv], goal_cases)
  case (1 x)
  have "x = d" if "dlv_delivery_id x = i"
    using that delivery_row_of_Some [OF d] 1 mail_invD(2) [OF inv] by (metis distinct_map inj_onD)
  with f show ?case by auto
qed

section \<open>Submission\<close>

lemma mail_unique:
  assumes "mail_inv E db"
  shows "d \<in> set (rdb_deliveries db) \<Longrightarrow> d' \<in> set (rdb_deliveries db) \<Longrightarrow> dlv_delivery_id d = dlv_delivery_id d' \<Longrightarrow> d = d'"
    and "m \<in> set (rdb_messages db) \<Longrightarrow> m' \<in> set (rdb_messages db) \<Longrightarrow> msg_key m = msg_key m' \<Longrightarrow> m = m'"
    and "d \<in> set (rdb_deliveries db) \<Longrightarrow> d' \<in> set (rdb_deliveries db) \<Longrightarrow> dlv_message_key d = dlv_message_key d' \<Longrightarrow> d = d'"
  using mail_invD(1-3) [OF assms] by (metis distinct_map inj_onD)+

abbreviation submit_key :: "uuid \<Rightarrow> submit_request \<Rightarrow> uuid \<times> uuid" where
  "submit_key sender req \<equiv> (sender, smr_message_id req)"

abbreviation submit_message :: "mail_env \<Rightarrow> int \<Rightarrow> uuid \<Rightarrow> message_route \<Rightarrow> submit_request \<Rightarrow> message_row" where
  "submit_message E now sender route req \<equiv> new_message sender req (message_digest E route req) now"

lemma new_rows [simp]:
  "msg_key (new_message sender req digest now) = submit_key sender req"
  "msg_in_reply_to (new_message sender req digest now) = smr_in_reply_to req"
  "msg_digest (new_message sender req digest now) = digest"
  "msg_sender_work_id (new_message sender req digest now) = sender"
  "msg_kind (new_message sender req digest now) = kind_value (smr_kind req)"
  "dlv_message_key (new_delivery E sender route req) = submit_key sender req"
  "dlv_route_key (new_delivery E sender route req) = (sender, smr_message_id req, mrt_recipient_work_id route)"
  "dlv_delivery_id (new_delivery E sender route req) = delivery_identity E sender (smr_message_id req) (mrt_recipient_work_id route)"
  "dlv_recipient_work_id (new_delivery E sender route req) = mrt_recipient_work_id route"
  "dlv_sender_work_id (new_delivery E sender route req) = sender"
  "dlv_message_id (new_delivery E sender route req) = smr_message_id req"
  "dlv_state (new_delivery E sender route req) = AVAILABLE"
  "message_content (new_message sender req digest now) = request_content req"
  by (simp_all add: new_message_def new_delivery_def msg_key_def dlv_message_key_def dlv_route_key_def
      message_content_def request_content_def)

lemma persist_cases:
  assumes inv: "mail_inv E db" and ids: "identities_agree E sender route req db"
    and run: "persist_delivery E now sender route req (message_digest E route req) db = Inr ((row, fresh), db')"
  obtains (conflict) "row = None" "db' = db"
    | (known) d m where "row = Some (d, m)" "db' = db" "(d, m) \<in> set (pending_query db)"
        "msg_key m = submit_key sender req" "message_content m = request_content req"
        "dlv_recipient_work_id d = mrt_recipient_work_id route"
    | (fresh) "row = Some (new_delivery E sender route req, submit_message E now sender route req)"
        "db' = db\<lparr>rdb_messages := rdb_messages db @ [submit_message E now sender route req],
           rdb_deliveries := rdb_deliveries db @ [new_delivery E sender route req]\<rparr>"
        "submit_key sender req \<notin> msg_key ` set (rdb_messages db)"
        "smr_in_reply_to req \<noteq> None \<Longrightarrow> smr_in_reply_to req \<notin> msg_in_reply_to ` set (rdb_messages db)"
        "dlv_delivery_id (new_delivery E sender route req) \<notin> dlv_delivery_id ` set (rdb_deliveries db)"
proof -
  let ?m = "submit_message E now sender route req" and ?d = "new_delivery E sender route req"
  let ?key = "submit_key sender req" and ?i = "dlv_delivery_id (new_delivery E sender route req)"
  obtain current where cur: "filter (\<lambda>m. msg_key m = ?key) (rdb_messages (insert_message ?m db)) = [current]"
    using run unfolding persist_delivery_def Let_def by (elim bindE_left) (auto simp: one_row_Inr)
  have "current \<in> set (filter (\<lambda>m. msg_key m = ?key) (rdb_messages (insert_message ?m db)))" unfolding cur by simp
  then have cur_mem: "current \<in> set (rdb_messages (insert_message ?m db))" "msg_key current = ?key" by simp_all
  note run = run [unfolded persist_delivery_def Let_def cur one_row_def list.case bindE_simps]
  show thesis
  proof (cases "?key \<in> msg_key ` set (rdb_messages db)")
    case True
    then have ins: "insert_message ?m db = db" by (auto simp: insert_message_def)
    show thesis
    proof (cases "msg_digest current = message_digest E route req")
      case False
      with run ins conflict show thesis by simp
    next
      case same: True
      from True obtain d where d: "d \<in> set (rdb_deliveries db)" "dlv_message_key d = ?key"
        using mail_invD(4) [OF inv] by auto
      have row0: "(d, current) \<in> set (pending_query db)"
        using d cur_mem by (simp add: pending_query_mem ins)
      with ids same cur_mem(2) have agree: "message_content current = request_content req"
        "dlv_recipient_work_id d = mrt_recipient_work_id route"
        unfolding identities_agree_def by force+
      have key_d: "dlv_sender_work_id d = sender" "dlv_message_id d = smr_message_id req"
        using d(2) by (simp_all add: dlv_message_key_def)
      then have "dlv_route_key d = dlv_route_key ?d" using agree(2) by (simp add: dlv_route_key_def)
      then have "insert_delivery ?d db = (False, db)" using d(1) unfolding insert_delivery_def by force
      with run ins same obtain r where r: "filter (\<lambda>row. dlv_delivery_id (fst row) = ?i) (pending_query db) = [r]"
        and out: "row = Some r" "db' = db" by (auto simp: bindE_eq_Inr one_row_def split: list.split_asm)
      have "dlv_delivery_id d = ?i" using mail_invD(5) [OF inv d(1)] key_d agree(2) by simp
      with row0 have "(d, current) \<in> set (filter (\<lambda>row. dlv_delivery_id (fst row) = ?i) (pending_query db))" by simp
      with r have "r = (d, current)" by (simp only: list.set singleton_iff)
      with known [OF _ out(2) row0 cur_mem(2) agree] out(1) show thesis by simp
    qed
  next
    case new: False
    have free: "smr_in_reply_to req \<notin> msg_in_reply_to ` set (rdb_messages db)" if "smr_in_reply_to req \<noteq> None"
    proof
      assume "smr_in_reply_to req \<in> msg_in_reply_to ` set (rdb_messages db)"
      with that have "insert_message ?m db = db" by (auto simp: insert_message_def)
      with cur_mem new show False by (metis image_eqI)
    qed
    with new have ins: "insert_message ?m db = db\<lparr>rdb_messages := rdb_messages db @ [?m]\<rparr>"
      by (auto simp: insert_message_def)
    have "current \<notin> set (rdb_messages db)" using cur_mem(2) new by (metis image_eqI)
    with cur_mem(1) have "current = ?m" by (simp add: ins)
    have no_id: "?i \<notin> dlv_delivery_id ` set (rdb_deliveries db)"
    proof
      assume "?i \<in> dlv_delivery_id ` set (rdb_deliveries db)"
      then obtain d where "d \<in> set (rdb_deliveries db)" "dlv_message_key d = ?key"
        using ids unfolding identities_agree_def by force
      with new mail_invD(4) [OF inv] show False by (metis image_eqI)
    qed
    have "dlv_route_key ?d \<notin> dlv_route_key ` set (rdb_deliveries db)"
    proof
      assume "dlv_route_key ?d \<in> dlv_route_key ` set (rdb_deliveries db)"
      then obtain d where "d \<in> set (rdb_deliveries db)" "dlv_message_key d = ?key"
        by (auto simp: dlv_route_key_def dlv_message_key_def)
      with new mail_invD(4) [OF inv] show False by (metis image_eqI)
    qed
    with no_id have "insert_delivery ?d (db\<lparr>rdb_messages := rdb_messages db @ [?m]\<rparr>)
        = (True, db\<lparr>rdb_messages := rdb_messages db @ [?m], rdb_deliveries := rdb_deliveries db @ [?d]\<rparr>)"
      (is "_ = (True, ?db2)") by (auto simp: insert_delivery_def)
    with run ins \<open>current = ?m\<close> obtain r where r: "filter (\<lambda>row. dlv_delivery_id (fst row) = ?i) (pending_query ?db2) = [r]"
      and out: "row = Some r" "db' = ?db2" by (auto simp: bindE_eq_Inr one_row_def split: list.split_asm)
    have "(?d, ?m) \<in> set (filter (\<lambda>row. dlv_delivery_id (fst row) = ?i) (pending_query ?db2))"
      by (simp add: pending_query_mem)
    with r have "r = (?d, ?m)" by (simp only: list.set singleton_iff)
    with fresh out new free no_id show thesis by blast
  qed
qed

text \<open>A fresh submission keeps the invariant when a reply answers a delivery to its sender.\<close>

lemma submitted_tables:
  assumes inv: "mail_tables E ms ds" and valid: "valid_submit_request req"
    and fresh: "submit_key sender req \<notin> msg_key ` set ms" "dlv_delivery_id (new_delivery E sender route req) \<notin> dlv_delivery_id ` set ds"
      "smr_in_reply_to req \<noteq> None \<Longrightarrow> smr_in_reply_to req \<notin> msg_in_reply_to ` set ms"
    and reply: "\<And>i. smr_in_reply_to req = Some i \<Longrightarrow> \<exists>d \<in> set ds. dlv_delivery_id d = i \<and> dlv_recipient_work_id d = sender"
  shows "mail_tables E (ms @ [new_message sender req digest now]) (ds @ [new_delivery E sender route req])"
proof -
  let ?m = "new_message sender req digest now" and ?d = "new_delivery E sender route req"
  have keys: "msg_key ` set ms = dlv_message_key ` set ds" using inv by (simp add: mail_tables_def)
  have kind: "msg_kind ?m = (if msg_in_reply_to ?m = None then ''request'' else ''result'')"
    using valid by (cases "smr_kind req") (auto simp: valid_submit_request_def)
  have uniq: "m' = m" if "m \<in> set (ms @ [?m])" "m' \<in> set (ms @ [?m])" "msg_in_reply_to m \<noteq> None"
    "msg_in_reply_to m' = msg_in_reply_to m" for m m'
  proof -
    have "m \<in> set ms \<Longrightarrow> m' \<in> set ms \<Longrightarrow> m' = m" using inv that(3,4) unfolding mail_tables_def by blast
    moreover have "m \<noteq> ?m" if "m' = ?m" "m \<in> set ms" "msg_in_reply_to m \<noteq> None" "msg_in_reply_to m' = msg_in_reply_to m" for m m'
      using that fresh(3) by force
    ultimately show ?thesis using that fresh(3) by force
  qed
  have ans: "\<exists>d \<in> set (ds @ [?d]). dlv_delivery_id d = i \<and> dlv_recipient_work_id d = msg_sender_work_id m"
    if "m \<in> set (ms @ [?m])" "msg_in_reply_to m = Some i" for m i
  proof (cases "m \<in> set ms")
    case True
    with inv that(2) obtain d where "d \<in> set ds" "dlv_delivery_id d = i" "dlv_recipient_work_id d = msg_sender_work_id m"
      unfolding mail_tables_def by blast
    then show ?thesis by auto
  next
    case False
    with that have "m = ?m" by simp
    with that(2) reply show ?thesis by fastforce
  qed
  show ?thesis
    unfolding mail_tables_def
  proof (intro conjI)
    show "\<forall>m \<in> set (ms @ [?m]). \<forall>m' \<in> set (ms @ [?m]).
        msg_in_reply_to m \<noteq> None \<longrightarrow> msg_in_reply_to m' = msg_in_reply_to m \<longrightarrow> m' = m" using uniq by blast
    show "\<forall>m \<in> set (ms @ [?m]). \<forall>i. msg_in_reply_to m = Some i \<longrightarrow>
        (\<exists>d \<in> set (ds @ [?d]). dlv_delivery_id d = i \<and> dlv_recipient_work_id d = msg_sender_work_id m)" using ans by blast
    show "\<forall>m \<in> set (ms @ [?m]). msg_kind m = (if msg_in_reply_to m = None then ''request'' else ''result'')"
      using inv kind unfolding mail_tables_def by simp
    show "distinct (map msg_key (ms @ [?m]))" "distinct (map dlv_delivery_id (ds @ [?d]))"
      "distinct (map dlv_message_key (ds @ [?d]))"
      using inv fresh(1,2) keys by (simp_all add: mail_tables_def)
    show "msg_key ` set (ms @ [?m]) = dlv_message_key ` set (ds @ [?d])" using keys by simp
    show "\<forall>d \<in> set (ds @ [?d]). dlv_delivery_id d
        = delivery_identity E (dlv_sender_work_id d) (dlv_message_id d) (dlv_recipient_work_id d)"
      using inv by (simp add: mail_tables_def)
  qed
qed

lemma persist_write:
  assumes inv: "mail_inv E db" and valid: "valid_submit_request req" and ids: "identities_agree E sender route req db"
    and reply: "\<And>i. smr_in_reply_to req = Some i \<Longrightarrow>
      \<exists>d \<in> set (rdb_deliveries db). dlv_delivery_id d = i \<and> dlv_recipient_work_id d = sender"
    and run: "persist_delivery E now sender route req (message_digest E route req) db = Inr ((row, fresh), db')"
  shows "mail_write E db db'"
  using inv ids run
proof (cases rule: persist_cases)
  case fresh
  from submitted_tables [OF inv valid fresh(3,5,4) reply] fresh(2) have "mail_inv E db'" by simp
  then show ?thesis by (auto simp: mail_write_def mail_advances_def fresh(2))
qed (use mail_write_refl [OF inv] in simp_all)

section \<open>Dispositions\<close>

lemma dispositioned_simps [simp]:
  "dlv_ident (dispositioned E now ev d) = dlv_ident d"
  "dlv_delivery_id (dispositioned E now ev d) = dlv_delivery_id d"
  "dlv_recipient_work_id (dispositioned E now ev d) = dlv_recipient_work_id d"
  "dlv_state (dispositioned E now ev d) = DISPOSITIONED"
  "dlv_disposition_digest (dispositioned E now ev d) = Some (disposition_digest E ev)"
  "dlv_evidence (dispositioned E now ev d) = Some (evidence_json ev)"
  by (simp_all add: dispositioned_def dlv_ident_def)

lemma rank_bound: "delivery_rank st \<le> 3"
  by (cases st) simp_all

text \<open>A delivery that was disposed of by exactly this result.\<close>

definition answered_by :: "mail_env \<Rightarrow> uuid \<Rightarrow> uuid \<Rightarrow> uuid \<Rightarrow> runtime_db \<Rightarrow> bool" where
  "answered_by E i sender result db =
     (\<exists>d \<in> set (rdb_deliveries db). dlv_delivery_id d = i \<and> dlv_recipient_work_id d = sender
        \<and> dlv_state d = DISPOSITIONED \<and> dlv_disposition_digest d = Some (disposition_digest E (Result_evidence result))
        \<and> dlv_evidence d = Some (evidence_json (Result_evidence result)))"

lemma disposition_result_cases:
  assumes inv: "mail_inv E db" and run: "disposition_result E now i sender result binding db = Inr (failure, db')"
  obtains (refused) r where "failure = Some r" "db' = db"
    | (repeated) "failure = None" "db' = db" "answered_by E i sender result db"
    | (disposed) d where "failure = None" "delivery_row_of i db = Inr (Some d)" "dlv_recipient_work_id d = sender"
        "dlv_state d \<noteq> DISPOSITIONED" "db' = update_delivery i (dispositioned E now (Result_evidence result)) db"
proof -
  let ?found = "find (\<lambda>d. dlv_delivery_id d = i) (rdb_deliveries db)"
  note find = delivery_row_of_find [OF inv, of i]
  note run = run [unfolded disposition_result_def find bindE_simps]
  show thesis
  proof (cases ?found)
    case None
    with run have "failure = Some (submit_no Ms_conflict ''reply_delivery_not_found'')" "db' = db" by auto
    then show thesis by (rule refused)
  next
    case (Some d)
    note run = run [unfolded Some option.case Let_def]
    from find Some have row: "delivery_row_of i db = Inr (Some d)" by simp
    show thesis
    proof (cases "dlv_recipient_work_id d = sender")
      case False
      with run have "failure = Some (submit_no Ms_conflict ''reply_delivery_not_found'')" "db' = db" by auto
      then show thesis by (rule refused)
    next
      case mine: True
      show thesis
      proof (cases "dlv_state d = DISPOSITIONED")
        case True
        show thesis
        proof (cases "dlv_disposition_digest d = Some (disposition_digest E (Result_evidence result))
            \<and> dlv_evidence d = Some (evidence_json (Result_evidence result))")
          case same: True
          with True mine delivery_row_of_Some [OF row] have "answered_by E i sender result db"
            unfolding answered_by_def by blast
          moreover from run mine True same have "failure = None" "db' = db" by auto
          ultimately show thesis using repeated by blast
        next
          case False
          with run mine True have "failure = Some (submit_no Ms_conflict ''reply_identity_conflict'')" "db' = db" by auto
          then show thesis by (rule refused)
        qed
      next
        case False
        with run mine have "(\<exists>r. failure = Some r \<and> db' = db)
            \<or> failure = None \<and> db' = update_delivery i (dispositioned E now (Result_evidence result)) db"
          by (auto split: if_split_asm)
        then show thesis using refused disposed [OF _ row mine False] by blast
      qed
    qed
  qed
qed

lemma disposition_result_write:
  assumes inv: "mail_inv E db"
    and reply: "m \<in> set (rdb_messages db)" "msg_key m = (sender, result)" "msg_in_reply_to m = Some i"
    and run: "disposition_result E now i sender result binding db = Inr (failure, db')"
  shows "mail_write E db db'" and "failure = None \<Longrightarrow> answered_by E i sender result db'"
proof -
  let ?f = "dispositioned E now (Result_evidence result)"
  have "mail_write E db db' \<and> (failure = None \<longrightarrow> answered_by E i sender result db')"
    using inv run
  proof (cases rule: disposition_result_cases)
    case (disposed d)
    note d = delivery_row_of_Some [OF disposed(2)]
    have "evidence_holds E (?f d) (Result_evidence result) db" using reply d(2) disposed(3) by auto
    then have ev: "evidence_recorded E (?f d) db" unfolding evidence_recorded_def
      by (intro exI [of _ "Result_evidence result"] conjI) (simp_all only: dispositioned_simps)
    have "mail_write E db db'"
      unfolding disposed(5) by (rule update_write [OF inv disposed(2)]) (use disposed(4) rank_bound ev in simp_all)
    moreover have "?f d \<in> set (rdb_deliveries db')" using d by (force simp: disposed(5) update_delivery_def)
    then have "answered_by E i sender result db'"
      unfolding answered_by_def by (intro bexI [of _ "?f d"]) (use d(2) disposed(3) in simp_all)
    ultimately show ?thesis by simp
  qed (use mail_write_refl [OF inv] in simp_all)
  then show "mail_write E db db'" and "failure = None \<Longrightarrow> answered_by E i sender result db'" by simp_all
qed

section \<open>The transactions\<close>

lemma reply_accepted:
  assumes "reply_refusal i sender message received db = Inr None \<or> review_reply_refusal i sender message received db = Inr None"
  shows "\<exists>d \<in> set (rdb_deliveries db). dlv_delivery_id d = i \<and> dlv_recipient_work_id d = sender"
  using assms
proof
  assume run: "reply_refusal i sender message received db = Inr None"
  then obtain row where row: "delivery_row_of i db = Inr row" unfolding reply_refusal_def by (rule bindE_left)
  note run = run [unfolded reply_refusal_def row bindE_simps]
  then obtain d where d: "row = Some d" by (cases row) simp_all
  with run have "dlv_recipient_work_id d = sender" by (simp split: if_split_asm)
  with delivery_row_of_Some [OF row [unfolded d]] show ?thesis by blast
next
  assume run: "review_reply_refusal i sender message received db = Inr None"
  then obtain row where row: "delivery_row_of i db = Inr row" unfolding review_reply_refusal_def by (rule bindE_left)
  note run = run [unfolded review_reply_refusal_def row bindE_simps]
  then obtain d where d: "row = Some d" by (cases row) simp_all
  with run have "dlv_recipient_work_id d = sender" by (simp split: if_split_asm)
  with delivery_row_of_Some [OF row [unfolded d]] show ?thesis by blast
qed

text \<open>\<open>_store\<close>: what it wrote, and what a stored answer means.\<close>

definition stored_message ::
  "mail_env \<Rightarrow> uuid \<Rightarrow> message_route \<Rightarrow> submit_request \<Rightarrow> delivery_row \<times> message_row \<Rightarrow> runtime_db \<Rightarrow> bool" where
  "stored_message E sender route req row db =
     (snd row \<in> set (rdb_messages db) \<and> msg_key (snd row) = submit_key sender req
      \<and> message_content (snd row) = request_content req
      \<and> (\<exists>d \<in> set (rdb_deliveries db). dlv_ident d = dlv_ident (fst row) \<and> dlv_message_key d = submit_key sender req
           \<and> dlv_recipient_work_id d = mrt_recipient_work_id route))"

lemma persist_stored:
  assumes "mail_inv E db" and "identities_agree E sender route req db"
    and "persist_delivery E now sender route req (message_digest E route req) db = Inr ((Some row, fresh), db')"
  shows "stored_message E sender route req row db'"
  using assms
proof (cases rule: persist_cases)
  case (known d m)
  then show ?thesis by (auto simp: stored_message_def pending_query_mem)
next
  case fresh
  then show ?thesis by (auto simp: stored_message_def)
qed simp

lemma stored_later:
  assumes "stored_message E sender route req row db" and "mail_advances db db'"
  shows "stored_message E sender route req row db'"
proof -
  from assms(1) obtain d where d: "d \<in> set (rdb_deliveries db)" "dlv_ident d = dlv_ident (fst row)"
    "dlv_message_key d = submit_key sender req" "dlv_recipient_work_id d = mrt_recipient_work_id route"
    by (auto simp: stored_message_def)
  with assms(2) obtain d' where "d' \<in> set (rdb_deliveries db')" "dlv_ident d' = dlv_ident d"
    unfolding mail_advances_def by blast
  moreover from this have "dlv_message_key d' = dlv_message_key d" "dlv_recipient_work_id d' = dlv_recipient_work_id d"
    by (simp_all add: dlv_ident_def dlv_message_key_def)
  ultimately show ?thesis using assms d unfolding stored_message_def mail_advances_def by auto
qed

lemma store_in_write:
  assumes inv: "mail_inv E db" and valid: "valid_submit_request req" and ids: "identities_agree E sender route req db"
    and run: "store_in E now sender route req received binding db = Inr (out, db')"
  shows "mail_write E db db'"
    and "out = Stored row fresh \<Longrightarrow> stored_message E sender route req row db'
        \<and> (\<forall>i b. smr_in_reply_to req = Some i \<longrightarrow> binding = Some b \<longrightarrow> answered_by E i sender (smr_message_id req) db')"
proof -
  have "mail_write E db db' \<and> (out = Stored row fresh \<longrightarrow> stored_message E sender route req row db'
      \<and> (\<forall>i b. smr_in_reply_to req = Some i \<longrightarrow> binding = Some b \<longrightarrow> answered_by E i sender (smr_message_id req) db'))"
  proof (cases "smr_route_ref req \<in> set REVIEW_ROUTE_REFS \<and> REVIEW_CUTOFF_RECEIPT \<in> set (rdb_receipts db)")
    case True
    with run mail_write_refl [OF inv] show ?thesis by (auto simp: store_in_def)
  next
    case False
    note run = run [unfolded store_in_def Let_def if_not_P [OF False]]
    obtain held where held: "binding_current binding db = Inr held" by (rule bindE_left [OF run])
    note run = run [unfolded held bindE_simps]
    show ?thesis
    proof (cases held)
      case False
      with run mail_write_refl [OF inv] show ?thesis by auto
    next
      case True
      note run = run [unfolded eqTrueI [OF True] not_True_eq_False if_False]
      obtain refused where refused: "(case smr_in_reply_to req of None \<Rightarrow> Inr None
          | Some i \<Rightarrow> reply_refusal i sender (smr_message_id req) received db) = Inr refused" by (rule bindE_left [OF run])
      note run = run [unfolded refused bindE_simps]
      show ?thesis
      proof (cases refused)
        case (Some r)
        with run mail_write_refl [OF inv] show ?thesis by auto
      next
        case None
        have reply: "\<exists>d \<in> set (rdb_deliveries db). dlv_delivery_id d = i \<and> dlv_recipient_work_id d = sender"
          if "smr_in_reply_to req = Some i" for i
          using reply_accepted [of i sender "smr_message_id req" received db] refused None that by simp
        note run = run [unfolded None option.case]
        obtain p where p: "persist_delivery E now sender route req (message_digest E route req) db = Inr p"
          by (rule bindE_left [OF run])
        obtain stored new db1 where p1: "p = ((stored, new), db1)" by (metis prod.exhaust)
        note w1 = persist_write [OF inv valid ids reply p [unfolded p1]]
        then have inv1: "mail_inv E db1" by (simp add: mail_write_def)
        note run = run [unfolded p p1 bindE_simps prod.case]
        show ?thesis
        proof (cases stored)
          case None
          with run w1 show ?thesis by auto
        next
          case (Some srow)
          note st = persist_stored [OF inv ids p [unfolded p1 Some]]
          note run = run [unfolded Some option.case]
          show ?thesis
          proof (cases "smr_in_reply_to req = None \<or> binding = None")
            case True
            with run w1 st show ?thesis by (cases "smr_in_reply_to req"; cases binding) auto
          next
            case False
            then obtain i b where ib: "smr_in_reply_to req = Some i" "binding = Some b" by auto
            note run = run [unfolded ib prod.case option.case]
            obtain q where q: "disposition_result E now i sender (smr_message_id req) b db1 = Inr q" by (rule bindE_left [OF run])
            obtain failure db2 where q1: "q = (failure, db2)" by fastforce
            note run = run [unfolded q q1 bindE_simps prod.case]
            have m: "snd srow \<in> set (rdb_messages db1)" "msg_key (snd srow) = (sender, smr_message_id req)"
              "msg_in_reply_to (snd srow) = Some i"
              using st ib by (auto simp: stored_message_def message_content_def request_content_def)
            note w2 = disposition_result_write [OF inv1 m q [unfolded q1]]
            have "stored_message E sender route req srow db2" using stored_later [OF st] w2(1) by (simp add: mail_write_def)
            with run w2 mail_write_trans [OF w1 w2(1)] ib show ?thesis by (cases failure) auto
          qed
        qed
      qed
    qed
  qed
  then show "mail_write E db db'"
    and "out = Stored row fresh \<Longrightarrow> stored_message E sender route req row db'
        \<and> (\<forall>i b. smr_in_reply_to req = Some i \<longrightarrow> binding = Some b \<longrightarrow> answered_by E i sender (smr_message_id req) db')"
    by simp_all
qed

lemma store_txn_write:
  assumes "mail_inv E db" and "valid_submit_request req" and "identities_agree E sender route req db"
    and run: "store_txn e (store_in E now sender route req received binding) db = (r, db')"
  shows "mail_write E db db'"
    and "r = Inr (Stored row fresh) \<Longrightarrow> stored_message E sender route req row db'
        \<and> (\<forall>i b. smr_in_reply_to req = Some i \<longrightarrow> binding = Some b \<longrightarrow> answered_by E i sender (smr_message_id req) db')"
proof -
  let ?body = "store_in E now sender route req received binding"
  have end_db: "db' = db \<or> (\<exists>out. ?body db = Inr (out, db'))"
    and stored: "r = Inr (Stored row fresh) \<Longrightarrow> ?body db = Inr (Stored row fresh, db')"
    using run by (auto simp: store_txn_def in_transaction_def split: sum.split_asm prod.split_asm store_end.split_asm txn_end.split_asm)
  note wrote = store_in_write [OF assms(1-3)]
  show "mail_write E db db'" using end_db wrote(1) mail_write_refl [OF assms(1)] by blast
  show "stored_message E sender route req row db'
      \<and> (\<forall>i b. smr_in_reply_to req = Some i \<longrightarrow> binding = Some b \<longrightarrow> answered_by E i sender (smr_message_id req) db')"
    if "r = Inr (Stored row fresh)" using wrote(2) [OF stored [OF that] refl] .
qed

lemma review_submit_write:
  assumes inv: "mail_inv E db" and valid: "valid_submit_request req"
    and ids: "identities_agree E (amb_endpoint_id sender) route req db"
    and run: "submit_review_internal E now sender route req received db = Inr (r, db')"
  shows "mail_write E db db'"
proof -
  note refl = mail_write_refl [OF inv]
  obtain held where held: "current_agent_binding sender db = Inr held"
    by (rule bindE_left [OF run [unfolded submit_review_internal_def]])
  note run = run [unfolded submit_review_internal_def held bindE_simps]
  show ?thesis
  proof (cases held)
    case False
    with run refl show ?thesis by simp
  next
    case True
    note run = run [unfolded eqTrueI [OF True] not_True_eq_False if_False]
    obtain refused where refused: "(case smr_in_reply_to req of None \<Rightarrow> Inr None
        | Some i \<Rightarrow> review_reply_refusal i (amb_endpoint_id sender) (smr_message_id req) received db) = Inr refused"
      by (rule bindE_left [OF run])
    note run = run [unfolded refused bindE_simps]
    show ?thesis
    proof (cases refused)
      case (Some r)
      with run refl show ?thesis by simp
    next
      case None
      have reply: "\<exists>d \<in> set (rdb_deliveries db). dlv_delivery_id d = i \<and> dlv_recipient_work_id d = amb_endpoint_id sender"
        if "smr_in_reply_to req = Some i" for i
        using reply_accepted [of i "amb_endpoint_id sender" "smr_message_id req" received db] refused None that by simp
      note run = run [unfolded None option.case]
      obtain p where p: "persist_delivery E now (amb_endpoint_id sender) route req (message_digest E route req) db = Inr p"
        by (rule bindE_left [OF run])
      obtain stored new db1 where p1: "p = ((stored, new), db1)" by (metis prod.exhaust)
      note w1 = persist_write [OF inv valid ids reply p [unfolded p1]]
      from run [unfolded p p1 bindE_simps prod.case] have "db' = db1"
        by (cases stored) (auto simp: bindE_eq_Inr)
      with w1 show ?thesis by simp
    qed
  qed
qed

lemma replay_write:
  assumes inv: "mail_inv E db" and run: "replay_in E now sender req binding db = Inr (r, db')"
  shows "mail_write E db db'"
proof -
  note refl = mail_write_refl [OF inv]
  obtain held where held: "binding_current binding db = Inr held"
    by (rule bindE_left [OF run [unfolded replay_in_def]])
  note run = run [unfolded replay_in_def held bindE_simps]
  show ?thesis
  proof (cases held)
    case False
    with run refl show ?thesis by simp
  next
    case True
    note run = run [unfolded eqTrueI [OF True] not_True_eq_False if_False]
    obtain found where found: "one_or_none (filter (\<lambda>row. msg_key (snd row) = (sender, snr_message_id req)) (pending_query db)) = Inr found"
      by (rule bindE_left [OF run])
    note run = run [unfolded found bindE_simps]
    show ?thesis
    proof (cases found)
      case None
      with run refl show ?thesis by simp
    next
      case (Some row)
      note run = run [unfolded Some option.case]
      show ?thesis
      proof (cases "replay_matches req row")
        case False
        with run refl show ?thesis by simp
      next
        case match: True
        note run = run [unfolded eqTrueI [OF match] not_True_eq_False if_False]
        show ?thesis
        proof (cases "snr_in_reply_to req = None \<or> binding = None")
          case True
          with run refl show ?thesis
            by (cases "snr_in_reply_to req"; cases binding) (auto simp: bindE_eq_Inr)
        next
          case False
          then obtain i b where ib: "snr_in_reply_to req = Some i" "binding = Some b" by auto
          note run = run [unfolded ib prod.case option.case]
          obtain q where q: "disposition_result E now i sender (snr_message_id req) b db = Inr q" by (rule bindE_left [OF run])
          obtain failure db2 where q1: "q = (failure, db2)" by fastforce
          from run [unfolded q q1 bindE_simps prod.case] have "db' = db2" by (cases failure) (auto simp: bindE_eq_Inr)
          moreover note mem = one_or_none_mem [OF found [unfolded Some]]
          have "snd row \<in> set (rdb_messages db)" using mem(1) by (simp add: pending_query_mem)
          moreover have "msg_in_reply_to (snd row) = Some i" using match ib by (simp add: replay_matches_def)
          ultimately show ?thesis using disposition_result_write(1) [OF inv _ mem(2) _ q [unfolded q1]] by simp
        qed
      qed
    qed
  qed
qed

lemma on_delivery_cases:
  assumes "on_delivery binding w i act db = Inr (r, db')"
  obtains (refused) "db' = db"
    | (acts) d where "delivery_row_of i db = Inr (Some d)" "dlv_recipient_work_id d = w" "act d = Inr (r, db')"
proof -
  from assms obtain held row where h: "binding_current binding db = Inr held" "held \<Longrightarrow> delivery_row_of i db = Inr row"
    by (cases "binding_current binding db"; cases "delivery_row_of i db") (auto simp: on_delivery_def split: if_split_asm)
  note run = assms [unfolded on_delivery_def h(1) bindE_simps]
  show thesis
  proof (cases held)
    case False
    with run refused show thesis by simp
  next
    case True
    with run h(2) have run: "(case admitted_access row w of Some denied \<Rightarrow> Inr (denied, db) | None \<Rightarrow> act (the row)) = Inr (r, db')"
      by simp
    show thesis
    proof (cases "admitted_access row w")
      case None
      then obtain d where d: "row = Some d" "dlv_recipient_work_id d = w"
        by (auto simp: admitted_access_def split: option.split_asm if_split_asm)
      with run None acts h(2) [OF True] show thesis by simp
    qed (use run refused in simp)
  qed
qed

lemma receive_write:
  assumes inv: "mail_inv E db" and run: "receive_in now w version generation i binding db = Inr (r, db')"
  shows "mail_write E db db'"
  using run [unfolded receive_in_def]
proof (cases rule: on_delivery_cases)
  case (acts d)
  show ?thesis
  proof (cases "dlv_state d = AVAILABLE")
    case True
    with acts(3) have "db' = update_delivery i (marked_received now version generation) db" by simp
    moreover have "mail_write E db (update_delivery i (marked_received now version generation) db)"
      by (rule update_write [OF inv acts(1)]) (simp_all add: True marked_received_def dlv_ident_def)
    ultimately show ?thesis by simp
  next
    case False
    with acts(3) have "db' = db" by (cases "dlv_state d") (auto split: if_split_asm)
    with mail_write_refl [OF inv] show ?thesis by simp
  qed
qed (use mail_write_refl [OF inv] in simp)

lemma recover_write:
  assumes inv: "mail_inv E db" and run: "recover_in w version generation i binding db = Inr (r, db')"
  shows "mail_write E db db'"
  using run [unfolded recover_in_def]
proof (cases rule: on_delivery_cases)
  case (acts d)
  show ?thesis
  proof (cases "dlv_state d = RECEIVED")
    case True
    with acts(3) have "db' = update_delivery i (rebound version generation) db" by simp
    moreover have "mail_write E db (update_delivery i (rebound version generation) db)"
      by (rule update_write [OF inv acts(1)]) (simp_all add: True rebound_def dlv_ident_def)
    ultimately show ?thesis by simp
  next
    case False
    with acts(3) have "db' = db" by (auto split: if_split_asm)
    with mail_write_refl [OF inv] show ?thesis by simp
  qed
qed (use mail_write_refl [OF inv] in simp)

text \<open>Evidence that passes the checks is there.\<close>

lemma previous_applied:
  assumes "previous op w g = Inr (Some (k, fp, out))" and "go_effect out = Applied"
  obtains row where "row \<in> set (gdb_intents g)" "ei_operation_id row = uuid_str op" "ei_outcome row = out"
proof -
  let ?rows = "filter (\<lambda>r. ei_operation_id r = uuid_str op
      \<or> (ei_work_id r = uuid_str w \<and> go_effect (ei_outcome r) = Effect_unknown)) (gdb_intents g)"
  obtain r0 rest where rows: "?rows = r0 # rest"
    using assms(1) by (cases ?rows) (auto simp: previous_def)
  let ?found = "find (\<lambda>r. ei_operation_id r = uuid_str op) ?rows"
  note run = assms(1) [unfolded previous_def Let_def rows list.case, folded rows]
  show thesis
  proof (cases ?found)
    case (Some r)
    with run have "ei_outcome r = out" by (auto simp: bindE_eq_Inr read_outcome_def split: if_split_asm)
    moreover from Some have "r \<in> set (gdb_intents g)" "ei_operation_id r = uuid_str op" by (auto simp: find_Some_iff dest: nth_mem)
    ultimately show thesis using that by blast
  next
    case None
    with run have out: "ei_outcome r0 = out" by (auto simp: bindE_eq_Inr read_outcome_def split: if_split_asm)
    have "r0 \<in> set ?rows" unfolding rows by simp
    with None assms(2) out show thesis by (auto simp: find_None_iff)
  qed
qed

lemma evidence_accepted:
  assumes "evidence_failure E w d ev db = Inr None" and "dlv_recipient_work_id d = w"
  shows "evidence_holds E d ev db"
proof (cases ev)
  case (Result_evidence r)
  with assms(1) obtain x where x: "one_or_none (filter (\<lambda>x. msg_key x = (w, r)) (rdb_messages db)) = Inr (Some x)"
    "msg_in_reply_to x = Some (dlv_delivery_id d)"
    by (auto simp: bindE_eq_Inr split: option.split_asm if_split_asm)
  from one_or_none_mem [OF x(1)] x(2) assms(2) Result_evidence show ?thesis by auto
next
  case (Effect_evidence op)
  note run = assms(1) [unfolded Effect_evidence evidence_failure.simps]
  have op: "op = message_effect_operation_id E (dlv_delivery_id d)"
  proof (rule ccontr)
    assume "op \<noteq> message_effect_operation_id E (dlv_delivery_id d)"
    from run [unfolded if_P [OF this]] show False by simp
  qed
  then have "\<not> op \<noteq> message_effect_operation_id E (dlv_delivery_id d)" by simp
  note run = run [unfolded if_not_P [OF this]]
  obtain prior where prior: "previous op w (rdb_grants db) = Inr prior" by (rule bindE_left [OF run])
  note run = run [unfolded prior bindE_simps]
  from run have "prior \<noteq> None" by (cases prior) simp_all
  then obtain k fp out where out0: "prior = Some (k, fp, out)" by (cases prior) auto
  note p = prior [unfolded out0]
  note run = run [unfolded out0 option.case prod.case]
  have "go_effect out \<noteq> Effect_unknown" "go_effect out \<noteq> Not_sent" using run by (auto split: if_split_asm)
  then have applied: "go_effect out = Applied" by (cases "go_effect out") simp_all
  have "go_receipt out \<noteq> None" using run by (cases "go_receipt out") (auto split: if_split_asm)
  then obtain rc where rc: "go_receipt out = Some rc" by blast
  with run applied have out: "go_operation_id out = Some op" "go_effect out = Applied" "go_receipt out = Some rc"
    "receipt_work_id rc = Some w" by (auto split: if_split_asm)
  from p out(2) obtain row where "row \<in> set (rdb_intents db)" "ei_operation_id row = uuid_str op" "ei_outcome row = out"
    by (rule previous_applied)
  with op out assms(2) Effect_evidence show ?thesis by auto
qed

lemma evidence_holds_ident:
  "dlv_delivery_id d' = dlv_delivery_id d \<Longrightarrow> dlv_recipient_work_id d' = dlv_recipient_work_id d \<Longrightarrow>
     evidence_holds E d' ev db = evidence_holds E d ev db"
  by (cases ev) simp_all

lemma disposition_write:
  assumes inv: "mail_inv E db" and valid: "valid_disposition_request E req"
    and run: "disposition_in E now w version generation req binding db = Inr (r, db')"
  shows "mail_write E db db'"
  using run [unfolded disposition_in_def]
proof (cases rule: on_delivery_cases)
  case (acts d)
  let ?f = "dispositioned E now (dsp_evidence req)"
  have digest: "dsp_digest req = disposition_digest E (dsp_evidence req)"
    using valid by (simp add: valid_disposition_request_def)
  show ?thesis
  proof (cases "db' = db")
    case False
    with acts(3) have state: "dlv_state d \<noteq> DISPOSITIONED" by (auto split: if_split_asm)
    note run = acts(3) [unfolded if_not_P [OF state]]
    from run False obtain failure where failure: "evidence_failure E w d (dsp_evidence req) db = Inr failure"
      by (auto simp: bindE_eq_Inr split: if_split_asm)
    with run False have none: "failure = None"
      by (cases failure) (auto split: if_split_asm)
    with run False failure have db': "db' = update_delivery (dsp_delivery_id req) ?f db"
      unfolding digest dispositioned_def by (auto simp: Let_def split: if_split_asm)
    have "evidence_holds E (?f d) (dsp_evidence req) db"
      using evidence_accepted [OF failure [unfolded none] acts(2)] evidence_holds_ident [of "?f d" d] by simp
    then have "evidence_recorded E (?f d) db" unfolding evidence_recorded_def
      by (intro exI [of _ "dsp_evidence req"] conjI) (simp_all only: dispositioned_simps)
    then show ?thesis unfolding db'
      by (intro update_write [OF inv acts(1)]) (use state rank_bound in simp_all)
  qed (use mail_write_refl [OF inv] in simp)
qed (use mail_write_refl [OF inv] in simp)

lemma acknowledge_one_write:
  assumes inv: "mail_inv E db" and run: "acknowledge_one now w version binding i db = Inr (x, db')"
  shows "mail_write E db db'"
proof -
  obtain row where row: "delivery_row_of i db = Inr row" by (rule bindE_left [OF run [unfolded acknowledge_one_def]])
  note run = run [unfolded acknowledge_one_def row bindE_simps Let_def]
  show ?thesis
  proof (cases "db' = db")
    case False
    with run obtain d where d: "row = Some d" by (cases row) auto
    from run False have state: "dlv_state d \<noteq> DISPOSITIONED" "dlv_state d \<noteq> ACKNOWLEDGED"
      and db': "db' = update_delivery i (acknowledged now version binding) db"
      by (auto simp: d split: if_split_asm)
    have "delivery_rank (dlv_state d) \<le> 2" using state by (cases "dlv_state d") simp_all
    then show ?thesis unfolding db'
      by (intro update_write [OF inv row [unfolded d]]) (use state in \<open>simp_all add: acknowledged_def dlv_ident_def\<close>)
  qed (use mail_write_refl [OF inv] in simp)
qed

lemma acknowledge_all_write:
  "mail_inv E db \<Longrightarrow> acknowledge_all now w version binding ids db = Inr (xs, db') \<Longrightarrow> mail_write E db db'"
proof (induction ids arbitrary: db xs)
  case Nil
  then show ?case using mail_write_refl by simp
next
  case (Cons i ids)
  from Cons.prems(2) obtain x db1 ys where one: "acknowledge_one now w version binding i db = Inr (x, db1)"
    and rest: "acknowledge_all now w version binding ids db1 = Inr (ys, db')" by (auto simp: bindE_eq_Inr)
  from acknowledge_one_write [OF Cons.prems(1) one] have w1: "mail_write E db db1" .
  then have "mail_inv E db1" by (simp add: mail_write_def)
  from mail_write_trans [OF w1 Cons.IH [OF this rest]] show ?case .
qed

lemma acknowledge_write:
  assumes "mail_inv E db" and "acknowledge_in now w version ids binding db = Inr (r, db')"
  shows "mail_write E db db'"
  using assms mail_write_refl [OF assms(1)]
  by (auto simp: acknowledge_in_def bindE_eq_Inr split: if_split_asm dest: acknowledge_all_write)

lemma rebind_write:
  assumes "mail_inv E db"
  shows "mail_write E db (rebind_received i version generation fresh db)"
  unfolding rebind_received_def by (rule rewrite_write [OF assms]) (simp add: rebound_def dlv_ident_def)

section \<open>Histories\<close>

text \<open>
  The transactions on the message tables, each with any fault, among transactions that leave the
  two tables alone (mailbox moves, journal and work writes).
\<close>

inductive mail_step :: "mail_env \<Rightarrow> runtime_db \<Rightarrow> runtime_db \<Rightarrow> bool" for E where
  ms_store: "valid_submit_request req \<Longrightarrow> identities_agree E sender route req db \<Longrightarrow>
     store_txn t (store_in E now sender route req received binding) db = (r, db') \<Longrightarrow> mail_step E db db'"
| ms_review: "valid_submit_request req \<Longrightarrow> identities_agree E (amb_endpoint_id agent) route req db \<Longrightarrow>
     in_transaction t (submit_review_internal E now agent route req received) db = (rr, db') \<Longrightarrow> mail_step E db db'"
| ms_replay: "in_transaction t (replay_in E now sender send binding) db = (rp, db') \<Longrightarrow> mail_step E db db'"
| ms_receive: "in_transaction t (receive_in now w version generation i binding) db = (tr, db') \<Longrightarrow> mail_step E db db'"
| ms_recover: "in_transaction t (recover_in w version generation i binding) db = (tr, db') \<Longrightarrow> mail_step E db db'"
| ms_disposition: "valid_disposition_request E dreq \<Longrightarrow>
     in_transaction t (disposition_in E now w version generation dreq binding) db = (tr, db') \<Longrightarrow> mail_step E db db'"
| ms_acknowledge: "in_transaction t (acknowledge_in now w version ids agent) db = (ar, db') \<Longrightarrow> mail_step E db db'"
| ms_rebind: "mail_step E db (rebind_received i version generation fresh db)"
| ms_other: "rdb_messages db' = rdb_messages db \<Longrightarrow> rdb_deliveries db' = rdb_deliveries db \<Longrightarrow> mail_step E db db'"

abbreviation mail_steps :: "mail_env \<Rightarrow> runtime_db \<Rightarrow> runtime_db \<Rightarrow> bool" where
  "mail_steps E \<equiv> (mail_step E)\<^sup>*\<^sup>*"

lemma txn_write:
  assumes "mail_inv E db" and "in_transaction t body db = (r, db')"
    and "\<And>x db1. body db = Inr (x, db1) \<Longrightarrow> mail_write E db db1"
  shows "mail_write E db db'"
  using in_transaction_state [OF assms(2)] assms(3) mail_write_refl [OF assms(1)] by blast

lemma mail_step_write:
  assumes "mail_step E db db'" and inv: "mail_inv E db"
  shows "mail_inv E db'" and "mail_advances db db'"
    and "d \<in> set (rdb_deliveries db') \<Longrightarrow> dlv_state d = DISPOSITIONED \<Longrightarrow> d \<in> set (rdb_deliveries db) \<or> evidence_recorded E d db'"
proof -
  have "mail_write E db db' \<or> rdb_messages db' = rdb_messages db \<and> rdb_deliveries db' = rdb_deliveries db"
    using assms(1)
  proof cases
    case ms_store
    then show ?thesis using store_txn_write(1) [OF inv] by blast
  next
    case ms_review
    then show ?thesis using txn_write [OF inv ms_review(3)] review_submit_write [OF inv] by blast
  next
    case ms_replay
    then show ?thesis using txn_write [OF inv] replay_write [OF inv] by blast
  next
    case ms_receive
    then show ?thesis using txn_write [OF inv] receive_write [OF inv] by blast
  next
    case ms_recover
    then show ?thesis using txn_write [OF inv] recover_write [OF inv] by blast
  next
    case ms_disposition
    then show ?thesis using txn_write [OF inv ms_disposition(2)] disposition_write [OF inv] by blast
  next
    case ms_acknowledge
    then show ?thesis using txn_write [OF inv] acknowledge_write [OF inv] by blast
  next
    case ms_rebind
    then show ?thesis using rebind_write [OF inv] by blast
  next
    case ms_other
    then show ?thesis by blast
  qed
  then show "mail_inv E db'" and "mail_advances db db'"
    and "d \<in> set (rdb_deliveries db') \<Longrightarrow> dlv_state d = DISPOSITIONED \<Longrightarrow> d \<in> set (rdb_deliveries db) \<or> evidence_recorded E d db'"
    using inv by (auto simp: mail_write_def mail_advances_def)
qed

lemma mail_steps_write:
  assumes "mail_steps E db db'" and "mail_inv E db"
  shows "mail_inv E db'" and "mail_advances db db'"
proof -
  have "mail_inv E db' \<and> mail_advances db db'"
    using assms(1)
  proof (induction rule: rtranclp_induct)
    case base
    then show ?case using assms(2) mail_advances_refl by blast
  next
    case (step y z)
    then show ?case using mail_step_write(1,2) [OF step(2)] mail_advances_trans by blast
  qed
  then show "mail_inv E db'" and "mail_advances db db'" by simp_all
qed

text \<open>
  C20. In every history the message tables stay sound: each message has exactly one delivery, under
  the identity derived from its route; a result is a reply of the delivery's addressee and no
  delivery has two; stored messages never change or vanish; a delivery keeps its identity and its
  state only advances; and a disposition is final.
\<close>

theorem mail_history_sound:
  assumes "mail_inv E db" and "mail_steps E db db'"
  shows "mail_tables E (rdb_messages db') (rdb_deliveries db') \<and> mail_advances db db'"
  using mail_steps_write [OF assms(2,1)] by blast

text \<open>
  C19. A delivery is disposed of only against true evidence: at an instant of the history its
  recorded evidence and digest named either a stored result of the addressee that replies to
  exactly this delivery, or the effect bound to this delivery, journalled as applied with a receipt
  for the addressee's work. The row has not changed since, and a result it names is still stored.
\<close>

theorem disposition_needs_evidence:
  assumes inv: "mail_inv E db0" and steps: "mail_steps E db0 db"
    and d: "d \<in> set (rdb_deliveries db)" "dlv_state d = DISPOSITIONED" and before: "d \<notin> set (rdb_deliveries db0)"
  shows "\<exists>db1 ev. mail_steps E db0 db1 \<and> mail_steps E db1 db \<and> d \<in> set (rdb_deliveries db1)
     \<and> dlv_disposition_digest d = Some (disposition_digest E ev) \<and> dlv_evidence d = Some (evidence_json ev)
     \<and> evidence_holds E d ev db1
     \<and> (\<forall>r. ev = Result_evidence r \<longrightarrow> evidence_holds E d ev db)"
proof -
  have "\<exists>db1. mail_steps E db0 db1 \<and> mail_steps E db1 db \<and> d \<in> set (rdb_deliveries db1) \<and> evidence_recorded E d db1"
    using steps d(1)
  proof (induction rule: rtranclp_induct)
    case base
    with before show ?case by simp
  next
    case (step y z)
    show ?case
    proof (cases "d \<in> set (rdb_deliveries y)")
      case True
      from step.IH [OF this] obtain db1 where "mail_steps E db0 db1" "mail_steps E db1 y"
        "d \<in> set (rdb_deliveries db1)" "evidence_recorded E d db1" by blast
      with step.hyps(2) show ?thesis by (meson rtranclp.rtrancl_into_rtrancl)
    next
      case False
      with mail_step_write(3) [OF step.hyps(2) mail_steps_write(1) [OF step.hyps(1) inv] step.prems d(2)]
      have "evidence_recorded E d z" by blast
      moreover have "mail_steps E db0 z" using step.hyps by (rule rtranclp.rtrancl_into_rtrancl)
      ultimately show ?thesis using step.prems by blast
    qed
  qed
  then obtain db1 ev where h: "mail_steps E db0 db1" "mail_steps E db1 db" "d \<in> set (rdb_deliveries db1)"
    "dlv_disposition_digest d = Some (disposition_digest E ev)" "dlv_evidence d = Some (evidence_json ev)"
    "evidence_holds E d ev db1" unfolding evidence_recorded_def by blast
  have "set (rdb_messages db1) \<subseteq> set (rdb_messages db)"
    using mail_steps_write(2) [OF h(2) mail_steps_write(1) [OF h(1) inv]] by (simp add: mail_advances_def)
  with h(6) have "evidence_holds E d ev db" if "ev = Result_evidence r" for r using that by auto
  with h show ?thesis by blast
qed

section \<open>Replay\<close>

lemma answered_later:
  assumes "answered_by E i sender result db" and "mail_advances db db'"
  shows "answered_by E i sender result db'"
  using assms unfolding answered_by_def mail_advances_def by metis

lemma answered_replays:
  assumes inv: "mail_inv E db" and "answered_by E i sender result db"
  shows "disposition_result E now i sender result binding db = Inr (None, db)"
proof -
  from assms(2) obtain d where d: "d \<in> set (rdb_deliveries db)" "dlv_delivery_id d = i" "dlv_recipient_work_id d = sender"
    "dlv_state d = DISPOSITIONED" "dlv_disposition_digest d = Some (disposition_digest E (Result_evidence result))"
    "dlv_evidence d = Some (evidence_json (Result_evidence result))" unfolding answered_by_def by blast
  have "delivery_row_of i db = Inr (Some d)"
    using delivery_row_of_find [OF inv] find_distinct_key [OF mail_invD(2) [OF inv] d(1)] d(2) by simp
  with d show ?thesis by (simp add: disposition_result_def)
qed


section \<open>A conversation\<close>

text \<open>One agent asks, the other receives and answers.\<close>

definition demo_mail_code :: mail_env where
  "demo_mail_code = \<lparr>mle_digest = (\<lambda>_. ''d''),
     mle_delivery_id = (\<lambda>s. if s = uuid_str 1 @ '':'' @ uuid_str 5 @ '':'' @ uuid_str 2 then 10 else 11),
     mle_effect_id = (\<lambda>_. 12), mle_pkey = (\<lambda>_. ''p'')\<rparr>"

definition demo_peer :: agent_mailbox where
  "demo_peer = \<lparr>amb_name = ''b'', amb_name_key = ''b'', amb_endpoint_id = 2, amb_principal_key = ''q'',
     amb_session_key = ''t'', amb_generation = 1, amb_agent_type = None\<rparr>"

abbreviation demo_route :: "uuid \<Rightarrow> message_route" where
  "demo_route w \<equiv> \<lparr>mrt_recipient_work_id = w, mrt_recipient_grant_version = 1\<rparr>"

definition demo_ask :: submit_request where
  "demo_ask = \<lparr>smr_message_id = 5, smr_grant_version = 1, smr_route_ref = ''agent.b'', smr_kind = Kind_request,
     smr_payload = JNull, smr_in_reply_to = None\<rparr>"

definition demo_mail_reply :: submit_request where
  "demo_mail_reply = \<lparr>smr_message_id = 6, smr_grant_version = 1, smr_route_ref = ''agent.b'', smr_kind = Kind_result,
     smr_payload = JNull, smr_in_reply_to = Some 10\<rparr>"

definition demo_message :: "uuid \<Rightarrow> submit_request \<Rightarrow> int \<Rightarrow> message_row" where
  "demo_message sender req now = new_message sender req ''d'' now"

definition demo_delivery :: delivery_row where
  "demo_delivery = new_delivery demo_mail_code 1 (demo_route 2) demo_ask"

definition demo_returned :: delivery_row where
  "demo_returned = new_delivery demo_mail_code 2 (demo_route 1) demo_mail_reply"

definition demo_tables :: "message_row list \<Rightarrow> delivery_row list \<Rightarrow> runtime_db" where
  "demo_tables ms ds = (demo_mail_db [demo_mailbox, demo_peer])\<lparr>rdb_messages := ms, rdb_deliveries := ds\<rparr>"

lemma demo_tables_simps [simp]:
  "rdb_messages (demo_tables ms ds) = ms" "rdb_deliveries (demo_tables ms ds) = ds" "rdb_receipts (demo_tables ms ds) = []"
  "rdb_mailboxes (demo_tables ms ds) = [demo_mailbox, demo_peer]"
  "(demo_tables ms ds)\<lparr>rdb_messages := ms'\<rparr> = demo_tables ms' ds"
  "(demo_tables ms ds)\<lparr>rdb_deliveries := ds'\<rparr> = demo_tables ms ds'"
  by (simp_all add: demo_tables_def demo_mail_db_def)

lemma demo_identities [simp]:
  "delivery_identity demo_mail_code 1 5 2 = 10" "delivery_identity demo_mail_code 2 6 1 = 11"
  "message_digest demo_mail_code route req = ''d''"
  by (simp_all add: delivery_identity_def demo_mail_code_def message_digest_def uuid_str_eq_iff)

lemma demo_bindings [simp]:
  "current_agent_binding demo_mailbox (demo_tables ms ds) = Inr True"
  "current_agent_binding demo_peer (demo_tables ms ds) = Inr True"
  by (simp_all add: current_agent_binding_def mailbox_image_def demo_mailbox_def demo_peer_def)

abbreviation demo_asked :: runtime_db where
  "demo_asked \<equiv> demo_tables [demo_message 1 demo_ask 0] [demo_delivery]"

abbreviation demo_received :: runtime_db where
  "demo_received \<equiv> demo_tables [demo_message 1 demo_ask 0] [marked_received 1 1 ''1'' demo_delivery]"

definition demo_closed :: delivery_row where
  "demo_closed = dispositioned demo_mail_code 2 (Result_evidence 6) (marked_received 1 1 ''1'' demo_delivery)"

abbreviation demo_answered :: runtime_db where
  "demo_answered \<equiv> demo_tables [demo_message 1 demo_ask 0, demo_message 2 demo_mail_reply 2] [demo_closed, demo_returned]"

lemma demo_store:
  "store_in demo_mail_code 0 1 (demo_route 2) demo_ask None (Some demo_mailbox) (demo_tables [] [])
     = Inr (Stored (demo_delivery, demo_message 1 demo_ask 0) True, demo_asked)"
  by (simp add: store_in_def demo_ask_def REVIEW_ROUTE_REFS_def binding_current_def persist_delivery_def Let_def
      insert_message_def insert_delivery_def one_row_def pending_query_def demo_delivery_def demo_message_def)

lemma demo_receive:
  "receive_in 1 2 1 ''1'' 10 (Some demo_peer) demo_asked
     = Inr (delivery_answer Ms_ok None (Some (marked_received 1 1 ''1'' demo_delivery)), demo_received)"
  by (simp add: receive_in_def on_delivery_def binding_current_def delivery_row_of_def admitted_access_def
      update_delivery_def demo_delivery_def demo_ask_def)

lemma int_str_one: "int_str 1 = ''1''"
  by code_simp

lemma demo_rows [simp]:
  "dlv_delivery_id demo_delivery = 10" "dlv_delivery_id demo_returned = 11" "dlv_delivery_id demo_closed = 10"
  "dlv_message_key demo_delivery = (1, 5)" "dlv_message_key demo_returned = (2, 6)" "dlv_message_key demo_closed = (1, 5)"
  "dlv_recipient_work_id demo_delivery = 2" "dlv_recipient_work_id demo_closed = 2"
  "dlv_delivery_id (marked_received 1 1 ''1'' demo_delivery) = 10"
  "dlv_message_key (marked_received 1 1 ''1'' demo_delivery) = (1, 5)"
  by (simp_all add: demo_delivery_def demo_returned_def demo_closed_def demo_ask_def demo_mail_reply_def
      marked_received_def dispositioned_def dlv_message_key_def)

lemma demo_reply:
  "store_in demo_mail_code 2 2 (demo_route 1) demo_mail_reply (Some (1, ''1'')) (Some demo_peer) demo_received
     = Inr (Stored (demo_returned, demo_message 2 demo_mail_reply 2) True, demo_answered)"
proof -
  have ref: "reply_refusal 10 2 6 (Some (1, ''1'')) demo_received = Inr None"
    by (simp add: reply_refusal_def delivery_row_of_def marked_received_def demo_delivery_def demo_ask_def demo_message_def)
  have persist: "persist_delivery demo_mail_code 2 2 (demo_route 1) demo_mail_reply ''d'' demo_received
      = Inr ((Some (demo_returned, demo_message 2 demo_mail_reply 2), True),
          demo_tables [demo_message 1 demo_ask 0, demo_message 2 demo_mail_reply 2]
            [marked_received 1 1 ''1'' demo_delivery, demo_returned])"
    by (simp add: persist_delivery_def Let_def insert_message_def insert_delivery_def one_row_def pending_query_def
        demo_message_def demo_returned_def demo_ask_def demo_mail_reply_def dlv_route_key_def dlv_message_key_def
        marked_received_def demo_delivery_def)
  have close: "disposition_result demo_mail_code 2 10 2 6 demo_peer
        (demo_tables ms [marked_received 1 1 ''1'' demo_delivery, demo_returned])
      = Inr (None, demo_tables ms [demo_closed, demo_returned])" for ms
    by (simp add: disposition_result_def delivery_row_of_def Let_def update_delivery_def demo_closed_def
        marked_received_def demo_delivery_def demo_ask_def demo_peer_def int_str_one)
  show ?thesis
    using ref persist close
    by (simp add: store_in_def Let_def demo_mail_reply_def REVIEW_ROUTE_REFS_def binding_current_def)
qed

lemma demo_mail_valid: "valid_submit_request demo_ask" "valid_submit_request demo_mail_reply"
  by (simp_all add: valid_submit_request_def demo_ask_def demo_mail_reply_def route_text_def lower_letter_def key_char_def)

lemma demo_agree:
  "identities_agree demo_mail_code 1 (demo_route 2) demo_ask (demo_tables [] [])"
  "identities_agree demo_mail_code 2 (demo_route 1) demo_mail_reply demo_received"
  by (simp_all add: identities_agree_def pending_query_def demo_mail_reply_def demo_message_def demo_ask_def)

lemma demo_empty_inv: "mail_inv demo_mail_code (demo_tables [] [])"
  by (simp add: mail_tables_def)

lemma demo_mail_steps:
  "mail_steps demo_mail_code (demo_tables [] []) demo_asked" "mail_steps demo_mail_code demo_asked demo_answered"
proof -
  have "store_txn Commits (store_in demo_mail_code 0 1 (demo_route 2) demo_ask None (Some demo_mailbox)) (demo_tables [] [])
      = (Inr (Stored (demo_delivery, demo_message 1 demo_ask 0) True), demo_asked)"
    by (simp add: store_txn_def in_transaction_def demo_store)
  from ms_store [OF demo_mail_valid(1) demo_agree(1) this] show "mail_steps demo_mail_code (demo_tables [] []) demo_asked" by blast
  have "in_transaction Commits (receive_in 1 2 1 ''1'' 10 (Some demo_peer)) demo_asked
      = (Inr (delivery_answer Ms_ok None (Some (marked_received 1 1 ''1'' demo_delivery))), demo_received)"
    by (simp add: in_transaction_def demo_receive)
  then have recv: "mail_step demo_mail_code demo_asked demo_received" by (rule ms_receive)
  have "store_txn Commits (store_in demo_mail_code 2 2 (demo_route 1) demo_mail_reply (Some (1, ''1'')) (Some demo_peer)) demo_received
      = (Inr (Stored (demo_returned, demo_message 2 demo_mail_reply 2) True), demo_answered)"
    by (simp add: store_txn_def in_transaction_def demo_reply)
  from recv ms_store [OF demo_mail_valid(2) demo_agree(2) this] show "mail_steps demo_mail_code demo_asked demo_answered"
    by (meson rtranclp.rtrancl_into_rtrancl rtranclp.rtrancl_refl)
qed

theorem mail_history_sound_witness:
  "mail_steps demo_mail_code (demo_tables [] []) demo_answered
     \<and> mail_tables demo_mail_code (rdb_messages demo_answered) (rdb_deliveries demo_answered)
     \<and> mail_advances (demo_tables [] []) demo_answered"
proof -
  have steps: "mail_steps demo_mail_code (demo_tables [] []) demo_answered" using demo_mail_steps by (rule rtranclp_trans)
  from steps mail_history_sound [OF demo_empty_inv steps] show ?thesis by blast
qed

theorem disposition_needs_evidence_witness:
  "\<exists>db1 ev. mail_steps demo_mail_code (demo_tables [] []) db1 \<and> demo_closed \<in> set (rdb_deliveries db1)
     \<and> dlv_evidence demo_closed = Some (evidence_json ev) \<and> evidence_holds demo_mail_code demo_closed ev db1"
proof -
  have steps: "mail_steps demo_mail_code (demo_tables [] []) demo_answered" using demo_mail_steps by (rule rtranclp_trans)
  have "demo_closed \<in> set (rdb_deliveries demo_answered)" "dlv_state demo_closed = DISPOSITIONED"
    "demo_closed \<notin> set (rdb_deliveries (demo_tables [] []))" by (simp_all add: demo_closed_def)
  from disposition_needs_evidence [OF demo_empty_inv steps this] show ?thesis by blast
qed

definition demo_send :: send_request where
  "demo_send = \<lparr>snr_work_id = 1, snr_grant_version = 1, snr_message_id = 5, snr_route_ref = Some ''agent.b'',
     snr_payload = JNull, snr_recipient_work_id = Some 2, snr_in_reply_to = None\<rparr>"


end
