(* ===== verification/Message_Reads.thy ===== *)
theory Message_Reads
  imports Message_Safety Paged_Source "HOL-Library.Product_Lexorder"
begin

text \<open>
  The reads of \<open>src/switchstand/mailbox/messages.py\<close> and the callers that stand before the
  transactions of \<open>Message_State\<close>: the pending page of an inbox (newest first), the scan that
  collects every pending delivery for a wake-up, the small queries on deliveries, the entry points
  that check a grant first, and the named sends of \<open>src/switchstand/mailbox/agent_messages.py\<close>.
\<close>

section \<open>The inbox\<close>

record pending_result =
  pnr_status :: message_status
  pnr_messages :: "pending_message list"
  pnr_next_cursor :: "uuid option"
  pnr_has_more :: bool
  pnr_reason :: "string option"

definition pending_no :: "message_status \<Rightarrow> string \<Rightarrow> pending_result" where
  "pending_no st reason =
     \<lparr>pnr_status = st, pnr_messages = [], pnr_next_cursor = None, pnr_has_more = False, pnr_reason = Some reason\<rparr>"

definition pending_rows :: "uuid \<Rightarrow> bool \<Rightarrow> runtime_db \<Rightarrow> (delivery_row \<times> message_row) list" where
  "pending_rows w ordinary db =
     filter (\<lambda>row. dlv_recipient_work_id (fst row) = w \<and> dlv_state (fst row) \<in> {AVAILABLE, RECEIVED}
       \<and> (ordinary \<longrightarrow> msg_route_ref (snd row) \<notin> set REVIEW_ROUTE_REFS)) (pending_query db)"

text \<open>\<open>ORDER BY created_at DESC, delivery_id DESC\<close>: ascending in the negated key.\<close>

definition newest_key :: "delivery_row \<times> message_row \<Rightarrow> int \<times> int" where
  "newest_key row = (- msg_created_at (snd row), - uint (dlv_delivery_id (fst row)))"

text \<open>
  \<open>(created_at, delivery_id) < (anchor, cursor)\<close>, where the anchor is a scalar subquery: without a
  row it is \<open>NULL\<close> and nothing is smaller, with two rows it is an error.
\<close>

definition before_cursor ::
  "uuid option \<Rightarrow> runtime_db \<Rightarrow> (delivery_row \<times> message_row) list \<Rightarrow> (delivery_row \<times> message_row) list py_result" where
  "before_cursor cursor db rows =
     (case cursor of
        None \<Rightarrow> Inr rows
      | Some c \<Rightarrow>
          bindE (one_or_none (filter (\<lambda>row. dlv_delivery_id (fst row) = c) (pending_query db))) (\<lambda>anchor.
          Inr (case anchor of
                 None \<Rightarrow> []
               | Some a \<Rightarrow> filter (\<lambda>row. msg_created_at (snd row) < msg_created_at (snd a)
                   \<or> msg_created_at (snd row) = msg_created_at (snd a) \<and> dlv_delivery_id (fst row) < c) rows)))"

fun views_of :: "(delivery_row \<times> message_row) list \<Rightarrow> pending_message list py_result" where
  "views_of [] = Inr []"
| "views_of (row # rows) = bindE (message_view row) (\<lambda>v. bindE (views_of rows) (\<lambda>vs. Inr (v # vs)))"

definition pending_page ::
  "uuid \<Rightarrow> uuid option \<Rightarrow> nat \<Rightarrow> agent_mailbox option \<Rightarrow> bool \<Rightarrow> runtime_db \<Rightarrow> pending_result py_result" where
  "pending_page w cursor limit binding ordinary db =
     bindE (binding_current binding db) (\<lambda>held.
     if \<not> held then Inr (pending_no Ms_stale ''receiving_binding_changed'')
     else
       bindE (before_cursor cursor db (pending_rows w ordinary db)) (\<lambda>rows.
       let found = take (Suc limit) (sort_key newest_key rows);
           has_more = limit < length found;
           selected = take limit found in
       bindE (views_of selected) (\<lambda>vs.
       Inr \<lparr>pnr_status = Ms_ok, pnr_messages = vs,
            pnr_next_cursor = (if has_more then Some (dlv_delivery_id (fst (last selected))) else None),
            pnr_has_more = has_more, pnr_reason = None\<rparr>)))"

definition pending_handlers :: "pending_result py_result \<Rightarrow> pending_result py_result" where
  "pending_handlers r =
     (case r of Inl e \<Rightarrow> if mail_caught e then Inr (pending_no Ms_recovery_required ''state_unavailable'') else Inl e
      | Inr x \<Rightarrow> Inr x)"

definition pending_admitted ::
  "uuid \<Rightarrow> uuid option \<Rightarrow> nat \<Rightarrow> agent_mailbox option \<Rightarrow> bool \<Rightarrow> runtime_db \<Rightarrow> pending_result py_result" where
  "pending_admitted w cursor limit binding ordinary db = pending_handlers (pending_page w cursor limit binding ordinary db)"

section \<open>Queries on deliveries\<close>

definition open_delivery :: "agent_mailbox \<Rightarrow> delivery_row \<Rightarrow> bool" where
  "open_delivery b d = (dlv_recipient_work_id d = amb_endpoint_id b \<and> dlv_state d \<in> {AVAILABLE, RECEIVED})"

definition pending_delivery_ids :: "agent_mailbox \<Rightarrow> uuid option \<Rightarrow> runtime_db \<Rightarrow> uuid list option py_result" where
  "pending_delivery_ids b cursor db =
     bindE (current_agent_binding b db) (\<lambda>held.
     Inr (if \<not> held then None
          else Some (take 50 (sort (filter (\<lambda>i. case cursor of None \<Rightarrow> True | Some c \<Rightarrow> c < i)
            (map dlv_delivery_id (filter (open_delivery b) (rdb_deliveries db))))))))"

text \<open>The pages are read one after the other while other transactions run; \<open>h k\<close> are the tables at read \<open>k\<close>.\<close>

fun all_pending_delivery_ids ::
  "nat \<Rightarrow> (nat \<Rightarrow> runtime_db) \<Rightarrow> nat \<Rightarrow> agent_mailbox \<Rightarrow> uuid option \<Rightarrow> uuid list option py_result option" where
  "all_pending_delivery_ids 0 h k b cursor = None"
| "all_pending_delivery_ids (Suc fuel) h k b cursor =
     (case pending_delivery_ids b cursor (h k) of
        Inl e \<Rightarrow> Some (Inl e)
      | Inr None \<Rightarrow> Some (Inr None)
      | Inr (Some page) \<Rightarrow>
          if length page < 50 then Some (Inr (Some page))
          else map_option (\<lambda>r. bindE r (\<lambda>rest. Inr (map_option (\<lambda>ids. page @ ids) rest)))
                 (all_pending_delivery_ids fuel h (Suc k) b (Some (last page))))"

definition pending_delivery :: "agent_mailbox \<Rightarrow> uuid \<Rightarrow> runtime_db \<Rightarrow> bool py_result" where
  "pending_delivery b i db =
     bindE (current_agent_binding b db) (\<lambda>held.
     if \<not> held then Inr False
     else bindE (one_or_none (filter (\<lambda>d. dlv_delivery_id d = i \<and> open_delivery b d) (rdb_deliveries db))) (\<lambda>row.
       Inr (row \<noteq> None)))"

definition wake_pending :: "runtime_db \<Rightarrow> pending_message list py_result" where
  "wake_pending db =
     views_of (concat (map (\<lambda>row. map (\<lambda>_. row)
         (filter (\<lambda>m. amb_endpoint_id m = dlv_recipient_work_id (fst row)) (rdb_mailboxes db)))
       (filter (\<lambda>row. dlv_state (fst row) = AVAILABLE) (pending_query db))))"

definition OPEN_REQUEST_STATES :: "delivery_state list" where
  "OPEN_REQUEST_STATES = [AVAILABLE, RECEIVED, ACKNOWLEDGED]"

definition open_handoff_watches :: "uuid \<Rightarrow> runtime_db \<Rightarrow> string list" where
  "open_handoff_watches w db =
     map (\<lambda>i. ''message:'' @ uuid_str i) (sort (map (\<lambda>row. dlv_delivery_id (fst row))
       (filter (\<lambda>row. dlv_state (fst row) \<in> set OPEN_REQUEST_STATES \<and> msg_kind (snd row) = ''request''
          \<and> msg_route_ref (snd row) \<notin> set REVIEW_ROUTE_REFS
          \<and> path_text (msg_payload (snd row)) [''work_id''] (uuid_str w)) (pending_query db))))"

definition reply_context :: "uuid \<Rightarrow> runtime_db \<Rightarrow> (uuid \<times> string) option py_result" where
  "reply_context i db =
     bindE (one_or_none (filter (\<lambda>row. dlv_delivery_id (fst row) = i) (pending_query db))) (\<lambda>row.
     Inr (map_option (\<lambda>r. (dlv_sender_work_id (fst r), msg_route_ref (snd r))) row))"

definition has_received :: "uuid \<Rightarrow> int \<Rightarrow> runtime_db \<Rightarrow> bool" where
  "has_received w version db =
     list_ex (\<lambda>d. dlv_recipient_work_id d = w \<and> dlv_recipient_grant_version d = version \<and> dlv_state d = RECEIVED)
       (rdb_deliveries db)"

section \<open>Inbox pages\<close>

lemma views_of_map:
  "(\<And>row. row \<in> set rows \<Longrightarrow> msg_kind (snd row) \<in> {''request'', ''result''}) \<Longrightarrow> views_of rows = Inr (map message_fields rows)"
  by (induction rows) (auto simp: message_view_def)

lemma pending_rows_kind:
  assumes "mail_inv E db" and "row \<in> set (pending_rows w ordinary db)"
  shows "msg_kind (snd row) \<in> {''request'', ''result''}"
  using assms mail_invD(6) [OF assms(1), of "snd row"] by (auto simp: pending_rows_def pending_query_mem)

lemma pending_rows_distinct:
  assumes "mail_inv E db"
  shows "distinct (map newest_key (pending_rows w ordinary db))"
proof -
  have "distinct (map (dlv_delivery_id \<circ> fst) (pending_query db))"
    using pending_query_keys(1) [OF assms] mail_invD(2) [OF assms] by simp
  then have "distinct (map (dlv_delivery_id \<circ> fst) (pending_rows w ordinary db))"
    unfolding pending_rows_def by (rule distinct_map_filter)
  then have d: "distinct (pending_rows w ordinary db)" and inj: "inj_on (dlv_delivery_id \<circ> fst) (set (pending_rows w ordinary db))"
    by (simp_all only: distinct_map)
  have "inj_on newest_key (set (pending_rows w ordinary db))"
  proof (rule inj_onI)
    fix x y assume xy: "x \<in> set (pending_rows w ordinary db)" "y \<in> set (pending_rows w ordinary db)" "newest_key x = newest_key y"
    from xy(3) have "uint (dlv_delivery_id (fst x)) = uint (dlv_delivery_id (fst y))" by (simp add: newest_key_def)
    then have "(dlv_delivery_id \<circ> fst) x = (dlv_delivery_id \<circ> fst) y" by (simp add: word_uint_eq_iff)
    from inj_onD [OF inj this xy(1,2)] show "x = y" .
  qed
  with d show ?thesis by (simp only: distinct_map)
qed

text \<open>The cursor of a row selects what follows it in the newest-first order.\<close>

lemma before_cursor_row:
  assumes inv: "mail_inv E db" and a: "a \<in> set (pending_query db)"
  shows "before_cursor (Some (dlv_delivery_id (fst a))) db rows = Inr (filter (\<lambda>row. newest_key a < newest_key row) rows)"
proof -
  have "distinct (map (dlv_delivery_id \<circ> fst) (pending_query db))"
    using pending_query_keys(1) [OF inv] mail_invD(2) [OF inv] by simp
  from one_or_none_unique_key [OF this] find_distinct_key [OF this a]
  have "one_or_none (filter (\<lambda>row. dlv_delivery_id (fst row) = dlv_delivery_id (fst a)) (pending_query db)) = Inr (Some a)"
    by simp
  then show ?thesis by (auto simp: before_cursor_def newest_key_def word_less_def less_prod_def intro!: filter_cong)
qed

definition inbox_fetch ::
  "uuid \<Rightarrow> nat \<Rightarrow> agent_mailbox option \<Rightarrow> bool \<Rightarrow> runtime_db \<Rightarrow> uuid option \<Rightarrow> (pending_message list \<times> uuid option) py_result" where
  "inbox_fetch w limit binding ordinary db cursor =
     bindE (pending_page w cursor limit binding ordinary db) (\<lambda>r. Inr (pnr_messages r, pnr_next_cursor r))"

definition inbox :: "uuid \<Rightarrow> bool \<Rightarrow> runtime_db \<Rightarrow> pending_message list" where
  "inbox w ordinary db = map message_fields (after_key newest_key None (pending_rows w ordinary db))"

definition inbox_ok :: "mail_env \<Rightarrow> nat \<Rightarrow> agent_mailbox option \<Rightarrow> runtime_db \<Rightarrow> bool" where
  "inbox_ok E limit binding db = (mail_inv E db \<and> binding_current binding db = Inr True \<and> 0 < limit)"

definition inbox_at :: "uuid \<Rightarrow> bool \<Rightarrow> runtime_db \<Rightarrow> uuid option \<Rightarrow> nat \<Rightarrow> bool" where
  "inbox_at w ordinary db cursor n =
     (cursor = None \<and> n = 0
      \<or> 0 < n \<and> cursor = Some (dlv_delivery_id (fst (after_key newest_key None (pending_rows w ordinary db) ! (n - 1)))))"

lemma inbox_page_at:
  assumes ok: "inbox_ok E limit binding db" and at: "inbox_at w ordinary db cursor n" and n: "n \<le> length (inbox w ordinary db)"
  shows "\<exists>c'. inbox_fetch w limit binding ordinary db cursor = Inr (take limit (drop n (inbox w ordinary db)), c')
     \<and> (c' = None \<longleftrightarrow> length (inbox w ordinary db) \<le> n + limit)
     \<and> (c' \<noteq> None \<longrightarrow> inbox_at w ordinary db c' (n + limit))"
proof -
  let ?rows = "pending_rows w ordinary db"
  let ?xs = "after_key newest_key None ?rows"
  from ok have inv: "mail_inv E db" and held: "binding_current binding db = Inr True" and pos: "0 < limit"
    by (simp_all add: inbox_ok_def)
  have len: "length (inbox w ordinary db) = length ?xs" "length ?xs = length ?rows" by (simp_all add: inbox_def after_key_def)
  have set_xs: "set ?xs = set ?rows" by (simp add: after_key_def)
  have rest: "\<exists>rows. before_cursor cursor db ?rows = Inr rows \<and> sort_key newest_key rows = drop n ?xs"
  proof (cases "n = 0")
    case True
    with at show ?thesis by (simp add: inbox_at_def before_cursor_def after_key_def)
  next
    case False
    then have i: "n - 1 < length ?xs" using n len by simp
    from False at have c: "cursor = Some (dlv_delivery_id (fst (?xs ! (n - 1))))" by (simp add: inbox_at_def)
    have "?xs ! (n - 1) \<in> set (pending_query db)"
      using nth_mem [OF i] set_xs by (auto simp: pending_rows_def)
    note cur = before_cursor_row [OF inv this, of ?rows, folded c]
    have "after_key newest_key (Some (newest_key (?xs ! (n - 1)))) ?rows = drop n ?xs"
      using after_key_drop [OF pending_rows_distinct [OF inv]] i len False by simp
    with cur show ?thesis by (auto simp: after_key_def)
  qed
  then obtain rows where rows: "before_cursor cursor db ?rows = Inr rows" "sort_key newest_key rows = drop n ?xs" by blast
  let ?sel = "take limit (drop n ?xs)"
  have "set ?sel \<subseteq> set ?xs" by (meson order_trans set_drop_subset set_take_subset)
  then have views: "views_of ?sel = Inr (map message_fields ?sel)"
    using pending_rows_kind [OF inv] set_xs by (intro views_of_map) blast
  have page: "inbox_fetch w limit binding ordinary db cursor =
      Inr (map message_fields ?sel, if n + limit < length ?xs then Some (dlv_delivery_id (fst (last ?sel))) else None)"
    unfolding inbox_fetch_def pending_page_def held rows bindE_simps Let_def
    using views by (auto simp: min_def)
  have "last ?sel = ?xs ! (n + limit - 1)" if "n + limit < length ?xs"
    using that pos by (subst last_conv_nth) (auto simp: min_def)
  with page len pos show ?thesis by (auto simp: inbox_def inbox_at_def take_map drop_map)
qed

interpretation inbox_pages: paged_source "inbox_ok E limit binding" "inbox_fetch w limit binding ordinary" "inbox w ordinary"
    limit "inbox_at w ordinary" for E limit binding w ordinary
proof unfold_locales
  show "inbox_at w ordinary s None 0" for s by (simp add: inbox_at_def)
  show "0 < limit" if "inbox_ok E limit binding s" for s using that by (simp add: inbox_ok_def)
qed (rule inbox_page_at)

text \<open>
  C39. Following the cursors of an inbox from its first page ends and returns every available or
  received delivery to the work exactly once, newest first, whatever the page limit; with the
  ordinary filter, every one of them that is not a review message.
\<close>

theorem inbox_pages_complete:
  assumes "mail_inv E db" and "binding_current binding db = Inr True" and "0 < limit"
    and "length (rdb_deliveries db) < fuel"
  shows "inbox_pages.collect w limit binding ordinary fuel db None
      = Some (map message_fields (sort_key newest_key (pending_rows w ordinary db)))"
proof -
  have "length (pending_query db) = length (rdb_deliveries db)"
    using arg_cong [OF pending_query_keys(1) [OF assms(1)], of length] by simp
  moreover have "length (pending_rows w ordinary db) \<le> length (pending_query db)"
    unfolding pending_rows_def by (rule length_filter_le)
  ultimately have "length (pending_rows w ordinary db) \<le> length (rdb_deliveries db)" by simp
  with assms(4) have fuel: "length (inbox w ordinary db) < fuel" by (simp add: inbox_def after_key_def)
  have "inbox_ok E limit binding db" using assms by (simp add: inbox_ok_def)
  from inbox_pages.collect_all [OF this fuel] show ?thesis by (simp add: inbox_def after_key_def)
qed

theorem inbox_pages_complete_witness:
  "inbox_pages.collect 1 1 (Some demo_mailbox) True 3 demo_answered None = Some [message_fields (demo_returned, demo_message 2 demo_mail_reply 2)]"
proof -
  have inv: "mail_inv demo_mail_code demo_answered"
    using mail_steps_write(1) [OF rtranclp_trans [OF demo_mail_steps] demo_empty_inv] .
  have "binding_current (Some demo_mailbox) demo_answered = Inr True" by (simp add: binding_current_def)
  moreover have "pending_rows 1 True demo_answered = [(demo_returned, demo_message 2 demo_mail_reply 2)]"
    by (simp add: pending_rows_def pending_query_def REVIEW_ROUTE_REFS_def demo_message_def demo_ask_def demo_mail_reply_def
        demo_returned_def new_message_def msg_key_def)
  ultimately show ?thesis
    using inbox_pages_complete [OF inv, of "Some demo_mailbox" 1 3 1 True] by simp
qed

section \<open>The wake-up scan\<close>

definition pending_at :: "agent_mailbox \<Rightarrow> uuid \<Rightarrow> runtime_db \<Rightarrow> bool" where
  "pending_at b i db = (\<exists>d \<in> set (rdb_deliveries db). dlv_delivery_id d = i \<and> open_delivery b d)"

definition after_cursor :: "uuid option \<Rightarrow> uuid \<Rightarrow> bool" where
  "after_cursor cursor i = (case cursor of None \<Rightarrow> True | Some c \<Rightarrow> c < i)"

text \<open>What a scan from a cursor may answer.\<close>

definition scanned :: "(nat \<Rightarrow> runtime_db) \<Rightarrow> agent_mailbox \<Rightarrow> uuid option \<Rightarrow> uuid list option py_result \<Rightarrow> bool" where
  "scanned h b cursor r =
     (case r of
        Inl e \<Rightarrow> False
      | Inr None \<Rightarrow> \<exists>j. current_agent_binding b (h j) = Inr False
      | Inr (Some ids) \<Rightarrow> sorted_wrt (<) ids
          \<and> (\<forall>i \<in> set ids. after_cursor cursor i \<and> (\<exists>j. pending_at b i (h j)))
          \<and> (\<forall>i. after_cursor cursor i \<longrightarrow> (\<forall>j. pending_at b i (h j)) \<longrightarrow> i \<in> set ids))"

lemma pending_page_cases:
  assumes inv: "mail_inv E db" and keys: "mailbox_keys (rdb_mailboxes db)"
  obtains (lost) "pending_delivery_ids b cursor db = Inr None" "current_agent_binding b db = Inr False"
    | (page) xs where "pending_delivery_ids b cursor db = Inr (Some (take 50 xs))" "sorted_wrt (<) xs"
        "\<And>i. i \<in> set xs \<longleftrightarrow> after_cursor cursor i \<and> pending_at b i db"
proof -
  let ?ids = "map dlv_delivery_id (filter (open_delivery b) (rdb_deliveries db))"
  let ?xs = "sort (filter (after_cursor cursor) ?ids)"
  obtain held where held: "current_agent_binding b db = Inr held" using current_binding_iff [OF keys] by blast
  have "distinct ?ids" using mail_invD(2) [OF inv] by (rule distinct_map_filter)
  then have "sorted_wrt (<) ?xs" by (simp add: strict_sorted_iff)
  moreover have "i \<in> set ?xs \<longleftrightarrow> after_cursor cursor i \<and> pending_at b i db" for i by (auto simp: pending_at_def)
  moreover have "pending_delivery_ids b cursor db = Inr (if held then Some (take 50 ?xs) else None)"
    unfolding pending_delivery_ids_def held bindE_simps after_cursor_def [abs_def] by simp
  ultimately show thesis using lost page [of ?xs] held by (cases held) simp_all
qed

fun scan_left :: "uuid option \<Rightarrow> nat" where
  "scan_left None = Suc (2 ^ 128)"
| "scan_left (Some c) = 2 ^ 128 - unat c"

lemma scan_less: "after_cursor cursor i \<Longrightarrow> scan_left (Some i) < scan_left cursor"
proof -
  assume after: "after_cursor cursor i"
  have "unat i < 2 ^ LENGTH(128)" by (rule unsigned_less)
  with after show ?thesis by (cases cursor) (auto simp: after_cursor_def word_less_nat_alt)
qed

lemma sorted_last:
  assumes "sorted_wrt (<) ys" and "i \<in> set ys"
  shows "i \<le> (last ys :: uuid)"
  using assms
proof (induction ys)
  case (Cons y ys)
  then have "ys \<noteq> [] \<Longrightarrow> y < last ys" by simp
  with Cons show ?case by (cases "ys = []") (auto intro: less_imp_le)
qed simp

lemma scan_from:
  assumes inv: "\<And>j. mail_inv E (h j)" and keys: "\<And>j. mailbox_keys (rdb_mailboxes (h j))"
  shows "\<exists>fuel r. all_pending_delivery_ids fuel h k b cursor = Some r \<and> scanned h b cursor r"
proof (induction "scan_left cursor" arbitrary: k cursor rule: less_induct)
  case less
  show ?case
    using inv [of k] keys [of k]
  proof (cases rule: pending_page_cases [where b = b and cursor = cursor])
    case lost
    then show ?thesis by (intro exI [of _ "Suc 0"] exI [of _ "Inr None"]) (auto simp: scanned_def)
  next
    case (page xs)
    show ?thesis
    proof (cases "length xs < 50")
      case True
      then have "all_pending_delivery_ids (Suc 0) h k b cursor = Some (Inr (Some xs))" by (simp add: page(1))
      moreover have "scanned h b cursor (Inr (Some xs))" using page(2,3) by (auto simp: scanned_def)
      ultimately show ?thesis by blast
    next
      case False
      let ?page = "take 50 xs" and ?c = "last (take 50 xs)"
      from False have ne: "?page \<noteq> []" by auto
      then have c: "?c \<in> set ?page" by (rule last_in_set)
      then have "after_cursor cursor ?c" using page(3) by (meson in_set_takeD)
      from less [OF scan_less [OF this]] obtain fuel r where
        r: "all_pending_delivery_ids fuel h (Suc k) b (Some ?c) = Some r" and good: "scanned h b (Some ?c) r" by blast
      let ?r = "bindE r (\<lambda>rest. Inr (map_option (\<lambda>ids. ?page @ ids) rest))"
      have run: "all_pending_delivery_ids (Suc fuel) h k b cursor = Some ?r" using False by (simp add: page(1) r)
      have le: "i \<le> ?c" if "i \<in> set ?page" for i using sorted_last [OF sorted_wrt_take [OF page(2)] that] .
      have out: "?c < i" if "i \<in> set xs" "i \<notin> set ?page" for i
      proof -
        have "xs = ?page @ drop 50 xs" by simp
        with page(2) have "\<forall>x \<in> set ?page. \<forall>y \<in> set (drop 50 xs). x < y" by (metis sorted_wrt_append)
        moreover have "i \<in> set (drop 50 xs)" using that by (metis append_take_drop_id set_append Un_iff)
        ultimately show ?thesis using c by blast
      qed
      have "scanned h b cursor ?r"
      proof (cases "r = Inr None")
        case True
        with good show ?thesis by (simp add: scanned_def)
      next
        case False
        with good obtain ids where ids: "r = Inr (Some ids)" by (cases r) (auto simp: scanned_def split: option.split_asm)
        from good ids have s: "sorted_wrt (<) ids" "\<And>i. i \<in> set ids \<Longrightarrow> ?c < i \<and> (\<exists>j. pending_at b i (h j))"
          "\<And>i. ?c < i \<Longrightarrow> (\<forall>j. pending_at b i (h j)) \<Longrightarrow> i \<in> set ids" by (auto simp: scanned_def after_cursor_def)
        have "sorted_wrt (<) (?page @ ids)"
          unfolding sorted_wrt_append using s(1,2) le sorted_wrt_take [OF page(2)] by (meson le_less_trans)
        moreover have "after_cursor cursor i \<and> (\<exists>j. pending_at b i (h j))" if "i \<in> set (?page @ ids)" for i
        proof (cases "i \<in> set ?page")
          case True
          then show ?thesis using page(3) by (meson in_set_takeD)
        next
          case False
          with that s(2) have "?c < i" "\<exists>j. pending_at b i (h j)" by auto
          with \<open>after_cursor cursor ?c\<close> show ?thesis by (auto simp: after_cursor_def split: option.splits)
        qed
        moreover have "i \<in> set (?page @ ids)" if "after_cursor cursor i" "\<forall>j. pending_at b i (h j)" for i
          using that page(3) [of i] out [of i] s(3) [of i] by auto
        ultimately show ?thesis by (simp add: scanned_def ids)
      qed
      with run show ?thesis by blast
    qed
  qed
qed

text \<open>
  C40. The wake-up scan ends although deliveries come and go while it reads page after page, and
  never takes a lost binding for an empty mailbox: it answers None only when the binding was not
  current at one of its reads, and otherwise returns in strict order identifiers that each were
  pending at a read, among them every delivery that was pending throughout.
\<close>

theorem wake_scan_complete:
  assumes "\<forall>j. mail_inv E (h j) \<and> mailbox_keys (rdb_mailboxes (h j))"
  shows "\<exists>fuel r. all_pending_delivery_ids fuel h 0 b None = Some r
     \<and> (case r of
          Inl e \<Rightarrow> False
        | Inr None \<Rightarrow> \<exists>j. current_agent_binding b (h j) = Inr False
        | Inr (Some ids) \<Rightarrow> sorted_wrt (<) ids
            \<and> (\<forall>i \<in> set ids. \<exists>j. \<exists>d \<in> set (rdb_deliveries (h j)). dlv_delivery_id d = i \<and> open_delivery b d)
            \<and> (\<forall>i. (\<forall>j. \<exists>d \<in> set (rdb_deliveries (h j)). dlv_delivery_id d = i \<and> open_delivery b d) \<longrightarrow> i \<in> set ids))"
proof -
  obtain fuel r where "all_pending_delivery_ids fuel h 0 b None = Some r" "scanned h b None r"
    using scan_from [of E h 0 b None] assms by blast
  then show ?thesis unfolding scanned_def pending_at_def after_cursor_def option.case simp_thms by (intro exI [of _ fuel] exI [of _ r] conjI)
qed

theorem wake_scan_complete_witness:
  "\<exists>fuel ids. all_pending_delivery_ids fuel (\<lambda>_. demo_answered) 0 demo_mailbox None = Some (Inr (Some ids)) \<and> 11 \<in> set ids"
proof -
  have inv: "mail_inv demo_mail_code demo_answered"
    using mail_steps_write(1) [OF rtranclp_trans [OF demo_mail_steps] demo_empty_inv] .
  have keys: "mailbox_keys (rdb_mailboxes demo_answered)"
    by (simp add: mailbox_keys_def demo_mailbox_def demo_peer_def owner_key_def)
  have "open_delivery demo_mailbox demo_returned" "demo_returned \<in> set (rdb_deliveries demo_answered)"
    by (simp_all add: open_delivery_def demo_mailbox_def demo_returned_def)
  moreover obtain fuel r where "all_pending_delivery_ids fuel (\<lambda>_. demo_answered) 0 demo_mailbox None = Some r"
    "case r of Inl e \<Rightarrow> False | Inr None \<Rightarrow> \<exists>j::nat. current_agent_binding demo_mailbox demo_answered = Inr False
      | Inr (Some ids) \<Rightarrow> sorted_wrt (<) ids
            \<and> (\<forall>i \<in> set ids. \<exists>j::nat. \<exists>d \<in> set (rdb_deliveries demo_answered). dlv_delivery_id d = i \<and> open_delivery demo_mailbox d)
            \<and> (\<forall>i. (\<forall>j::nat. \<exists>d \<in> set (rdb_deliveries demo_answered). dlv_delivery_id d = i \<and> open_delivery demo_mailbox d)
                 \<longrightarrow> i \<in> set ids)"
    using wake_scan_complete [of demo_mail_code "\<lambda>_. demo_answered" demo_mailbox] inv keys by blast
  ultimately show ?thesis by (auto split: sum.split_asm option.split_asm)
qed

end
