(* ===== verification/Message_Calls.thy ===== *)
theory Message_Calls
  imports Message_Reads
begin

text \<open>
  The entry points before the message transactions: those of \<open>MessageState\<close> that hold the caller's
  grant locked, the causal engine \<open>_send_message\<close> behind the ordinary and managed sends
  (\<open>src/switchstand/mailbox/messages.py\<close>), and the sends between named agents
  (\<open>src/switchstand/mailbox/agent_messages.py\<close>). Other transactions may run between the reads of a
  call; \<open>i1\<close> and \<open>i2\<close> say what they do. The lock of a grant is a transaction around the call
  whose end may fail (\<open>lost\<close>).
\<close>

section \<open>Under a locked grant\<close>

definition locked_grant :: "mail_env \<Rightarrow> principal \<Rightarrow> runtime_db \<Rightarrow> work_grant option py_result" where
  "locked_grant E pr db = gs_current (mle_pkey E pr) (rdb_grants db)"

text \<open>The end of the outer \<open>try\<close>: what is caught, or a commit that fails, is answered as unavailable.\<close>

definition closing :: "(py_error \<Rightarrow> bool) \<Rightarrow> 'a \<Rightarrow> bool \<Rightarrow> 'a py_result \<times> 's \<Rightarrow> 'a py_result \<times> 's" where
  "closing caught unavailable lost out =
     (case fst out of
        Inl e \<Rightarrow> (if caught e then Inr unavailable else Inl e, snd out)
      | Inr x \<Rightarrow> (Inr (if lost then unavailable else x), snd out))"

definition grant_block ::
  "mail_env \<Rightarrow> int \<Rightarrow> principal \<Rightarrow> int \<Rightarrow> uuid option \<Rightarrow> (message_status \<Rightarrow> string \<Rightarrow> 'a)
     \<Rightarrow> (work_grant \<Rightarrow> runtime_db \<Rightarrow> 'a py_result \<times> runtime_db) \<Rightarrow> (runtime_db \<Rightarrow> runtime_db) \<Rightarrow> bool \<Rightarrow> runtime_db
     \<Rightarrow> 'a py_result \<times> runtime_db" where
  "grant_block E now pr version w no act i1 lost db =
     closing mail_caught (no Ms_recovery_required ''state_unavailable'') lost
       (case locked_grant E pr db of
          Inl e \<Rightarrow> (Inl e, db)
        | Inr grant \<Rightarrow>
            (case state_admission now pr grant version w of
               Some (st, reason) \<Rightarrow> (Inr (no st reason), db)
             | None \<Rightarrow> act (the grant) (i1 db)))"

abbreviation transition_no :: "message_status \<Rightarrow> string \<Rightarrow> transition_result" where
  "transition_no st reason \<equiv> delivery_answer st (Some reason) None"

definition effective_work :: "uuid option \<Rightarrow> work_grant \<Rightarrow> uuid" where
  "effective_work w g = (case w of None \<Rightarrow> la_active_work_id (wg_authority g) | Some u \<Rightarrow> u)"

definition submit_call ::
  "mail_env \<Rightarrow> principal \<Rightarrow> message_route \<Rightarrow> submit_request \<Rightarrow> (runtime_db \<Rightarrow> runtime_db) \<Rightarrow> bool \<Rightarrow> int \<times> txn_end \<Rightarrow> runtime_db
     \<Rightarrow> submit_result py_result \<times> runtime_db" where
  "submit_call E pr route req i1 lost t =
     grant_block E (fst t) pr (smr_grant_version req) None submit_no
       (\<lambda>g. submit_admitted E (la_active_work_id (wg_authority g)) route req None t) i1 lost"

definition pending_call ::
  "mail_env \<Rightarrow> principal \<Rightarrow> int \<Rightarrow> uuid option \<Rightarrow> nat \<Rightarrow> (runtime_db \<Rightarrow> runtime_db) \<Rightarrow> bool \<Rightarrow> int \<Rightarrow> runtime_db
     \<Rightarrow> pending_result py_result \<times> runtime_db" where
  "pending_call E pr version cursor limit i1 lost now =
     grant_block E now pr version None pending_no
       (\<lambda>g db. (pending_page (la_active_work_id (wg_authority g)) cursor limit None False db, db)) i1 lost"

definition receive_call ::
  "mail_env \<Rightarrow> principal \<Rightarrow> runtime_currentness \<Rightarrow> uuid \<Rightarrow> int \<Rightarrow> uuid option \<Rightarrow> (runtime_db \<Rightarrow> runtime_db) \<Rightarrow> bool
     \<Rightarrow> int \<times> txn_end \<Rightarrow> runtime_db \<Rightarrow> transition_result py_result \<times> runtime_db" where
  "receive_call E pr rt i version w i1 lost t =
     grant_block E (fst t) pr version w transition_no
       (\<lambda>g. receive_admitted (effective_work w g) (wg_version g) rt i None t) i1 lost"

definition recover_call ::
  "mail_env \<Rightarrow> principal \<Rightarrow> runtime_currentness \<Rightarrow> uuid \<Rightarrow> int \<Rightarrow> uuid option \<Rightarrow> (runtime_db \<Rightarrow> runtime_db) \<Rightarrow> bool
     \<Rightarrow> int \<times> txn_end \<Rightarrow> runtime_db \<Rightarrow> transition_result py_result \<times> runtime_db" where
  "recover_call E pr rt i version w i1 lost t =
     grant_block E (fst t) pr version w transition_no
       (\<lambda>g. recover_admitted (effective_work w g) (wg_version g) rt i None t) i1 lost"

definition disposition_call ::
  "mail_env \<Rightarrow> principal \<Rightarrow> runtime_currentness \<Rightarrow> disposition_request \<Rightarrow> uuid option \<Rightarrow> (runtime_db \<Rightarrow> runtime_db) \<Rightarrow> bool
     \<Rightarrow> int \<times> txn_end \<Rightarrow> runtime_db \<Rightarrow> transition_result py_result \<times> runtime_db" where
  "disposition_call E pr rt req w i1 lost t =
     grant_block E (fst t) pr (dsp_grant_version req) w transition_no
       (\<lambda>g. disposition_admitted E (effective_work w g) (wg_version g) rt req None t) i1 lost"

section \<open>The causal engine\<close>

definition handle_bound :: "uuid \<Rightarrow> runtime_db \<Rightarrow> bool py_result" where
  "handle_bound w db = bindE (one_or_none (filter (\<lambda>h. h_id h = w) (rdb_handles db))) (\<lambda>h. Inr (h \<noteq> None))"

definition send_caught :: "py_error \<Rightarrow> bool" where
  "send_caught e = (is_sqlalchemy_error e \<or> is_provider_error e \<or> is_value_error e \<or> e = KeyError)"

definition send_version :: "bool \<Rightarrow> work_grant option \<Rightarrow> send_request \<Rightarrow> int" where
  "send_version infer grant req =
     (case grant of Some g \<Rightarrow> if infer then wg_version g else snr_grant_version req | None \<Rightarrow> snr_grant_version req)"

text \<open>What is submitted: the route of the recipient's grant, and a request or a result of the same content.\<close>

definition submitted_route :: "uuid \<Rightarrow> work_grant \<Rightarrow> message_route" where
  "submitted_route w target = \<lparr>mrt_recipient_work_id = w, mrt_recipient_grant_version = wg_version target\<rparr>"

definition submitted_request :: "send_request \<Rightarrow> int \<Rightarrow> string \<Rightarrow> bool \<Rightarrow> submit_request" where
  "submitted_request req version route_ref is_result =
     \<lparr>smr_message_id = snr_message_id req, smr_grant_version = version, smr_route_ref = route_ref,
      smr_kind = (if is_result then Kind_result else Kind_request), smr_payload = snr_payload req,
      smr_in_reply_to = snr_in_reply_to req\<rparr>"

text \<open>After the replay found nothing: the recipient's route and handle, the reserved routes, the store.\<close>

definition send_fresh ::
  "mail_env \<Rightarrow> bool \<Rightarrow> send_request \<Rightarrow> string option \<Rightarrow> work_grant \<Rightarrow> (uuid \<times> string) option \<Rightarrow> uuid option \<Rightarrow> work_grant option
     \<Rightarrow> (runtime_db \<Rightarrow> runtime_db) \<Rightarrow> int \<times> txn_end \<Rightarrow> runtime_db \<Rightarrow> submit_result py_result \<times> runtime_db" where
  "send_fresh E cutoff req generation g context recipient target i2 t db =
     (if context = None \<and> snr_in_reply_to req \<noteq> None
      then (Inr (submit_no Ms_conflict ''reply_delivery_not_found''), db)
      else
        case (target, recipient) of
          (Some tg, Some w) \<Rightarrow>
            (case handle_bound w db of
               Inl e \<Rightarrow> (Inl e, db)
             | Inr False \<Rightarrow> (Inr (submit_no Ms_denied ''recipient_route_unavailable''), db)
             | Inr True \<Rightarrow>
                 (case (case context of None \<Rightarrow> snr_route_ref req | Some (_, ref) \<Rightarrow> Some ref) of
                    None \<Rightarrow> (Inl AssertionError, db)
                  | Some ref \<Rightarrow>
                      if cutoff \<and> ref \<in> set REVIEW_ROUTE_REFS
                      then (Inr (submit_no Ms_denied ''reserved_route''), db)
                      else
                        let submitted = submitted_request req (wg_version g) ref (context \<noteq> None);
                            route = submitted_route w tg in
                        if wg_version tg < 1 \<or> \<not> valid_submit_request submitted then (Inl ValidationError, db)
                        else
                          (case generation of
                             Some gen \<Rightarrow>
                               submit_received_result E (snr_work_id req) (wg_version g) gen route submitted None t (i2 db)
                           | None \<Rightarrow> submit_admitted E (snr_work_id req) route submitted None t (i2 db))))
        | (None, Some _) \<Rightarrow> (Inr (submit_no Ms_denied ''recipient_route_unavailable''), db)
        | (_, None) \<Rightarrow> (Inl AssertionError, db))"

definition send_admitted ::
  "mail_env \<Rightarrow> bool \<Rightarrow> principal \<Rightarrow> send_request \<Rightarrow> bool \<Rightarrow> string option \<Rightarrow> (uuid \<times> string) option
     \<Rightarrow> (runtime_db \<Rightarrow> runtime_db) \<Rightarrow> int \<times> txn_end \<Rightarrow> int \<times> txn_end \<Rightarrow> runtime_db \<Rightarrow> submit_result py_result \<times> runtime_db" where
  "send_admitted E cutoff pr req infer generation context i2 t1 t2 db =
     (let recipient = (case snr_in_reply_to req of None \<Rightarrow> snr_recipient_work_id req | Some _ \<Rightarrow> map_option fst context) in
      case locked_message_route (mle_pkey E) (fst t1) (mle_pkey E pr) recipient (rdb_grants db) of
        Inl e \<Rightarrow> (Inl e, db)
      | Inr (grant, target) \<Rightarrow>
          (case message_admission (fst t1) pr grant (send_version infer grant req) (Some (snr_work_id req)) of
             Some (st, reason) \<Rightarrow> (Inr (submit_no st reason), db)
           | None \<Rightarrow>
               (case handle_bound (snr_work_id req) db of
                  Inl e \<Rightarrow> (Inl e, db)
                | Inr False \<Rightarrow> (Inr (submit_no Ms_denied ''actor_not_admitted''), db)
                | Inr True \<Rightarrow>
                    (case committed_public_replay E (snr_work_id req) req None t1 db of
                       (Inl e, db1) \<Rightarrow> (Inl e, db1)
                     | (Inr (Some r), db1) \<Rightarrow> (Inr r, db1)
                     | (Inr None, db1) \<Rightarrow>
                         send_fresh E cutoff req generation (the grant) context recipient target i2 t2 db1))))"

definition send_engine ::
  "mail_env \<Rightarrow> bool \<Rightarrow> principal \<Rightarrow> send_request \<Rightarrow> runtime_currentness option \<Rightarrow> bool \<Rightarrow> bool
     \<Rightarrow> (runtime_db \<Rightarrow> runtime_db) \<Rightarrow> (runtime_db \<Rightarrow> runtime_db) \<Rightarrow> bool \<Rightarrow> int \<times> txn_end \<Rightarrow> int \<times> txn_end \<Rightarrow> runtime_db
     \<Rightarrow> submit_result py_result \<times> runtime_db" where
  "send_engine E cutoff pr req rt infer require i1 i2 lost t1 t2 db =
     (if (case rt of None \<Rightarrow> False | Some r \<Rightarrow> runtime_admission r \<noteq> None) then (Inr submit_unavailable, db)
      else
        closing send_caught submit_unavailable lost
          (case (case snr_in_reply_to req of None \<Rightarrow> Inr None | Some i \<Rightarrow> reply_context i db) of
             Inl e \<Rightarrow> (Inl e, db)
           | Inr context \<Rightarrow>
               send_admitted E cutoff pr req infer (if require then map_option rcn_generation rt else None)
                 context i2 t1 t2 (i1 db)))"

definition send_message ::
  "mail_env \<Rightarrow> bool \<Rightarrow> principal \<Rightarrow> send_request \<Rightarrow> (runtime_db \<Rightarrow> runtime_db) \<Rightarrow> (runtime_db \<Rightarrow> runtime_db) \<Rightarrow> bool
     \<Rightarrow> int \<times> txn_end \<Rightarrow> int \<times> txn_end \<Rightarrow> runtime_db \<Rightarrow> submit_result py_result \<times> runtime_db" where
  "send_message E cutoff pr req = send_engine E cutoff pr req None False False"

definition send_managed_result ::
  "mail_env \<Rightarrow> bool \<Rightarrow> principal \<Rightarrow> send_request \<Rightarrow> runtime_currentness \<Rightarrow> (runtime_db \<Rightarrow> runtime_db) \<Rightarrow> (runtime_db \<Rightarrow> runtime_db)
     \<Rightarrow> bool \<Rightarrow> int \<times> txn_end \<Rightarrow> int \<times> txn_end \<Rightarrow> runtime_db \<Rightarrow> submit_result py_result \<times> runtime_db" where
  "send_managed_result E cutoff pr req rt i1 i2 lost t1 t2 db =
     (if snr_in_reply_to req = None then (Inl ValueError, db)
      else send_engine E cutoff pr req (Some rt) True True i1 i2 lost t1 t2 db)"

definition send_received_result ::
  "mail_env \<Rightarrow> bool \<Rightarrow> principal \<Rightarrow> send_request \<Rightarrow> runtime_currentness \<Rightarrow> (runtime_db \<Rightarrow> runtime_db) \<Rightarrow> (runtime_db \<Rightarrow> runtime_db)
     \<Rightarrow> bool \<Rightarrow> int \<times> txn_end \<Rightarrow> int \<times> txn_end \<Rightarrow> runtime_db \<Rightarrow> submit_result py_result \<times> runtime_db" where
  "send_received_result E cutoff pr req rt i1 i2 lost t1 t2 db =
     (if snr_in_reply_to req = None then (Inl ValueError, db)
      else send_engine E cutoff pr req (Some rt) False True i1 i2 lost t1 t2 db)"

section \<open>Reading the inbox of a work\<close>

definition current_message_grant_version :: "mail_env \<Rightarrow> principal \<Rightarrow> runtime_db \<Rightarrow> int option py_result" where
  "current_message_grant_version E pr db =
     (case gs_current (mle_pkey E pr) (rdb_grants db) of
        Inl e \<Rightarrow> if mail_caught e then Inr None else Inl e
      | Inr g \<Rightarrow> Inr (Some (case g of None \<Rightarrow> 1 | Some g \<Rightarrow> wg_version g)))"

definition pending_engine ::
  "mail_env \<Rightarrow> principal \<Rightarrow> uuid \<Rightarrow> int \<Rightarrow> uuid option \<Rightarrow> nat \<Rightarrow> runtime_currentness option \<Rightarrow> bool
     \<Rightarrow> (runtime_db \<Rightarrow> runtime_db) \<Rightarrow> (runtime_db \<Rightarrow> runtime_db) \<Rightarrow> bool \<Rightarrow> int \<Rightarrow> runtime_db
     \<Rightarrow> pending_result py_result \<times> runtime_db" where
  "pending_engine E pr w version cursor limit rt infer i1 i2 lost now db =
     (let unavailable = pending_no Ms_recovery_required ''state_unavailable'' in
      if (case rt of None \<Rightarrow> False | Some r \<Rightarrow> runtime_admission r \<noteq> None) then (Inr unavailable, db)
      else if infer then
        (case current_message_grant_version E pr db of
           Inl e \<Rightarrow> (Inl e, db)
         | Inr None \<Rightarrow> (Inr unavailable, db)
         | Inr (Some v) \<Rightarrow> pending_call E pr v cursor limit i2 lost now (i1 db))
      else
        closing send_caught unavailable lost
          (case locked_grant E pr db of
             Inl e \<Rightarrow> (Inl e, db)
           | Inr grant \<Rightarrow>
               (case message_admission now pr grant version (Some w) of
                  Some (st, reason) \<Rightarrow> (Inr (pending_no st reason), db)
                | None \<Rightarrow>
                    (case handle_bound w (i1 db) of
                       Inl e \<Rightarrow> (Inl e, i1 db)
                     | Inr False \<Rightarrow> (Inr (pending_no Ms_denied ''actor_not_admitted''), i1 db)
                     | Inr True \<Rightarrow> (pending_admitted w cursor limit None False (i2 (i1 db)), i2 (i1 db))))))"

definition pending_messages ::
  "mail_env \<Rightarrow> principal \<Rightarrow> uuid \<Rightarrow> int \<Rightarrow> uuid option \<Rightarrow> nat \<Rightarrow> (runtime_db \<Rightarrow> runtime_db) \<Rightarrow> (runtime_db \<Rightarrow> runtime_db)
     \<Rightarrow> bool \<Rightarrow> int \<Rightarrow> runtime_db \<Rightarrow> pending_result py_result \<times> runtime_db" where
  "pending_messages E pr w version cursor limit = pending_engine E pr w version cursor limit None False"

definition pending_managed_messages ::
  "mail_env \<Rightarrow> principal \<Rightarrow> uuid \<Rightarrow> int \<Rightarrow> uuid option \<Rightarrow> nat \<Rightarrow> runtime_currentness \<Rightarrow> (runtime_db \<Rightarrow> runtime_db)
     \<Rightarrow> (runtime_db \<Rightarrow> runtime_db) \<Rightarrow> bool \<Rightarrow> int \<Rightarrow> runtime_db \<Rightarrow> pending_result py_result \<times> runtime_db" where
  "pending_managed_messages E pr w version cursor limit rt = pending_engine E pr w version cursor limit (Some rt) True"

section \<open>Sends between named agents\<close>

datatype named_result = Agent_refusal message_status string | Message_result submit_result

definition AGENT_MESSAGE_PAYLOAD_LIMIT :: nat where
  "AGENT_MESSAGE_PAYLOAD_LIMIT = 800"

definition agent_send_request :: "agent_mailbox \<Rightarrow> uuid \<Rightarrow> string \<Rightarrow> uuid \<Rightarrow> json \<Rightarrow> send_request" where
  "agent_send_request sender message route_ref recipient payload =
     \<lparr>snr_work_id = amb_endpoint_id sender, snr_grant_version = amb_generation sender, snr_message_id = message,
      snr_route_ref = Some route_ref, snr_payload = payload, snr_recipient_work_id = Some recipient, snr_in_reply_to = None\<rparr>"

definition agent_submit_request :: "agent_mailbox \<Rightarrow> uuid \<Rightarrow> string \<Rightarrow> json \<Rightarrow> submit_request" where
  "agent_submit_request sender message route_ref payload =
     \<lparr>smr_message_id = message, smr_grant_version = amb_generation sender, smr_route_ref = route_ref,
      smr_kind = Kind_request, smr_payload = payload, smr_in_reply_to = None\<rparr>"

definition replay_agent_request ::
  "mail_env \<Rightarrow> agent_mailbox \<Rightarrow> uuid \<Rightarrow> json \<Rightarrow> (runtime_db \<Rightarrow> runtime_db) \<Rightarrow> int \<times> txn_end \<Rightarrow> runtime_db
     \<Rightarrow> submit_result option py_result \<times> runtime_db" where
  "replay_agent_request E sender message payload i1 t db =
     (case one_or_none (filter (\<lambda>row. msg_key (snd row) = (amb_endpoint_id sender, message)) (pending_query db)) of
        Inl e \<Rightarrow> (Inl e, db)
      | Inr None \<Rightarrow> (Inr None, db)
      | Inr (Some row) \<Rightarrow>
          let req = agent_send_request sender message (msg_route_ref (snd row)) (dlv_recipient_work_id (fst row)) payload in
          if \<not> valid_send_request req then (Inl ValidationError, db)
          else committed_public_replay E (amb_endpoint_id sender) req (Some sender) t (i1 db))"

definition send_agent_request ::
  "mailbox_env \<Rightarrow> mail_env \<Rightarrow> (json \<Rightarrow> nat) \<Rightarrow> agent_mailbox \<Rightarrow> string \<Rightarrow> uuid \<Rightarrow> json \<Rightarrow> (uuid \<times> int) option
     \<Rightarrow> (runtime_db \<Rightarrow> runtime_db) \<Rightarrow> (runtime_db \<Rightarrow> runtime_db) \<Rightarrow> int \<times> txn_end \<Rightarrow> int \<times> txn_end \<Rightarrow> runtime_db
     \<Rightarrow> named_result py_result \<times> runtime_db" where
  "send_agent_request M E chars sender name message payload expected i1 i2 t1 t2 db =
     (case by_name M name db of
        Inl e \<Rightarrow> (Inl e, db)
      | Inr found \<Rightarrow>
          if mbr_status found = Mb_recovery_required
          then (Inr (Agent_refusal Ms_recovery_required ''state_unavailable''), db)
          else
            (case (mbr_status found, mbr_mailbox found) of
               (Mb_ok, Some to) \<Rightarrow>
                 let ref = ''agent.'' @ amb_name_key to;
                     again = agent_send_request sender message ref (amb_endpoint_id to) payload;
                     fresh = agent_submit_request sender message ref payload in
                 if \<not> valid_send_request again then (Inl ValidationError, db)
                 else
                   (case committed_public_replay E (amb_endpoint_id sender) again (Some sender) t1 (i1 db) of
                      (Inl e, db1) \<Rightarrow> (Inl e, db1)
                    | (Inr (Some r), db1) \<Rightarrow> (Inr (Message_result r), db1)
                    | (Inr None, db1) \<Rightarrow>
                        if expected \<noteq> None \<and> expected \<noteq> Some (amb_endpoint_id to, amb_generation to)
                        then (Inr (Agent_refusal Ms_stale ''recipient_binding_changed''), db1)
                        else if chars payload > AGENT_MESSAGE_PAYLOAD_LIMIT
                        then (Inr (Agent_refusal Ms_denied ''payload_too_large''), db1)
                        else
                          (case submit_admitted E (amb_endpoint_id sender)
                                  \<lparr>mrt_recipient_work_id = amb_endpoint_id to, mrt_recipient_grant_version = amb_generation to\<rparr>
                                  fresh (Some sender) t2 (i2 db1) of
                             (Inl e, db2) \<Rightarrow> (Inl e, db2)
                           | (Inr r, db2) \<Rightarrow> (Inr (Message_result r), db2)))
             | _ \<Rightarrow> (Inr (Agent_refusal Ms_denied ''recipient_not_registered''), db)))"

section \<open>Admission\<close>

definition admits :: "int \<Rightarrow> principal \<Rightarrow> int \<Rightarrow> uuid option \<Rightarrow> work_grant \<Rightarrow> bool" where
  "admits now pr version w g =
     (wg_principal g = pr \<and> grant_current now g \<and> wg_version g = version \<and> Message \<in> wg_operations g
      \<and> (w \<noteq> None \<and> wg_scope g = Launch \<longrightarrow> w = Some (la_active_work_id (wg_authority g))))"

lemma message_admission_None:
  "message_admission now pr grant version w = None \<longleftrightarrow> (\<exists>g. grant = Some g \<and> admits now pr version w g)"
  by (cases grant) (auto simp: message_admission_def admits_def)

lemma message_admission_failure: "message_admission now pr grant version w = Some (st, reason) \<Longrightarrow> st \<noteq> Ms_ok"
  by (auto simp: message_admission_def split: option.split_asm if_split_asm)

lemma state_admission_None:
  "state_admission now pr grant version w = None \<longleftrightarrow> (\<exists>g. grant = Some g \<and> admits now pr version w g)"
  unfolding message_admission_None [symmetric]
  by (auto simp: state_admission_def split: option.splits)

text \<open>A call under a locked grant reaches the tables only for an admitted caller.\<close>

lemma grant_block_admitted:
  assumes "grant_block E now pr version w no act i1 lost db = (r, db')" and "db' \<noteq> db"
  obtains g where "locked_grant E pr db = Inr (Some g)" "admits now pr version w g" "db' = snd (act g (i1 db))"
proof -
  obtain grant where g: "locked_grant E pr db = Inr grant"
    using assms by (cases "locked_grant E pr db") (auto simp: grant_block_def closing_def split: if_split_asm)
  show thesis
  proof (cases "state_admission now pr grant version w")
    case None
    then obtain g0 where g0: "grant = Some g0" "admits now pr version w g0" by (auto simp: state_admission_None)
    from assms(1) have "db' = snd (act g0 (i1 db))"
      unfolding grant_block_def closing_def g g0(1) sum.case
      using None [unfolded g0(1)] by (auto split: sum.split_asm)
    with that g g0 show thesis by blast
  next
    case (Some f)
    with assms g show thesis by (cases f) (auto simp: grant_block_def closing_def)
  qed
qed

text \<open>A send is answered with a message only for an admitted caller whose work has a handle.\<close>

lemma send_needs_admission:
  assumes "send_engine E cutoff pr req rt infer require i1 i2 lost t1 t2 db = (Inr r, db')" and "sbr_status r = Ms_ok"
  shows "\<exists>g target recipient. locked_message_route (mle_pkey E) (fst t1) (mle_pkey E pr) recipient (rdb_grants (i1 db)) = Inr (Some g, target)
     \<and> admits (fst t1) pr (send_version infer (Some g) req) (Some (snr_work_id req)) g
     \<and> handle_bound (snr_work_id req) (i1 db) = Inr True"
proof -
  have no: "sbr_status (submit_no st reason) = st" for st reason by (simp add: submit_no_def)
  from assms obtain ctx where s: "fst (send_admitted E cutoff pr req infer (if require then map_option rcn_generation rt else None)
      ctx i2 t1 t2 (i1 db)) = Inr r"
    by (auto simp: send_engine_def closing_def no split: if_split_asm sum.split_asm prod.split_asm)
  let ?recipient = "case snr_in_reply_to req of None \<Rightarrow> snr_recipient_work_id req | Some _ \<Rightarrow> map_option fst ctx"
  obtain grant target where route: "locked_message_route (mle_pkey E) (fst t1) (mle_pkey E pr) ?recipient (rdb_grants (i1 db)) = Inr (grant, target)"
    using s by (cases "locked_message_route (mle_pkey E) (fst t1) (mle_pkey E pr) ?recipient (rdb_grants (i1 db))")
      (auto simp: send_admitted_def)
  note s = s [unfolded send_admitted_def Let_def route sum.case prod.case]
  have adm: "message_admission (fst t1) pr grant (send_version infer grant req) (Some (snr_work_id req)) = None"
    using s assms(2) by (cases "message_admission (fst t1) pr grant (send_version infer grant req) (Some (snr_work_id req))")
      (auto simp: no split: prod.split_asm dest: message_admission_failure)
  then obtain g where g: "grant = Some g" "admits (fst t1) pr (send_version infer grant req) (Some (snr_work_id req)) g"
    by (auto simp: message_admission_None)
  note s = s [unfolded adm option.case]
  have "handle_bound (snr_work_id req) (i1 db) = Inr True"
    using s assms(2) by (cases "handle_bound (snr_work_id req) (i1 db)") (auto simp: no split: bool.split_asm)
  with route g show ?thesis by blast
qed

text \<open>The submissions are steps of the message histories.\<close>

lemma submit_steps:
  assumes "valid_submit_request req" and "identities_agree E sender route req db"
  shows "submit_admitted E sender route req binding t db = (r, db') \<Longrightarrow> mail_step E db db'"
    and "submit_received_result E sender version generation route req binding t db = (r, db') \<Longrightarrow> mail_step E db db'"
  using ms_store [OF assms]
  by (auto simp: submit_admitted_def submit_received_result_def split: prod.split_asm)

end
