(* ===== verification/Spec2Isabelle.thy ===== *)
theory Spec2Isabelle
  imports Effect_Safety Work_Policy Work_Relations Lifecycle Agent_Broker Human_Trajectory
    Outcome_State Activation_Store Canonical_Reads Message_Calls
begin

text \<open>
  Verification of Switchstand, a provider-neutral controller for bounded engineering work
  (\<open>src/src/switchstand/\<close>). The program keeps work identities, grants and the journal of
  protected effects in PostgreSQL, asks external providers for effects, and hands out host
  resources to worker agents. The theories model its core; each names its source files.

  \<^medskip>\<^bold>\<open>The parts and how they interact.\<close>
  A caller (\<open>principal\<close>) presents a protected request to a gateway. The gateway reads the
  caller's grant under a row lock, looks up the operation in the effect journal, prepares an
  intent, asks the provider, and records the outcome. Reads and unprotected writes go through the
  controller. Work that Switchstand itself owns lives in canonical tables: work rows, event
  streams and relations. Results that must be persisted are obligations with their own state
  machine. The lease broker admits workers within a budget. Human direction, owner outcomes and
  product activation are append-only chains of revisions. Agents hold named mailboxes and exchange
  messages whose deliveries are disposed of against evidence.

  \<^item> \<open>Switch_Prelude\<close>, \<open>Py_Ident\<close>: exceptions, results as sums, state-passing programs with
    \<open>except\<close>, SQL reads; 128-bit UUIDs with \<open>str\<close> and \<open>UUID(...)\<close>, time stamps, JSON.
  \<^item> \<open>Contracts\<close> (\<open>contracts.py\<close>), \<open>Grants\<close> (\<open>grants.py\<close>, \<open>pull_requests.py\<close>): the
    Pydantic models as records, with their validators as predicates.
  \<^item> \<open>Grant_State\<close> (\<open>grant_state.py\<close>): grant issuance and the effect journal.
  \<^item> \<open>Core_Types\<close>, \<open>World\<close>, \<open>State_Store\<close> (\<open>state.py\<close>), \<open>Core_Controller\<close> (\<open>core.py\<close>):
    the provider interface, the world a program runs in (tables, clock, fresh identifiers,
    provider state, a schedule of database faults), work handles, controller operations.
  \<^item> \<open>Mutation_Effect\<close>, \<open>Update_Gateway\<close>, \<open>Relation_Gateway\<close>
    (\<open>tracker/mutation_effect.py\<close>, \<open>updates.py\<close>, \<open>provider_relations.py\<close>): the durable effect
    lifecycle and its two clients. \<open>Effect_Safety\<close> holds the properties of their composition.
  \<^item> \<open>Work_Policy\<close>, \<open>Work_Store\<close>, \<open>Work_Events\<close>, \<open>Work_Relations\<close> (\<open>tracker/policy.py\<close>,
    \<open>work.py\<close>, \<open>events.py\<close>, \<open>relations.py\<close>): canonical work.
  \<^item> \<open>Lifecycle\<close> (\<open>lifecycle.py\<close>): required-result persistence.
  \<^item> \<open>Agent_Broker\<close> (\<open>agent_broker.py\<close>): resource leases.
  \<^item> \<open>Revision_Chain\<close>: the validation loop the three chain stores share, and its contract.
    \<open>Human_Trajectory\<close> (\<open>human_trajectory.py\<close>), \<open>Outcome_State\<close> (\<open>outcome_state.py\<close>),
    \<open>Activation_Continuity\<close> and \<open>Activation_Store\<close> (\<open>activation_continuity.py\<close>,
    \<open>activation_continuity_store.py\<close>, \<open>activation_contract_loader.py\<close>).
  \<^item> \<open>Human_Review\<close> (\<open>human_reviews.py\<close>): approval consequences, baselines and decisions.
  \<^item> \<open>Canonical_Txn\<close>, \<open>Canonical_Update\<close>, \<open>Canonical_Relation\<close>, \<open>Canonical_Create\<close>,
    \<open>Canonical_Feedback\<close> (\<open>tracker/runtime.py\<close>, \<open>creates.py\<close>), \<open>Canonical_Append\<close>
    (\<open>tracker/appends.py\<close>), \<open>Pull_Requests\<close> (\<open>pull_requests.py\<close>): protected writes of canonical
    work, on top of the work store, the events, the relations, the journal, the policy and the
    reviews: what the writes share, scalar updates, relation writes with pull-request ownership,
    creates, feedback classification and appends. \<open>Canonical_Runtime\<close> composes all of them on one
    set of tables. \<open>Canonical_Reads\<close> (\<open>tracker/runtime.py\<close>, \<open>event_reads.py\<close>) are its public
    reads, each a sequence of queries while other transactions run.
  \<^item> \<open>Mail_Tables\<close>, \<open>Agent_Mailboxes\<close> (\<open>mailbox/agent_mailboxes.py\<close>): named mailboxes, their
    takeover and transfer, and the fence on a binding. \<open>Message_State\<close>, \<open>Message_Reads\<close>,
    \<open>Message_Calls\<close> (\<open>mailbox/messages.py\<close>, \<open>agent_messages.py\<close>): durable messages, the
    transitions of a delivery, the inbox and the entry points; \<open>Message_Safety\<close> holds the
    properties of their histories.

  \<^medskip>\<^bold>\<open>Modelling.\<close>
  A method of a repository is a function of the table state that returns the new state or the
  exception. A coroutine that touches several stores is a \<open>prog\<close>: a function of the world that
  returns a result or an exception together with the world, which survives an exception. Every
  \<open>raise\<close>, early \<open>return\<close> and \<open>except\<close> clause is a branch. \<open>CHECK\<close>, unique and foreign-key
  constraints are tests before a write. Code outside the repository is a parameter: providers
  (a record of functions of the provider's own state), \<open>json.dumps\<close> and digests
  (\<open>json \<Rightarrow> string\<close>), case folding, and what is read from \<open>/proc\<close> or an inbox file. Integers are
  unbounded, as in Python; identifiers are 128-bit words; broker times are exact rationals with the
  non-finite float values.

  \<^medskip>\<^bold>\<open>Interfaces.\<close>
  \<open>cas_register\<close> (\<open>Cas_Register\<close>) is the optimistic-concurrency contract of a keyed, versioned
  store; grant issuance, canonical work and obligations interpret it, and each inherits that no
  update is lost. \<open>paged_source\<close> (\<open>Paged_Source\<close>) is the contract of a cursor-paged read; work
  search, work history and the message inbox interpret it and inherit that following cursors yields
  the whole listing once. \<open>revision_chain\<close> and \<open>decoded_chain\<close> (\<open>Revision_Chain\<close>) are the contract of an
  append-only chain, on revisions and on the rows they are decoded from; the three chain stores
  interpret it and inherit that a constrained insert cannot fork a chain and that the newest
  identity fixes the whole of it. \<open>mutation_callbacks\<close> and \<open>quiet_reconcile\<close> (\<open>Mutation_Effect\<close>) say what the
  shared effect lifecycle may assume of a gateway's \<open>prepare\<close>, \<open>send\<close> and \<open>reconcile\<close>; both
  gateways interpret them. \<open>journalled_call\<close> (\<open>Canonical_Txn\<close>) is the contract of a write that
  journals itself in its own transaction, with the attempts around it; canonical updates, relation
  writes, creates, appends and feedback classifications interpret it, as does their sum
  (\<open>Canonical_Runtime\<close>), and inherit that they answer truthfully. The judgements \<open>frames\<close> and \<open>yields\<close> (\<open>Prog_Logic\<close>) relate the states
  and bound the results of programs.

  \<^medskip>\<^bold>\<open>What is shown.\<close>
  Effects: over any history of calls, provider answers and database faults, one operation asks a
  provider at most once; an unresolved effect blocks its target; a reported outcome is truthful and
  is what the journal holds; a settled operation replays. Controller: results satisfy their
  contracts, updates converge or say they are unknown, provisioning is bounded, bound handles are
  stable. Canonical work: replacement loses no update; event streams are gapless, append-only and
  idempotent; pages are complete; accepted changes keep a state coherent; parents stay a forest and
  the recursive cycle query ends. Obligations: the transition table refines an abstract machine in
  both directions, histories only advance, and an obligation can finish exactly while it is
  current. Broker: the whole tree of leases stays within the root budget and the host's headroom,
  leases are released only with proof, requests are answered once. Chains: under any interleaving
  of appends that read an earlier table, histories stay linear and valid, an append is applied
  once and replayed afterwards; outcome summaries are the ordered projection of the newest
  snapshot; an activation is delivered only with its recorded proofs. Reviews: the approved
  baselines of a package stay one linear supersession history under any interleaving with writes
  to its work, and a decision is final. Canonical writes: every kind of write is atomic with
  its journal entry and answers truthfully across a retry, and no operation id is ever applied
  twice, whatever runs in between; a relation write never hides a pending review; pull requests change hands only against a delivered acceptance; and under any
  interleaving the relation tables stay well formed, no work becomes or is created incoherent, and notes stay
  within their bound while an approved task text is current. Canonical reads: equal revisions
  mean that nothing of a work changed in between, so an item, a history followed page by page and a
  suggestion are snapshots or say that they are stale. Mailboxes: a lost binding never becomes
  current again, and a mailbox changes its principal only with authority. Messages: in every
  history messages are immutable, replies are unique and come from the addressee, deliveries only
  advance, dispositions are final and made against true evidence, committed messages answer every
  repetition; inbox pages are complete, and the wake-up scan ends and misses nothing that stays
  pending. SHA-256 and \<open>uuid5\<close> enter as the named hypothesis \<open>identities_agree\<close> at each submission.

  \<^medskip>\<^bold>\<open>Bounds and fuel.\<close>
  \<open>Work_Relations.ancestors\<close> walks parents with fuel; the number of parent rows plus one is
  proved enough on every reachable table. \<open>Paged_Source.collect\<close> follows cursors with fuel;
  the length of the listing plus one is proved enough. \<open>Canonical_Reads.follow_history\<close> reads pages
  with the number of events plus one as fuel. \<open>Message_Reads.all_pending_delivery_ids\<close> takes fuel, and some fuel is proved to be enough for
  every sequence of tables. Every other loop is structural.

  \<^medskip>\<^bold>\<open>Not modelled.\<close>
  Isolation anomalies below the row locks the code takes; float rounding; NUL bytes in text other
  than where the code tests for them; file permissions and durability (\<open>fsync\<close>); the HTTP, OAuth,
  MCP, Docker, systemd and Git layers, which only transport calls to the modelled operations or act
  on the host; the one-shot migration and report tools. The provider-side append and create gateways,
  the projection of pull-request links, review occurrences, the attention summary and the wake-up of
  host processes, task runs, priority claims and monitoring are not modelled.
\<close>

end
